(* ===== verification/Labby_Prelude.thy ===== *)
theory Labby_Prelude
  imports Main "HOL-Library.Word" "HOL-Library.Sublist"
begin

text \<open>
  Shared vocabulary of the development: Rust strings as byte lists, the string
  operations of the standard library that the sources call, fallible results, the
  saturating arithmetic of \<open>u32\<close>/\<open>u64\<close>, and the lemmas every component reuses.

  A Rust \<open>str\<close> is a UTF-8 byte sequence; it is modelled by \<^typ>\<open>string\<close>, whose
  characters are bytes, so \<open>len()\<close> is \<^const>\<open>length\<close>. Substring search, prefix and
  suffix tests and splitting at an ASCII character agree on bytes and on code points,
  because UTF-8 is self-synchronising. The operations that look at code points
  (\<open>trim\<close>, \<open>is_char_boundary\<close>, UTF-8 validation) are written out on bytes.
\<close>

named_theorems labby_str \<open>rewriting of the string operations into library notions\<close>
named_theorems labby_res \<open>inversion of fallible computations\<close>

section \<open>Fallible results\<close>

text \<open>\<open>Result<A, E>\<close> is \<^typ>\<open>'e + 'a\<close>; \<open>Inl\<close> is \<open>Err\<close>. The \<open>?\<close> operator is \<open>and_then\<close>.\<close>

definition and_then :: "'e + 'a \<Rightarrow> ('a \<Rightarrow> 'e + 'b) \<Rightarrow> 'e + 'b" where
  "and_then r f = (case r of Inl e \<Rightarrow> Inl e | Inr x \<Rightarrow> f x)"

definition ensure :: "bool \<Rightarrow> 'e \<Rightarrow> 'e + unit" where
  "ensure b e = (if b then Inr () else Inl e)"

definition map_err :: "('e \<Rightarrow> 'f) \<Rightarrow> 'e + 'a \<Rightarrow> 'f + 'a" where
  "map_err f r = (case r of Inl e \<Rightarrow> Inl (f e) | Inr x \<Rightarrow> Inr x)"

definition ok_or :: "'a option \<Rightarrow> 'e \<Rightarrow> 'e + 'a" where
  "ok_or x e = (case x of None \<Rightarrow> Inl e | Some y \<Rightarrow> Inr y)"

definition is_ok :: "'e + 'a \<Rightarrow> bool" where
  "is_ok r = (case r of Inl _ \<Rightarrow> False | Inr _ \<Rightarrow> True)"

lemma and_then_simps [simp]:
  "and_then (Inl e) f = Inl e"
  "and_then (Inr x) f = f x"
  by (simp_all add: and_then_def)

lemma and_then_Inr [labby_res]:
  "and_then r f = Inr y \<longleftrightarrow> (\<exists>x. r = Inr x \<and> f x = Inr y)"
  by (cases r) simp_all

lemma and_then_Inl [labby_res]:
  "and_then r f = Inl e \<longleftrightarrow> r = Inl e \<or> (\<exists>x. r = Inr x \<and> f x = Inl e)"
  by (cases r) auto

lemma ensure_iff [simp, labby_res]:
  "ensure b e = Inr u \<longleftrightarrow> b"
  "ensure b e = Inl e' \<longleftrightarrow> \<not> b \<and> e' = e"
  by (auto simp: ensure_def)

lemma map_err_iff [simp, labby_res]:
  "map_err f r = Inr y \<longleftrightarrow> r = Inr y"
  "map_err f r = Inl e \<longleftrightarrow> (\<exists>e'. r = Inl e' \<and> e = f e')"
  by (cases r; auto simp: map_err_def)+

lemma ok_or_iff [simp, labby_res]:
  "ok_or x e = Inr y \<longleftrightarrow> x = Some y"
  "ok_or x e = Inl e' \<longleftrightarrow> x = None \<and> e' = e"
  by (cases x; auto simp: ok_or_def)+

lemma is_ok_iff [simp]: "is_ok r \<longleftrightarrow> (\<exists>x. r = Inr x)"
  by (cases r) (simp_all add: is_ok_def)

text \<open>Collecting an iterator of results stops at the first error.\<close>

fun collect_results :: "('e + 'a) list \<Rightarrow> 'e + 'a list" where
  "collect_results [] = Inr []"
| "collect_results (r # rs) =
     and_then r (\<lambda>x. and_then (collect_results rs) (\<lambda>xs. Inr (x # xs)))"

lemma collect_results_Inr [labby_res]:
  "collect_results rs = Inr xs \<longleftrightarrow> rs = map Inr xs"
  by (induction rs arbitrary: xs) (auto simp: and_then_Inr)

section \<open>Bytes\<close>

abbreviation byte :: "char \<Rightarrow> nat" where
  "byte c \<equiv> of_char c"

definition is_ascii_uppercase :: "char \<Rightarrow> bool" where
  "is_ascii_uppercase c = (65 \<le> byte c \<and> byte c \<le> 90)"

definition is_ascii_lowercase :: "char \<Rightarrow> bool" where
  "is_ascii_lowercase c = (97 \<le> byte c \<and> byte c \<le> 122)"

definition is_ascii_alphabetic :: "char \<Rightarrow> bool" where
  "is_ascii_alphabetic c = (is_ascii_uppercase c \<or> is_ascii_lowercase c)"

text \<open>\<open>HeaderValue::to_str\<close> succeeds on visible ASCII, space and tab.\<close>

definition header_to_str :: "string \<Rightarrow> string option" where
  "header_to_str raw =
     (if list_all (\<lambda>c. (32 \<le> byte c \<and> byte c < 127) \<or> byte c = 9) raw then Some raw else None)"

definition is_ascii_digit :: "char \<Rightarrow> bool" where
  "is_ascii_digit c = (48 \<le> byte c \<and> byte c \<le> 57)"

definition is_ascii_alphanumeric :: "char \<Rightarrow> bool" where
  "is_ascii_alphanumeric c = (is_ascii_alphabetic c \<or> is_ascii_digit c)"

definition is_ascii_hexdigit :: "char \<Rightarrow> bool" where
  "is_ascii_hexdigit c =
     (is_ascii_digit c \<or> (65 \<le> byte c \<and> byte c \<le> 70) \<or> (97 \<le> byte c \<and> byte c \<le> 102))"

definition ascii_lower :: "char \<Rightarrow> char" where
  "ascii_lower c = (if is_ascii_uppercase c then char_of (byte c + 32) else c)"

definition to_ascii_lowercase :: "string \<Rightarrow> string" where
  "to_ascii_lowercase s = map ascii_lower s"

definition eq_ignore_ascii_case :: "string \<Rightarrow> string \<Rightarrow> bool" where
  "eq_ignore_ascii_case s t = (to_ascii_lowercase s = to_ascii_lowercase t)"

lemma byte_ascii_lower:
  "byte (ascii_lower c) = (if is_ascii_uppercase c then byte c + 32 else byte c)"
  by (auto simp: ascii_lower_def is_ascii_uppercase_def)

lemma ascii_lower_idem [simp]: "ascii_lower (ascii_lower c) = ascii_lower c"
proof (cases "is_ascii_uppercase c")
  case True
  then have "\<not> is_ascii_uppercase (ascii_lower c)"
    by (simp add: is_ascii_uppercase_def byte_ascii_lower)
  then show ?thesis by (simp add: ascii_lower_def [of "ascii_lower c"])
next
  case False
  then show ?thesis by (simp add: ascii_lower_def)
qed

lemma to_ascii_lowercase_idem [simp]:
  "to_ascii_lowercase (to_ascii_lowercase s) = to_ascii_lowercase s"
  by (simp add: to_ascii_lowercase_def)

lemma length_to_ascii_lowercase [simp]: "length (to_ascii_lowercase s) = length s"
  by (simp add: to_ascii_lowercase_def)

lemma to_ascii_lowercase_append [simp]:
  "to_ascii_lowercase (s @ t) = to_ascii_lowercase s @ to_ascii_lowercase t"
  by (simp add: to_ascii_lowercase_def)

text \<open>The decimal \<open>Display\<close> form of an unsigned integer.\<close>

fun show_nat :: "nat \<Rightarrow> string" where
  "show_nat n =
     (if n < 10 then [char_of (48 + n)] else show_nat (n div 10) @ [char_of (48 + n mod 10)])"

declare show_nat.simps [simp del]

section \<open>Prefixes, suffixes, substrings\<close>

fun strip_prefix :: "'a list \<Rightarrow> 'a list \<Rightarrow> 'a list option" where
  "strip_prefix [] s = Some s"
| "strip_prefix (p # ps) [] = None"
| "strip_prefix (p # ps) (c # cs) = (if p = c then strip_prefix ps cs else None)"

definition starts_with :: "'a list \<Rightarrow> 'a list \<Rightarrow> bool" where
  "starts_with s p = (strip_prefix p s \<noteq> None)"

definition ends_with :: "'a list \<Rightarrow> 'a list \<Rightarrow> bool" where
  "ends_with s p = starts_with (rev s) (rev p)"

fun str_contains :: "'a list \<Rightarrow> 'a list \<Rightarrow> bool" where
  "str_contains [] p = (p = [])"
| "str_contains (c # cs) p = (starts_with (c # cs) p \<or> str_contains cs p)"

lemma strip_prefix_Some [labby_str]: "strip_prefix p s = Some r \<longleftrightarrow> s = p @ r"
  by (induction p s rule: strip_prefix.induct) auto

lemma starts_with_iff [labby_str]: "starts_with s p \<longleftrightarrow> prefix p s"
  by (auto simp: starts_with_def strip_prefix_Some prefix_def)

lemma ends_with_iff [labby_str]: "ends_with s p \<longleftrightarrow> suffix p s"
  by (simp add: ends_with_def starts_with_iff suffix_to_prefix)

lemma str_contains_iff [labby_str]: "str_contains s p \<longleftrightarrow> sublist p s"
  by (induction s) (auto simp: starts_with_iff sublist_Cons_right)

lemma str_contains_single [labby_str]: "str_contains s [c] \<longleftrightarrow> c \<in> set s"
  by (induction s) (auto simp: starts_with_def)

section \<open>Splitting and joining\<close>

text \<open>\<open>str::split(c)\<close> never yields an empty sequence.\<close>

fun split_char :: "'a \<Rightarrow> 'a list \<Rightarrow> 'a list list" where
  "split_char c [] = [[]]"
| "split_char c (x # xs) =
     (if x = c then [] # split_char c xs
      else (case split_char c xs of [] \<Rightarrow> [[x]] | h # t \<Rightarrow> (x # h) # t))"

fun split_once :: "'a \<Rightarrow> 'a list \<Rightarrow> ('a list \<times> 'a list) option" where
  "split_once c [] = None"
| "split_once c (x # xs) =
     (if x = c then Some ([], xs)
      else map_option (\<lambda>(a, b). (x # a, b)) (split_once c xs))"

fun join :: "'a list \<Rightarrow> 'a list list \<Rightarrow> 'a list" where
  "join sep [] = []"
| "join sep [s] = s"
| "join sep (s # t # ts) = s @ sep @ join sep (t # ts)"

lemma split_char_ne [simp]: "split_char c s \<noteq> []"
  by (induction s) (auto split: list.splits)

lemma join_Cons_head:
  "ts \<noteq> [] \<Longrightarrow> join sep ((x # h) # ts) = x # join sep (h # ts)"
  by (cases ts) auto

lemma join_nonempty: "ts \<noteq> [] \<Longrightarrow> join sep (s # ts) = s @ sep @ join sep ts"
  by (cases ts) auto

lemma join_snoc: "ts \<noteq> [] \<Longrightarrow> join sep (ts @ [z]) = join sep ts @ sep @ z"
  by (induction sep ts rule: join.induct) auto

lemma map_of_filter_key:
  "map_of (filter (\<lambda>(k, _). P k) l) k = (if P k then map_of l k else None)"
  by (induction l) auto

lemma join_split_char: "join [c] (split_char c s) = s"
proof (induction s)
  case Nil
  then show ?case by simp
next
  case (Cons x xs)
  obtain h t where ht: "split_char c xs = h # t" by (cases "split_char c xs") auto
  have "join [c] ((x # h) # t) = x # join [c] (h # t)"
    by (cases t) auto
  with Cons ht show ?case by (simp add: join_nonempty)
qed

lemma split_char_no_sep: "p \<in> set (split_char c s) \<Longrightarrow> c \<notin> set p"
  by (induction s arbitrary: p) (force split: list.splits if_splits)+

lemma split_char_single: "c \<notin> set s \<Longrightarrow> split_char c s = [s]"
  by (induction s) auto

lemma split_char_append:
  "c \<notin> set s \<Longrightarrow> split_char c (s @ c # t) = s # split_char c t"
  by (induction s) (auto split: list.splits)

lemma split_char_append_sep:
  "split_char c (a @ c # b) = split_char c a @ split_char c b"
  by (induction a) (auto split: list.splits simp: append_eq_Cons_conv)

lemma split_char_join_concat:
  "ps \<noteq> [] \<Longrightarrow> split_char c (join [c] ps) = concat (map (split_char c) ps)"
  by (induction "[c]" ps rule: join.induct) (auto simp: split_char_append_sep)

lemma split_char_join:
  "ps \<noteq> [] \<Longrightarrow> \<forall>p \<in> set ps. c \<notin> set p \<Longrightarrow> split_char c (join [c] ps) = ps"
  by (induction "[c]" ps rule: join.induct) (auto simp: split_char_single split_char_append)

lemma split_once_Some: "split_once c s = Some (a, b) \<Longrightarrow> s = a @ c # b \<and> c \<notin> set a"
  by (induction s arbitrary: a) (auto split: if_splits)

lemma split_once_None [labby_str]: "split_once c s = None \<longleftrightarrow> c \<notin> set s"
  by (induction s) auto

lemma split_once_append: "c \<notin> set a \<Longrightarrow> split_once c (a @ c # b) = Some (a, b)"
  by (induction a) auto

lemma set_join:
  "set (join sep ps) \<subseteq> set sep \<union> (\<Union> (set ` set ps))"
  by (induction sep ps rule: join.induct) auto

section \<open>Whitespace trimming\<close>

text \<open>
  \<open>str::trim\<close> removes the code points with the \<open>White_Space\<close> property from both
  ends: six ASCII bytes, and the two- and three-byte encodings of U+0085, U+00A0,
  U+1680, U+2000 to U+200A, U+2028, U+2029, U+202F, U+205F and U+3000.
\<close>

definition ws1 :: "nat \<Rightarrow> bool" where
  "ws1 a = (a = 32 \<or> (9 \<le> a \<and> a \<le> 13))"

definition ws2 :: "nat \<Rightarrow> nat \<Rightarrow> bool" where
  "ws2 a b = (a = 194 \<and> (b = 133 \<or> b = 160))"

definition ws3 :: "nat \<Rightarrow> nat \<Rightarrow> nat \<Rightarrow> bool" where
  "ws3 a b c =
     ((a = 225 \<and> b = 154 \<and> c = 128)
      \<or> (a = 226 \<and> b = 128 \<and> ((128 \<le> c \<and> c \<le> 138) \<or> c = 168 \<or> c = 169 \<or> c = 175))
      \<or> (a = 226 \<and> b = 129 \<and> c = 159)
      \<or> (a = 227 \<and> b = 128 \<and> c = 128))"

fun trim_start :: "string \<Rightarrow> string" where
  "trim_start (a # b # c # s) =
     (if ws1 (byte a) then trim_start (b # c # s)
      else if ws2 (byte a) (byte b) then trim_start (c # s)
      else if ws3 (byte a) (byte b) (byte c) then trim_start s
      else a # b # c # s)"
| "trim_start [a, b] =
     (if ws1 (byte a) then trim_start [b] else if ws2 (byte a) (byte b) then [] else [a, b])"
| "trim_start [a] = (if ws1 (byte a) then [] else [a])"
| "trim_start [] = []"

text \<open>The same on the reversed string, where an encoding appears last byte first.\<close>

fun trim_start_rev :: "string \<Rightarrow> string" where
  "trim_start_rev (a # b # c # s) =
     (if ws1 (byte a) then trim_start_rev (b # c # s)
      else if ws2 (byte b) (byte a) then trim_start_rev (c # s)
      else if ws3 (byte c) (byte b) (byte a) then trim_start_rev s
      else a # b # c # s)"
| "trim_start_rev [a, b] =
     (if ws1 (byte a) then trim_start_rev [b] else if ws2 (byte b) (byte a) then [] else [a, b])"
| "trim_start_rev [a] = (if ws1 (byte a) then [] else [a])"
| "trim_start_rev [] = []"

definition trim_end :: "string \<Rightarrow> string" where
  "trim_end s = rev (trim_start_rev (rev s))"

definition trim :: "string \<Rightarrow> string" where
  "trim s = trim_end (trim_start s)"

lemma suffix_trim_start: "suffix (trim_start s) s"
  by (induction s rule: trim_start.induct) (auto simp: suffix_Cons)

lemma suffix_trim_start_rev: "suffix (trim_start_rev s) s"
  by (induction s rule: trim_start_rev.induct) (auto simp: suffix_Cons)

lemma prefix_trim_end: "prefix (trim_end s) s"
  using suffix_trim_start_rev [of "rev s"] by (simp add: trim_end_def suffix_to_prefix)

lemma sublist_trim: "sublist (trim s) s"
  unfolding trim_def
  by (meson prefix_imp_sublist prefix_trim_end sublist_order.dual_order.trans
      suffix_imp_sublist suffix_trim_start)

lemma set_trim_subset: "set (trim s) \<subseteq> set s"
  using sublist_trim [of s] by (auto dest: set_mono_sublist)

lemma length_trim_le: "length (trim s) \<le> length s"
  using sublist_trim by (rule sublist_length_le)

lemma trim_start_id: "s = [] \<or> (byte (hd s) < 128 \<and> \<not> ws1 (byte (hd s))) \<Longrightarrow> trim_start s = s"
  by (cases s rule: trim_start.cases) (auto simp: ws2_def ws3_def)

lemma trim_start_rev_id:
  "s = [] \<or> (byte (hd s) < 128 \<and> \<not> ws1 (byte (hd s))) \<Longrightarrow> trim_start_rev s = s"
  by (cases s rule: trim_start_rev.cases) (auto simp: ws2_def ws3_def)

lemma trim_id:
  assumes "\<forall>c \<in> set s. byte c < 128 \<and> \<not> ws1 (byte c)"
  shows "trim s = s"
proof -
  have s: "trim_start s = s"
    by (rule trim_start_id) (use assms in \<open>cases s; auto\<close>)
  have "trim_start_rev (rev s) = rev s"
    by (rule trim_start_rev_id) (use assms in \<open>cases "rev s" rule: list.exhaust;
      metis hd_in_set set_rev\<close>)
  with s show ?thesis by (simp add: trim_def trim_end_def)
qed

section \<open>Splitting at whitespace\<close>

text \<open>The length of the whitespace character a byte string starts with; 0 if it does not.\<close>

fun ws_len :: "string \<Rightarrow> nat" where
  "ws_len (a # b # c # s) =
     (if ws1 (byte a) then 1 else if ws2 (byte a) (byte b) then 2
      else if ws3 (byte a) (byte b) (byte c) then 3 else 0)"
| "ws_len [a, b] = (if ws1 (byte a) then 1 else if ws2 (byte a) (byte b) then 2 else 0)"
| "ws_len [a] = (if ws1 (byte a) then 1 else 0)"
| "ws_len [] = 0"

definition close_word :: "string \<Rightarrow> string list" where
  "close_word acc = (if acc = [] then [] else [rev acc])"

function split_words :: "string \<Rightarrow> string \<Rightarrow> string list" where
  "split_words acc [] = close_word acc"
| "split_words acc (c # s) =
     (if ws_len (c # s) = 0 then split_words (c # acc) s
      else close_word acc @ split_words [] (drop (ws_len (c # s) - 1) s))"
  by pat_completeness auto
termination by (relation "measure (\<lambda>(_, s). length s)") auto

text \<open>\<open>str::split_whitespace\<close>: the maximal runs without whitespace, in order.\<close>

definition split_whitespace :: "string \<Rightarrow> string list" where
  "split_whitespace s = split_words [] s"

lemma split_words_nonempty: "w \<in> set (split_words acc s) \<Longrightarrow> w \<noteq> []"
  by (induction acc s rule: split_words.induct) (auto simp: close_word_def split: if_splits)

lemma split_whitespace_nonempty: "w \<in> set (split_whitespace s) \<Longrightarrow> w \<noteq> []"
  by (simp add: split_whitespace_def split_words_nonempty)

definition ws_free :: "string \<Rightarrow> bool" where
  "ws_free w = (\<forall>i < length w. ws_len (drop i w) = 0)"

lemma ws_len_Cons_single: "ws_len (c # s) = 0 \<Longrightarrow> \<not> ws1 (byte c)"
  by (cases "c # s" rule: ws_len.cases) (auto split: if_splits)

lemma ws_len_space: "ws_len (CHR '' '' # s) = 1"
  by (cases "CHR '' '' # s" rule: ws_len.cases) (auto simp: ws1_def)

lemma ws_len_before_space: "u \<noteq> [] \<Longrightarrow> ws_len (u @ CHR '' '' # v) = ws_len u"
  by (cases u rule: ws_len.cases; cases v) (auto simp: ws1_def ws2_def ws3_def)

lemma split_words_append_space:
  "split_words acc (u @ CHR '' '' # v) = split_words acc u @ split_words [] v"
proof (induction acc u rule: split_words.induct)
  case (1 acc)
  then show ?case by (simp add: ws_len_space)
next
  case (2 acc c s)
  have len: "ws_len (c # s @ CHR '' '' # v) = ws_len (c # s)"
    using ws_len_before_space [of "c # s" v] by simp
  have short: "ws_len (c # s) - 1 \<le> length s"
    by (cases "c # s" rule: ws_len.cases) auto
  show ?case
    using 2 len short by (auto simp: drop_append)
qed

lemma ws_free_split_words: "ws_free w \<Longrightarrow> split_words acc w = close_word (rev w @ acc)"
proof (induction w arbitrary: acc)
  case (Cons c w)
  have "ws_len (c # w) = 0" using Cons.prems by (auto simp: ws_free_def)
  moreover have "ws_free w"
    unfolding ws_free_def
  proof (intro allI impI)
    fix i assume "i < length w"
    then show "ws_len (drop i w) = 0"
      using Cons.prems [unfolded ws_free_def, rule_format, of "Suc i"] by simp
  qed
  ultimately show ?case using Cons.IH by simp
qed (simp add: close_word_def)

lemma split_whitespace_word: "ws_free w \<Longrightarrow> w \<noteq> [] \<Longrightarrow> split_whitespace w = [w]"
  by (simp add: split_whitespace_def ws_free_split_words close_word_def)

lemma split_whitespace_join:
  "\<forall>w \<in> set ws. ws_free w \<and> w \<noteq> [] \<Longrightarrow> split_whitespace (join '' '' ws) = ws"
proof (induction "'' ''" ws rule: join.induct)
  case 1
  then show ?case by (simp add: split_whitespace_def close_word_def)
next
  case (2 s)
  then show ?case by (simp add: split_whitespace_word)
next
  case (3 s t ts)
  then have "split_whitespace (join '' '' (t # ts)) = t # ts" by simp
  with 3 show ?case
    by (simp add: split_whitespace_def split_words_append_space ws_free_split_words close_word_def)
qed

lemma ws_len_prefix: "ws_len (u @ v) = 0 \<Longrightarrow> u \<noteq> [] \<Longrightarrow> ws_len u = 0"
  by (cases u rule: ws_len.cases; cases v rule: ws_len.cases) (auto split: if_splits)

lemma split_words_ws_free:
  "\<forall>i < length acc. ws_len (drop i (rev acc @ s)) = 0 \<Longrightarrow> w \<in> set (split_words acc s) \<Longrightarrow> ws_free w"
proof (induction acc s rule: split_words.induct)
  case (1 acc)
  then show ?case by (auto simp: close_word_def ws_free_def split: if_splits)
next
  case (2 acc c s)
  have acc_free: "ws_free (rev acc)"
    unfolding ws_free_def
  proof (intro allI impI)
    fix i assume i: "i < length (rev acc)"
    then have "ws_len (drop i (rev acc) @ c # s) = 0" using 2(3) by auto
    then show "ws_len (drop i (rev acc)) = 0" using ws_len_prefix i by fastforce
  qed
  show ?case
  proof (cases "ws_len (c # s) = 0")
    case True
    have "\<forall>i < length (c # acc). ws_len (drop i (rev (c # acc) @ s)) = 0"
      using 2(3) True by (auto simp: less_Suc_eq)
    with 2 True show ?thesis by simp
  next
    case False
    with 2(2,4) acc_free show ?thesis by (auto simp: close_word_def split: if_splits)
  qed
qed

lemma split_whitespace_ws_free: "w \<in> set (split_whitespace s) \<Longrightarrow> ws_free w"
  unfolding split_whitespace_def by (rule split_words_ws_free) auto

section \<open>UTF-8\<close>

text \<open>\<open>str::from_utf8\<close>: the well-formed byte sequences of the Unicode standard.\<close>

definition cont :: "nat \<Rightarrow> bool" where
  "cont b = (128 \<le> b \<and> b \<le> 191)"

fun utf8_ok :: "nat list \<Rightarrow> bool" where
  "utf8_ok [] = True"
| "utf8_ok (a # s) =
     (if a < 128 then utf8_ok s
      else if 194 \<le> a \<and> a \<le> 223 then
        (case s of b # s' \<Rightarrow> cont b \<and> utf8_ok s' | _ \<Rightarrow> False)
      else if 224 \<le> a \<and> a \<le> 239 then
        (case s of b # c # s' \<Rightarrow>
           cont b \<and> cont c \<and> (a = 224 \<longrightarrow> 160 \<le> b) \<and> (a = 237 \<longrightarrow> b \<le> 159) \<and> utf8_ok s'
         | _ \<Rightarrow> False)
      else if 240 \<le> a \<and> a \<le> 244 then
        (case s of b # c # d # s' \<Rightarrow>
           cont b \<and> cont c \<and> cont d \<and> (a = 240 \<longrightarrow> 144 \<le> b) \<and> (a = 244 \<longrightarrow> b \<le> 143) \<and> utf8_ok s'
         | _ \<Rightarrow> False)
      else False)"

definition from_utf8 :: "string \<Rightarrow> string option" where
  "from_utf8 s = (if utf8_ok (map of_char s) then Some s else None)"

lemma from_utf8_ascii: "\<forall>c \<in> set s. byte c < 128 \<Longrightarrow> from_utf8 s = Some s"
proof -
  have "\<forall>b \<in> set bs. b < 128 \<Longrightarrow> utf8_ok bs" for bs :: "nat list"
    by (induction bs) auto
  then show "\<forall>c \<in> set s. byte c < 128 \<Longrightarrow> from_utf8 s = Some s"
    by (simp add: from_utf8_def)
qed

end
