(* ===== verification/Tool_Error.thy ===== *)
theory Tool_Error
  imports Labby_Prelude
begin

text \<open>
  The error vocabulary every surface shares (\<open>crates/labby-runtime/src/error.rs\<close>).
  An error is modelled by its variant with the machine-readable fields; the
  human-readable \<open>message\<close> text is dropped throughout the development. The stable
  contract of an error is its \<open>kind\<close>, which every operation's theorems speak about.
\<close>

datatype tool_error =
    UnknownAction "string list" "string option"
  | MissingParam string
  | InvalidParam string
  | UnknownInstance "string list"
  | AmbiguousTool "string list"
  | ConfirmationRequired
  | Conflict string
  | Forbidden "string list"
  | Sdk string

fun tool_error_kind :: "tool_error \<Rightarrow> string" where
  "tool_error_kind (UnknownAction valid hint) = ''unknown_action''"
| "tool_error_kind (MissingParam param) = ''missing_param''"
| "tool_error_kind (InvalidParam param) = ''invalid_param''"
| "tool_error_kind (UnknownInstance valid) = ''unknown_instance''"
| "tool_error_kind (AmbiguousTool valid) = ''ambiguous_tool''"
| "tool_error_kind ConfirmationRequired = ''confirmation_required''"
| "tool_error_kind (Conflict existing_id) = ''conflict''"
| "tool_error_kind (Forbidden required_scopes) = ''forbidden''"
| "tool_error_kind (Sdk sdk_kind) = sdk_kind"

definition is_internal :: "tool_error \<Rightarrow> bool" where
  "is_internal e =
     (tool_error_kind e = ''internal_error'' \<or> tool_error_kind e = ''server_error''
      \<or> tool_error_kind e = ''decode_error'')"

lemma is_internal_Sdk: "is_internal e \<Longrightarrow> \<exists>k. e = Sdk k"
  by (cases e) (auto simp: is_internal_def)

end
