(* ===== verification/Rust_Path.thy ===== *)
theory Rust_Path
  imports Labby_Prelude
begin

text \<open>
  \<open>std::path::Path\<close> on Unix, as the sources use it: \<open>components\<close>, \<open>file_name\<close>,
  \<open>extension\<close>. A path prefix (\<open>Component::Prefix\<close>) exists on Windows only and never
  arises here.
\<close>

datatype component = RootDir | CurDir | ParentDir | Normal string

definition seg_component :: "string \<Rightarrow> component" where
  "seg_component p = (if p = ''..'' then ParentDir else Normal p)"

text \<open>
  Repeated separators and interior \<open>.\<close> segments disappear; a leading \<open>.\<close> of a
  relative path is kept as \<open>CurDir\<close>.
\<close>

definition components :: "string \<Rightarrow> component list" where
  "components s =
     (let segs = split_char (CHR ''/'') s;
          rest = map seg_component (filter (\<lambda>p. p \<noteq> [] \<and> p \<noteq> ''.'') segs)
      in if starts_with s ''/'' then RootDir # rest
         else if hd segs = ''.'' then CurDir # rest
         else rest)"

definition file_name :: "string \<Rightarrow> string option" where
  "file_name s =
     (let cs = components s
      in if cs = [] then None
         else (case last cs of Normal p \<Rightarrow> Some p | _ \<Rightarrow> None))"

fun as_os_str :: "component \<Rightarrow> string" where
  "as_os_str RootDir = ''/''"
| "as_os_str CurDir = ''.''"
| "as_os_str ParentDir = ''..''"
| "as_os_str (Normal p) = p"

text \<open>A name that can be one path segment and is neither empty, \<open>.\<close> nor \<open>..\<close>.\<close>

definition plain_name :: "string \<Rightarrow> bool" where
  "plain_name p = (p \<noteq> [] \<and> p \<noteq> ''.'' \<and> p \<noteq> ''..'' \<and> CHR ''/'' \<notin> set p)"

lemma components_Normal_plain: "Normal p \<in> set (components s) \<Longrightarrow> plain_name p"
  by (auto simp: components_def Let_def seg_component_def plain_name_def
      dest: split_char_no_sep split: if_splits)

lemma components_join_plain:
  assumes "\<forall>p \<in> set ps. plain_name p"
  shows "components (join ''/'' ps) = map Normal ps"
proof (cases ps)
  case Nil
  then show ?thesis by (simp add: components_def starts_with_def)
next
  case (Cons p qs)
  have s: "split_char (CHR ''/'') (join ''/'' ps) = ps"
    using assms Cons by (intro split_char_join) (auto simp: plain_name_def)
  have "p \<noteq> []" and dot: "p \<noteq> ''.''" and sl: "CHR ''/'' \<notin> set p"
    using assms Cons by (auto simp: plain_name_def)
  then obtain c cs where pc: "p = c # cs" by (auto simp: neq_Nil_conv)
  with sl have "c \<noteq> CHR ''/''" by auto
  note p = pc this dot
  have "\<exists>t. join ''/'' ps = c # t"
    using p Cons by (cases qs) auto
  then have ns: "\<not> starts_with (join ''/'' ps) ''/''"
    using p by (auto simp: starts_with_def)
  have f: "filter (\<lambda>p. p \<noteq> [] \<and> p \<noteq> ''.'') ps = ps"
    using assms by (auto simp: plain_name_def intro!: filter_True)
  have m: "map seg_component ps = map Normal ps"
    using assms by (auto simp: seg_component_def plain_name_def)
  show ?thesis
    using s ns f m p Cons by (simp add: components_def Let_def)
qed

end
