(* ===== verification/Ssrf.thy ===== *)
theory Ssrf
  imports Tool_Error
begin

text \<open>
  The canonical SSRF preflight guard (\<open>crates/labby-primitives/src/ssrf.rs\<close>) and the
  resolving wrapper of the gateway (\<open>crates/labby-gateway/src/security/ssrf.rs\<close>).
  Addresses are kept at their width: an IPv4 address is four octets, an IPv6 address
  eight 16-bit segments. The \<open>url\<close> crate is a parameter: \<open>url_parse\<close> returns what its
  accessors report of a parsed URL.
\<close>

unbundle bit_operations_syntax

section \<open>Addresses and the standard library's classification\<close>

type_synonym u8 = "8 word"
type_synonym u16 = "16 word"

datatype ipv4 = Ipv4 u8 u8 u8 u8
datatype ipv6 = Ipv6 u16 u16 u16 u16 u16 u16 u16 u16
datatype ip_addr = V4 ipv4 | V6 ipv6

fun v4_is_private :: "ipv4 \<Rightarrow> bool" where
  "v4_is_private (Ipv4 a b c d) =
     (a = 10 \<or> (a = 172 \<and> 16 \<le> b \<and> b \<le> 31) \<or> (a = 192 \<and> b = 168))"

fun v4_is_loopback :: "ipv4 \<Rightarrow> bool" where
  "v4_is_loopback (Ipv4 a b c d) = (a = 127)"

fun v4_is_link_local :: "ipv4 \<Rightarrow> bool" where
  "v4_is_link_local (Ipv4 a b c d) = (a = 169 \<and> b = 254)"

fun v4_is_unspecified :: "ipv4 \<Rightarrow> bool" where
  "v4_is_unspecified (Ipv4 a b c d) = (a = 0 \<and> b = 0 \<and> c = 0 \<and> d = 0)"

fun v6_is_loopback :: "ipv6 \<Rightarrow> bool" where
  "v6_is_loopback (Ipv6 s0 s1 s2 s3 s4 s5 s6 s7) =
     (s0 = 0 \<and> s1 = 0 \<and> s2 = 0 \<and> s3 = 0 \<and> s4 = 0 \<and> s5 = 0 \<and> s6 = 0 \<and> s7 = 1)"

fun v6_is_unspecified :: "ipv6 \<Rightarrow> bool" where
  "v6_is_unspecified (Ipv6 s0 s1 s2 s3 s4 s5 s6 s7) =
     (s0 = 0 \<and> s1 = 0 \<and> s2 = 0 \<and> s3 = 0 \<and> s4 = 0 \<and> s5 = 0 \<and> s6 = 0 \<and> s7 = 0)"

fun v4_is_multicast :: "ipv4 \<Rightarrow> bool" where
  "v4_is_multicast (Ipv4 a b c d) = (224 \<le> a \<and> a \<le> 239)"

fun v6_is_multicast :: "ipv6 \<Rightarrow> bool" where
  "v6_is_multicast (Ipv6 s0 s1 s2 s3 s4 s5 s6 s7) = (s0 AND 0xff00 = 0xff00)"

text \<open>\<open>to_ipv4_mapped\<close>: the last two segments hold the four octets, high byte first.\<close>

fun to_ipv4_mapped :: "ipv6 \<Rightarrow> ipv4 option" where
  "to_ipv4_mapped (Ipv6 s0 s1 s2 s3 s4 s5 s6 s7) =
     (if s0 = 0 \<and> s1 = 0 \<and> s2 = 0 \<and> s3 = 0 \<and> s4 = 0 \<and> s5 = 0xffff
      then Some (Ipv4 (ucast (drop_bit 8 s6)) (ucast s6) (ucast (drop_bit 8 s7)) (ucast s7))
      else None)"

section \<open>The guard\<close>

datatype ssrf_error = InvalidUrl | Blocked

fun ssrf_kind :: "ssrf_error \<Rightarrow> string" where
  "ssrf_kind InvalidUrl = ''invalid_param''"
| "ssrf_kind Blocked = ''ssrf_blocked''"

definition PRIVATE_TLD_SUFFIXES :: "string list" where
  "PRIVATE_TLD_SUFFIXES =
     [''.local'', ''.internal'', ''.lan'', ''.intranet'', ''.corp'', ''.home'']"

fun is_cgnat :: "ipv4 \<Rightarrow> bool" where
  "is_cgnat (Ipv4 a b c d) = (a = 100 \<and> 64 \<le> b \<and> b \<le> 127)"

fun is_ipv6_link_local :: "ipv6 \<Rightarrow> bool" where
  "is_ipv6_link_local (Ipv6 s0 s1 s2 s3 s4 s5 s6 s7) = (s0 AND 0xffc0 = 0xfe80)"

fun is_ipv6_ula :: "ipv6 \<Rightarrow> bool" where
  "is_ipv6_ula (Ipv6 s0 s1 s2 s3 s4 s5 s6 s7) = (s0 AND 0xfe00 = 0xfc00)"

definition normalize_ip :: "ip_addr \<Rightarrow> ip_addr" where
  "normalize_ip ip =
     (case ip of
        V6 v6 \<Rightarrow> (case to_ipv4_mapped v6 of Some v4 \<Rightarrow> V4 v4 | None \<Rightarrow> V6 v6)
      | V4 v4 \<Rightarrow> V4 v4)"

definition check_ip_not_private :: "ip_addr \<Rightarrow> ssrf_error + unit" where
  "check_ip_not_private ip =
     (let blocked =
        (case normalize_ip ip of
           V4 v4 \<Rightarrow> v4_is_private v4 \<or> v4_is_loopback v4 \<or> v4_is_link_local v4
                    \<or> v4_is_unspecified v4 \<or> is_cgnat v4
         | V6 v6 \<Rightarrow> v6_is_loopback v6 \<or> v6_is_unspecified v6
                    \<or> is_ipv6_link_local v6 \<or> is_ipv6_ula v6)
      in if blocked then Inl Blocked else Inr ())"

definition check_host_not_private :: "string \<Rightarrow> ssrf_error + unit" where
  "check_host_not_private host =
     (let host_lower = to_ascii_lowercase host
      in if host_lower = ''localhost''
            \<or> starts_with host_lower ''127.''
            \<or> host_lower = ''::1''
            \<or> str_contains host_lower ''::ffff:''
            \<or> host_lower = ''0.0.0.0''
            \<or> list_ex (\<lambda>s. ends_with host_lower s) PRIVATE_TLD_SUFFIXES
         then Inl Blocked else Inr ())"

datatype url_host = Domain string | HostV4 ipv4 | HostV6 ipv6

text \<open>What the accessors of \<open>url::Url\<close> report.\<close>

record url =
  url_scheme :: string
  url_username :: string
  url_password :: "string option"
  url_host :: "url_host option"
  url_host_str :: "string option"
  url_port :: "nat option"
  url_path :: string
  url_query :: "string option"
  url_fragment :: "string option"

text \<open>\<open>redact_url\<close>: \<open>url_to_string\<close> is the crate's serialisation.\<close>

definition ssrf_redact_url :: "(string \<Rightarrow> url option) \<Rightarrow> (url \<Rightarrow> string) \<Rightarrow> string \<Rightarrow> string" where
  "ssrf_redact_url url_parse url_to_string raw =
     (case url_parse raw of
        Some u \<Rightarrow> url_to_string
           (u\<lparr>url_username := [], url_password := None, url_query := None, url_fragment := None\<rparr>)
      | None \<Rightarrow> ''<invalid-url>'')"

definition parse_validated_https_url ::
  "(string \<Rightarrow> url option) \<Rightarrow> string \<Rightarrow> ssrf_error + url" where
  "parse_validated_https_url url_parse raw =
     (case url_parse raw of
        None \<Rightarrow> Inl InvalidUrl
      | Some parsed \<Rightarrow>
          if url_scheme parsed \<noteq> ''https'' then Inl InvalidUrl
          else if url_username parsed \<noteq> [] \<or> url_password parsed \<noteq> None then Inl InvalidUrl
          else if url_query parsed \<noteq> None \<or> url_fragment parsed \<noteq> None then Inl InvalidUrl
          else and_then
            (case url_host parsed of
               Some (Domain d) \<Rightarrow> check_host_not_private d
             | Some (HostV4 ip) \<Rightarrow> check_ip_not_private (V4 ip)
             | Some (HostV6 ip) \<Rightarrow> check_ip_not_private (V6 ip)
             | None \<Rightarrow> Inl InvalidUrl)
            (\<lambda>_. Inr parsed))"

section \<open>The gateway's resolving wrapper\<close>

definition as_ssrf_blocked :: "ssrf_error \<Rightarrow> tool_error" where
  "as_ssrf_blocked e = Sdk ''ssrf_blocked''"

text \<open>
  The loop over the resolved addresses stops at the first one the guard rejects.
\<close>

fun check_addrs :: "ip_addr list \<Rightarrow> tool_error + unit" where
  "check_addrs [] = Inr ()"
| "check_addrs (ip # ips) =
     and_then (map_err as_ssrf_blocked (check_ip_not_private ip)) (\<lambda>_. check_addrs ips)"

text \<open>
  Parameters: \<open>ip_parse\<close> is \<open>str::parse::<IpAddr>\<close>, \<open>resolve host port\<close> the operating
  system's resolver (\<open>None\<close> on failure).
\<close>

definition validate_external_https_url_blocking ::
  "(string \<Rightarrow> url option) \<Rightarrow> (string \<Rightarrow> ip_addr option) \<Rightarrow> (string \<Rightarrow> nat \<Rightarrow> ip_addr list option)
   \<Rightarrow> string \<Rightarrow> tool_error + unit" where
  "validate_external_https_url_blocking url_parse ip_parse resolve raw =
     and_then (map_err as_ssrf_blocked (parse_validated_https_url url_parse raw)) (\<lambda>parsed.
     and_then (ok_or (url_host_str parsed) (Sdk ''ssrf_blocked'')) (\<lambda>host.
     if ip_parse host \<noteq> None then Inr ()
     else
       let port = (case url_port parsed of Some p \<Rightarrow> p | None \<Rightarrow> 443)
       in and_then (ok_or (resolve host port) (Sdk ''ssrf_blocked'')) check_addrs))"

section \<open>Reference: blocked ranges in CIDR form\<close>

text \<open>
  The specification speaks of addresses as numbers and of ranges as prefixes, the way
  the address registries list them; the guard works on octets, masks and segments.
\<close>

fun v4_num :: "ipv4 \<Rightarrow> nat" where
  "v4_num (Ipv4 a b c d) = unat a * 2 ^ 24 + unat b * 2 ^ 16 + unat c * 2 ^ 8 + unat d"

fun v6_num :: "ipv6 \<Rightarrow> nat" where
  "v6_num (Ipv6 s0 s1 s2 s3 s4 s5 s6 s7) =
     unat s0 * 2 ^ 112 + unat s1 * 2 ^ 96 + unat s2 * 2 ^ 80 + unat s3 * 2 ^ 64
     + unat s4 * 2 ^ 48 + unat s5 * 2 ^ 32 + unat s6 * 2 ^ 16 + unat s7"

definition in_prefix :: "nat \<Rightarrow> nat \<Rightarrow> nat \<times> nat \<Rightarrow> bool" where
  "in_prefix bits x r = (x div 2 ^ (bits - snd r) = fst r div 2 ^ (bits - snd r))"

definition blocked_v4_ranges :: "(nat \<times> nat) list" where
  "blocked_v4_ranges =
     [(0x0A000000, 8), (0xAC100000, 12), (0xC0A80000, 16), (0x7F000000, 8),
      (0xA9FE0000, 16), (0, 32), (0x64400000, 10)]"

definition blocked_v6_ranges :: "(nat \<times> nat) list" where
  "blocked_v6_ranges =
     [(1, 128), (0, 128), (0xfe80 * 2 ^ 112, 10), (0xfc00 * 2 ^ 112, 7)]"

definition v4_num_blocked :: "nat \<Rightarrow> bool" where
  "v4_num_blocked x = (\<exists>r \<in> set blocked_v4_ranges. in_prefix 32 x r)"

definition ip_blocked_spec :: "ip_addr \<Rightarrow> bool" where
  "ip_blocked_spec ip =
     (case ip of
        V4 a \<Rightarrow> v4_num_blocked (v4_num a)
      | V6 a \<Rightarrow> (if in_prefix 128 (v6_num a) (0xffff * 2 ^ 32, 96)
                then v4_num_blocked (v6_num a mod 2 ^ 32)
                else \<exists>r \<in> set blocked_v6_ranges. in_prefix 128 (v6_num a) r))"

lemma u8_bound: "unat (x :: u8) < 256"
  by (rule order.strict_trans2 [OF unsigned_less]) simp

lemma u16_bound: "unat (x :: u16) < 65536"
  by (rule order.strict_trans2 [OF unsigned_less]) simp

lemma u8_num: "(x :: u8) = numeral n \<longleftrightarrow> unat x = unat (numeral n :: u8)"
  by (simp add: word_unat_eq_iff)

lemma digit_eq: "q < m \<Longrightarrow> r < m \<Longrightarrow> a * m + q = c * m + r \<longleftrightarrow> a = c \<and> q = (r :: nat)"
  by (metis add.commute add_left_cancel div_less div_mult_self3 gr_implies_not0 plus_nat.add_0)

lemma div_eq_one: "0 < m \<Longrightarrow> b div m = 1 \<longleftrightarrow> m \<le> b \<and> b < 2 * (m :: nat)"
  using div_nat_eqI [of m 1 b] dividend_less_times_div [of m b] times_div_less_eq_dividend [of m b]
  by (auto simp del: times_div_less_eq_dividend)

lemma v4_blocked_iff:
  "(v4_is_private a \<or> v4_is_loopback a \<or> v4_is_link_local a \<or> v4_is_unspecified a \<or> is_cgnat a)
   \<longleftrightarrow> v4_num_blocked (v4_num a)"
proof (cases a)
  case (Ipv4 a b c d)
  define A B C D where "A = unat a" "B = unat b" "C = unat c" "D = unat d"
  have bnd: "A < 256" "B < 256" "C < 256" "D < 256"
    unfolding A_B_C_D_def by (rule u8_bound)+
  let ?N = "A * 16777216 + B * 65536 + C * 256 + D"
  have top: "?N div 16777216 = A" using bnd by linarith
  have top2: "?N div 65536 = A * 256 + B" using bnd by linarith
  have top12: "?N div 1048576 = A * 16 + B div 16" using bnd by linarith
  have top10: "?N div 4194304 = A * 4 + B div 64" using bnd by linarith
  have spec: "v4_num_blocked (v4_num (Ipv4 a b c d)) \<longleftrightarrow>
      A = 10 \<or> A * 16 + B div 16 = 2753 \<or> A * 256 + B = 49320 \<or> A = 127
      \<or> A * 256 + B = 43518 \<or> ?N = 0 \<or> A * 4 + B div 64 = 401"
    using top top2 top12 top10
    by (simp add: v4_num_blocked_def blocked_v4_ranges_def in_prefix_def A_B_C_D_def)
  have code: "(v4_is_private (Ipv4 a b c d) \<or> v4_is_loopback (Ipv4 a b c d)
      \<or> v4_is_link_local (Ipv4 a b c d) \<or> v4_is_unspecified (Ipv4 a b c d) \<or> is_cgnat (Ipv4 a b c d))
    \<longleftrightarrow> A = 10 \<or> (A = 172 \<and> 16 \<le> B \<and> B \<le> 31) \<or> (A = 192 \<and> B = 168) \<or> A = 127
      \<or> (A = 169 \<and> B = 254) \<or> (A = 0 \<and> B = 0 \<and> C = 0 \<and> D = 0) \<or> (A = 100 \<and> 64 \<le> B \<and> B \<le> 127)"
    by (simp add: A_B_C_D_def word_unat_eq_iff word_le_nat_alt disj_ac)
  have "A * 16 + B div 16 = 2753 \<longleftrightarrow> A = 172 \<and> B div 16 = 1"
    using digit_eq [of "B div 16" 16 1 A 172] bnd by simp
  moreover have "B div 16 = 1 \<longleftrightarrow> 16 \<le> B \<and> B \<le> 31"
    using div_eq_one [of 16 B] by auto
  moreover have "A * 256 + B = 49320 \<longleftrightarrow> A = 192 \<and> B = 168"
    using digit_eq [of B 256 168 A 192] bnd by simp
  moreover have "A * 256 + B = 43518 \<longleftrightarrow> A = 169 \<and> B = 254"
    using digit_eq [of B 256 254 A 169] bnd by simp
  moreover have "A * 4 + B div 64 = 401 \<longleftrightarrow> A = 100 \<and> B div 64 = 1"
    using digit_eq [of "B div 64" 4 1 A 100] bnd by simp
  moreover have "B div 64 = 1 \<longleftrightarrow> 64 \<le> B \<and> B \<le> 127"
    using div_eq_one [of 64 B] by auto
  moreover have "?N = 0 \<longleftrightarrow> A = 0 \<and> B = 0 \<and> C = 0 \<and> D = 0" by auto
  ultimately show ?thesis
    unfolding Ipv4 code spec by (simp only: conj_assoc)
qed

lemma low_byte: "unat (ucast (s :: u16) :: u8) = unat s mod 256"
  by (simp add: unsigned_ucast_eq take_bit_eq_mod)

lemma unat_drop_bit16: "unat (drop_bit n (s :: u16)) = unat s div 2 ^ n"
proof -
  have "unat (drop_bit n s) = drop_bit n (take_bit 16 (unat s))"
    by (simp only: unsigned_drop_bit_eq) simp
  also have "take_bit 16 (unat s) = unat s"
    using u16_bound [of s] by (intro take_bit_nat_eq_self) simp
  finally show ?thesis by (simp add: drop_bit_eq_div)
qed

lemma high_byte: "unat (ucast (drop_bit 8 (s :: u16)) :: u8) = unat s div 256"
proof -
  have "unat s div 256 < 256" using u16_bound [of s] by linarith
  then show ?thesis
    using unat_drop_bit16 [of 8 s] by (simp only: low_byte) simp
qed

lemma clear_low_bits: "(s :: u16) AND NOT (mask n) = push_bit n (drop_bit n s)"
  by (rule bit_word_eqI) (auto simp: bit_simps)

lemma unat_clear_low_bits: "unat ((s :: u16) AND NOT (mask n)) = unat s div 2 ^ n * 2 ^ n"
proof -
  have "unat s div 2 ^ n * 2 ^ n < 2 ^ 16"
    using order.strict_trans1 [OF div_times_less_eq_dividend u16_bound [of s]] by simp
  then show ?thesis
    unfolding clear_low_bits unsigned_push_bit_eq unat_drop_bit16
    by (simp add: push_bit_eq_mult take_bit_nat_eq_self)
qed

lemma mask_link_local: "(s :: u16) AND 0xffc0 = 0xfe80 \<longleftrightarrow> unat s div 64 = 1018"
proof -
  have m: "(0xffc0 :: u16) = NOT (mask 6)" by (simp add: mask_eq_exp_minus_1)
  have "s AND 0xffc0 = 0xfe80 \<longleftrightarrow> unat (s AND 0xffc0) = 65152"
    by (simp add: word_unat_eq_iff)
  also have "\<dots> \<longleftrightarrow> unat s div 64 * 64 = 65152"
    unfolding m unat_clear_low_bits by simp
  finally show ?thesis by auto
qed

lemma mask_ula: "(s :: u16) AND 0xfe00 = 0xfc00 \<longleftrightarrow> unat s div 512 = 126"
proof -
  have m: "(0xfe00 :: u16) = NOT (mask 9)" by (simp add: mask_eq_exp_minus_1)
  have "s AND 0xfe00 = 0xfc00 \<longleftrightarrow> unat (s AND 0xfe00) = 64512"
    by (simp add: word_unat_eq_iff)
  also have "\<dots> \<longleftrightarrow> unat s div 512 * 512 = 64512"
    unfolding m unat_clear_low_bits by simp
  finally show ?thesis by auto
qed

lemma v6_num_top: "v6_num (Ipv6 s0 s1 s2 s3 s4 s5 s6 s7) div 2 ^ 112 = unat s0"
  using u16_bound [of s1] u16_bound [of s2] u16_bound [of s3] u16_bound [of s4]
    u16_bound [of s5] u16_bound [of s6] u16_bound [of s7]
  by (intro div_nat_eqI) simp_all

lemma v6_num_mapped:
  "v6_num (Ipv6 s0 s1 s2 s3 s4 s5 s6 s7) div 2 ^ 32 = 0xffff \<longleftrightarrow>
     s0 = 0 \<and> s1 = 0 \<and> s2 = 0 \<and> s3 = 0 \<and> s4 = 0 \<and> s5 = 0xffff"
proof -
  have "v6_num (Ipv6 s0 s1 s2 s3 s4 s5 s6 s7) div 2 ^ 32
      = unat s0 * 2 ^ 80 + unat s1 * 2 ^ 64 + unat s2 * 2 ^ 48 + unat s3 * 2 ^ 32
        + unat s4 * 2 ^ 16 + unat s5"
    using u16_bound [of s6] u16_bound [of s7] by (intro div_nat_eqI) simp_all
  also have "\<dots> = 0xffff \<longleftrightarrow>
      unat s0 = 0 \<and> unat s1 = 0 \<and> unat s2 = 0 \<and> unat s3 = 0 \<and> unat s4 = 0 \<and> unat s5 = 0xffff"
    (is "?l = _ \<longleftrightarrow> ?r")
  proof
    assume l: "?l = 0xffff"
    then have "unat s0 = 0" "unat s1 = 0" "unat s2 = 0" "unat s3 = 0" "unat s4 = 0"
      by auto
    with l show ?r by simp
  qed simp
  finally show ?thesis by (simp add: word_unat_eq_iff)
qed

lemma v6_num_low: "v6_num (Ipv6 s0 s1 s2 s3 s4 s5 s6 s7) mod 2 ^ 32 = unat s6 * 2 ^ 16 + unat s7"
proof -
  have "v6_num (Ipv6 s0 s1 s2 s3 s4 s5 s6 s7) = (unat s0 * 2 ^ 80 + unat s1 * 2 ^ 64
      + unat s2 * 2 ^ 48 + unat s3 * 2 ^ 32 + unat s4 * 2 ^ 16 + unat s5) * 2 ^ 32
      + (unat s6 * 2 ^ 16 + unat s7)" by simp
  moreover have "unat s6 * 2 ^ 16 + unat s7 < 2 ^ 32"
    using u16_bound [of s6] u16_bound [of s7] by simp
  ultimately show ?thesis by (simp only: mod_mult_self3 mod_less)
qed

lemma v6_num_eq_small:
  "v6_num (Ipv6 s0 s1 s2 s3 s4 s5 s6 s7) = n \<Longrightarrow> n < 65536 \<Longrightarrow>
     s0 = 0 \<and> s1 = 0 \<and> s2 = 0 \<and> s3 = 0 \<and> s4 = 0 \<and> s5 = 0 \<and> s6 = 0 \<and> unat s7 = n"
  by (auto simp: word_unat_eq_iff)

lemma mapped_num:
  "to_ipv4_mapped a = Some b \<Longrightarrow> v4_num b = v6_num a mod 2 ^ 32"
proof (cases a)
  case (Ipv6 s0 s1 s2 s3 s4 s5 s6 s7)
  assume "to_ipv4_mapped a = Some b"
  with Ipv6 have b: "b = Ipv4 (ucast (drop_bit 8 s6)) (ucast s6) (ucast (drop_bit 8 s7)) (ucast s7)"
    by (simp split: if_splits)
  have regroup: "p * 2 ^ 24 + q * 2 ^ 16 + r * 2 ^ 8 + t = (p * 256 + q) * 65536 + (r * 256 + t)"
    for p q r t :: nat by simp
  have d: "unat s div 256 * 256 + unat s mod 256 = unat s" for s :: u16 by simp
  have "v4_num b = (unat s6 div 256 * 256 + unat s6 mod 256) * 65536
      + (unat s7 div 256 * 256 + unat s7 mod 256)"
    unfolding b v4_num.simps high_byte unfolding low_byte by (rule regroup)
  then show ?thesis unfolding Ipv6 v6_num_low d by simp
qed

lemma v6_blocked_iff:
  "(v6_is_loopback a \<or> v6_is_unspecified a \<or> is_ipv6_link_local a \<or> is_ipv6_ula a)
   \<longleftrightarrow> (\<exists>r \<in> set blocked_v6_ranges. in_prefix 128 (v6_num a) r)"
proof (cases a)
  case (Ipv6 s0 s1 s2 s3 s4 s5 s6 s7)
  let ?n = "v6_num (Ipv6 s0 s1 s2 s3 s4 s5 s6 s7)"
  have split: "?n div 2 ^ (112 + k) = unat s0 div 2 ^ k" for k
    by (simp only: power_add div_mult2_eq v6_num_top)
  have ll: "?n div 2 ^ 118 = unat s0 div 64" and ula: "?n div 2 ^ 121 = unat s0 div 512"
    using split [of 6] split [of 9] by simp_all
  have one: "v6_is_loopback (Ipv6 s0 s1 s2 s3 s4 s5 s6 s7) \<longleftrightarrow> ?n = 1"
    using v6_num_eq_small [of s0 s1 s2 s3 s4 s5 s6 s7 1] by (auto simp: word_unat_eq_iff)
  have zero: "v6_is_unspecified (Ipv6 s0 s1 s2 s3 s4 s5 s6 s7) \<longleftrightarrow> ?n = 0"
    using v6_num_eq_small [of s0 s1 s2 s3 s4 s5 s6 s7 0] by (auto simp: word_unat_eq_iff)
  have "(\<exists>r \<in> set blocked_v6_ranges. in_prefix 128 ?n r) \<longleftrightarrow>
      ?n = 1 \<or> ?n = 0 \<or> ?n div 2 ^ 118 = 1018 \<or> ?n div 2 ^ 121 = 126"
    by (simp add: blocked_v6_ranges_def in_prefix_def del: v6_num.simps)
  then show ?thesis
    unfolding Ipv6 one zero ll ula by (simp add: mask_link_local mask_ula del: v6_num.simps)
qed

lemma mapped_iff:
  "to_ipv4_mapped a \<noteq> None \<longleftrightarrow> in_prefix 128 (v6_num a) (0xffff * 2 ^ 32, 96)"
proof (cases a)
  case (Ipv6 s0 s1 s2 s3 s4 s5 s6 s7)
  have "in_prefix 128 (v6_num a) (0xffff * 2 ^ 32, 96) \<longleftrightarrow> v6_num a div 2 ^ 32 = 0xffff"
    by (simp add: in_prefix_def)
  then show ?thesis unfolding Ipv6 v6_num_mapped by simp
qed

definition ip_blocked_code :: "ip_addr \<Rightarrow> bool" where
  "ip_blocked_code ip \<longleftrightarrow> check_ip_not_private ip = Inl Blocked"

lemma blocked_code_iff: "ip_blocked_code ip \<longleftrightarrow> ip_blocked_spec ip"
proof (cases ip)
  case (V4 a)
  then show ?thesis
    by (simp add: ip_blocked_code_def check_ip_not_private_def normalize_ip_def
        ip_blocked_spec_def flip: v4_blocked_iff)
next
  case (V6 a)
  show ?thesis
  proof (cases "to_ipv4_mapped a")
    case None
    then have "\<not> in_prefix 128 (v6_num a) (0xffff * 2 ^ 32, 96)"
      using mapped_iff [of a] by simp
    with V6 None show ?thesis
      by (simp add: ip_blocked_code_def check_ip_not_private_def normalize_ip_def
          ip_blocked_spec_def flip: v6_blocked_iff)
  next
    case (Some b)
    then have "in_prefix 128 (v6_num a) (0xffff * 2 ^ 32, 96)"
      using mapped_iff [of a] by simp
    moreover have "v4_num b = v6_num a mod 2 ^ 32" using Some by (rule mapped_num)
    ultimately have "ip_blocked_spec ip \<longleftrightarrow> v4_num_blocked (v4_num b)"
      using V6 by (simp add: ip_blocked_spec_def)
    with V6 Some show ?thesis
      by (simp add: ip_blocked_code_def check_ip_not_private_def normalize_ip_def
          flip: v4_blocked_iff)
  qed
qed

lemma check_ip_cases:
  "check_ip_not_private ip = (if ip_blocked_code ip then Inl Blocked else Inr ())"
  by (simp add: ip_blocked_code_def check_ip_not_private_def Let_def)

lemma check_addrs_ok: "check_addrs ips = Inr u \<longleftrightarrow> (\<forall>ip \<in> set ips. \<not> ip_blocked_spec ip)"
  by (induction ips) (auto simp: check_ip_cases blocked_code_iff and_then_Inr map_err_def)

lemma check_addrs_err: "check_addrs ips = Inl e \<Longrightarrow> e = Sdk ''ssrf_blocked''"
  by (induction ips) (auto simp: and_then_Inl as_ssrf_blocked_def map_err_def split: sum.splits)

text \<open>What the static guard promises of the URL it returns.\<close>

definition host_public :: "url_host option \<Rightarrow> bool" where
  "host_public h =
     (case h of
        Some (Domain d) \<Rightarrow> check_host_not_private d = Inr ()
      | Some (HostV4 ip) \<Rightarrow> \<not> ip_blocked_spec (V4 ip)
      | Some (HostV6 ip) \<Rightarrow> \<not> ip_blocked_spec (V6 ip)
      | None \<Rightarrow> False)"

lemma parse_validated_ok_iff:
  "parse_validated_https_url url_parse raw = Inr u \<longleftrightarrow>
     url_parse raw = Some u \<and> url_scheme u = ''https'' \<and> url_username u = []
     \<and> url_password u = None \<and> url_query u = None \<and> url_fragment u = None
     \<and> host_public (url_host u)"
  by (auto simp: parse_validated_https_url_def host_public_def and_then_Inr check_ip_cases
      blocked_code_iff split: option.splits url_host.splits if_splits)

section \<open>Properties\<close>

text \<open>
  C28. The address guard rejects exactly the addresses of the documented ranges: RFC 1918,
  loopback, link-local, unspecified and carrier-grade NAT for IPv4; loopback,
  unspecified, link-local and unique-local for IPv6; and an IPv4-mapped IPv6 address is
  rejected exactly when the IPv4 address it carries is.
\<close>

theorem check_ip_not_private_exact:
  "check_ip_not_private ip = (if ip_blocked_spec ip then Inl Blocked else Inr ())"
  by (simp add: check_ip_cases blocked_code_iff)

text \<open>
  C27. The gateway's preflight accepts a URL only if it is an https URL without userinfo,
  query or fragment whose host passes the static guard, and, unless the host is an
  address literal, only if the resolver answered and every address it answered with
  lies outside the blocked ranges. Every refusal has the kind \<open>ssrf_blocked\<close>.
\<close>

theorem validate_external_https_url_sound:
  "case validate_external_https_url_blocking url_parse ip_parse resolve raw of
     Inr _ \<Rightarrow> \<exists>u host. url_parse raw = Some u \<and> url_scheme u = ''https''
        \<and> url_username u = [] \<and> url_password u = None \<and> url_query u = None
        \<and> url_fragment u = None \<and> host_public (url_host u) \<and> url_host_str u = Some host
        \<and> ((\<exists>ip. ip_parse host = Some ip) \<or> (\<exists>addrs.
             resolve host (case url_port u of Some p \<Rightarrow> p | None \<Rightarrow> 443) = Some addrs
             \<and> list_all (\<lambda>ip. \<not> ip_blocked_spec ip) addrs))
   | Inl e \<Rightarrow> tool_error_kind e = ''ssrf_blocked''"
proof (cases "validate_external_https_url_blocking url_parse ip_parse resolve raw")
  case (Inl e)
  then have "e = Sdk ''ssrf_blocked''"
    by (auto simp: validate_external_https_url_blocking_def labby_res as_ssrf_blocked_def Let_def
        split: if_splits dest: check_addrs_err)
  with Inl show ?thesis by simp
next
  case (Inr x)
  then obtain u host where u: "parse_validated_https_url url_parse raw = Inr u"
    and host: "url_host_str u = Some host"
    and rest: "ip_parse host \<noteq> None \<or> (\<exists>addrs.
      resolve host (case url_port u of Some p \<Rightarrow> p | None \<Rightarrow> 443) = Some addrs
      \<and> check_addrs addrs = Inr x)"
    by (auto simp: validate_external_https_url_blocking_def labby_res Let_def split: if_splits)
  from rest have "ip_parse host \<noteq> None \<or> (\<exists>addrs.
      resolve host (case url_port u of Some p \<Rightarrow> p | None \<Rightarrow> 443) = Some addrs
      \<and> list_all (\<lambda>ip. \<not> ip_blocked_spec ip) addrs)"
    by (simp add: check_addrs_ok list_all_iff)
  with u host Inr show ?thesis by (auto simp: parse_validated_ok_iff)
qed

end
