(* ===== verification/Spawn_Guard.thy ===== *)
theory Spawn_Guard
  imports Tool_Error Rust_Path
begin

text \<open>
  The stdio spawn guard (\<open>crates/labby-gateway/src/security/spawn_guard.rs\<close>): which
  command, arguments and environment a stdio upstream may be configured with. An
  environment is the key-ordered list of its entries.
\<close>

section \<open>Allowlists and denylists\<close>

definition ALLOWED_RUNTIME_HINTS :: "string list" where
  "ALLOWED_RUNTIME_HINTS =
     [''npx'', ''uvx'', ''docker'', ''dnx'', ''pipx'', ''node'', ''python'', ''python3'', ''deno'']"

definition DENIED_ENV_NAMES :: "string list" where
  "DENIED_ENV_NAMES =
     [''PATH'', ''LD_PRELOAD'', ''LD_LIBRARY_PATH'', ''HOME'', ''SHELL'', ''IFS'', ''USER'', ''PWD'']"

definition DANGEROUS_DOCKER_FLAGS :: "string list" where
  "DANGEROUS_DOCKER_FLAGS =
     [''--privileged'', ''--cap-add'', ''--volume'', ''-v'', ''--device'', ''--network'',
      ''--pid'', ''--ipc'']"

definition DANGEROUS_NODE_FLAGS :: "string list" where
  "DANGEROUS_NODE_FLAGS =
     [''--inspect'', ''--require'', ''-r'', ''--experimental'', ''--allow'', ''-e'', ''--eval'',
      ''-p'', ''--print'']"

definition DANGEROUS_PYTHON_FLAGS :: "string list" where
  "DANGEROUS_PYTHON_FLAGS = [''-c'', ''--command'', ''-'']"

definition DANGEROUS_DENO_FLAGS :: "string list" where
  "DANGEROUS_DENO_FLAGS = [''eval'', ''--allow-all'', ''-A'']"

section \<open>The checks\<close>

definition binary_name :: "string \<Rightarrow> string" where
  "binary_name command = (case file_name command of Some n \<Rightarrow> n | None \<Rightarrow> command)"

definition validate_stdio_command :: "string \<Rightarrow> string list \<Rightarrow> bool \<Rightarrow> tool_error + unit" where
  "validate_stdio_command command extra bypass =
     (if bypass then Inr ()
      else if List.member ALLOWED_RUNTIME_HINTS (binary_name command)
              \<or> List.member extra (binary_name command)
      then Inr ()
      else Inl (InvalidParam ''command''))"

definition has_control :: "string \<Rightarrow> bool" where
  "has_control s = list_ex (\<lambda>c. byte c = 10 \<or> byte c = 13 \<or> byte c = 0) s"

definition node_flag_matches :: "string \<Rightarrow> string \<Rightarrow> bool" where
  "node_flag_matches denied flag =
     (flag = denied
      \<or> (List.member [''--allow'', ''--experimental'', ''--inspect''] denied
          \<and> starts_with flag (denied @ ''-'')))"

definition argv_flag_denied :: "string \<Rightarrow> string \<Rightarrow> bool" where
  "argv_flag_denied runtime_hint arg =
     (let flag = hd (split_char (CHR ''='') arg) in
      if runtime_hint = ''docker'' then
        List.member DANGEROUS_DOCKER_FLAGS flag
        \<or> List.member [''--network=host'', ''--pid=host'', ''--ipc=host''] arg
      else if runtime_hint = ''node'' \<or> runtime_hint = ''npx'' then
        list_ex (\<lambda>p. node_flag_matches p flag) DANGEROUS_NODE_FLAGS
      else if runtime_hint = ''python'' \<or> runtime_hint = ''python3'' then
        List.member DANGEROUS_PYTHON_FLAGS flag
      else if runtime_hint = ''deno'' then List.member DANGEROUS_DENO_FLAGS flag
      else False)"

definition validate_runtime_argv_flag :: "string \<Rightarrow> string \<Rightarrow> tool_error + unit" where
  "validate_runtime_argv_flag runtime_hint arg =
     (if argv_flag_denied runtime_hint arg then Inl (InvalidParam ''args'') else Inr ())"

fun validate_stdio_argv :: "string \<Rightarrow> string list \<Rightarrow> tool_error + unit" where
  "validate_stdio_argv runtime_hint [] = Inr ()"
| "validate_stdio_argv runtime_hint (arg # args) =
     (if has_control arg then Inl (InvalidParam ''args'')
      else and_then (validate_runtime_argv_flag runtime_hint arg)
             (\<lambda>_. validate_stdio_argv runtime_hint args))"

definition env_name_valid :: "string \<Rightarrow> bool" where
  "env_name_valid name =
     (name \<noteq> [] \<and> is_ascii_uppercase (hd name)
      \<and> list_all (\<lambda>c. is_ascii_uppercase c \<or> is_ascii_digit c \<or> c = CHR ''_'') name)"

definition env_name_denied :: "string \<Rightarrow> bool" where
  "env_name_denied name = (List.member DENIED_ENV_NAMES name \<or> starts_with name ''LABBY_'')"

definition validate_stdio_env_name :: "string \<Rightarrow> tool_error + unit" where
  "validate_stdio_env_name name =
     (if env_name_valid name \<and> \<not> env_name_denied name then Inr () else Inl (InvalidParam ''env''))"

definition validate_stdio_env_value :: "string \<Rightarrow> string \<Rightarrow> tool_error + unit" where
  "validate_stdio_env_value key value =
     (if has_control value then Inl (InvalidParam ''env'') else Inr ())"

fun validate_stdio_env :: "(string \<times> string) list \<Rightarrow> tool_error + unit" where
  "validate_stdio_env [] = Inr ()"
| "validate_stdio_env ((name, value) # env) =
     and_then (validate_stdio_env_name name) (\<lambda>_.
     and_then (validate_stdio_env_value name value) (\<lambda>_. validate_stdio_env env))"

definition validate_stdio_spec ::
  "string \<Rightarrow> string list \<Rightarrow> (string \<times> string) list \<Rightarrow> string list \<Rightarrow> bool \<Rightarrow> tool_error + unit" where
  "validate_stdio_spec command args env extra bypass =
     and_then (validate_stdio_command command extra bypass) (\<lambda>_.
     and_then (validate_stdio_argv (binary_name command) args) (\<lambda>_.
     validate_stdio_env env))"

section \<open>Lemmas\<close>

lemma validate_stdio_argv_ok:
  "validate_stdio_argv h args = Inr u \<longleftrightarrow>
     (\<forall>a \<in> set args. \<not> has_control a \<and> \<not> argv_flag_denied h a)"
  by (induction args) (auto simp: validate_runtime_argv_flag_def)

lemma validate_stdio_argv_err: "validate_stdio_argv h args = Inl e \<Longrightarrow> e = InvalidParam ''args''"
  by (induction args) (auto simp: validate_runtime_argv_flag_def split: if_splits)

lemma validate_stdio_env_ok:
  "validate_stdio_env env = Inr u \<longleftrightarrow>
     (\<forall>(n, v) \<in> set env. env_name_valid n \<and> \<not> env_name_denied n \<and> \<not> has_control v)"
  by (induction env rule: validate_stdio_env.induct)
     (auto simp: validate_stdio_env_name_def validate_stdio_env_value_def)

lemma validate_stdio_env_err: "validate_stdio_env env = Inl e \<Longrightarrow> e = InvalidParam ''env''"
  by (induction env rule: validate_stdio_env.induct)
     (auto simp: validate_stdio_env_name_def validate_stdio_env_value_def split: if_splits)

section \<open>Properties\<close>


text \<open>
  Every rejection is an \<open>invalid_param\<close> error that names the offending part, and the
  parts are checked in order: the command, then the arguments, then the environment.
\<close>

theorem validate_stdio_spec_error_order:
  "validate_stdio_spec command args env extra bypass = Inl e \<Longrightarrow>
     e = (if validate_stdio_command command extra bypass \<noteq> Inr () then InvalidParam ''command''
          else if validate_stdio_argv (binary_name command) args \<noteq> Inr () then InvalidParam ''args''
          else InvalidParam ''env'')"
  by (auto simp: validate_stdio_spec_def and_then_Inl validate_stdio_command_def
      dest: validate_stdio_argv_err validate_stdio_env_err split: if_splits)

theorem validate_stdio_spec_error_order_witness:
  "validate_stdio_spec ''docker'' [''run'', ''-v''] [] [] False = Inl (InvalidParam ''args'')"
proof -
  have cmd: "validate_stdio_command ''docker'' [] False = Inr ()" by code_simp
  have args: "validate_stdio_argv (binary_name ''docker'') [''run'', ''-v''] \<noteq> Inr ()"
    by code_simp
  have "\<exists>e. validate_stdio_spec ''docker'' [''run'', ''-v''] [] [] False = Inl e"
    by (intro exI [of _ "InvalidParam ''args''"]) code_simp
  then obtain e where e: "validate_stdio_spec ''docker'' [''run'', ''-v''] [] [] False = Inl e" ..
  with validate_stdio_spec_error_order [OF e] cmd args show ?thesis by simp
qed

text \<open>
  The flag denylist compares whole arguments (up to an equals sign), so a short flag
  written together with its value is accepted although the separated form is refused:
  the volume mount \<open>-v/:/host\<close> passes for docker, inline code \<open>-cprint(1)\<close> for python.
\<close>

theorem glued_short_flags_accepted:
  "validate_stdio_spec ''docker'' [''run'', ''-v'', ''/:/host''] [] [] False
     = Inl (InvalidParam ''args'')
   \<and> validate_stdio_spec ''docker'' [''run'', ''-v/:/host''] [] [] False = Inr ()
   \<and> validate_stdio_spec ''python3'' [''-c'', ''print(1)''] [] [] False = Inl (InvalidParam ''args'')
   \<and> validate_stdio_spec ''python3'' [''-cprint(1)''] [] [] False = Inr ()"
  by (intro conjI; code_simp)

end
