(* ===== verification/Redact.thy ===== *)
theory Redact
  imports Ssrf
begin

text \<open>
  Redaction of secrets for logs (\<open>crates/labby-runtime/src/redact.rs\<close>). The \<open>url\<close> crate is
  a parameter again: \<open>url_parse\<close> and the serialisation \<open>url_to_string\<close>.
\<close>

section \<open>Sensitive keys\<close>

definition normalize_key :: "string \<Rightarrow> string" where
  "normalize_key key =
     map (\<lambda>c. if c = CHR ''-'' then CHR ''_'' else c) (to_ascii_lowercase key)"

definition non_secret_keys :: "string list" where
  "non_secret_keys =
     [''sort_key'', ''cache_key'', ''idempotency_key'', ''partition_key'', ''primary_key'']"

definition secret_keys :: "string list" where
  "secret_keys =
     [''token'', ''access_token'', ''id_token'', ''refresh_token'', ''apikey'', ''api_key'',
      ''password'', ''passwd'', ''secret'', ''client_secret'', ''authorization'', ''bearer'',
      ''session'', ''session_id'', ''cookie'', ''code'', ''cwd'', ''terminal_id'']"

definition is_sensitive_key :: "string \<Rightarrow> bool" where
  "is_sensitive_key key =
     (let normalized = normalize_key key in
      if List.member non_secret_keys normalized then False
      else List.member secret_keys normalized
           \<or> ends_with normalized ''_token'' \<or> ends_with normalized ''_secret''
           \<or> ends_with normalized ''_password'' \<or> ends_with normalized ''_key'')"

section \<open>Command lines\<close>

text \<open>The part of a flag before its first equals sign.\<close>

definition key_part :: "string \<Rightarrow> string" where
  "key_part flag = (case split_once (CHR ''='') flag of Some (k, _) \<Rightarrow> k | None \<Rightarrow> flag)"

text \<open>The branch of \<open>redact_stdio_value\<close> for an argument that starts with two dashes.\<close>

definition redact_flag_value :: "string \<Rightarrow> string" where
  "redact_flag_value v =
     (case strip_prefix ''--'' v of
        Some flag \<Rightarrow>
          if is_sensitive_key (key_part flag) then ''--'' @ key_part flag @ ''=[redacted]'' else v
      | None \<Rightarrow> v)"

definition redact_stdio_value :: "string \<Rightarrow> string" where
  "redact_stdio_value v =
     (case split_once (CHR ''='') v of
        Some (key, _) \<Rightarrow>
          if is_sensitive_key key then key @ ''=[redacted]'' else redact_flag_value v
      | None \<Rightarrow> redact_flag_value v)"

definition is_sensitive_flag :: "string \<Rightarrow> bool" where
  "is_sensitive_flag arg =
     (case strip_prefix ''--'' arg of
        None \<Rightarrow> False
      | Some v \<Rightarrow> is_sensitive_key (key_part v))"

text \<open>The loop of \<open>redact_stdio_args\<close>; the flag is its \<open>redact_next\<close>.\<close>

fun redact_args_loop :: "bool \<Rightarrow> string list \<Rightarrow> string list" where
  "redact_args_loop redact_next [] = []"
| "redact_args_loop redact_next (arg # args) =
     (if redact_next then ''[redacted]'' # redact_args_loop False args
      else if is_sensitive_flag arg \<and> \<not> str_contains arg ''='' then arg # redact_args_loop True args
      else redact_stdio_value arg # redact_args_loop False args)"

definition redact_stdio_args :: "string list \<Rightarrow> string list" where
  "redact_stdio_args args = redact_args_loop False args"

section \<open>URLs\<close>

definition redact_pair :: "string \<Rightarrow> string" where
  "redact_pair pair =
     (let (key, v) = (case split_once (CHR ''='') pair of Some kv \<Rightarrow> kv | None \<Rightarrow> (pair, []))
      in if is_sensitive_key key then key @ ''=[redacted]''
         else if v = [] then key
         else key @ ''='' @ v)"

definition redact_query_pairs :: "string \<Rightarrow> string" where
  "redact_query_pairs query =
     join ''&'' (map redact_pair (filter (\<lambda>p. p \<noteq> []) (split_char (CHR ''&'') query)))"

definition redact_parsed_url :: "(url \<Rightarrow> string) \<Rightarrow> url \<Rightarrow> string" where
  "redact_parsed_url url_to_string parsed =
     url_to_string (parsed\<lparr>url_username := [], url_password := None,
       url_query := map_option redact_query_pairs (url_query parsed), url_fragment := None\<rparr>)"

definition redact_url :: "(string \<Rightarrow> url option) \<Rightarrow> (url \<Rightarrow> string) \<Rightarrow> string \<Rightarrow> string" where
  "redact_url url_parse url_to_string raw =
     (case url_parse raw of
        Some parsed \<Rightarrow> redact_parsed_url url_to_string parsed
      | None \<Rightarrow> ''[invalid-url-redacted]'')"

definition redact_uri_or_path :: "(string \<Rightarrow> url option) \<Rightarrow> (url \<Rightarrow> string) \<Rightarrow> string \<Rightarrow> string" where
  "redact_uri_or_path url_parse url_to_string v =
     (case url_parse v of
        Some parsed \<Rightarrow> redact_parsed_url url_to_string parsed
      | None \<Rightarrow>
          (let before_fragment = (\<lambda>s. hd (split_char (CHR ''#'') s));
               (path, query) =
                 (case split_once (CHR ''?'') v of
                    Some (path, rest) \<Rightarrow> (before_fragment path, Some (before_fragment rest))
                  | None \<Rightarrow> (before_fragment v, None))
           in case map_option redact_query_pairs query of
                Some q \<Rightarrow> if q \<noteq> [] then path @ ''?'' @ q else path
              | None \<Rightarrow> path))"

definition redact_upstream_resource_uri ::
  "(string \<Rightarrow> url option) \<Rightarrow> (url \<Rightarrow> string) \<Rightarrow> string \<Rightarrow> string" where
  "redact_upstream_resource_uri url_parse url_to_string uri =
     (case strip_prefix ''lab://upstream/'' uri of
        None \<Rightarrow> redact_url url_parse url_to_string uri
      | Some rest \<Rightarrow>
          (case split_once (CHR ''/'') rest of
             None \<Rightarrow> ''lab://upstream/[redacted]''
           | Some (upstream_name, original_uri) \<Rightarrow>
               ''lab://upstream/'' @ upstream_name @ ''/''
               @ redact_uri_or_path url_parse url_to_string original_uri))"

section \<open>Lemmas\<close>

lemma normalize_key_lower [simp]: "normalize_key (to_ascii_lowercase k) = normalize_key k"
  by (simp add: normalize_key_def)

lemma length_redact_args_loop [simp]: "length (redact_args_loop b xs) = length xs"
  by (induction b xs rule: redact_args_loop.induct) auto

text \<open>Whether the loop is about to redact the next argument after a prefix of the command line.\<close>

fun redact_pending :: "bool \<Rightarrow> string list \<Rightarrow> bool" where
  "redact_pending b [] = b"
| "redact_pending b (arg # args) =
     redact_pending (\<not> b \<and> is_sensitive_flag arg \<and> \<not> str_contains arg ''='') args"

lemma redact_args_loop_append:
  "redact_args_loop b (xs @ ys) = redact_args_loop b xs @ redact_args_loop (redact_pending b xs) ys"
  by (induction b xs rule: redact_pending.induct) auto

lemma redact_pair_sensitive:
  "CHR ''='' \<notin> set k \<Longrightarrow> is_sensitive_key k \<Longrightarrow> redact_pair (k @ ''='' @ v) = k @ ''=[redacted]''"
  by (simp add: redact_pair_def split_once_append)

lemma key_part_no_eq: "CHR ''='' \<notin> set (key_part s)"
  using split_once_None [of "CHR ''=''" s]
  by (cases "split_once (CHR ''='') s") (auto simp: key_part_def dest: split_once_Some)

lemma key_part_append: "CHR ''='' \<notin> set k \<Longrightarrow> key_part (k @ CHR ''='' # w) = k"
  by (simp add: key_part_def split_once_append)

lemma redact_flag_value_cases:
  "redact_flag_value v = v \<or> (\<exists>k. redact_flag_value v = ''--'' @ k @ ''=[redacted]''
     \<and> is_sensitive_key k \<and> CHR ''='' \<notin> set k)"
  by (cases "strip_prefix ''--'' v") (auto simp: redact_flag_value_def key_part_no_eq)

lemma redact_stdio_value_cases:
  obtains "redact_stdio_value v = v"
  | k where "redact_stdio_value v = k @ ''=[redacted]''" "CHR ''='' \<notin> set k"
      "redact_stdio_value (k @ ''=[redacted]'') = k @ ''=[redacted]''"
proof (cases "redact_stdio_value v = v")
  case False
  show ?thesis
  proof (cases "\<exists>k w. split_once (CHR ''='') v = Some (k, w) \<and> is_sensitive_key k")
    case True
    then obtain k w where kw: "split_once (CHR ''='') v = Some (k, w)" "is_sensitive_key k"
      by auto
    then have "redact_stdio_value v = k @ ''=[redacted]''" "CHR ''='' \<notin> set k"
      "is_sensitive_key k"
      by (auto simp: redact_stdio_value_def dest: split_once_Some)
    moreover from this have "redact_stdio_value (k @ ''=[redacted]'') = k @ ''=[redacted]''"
      by (simp add: redact_stdio_value_def split_once_append)
    ultimately show ?thesis using that by blast
  next
    case flag: False
    then have "redact_stdio_value v = redact_flag_value v"
      by (auto simp: redact_stdio_value_def split: option.splits)
    with \<open>redact_stdio_value v \<noteq> v\<close> obtain k where
      k: "redact_stdio_value v = (''--'' @ k) @ ''=[redacted]''" "is_sensitive_key k"
        "CHR ''='' \<notin> set k"
      using redact_flag_value_cases [of v] by auto
    moreover have "redact_stdio_value ((''--'' @ k) @ ''=[redacted]'') = (''--'' @ k) @ ''=[redacted]''"
      using k split_once_append [of "CHR ''=''" "''--'' @ k"]
      by (simp add: redact_stdio_value_def redact_flag_value_def key_part_append)
    ultimately show ?thesis by (intro that(2) [of "''--'' @ k"]) auto
  qed
qed (rule that(1))

lemma redact_value_stable:
  assumes "\<not> (is_sensitive_flag v \<and> CHR ''='' \<notin> set v)"
  shows "redact_stdio_value (redact_stdio_value v) = redact_stdio_value v
    \<and> \<not> (is_sensitive_flag (redact_stdio_value v) \<and> CHR ''='' \<notin> set (redact_stdio_value v))"
  using assms by (cases rule: redact_stdio_value_cases [of v]) auto

lemma redact_args_loop_idem: "redact_args_loop b (redact_args_loop b xs) = redact_args_loop b xs"
proof (induction b xs rule: redact_args_loop.induct)
  case (2 b arg args)
  show ?case
  proof (cases "b \<or> (is_sensitive_flag arg \<and> CHR ''='' \<notin> set arg)")
    case True
    with 2 show ?thesis by (auto simp: str_contains_single)
  next
    case False
    with 2 redact_value_stable [of arg] show ?thesis by (auto simp: str_contains_single)
  qed
qed simp

section \<open>Properties\<close>



text \<open>
  The value of a sensitive query parameter never influences the redacted query: two
  queries that differ only there have the same redaction.
\<close>

theorem redact_query_hides_value:
  assumes "is_sensitive_key k" and "CHR ''='' \<notin> set k" and "CHR ''&'' \<notin> set k"
    and "CHR ''&'' \<notin> set v" and "CHR ''&'' \<notin> set v'"
  shows "redact_query_pairs (join ''&'' (ps @ (k @ ''='' @ v) # qs))
    = redact_query_pairs (join ''&'' (ps @ (k @ ''='' @ v') # qs))"
proof -
  have "map redact_pair (filter (\<lambda>p. p \<noteq> []) (split_char (CHR ''&'')
        (join ''&'' (ps @ (k @ ''='' @ w) # qs))))
      = map redact_pair (filter (\<lambda>p. p \<noteq> []) (concat (map (split_char (CHR ''&'')) ps)))
        @ (k @ ''=[redacted]'')
        # map redact_pair (filter (\<lambda>p. p \<noteq> []) (concat (map (split_char (CHR ''&'')) qs)))"
    if "CHR ''&'' \<notin> set w" for w
    using assms(1-3) that
    by (simp add: split_char_join_concat split_char_single redact_pair_sensitive [simplified])
  with assms(4,5) show ?thesis by (simp add: redact_query_pairs_def)
qed

theorem redact_query_hides_value_witness:
  "redact_query_pairs (join ''&'' ([''page=2''] @ (''code'' @ ''='' @ ''s3cret'') # [''n=1'']))
    = ''page=2&code=[redacted]&n=1''"
proof -
  have s: "is_sensitive_key ''code''" by code_simp
  have "redact_query_pairs (join ''&'' ([''page=2''] @ (''code'' @ ''='' @ ''s3cret'') # [''n=1'']))
    = redact_query_pairs (join ''&'' ([''page=2''] @ (''code'' @ ''='' @ ''other'') # [''n=1'']))"
    by (rule redact_query_hides_value [OF s]) simp_all
  also have "\<dots> = ''page=2&code=[redacted]&n=1''" by code_simp
  finally show ?thesis .
qed

text \<open>
  Redacting an already redacted command line changes nothing, and redaction never
  drops or adds an argument.
\<close>

theorem redact_stdio_args_idempotent:
  "redact_stdio_args (redact_stdio_args args) = redact_stdio_args args
   \<and> length (redact_stdio_args args) = length args"
  by (simp add: redact_stdio_args_def redact_args_loop_idem)

end
