(* ===== verification/Exposure.thy ===== *)
theory Exposure
  imports Labby_Prelude
begin

text \<open>
  The tool exposure policy of an upstream
  (\<open>crates/labby-gateway/src/upstream/types.rs\<close>): exact names and wildcard patterns.
\<close>

section \<open>The matcher\<close>

text \<open>
  \<open>str::match_indices\<close>: the offsets of the disjoint occurrences, from the left. The
  matcher calls it with a non-empty part only.
\<close>

function match_indices :: "string \<Rightarrow> nat \<Rightarrow> string \<Rightarrow> nat list" where
  "match_indices part off [] = []"
| "match_indices part off (c # cs) =
     (if part \<noteq> [] \<and> starts_with (c # cs) part
      then off # match_indices part (off + length part) (drop (length part) (c # cs))
      else match_indices part (off + 1) cs)"
  by pat_completeness auto
termination
  by (relation "measure (\<lambda>(part, off, s). length s)") (auto simp: neq_Nil_conv)

fun wildcard_scan :: "string \<Rightarrow> nat \<Rightarrow> string list \<Rightarrow> nat option" where
  "wildcard_scan candidate cursor [] = Some cursor"
| "wildcard_scan candidate cursor (part # parts) =
     (case find (\<lambda>idx. cursor \<le> idx) (match_indices part 0 candidate) of
        Some idx \<Rightarrow> wildcard_scan candidate (idx + length part) parts
      | None \<Rightarrow> None)"

definition wildcard_loop :: "string \<Rightarrow> bool \<Rightarrow> string list \<Rightarrow> nat option" where
  "wildcard_loop candidate anchored_start parts =
     (if anchored_start then
        (case parts of
           [] \<Rightarrow> Some 0
         | p # ps \<Rightarrow>
             if starts_with candidate p then wildcard_scan candidate (length p) ps else None)
      else wildcard_scan candidate 0 parts)"

definition wildcard_matches :: "string \<Rightarrow> string \<Rightarrow> bool" where
  "wildcard_matches pattern candidate =
     (if pattern = ''*'' then True
      else
        let parts = split_char (CHR ''*'') pattern in
        if length parts = 1 then pattern = candidate
        else
          let anchored_start = \<not> starts_with pattern ''*'';
              anchored_end = \<not> ends_with pattern ''*'';
              non_empty_parts = filter (\<lambda>p. p \<noteq> []) parts
          in if non_empty_parts = [] then True
             else (case wildcard_loop candidate anchored_start non_empty_parts of
                     None \<Rightarrow> False
                   | Some cursor \<Rightarrow>
                       if anchored_end then ends_with candidate (last non_empty_parts) else True))"

section \<open>Patterns and policies\<close>

datatype tool_pattern = Exact string | Wildcard string

datatype tool_exposure_policy = ExposeAll | AllowList "tool_pattern list"

fun pattern_matches :: "tool_pattern \<Rightarrow> string \<Rightarrow> bool" where
  "pattern_matches (Exact value) candidate = (value = candidate)"
| "pattern_matches (Wildcard pattern) candidate = wildcard_matches pattern candidate"

fun pattern_as_str :: "tool_pattern \<Rightarrow> string" where
  "pattern_as_str (Exact value) = value"
| "pattern_as_str (Wildcard value) = value"

text \<open>The error of \<open>from_patterns\<close> is a message only.\<close>

definition compile_pattern :: "string \<Rightarrow> unit + tool_pattern" where
  "compile_pattern pattern =
     (let trimmed = trim pattern in
      if trimmed = [] then Inl ()
      else if str_contains trimmed ''*'' then Inr (Wildcard trimmed)
      else Inr (Exact trimmed))"

definition from_patterns :: "string list \<Rightarrow> unit + tool_exposure_policy" where
  "from_patterns patterns =
     and_then (collect_results (map compile_pattern patterns)) (\<lambda>ps. Inr (AllowList ps))"

definition from_optional :: "string list option \<Rightarrow> unit + tool_exposure_policy" where
  "from_optional patterns =
     (case patterns of None \<Rightarrow> Inr ExposeAll | Some ps \<Rightarrow> from_patterns ps)"

text \<open>An invalid configuration hides every tool (\<open>crates/labby-gateway/src/upstream/pool/entries.rs\<close>).\<close>

definition resolve_exposure_policy :: "string list option \<Rightarrow> tool_exposure_policy" where
  "resolve_exposure_policy expose_tools =
     (case from_optional expose_tools of Inr policy \<Rightarrow> policy | Inl _ \<Rightarrow> AllowList [])"

definition matched_by :: "tool_exposure_policy \<Rightarrow> string \<Rightarrow> string option" where
  "matched_by policy tool_name =
     (case policy of
        ExposeAll \<Rightarrow> Some ''*''
      | AllowList patterns \<Rightarrow>
          map_option pattern_as_str (find (\<lambda>p. pattern_matches p tool_name) patterns))"

definition policy_matches :: "tool_exposure_policy \<Rightarrow> string \<Rightarrow> bool" where
  "policy_matches policy tool_name = (matched_by policy tool_name \<noteq> None)"

section \<open>Reference: glob matching\<close>

text \<open>A star stands for any string; every other character for itself.\<close>

fun glob :: "string \<Rightarrow> string \<Rightarrow> bool" where
  "glob [] s = (s = [])"
| "glob (c # p) s =
     (if c = CHR ''*'' then glob p s \<or> (case s of [] \<Rightarrow> False | _ # t \<Rightarrow> glob (c # p) t)
      else (case s of [] \<Rightarrow> False | d # t \<Rightarrow> c = d \<and> glob p t))"

lemma glob_star: "glob (CHR ''*'' # p) s \<longleftrightarrow> (\<exists>a b. s = a @ b \<and> glob p b)"
proof (induction s)
  case (Cons x s)
  have "glob (CHR ''*'' # p) (x # s) \<longleftrightarrow> glob p (x # s) \<or> glob (CHR ''*'' # p) s" by simp
  also have "\<dots> \<longleftrightarrow> (\<exists>a b. x # s = a @ b \<and> glob p b)"
    unfolding Cons.IH by (metis append_Cons append_Nil append_eq_Cons_conv)
  finally show ?case .
qed simp

lemma glob_literal: "CHR ''*'' \<notin> set q \<Longrightarrow> glob (q @ p) s \<longleftrightarrow> (\<exists>b. s = q @ b \<and> glob p b)"
proof (induction q arbitrary: s)
  case (Cons c q)
  then show ?case by (cases s) auto
qed simp

text \<open>Non-empty parts that occur in this order, disjointly.\<close>

fun fits :: "string list \<Rightarrow> string \<Rightarrow> bool" where
  "fits [] s = True"
| "fits (p # ps) s = (\<exists>a b. s = a @ p @ b \<and> fits ps b)"

lemma fits_prefix: "fits ps b \<Longrightarrow> fits ps (a @ b)"
  by (cases ps) (auto, metis append.assoc)

lemma fits_Nil_part: "fits ([] # ps) s \<longleftrightarrow> fits ps s"
  using fits_prefix by auto

lemma fits_filter: "fits (filter (\<lambda>p. p \<noteq> []) ps) s \<longleftrightarrow> fits ps s"
proof (induction ps arbitrary: s)
  case (Cons p ps)
  then show ?case by (cases "p = []") (simp_all only: filter.simps fits_Nil_part, auto)
qed simp

lemma fits_append: "fits ps a \<Longrightarrow> fits qs b \<Longrightarrow> fits (ps @ qs) (a @ b)"
proof (induction ps arbitrary: a)
  case Nil
  then show ?case by (simp add: fits_prefix)
next
  case (Cons p ps)
  then obtain x y where "a = x @ p @ y" "fits ps y" by auto
  with Cons show ?case by (metis append.assoc append_Cons fits.simps(2))
qed

lemma glob_fits:
  assumes "\<forall>p \<in> set ys. CHR ''*'' \<notin> set p" and "CHR ''*'' \<notin> set z" and "fits ys m"
  shows "glob (join ''*'' ([] # ys @ [z])) (m @ z)"
  using assms
proof (induction ys arbitrary: m)
  case Nil
  then have "glob (z @ []) z" by (subst glob_literal) auto
  with Nil show ?case by (auto simp: glob_star simp del: glob.simps)
next
  case (Cons y ys)
  then obtain a b where m: "m = a @ y @ b" and b: "fits ys b" by auto
  have "glob (join ''*'' ([] # ys @ [z])) (b @ z)" using Cons b by simp
  then have "glob (y @ join ''*'' ([] # ys @ [z])) (y @ b @ z)"
    using Cons.prems by (subst glob_literal) auto
  moreover have "join ''*'' ([] # (y # ys) @ [z]) = CHR ''*'' # y @ join ''*'' ([] # ys @ [z])"
    by (simp add: join_nonempty)
  ultimately show ?case using m by (auto simp: glob_star simp del: glob.simps)
qed

section \<open>The matcher against the reference\<close>

lemma match_indices_sound:
  "idx \<in> set (match_indices part off s) \<Longrightarrow> part \<noteq> [] \<Longrightarrow>
     off \<le> idx \<and> (\<exists>b. drop (idx - off) s = part @ b)"
proof (induction part off s rule: match_indices.induct)
  case (2 part off c cs)
  show ?case
  proof (cases "starts_with (c # cs) part")
    case True
    then obtain r where r: "c # cs = part @ r" by (auto simp: starts_with_iff prefix_def)
    have rd: "drop (length part) (c # cs) = r" by (simp add: r)
    have "match_indices part off (c # cs) = off # match_indices part (off + length part) r"
      using True "2.prems"(2) rd by (simp only: match_indices.simps if_True simp_thms)
    with "2.prems"(1) consider "idx = off" | "idx \<in> set (match_indices part (off + length part) r)"
      by auto
    then show ?thesis
    proof cases
      case later: 2
      with True "2.IH"(1) "2.prems"(2) rd
      have "off + length part \<le> idx \<and> (\<exists>b. drop (idx - (off + length part)) r = part @ b)"
        by blast
      then show ?thesis by (auto simp: r diff_diff_add)
    qed (use r in auto)
  next
    case False
    with 2 have "off + 1 \<le> idx \<and> (\<exists>b. drop (idx - (off + 1)) cs = part @ b)" by simp
    then show ?thesis by (auto simp: drop_Cons' diff_diff_add)
  qed
qed simp

lemma find_match:
  assumes "find (\<lambda>i. cur \<le> i) (match_indices p 0 s) = Some idx" and "p \<noteq> []"
  shows "cur \<le> idx \<and> idx + length p \<le> length s \<and> (\<exists>b. drop idx s = p @ b)"
proof -
  obtain b where le: "cur \<le> idx" and b: "drop idx s = p @ b"
    using assms match_indices_sound [of idx p 0 s] by (auto simp: find_Some_iff)
  moreover have "idx + length p \<le> length s"
    using arg_cong [OF b, of length] assms(2) by (cases "idx \<le> length s") auto
  ultimately show ?thesis by blast
qed

lemma wildcard_scan_sound:
  assumes "wildcard_scan s cur ps = Some e" and "\<forall>p \<in> set ps. p \<noteq> []" and "cur \<le> length s"
  shows "cur \<le> e \<and> e \<le> length s \<and> fits ps (take (e - cur) (drop cur s))"
  using assms
proof (induction ps arbitrary: cur)
  case (Cons p ps)
  then obtain idx where idx: "find (\<lambda>i. cur \<le> i) (match_indices p 0 s) = Some idx"
    and rest: "wildcard_scan s (idx + length p) ps = Some e"
    by (auto split: option.splits)
  from find_match [OF idx] Cons.prems obtain b where le: "cur \<le> idx"
    and len: "idx + length p \<le> length s" and b: "drop idx s = p @ b"
    by auto
  then have IH: "idx + length p \<le> e" "e \<le> length s"
    "fits ps (take (e - (idx + length p)) (drop (idx + length p) s))"
    using Cons.IH [OF rest] Cons.prems(2) by auto
  have "drop cur s = take (idx - cur) (drop cur s) @ drop idx s"
    using le append_take_drop_id [of "idx - cur" "drop cur s"] by simp
  moreover have "drop (idx + length p) s = b"
    using arg_cong [OF b, of "drop (length p)"] by (simp add: add.commute)
  ultimately have "take (e - cur) (drop cur s)
      = take (idx - cur) (drop cur s) @ p @ take (e - (idx + length p)) (drop (idx + length p) s)"
    using b le IH(1) len by (simp add: take_drop)
  with IH le show ?case by auto
qed simp

lemma wildcard_scan_append:
  "wildcard_scan s cur (ps @ qs) =
     (case wildcard_scan s cur ps of None \<Rightarrow> None | Some c \<Rightarrow> wildcard_scan s c qs)"
  by (induction ps arbitrary: cur) (auto split: option.splits)

text \<open>
  On the parts of a pattern with a star, the matcher asks for the first part at the
  start, the last part at the end and the non-empty others in between; an empty first
  or last part asks for nothing.
\<close>

lemma wildcard_matches_parts:
  assumes parts: "split_char (CHR ''*'') pat = x # ys @ [z]" and star: "pat \<noteq> ''*''"
  shows "wildcard_matches pat s \<longleftrightarrow> prefix x s
    \<and> (\<exists>e. wildcard_scan s (length x) (filter (\<lambda>p. p \<noteq> []) (ys @ [z])) = Some e) \<and> suffix z s"
proof -
  have pat: "pat = join ''*'' (x # ys @ [z])" using parts join_split_char [of "CHR ''*''" pat] by simp
  have nox: "CHR ''*'' \<notin> set x" and noz: "CHR ''*'' \<notin> set z"
    using parts split_char_no_sep [of _ "CHR ''*''" pat] by auto
  have "pat = x @ CHR ''*'' # join ''*'' (ys @ [z])" by (simp add: pat join_nonempty)
  then have start: "starts_with pat ''*'' \<longleftrightarrow> x = []"
    using nox by (cases x) (auto simp: starts_with_def)
  have "pat = join ''*'' ((x # ys) @ [z])" by (simp add: pat)
  then have "\<exists>t. pat = t @ CHR ''*'' # z"
    by (metis append_Cons append_Nil join_snoc list.distinct(1))
  then have ends: "ends_with pat ''*'' \<longleftrightarrow> z = []"
    using noz by (cases z rule: rev_cases) (auto simp: ends_with_iff suffix_def)
  let ?ne = "filter (\<lambda>p. p \<noteq> []) (x # ys @ [z])"
  have last: "z \<noteq> [] \<Longrightarrow> last ?ne = z" by simp
  show ?thesis
    using star start ends last
    by (auto simp: wildcard_matches_def wildcard_loop_def parts Let_def starts_with_iff
        ends_with_iff split: option.splits if_splits)
qed

lemma scan_between:
  assumes scan: "wildcard_scan s (length x) (filter (\<lambda>p. p \<noteq> []) (ys @ [z])) = Some e"
    and pre: "prefix x s" and suf: "suffix z s"
  shows "\<exists>m. s = x @ m @ z \<and> fits ys m"
proof -
  let ?ys = "filter (\<lambda>p. p \<noteq> []) ys"
  obtain t where s: "s = x @ t" using pre by (auto simp: prefix_def)
  obtain c where c: "wildcard_scan s (length x) ?ys = Some c" and cz: "c + length z \<le> length s"
  proof (cases "z = []")
    case True
    with scan have "wildcard_scan s (length x) ?ys = Some e" by simp
    with wildcard_scan_sound [OF this] s True show thesis by (intro that [of e]) auto
  next
    case False
    with scan obtain c where c: "wildcard_scan s (length x) ?ys = Some c"
      and z: "wildcard_scan s c [z] = Some e"
      by (auto simp: wildcard_scan_append split: option.splits)
    have "c \<le> length s" using wildcard_scan_sound [OF c] s by auto
    with z False have "c + length z \<le> e \<and> e \<le> length s"
      by (auto split: option.splits dest: find_match)
    with c show thesis by (intro that [of c]) auto
  qed
  have lo: "length x \<le> c" and f: "fits ?ys (take (c - length x) (drop (length x) s))"
    using wildcard_scan_sound [OF c] s by auto
  have "length x + length z \<le> length s" using lo cz by simp
  then obtain m where m: "t = m @ z"
    using suf s by (metis add_le_cancel_left length_append suffix_def suffix_length_suffix
        suffixI suffix_order.refl)
  have "fits ?ys (take (c - length x) t @ drop (c - length x) m)"
    using f s fits_append [of ?ys _ "[]"] by simp
  moreover have "c - length x \<le> length m" using cz s m lo by simp
  ultimately have "fits ?ys m" using m by simp
  with s m show ?thesis by (auto simp: fits_filter)
qed

lemma wildcard_matches_glob:
  assumes "wildcard_matches pat s"
  shows "glob pat s"
proof -
  consider "pat = ''*''" | "length (split_char (CHR ''*'') pat) = 1"
    | x ys z where "split_char (CHR ''*'') pat = x # ys @ [z]" "pat \<noteq> ''*''"
  proof -
    obtain x r where r: "split_char (CHR ''*'') pat = x # r"
      by (cases "split_char (CHR ''*'') pat") auto
    show thesis using that r by (cases r rule: rev_cases) auto
  qed
  then show ?thesis
  proof cases
    case 1
    then show ?thesis by (simp only: glob_star) simp
  next
    case 2
    then obtain x where x: "split_char (CHR ''*'') pat = [x]"
      by (auto simp: length_Suc_conv)
    have "pat = x" using join_split_char [of "CHR ''*''" pat] x by simp
    moreover have "CHR ''*'' \<notin> set x" using x split_char_no_sep [of x "CHR ''*''" pat] by simp
    moreover have "pat = ''*'' \<or> s = pat"
      using assms x by (auto simp: wildcard_matches_def split: if_splits)
    ultimately show ?thesis using glob_literal [of x "[]" s] by auto
  next
    case (3 x ys z)
    from assms 3 wildcard_matches_parts [of pat x ys z s]
    obtain m where m: "s = x @ m @ z" "fits ys m" using scan_between by blast
    have nostar: "\<forall>p \<in> set (x # ys @ [z]). CHR ''*'' \<notin> set p"
      using 3 split_char_no_sep [of _ "CHR ''*''" pat] by auto
    have "pat = join ''*'' (x # ys @ [z])" using 3 join_split_char [of "CHR ''*''" pat] by simp
    also have "\<dots> = x @ join ''*'' ([] # ys @ [z])" by (simp add: join_nonempty)
    finally show ?thesis
      using m nostar glob_fits [of ys z m] glob_literal [of x _ s] by auto
  qed
qed

lemma match_indices_complete:
  "sublist p s \<Longrightarrow> p \<noteq> [] \<Longrightarrow> match_indices p off s \<noteq> []"
  by (induction p off s rule: match_indices.induct)
     (auto simp: starts_with_iff sublist_Cons_right)

lemma find_first_match:
  "suffix z s \<Longrightarrow> z \<noteq> [] \<Longrightarrow> \<exists>e. wildcard_scan s 0 [z] = Some e"
  using match_indices_complete [of z s 0]
  by (cases "match_indices z 0 s") (auto dest: suffix_imp_sublist)

lemma split_one_star:
  "CHR ''*'' \<notin> set x \<Longrightarrow> CHR ''*'' \<notin> set z \<Longrightarrow>
     split_char (CHR ''*'') (x @ ''*'' @ z) = x # [] @ [z]"
  by (simp add: split_char_append split_char_single)

lemma pattern_matches_glob:
  "compile_pattern raw = Inr p \<Longrightarrow> pattern_matches p t \<Longrightarrow> glob (trim raw) t"
  using glob_literal [of "trim raw" "[]" t]
  by (auto simp: compile_pattern_def Let_def str_contains_single wildcard_matches_glob
      split: if_splits)

lemma compiled_in:
  "map compile_pattern ps = map Inr cs \<Longrightarrow> c \<in> set cs \<Longrightarrow> \<exists>p \<in> set ps. compile_pattern p = Inr c"
  by (metis (no_types, lifting) ex_map_conv image_eqI list.set_map imageE)

section \<open>Properties\<close>

text \<open>
  C35. An upstream with a configured tool list exposes a tool only if some entry of the
  list matches its name as a glob, and only if no entry is blank; without a list it
  exposes every tool.
\<close>

theorem exposure_policy_sound:
  "policy_matches (resolve_exposure_policy None) t
   \<and> (policy_matches (resolve_exposure_policy (Some ps)) t \<longrightarrow>
        (\<exists>p \<in> set ps. glob (trim p) t) \<and> [] \<notin> trim ` set ps)"
proof (intro conjI impI)
  show "policy_matches (resolve_exposure_policy None) t"
    by (simp add: policy_matches_def matched_by_def resolve_exposure_policy_def from_optional_def)
next
  assume m: "policy_matches (resolve_exposure_policy (Some ps)) t"
  then obtain cs where cs: "collect_results (map compile_pattern ps) = Inr cs"
    by (cases "collect_results (map compile_pattern ps)")
       (auto simp: policy_matches_def matched_by_def resolve_exposure_policy_def
         from_optional_def from_patterns_def)
  then have eq: "map compile_pattern ps = map Inr cs" by (simp add: collect_results_Inr)
  have "\<exists>c \<in> set cs. pattern_matches c t"
    using m cs by (auto simp: policy_matches_def matched_by_def resolve_exposure_policy_def
        from_optional_def from_patterns_def find_Some_iff set_conv_nth)
  with compiled_in [OF eq] show "\<exists>p \<in> set ps. glob (trim p) t"
    using pattern_matches_glob by blast
  have "compile_pattern p \<noteq> Inl ()" if "p \<in> set ps" for p
  proof -
    have "compile_pattern p \<in> Inr ` set cs"
      using that arg_cong [OF eq, of set] by (metis image_eqI list.set_map)
    then show ?thesis by auto
  qed
  then show "[] \<notin> trim ` set ps" by (fastforce simp: compile_pattern_def Let_def)
qed

theorem exposure_policy_sound_witness:
  "policy_matches (resolve_exposure_policy (Some [''github_*''])) ''github_list''
   \<and> glob (trim ''github_*'') ''github_list''"
proof -
  have "policy_matches (resolve_exposure_policy (Some [''github_*''])) ''github_list''"
    by code_simp
  with exposure_policy_sound [of "''github_list''" "[''github_*'']"] show ?thesis by simp
qed

text \<open>
  A pattern with one star at its end matches exactly the names with that prefix, one
  with a star at its start exactly the names with that suffix.
\<close>

theorem wildcard_prefix_suffix_exact:
  assumes "CHR ''*'' \<notin> set x"
  shows "(wildcard_matches (x @ ''*'') s \<longleftrightarrow> prefix x s)
    \<and> (wildcard_matches (''*'' @ x) s \<longleftrightarrow> suffix x s)"
proof (cases "x = []")
  case True
  then show ?thesis by (simp add: wildcard_matches_def)
next
  case False
  have "wildcard_matches (x @ ''*'') s \<longleftrightarrow> prefix x s"
    using wildcard_matches_parts [OF split_one_star [of x "[]"]] assms False by simp
  moreover have "wildcard_matches (''*'' @ x) s \<longleftrightarrow> suffix x s"
    using wildcard_matches_parts [OF split_one_star [of "[]" x]] assms False
      find_first_match [of x s]
    by auto
  ultimately show ?thesis ..
qed

theorem wildcard_prefix_suffix_exact_witness:
  "wildcard_matches ''gh_*'' ''gh_list'' \<and> \<not> wildcard_matches ''*_repo'' ''gh_list''"
proof -
  have "wildcard_matches (''gh_'' @ ''*'') ''gh_list'' \<longleftrightarrow> prefix ''gh_'' ''gh_list''"
    and "wildcard_matches (''*'' @ ''_repo'') ''gh_list'' \<longleftrightarrow> suffix ''_repo'' ''gh_list''"
    using wildcard_prefix_suffix_exact [of "''gh_''" "''gh_list''"]
      wildcard_prefix_suffix_exact [of "''_repo''" "''gh_list''"] by simp_all
  then show ?thesis by (simp add: suffix_def Cons_eq_append_conv)
qed

text \<open>
  The matcher is not complete: it advances over disjoint occurrences counted from the
  start of the name, so a part that only occurs overlapping an earlier occurrence of
  itself is missed. The glob \<open>a*aa\<close> matches \<open>aaa\<close>, the matcher refuses it.
\<close>

theorem wildcard_overlap_missed:
  "glob ''a*aa'' ''aaa'' \<and> \<not> wildcard_matches ''a*aa'' ''aaa''"
  by (intro conjI; code_simp)

end
