(* ===== verification/Json.thy ===== *)
theory Json
  imports Labby_Prelude
begin

text \<open>
  The shape of a JSON value as \<open>serde_json::Value\<close> presents it. A number is kept as
  its literal; an object is the list of its entries, each key once.
\<close>

datatype json =
    JNull
  | JBool bool
  | JNumber string
  | JString string
  | JArray "json list"
  | JObject "(string \<times> json) list"

fun json_get :: "json \<Rightarrow> string \<Rightarrow> json option" where
  "json_get (JObject kvs) k = map_of kvs k"
| "json_get _ k = None"

fun json_as_str :: "json \<Rightarrow> string option" where
  "json_as_str (JString s) = Some s"
| "json_as_str _ = None"

fun json_as_bool :: "json \<Rightarrow> bool option" where
  "json_as_bool (JBool b) = Some b"
| "json_as_bool _ = None"

fun json_as_array :: "json \<Rightarrow> json list option" where
  "json_as_array (JArray xs) = Some xs"
| "json_as_array _ = None"

text \<open>
  \<open>Value::as_u64\<close>: the literals serde_json reads as an unsigned integer are digit strings
  below \<open>2 ^ 64\<close>; a fraction, an exponent or a sign makes the number something else.
\<close>

definition decimal :: "string \<Rightarrow> nat" where
  "decimal s = foldl (\<lambda>n c. 10 * n + (byte c - 48)) 0 s"

fun json_as_u64 :: "json \<Rightarrow> nat option" where
  "json_as_u64 (JNumber s) =
     (if s \<noteq> [] \<and> list_all is_ascii_digit s \<and> decimal s < 2 ^ 64 then Some (decimal s) else None)"
| "json_as_u64 _ = None"

end
