(* ===== verification/Upstream_Catalog.thy ===== *)
theory Upstream_Catalog
  imports Exposure Json "HOL-Library.Char_ord" "HOL-Library.List_Lexorder" "HOL-Library.Multiset"
begin

text \<open>
  The in-memory catalog of the upstream pool: its entries
  (\<open>crates/labby-gateway/src/upstream/types.rs\<close>, \<open>pool/entries.rs\<close>), the
  consecutive-failure circuit breaker (\<open>pool/health.rs\<close>) and the tool queries
  (\<open>pool/tools.rs\<close>).

  A \<open>HashMap\<close> is the list of its entries in the order its iterator happens to yield
  them, each key once; the theorems hold for every such order. A failure count is a
  32-bit word. Instants are milliseconds of a monotonic clock; a call that reads the
  clock takes \<open>now\<close> as an argument. Each operation runs under the catalog's lock, so it
  is one step on the catalog; logging is not modelled.
\<close>

type_synonym u32 = "32 word"

section \<open>Entries\<close>

text \<open>Of \<open>rmcp::model::Tool\<close>, the parts the pool reads.\<close>

record mcp_tool =
  mt_name :: string
  mt_description :: "string option"
  mt_meta :: "(string \<times> json) list option"

record upstream_tool =
  ut_tool :: mcp_tool
  ut_input_schema :: "json option"
  ut_output_schema :: "json option"
  ut_upstream_name :: string
  ut_destructive :: bool

datatype upstream_capability = Tools | Prompts | Resources

datatype upstream_health = Healthy | Unhealthy u32

record upstream_entry =
  ue_name :: string
  ue_tools :: "(string \<times> upstream_tool) list"
  ue_exposure_policy :: tool_exposure_policy
  ue_proxy_resources :: bool
  ue_prompt_count :: nat
  ue_resource_count :: nat
  ue_prompt_names :: "string list"
  ue_resource_uris :: "string list"
  ue_tool_health :: upstream_health
  ue_prompt_health :: upstream_health
  ue_resource_health :: upstream_health
  ue_tool_unhealthy_since :: "nat option"
  ue_prompt_unhealthy_since :: "nat option"
  ue_resource_unhealthy_since :: "nat option"
  ue_tool_last_error :: "string option"
  ue_prompt_last_error :: "string option"
  ue_resource_last_error :: "string option"

definition CIRCUIT_BREAKER_THRESHOLD :: u32 where
  "CIRCUIT_BREAKER_THRESHOLD = 3"

definition REPROBE_INTERVAL :: nat where
  "REPROBE_INTERVAL = 30 * 1000"

definition MAX_REPROBE_INTERVAL :: nat where
  "MAX_REPROBE_INTERVAL = 30 * 60 * 1000"

definition saturating_sub32 :: "u32 \<Rightarrow> u32 \<Rightarrow> u32" where
  "saturating_sub32 a b = (if a < b then 0 else a - b)"

definition saturating_succ32 :: "u32 \<Rightarrow> u32" where
  "saturating_succ32 a = (if a = 0xffffffff then 0xffffffff else a + 1)"

text \<open>The shift amount is at most 16, so \<open>1_u32 << exponent\<close> does not overflow.\<close>

definition reprobe_interval_for_failures :: "u32 \<Rightarrow> nat" where
  "reprobe_interval_for_failures consecutive_failures =
     (let exponent = min (saturating_sub32 consecutive_failures CIRCUIT_BREAKER_THRESHOLD) 16
      in min (REPROBE_INTERVAL * unat (push_bit (unat exponent) (1 :: u32))) MAX_REPROBE_INTERVAL)"

fun is_open :: "upstream_health \<Rightarrow> bool" where
  "is_open Healthy = False"
| "is_open (Unhealthy consecutive_failures) = (CIRCUIT_BREAKER_THRESHOLD \<le> consecutive_failures)"

definition is_routable :: "upstream_health \<Rightarrow> bool" where
  "is_routable h = (\<not> is_open h)"

fun health_str :: "upstream_health \<Rightarrow> string" where
  "health_str Healthy = ''healthy''"
| "health_str (Unhealthy n) =
     (if CIRCUIT_BREAKER_THRESHOLD \<le> n then ''open'' else ''degraded'')"

fun health_for :: "upstream_entry \<Rightarrow> upstream_capability \<Rightarrow> upstream_health" where
  "health_for e Tools = ue_tool_health e"
| "health_for e Prompts = ue_prompt_health e"
| "health_for e Resources = ue_resource_health e"

fun set_health_for :: "upstream_entry \<Rightarrow> upstream_capability \<Rightarrow> upstream_health \<Rightarrow> upstream_entry" where
  "set_health_for e Tools h = e\<lparr>ue_tool_health := h\<rparr>"
| "set_health_for e Prompts h = e\<lparr>ue_prompt_health := h\<rparr>"
| "set_health_for e Resources h = e\<lparr>ue_resource_health := h\<rparr>"

fun unhealthy_since_for :: "upstream_entry \<Rightarrow> upstream_capability \<Rightarrow> nat option" where
  "unhealthy_since_for e Tools = ue_tool_unhealthy_since e"
| "unhealthy_since_for e Prompts = ue_prompt_unhealthy_since e"
| "unhealthy_since_for e Resources = ue_resource_unhealthy_since e"

fun set_unhealthy_since_for :: "upstream_entry \<Rightarrow> upstream_capability \<Rightarrow> nat option \<Rightarrow> upstream_entry" where
  "set_unhealthy_since_for e Tools t = e\<lparr>ue_tool_unhealthy_since := t\<rparr>"
| "set_unhealthy_since_for e Prompts t = e\<lparr>ue_prompt_unhealthy_since := t\<rparr>"
| "set_unhealthy_since_for e Resources t = e\<lparr>ue_resource_unhealthy_since := t\<rparr>"

fun last_error_for :: "upstream_entry \<Rightarrow> upstream_capability \<Rightarrow> string option" where
  "last_error_for e Tools = ue_tool_last_error e"
| "last_error_for e Prompts = ue_prompt_last_error e"
| "last_error_for e Resources = ue_resource_last_error e"

fun set_last_error_for :: "upstream_entry \<Rightarrow> upstream_capability \<Rightarrow> string option \<Rightarrow> upstream_entry" where
  "set_last_error_for e Tools x = e\<lparr>ue_tool_last_error := x\<rparr>"
| "set_last_error_for e Prompts x = e\<lparr>ue_prompt_last_error := x\<rparr>"
| "set_last_error_for e Resources x = e\<lparr>ue_resource_last_error := x\<rparr>"

text \<open>The constructors of \<open>entries.rs\<close>; a lazy entry takes the three configuration fields it reads.\<close>

definition healthy_in_process_entry :: "string \<Rightarrow> (string \<times> upstream_tool) list \<Rightarrow> upstream_entry" where
  "healthy_in_process_entry name tools =
     \<lparr>ue_name = name, ue_tools = tools, ue_exposure_policy = ExposeAll, ue_proxy_resources = True,
      ue_prompt_count = 0, ue_resource_count = 0, ue_prompt_names = [], ue_resource_uris = [],
      ue_tool_health = Healthy, ue_prompt_health = Healthy, ue_resource_health = Healthy,
      ue_tool_unhealthy_since = None, ue_prompt_unhealthy_since = None,
      ue_resource_unhealthy_since = None,
      ue_tool_last_error = None, ue_prompt_last_error = None, ue_resource_last_error = None\<rparr>"

definition lazy_upstream_entry :: "string list option \<Rightarrow> bool \<Rightarrow> string \<Rightarrow> upstream_entry" where
  "lazy_upstream_entry expose_tools proxy_resources name =
     \<lparr>ue_name = name, ue_tools = [], ue_exposure_policy = resolve_exposure_policy expose_tools,
      ue_proxy_resources = proxy_resources,
      ue_prompt_count = 0, ue_resource_count = 0, ue_prompt_names = [], ue_resource_uris = [],
      ue_tool_health = Healthy, ue_prompt_health = Healthy, ue_resource_health = Healthy,
      ue_tool_unhealthy_since = None, ue_prompt_unhealthy_since = None,
      ue_resource_unhealthy_since = None,
      ue_tool_last_error = None, ue_prompt_last_error = None, ue_resource_last_error = None\<rparr>"

definition failed_in_process_entry_from_existing ::
  "nat \<Rightarrow> upstream_entry \<Rightarrow> string \<Rightarrow> upstream_entry" where
  "failed_in_process_entry_from_existing now existing error_message =
     existing\<lparr>ue_tool_health := Unhealthy 1, ue_prompt_health := Unhealthy 1,
       ue_resource_health := Unhealthy 1,
       ue_tool_unhealthy_since := Some now, ue_prompt_unhealthy_since := Some now,
       ue_resource_unhealthy_since := Some now,
       ue_tool_last_error := Some error_message, ue_prompt_last_error := Some error_message,
       ue_resource_last_error := Some error_message\<rparr>"

definition failed_in_process_entry :: "nat \<Rightarrow> string \<Rightarrow> string \<Rightarrow> upstream_entry" where
  "failed_in_process_entry now name error_message =
     \<lparr>ue_name = name, ue_tools = [], ue_exposure_policy = ExposeAll, ue_proxy_resources = True,
      ue_prompt_count = 0, ue_resource_count = 0, ue_prompt_names = [], ue_resource_uris = [],
      ue_tool_health = Unhealthy 1, ue_prompt_health = Unhealthy 1, ue_resource_health = Unhealthy 1,
      ue_tool_unhealthy_since = Some now, ue_prompt_unhealthy_since = Some now,
      ue_resource_unhealthy_since = Some now,
      ue_tool_last_error = Some error_message, ue_prompt_last_error = Some error_message,
      ue_resource_last_error = Some error_message\<rparr>"

section \<open>Health accounting\<close>

type_synonym catalog = "(string \<times> upstream_entry) list"

text \<open>\<open>HashMap::get_mut\<close> followed by an update of the entry.\<close>

definition update_entry :: "catalog \<Rightarrow> string \<Rightarrow> (upstream_entry \<Rightarrow> upstream_entry) \<Rightarrow> catalog" where
  "update_entry cat name f = map (\<lambda>(n, e). (n, if n = name then f e else e)) cat"

definition fail_entry :: "nat \<Rightarrow> upstream_capability \<Rightarrow> string \<Rightarrow> upstream_entry \<Rightarrow> upstream_entry" where
  "fail_entry now capability error e =
     (let new_count = (case health_for e capability of
                         Healthy \<Rightarrow> 1
                       | Unhealthy consecutive_failures \<Rightarrow> saturating_succ32 consecutive_failures);
          e1 = set_health_for e capability (Unhealthy new_count);
          e2 = set_unhealthy_since_for e1 capability (Some now)
      in set_last_error_for e2 capability (Some error))"

definition succeed_entry :: "upstream_capability \<Rightarrow> upstream_entry \<Rightarrow> upstream_entry" where
  "succeed_entry capability e =
     (let e1 = set_health_for e capability Healthy;
          e2 = set_unhealthy_since_for e1 capability None
      in set_last_error_for e2 capability None)"

definition record_failure_for ::
  "nat \<Rightarrow> catalog \<Rightarrow> string \<Rightarrow> upstream_capability \<Rightarrow> string \<Rightarrow> catalog" where
  "record_failure_for now cat upstream_name capability error =
     update_entry cat upstream_name (fail_entry now capability error)"

definition record_success_for :: "catalog \<Rightarrow> string \<Rightarrow> upstream_capability \<Rightarrow> catalog" where
  "record_success_for cat upstream_name capability =
     update_entry cat upstream_name (succeed_entry capability)"

definition record_failure :: "nat \<Rightarrow> catalog \<Rightarrow> string \<Rightarrow> string \<Rightarrow> catalog" where
  "record_failure now cat upstream_name error = record_failure_for now cat upstream_name Tools error"

definition record_success :: "catalog \<Rightarrow> string \<Rightarrow> catalog" where
  "record_success cat upstream_name = record_success_for cat upstream_name Tools"

definition upstream_last_error :: "catalog \<Rightarrow> string \<Rightarrow> string option" where
  "upstream_last_error cat upstream_name =
     (case map_of cat upstream_name of
        None \<Rightarrow> None
      | Some e \<Rightarrow>
          (case last_error_for e Tools of
             Some x \<Rightarrow> Some x
           | None \<Rightarrow> (case last_error_for e Resources of
                        Some x \<Rightarrow> Some x
                      | None \<Rightarrow> last_error_for e Prompts)))"

definition upstream_tool_last_error :: "catalog \<Rightarrow> string \<Rightarrow> string option" where
  "upstream_tool_last_error cat upstream_name =
     (case map_of cat upstream_name of None \<Rightarrow> None | Some e \<Rightarrow> last_error_for e Tools)"

definition should_reprobe_for :: "nat \<Rightarrow> catalog \<Rightarrow> string \<Rightarrow> upstream_capability \<Rightarrow> bool" where
  "should_reprobe_for now cat upstream_name capability =
     (case map_of cat upstream_name of
        None \<Rightarrow> False
      | Some e \<Rightarrow>
          (case health_for e capability of
             Healthy \<Rightarrow> False
           | Unhealthy n \<Rightarrow>
               if CIRCUIT_BREAKER_THRESHOLD \<le> n then
                 (case unhealthy_since_for e capability of
                    None \<Rightarrow> False
                  | Some since \<Rightarrow> reprobe_interval_for_failures n \<le> now - since)
               else False))"

definition should_reprobe :: "nat \<Rightarrow> catalog \<Rightarrow> string \<Rightarrow> bool" where
  "should_reprobe now cat upstream_name = should_reprobe_for now cat upstream_name Tools"

definition filter_collisions :: "catalog \<Rightarrow> string list \<Rightarrow> catalog" where
  "filter_collisions cat builtin_names =
     map (\<lambda>(n, e). (n, e\<lparr>ue_tools :=
        filter (\<lambda>(k, _). \<not> List.member builtin_names k) (ue_tools e)\<rparr>)) cat"

definition upstream_status :: "catalog \<Rightarrow> (string \<times> upstream_health) list" where
  "upstream_status cat = map (\<lambda>(_, e). (ue_name e, ue_tool_health e)) cat"

section \<open>Tool queries\<close>

definition MAX_UPSTREAM_TOOLS :: nat where
  "MAX_UPSTREAM_TOOLS = 1000"

definition upstream_allowed :: "string list option \<Rightarrow> string \<Rightarrow> bool" where
  "upstream_allowed allowed upstream =
     (case allowed of None \<Rightarrow> True | Some names \<Rightarrow> List.member names upstream)"

abbreviation tool_name :: "upstream_tool \<Rightarrow> string" where
  "tool_name t \<equiv> mt_name (ut_tool t)"

text \<open>The exposed tools of an entry: the \<open>filter_map\<close> every listing shares.\<close>

definition exposed_tools :: "upstream_entry \<Rightarrow> upstream_tool list" where
  "exposed_tools e =
     filter (\<lambda>t. policy_matches (ue_exposure_policy e) (tool_name t)) (map snd (ue_tools e))"

text \<open>\<open>take(MAX + 1)\<close>, \<open>collect\<close>, \<open>truncate(MAX)\<close>.\<close>

definition cap_tools :: "'a list \<Rightarrow> 'a list" where
  "cap_tools xs =
     (let tools = take (MAX_UPSTREAM_TOOLS + 1) xs
      in if length tools > MAX_UPSTREAM_TOOLS then take MAX_UPSTREAM_TOOLS tools else tools)"

definition healthy_tools_allowed :: "catalog \<Rightarrow> string list option \<Rightarrow> upstream_tool list" where
  "healthy_tools_allowed cat allowed =
     cap_tools (concat (map (\<lambda>(_, e). exposed_tools e)
       (filter (\<lambda>(_, e). is_routable (ue_tool_health e))
         (filter (\<lambda>(n, _). upstream_allowed allowed n) cat))))"

definition healthy_tools :: "catalog \<Rightarrow> upstream_tool list" where
  "healthy_tools cat = healthy_tools_allowed cat None"

definition tool_mcp_app_ui_resource_uri :: "upstream_tool \<Rightarrow> string option" where
  "tool_mcp_app_ui_resource_uri t =
     (case mt_meta (ut_tool t) of
        None \<Rightarrow> None
      | Some meta \<Rightarrow>
          (case map_of meta ''ui'' of
             None \<Rightarrow> None
           | Some ui \<Rightarrow>
               (case json_get ui ''resourceUri'' of
                  None \<Rightarrow> None
                | Some v \<Rightarrow>
                    (case json_as_str v of
                       None \<Rightarrow> None
                     | Some uri \<Rightarrow> if starts_with uri ''ui://'' then Some uri else None))))"

definition tool_has_mcp_app_ui_resource :: "upstream_tool \<Rightarrow> bool" where
  "tool_has_mcp_app_ui_resource t = (tool_mcp_app_ui_resource_uri t \<noteq> None)"

definition tool_is_mcp_app_host_visible :: "upstream_tool \<Rightarrow> bool" where
  "tool_is_mcp_app_host_visible t =
     (if tool_has_mcp_app_ui_resource t then True
      else (case mt_meta (ut_tool t) of
         None \<Rightarrow> False
       | Some meta \<Rightarrow>
           (let app_visible =
                  (case map_of meta ''ui'' of
                     None \<Rightarrow> False
                   | Some ui \<Rightarrow>
                       (case json_get ui ''visibility'' of
                          None \<Rightarrow> False
                        | Some v \<Rightarrow>
                            (case json_as_array v of
                               None \<Rightarrow> False
                             | Some vis \<Rightarrow> list_ex (\<lambda>x. json_as_str x = Some ''app'') vis)));
                openai_widget_callback =
                  (case map_of meta ''openai/widgetAccessible'' of
                     None \<Rightarrow> False
                   | Some v \<Rightarrow> json_as_bool v = Some True)
            in app_visible \<or> openai_widget_callback)))"

definition healthy_ui_tools_allowed :: "catalog \<Rightarrow> string list option \<Rightarrow> upstream_tool list" where
  "healthy_ui_tools_allowed cat allowed =
     cap_tools (concat (map (\<lambda>(_, e). filter tool_is_mcp_app_host_visible (exposed_tools e))
       (filter (\<lambda>(_, e). ue_proxy_resources e)
         (filter (\<lambda>(_, e). is_routable (ue_tool_health e))
           (filter (\<lambda>(n, _). upstream_allowed allowed n) cat)))))"

definition healthy_tools_for_upstream :: "catalog \<Rightarrow> string \<Rightarrow> upstream_tool list" where
  "healthy_tools_for_upstream cat upstream =
     (case map_of cat upstream of
        None \<Rightarrow> []
      | Some e \<Rightarrow> if is_routable (ue_tool_health e) then exposed_tools e else [])"

definition has_healthy_tools_for_upstream :: "catalog \<Rightarrow> string \<Rightarrow> bool" where
  "has_healthy_tools_for_upstream cat upstream =
     (case map_of cat upstream of
        None \<Rightarrow> False
      | Some e \<Rightarrow> is_routable (ue_tool_health e)
           \<and> list_ex (\<lambda>(_, t). policy_matches (ue_exposure_policy e) (tool_name t)) (ue_tools e))"

text \<open>The loop the candidate lookups share: one match per catalog entry, then a stable sort by name.\<close>

definition candidate :: "string \<Rightarrow> string \<times> upstream_entry \<Rightarrow> (string \<times> upstream_tool) option" where
  "candidate name ne =
     (case map_of (ue_tools (snd ne)) name of
        None \<Rightarrow> None
      | Some t \<Rightarrow> if policy_matches (ue_exposure_policy (snd ne)) (tool_name t)
                  then Some (fst ne, t) else None)"

definition find_exposed_tool_candidates_allowed ::
  "catalog \<Rightarrow> string \<Rightarrow> string list option \<Rightarrow> (string \<times> upstream_tool) list" where
  "find_exposed_tool_candidates_allowed cat name allowed =
     sort_key fst (List.map_filter (candidate name)
       (filter (\<lambda>(n, e). upstream_allowed allowed n \<and> is_routable (ue_tool_health e)) cat))"

definition find_tool_candidates :: "catalog \<Rightarrow> string \<Rightarrow> (string \<times> upstream_tool) list" where
  "find_tool_candidates cat name =
     sort_key fst (List.map_filter (candidate name)
       (filter (\<lambda>(_, e). is_routable (ue_tool_health e)) cat))"

definition has_ui_sibling :: "upstream_entry \<Rightarrow> bool" where
  "has_ui_sibling e =
     list_ex (\<lambda>(_, c). policy_matches (ue_exposure_policy e) (tool_name c)
        \<and> tool_has_mcp_app_ui_resource c) (ue_tools e)"

definition find_mcp_app_sibling_tool_candidates ::
  "catalog \<Rightarrow> string \<Rightarrow> string list option \<Rightarrow> (string \<times> upstream_tool) list" where
  "find_mcp_app_sibling_tool_candidates cat name allowed =
     sort_key fst (List.map_filter
       (\<lambda>ne. case candidate name ne of
               None \<Rightarrow> None
             | Some c \<Rightarrow> if has_ui_sibling (snd ne) then Some c else None)
       (filter (\<lambda>(n, e). upstream_allowed allowed n \<and> is_routable (ue_tool_health e)) cat))"

text \<open>
  \<open>resource_upstreams\<close> is the pool's list of resource-capable upstreams;
  \<open>sort_unstable\<close> then \<open>dedup\<close> of strings is \<open>sort\<close> then \<open>remdups_adj\<close>.
\<close>

definition routable_upstream_names ::
  "catalog \<Rightarrow> string list \<Rightarrow> upstream_capability \<Rightarrow> string list" where
  "routable_upstream_names cat resource_upstreams capability =
     remdups_adj (sort
       (case capability of
          Resources \<Rightarrow>
            filter (\<lambda>n. case map_of cat n of
                          None \<Rightarrow> False
                        | Some e \<Rightarrow> is_routable (health_for e capability)) resource_upstreams
        | _ \<Rightarrow> map fst (filter (\<lambda>(_, e). is_routable (health_for e capability)) cat)))"

definition find_tool_allowed ::
  "catalog \<Rightarrow> string \<Rightarrow> string list option \<Rightarrow> (string \<times> upstream_tool) option" where
  "find_tool_allowed cat name allowed =
     (case List.map_filter
         (\<lambda>(_, e). case map_of (ue_tools e) name of
                     None \<Rightarrow> None
                   | Some t \<Rightarrow> if policy_matches (ue_exposure_policy e) name
                               then Some (ue_name e, t) else None)
         (filter (\<lambda>(_, e). is_routable (ue_tool_health e))
           (filter (\<lambda>(n, _). upstream_allowed allowed n) cat)) of
        [] \<Rightarrow> None
      | x # _ \<Rightarrow> Some x)"

definition tool_schema :: "catalog \<Rightarrow> string \<Rightarrow> json option" where
  "tool_schema cat name =
     (case List.map_filter
         (\<lambda>(_, e). case map_of (ue_tools e) name of
                     None \<Rightarrow> None
                   | Some t \<Rightarrow> if policy_matches (ue_exposure_policy e) name
                               then ut_input_schema t else None) cat of
        [] \<Rightarrow> None
      | x # _ \<Rightarrow> Some x)"

definition healthy_tool_names_allowed :: "catalog \<Rightarrow> string list option \<Rightarrow> string list" where
  "healthy_tool_names_allowed cat allowed =
     cap_tools (concat (map (\<lambda>(_, e). map tool_name (exposed_tools e))
       (filter (\<lambda>(n, e). upstream_allowed allowed n \<and> is_routable (ue_tool_health e)) cat)))"

definition healthy_ui_tool_names_allowed :: "catalog \<Rightarrow> string list option \<Rightarrow> string list" where
  "healthy_ui_tool_names_allowed cat allowed =
     cap_tools (concat (map (\<lambda>(_, e).
         map tool_name (filter tool_is_mcp_app_host_visible (exposed_tools e)))
       (filter (\<lambda>(_, e). ue_proxy_resources e)
         (filter (\<lambda>(n, e). upstream_allowed allowed n \<and> is_routable (ue_tool_health e)) cat))))"

section \<open>Exposure rows and summaries\<close>

record tool_exposure_row =
  row_name :: string
  row_description :: "string option"
  row_exposed :: bool
  row_matched_by :: "string option"

definition row_description_of :: "upstream_tool \<Rightarrow> string option" where
  "row_description_of t =
     (case mt_description (ut_tool t) of
        None \<Rightarrow> None
      | Some text \<Rightarrow> if trim text \<noteq> [] then Some text else None)"

definition tool_exposure_rows :: "catalog \<Rightarrow> string \<Rightarrow> tool_exposure_row list" where
  "tool_exposure_rows cat upstream_name =
     (case map_of cat upstream_name of
        None \<Rightarrow> []
      | Some e \<Rightarrow> sort_key row_name (map (\<lambda>(_, t).
          let m = matched_by (ue_exposure_policy e) (tool_name t) in
          \<lparr>row_name = tool_name t, row_description = row_description_of t,
           row_exposed = (m \<noteq> None), row_matched_by = m\<rparr>) (ue_tools e)))"

text \<open>
  \<open>binary_search_by\<close> on the sorted rows returns the position of a row with that name
  or the position where it would go; the model takes the first such position.
\<close>

definition insert_bounded_tool_row ::
  "tool_exposure_row list \<Rightarrow> tool_exposure_row \<Rightarrow> nat \<Rightarrow> tool_exposure_row list" where
  "insert_bounded_tool_row rows row limit =
     (if limit = 0 then rows
      else
        let insert_at = length (takeWhile (\<lambda>r. row_name r < row_name row) rows) in
        if insert_at < limit then
          let rows' = take insert_at rows @ row # drop insert_at rows
          in if length rows' > limit then butlast rows' else rows'
        else rows)"

record enrichment_entry =
  en_upstream :: string
  en_tool_rows :: "tool_exposure_row list"
  en_resource_count :: nat
  en_prompt_count :: nat

definition enrichment_rows :: "nat \<Rightarrow> upstream_entry \<Rightarrow> tool_exposure_row list" where
  "enrichment_rows row_limit e =
     (if is_routable (ue_tool_health e) then
        foldl (\<lambda>rows (_, t).
          case matched_by (ue_exposure_policy e) (tool_name t) of
            None \<Rightarrow> rows
          | Some m \<Rightarrow> insert_bounded_tool_row rows
              \<lparr>row_name = tool_name t, row_description = row_description_of t,
               row_exposed = True, row_matched_by = Some m\<rparr> row_limit) [] (ue_tools e)
      else [])"

text \<open>\<open>saturating_add(1)\<close> on \<open>usize\<close> (64 bit).\<close>

definition cached_enrichment_snapshot ::
  "catalog \<Rightarrow> string list option \<Rightarrow> nat \<Rightarrow> enrichment_entry list" where
  "cached_enrichment_snapshot cat allowed per_upstream_tool_limit =
     (let row_limit = min (per_upstream_tool_limit + 1) (2 ^ 64 - 1) in
      sort_key en_upstream (map (\<lambda>(n, e).
        \<lparr>en_upstream = n, en_tool_rows = enrichment_rows row_limit e,
         en_resource_count = (if is_routable (ue_resource_health e) then ue_resource_count e else 0),
         en_prompt_count = (if is_routable (ue_prompt_health e) then ue_prompt_count e else 0)\<rparr>)
        (filter (\<lambda>(n, _). upstream_allowed allowed n) cat)))"

record cached_summary =
  cs_discovered_tool_count :: nat
  cs_exposed_tool_count :: nat
  cs_discovered_resource_count :: nat
  cs_exposed_resource_count :: nat
  cs_discovered_prompt_count :: nat
  cs_exposed_prompt_count :: nat

definition cached_upstream_summary :: "catalog \<Rightarrow> string \<Rightarrow> cached_summary option" where
  "cached_upstream_summary cat upstream_name =
     map_option (\<lambda>e.
       \<lparr>cs_discovered_tool_count = length (ue_tools e),
        cs_exposed_tool_count = length (exposed_tools e),
        cs_discovered_resource_count = ue_resource_count e,
        cs_exposed_resource_count =
          (if is_routable (ue_resource_health e) then ue_resource_count e else 0),
        cs_discovered_prompt_count = ue_prompt_count e,
        cs_exposed_prompt_count =
          (if is_routable (ue_prompt_health e) then ue_prompt_count e else 0)\<rparr>)
       (map_of cat upstream_name)"

section \<open>The per-capability fields\<close>

text \<open>
  What the accounting relies on of each getter and setter pair: a write is read back,
  it leaves the other capabilities alone, and the last write wins.
\<close>

locale capability_field =
  fixes get :: "upstream_entry \<Rightarrow> upstream_capability \<Rightarrow> 'v"
    and put :: "upstream_entry \<Rightarrow> upstream_capability \<Rightarrow> 'v \<Rightarrow> upstream_entry"
  assumes get_put: "get (put e c v) c' = (if c' = c then v else get e c')"
    and put_get: "put e c (get e c) = e"
    and put_put: "put (put e c v) c w = put e c w"
begin

lemma put_inj: "put e c v = put e c w \<longleftrightarrow> v = w"
  by (metis get_put)

lemma put_same: "get e c = v \<Longrightarrow> put e c v = e"
  using put_get by auto

end

interpretation hf: capability_field health_for set_health_for
proof unfold_locales
  show "health_for (set_health_for e c v) c' = (if c' = c then v else health_for e c')" for e c v c'
    by (cases c; cases c') auto
  show "set_health_for e c (health_for e c) = e" for e c
    by (cases c) auto
  show "set_health_for (set_health_for e c v) c w = set_health_for e c w" for e c v w
    by (cases c) auto
qed

interpretation sf: capability_field unhealthy_since_for set_unhealthy_since_for
proof unfold_locales
  show "unhealthy_since_for (set_unhealthy_since_for e c v) c'
      = (if c' = c then v else unhealthy_since_for e c')" for e c v c'
    by (cases c; cases c') auto
  show "set_unhealthy_since_for e c (unhealthy_since_for e c) = e" for e c
    by (cases c) auto
  show "set_unhealthy_since_for (set_unhealthy_since_for e c v) c w
      = set_unhealthy_since_for e c w" for e c v w
    by (cases c) auto
qed

interpretation lf: capability_field last_error_for set_last_error_for
proof unfold_locales
  show "last_error_for (set_last_error_for e c v) c'
      = (if c' = c then v else last_error_for e c')" for e c v c'
    by (cases c; cases c') auto
  show "set_last_error_for e c (last_error_for e c) = e" for e c
    by (cases c) auto
  show "set_last_error_for (set_last_error_for e c v) c w = set_last_error_for e c w" for e c v w
    by (cases c) auto
qed

lemma fields_independent [simp]:
  "health_for (set_unhealthy_since_for e c t) c' = health_for e c'"
  "health_for (set_last_error_for e c x) c' = health_for e c'"
  "unhealthy_since_for (set_health_for e c h) c' = unhealthy_since_for e c'"
  "unhealthy_since_for (set_last_error_for e c x) c' = unhealthy_since_for e c'"
  "last_error_for (set_health_for e c h) c' = last_error_for e c'"
  "last_error_for (set_unhealthy_since_for e c t) c' = last_error_for e c'"
  by (cases c; cases c'; simp)+

lemmas field_laws = hf.get_put sf.get_put lf.get_put fields_independent

section \<open>Runs of the breaker\<close>

datatype health_event =
    Failure nat string upstream_capability string
  | Success string upstream_capability

fun health_step :: "catalog \<Rightarrow> health_event \<Rightarrow> catalog" where
  "health_step cat (Failure now name capability error) = record_failure_for now cat name capability error"
| "health_step cat (Success name capability) = record_success_for cat name capability"

definition health_run :: "catalog \<Rightarrow> health_event list \<Rightarrow> catalog" where
  "health_run cat evs = foldl health_step cat evs"

text \<open>The abstract breaker: a count of failures since the last success, saturating at 32 bits.\<close>

definition failures :: "upstream_health \<Rightarrow> nat" where
  "failures h = (case h of Healthy \<Rightarrow> 0 | Unhealthy n \<Rightarrow> unat n)"

fun streak :: "string \<Rightarrow> upstream_capability \<Rightarrow> nat \<Rightarrow> health_event list \<Rightarrow> nat" where
  "streak n c k [] = k"
| "streak n c k (Failure now n' c' err # evs) =
     streak n c (if n' = n \<and> c' = c then min (k + 1) (2 ^ 32 - 1) else k) evs"
| "streak n c k (Success n' c' # evs) = streak n c (if n' = n \<and> c' = c then 0 else k) evs"

definition entry_wf :: "upstream_entry \<Rightarrow> bool" where
  "entry_wf e =
     list_all (\<lambda>c. (health_for e c = Healthy) = (unhealthy_since_for e c = None)
        \<and> (health_for e c = Healthy) = (last_error_for e c = None)
        \<and> health_for e c \<noteq> Unhealthy 0) [Tools, Prompts, Resources]"

definition catalog_wf :: "catalog \<Rightarrow> bool" where
  "catalog_wf cat = (distinct (map fst cat) \<and> list_all (\<lambda>(_, e). entry_wf e) cat)"

lemma entry_wf_iff:
  "entry_wf e \<longleftrightarrow> (\<forall>c. (health_for e c = Healthy) = (unhealthy_since_for e c = None)
     \<and> (health_for e c = Healthy) = (last_error_for e c = None) \<and> health_for e c \<noteq> Unhealthy 0)"
  unfolding entry_wf_def list_all_iff
  by (metis (full_types) list.set_intros(1,2) upstream_capability.exhaust)

lemma unat_saturating_succ32: "unat (saturating_succ32 n) = min (unat n + 1) (2 ^ 32 - 1)"
proof (cases "n = 0xffffffff")
  case False
  then have "unat n \<noteq> 2 ^ 32 - 1" by (auto simp: word_unat_eq_iff)
  moreover have "unat n < 2 ^ 32" using unsigned_less [of n] by simp
  ultimately have "unat n + 1 < 2 ^ 32" by linarith
  moreover from this have "unat (n + 1) = unat n + 1"
    using unat_word_ariths(1) [of n 1] by simp
  ultimately show ?thesis using False by (simp add: saturating_succ32_def)
qed (simp add: saturating_succ32_def)

lemma failures_fail_entry:
  "failures (health_for (fail_entry now c err e) c') =
     (if c' = c then min (failures (health_for e c) + 1) (2 ^ 32 - 1) else failures (health_for e c'))"
  by (simp add: fail_entry_def Let_def field_laws failures_def unat_saturating_succ32
      split: upstream_health.splits)

lemma failures_succeed_entry:
  "failures (health_for (succeed_entry c e) c') = (if c' = c then 0 else failures (health_for e c'))"
  by (simp add: succeed_entry_def Let_def field_laws failures_def)

lemma saturating_succ32_nz: "saturating_succ32 n \<noteq> 0"
  using unat_saturating_succ32 [of n] by (auto simp: unat_eq_zero)

lemma entry_wf_fail: "entry_wf e \<Longrightarrow> entry_wf (fail_entry now c err e)"
  by (auto simp: entry_wf_iff fail_entry_def Let_def field_laws saturating_succ32_nz
      split: upstream_health.splits)

lemma entry_wf_succeed: "entry_wf e \<Longrightarrow> entry_wf (succeed_entry c e)"
  by (auto simp: entry_wf_iff succeed_entry_def Let_def field_laws)

lemma map_of_update_entry:
  "map_of (update_entry cat name f) n
   = map_option (\<lambda>e. if n = name then f e else e) (map_of cat n)"
  by (induction cat) (auto simp: update_entry_def)

lemma keys_update_entry [simp]: "map fst (update_entry cat name f) = map fst cat"
  by (induction cat) (auto simp: update_entry_def)

lemma catalog_wf_step: "catalog_wf cat \<Longrightarrow> catalog_wf (health_step cat ev)"
  by (cases ev)
     (auto simp: catalog_wf_def record_failure_for_def record_success_for_def list_all_iff
       update_entry_def entry_wf_fail entry_wf_succeed split_def comp_def)

lemma health_run_Nil [simp]: "health_run cat [] = cat"
  by (simp add: health_run_def)

lemma health_run_Cons [simp]: "health_run cat (ev # evs) = health_run (health_step cat ev) evs"
  by (simp add: health_run_def)

lemma health_step_entry:
  assumes "map_of cat n = Some e"
  shows "\<exists>e'. map_of (health_step cat ev) n = Some e' \<and>
     failures (health_for e' c) = streak n c (failures (health_for e c)) [ev]"
  using assms
  by (cases ev) (auto simp: record_failure_for_def record_success_for_def map_of_update_entry
      failures_fail_entry failures_succeed_entry)

lemma streak_append: "streak n c k (evs @ evs') = streak n c (streak n c k evs) evs'"
  by (induction evs arbitrary: k rule: list.induct) (auto split: health_event.split, case_tac x1, auto)

lemma is_open_failures: "is_open h \<longleftrightarrow> 3 \<le> failures h"
  by (cases h) (simp_all add: failures_def CIRCUIT_BREAKER_THRESHOLD_def word_le_nat_alt)

text \<open>The quarantine delay on plain numbers.\<close>

lemma min_16: "min (a :: u32) 16 = (if unat a \<le> 16 then a else 16)"
  by (simp add: min_def word_le_nat_alt)

lemma unat_two_power: "k \<le> 16 \<Longrightarrow> unat ((2 :: u32) ^ k) = 2 ^ k"
proof -
  assume k: "k \<le> 16"
  have "unat ((2 :: u32) ^ k) = unat (push_bit k (1 :: u32))" by simp
  also have "\<dots> = take_bit 32 (2 ^ k)"
    unfolding unsigned_push_bit_eq by (simp add: push_bit_eq_mult)
  also have "\<dots> = 2 ^ k" using k by (intro take_bit_nat_eq_self power_strict_increasing) auto
  finally show ?thesis .
qed

lemma unat_saturating_sub32: "unat (saturating_sub32 a b) = unat a - unat b"
  by (auto simp: saturating_sub32_def word_less_nat_alt unat_sub word_le_nat_alt)

lemma reprobe_interval_eq:
  "reprobe_interval_for_failures n = min (30000 * 2 ^ (unat n - 3)) 1800000"
proof -
  let ?k = "unat n - 3"
  have k: "unat (saturating_sub32 n CIRCUIT_BREAKER_THRESHOLD) = ?k"
    by (simp add: unat_saturating_sub32 CIRCUIT_BREAKER_THRESHOLD_def)
  have exp: "unat (min (saturating_sub32 n CIRCUIT_BREAKER_THRESHOLD) 16) = min ?k 16"
    unfolding min_16 k by (simp add: k)
  have "reprobe_interval_for_failures n = min (30000 * 2 ^ min ?k 16) 1800000"
    by (simp add: reprobe_interval_for_failures_def Let_def exp unat_two_power
        REPROBE_INTERVAL_def MAX_REPROBE_INTERVAL_def)
  also have "\<dots> = min (30000 * 2 ^ ?k) 1800000"
  proof (cases "?k \<le> 16")
    case False
    then have "(2 :: nat) ^ 16 \<le> 2 ^ ?k" by (intro power_increasing) auto
    with False show ?thesis by (simp add: min_def)
  qed simp
  finally show ?thesis .
qed

lemma reprobe_interval_bounds:
  "30000 \<le> reprobe_interval_for_failures n \<and> reprobe_interval_for_failures n \<le> 1800000"
  by (simp add: reprobe_interval_eq)

lemma health_run_entry:
  "map_of cat n = Some e \<Longrightarrow>
     \<exists>e'. map_of (health_run cat evs) n = Some e'
        \<and> failures (health_for e' c) = streak n c (failures (health_for e c)) evs"
proof (induction evs arbitrary: cat e)
  case (Cons ev evs)
  obtain e1 where e1: "map_of (health_step cat ev) n = Some e1"
    "failures (health_for e1 c) = streak n c (failures (health_for e c)) [ev]"
    using health_step_entry [OF Cons.prems] by blast
  from Cons.IH [OF e1(1)] e1(2) show ?case
    using streak_append [of n c _ "[ev]" evs] by auto
qed simp

section \<open>Properties of the breaker\<close>



text \<open>
  The accounting keeps its fields consistent: in every state reached by recording
  failures and successes, a capability has a failure timestamp and an error text exactly
  when it is not healthy, never a failure count of zero, and no upstream is duplicated.
\<close>

theorem health_run_keeps_catalog_wf:
  "catalog_wf cat \<Longrightarrow> catalog_wf (health_run cat evs)"
  by (induction evs arbitrary: cat) (auto intro: catalog_wf_step)

theorem health_run_keeps_catalog_wf_witness:
  "catalog_wf (health_run [(''gh'', healthy_in_process_entry ''gh'' [])]
     [Failure 5 ''gh'' Tools ''x'', Success ''gh'' Prompts])"
proof -
  have "catalog_wf [(''gh'', healthy_in_process_entry ''gh'' [])]"
    by (simp add: catalog_wf_def entry_wf_def healthy_in_process_entry_def)
  then show ?thesis by (rule health_run_keeps_catalog_wf)
qed



section \<open>Lemmas on the listings\<close>

lemma cap_tools_eq: "cap_tools xs = take MAX_UPSTREAM_TOOLS xs"
  by (simp add: cap_tools_def Let_def min_def)

lemma cap_tools_map: "cap_tools (map f xs) = map f (cap_tools xs)"
  by (simp add: cap_tools_eq take_map)

lemma concat_map_map: "concat (map (\<lambda>x. map f (g x)) xs) = map f (concat (map g xs))"
  by (induction xs) auto

lemma exposed_tools_iff:
  "t \<in> set (exposed_tools e) \<longleftrightarrow>
     t \<in> snd ` set (ue_tools e) \<and> policy_matches (ue_exposure_policy e) (tool_name t)"
  by (auto simp: exposed_tools_def)

lemma map_filter_mem: "y \<in> set (List.map_filter g xs) \<longleftrightarrow> (\<exists>x\<in>set xs. g x = Some y)"
  by (force simp: List.map_filter_def)

lemma map_filter_fst_subset: "(\<And>x y. g x = Some y \<Longrightarrow> fst y = fst x) \<Longrightarrow>
  fst ` set (List.map_filter g xs) \<subseteq> fst ` set xs"
proof (induction xs)
  case (Cons a xs)
  then show ?case
    using Cons.prems [of a] by (cases "g a") (auto simp: List.map_filter_simps image_iff)
qed (simp add: List.map_filter_simps)

lemma distinct_fst_map_filter:
  assumes "\<And>x y. g x = Some y \<Longrightarrow> fst y = fst x" and "distinct (map fst xs)"
  shows "distinct (map fst (List.map_filter g xs))"
  using assms(2)
proof (induction xs)
  case (Cons x xs)
  moreover have "fst ` set (List.map_filter g xs) \<subseteq> fst ` set xs"
    using assms(1) by (rule map_filter_fst_subset)
  ultimately show ?case
    using assms(1) [of x] by (auto simp: List.map_filter_simps split: option.splits)
qed (simp add: List.map_filter_simps)

lemma candidate_Some:
  "candidate name ne = Some (n, t) \<longleftrightarrow> n = fst ne \<and> map_of (ue_tools (snd ne)) name = Some t
     \<and> policy_matches (ue_exposure_policy (snd ne)) (tool_name t)"
  by (auto simp: candidate_def split: option.splits)

lemma candidate_key: "candidate name ne = Some y \<Longrightarrow> fst y = fst ne"
  by (auto simp: candidate_def split: option.splits if_splits)

lemma sort_by_name_unique:
  assumes "set xs = set ys" and "distinct (map fst xs)" and "distinct (map fst ys)"
  shows "sort_key fst xs = sort_key fst (ys :: (string \<times> 'a) list)"
proof (rule map_sorted_distinct_set_unique [where f = fst])
  have d: "distinct (map fst (sort_key fst zs))" if "distinct (map fst zs)" for zs :: "(string \<times> 'a) list"
    using that mset_map [of fst "sort_key fst zs"] by (metis mset_eq_imp_distinct_iff mset_map mset_sort)
  show "distinct (map fst (sort_key fst xs))" "distinct (map fst (sort_key fst ys))"
    using assms d by auto
  show "inj_on fst (set (sort_key fst xs) \<union> set (sort_key fst ys))"
    using assms by (simp add: distinct_map)
  show "set (sort_key fst xs) = set (sort_key fst ys)" using assms by simp
qed (rule sorted_sort_key)+

text \<open>Bounded insertion keeps the smallest names.\<close>

lemma take_insort: "take k (insort x (take k ys)) = take k (insort x ys)"
proof (induction ys arbitrary: k)
  case (Cons y ys)
  then show ?case by (cases k; cases "k - 1") auto
qed simp

lemma insert_at_takeWhile:
  "take (length (takeWhile (\<lambda>r. f r < f x) rows)) rows @ x # drop (length (takeWhile (\<lambda>r. f r < f x) rows)) rows
   = insort_key f x rows"
  by (induction rows) (auto simp: not_less)

lemma map_insort_key: "map f (insort_key f x rows) = insort (f x) (map f rows)"
  by (induction rows) auto

lemma insort_at_end:
  "k \<le> length (takeWhile (\<lambda>r. r < x) ys) \<Longrightarrow> take k (insort x ys) = take k (ys :: 'a :: linorder list)"
proof (induction ys arbitrary: k)
  case (Cons y ys)
  then show ?case by (cases k) (auto split: if_splits)
qed simp

lemma insert_bounded_names:
  assumes "length rows \<le> limit" and "0 < limit"
  shows "map row_name (insert_bounded_tool_row rows row limit)
    = take limit (insort (row_name row) (map row_name rows))"
proof -
  let ?at = "length (takeWhile (\<lambda>r. row_name r < row_name row) rows)"
  have len: "length (insort_key row_name row rows) = Suc (length rows)" by (induction rows) auto
  show ?thesis
  proof (cases "?at < limit")
    case True
    let ?ins = "insort_key row_name row rows"
    have "insert_bounded_tool_row rows row limit = (if length ?ins > limit then butlast ?ins else ?ins)"
      using assms True by (simp add: insert_bounded_tool_row_def Let_def insert_at_takeWhile)
    also have "\<dots> = take limit ?ins"
      using assms(1) len by (cases "length rows = limit") (simp_all add: butlast_conv_take)
    finally show ?thesis by (simp add: take_map [symmetric] map_insort_key)
  next
    case False
    have "?at = length (takeWhile (\<lambda>r. r < row_name row) (map row_name rows))"
      by (simp add: takeWhile_map comp_def)
    with False have "take limit (insort (row_name row) (map row_name rows)) = take limit (map row_name rows)"
      by (intro insort_at_end) simp
    with False assms show ?thesis by (simp add: insert_bounded_tool_row_def Let_def)
  qed
qed

lemma length_insert_bounded:
  "length rows \<le> limit \<Longrightarrow> 0 < limit \<Longrightarrow> length (insert_bounded_tool_row rows row limit) \<le> limit"
  using arg_cong [OF insert_bounded_names, of rows limit length row] by simp

lemma enrichment_rows_fold:
  assumes "0 < limit"
  shows "length rows \<le> limit \<Longrightarrow>
    map row_name (foldl (\<lambda>rows (_, t).
          case matched_by policy (tool_name t) of
            None \<Rightarrow> rows
          | Some m \<Rightarrow> insert_bounded_tool_row rows
              \<lparr>row_name = tool_name t, row_description = row_description_of t,
               row_exposed = True, row_matched_by = Some m\<rparr> limit) rows ts)
    = take limit (foldl (\<lambda>ns n. insort n ns) (map row_name rows)
        (filter (\<lambda>n. matched_by policy n \<noteq> None) (map (tool_name \<circ> snd) ts)))"
proof (induction ts arbitrary: rows)
  case (Cons kt ts)
  obtain k t where kt: "kt = (k, t)" by force
  show ?case
  proof (cases "matched_by policy (tool_name t)")
    case None
    with Cons show ?thesis by (simp add: kt)
  next
    case (Some m)
    have take_fold: "take limit (foldl (\<lambda>ns n. insort n ns) (take limit ns) xs)
        = take limit (foldl (\<lambda>ns n. insort n ns) ns xs)" for ns :: "string list" and xs
    proof (induction xs arbitrary: ns)
      case (Cons x xs)
      from Cons [of "insort x (take limit ns)"] Cons [of "insort x ns"] show ?case
        by (simp add: take_insort)
    qed simp
    from Cons.prems assms show ?thesis
      by (simp add: kt Some Cons.IH length_insert_bounded insert_bounded_names take_fold)
  qed
qed simp

lemma foldl_insort: "foldl (\<lambda>ns n. insort n ns) [] xs = sort (xs :: 'a :: linorder list)"
proof -
  have "mset (foldl (\<lambda>ns n. insort n ns) ys xs) = mset (ys @ xs)" for ys
    by (induction xs arbitrary: ys) (simp_all add: mset_insort)
  moreover have "sorted ys \<Longrightarrow> sorted (foldl (\<lambda>ns n. insort n ns) ys xs)" for ys
    by (induction xs arbitrary: ys) (simp_all add: sorted_insort)
  ultimately show ?thesis by (intro properties_for_sort [symmetric]) simp_all
qed

text \<open>
  C31. Tool dispatch finds the right upstreams and is deterministic: the candidates for a
  tool name are exactly the catalog entries in the caller's route scope whose breaker is not
  open, which carry the tool and whose exposure policy admits it; they come sorted by
  upstream name, and the answer does not depend on the iteration order of the catalog.
\<close>

theorem tool_candidates_exact:
  assumes "distinct (map fst cat)"
  shows "((n, t) \<in> set (find_exposed_tool_candidates_allowed cat name allowed) \<longleftrightarrow>
      (\<exists>e. map_of cat n = Some e \<and> upstream_allowed allowed n \<and> \<not> is_open (ue_tool_health e)
         \<and> map_of (ue_tools e) name = Some t
         \<and> policy_matches (ue_exposure_policy e) (tool_name t)))
    \<and> sorted (map fst (find_exposed_tool_candidates_allowed cat name allowed))
    \<and> (mset cat' = mset cat \<longrightarrow> find_exposed_tool_candidates_allowed cat' name allowed
         = find_exposed_tool_candidates_allowed cat name allowed)"
proof (intro conjI impI)
  show "(n, t) \<in> set (find_exposed_tool_candidates_allowed cat name allowed) \<longleftrightarrow>
      (\<exists>e. map_of cat n = Some e \<and> upstream_allowed allowed n \<and> \<not> is_open (ue_tool_health e)
         \<and> map_of (ue_tools e) name = Some t
         \<and> policy_matches (ue_exposure_policy e) (tool_name t))"
    using assms unfolding find_exposed_tool_candidates_allowed_def set_sort map_filter_mem
    by (auto simp: candidate_Some is_routable_def map_of_eq_Some_iff)
  show "sorted (map fst (find_exposed_tool_candidates_allowed cat name allowed))"
    by (simp add: find_exposed_tool_candidates_allowed_def)
  assume perm: "mset cat' = mset cat"
  then have d: "distinct (map fst cat')"
    using assms by (metis mset_eq_imp_distinct_iff mset_map)
  let ?P = "\<lambda>(n, e). upstream_allowed allowed n \<and> is_routable (ue_tool_health e)"
  show "find_exposed_tool_candidates_allowed cat' name allowed
         = find_exposed_tool_candidates_allowed cat name allowed"
    unfolding find_exposed_tool_candidates_allowed_def
  proof (rule sort_by_name_unique)
    show "set (List.map_filter (candidate name) (filter ?P cat'))
        = set (List.map_filter (candidate name) (filter ?P cat))"
      using mset_eq_setD [OF perm] by (auto simp: map_filter_mem)
  qed (use assms d in \<open>auto intro!: distinct_fst_map_filter candidate_key distinct_map_filter\<close>)
qed

definition sample_tool :: "string \<Rightarrow> upstream_tool" where
  "sample_tool name =
     \<lparr>ut_tool = \<lparr>mt_name = name, mt_description = None, mt_meta = None\<rparr>,
      ut_input_schema = None, ut_output_schema = None, ut_upstream_name = ''gh'',
      ut_destructive = False\<rparr>"

definition sample_catalog :: catalog where
  "sample_catalog =
     [(''zed'', healthy_in_process_entry ''zed'' [(''list'', sample_tool ''list'')]),
      (''gh'', healthy_in_process_entry ''gh'' [(''list'', sample_tool ''list''), (''add'', sample_tool ''add'')])]"

theorem tool_candidates_exact_witness:
  "(''gh'', sample_tool ''list'') \<in> set (find_exposed_tool_candidates_allowed sample_catalog ''list'' (Some [''gh'']))
   \<and> find_exposed_tool_candidates_allowed (rev sample_catalog) ''list'' None
       = find_exposed_tool_candidates_allowed sample_catalog ''list'' None"
proof -
  have d: "distinct (map fst sample_catalog)" by (simp add: sample_catalog_def)
  have "(''gh'', sample_tool ''list'') \<in> set (find_exposed_tool_candidates_allowed sample_catalog ''list'' (Some [''gh'']))"
    unfolding conjunct1 [OF tool_candidates_exact [OF d]]
    by (simp add: sample_catalog_def healthy_in_process_entry_def upstream_allowed_def List.member_iff
        policy_matches_def matched_by_def)
  then show ?thesis using tool_candidates_exact [OF d, of _ _ _ None "rev sample_catalog"] by simp
qed

text \<open>
  The tool listing is sound, complete and bounded: every listed tool comes from a
  catalog entry in scope whose breaker is not open and whose policy admits the tool; while
  there are at most a thousand such tools all of them are listed, and never more than a
  thousand are.
\<close>

theorem healthy_tools_exact:
  "length (healthy_tools_allowed cat allowed) \<le> 1000
   \<and> (let visible = concat (map (\<lambda>(_, e). exposed_tools e) (filter (\<lambda>(n, e).
            upstream_allowed allowed n \<and> \<not> is_open (ue_tool_health e)) cat))
      in prefix (healthy_tools_allowed cat allowed) visible
         \<and> (length visible \<le> 1000) = (healthy_tools_allowed cat allowed = visible)
         \<and> (t \<in> set visible \<longleftrightarrow> (\<exists>n e. (n, e) \<in> set cat \<and> upstream_allowed allowed n
              \<and> \<not> is_open (ue_tool_health e) \<and> t \<in> snd ` set (ue_tools e)
              \<and> policy_matches (ue_exposure_policy e) (tool_name t))))"
proof -
  let ?vis = "concat (map (\<lambda>(_, e). exposed_tools e) (filter (\<lambda>(n, e).
            upstream_allowed allowed n \<and> \<not> is_open (ue_tool_health e)) cat))"
  have eq: "healthy_tools_allowed cat allowed = take 1000 ?vis"
    by (simp add: healthy_tools_allowed_def cap_tools_eq MAX_UPSTREAM_TOOLS_def is_routable_def
        case_prod_unfold conj_commute cong: filter_cong)
  have mem: "t \<in> set ?vis \<longleftrightarrow> (\<exists>n e. (n, e) \<in> set cat \<and> upstream_allowed allowed n
              \<and> \<not> is_open (ue_tool_health e) \<and> t \<in> snd ` set (ue_tools e)
              \<and> policy_matches (ue_exposure_policy e) (tool_name t))"
    by (auto simp: exposed_tools_iff)
  have "(length ?vis \<le> 1000) = (take 1000 ?vis = ?vis)" by (rule take_all_iff [symmetric])
  then show ?thesis unfolding Let_def eq mem by (simp add: take_is_prefix)
qed

text \<open>
  The name-only listings, which avoid copying tool schemas, agree with the full
  listings: they return the names of the same tools in the same order under the same cap,
  for the plain listing and for the one restricted to tools with an embedded UI.
\<close>

theorem tool_name_listings_agree:
  "healthy_tool_names_allowed cat allowed = map tool_name (healthy_tools_allowed cat allowed)
   \<and> healthy_ui_tool_names_allowed cat allowed = map tool_name (healthy_ui_tools_allowed cat allowed)"
  by (simp add: healthy_tool_names_allowed_def healthy_tools_allowed_def
      healthy_ui_tool_names_allowed_def healthy_ui_tools_allowed_def
      cap_tools_map [symmetric] concat_map_map [symmetric] case_prod_unfold conj_commute map_concat
      comp_def cong: filter_cong)

text \<open>
  The bounded enrichment rows are a correct partial sort: although only a bounded
  buffer is kept while the tools stream by, the rows of a routable upstream carry exactly
  the alphabetically first names among its exposed tools.
\<close>

theorem enrichment_rows_smallest:
  assumes "0 < limit" and "\<not> is_open (ue_tool_health e)"
  shows "map row_name (enrichment_rows limit e) = take limit (sort (map tool_name (exposed_tools e)))"
proof -
  have names: "map tool_name (exposed_tools e)
     = filter (\<lambda>n. matched_by (ue_exposure_policy e) n \<noteq> None) (map (tool_name \<circ> snd) (ue_tools e))"
    by (simp add: exposed_tools_def policy_matches_def filter_map comp_def)
  show ?thesis
    using assms enrichment_rows_fold [OF assms(1), of "[]" "ue_exposure_policy e" "ue_tools e"]
    by (simp add: enrichment_rows_def is_routable_def names foldl_insort)
qed

theorem enrichment_rows_smallest_witness:
  "map row_name (enrichment_rows 1 (snd (sample_catalog ! 1))) = [''add'']"
proof -
  let ?e = "snd (sample_catalog ! 1)"
  have "map row_name (enrichment_rows 1 ?e) = take 1 (sort (map tool_name (exposed_tools ?e)))"
    by (rule enrichment_rows_smallest) (simp_all add: sample_catalog_def healthy_in_process_entry_def)
  also have "\<dots> = [''add'']"
    by (simp add: sample_catalog_def healthy_in_process_entry_def exposed_tools_def sample_tool_def
        policy_matches_def matched_by_def less_list_code less_eq_list_code)
  finally show ?thesis .
qed

end
