(* ===== verification/Ordered_Map.thy ===== *)
theory Ordered_Map
  imports Main
begin

text \<open>
  \<open>std::collections::BTreeMap\<close> as the list of its entries in ascending key order, with the
  operations the sources use. The interface locale states what a client may rely on; it is
  interpreted on the list operations, and the clients use the interpretation's lemmas.
\<close>

fun bt_insert :: "'k :: linorder \<Rightarrow> 'v \<Rightarrow> ('k \<times> 'v) list \<Rightarrow> ('k \<times> 'v) list" where
  "bt_insert k v [] = [(k, v)]"
| "bt_insert k v ((k', v') # m) =
     (if k < k' then (k, v) # (k', v') # m
      else if k = k' then (k, v) # m
      else (k', v') # bt_insert k v m)"

definition bt_remove :: "'k \<Rightarrow> ('k \<times> 'v) list \<Rightarrow> ('k \<times> 'v) list" where
  "bt_remove k m = filter (\<lambda>(k', _). k' \<noteq> k) m"

definition bt_contains :: "('k \<times> 'v) list \<Rightarrow> 'k \<Rightarrow> bool" where
  "bt_contains m k = (map_of m k \<noteq> None)"

definition bt_ok :: "('k :: linorder \<times> 'v) list \<Rightarrow> bool" where
  "bt_ok m = sorted_wrt (<) (map fst m)"

section \<open>The interface\<close>

locale ordered_store =
  fixes lookup :: "'m \<Rightarrow> 'k \<Rightarrow> 'v option"
    and ins :: "'k \<Rightarrow> 'v \<Rightarrow> 'm \<Rightarrow> 'm"
    and del :: "'k \<Rightarrow> 'm \<Rightarrow> 'm"
    and ok :: "'m \<Rightarrow> bool"
  assumes lookup_ins: "lookup (ins k v m) = (lookup m)(k \<mapsto> v)"
    and lookup_del: "lookup (del k m) = (lookup m)(k := None)"
    and ok_ins: "ok m \<Longrightarrow> ok (ins k v m)"
    and ok_del: "ok m \<Longrightarrow> ok (del k m)"
    and ok_ext: "ok m \<Longrightarrow> ok m' \<Longrightarrow> lookup m = lookup m' \<Longrightarrow> m = m'"
begin

lemma lookup_ins_all:
  "lookup (foldl (\<lambda>m kv. ins (fst kv) (snd kv) m) m kvs) = lookup m ++ map_of (rev kvs)"
  by (induction kvs arbitrary: m) (auto simp: lookup_ins fun_eq_iff map_add_def split: option.splits)

lemma ok_ins_all: "ok m \<Longrightarrow> ok (foldl (\<lambda>m kv. ins (fst kv) (snd kv) m) m kvs)"
  by (induction kvs arbitrary: m) (auto intro: ok_ins)

lemma ins_present: "ok m \<Longrightarrow> lookup m k = Some v \<Longrightarrow> ins k v m = m"
  by (rule ok_ext) (auto simp: lookup_ins ok_ins)

lemma del_absent: "ok m \<Longrightarrow> lookup m k = None \<Longrightarrow> del k m = m"
  by (rule ok_ext) (auto simp: lookup_del ok_del)

lemma del_ins: "ok m \<Longrightarrow> lookup m k = None \<Longrightarrow> del k (ins k v m) = m"
  by (rule ok_ext) (auto simp: lookup_ins lookup_del ok_ins ok_del)

end

lemma map_of_bt_insert: "map_of (bt_insert k v m) = (map_of m)(k \<mapsto> v)"
  by (induction k v m rule: bt_insert.induct) auto

lemma map_of_bt_remove: "map_of (bt_remove k m) = (map_of m)(k := None)"
  by (induction m) (auto simp: bt_remove_def)

lemma keys_bt_insert: "fst ` set (bt_insert k v m) = insert k (fst ` set m)"
  by (induction k v m rule: bt_insert.induct) auto

lemma set_bt_insert: "set (bt_insert k v m) \<subseteq> insert (k, v) (set m)"
  by (induction k v m rule: bt_insert.induct) auto

lemma bt_ok_insert: "bt_ok m \<Longrightarrow> bt_ok (bt_insert k v m)"
proof (induction k v m rule: bt_insert.induct)
  case (2 k v k' v' m)
  then have IH: "k > k' \<Longrightarrow> bt_ok (bt_insert k v m)"
    and top: "\<forall>x\<in>fst ` set m. k' < x" by (auto simp: bt_ok_def)
  have "k > k' \<Longrightarrow> \<forall>x\<in>fst ` set (bt_insert k v m). k' < x"
    using top by (simp add: keys_bt_insert)
  with 2 IH top show ?case by (auto simp: bt_ok_def)
qed (simp add: bt_ok_def)

lemma bt_ok_remove: "bt_ok m \<Longrightarrow> bt_ok (bt_remove k m)"
  by (simp add: bt_ok_def bt_remove_def sorted_wrt_map sorted_wrt_filter)

lemma bt_ok_distinct: "bt_ok m \<Longrightarrow> distinct (map fst m)"
  unfolding bt_ok_def by (rule strict_sorted_iff [THEN iffD1, THEN conjunct2])

lemma bt_ok_ext:
  assumes "bt_ok m" and "bt_ok m'" and "map_of m = map_of m'"
  shows "m = m'"
proof (rule map_sorted_distinct_set_unique [where f = fst])
  show "sorted (map fst m)" "sorted (map fst m')"
    using assms by (simp_all add: bt_ok_def strict_sorted_iff)
  show "distinct (map fst m)" "distinct (map fst m')"
    using assms by (simp_all add: bt_ok_distinct)
  show s: "set m = set m'"
    using assms by (metis bt_ok_distinct map_of_inject_set)
  show "inj_on fst (set m \<union> set m')"
    using s assms(1) bt_ok_distinct by (metis Un_absorb distinct_map)
qed

interpretation bt: ordered_store map_of bt_insert bt_remove bt_ok
  by unfold_locales
    (auto simp: map_of_bt_insert map_of_bt_remove intro: bt_ok_insert bt_ok_remove bt_ok_ext)

end
