(* ===== verification/Relay_Registry.thy ===== *)
theory Relay_Registry
  imports Ssrf Json Ordered_Map "HOL-Library.Char_ord" "HOL-Library.List_Lexorder"
begin

text \<open>
  The machine registry of the public OAuth callback relay
  (\<open>crates/labby/src/oauth/public_relay\<close>): validated targets (\<open>types.rs\<close>), import and
  persistence (\<open>store.rs\<close>), and the live manager with its concurrency permits
  (\<open>manager.rs\<close>).

  \<open>url_parse\<close> and \<open>ip_parse\<close> stand for the URL and address parsers as in \<open>Ssrf\<close>;
  \<open>write_file\<close> for serde's rendering of a \<open>RegistryFile\<close> and \<open>from_str\<close> for serde_json's
  parser. Error messages are dropped; a quarantined entry keeps which check it failed.
\<close>

section \<open>Types\<close>

type_synonym machine_id = string

datatype relay_error =
    InvalidMachineId | InvalidSuffix | InvalidRegistryInput | InvalidRequestBody | InvalidTarget
  | RegistryUnavailable | ForwarderInitFailed | UnknownMachine | DisabledMachine | Overloaded
  | BodyTooLarge | ResponseTooLarge | UpstreamTimeout | UpstreamError

fun relay_kind :: "relay_error \<Rightarrow> string" where
  "relay_kind InvalidMachineId = ''invalid_param''"
| "relay_kind InvalidSuffix = ''invalid_param''"
| "relay_kind InvalidRegistryInput = ''invalid_param''"
| "relay_kind InvalidRequestBody = ''invalid_param''"
| "relay_kind InvalidTarget = ''relay_invalid_target''"
| "relay_kind RegistryUnavailable = ''relay_registry_unavailable''"
| "relay_kind ForwarderInitFailed = ''relay_forwarder_init_failed''"
| "relay_kind UnknownMachine = ''not_found''"
| "relay_kind DisabledMachine = ''forbidden''"
| "relay_kind Overloaded = ''queue_saturated''"
| "relay_kind BodyTooLarge = ''content_too_large''"
| "relay_kind ResponseTooLarge = ''content_too_large''"
| "relay_kind UpstreamTimeout = ''timeout''"
| "relay_kind UpstreamError = ''bad_gateway''"

fun to_tool_error :: "relay_error \<Rightarrow> tool_error" where
  "to_tool_error InvalidMachineId = InvalidParam ''machine_id''"
| "to_tool_error InvalidSuffix = InvalidParam ''suffix''"
| "to_tool_error InvalidRegistryInput = InvalidParam ''registry''"
| "to_tool_error InvalidRequestBody = InvalidParam ''body''"
| "to_tool_error e = Sdk (relay_kind e)"

fun public_message :: "relay_error \<Rightarrow> string" where
  "public_message Overloaded = ''relay busy; retry later''"
| "public_message BodyTooLarge = ''callback request too large (query or body)''"
| "public_message InvalidRequestBody = ''callback request invalid''"
| "public_message ResponseTooLarge = ''callback response too large''"
| "public_message UpstreamTimeout = ''callback target timed out''"
| "public_message UpstreamError = ''callback target unavailable''"
| "public_message _ = ''callback target unavailable''"

definition machine_id_parse :: "string \<Rightarrow> relay_error + machine_id" where
  "machine_id_parse value =
     (let trimmed = trim value in
      if trimmed \<noteq> value \<or> trimmed = [] \<or> length trimmed > 64 then Inl InvalidMachineId
      else if \<not> list_all (\<lambda>b. is_ascii_alphanumeric b \<or> b = CHR ''-'' \<or> b = CHR ''_'') trimmed
        then Inl InvalidMachineId
      else Inr trimmed)"

record relay_entry =
  re_machine_id :: machine_id
  re_target_url :: string
  re_description :: "string option"
  re_disabled :: bool

record relay_target =
  rt_machine_id :: machine_id
  rt_url :: url

fun is_tailscale_cgnat :: "ip_addr \<Rightarrow> bool" where
  "is_tailscale_cgnat (V4 (Ipv4 a b c d)) = (a = 100 \<and> 64 \<le> b \<and> b \<le> 127)"
| "is_tailscale_cgnat (V6 ip) = False"

definition relay_target_parse ::
  "(string \<Rightarrow> url option) \<Rightarrow> (string \<Rightarrow> ip_addr option) \<Rightarrow> machine_id \<Rightarrow> string \<Rightarrow> relay_error + relay_target" where
  "relay_target_parse url_parse ip_parse machine_id target_url =
     (case url_parse target_url of
        None \<Rightarrow> Inl InvalidTarget
      | Some url \<Rightarrow>
          if url_scheme url \<noteq> ''http'' then Inl InvalidTarget
          else if url_username url \<noteq> [] \<or> url_password url \<noteq> None then Inl InvalidTarget
          else if url_query url \<noteq> None \<or> url_fragment url \<noteq> None then Inl InvalidTarget
          else if url_port url \<noteq> Some 38935 then Inl InvalidTarget
          else if url_path url \<noteq> ''/callback/'' @ machine_id then Inl InvalidTarget
          else (case url_host_str url of
                  None \<Rightarrow> Inl InvalidTarget
                | Some host \<Rightarrow>
                    (case ip_parse host of
                       None \<Rightarrow> Inl InvalidTarget
                     | Some ip \<Rightarrow>
                         if \<not> is_tailscale_cgnat ip then Inl InvalidTarget
                         else Inr \<lparr>rt_machine_id = machine_id, rt_url = url\<rparr>)))"

definition entry_target ::
  "(string \<Rightarrow> url option) \<Rightarrow> (string \<Rightarrow> ip_addr option) \<Rightarrow> relay_entry \<Rightarrow> relay_error + relay_target" where
  "entry_target url_parse ip_parse e =
     relay_target_parse url_parse ip_parse (re_machine_id e) (re_target_url e)"

definition redacted_label :: "relay_target \<Rightarrow> string" where
  "redacted_label t =
     rt_machine_id t @ ''@''
     @ (case url_host_str (rt_url t) of Some h \<Rightarrow> h | None \<Rightarrow> ''unknown'')"

datatype quarantine_reason =
    ReasonMachineId | ReasonEntry | ReasonKeyMismatch machine_id | ReasonType string
  | ReasonDuplicate | ReasonTarget

record quarantined_entry =
  qe_machine_id :: string
  qe_reason :: quarantine_reason

record import_report =
  ir_accepted :: "string list"
  ir_quarantined :: "quarantined_entry list"
  ir_entries :: "relay_entry list"

definition ensure_complete_import :: "import_report \<Rightarrow> relay_error + unit" where
  "ensure_complete_import r =
     (if ir_quarantined r \<noteq> [] then Inl InvalidTarget
      else if ir_entries r = [] then Inl InvalidTarget
      else Inr ())"

record machine_view =
  mv_machine_id :: string
  mv_target :: string
  mv_disabled :: bool
  mv_description :: "string option"

definition machine_view_from_entry ::
  "(string \<Rightarrow> url option) \<Rightarrow> (string \<Rightarrow> ip_addr option) \<Rightarrow> relay_entry \<Rightarrow> machine_view" where
  "machine_view_from_entry url_parse ip_parse e =
     \<lparr>mv_machine_id = re_machine_id e,
      mv_target = (case entry_target url_parse ip_parse e of
                     Inr t \<Rightarrow> redacted_label t
                   | Inl _ \<Rightarrow> re_machine_id e @ ''@invalid''),
      mv_disabled = re_disabled e, mv_description = re_description e\<rparr>"

section \<open>Import and persistence\<close>

text \<open>
  \<open>serde_json::from_value::<PublicRelayEntry>\<close>: a derived struct deserialiser takes an
  object by field names, ignoring unknown ones, or an array by field order; the last two
  fields have defaults.
\<close>

fun de_machine_id :: "json option \<Rightarrow> machine_id option" where
  "de_machine_id (Some (JString s)) = (case machine_id_parse s of Inr m \<Rightarrow> Some m | Inl _ \<Rightarrow> None)"
| "de_machine_id _ = None"

fun de_string :: "json option \<Rightarrow> string option" where
  "de_string (Some (JString s)) = Some s"
| "de_string _ = None"

fun de_opt_string :: "json option \<Rightarrow> string option option" where
  "de_opt_string None = Some None"
| "de_opt_string (Some JNull) = Some None"
| "de_opt_string (Some (JString s)) = Some (Some s)"
| "de_opt_string _ = None"

fun de_bool :: "json option \<Rightarrow> bool option" where
  "de_bool None = Some False"
| "de_bool (Some (JBool b)) = Some b"
| "de_bool _ = None"

definition de_entry ::
  "json option \<Rightarrow> json option \<Rightarrow> json option \<Rightarrow> json option \<Rightarrow> relay_entry option" where
  "de_entry m t d b =
     (case (de_machine_id m, de_string t, de_opt_string d, de_bool b) of
        (Some m', Some t', Some d', Some b') \<Rightarrow>
          Some \<lparr>re_machine_id = m', re_target_url = t', re_description = d', re_disabled = b'\<rparr>
      | _ \<Rightarrow> None)"

fun nth_opt :: "'a list \<Rightarrow> nat \<Rightarrow> 'a option" where
  "nth_opt xs i = (if i < length xs then Some (xs ! i) else None)"

fun entry_from_value :: "json \<Rightarrow> relay_entry option" where
  "entry_from_value (JObject kvs) =
     de_entry (map_of kvs ''machine_id'') (map_of kvs ''target_url'')
       (map_of kvs ''description'') (map_of kvs ''disabled'')"
| "entry_from_value (JArray vs) =
     (if length vs > 4 then None
      else de_entry (nth_opt vs 0) (nth_opt vs 1) (nth_opt vs 2) (nth_opt vs 3))"
| "entry_from_value _ = None"

definition REGISTRY_FILE_VERSION :: nat where
  "REGISTRY_FILE_VERSION = 1"

definition MAX_REGISTRY_BACKUPS :: nat where
  "MAX_REGISTRY_BACKUPS = 5"

fun json_type_name :: "json \<Rightarrow> string" where
  "json_type_name JNull = ''null''"
| "json_type_name (JBool _) = ''boolean''"
| "json_type_name (JNumber _) = ''number''"
| "json_type_name (JString _) = ''string''"
| "json_type_name (JArray _) = ''array''"
| "json_type_name (JObject _) = ''object''"

text \<open>One turn of the loop of \<open>import_entries\<close>: the accepted names, the quarantine, the map.\<close>

definition import_entry ::
  "(string \<Rightarrow> url option) \<Rightarrow> (string \<Rightarrow> ip_addr option) \<Rightarrow>
   string list \<times> quarantined_entry list \<times> (machine_id \<times> relay_entry) list \<Rightarrow> relay_entry \<Rightarrow>
   string list \<times> quarantined_entry list \<times> (machine_id \<times> relay_entry) list" where
  "import_entry url_parse ip_parse st e =
     (case st of (acc, q, m) \<Rightarrow>
       (case entry_target url_parse ip_parse e of
          Inr _ \<Rightarrow>
            if bt_contains m (re_machine_id e)
            then (acc, q @ [\<lparr>qe_machine_id = re_machine_id e, qe_reason = ReasonDuplicate\<rparr>], m)
            else (acc @ [re_machine_id e], q, bt_insert (re_machine_id e) e m)
        | Inl _ \<Rightarrow>
            (acc, q @ [\<lparr>qe_machine_id = re_machine_id e, qe_reason = ReasonTarget\<rparr>], m)))"

definition import_entries ::
  "(string \<Rightarrow> url option) \<Rightarrow> (string \<Rightarrow> ip_addr option) \<Rightarrow> relay_entry list \<Rightarrow> import_report" where
  "import_entries url_parse ip_parse entries =
     (case foldl (import_entry url_parse ip_parse) ([], [], []) entries of
        (acc, q, m) \<Rightarrow> \<lparr>ir_accepted = acc, ir_quarantined = q, ir_entries = map snd m\<rparr>)"

definition item_label :: "json \<Rightarrow> string" where
  "item_label item =
     (case json_get item ''machine_id'' of
        Some (JString s) \<Rightarrow> s
      | _ \<Rightarrow> ''<unknown>'')"

definition with_quarantine :: "quarantined_entry list \<Rightarrow> import_report \<Rightarrow> import_report" where
  "with_quarantine q r = r\<lparr>ir_quarantined := q @ ir_quarantined r\<rparr>"

definition parse_array_shape ::
  "(string \<Rightarrow> url option) \<Rightarrow> (string \<Rightarrow> ip_addr option) \<Rightarrow> json list \<Rightarrow> import_report" where
  "parse_array_shape url_parse ip_parse items =
     with_quarantine
       (map (\<lambda>item. \<lparr>qe_machine_id = item_label item, qe_reason = ReasonEntry\<rparr>)
          (filter (\<lambda>item. entry_from_value item = None) items))
       (import_entries url_parse ip_parse (List.map_filter entry_from_value items))"

text \<open>How one member of a registry object is read.\<close>

definition object_member :: "string \<times> json \<Rightarrow> quarantine_reason + relay_entry" where
  "object_member kv =
     (case snd kv of
        JString target_url \<Rightarrow>
          (case machine_id_parse (fst kv) of
             Inr machine \<Rightarrow> Inr \<lparr>re_machine_id = machine, re_target_url = target_url,
                                re_description = None, re_disabled = False\<rparr>
           | Inl _ \<Rightarrow> Inl ReasonMachineId)
      | JObject kvs \<Rightarrow>
          (case entry_from_value (JObject kvs) of
             Some e \<Rightarrow> if fst kv = re_machine_id e then Inr e
                       else Inl (ReasonKeyMismatch (re_machine_id e))
           | None \<Rightarrow> Inl ReasonEntry)
      | v \<Rightarrow> Inl (ReasonType (json_type_name v)))"

fun is_number :: "json option \<Rightarrow> bool" where
  "is_number (Some (JNumber _)) = True"
| "is_number _ = False"

definition parse_object_shape ::
  "(string \<Rightarrow> url option) \<Rightarrow> (string \<Rightarrow> ip_addr option) \<Rightarrow> (string \<times> json) list \<Rightarrow> relay_error + import_report" where
  "parse_object_shape url_parse ip_parse kvs =
     (case (is_number (map_of kvs ''version''), map_of kvs ''entries'') of
        (True, Some (JArray entries)) \<Rightarrow>
          (case json_as_u64 (the (map_of kvs ''version'')) of
             None \<Rightarrow> Inl InvalidRegistryInput
           | Some version \<Rightarrow>
               if version \<noteq> REGISTRY_FILE_VERSION then Inl InvalidRegistryInput
               else Inr (parse_array_shape url_parse ip_parse entries))
      | _ \<Rightarrow>
          Inr (with_quarantine
            (List.map_filter (\<lambda>kv. case object_member kv of
                 Inl r \<Rightarrow> Some \<lparr>qe_machine_id = fst kv, qe_reason = r\<rparr>
               | Inr _ \<Rightarrow> None) kvs)
            (import_entries url_parse ip_parse
              (List.map_filter (\<lambda>kv. case object_member kv of Inl _ \<Rightarrow> None | Inr e \<Rightarrow> Some e) kvs))))"

fun parse_registry_value ::
  "(string \<Rightarrow> url option) \<Rightarrow> (string \<Rightarrow> ip_addr option) \<Rightarrow> json \<Rightarrow> relay_error + import_report" where
  "parse_registry_value url_parse ip_parse (JArray items) = Inr (parse_array_shape url_parse ip_parse items)"
| "parse_registry_value url_parse ip_parse (JObject kvs) = parse_object_shape url_parse ip_parse kvs"
| "parse_registry_value url_parse ip_parse _ = Inl InvalidRegistryInput"

definition parse_standalone_registry ::
  "(string \<Rightarrow> url option) \<Rightarrow> (string \<Rightarrow> ip_addr option) \<Rightarrow> (string \<Rightarrow> json option) \<Rightarrow> string \<Rightarrow> relay_error + import_report" where
  "parse_standalone_registry url_parse ip_parse from_str raw =
     and_then (ok_or (from_str raw) RegistryUnavailable) (parse_registry_value url_parse ip_parse)"

text \<open>
  The registry directory: the file's text and its \<open>.bak.*\<close> sidecars in listing order, each
  with its modification time and the clock and process number in its name. What the
  operating system answers during one save is given by \<open>save_io\<close>: which calls succeed, the
  clock, the process number and which stale backups can be removed.
\<close>

record backup =
  bk_modified :: nat
  bk_now :: nat
  bk_pid :: nat

record disk =
  dk_file :: "string option"
  dk_backups :: "backup list"

record save_io =
  io_parent :: bool
  io_mkdir :: bool
  io_now :: nat
  io_pid :: nat
  io_backup_open :: bool
  io_backup_copy :: bool
  io_list :: bool
  io_remove :: "backup \<Rightarrow> bool"
  io_write :: bool
  io_sync_parent :: bool

record write_outcome =
  wo_backup :: "(nat \<times> nat) option"
  wo_entry_count :: nat

definition same_backup_name :: "save_io \<Rightarrow> backup \<Rightarrow> bool" where
  "same_backup_name io b = (bk_now b = io_now io \<and> bk_pid b = io_pid io)"

text \<open>The backup file is created with \<open>create_new\<close>, so a file of that name is an error.\<close>

definition create_backup :: "save_io \<Rightarrow> disk \<Rightarrow> disk \<times> (relay_error + nat \<times> nat)" where
  "create_backup io d =
     (if \<not> io_backup_open io \<or> list_ex (same_backup_name io) (dk_backups d)
      then (d, Inl RegistryUnavailable)
      else
        let d' = d\<lparr>dk_backups := dk_backups d
                @ [\<lparr>bk_modified = io_now io, bk_now = io_now io, bk_pid = io_pid io\<rparr>]\<rparr>
        in if io_backup_copy io then (d', Inr (io_now io, io_pid io))
           else (d', Inl RegistryUnavailable))"

text \<open>Newest first; the sort is stable, and \<open>Reverse\<close> turns the order of the times around.\<close>

definition newest_first :: "backup list \<Rightarrow> backup list" where
  "newest_first bs = sort_key (\<lambda>b. - int (bk_modified b)) bs"

definition prune_old_backups :: "save_io \<Rightarrow> disk \<Rightarrow> nat \<Rightarrow> disk" where
  "prune_old_backups io d keep =
     (if \<not> io_list io then d
      else if length (dk_backups d) \<le> keep then d
      else
        let stale = drop keep (newest_first (dk_backups d))
        in d\<lparr>dk_backups := filter (\<lambda>b. \<not> (List.member stale b \<and> io_remove io b)) (dk_backups d)\<rparr>)"

text \<open>A temporary file is written, synced and renamed over the registry; then the directory is synced.\<close>

definition write_bytes_atomic :: "save_io \<Rightarrow> disk \<Rightarrow> string \<Rightarrow> disk \<times> (relay_error + unit)" where
  "write_bytes_atomic io d bytes =
     (if \<not> io_write io then (d, Inl RegistryUnavailable)
      else
        let d' = d\<lparr>dk_file := Some (bytes @ [CHR 0x0A])\<rparr>
        in if io_sync_parent io then (d', Inr ()) else (d', Inl RegistryUnavailable))"

definition backup_and_prune :: "save_io \<Rightarrow> disk \<Rightarrow> disk \<times> (relay_error + (nat \<times> nat) option)" where
  "backup_and_prune io d =
     (case dk_file d of
        None \<Rightarrow> (d, Inr None)
      | Some _ \<Rightarrow>
          (case create_backup io d of
             (d', Inl e) \<Rightarrow> (d', Inl e)
           | (d', Inr b) \<Rightarrow> (prune_old_backups io d' MAX_REGISTRY_BACKUPS, Inr (Some b))))"

definition save_entries_sync ::
  "(string \<Rightarrow> url option) \<Rightarrow> (string \<Rightarrow> ip_addr option) \<Rightarrow> (relay_entry list \<Rightarrow> string) \<Rightarrow>
   save_io \<Rightarrow> disk \<Rightarrow> relay_entry list \<Rightarrow> disk \<times> (relay_error + write_outcome)" where
  "save_entries_sync url_parse ip_parse write_file io d entries =
     (let report = import_entries url_parse ip_parse entries in
      if ir_quarantined report \<noteq> [] then (d, Inl InvalidTarget)
      else if \<not> io_parent io then (d, Inl RegistryUnavailable)
      else if \<not> io_mkdir io then (d, Inl RegistryUnavailable)
      else
        (case backup_and_prune io d of
           (d1, Inl e) \<Rightarrow> (d1, Inl e)
         | (d1, Inr backup) \<Rightarrow>
             (case write_bytes_atomic io d1 (write_file (ir_entries report)) of
                (d2, Inl e) \<Rightarrow> (d2, Inl e)
              | (d2, Inr _) \<Rightarrow>
                  (d2, Inr \<lparr>wo_backup = backup, wo_entry_count = length (ir_entries report)\<rparr>))))"

type_synonym snapshot = "(machine_id \<times> relay_entry) list"

definition snapshot_of :: "relay_entry list \<Rightarrow> snapshot" where
  "snapshot_of es = foldl (\<lambda>m kv. bt_insert (fst kv) (snd kv) m) [] (map (\<lambda>e. (re_machine_id e, e)) es)"

definition load_snapshot_sync ::
  "(string \<Rightarrow> url option) \<Rightarrow> (string \<Rightarrow> ip_addr option) \<Rightarrow> (string \<Rightarrow> json option) \<Rightarrow> disk \<Rightarrow> relay_error + snapshot" where
  "load_snapshot_sync url_parse ip_parse from_str d =
     (case dk_file d of
        None \<Rightarrow> Inr []
      | Some raw \<Rightarrow>
          and_then (parse_standalone_registry url_parse ip_parse from_str raw)
            (\<lambda>report. if ir_quarantined report \<noteq> [] then Inl InvalidTarget
                      else Inr (snapshot_of (ir_entries report))))"

section \<open>The manager\<close>

text \<open>
  A semaphore is an index into the list of available permits, so that an \<open>Arc\<close> kept by a
  permit and one kept by the table of limits are the same semaphore exactly when the
  indices agree. \<open>rm_pending\<close> are the acquisitions that hold the global permit and have not
  yet tried the machine's; \<open>rm_held\<close> are the permits held by requests in flight.
\<close>

definition PUBLIC_GLOBAL_CONCURRENCY :: nat where
  "PUBLIC_GLOBAL_CONCURRENCY = 32"

definition PUBLIC_PER_MACHINE_CONCURRENCY :: nat where
  "PUBLIC_PER_MACHINE_CONCURRENCY = 2"

record relay_manager =
  rm_disk :: disk
  rm_snapshot :: snapshot
  rm_global :: nat
  rm_limits :: "(machine_id \<times> nat) list"
  rm_sems :: "nat list"
  rm_pending :: "machine_id list"
  rm_held :: "(machine_id \<times> nat) list"

definition new_limit :: "machine_id \<Rightarrow> relay_manager \<Rightarrow> relay_manager" where
  "new_limit m st =
     st\<lparr>rm_limits := bt_insert m (length (rm_sems st)) (rm_limits st),
        rm_sems := rm_sems st @ [PUBLIC_PER_MACHINE_CONCURRENCY]\<rparr>"

definition machine_limit :: "machine_id \<Rightarrow> relay_manager \<Rightarrow> relay_manager \<times> nat" where
  "machine_limit m st =
     (case map_of (rm_limits st) m of
        Some i \<Rightarrow> (st, i)
      | None \<Rightarrow> (new_limit m st, length (rm_sems st)))"

definition rebuild_machine_limits :: "relay_manager \<Rightarrow> relay_manager" where
  "rebuild_machine_limits st =
     (let st' = st\<lparr>rm_limits := filter (\<lambda>(m, _). bt_contains (rm_snapshot st) m) (rm_limits st)\<rparr>
      in foldl (\<lambda>s m. fst (machine_limit m s)) st' (map fst (rm_snapshot st)))"

definition relay_load ::
  "(string \<Rightarrow> url option) \<Rightarrow> (string \<Rightarrow> ip_addr option) \<Rightarrow> (string \<Rightarrow> json option) \<Rightarrow> disk \<Rightarrow> relay_error + relay_manager" where
  "relay_load url_parse ip_parse from_str d =
     and_then (load_snapshot_sync url_parse ip_parse from_str d)
       (\<lambda>snap. Inr (rebuild_machine_limits
          \<lparr>rm_disk = d, rm_snapshot = snap, rm_global = PUBLIC_GLOBAL_CONCURRENCY,
           rm_limits = [], rm_sems = [], rm_pending = [], rm_held = []\<rparr>))"

definition relay_resolve ::
  "(string \<Rightarrow> url option) \<Rightarrow> (string \<Rightarrow> ip_addr option) \<Rightarrow> relay_manager \<Rightarrow> machine_id \<Rightarrow> relay_error + relay_target" where
  "relay_resolve url_parse ip_parse st m =
     and_then (ok_or (map_of (rm_snapshot st) m) UnknownMachine)
       (\<lambda>e. if re_disabled e then Inl DisabledMachine else entry_target url_parse ip_parse e)"

definition relay_list ::
  "(string \<Rightarrow> url option) \<Rightarrow> (string \<Rightarrow> ip_addr option) \<Rightarrow> relay_manager \<Rightarrow> machine_view list" where
  "relay_list url_parse ip_parse st = map (machine_view_from_entry url_parse ip_parse \<circ> snd) (rm_snapshot st)"

definition probe_targets ::
  "(string \<Rightarrow> url option) \<Rightarrow> (string \<Rightarrow> ip_addr option) \<Rightarrow> relay_manager \<Rightarrow>
   (machine_id \<times> (relay_error + relay_target)) list" where
  "probe_targets url_parse ip_parse st =
     map (\<lambda>(_, e). (re_machine_id e,
            if re_disabled e then Inl DisabledMachine else entry_target url_parse ip_parse e))
       (rm_snapshot st)"

fun snapshot_loop ::
  "(string \<Rightarrow> url option) \<Rightarrow> (string \<Rightarrow> ip_addr option) \<Rightarrow> snapshot \<Rightarrow> relay_entry list \<Rightarrow> relay_error + snapshot" where
  "snapshot_loop url_parse ip_parse snap [] = Inr snap"
| "snapshot_loop url_parse ip_parse snap (e # es) =
     and_then (entry_target url_parse ip_parse e)
       (\<lambda>_. snapshot_loop url_parse ip_parse (bt_insert (re_machine_id e) e snap) es)"

definition snapshot_from_entries ::
  "(string \<Rightarrow> url option) \<Rightarrow> (string \<Rightarrow> ip_addr option) \<Rightarrow> relay_entry list \<Rightarrow> relay_error + snapshot" where
  "snapshot_from_entries url_parse ip_parse entries = snapshot_loop url_parse ip_parse [] entries"

definition validate_and_install ::
  "(string \<Rightarrow> url option) \<Rightarrow> (string \<Rightarrow> ip_addr option) \<Rightarrow> (relay_entry list \<Rightarrow> string) \<Rightarrow> save_io \<Rightarrow>
   relay_manager \<Rightarrow> relay_entry list \<Rightarrow> relay_manager \<times> (relay_error + write_outcome)" where
  "validate_and_install url_parse ip_parse write_file io st entries =
     (case snapshot_from_entries url_parse ip_parse entries of
        Inl e \<Rightarrow> (st, Inl e)
      | Inr snap \<Rightarrow>
          (case save_entries_sync url_parse ip_parse write_file io (rm_disk st) entries of
             (d, Inl e) \<Rightarrow> (st\<lparr>rm_disk := d\<rparr>, Inl e)
           | (d, Inr outcome) \<Rightarrow>
               (rebuild_machine_limits (st\<lparr>rm_disk := d, rm_snapshot := snap\<rparr>), Inr outcome)))"

definition relay_import ::
  "(string \<Rightarrow> url option) \<Rightarrow> (string \<Rightarrow> ip_addr option) \<Rightarrow> (relay_entry list \<Rightarrow> string) \<Rightarrow> save_io \<Rightarrow>
   relay_manager \<Rightarrow> import_report \<Rightarrow> relay_manager \<times> (relay_error + write_outcome)" where
  "relay_import url_parse ip_parse write_file io st report =
     (case ensure_complete_import report of
        Inl e \<Rightarrow> (st, Inl e)
      | Inr _ \<Rightarrow> validate_and_install url_parse ip_parse write_file io st (ir_entries report))"

definition relay_upsert ::
  "(string \<Rightarrow> url option) \<Rightarrow> (string \<Rightarrow> ip_addr option) \<Rightarrow> (relay_entry list \<Rightarrow> string) \<Rightarrow> save_io \<Rightarrow>
   relay_manager \<Rightarrow> relay_entry \<Rightarrow> relay_manager \<times> (relay_error + write_outcome)" where
  "relay_upsert url_parse ip_parse write_file io st e =
     validate_and_install url_parse ip_parse write_file io st
       (map snd (bt_insert (re_machine_id e) e (rm_snapshot st)))"

definition relay_remove ::
  "(string \<Rightarrow> url option) \<Rightarrow> (string \<Rightarrow> ip_addr option) \<Rightarrow> (relay_entry list \<Rightarrow> string) \<Rightarrow> save_io \<Rightarrow>
   relay_manager \<Rightarrow> machine_id \<Rightarrow> relay_manager \<times> (relay_error + write_outcome)" where
  "relay_remove url_parse ip_parse write_file io st m =
     (if \<not> bt_contains (rm_snapshot st) m then (st, Inl UnknownMachine)
      else validate_and_install url_parse ip_parse write_file io st
        (map snd (bt_remove m (rm_snapshot st))))"

definition relay_set_disabled ::
  "(string \<Rightarrow> url option) \<Rightarrow> (string \<Rightarrow> ip_addr option) \<Rightarrow> (relay_entry list \<Rightarrow> string) \<Rightarrow> save_io \<Rightarrow>
   relay_manager \<Rightarrow> machine_id \<Rightarrow> bool \<Rightarrow> relay_manager \<times> (relay_error + write_outcome)" where
  "relay_set_disabled url_parse ip_parse write_file io st m disabled =
     (case map_of (rm_snapshot st) m of
        None \<Rightarrow> (st, Inl UnknownMachine)
      | Some e \<Rightarrow> validate_and_install url_parse ip_parse write_file io st
          (map snd (bt_insert m (e\<lparr>re_disabled := disabled\<rparr>) (rm_snapshot st))))"

text \<open>
  \<open>acquire_forward_permit\<close> in its two steps, between which other requests run: the global
  permit, then the machine's. A failed second step drops the global permit again.
\<close>

definition acquire_global :: "machine_id \<Rightarrow> relay_manager \<Rightarrow> relay_manager \<times> (relay_error + unit)" where
  "acquire_global m st =
     (if rm_global st = 0 then (st, Inl Overloaded)
      else (st\<lparr>rm_global := rm_global st - 1, rm_pending := m # rm_pending st\<rparr>, Inr ()))"

definition acquire_machine :: "machine_id \<Rightarrow> relay_manager \<Rightarrow> relay_manager \<times> (relay_error + nat)" where
  "acquire_machine m st =
     (case machine_limit m (st\<lparr>rm_pending := remove1 m (rm_pending st)\<rparr>) of
        (st', i) \<Rightarrow>
          if rm_sems st' ! i = 0 then (st'\<lparr>rm_global := rm_global st' + 1\<rparr>, Inl Overloaded)
          else (st'\<lparr>rm_sems := (rm_sems st')[i := rm_sems st' ! i - 1],
                    rm_held := (m, i) # rm_held st'\<rparr>, Inr i))"

definition acquire_forward_permit :: "machine_id \<Rightarrow> relay_manager \<Rightarrow> relay_manager \<times> (relay_error + nat)" where
  "acquire_forward_permit m st =
     (case acquire_global m st of
        (st', Inl e) \<Rightarrow> (st', Inl e)
      | (st', Inr _) \<Rightarrow> acquire_machine m st')"

definition release_permit :: "machine_id \<times> nat \<Rightarrow> relay_manager \<Rightarrow> relay_manager" where
  "release_permit p st =
     st\<lparr>rm_global := rm_global st + 1,
        rm_sems := (rm_sems st)[snd p := rm_sems st ! snd p + 1],
        rm_held := remove1 p (rm_held st)\<rparr>"

section \<open>Targets\<close>

text \<open>What a target that passed the checks looks like.\<close>

definition safe_target :: "(string \<Rightarrow> ip_addr option) \<Rightarrow> machine_id \<Rightarrow> url \<Rightarrow> bool" where
  "safe_target ip_parse m u =
     (url_scheme u = ''http'' \<and> url_username u = [] \<and> url_password u = None
      \<and> url_query u = None \<and> url_fragment u = None \<and> url_port u = Some 38935
      \<and> url_path u = ''/callback/'' @ m
      \<and> (case url_host_str u of
           None \<Rightarrow> False
         | Some h \<Rightarrow> (case ip_parse h of None \<Rightarrow> False | Some ip \<Rightarrow> is_tailscale_cgnat ip)))"

lemma relay_target_parse_iff:
  "relay_target_parse up ip m raw = Inr t \<longleftrightarrow>
     up raw = Some (rt_url t) \<and> t = \<lparr>rt_machine_id = m, rt_url = rt_url t\<rparr> \<and> safe_target ip m (rt_url t)"
  by (cases t) (auto simp: relay_target_parse_def safe_target_def split: option.splits if_splits)

lemma relay_target_parse_error: "relay_target_parse up ip m raw = Inl e \<Longrightarrow> e = InvalidTarget"
  by (auto simp: relay_target_parse_def split: option.splits if_splits)

lemma machine_id_parse_iff:
  "machine_id_parse v = Inr m \<longleftrightarrow>
     m = v \<and> v \<noteq> [] \<and> length v \<le> 64
     \<and> (\<forall>b\<in>set v. is_ascii_alphanumeric b \<or> b = CHR ''-'' \<or> b = CHR ''_'') \<and> trim v = v"
  by (auto simp: machine_id_parse_def Let_def list_all_iff)

section \<open>Snapshots\<close>

definition snap_ok :: "(string \<Rightarrow> url option) \<Rightarrow> (string \<Rightarrow> ip_addr option) \<Rightarrow> snapshot \<Rightarrow> bool" where
  "snap_ok up ip s =
     (bt_ok s \<and> list_all (\<lambda>(k, e). re_machine_id e = k \<and> is_ok (entry_target up ip e)) s)"

lemma snap_ok_Nil [simp]: "snap_ok up ip []"
  by (simp add: snap_ok_def bt_ok_def)

lemma snap_ok_insert:
  "snap_ok up ip s \<Longrightarrow> is_ok (entry_target up ip e) \<Longrightarrow> snap_ok up ip (bt_insert (re_machine_id e) e s)"
  using set_bt_insert [of "re_machine_id e" e s] by (auto simp: snap_ok_def list_all_iff bt.ok_ins)

lemma snapshot_loop_ok:
  "snap_ok up ip s \<Longrightarrow> snapshot_loop up ip s es = Inr s' \<Longrightarrow> snap_ok up ip s'"
proof (induction es arbitrary: s)
  case (Cons e es)
  then show ?case using snap_ok_insert [of up ip s e] by (auto simp: and_then_Inr)
qed simp

lemma snapshot_loop_eq:
  "snapshot_loop up ip s es =
     (if list_all (\<lambda>e. is_ok (entry_target up ip e)) es
      then Inr (foldl (\<lambda>m kv. bt_insert (fst kv) (snd kv) m) s (map (\<lambda>e. (re_machine_id e, e)) es))
      else Inl InvalidTarget)"
proof (induction es arbitrary: s)
  case (Cons e es)
  show ?case
  proof (cases "entry_target up ip e")
    case (Inl x)
    then have "x = InvalidTarget" using relay_target_parse_error by (auto simp: entry_target_def)
    with Inl show ?thesis by simp
  qed (simp add: Cons)
qed simp

lemma snapshot_from_entries_eq:
  "snapshot_from_entries up ip es =
     (if list_all (\<lambda>e. is_ok (entry_target up ip e)) es then Inr (snapshot_of es) else Inl InvalidTarget)"
  by (simp add: snapshot_from_entries_def snapshot_loop_eq snapshot_of_def)

lemma snapshot_of_lookup: "map_of (snapshot_of es) = map_of (rev (map (\<lambda>e. (re_machine_id e, e)) es))"
  by (simp add: snapshot_of_def bt.lookup_ins_all)

lemma bt_ok_snapshot_of: "bt_ok (snapshot_of es)"
  unfolding snapshot_of_def by (rule bt.ok_ins_all) (simp add: bt_ok_def)

lemma keyed_values: "list_all (\<lambda>(k, e). re_machine_id e = k) s \<Longrightarrow> map (\<lambda>e. (re_machine_id e, e)) (map snd s) = s"
  by (induction s) auto

lemma snapshot_of_values:
  assumes "bt_ok s" and "list_all (\<lambda>(k, e). re_machine_id e = k) s"
  shows "snapshot_of (map snd s) = s"
proof (rule bt.ok_ext)
  have "map_of (rev s) = map_of s"
    using bt_ok_distinct [OF assms(1)] by (intro map_of_inject_set [THEN iffD2]) (simp_all add: rev_map [symmetric])
  then show "map_of (snapshot_of (map snd s)) = map_of s"
    using keyed_values [OF assms(2)] by (simp only: snapshot_of_lookup)
qed (simp_all add: assms bt_ok_snapshot_of)

section \<open>Import\<close>

text \<open>The loop keeps a well-formed map, names exactly its keys, and loses no entry.\<close>

lemma import_entry_step:
  assumes "snap_ok up ip m" and "set acc = fst ` set m"
    and "import_entry up ip (acc, q, m) e = (acc', q', m')"
  shows "snap_ok up ip m'" and "set acc' = fst ` set m'"
    and "length acc' + length q' = Suc (length acc + length q)"
proof -
  consider (bad) x where "entry_target up ip e = Inl x"
    | (dup) t where "entry_target up ip e = Inr t" "bt_contains m (re_machine_id e)"
    | (new) t where "entry_target up ip e = Inr t" "\<not> bt_contains m (re_machine_id e)"
    by (cases "entry_target up ip e") auto
  then have "snap_ok up ip m' \<and> set acc' = fst ` set m' \<and> length acc' + length q' = Suc (length acc + length q)"
  proof cases
    case new
    then have "m' = bt_insert (re_machine_id e) e m" "acc' = acc @ [re_machine_id e]" "q' = q"
      using assms(3) by (auto simp: import_entry_def)
    with new assms(1,2) snap_ok_insert [of up ip m e] show ?thesis by (simp add: keys_bt_insert)
  qed (use assms in \<open>auto simp: import_entry_def\<close>)
  then show "snap_ok up ip m'" "set acc' = fst ` set m'"
    "length acc' + length q' = Suc (length acc + length q)" by auto
qed

lemma import_fold:
  assumes "snap_ok up ip m" and "set acc = fst ` set m"
    and "foldl (import_entry up ip) (acc, q, m) es = (acc', q', m')"
  shows "snap_ok up ip m' \<and> set acc' = fst ` set m'
    \<and> length acc' + length q' = length acc + length q + length es"
  using assms
proof (induction es arbitrary: acc q m)
  case (Cons e es)
  obtain a1 q1 m1 where step: "import_entry up ip (acc, q, m) e = (a1, q1, m1)"
    by (cases "import_entry up ip (acc, q, m) e") auto
  note s = import_entry_step [OF Cons.prems(1,2) step]
  from Cons.IH [OF s(1,2)] Cons.prems(3) step s(3) show ?case by simp
qed auto

lemma import_entries_snap_ok:
  "\<exists>m. snap_ok up ip m \<and> ir_entries (import_entries up ip es) = map snd m
     \<and> set (ir_accepted (import_entries up ip es)) = fst ` set m
     \<and> length (ir_accepted (import_entries up ip es)) + length (ir_quarantined (import_entries up ip es)) = length es"
proof -
  obtain acc q m where f: "foldl (import_entry up ip) ([], [], []) es = (acc, q, m)"
    by (cases "foldl (import_entry up ip) ([], [], []) es") auto
  show ?thesis
    using import_fold [OF _ _ f] by (auto simp: import_entries_def f)
qed

text \<open>A list of valid entries with distinct machine ids is accepted whole.\<close>

lemma import_fold_valid:
  assumes "list_all (\<lambda>e. is_ok (entry_target up ip e)) es" and "distinct (map re_machine_id es)"
    and "re_machine_id ` set es \<inter> dom (map_of m) = {}"
  shows "foldl (import_entry up ip) (acc, q, m) es =
    (acc @ map re_machine_id es, q,
     foldl (\<lambda>m kv. bt_insert (fst kv) (snd kv) m) m (map (\<lambda>e. (re_machine_id e, e)) es))"
  using assms
proof (induction es arbitrary: acc m)
  case (Cons e es)
  then obtain t where "entry_target up ip e = Inr t" by auto
  moreover have "\<not> bt_contains m (re_machine_id e)" using Cons.prems(3) by (auto simp: bt_contains_def)
  ultimately have step: "import_entry up ip (acc, q, m) e
      = (acc @ [re_machine_id e], q, bt_insert (re_machine_id e) e m)"
    by (simp add: import_entry_def)
  have "re_machine_id ` set es \<inter> dom (map_of (bt_insert (re_machine_id e) e m)) = {}"
    using Cons.prems(2,3) by (auto simp: map_of_bt_insert)
  with Cons step show ?case by simp
qed simp

lemma import_entries_valid:
  assumes "list_all (\<lambda>e. is_ok (entry_target up ip e)) es" and "distinct (map re_machine_id es)"
  shows "import_entries up ip es =
    \<lparr>ir_accepted = map re_machine_id es, ir_quarantined = [], ir_entries = map snd (snapshot_of es)\<rparr>"
  using import_fold_valid [OF assms, of "[]" "[]" "[]"] by (simp add: import_entries_def snapshot_of_def)

lemma snap_ok_values:
  assumes "snap_ok up ip s"
  shows "list_all (\<lambda>e. is_ok (entry_target up ip e)) (map snd s)"
    and "distinct (map re_machine_id (map snd s))"
    and "snapshot_of (map snd s) = s"
proof -
  have k: "list_all (\<lambda>(k, e). re_machine_id e = k) s" and b: "bt_ok s"
    using assms by (auto simp: snap_ok_def list_all_iff)
  show "list_all (\<lambda>e. is_ok (entry_target up ip e)) (map snd s)"
    using assms by (auto simp: snap_ok_def list_all_iff)
  have "map re_machine_id (map snd s) = map fst s"
    using k by (auto simp: list_all_iff)
  then show "distinct (map re_machine_id (map snd s))" using b bt_ok_distinct by metis
  show "snapshot_of (map snd s) = s" by (rule snapshot_of_values [OF b k])
qed

lemma import_snapshot:
  "snap_ok up ip s \<Longrightarrow> import_entries up ip (map snd s)
     = \<lparr>ir_accepted = map re_machine_id (map snd s), ir_quarantined = [], ir_entries = map snd s\<rparr>"
  by (simp only: import_entries_valid snap_ok_values)

section \<open>Runs of the manager\<close>

datatype relay_event =
    EvUpsert save_io relay_entry
  | EvRemove save_io machine_id
  | EvSetDisabled save_io machine_id bool
  | EvImport save_io import_report
  | EvAcquireGlobal machine_id
  | EvAcquireMachine machine_id
  | EvRelease "machine_id \<times> nat"

text \<open>
  A mutation runs under the mutation lock, so it is one step. An acquisition's second step
  needs its first, and only a held permit is released.
\<close>

fun relay_step ::
  "(string \<Rightarrow> url option) \<Rightarrow> (string \<Rightarrow> ip_addr option) \<Rightarrow> (relay_entry list \<Rightarrow> string) \<Rightarrow>
   relay_manager \<Rightarrow> relay_event \<Rightarrow> relay_manager" where
  "relay_step up ip wr st (EvUpsert io e) = fst (relay_upsert up ip wr io st e)"
| "relay_step up ip wr st (EvRemove io m) = fst (relay_remove up ip wr io st m)"
| "relay_step up ip wr st (EvSetDisabled io m b) = fst (relay_set_disabled up ip wr io st m b)"
| "relay_step up ip wr st (EvImport io r) = fst (relay_import up ip wr io st r)"
| "relay_step up ip wr st (EvAcquireGlobal m) = fst (acquire_global m st)"
| "relay_step up ip wr st (EvAcquireMachine m) =
     (if List.member (rm_pending st) m then fst (acquire_machine m st) else st)"
| "relay_step up ip wr st (EvRelease p) =
     (if List.member (rm_held st) p then release_permit p st else st)"

definition relay_run ::
  "(string \<Rightarrow> url option) \<Rightarrow> (string \<Rightarrow> ip_addr option) \<Rightarrow> (relay_entry list \<Rightarrow> string) \<Rightarrow>
   relay_manager \<Rightarrow> relay_event list \<Rightarrow> relay_manager" where
  "relay_run up ip wr st evs = foldl (relay_step up ip wr) st evs"

definition held_by :: "relay_manager \<Rightarrow> machine_id \<Rightarrow> nat" where
  "held_by st m = length (filter (\<lambda>p. fst p = m) (rm_held st))"

definition permits_ok :: "relay_manager \<Rightarrow> bool" where
  "permits_ok st =
     (rm_global st + length (rm_pending st) + length (rm_held st) = PUBLIC_GLOBAL_CONCURRENCY
      \<and> (\<forall>i<length (rm_sems st).
           rm_sems st ! i + length (filter (\<lambda>p. snd p = i) (rm_held st)) = PUBLIC_PER_MACHINE_CONCURRENCY)
      \<and> (\<forall>p\<in>set (rm_held st). snd p < length (rm_sems st))
      \<and> (\<forall>p\<in>set (rm_limits st). snd p < length (rm_sems st)))"

lemma permits_okI:
  assumes "rm_global st + length (rm_pending st) + length (rm_held st) = PUBLIC_GLOBAL_CONCURRENCY"
    and "\<And>i. i < length (rm_sems st) \<Longrightarrow>
      rm_sems st ! i + length (filter (\<lambda>p. snd p = i) (rm_held st)) = PUBLIC_PER_MACHINE_CONCURRENCY"
    and "\<And>p. p \<in> set (rm_held st) \<Longrightarrow> snd p < length (rm_sems st)"
    and "\<And>p. p \<in> set (rm_limits st) \<Longrightarrow> snd p < length (rm_sems st)"
  shows "permits_ok st"
  using assms by (simp add: permits_ok_def)

lemma length_remove1_in: "x \<in> set xs \<Longrightarrow> Suc (length (remove1 x xs)) = length xs"
  by (induction xs) auto

lemma length_filter_remove1:
  "x \<in> set xs \<Longrightarrow> length (filter P xs) = length (filter P (remove1 x xs)) + (if P x then 1 else 0)"
  by (induction xs) auto

lemma new_limit_permits: "permits_ok st \<Longrightarrow> permits_ok (new_limit m st)"
proof -
  assume ok: "permits_ok st"
  then have "filter (\<lambda>p. snd p = length (rm_sems st)) (rm_held st) = []"
    by (auto simp: permits_ok_def filter_empty_conv)
  with ok set_bt_insert [of m "length (rm_sems st)" "rm_limits st"] show ?thesis
    by (fastforce simp: permits_ok_def new_limit_def nth_append less_Suc_eq)
qed

lemma machine_limit_permits: "permits_ok st \<Longrightarrow> permits_ok (fst (machine_limit m st))"
  by (auto simp: machine_limit_def intro: new_limit_permits split: option.splits)

lemma machine_limit_index:
  "permits_ok st \<Longrightarrow> snd (machine_limit m st) < length (rm_sems (fst (machine_limit m st)))"
  by (auto simp: machine_limit_def new_limit_def permits_ok_def dest!: map_of_SomeD split: option.splits)

lemma limits_fold_permits: "permits_ok st \<Longrightarrow> permits_ok (foldl (\<lambda>s m. fst (machine_limit m s)) st ms)"
  by (induction ms arbitrary: st) (auto intro: machine_limit_permits)

lemma machine_limit_frame:
  "rm_disk (fst (machine_limit m st)) = rm_disk st"
  "rm_snapshot (fst (machine_limit m st)) = rm_snapshot st"
  "rm_held (fst (machine_limit m st)) = rm_held st"
  "rm_pending (fst (machine_limit m st)) = rm_pending st"
  "rm_global (fst (machine_limit m st)) = rm_global st"
  by (auto simp: machine_limit_def new_limit_def split: option.splits)

lemma limits_fold_frame:
  "rm_disk (foldl (\<lambda>s m. fst (machine_limit m s)) st ms) = rm_disk st"
  "rm_snapshot (foldl (\<lambda>s m. fst (machine_limit m s)) st ms) = rm_snapshot st"
  "rm_held (foldl (\<lambda>s m. fst (machine_limit m s)) st ms) = rm_held st"
  by (induction ms arbitrary: st) (auto simp: machine_limit_frame)

lemma rebuild_permits: "permits_ok st \<Longrightarrow> permits_ok (rebuild_machine_limits st)"
  unfolding rebuild_machine_limits_def Let_def
  by (rule limits_fold_permits) (auto simp: permits_ok_def)

lemma rebuild_frame [simp]:
  "rm_disk (rebuild_machine_limits st) = rm_disk st"
  "rm_snapshot (rebuild_machine_limits st) = rm_snapshot st"
  "rm_held (rebuild_machine_limits st) = rm_held st"
  by (simp_all add: rebuild_machine_limits_def Let_def limits_fold_frame)

lemma acquire_global_permits: "permits_ok st \<Longrightarrow> permits_ok (fst (acquire_global m st))"
  by (auto simp: acquire_global_def permits_ok_def)

lemma machine_limit_global:
  "machine_limit m (st\<lparr>rm_global := g\<rparr>) = ((fst (machine_limit m st))\<lparr>rm_global := g\<rparr>, snd (machine_limit m st))"
  by (cases st; cases "map_of (rm_limits st) m") (simp_all add: machine_limit_def new_limit_def)

lemma acquire_machine_permits:
  assumes "permits_ok st" and "m \<in> set (rm_pending st)"
  shows "permits_ok (fst (acquire_machine m st))"
proof -
  let ?before = "st\<lparr>rm_pending := remove1 m (rm_pending st), rm_global := rm_global st + 1\<rparr>"
  let ?st = "st\<lparr>rm_pending := remove1 m (rm_pending st)\<rparr>"
  obtain st1 i where lim: "machine_limit m ?st = (st1, i)" by force
  have "(rm_global st + 1) + length (remove1 m (rm_pending st)) + length (rm_held st) = PUBLIC_GLOBAL_CONCURRENCY"
    using assms(1) length_remove1_in [OF assms(2)] unfolding permits_ok_def by linarith
  then have "rm_global ?before + length (rm_pending ?before) + length (rm_held ?before) = PUBLIC_GLOBAL_CONCURRENCY"
    by simp
  then have "permits_ok ?before"
    by (rule permits_okI) (use assms(1) in \<open>simp_all add: permits_ok_def\<close>)
  moreover have "machine_limit m ?before = (st1\<lparr>rm_global := rm_global st1 + 1\<rparr>, i)"
    using machine_limit_global [where st = ?st and m = m and g = "rm_global st + 1"] machine_limit_frame(5) [where st = ?st and m = m] lim by simp
  ultimately have ok: "permits_ok (st1\<lparr>rm_global := rm_global st1 + 1\<rparr>)" and i: "i < length (rm_sems st1)"
    using machine_limit_permits [of ?before m] machine_limit_index [of ?before m] by simp_all
  show ?thesis
  proof (cases "rm_sems st1 ! i = 0")
    case True
    with ok lim show ?thesis by (simp add: acquire_machine_def)
  next
    case False
    with ok i show ?thesis
      by (auto simp: acquire_machine_def lim permits_ok_def nth_list_update)
  qed
qed

lemma release_permits:
  assumes "permits_ok st" and "p \<in> set (rm_held st)"
  shows "permits_ok (release_permit p st)"
proof -
  have i: "snd p < length (rm_sems st)" using assms by (auto simp: permits_ok_def)
  note len = length_remove1_in [OF assms(2)]
  have cnt: "length (filter (\<lambda>q. snd q = j) (rm_held st))
      = length (filter (\<lambda>q. snd q = j) (remove1 p (rm_held st))) + (if snd p = j then 1 else 0)" for j
    by (rule length_filter_remove1 [OF assms(2)])
  have "rm_global st + length (rm_pending st) + length (rm_held st) = PUBLIC_GLOBAL_CONCURRENCY"
    and sems: "\<And>j. j < length (rm_sems st) \<Longrightarrow>
      rm_sems st ! j + length (filter (\<lambda>q. snd q = j) (rm_held st)) = PUBLIC_PER_MACHINE_CONCURRENCY"
    using assms(1) by (auto simp: permits_ok_def)
  moreover have "(rm_sems st)[snd p := rm_sems st ! snd p + 1] ! j
      + length (filter (\<lambda>q. snd q = j) (remove1 p (rm_held st))) = PUBLIC_PER_MACHINE_CONCURRENCY"
    if "j < length (rm_sems st)" for j
    using sems [OF that] cnt [of j] i by (auto simp: nth_list_update)
  moreover have "\<forall>q\<in>set (remove1 p (rm_held st)). snd q < length (rm_sems st)"
    using assms(1) set_remove1_subset [of p "rm_held st"] by (auto simp: permits_ok_def)
  ultimately show ?thesis
    using assms(1) len by (simp add: permits_ok_def release_permit_def del: length_remove1)
qed

lemma validate_and_install_cases:
  obtains (rejected) e where "validate_and_install up ip wr io st es = (st, Inl e)"
    | (failed) d e where "validate_and_install up ip wr io st es = (st\<lparr>rm_disk := d\<rparr>, Inl e)"
    | (installed) d s out where
        "validate_and_install up ip wr io st es
           = (rebuild_machine_limits (st\<lparr>rm_disk := d, rm_snapshot := s\<rparr>), Inr out)"
        "snapshot_from_entries up ip es = Inr s"
        "save_entries_sync up ip wr io (rm_disk st) es = (d, Inr out)"
proof (cases "snapshot_from_entries up ip es")
  case (Inl e)
  then show ?thesis using rejected by (simp add: validate_and_install_def)
next
  case (Inr s)
  obtain d r where sv: "save_entries_sync up ip wr io (rm_disk st) es = (d, r)" by force
  show ?thesis
  proof (cases r)
    case (Inl e)
    with Inr sv show ?thesis using failed by (simp add: validate_and_install_def)
  next
    case (Inr out)
    with \<open>snapshot_from_entries up ip es = Inr s\<close> sv show ?thesis
      using installed by (simp add: validate_and_install_def)
  qed
qed

definition manager_ok :: "(string \<Rightarrow> url option) \<Rightarrow> (string \<Rightarrow> ip_addr option) \<Rightarrow> relay_manager \<Rightarrow> bool" where
  "manager_ok up ip st = (snap_ok up ip (rm_snapshot st) \<and> permits_ok st)"

lemma install_ok:
  assumes "manager_ok up ip st"
  shows "manager_ok up ip (fst (validate_and_install up ip wr io st es))"
proof (cases rule: validate_and_install_cases [of up ip wr io st es])
  case (installed d s out)
  have "snap_ok up ip s"
    using installed(2) snapshot_loop_ok [of up ip "[]" es s] by (simp add: snapshot_from_entries_def)
  moreover have "permits_ok (st\<lparr>rm_disk := d, rm_snapshot := s\<rparr>)"
    using assms by (simp add: manager_ok_def permits_ok_def)
  ultimately show ?thesis
    using installed(1) by (simp add: manager_ok_def rebuild_permits)
qed (use assms in \<open>auto simp: manager_ok_def permits_ok_def\<close>)

lemma permit_steps_snapshot [simp]:
  "rm_snapshot (fst (acquire_global m st)) = rm_snapshot st"
  "rm_snapshot (fst (acquire_machine m st)) = rm_snapshot st"
  "rm_snapshot (release_permit p st) = rm_snapshot st"
  by (auto simp: acquire_global_def acquire_machine_def release_permit_def machine_limit_def
      new_limit_def split: option.splits)

lemmas mutation_defs = relay_upsert_def relay_remove_def relay_set_disabled_def relay_import_def

lemma relay_step_ok:
  assumes "manager_ok up ip st"
  shows "manager_ok up ip (relay_step up ip wr st ev)"
proof (cases ev)
  case (EvAcquireGlobal m)
  with assms show ?thesis by (simp add: manager_ok_def acquire_global_permits)
next
  case (EvAcquireMachine m)
  with assms show ?thesis by (simp add: manager_ok_def acquire_machine_permits)
next
  case (EvRelease p)
  with assms show ?thesis by (simp add: manager_ok_def release_permits)
qed (use assms install_ok in \<open>simp_all add: mutation_defs split: option.splits sum.splits\<close>)

lemma relay_run_ok: "manager_ok up ip st \<Longrightarrow> manager_ok up ip (relay_run up ip wr st evs)"
  unfolding relay_run_def by (induction evs arbitrary: st) (auto intro: relay_step_ok)

section \<open>Loading\<close>

lemma with_quarantine_entries [simp]: "ir_entries (with_quarantine q r) = ir_entries r"
  by (simp add: with_quarantine_def)

lemma parse_entries_snap_ok:
  assumes "parse_registry_value up ip v = Inr r"
  shows "\<exists>m. snap_ok up ip m \<and> ir_entries r = map snd m"
proof -
  have "\<exists>es. ir_entries r = ir_entries (import_entries up ip es)"
    using assms
    by (cases v) (auto simp: parse_array_shape_def parse_object_shape_def Let_def
        split: option.splits json.splits bool.splits if_splits)
  then show ?thesis using import_entries_snap_ok by metis
qed

lemma load_snapshot_ok: "load_snapshot_sync up ip fs d = Inr s \<Longrightarrow> snap_ok up ip s"
proof (cases "dk_file d")
  case (Some raw)
  assume "load_snapshot_sync up ip fs d = Inr s"
  then obtain v r where "parse_registry_value up ip v = Inr r" "s = snapshot_of (ir_entries r)"
    using Some by (auto simp: load_snapshot_sync_def parse_standalone_registry_def and_then_Inr split: if_splits)
  then show ?thesis using parse_entries_snap_ok snap_ok_values(3) by metis
qed (simp add: load_snapshot_sync_def)

lemma relay_load_ok: "relay_load up ip fs d = Inr st \<Longrightarrow> manager_ok up ip st"
  by (auto simp: relay_load_def and_then_Inr manager_ok_def dest: load_snapshot_ok
      intro!: rebuild_permits permits_okI)

text \<open>An import without quarantine accepted every entry, so it lists what the snapshot holds.\<close>

lemma import_entry_q: "\<exists>r. fst (snd (import_entry up ip (acc, q, m) e)) = q @ r"
  by (auto simp: import_entry_def split: sum.splits)

lemma import_fold_q: "\<exists>r. fst (snd (foldl (import_entry up ip) (acc, q, m) es)) = q @ r"
proof (induction es arbitrary: acc q m)
  case (Cons e es)
  obtain a1 q1 m1 where st: "import_entry up ip (acc, q, m) e = (a1, q1, m1)"
    by (cases "import_entry up ip (acc, q, m) e") auto
  then show ?case using Cons [of a1 q1 m1] import_entry_q [of up ip acc q m e] by auto
qed simp

lemma import_fold_clean:
  assumes "foldl (import_entry up ip) (acc, [], m) es = (acc', [], m')"
  shows "list_all (\<lambda>e. is_ok (entry_target up ip e)) es \<and> distinct (map re_machine_id es)
    \<and> re_machine_id ` set es \<inter> dom (map_of m) = {}"
  using assms
proof (induction es arbitrary: acc m)
  case (Cons e es)
  obtain a1 q1 m1 where st: "import_entry up ip (acc, [], m) e = (a1, q1, m1)"
    by (cases "import_entry up ip (acc, [], m) e") auto
  have "q1 = []" using Cons.prems st import_fold_q [of up ip a1 q1 m1 es] by auto
  with st have new: "is_ok (entry_target up ip e)" "\<not> bt_contains m (re_machine_id e)"
      "m1 = bt_insert (re_machine_id e) e m"
    by (auto simp: import_entry_def split: sum.splits if_splits)
  have "list_all (\<lambda>e. is_ok (entry_target up ip e)) es \<and> distinct (map re_machine_id es)
      \<and> re_machine_id ` set es \<inter> dom (map_of m1) = {}"
    using Cons st \<open>q1 = []\<close> by simp
  with new show ?case by (auto simp: map_of_bt_insert bt_contains_def)
qed simp

lemma import_clean:
  assumes "ir_quarantined (import_entries up ip es) = []"
  shows "ir_entries (import_entries up ip es) = map snd (snapshot_of es)"
proof -
  obtain acc q m where f: "foldl (import_entry up ip) ([], [], []) es = (acc, q, m)"
    by (cases "foldl (import_entry up ip) ([], [], []) es") auto
  with assms have "q = []" by (simp add: import_entries_def)
  with f import_fold_clean [of up ip "[]" "[]" es acc m]
  have "list_all (\<lambda>e. is_ok (entry_target up ip e)) es" "distinct (map re_machine_id es)" by blast+
  then show ?thesis by (simp only: import_entries_valid import_report.simps)
qed

section \<open>Round trip through the file\<close>

text \<open>What serde_json reads back from a saved registry: object keys come in ascending order.\<close>

definition entry_value :: "relay_entry \<Rightarrow> json" where
  "entry_value e = JObject
     [(''description'', case re_description e of None \<Rightarrow> JNull | Some d \<Rightarrow> JString d),
      (''disabled'', JBool (re_disabled e)),
      (''machine_id'', JString (re_machine_id e)),
      (''target_url'', JString (re_target_url e))]"

definition registry_file_value :: "relay_entry list \<Rightarrow> json" where
  "registry_file_value es =
     JObject [(''entries'', JArray (map entry_value es)), (''version'', JNumber ''1'')]"

lemma entry_from_entry_value:
  "machine_id_parse (re_machine_id e) = Inr (re_machine_id e) \<Longrightarrow> entry_from_value (entry_value e) = Some e"
  by (cases e) (auto simp: entry_value_def de_entry_def split: option.splits)

lemma parse_registry_file_value:
  assumes "snap_ok up ip s" and "\<And>e. e \<in> set (map snd s) \<Longrightarrow> machine_id_parse (re_machine_id e) = Inr (re_machine_id e)"
  shows "parse_registry_value up ip (registry_file_value (map snd s))
    = Inr \<lparr>ir_accepted = map re_machine_id (map snd s), ir_quarantined = [], ir_entries = map snd s\<rparr>"
proof -
  have all: "map entry_from_value (map entry_value (map snd s)) = map Some (map snd s)"
    using assms(2) entry_from_entry_value by auto
  have "filter (\<lambda>item. entry_from_value item = None) (map entry_value (map snd s)) = []"
    using all by (auto simp: filter_empty_conv map_eq_conv)
  moreover have "List.map_filter entry_from_value (map entry_value es) = es"
    if "map entry_from_value (map entry_value es) = map Some es" for es
    using that by (induction es) (auto simp: List.map_filter_simps)
  note this [OF all]
  moreover have "is_ascii_digit (CHR ''1'')" "decimal ''1'' = 1" by code_simp+
  ultimately show ?thesis
    by (simp add: registry_file_value_def parse_object_shape_def parse_array_shape_def
        REGISTRY_FILE_VERSION_def import_snapshot [OF assms(1)] with_quarantine_def)
qed

lemma save_writes:
  "save_entries_sync up ip wr io d es = (d', Inr out) \<Longrightarrow>
     dk_file d' = Some (wr (map snd (snapshot_of es)) @ [CHR 0x0A])"
  by (auto simp: save_entries_sync_def Let_def write_bytes_atomic_def import_clean
      split: prod.splits sum.splits if_splits)

lemma save_failed_file:
  assumes "save_entries_sync up ip wr io d es = (d', Inl e)" and "io_sync_parent io"
  shows "dk_file d' = dk_file d"
proof -
  have "dk_file (fst (backup_and_prune io d)) = dk_file d"
    by (auto simp: backup_and_prune_def create_backup_def prune_old_backups_def Let_def split: option.splits)
  with assms show ?thesis
    by (auto simp: save_entries_sync_def Let_def write_bytes_atomic_def split: prod.splits sum.splits if_splits)
qed

section \<open>The per-machine limit\<close>

text \<open>Runs in which no machine leaves the registry and permits are taken for registered machines only.\<close>

fun keeps_machines :: "machine_id list \<Rightarrow> relay_event \<Rightarrow> bool" where
  "keeps_machines ms (EvRemove io m) = False"
| "keeps_machines ms (EvImport io r) = False"
| "keeps_machines ms (EvAcquireGlobal m) = List.member ms m"
| "keeps_machines ms _ = True"

definition tracked :: "machine_id list \<Rightarrow> relay_manager \<Rightarrow> bool" where
  "tracked ms st =
     (set ms \<subseteq> dom (map_of (rm_snapshot st)) \<and> set (rm_pending st) \<subseteq> set ms
      \<and> (\<forall>p\<in>set (rm_held st). fst p \<in> set ms \<and> map_of (rm_limits st) (fst p) = Some (snd p)))"

lemma machine_limit_keeps:
  "map_of (rm_limits st) k = Some i \<Longrightarrow> map_of (rm_limits (fst (machine_limit m st))) k = Some i"
  by (auto simp: machine_limit_def new_limit_def map_of_bt_insert split: option.splits)

lemma limits_fold_keeps:
  "map_of (rm_limits st) k = Some i \<Longrightarrow>
     map_of (rm_limits (foldl (\<lambda>s m. fst (machine_limit m s)) st ms)) k = Some i"
  by (induction ms arbitrary: st) (auto intro: machine_limit_keeps)

lemma limits_fold_pending: "rm_pending (foldl (\<lambda>s m. fst (machine_limit m s)) st ms) = rm_pending st"
  by (induction ms arbitrary: st) (auto simp: machine_limit_frame)

lemma rebuild_tracked:
  assumes "tracked ms st" and "set ms \<subseteq> dom (map_of s)"
  shows "tracked ms (rebuild_machine_limits (st\<lparr>rm_disk := d, rm_snapshot := s\<rparr>))"
proof -
  have "map_of (rm_limits (rebuild_machine_limits (st\<lparr>rm_disk := d, rm_snapshot := s\<rparr>))) (fst p) = Some (snd p)"
    if "p \<in> set (rm_held st)" for p
    using that assms unfolding rebuild_machine_limits_def Let_def
    by (intro limits_fold_keeps) (auto simp: tracked_def map_of_filter_key bt_contains_def)
  with assms show ?thesis
    by (auto simp: tracked_def rebuild_machine_limits_def Let_def limits_fold_frame limits_fold_pending)
qed

lemma install_tracked:
  assumes "tracked ms st" and "set ms \<subseteq> re_machine_id ` set es"
  shows "tracked ms (fst (validate_and_install up ip wr io st es))"
proof (cases rule: validate_and_install_cases [of up ip wr io st es])
  case (installed d s out)
  then have "s = snapshot_of es" by (simp add: snapshot_from_entries_eq split: if_splits)
  then have "dom (map_of s) = re_machine_id ` set es"
    by (force simp: snapshot_of_lookup dom_map_of_conv_image_fst)
  then show ?thesis using installed(1) rebuild_tracked [OF assms(1), of s d] assms(2) by simp
qed (use assms in \<open>auto simp: tracked_def\<close>)

lemma insert_covers:
  assumes "snap_ok up ip s" and "re_machine_id e = k"
  shows "dom (map_of s) \<subseteq> re_machine_id ` set (map snd (bt_insert k e s))"
proof
  fix m assume "m \<in> dom (map_of s)"
  then have "map_of (bt_insert k e s) m \<noteq> None" by (auto simp: map_of_bt_insert)
  then obtain x where "(m, x) \<in> set (bt_insert k e s)" by (auto dest: map_of_SomeD)
  moreover have "\<forall>(k', x)\<in>set (bt_insert k e s). re_machine_id x = k'"
    using assms set_bt_insert [of k e s] by (auto simp: snap_ok_def list_all_iff)
  ultimately show "m \<in> re_machine_id ` set (map snd (bt_insert k e s))" by force
qed

lemma install_insert_tracked:
  assumes "tracked ms st" and "snap_ok up ip (rm_snapshot st)" and "re_machine_id e = k"
  shows "tracked ms (fst (validate_and_install up ip wr io st (map snd (bt_insert k e (rm_snapshot st)))))"
proof (rule install_tracked [OF assms(1)])
  have "set ms \<subseteq> dom (map_of (rm_snapshot st))" using assms(1) by (simp add: tracked_def)
  then show "set ms \<subseteq> re_machine_id ` set (map snd (bt_insert k e (rm_snapshot st)))"
    using insert_covers [OF assms(2,3)] by blast
qed

lemma snap_ok_lookup: "snap_ok up ip s \<Longrightarrow> map_of s m = Some e \<Longrightarrow> re_machine_id e = m \<and> is_ok (entry_target up ip e)"
  by (auto simp: snap_ok_def list_all_iff dest!: map_of_SomeD)

lemma tracked_step:
  assumes "tracked ms st" and "manager_ok up ip st" and "keeps_machines ms ev"
  shows "tracked ms (relay_step up ip wr st ev)"
proof (cases ev)
  case (EvUpsert io e)
  then show ?thesis
    using assms(1,2) install_insert_tracked by (simp add: relay_upsert_def manager_ok_def)
next
  case (EvSetDisabled io m b)
  show ?thesis
  proof (cases "map_of (rm_snapshot st) m")
    case (Some e)
    then have "re_machine_id (e\<lparr>re_disabled := b\<rparr>) = m"
      using assms(2) snap_ok_lookup by (auto simp: manager_ok_def)
    then show ?thesis
      using EvSetDisabled Some assms(1,2) install_insert_tracked
      by (simp add: relay_set_disabled_def manager_ok_def)
  qed (use EvSetDisabled assms(1) in \<open>simp add: relay_set_disabled_def\<close>)
next
  case (EvAcquireMachine m)
  then show ?thesis
    using assms notin_set_remove1
    by (auto simp: tracked_def acquire_machine_def machine_limit_def new_limit_def map_of_bt_insert
        split: option.splits dest: notin_set_remove1)
next
  case (EvRelease p)
  then show ?thesis
    using assms set_remove1_subset [of p "rm_held st"] by (auto simp: tracked_def release_permit_def)
qed (use assms in \<open>auto simp: tracked_def acquire_global_def\<close>)

lemma tracked_run:
  "tracked ms st \<Longrightarrow> manager_ok up ip st \<Longrightarrow> list_all (keeps_machines ms) evs \<Longrightarrow>
     tracked ms (relay_run up ip wr st evs)"
  unfolding relay_run_def
  by (induction evs arbitrary: st) (auto intro: tracked_step relay_step_ok)

lemma tracked_limit:
  assumes "tracked ms st" and "permits_ok st"
  shows "held_by st m \<le> PUBLIC_PER_MACHINE_CONCURRENCY"
proof (cases "filter (\<lambda>p. fst p = m) (rm_held st)")
  case (Cons p ps)
  then have p: "p \<in> set (rm_held st)" "fst p = m" by (auto simp: filter_eq_Cons_iff)
  have "snd q = snd p" if "q \<in> set (rm_held st)" "fst q = m" for q
    using assms(1) p that by (metis option.inject tracked_def)
  then have "filter (\<lambda>q. fst q = m) (rm_held st) = filter (\<lambda>q. fst q = m) (filter (\<lambda>q. snd q = snd p) (rm_held st))"
    by (auto simp: filter_filter cong: filter_cong intro!: filter_cong)
  then have "held_by st m \<le> length (filter (\<lambda>q. snd q = snd p) (rm_held st))"
    unfolding held_by_def by (metis length_filter_le)
  moreover have "rm_sems st ! snd p + length (filter (\<lambda>q. snd q = snd p) (rm_held st))
      = PUBLIC_PER_MACHINE_CONCURRENCY"
    using assms(2) p by (auto simp: permits_ok_def)
  ultimately show ?thesis by linarith
qed (simp add: held_by_def)

section \<open>Properties\<close>

text \<open>A sample environment for the witnesses: one machine, saved and loaded through fixed parsers.\<close>

definition sample_target_url :: string where
  "sample_target_url = ''http://100.64.0.1:38935/callback/m''"

definition sample_url :: url where
  "sample_url =
     \<lparr>url_scheme = ''http'', url_username = [], url_password = None, url_host = Some (HostV4 (Ipv4 100 64 0 1)),
      url_host_str = Some ''100.64.0.1'', url_port = Some 38935, url_path = ''/callback/m'',
      url_query = None, url_fragment = None\<rparr>"

definition sample_url_parse :: "string \<Rightarrow> url option" where
  "sample_url_parse s = (if s = sample_target_url then Some sample_url else None)"

definition sample_ip_parse :: "string \<Rightarrow> ip_addr option" where
  "sample_ip_parse s = (if s = ''100.64.0.1'' then Some (V4 (Ipv4 100 64 0 1)) else None)"

definition sample_entry :: relay_entry where
  "sample_entry = \<lparr>re_machine_id = ''m'', re_target_url = sample_target_url, re_description = None, re_disabled = False\<rparr>"

definition sample_io :: "nat \<Rightarrow> save_io" where
  "sample_io t = \<lparr>io_parent = True, io_mkdir = True, io_now = t, io_pid = 7, io_backup_open = True,
     io_backup_copy = True, io_list = True, io_remove = (\<lambda>_. True), io_write = True, io_sync_parent = True\<rparr>"

definition sample_disk :: disk where
  "sample_disk = \<lparr>dk_file = None, dk_backups = []\<rparr>"

definition sample_manager :: relay_manager where
  "sample_manager = \<lparr>rm_disk = sample_disk, rm_snapshot = [], rm_global = 32, rm_limits = [], rm_sems = [],
     rm_pending = [], rm_held = []\<rparr>"

definition sample_from_str :: "string \<Rightarrow> json option" where
  "sample_from_str s = (if s = ''saved'' @ [CHR 0x0A] then Some (registry_file_value [sample_entry]) else None)"

definition sample_write :: "relay_entry list \<Rightarrow> string" where
  "sample_write es = (if es = [sample_entry] then ''saved'' else [])"

lemma sample_target: "entry_target sample_url_parse sample_ip_parse sample_entry
    = Inr \<lparr>rt_machine_id = ''m'', rt_url = sample_url\<rparr>"
  by (simp add: entry_target_def relay_target_parse_def sample_entry_def sample_url_parse_def
      sample_ip_parse_def sample_url_def)

lemma sample_entry_id [simp]: "re_machine_id sample_entry = ''m''" "re_disabled sample_entry = False"
  by (simp_all add: sample_entry_def)

lemma sample_install:
  "validate_and_install sample_url_parse sample_ip_parse sample_write (sample_io t)
     (st\<lparr>rm_disk := \<lparr>dk_file = None, dk_backups = []\<rparr>\<rparr>) [sample_entry]
   = (rebuild_machine_limits (st\<lparr>rm_disk := \<lparr>dk_file = Some (''saved'' @ [CHR 0x0A]), dk_backups = []\<rparr>,
        rm_snapshot := [(''m'', sample_entry)]\<rparr>), Inr \<lparr>wo_backup = None, wo_entry_count = 1\<rparr>)"
  by (simp add: validate_and_install_def snapshot_from_entries_def sample_target save_entries_sync_def
      import_entries_def import_entry_def bt_contains_def sample_io_def backup_and_prune_def
      write_bytes_atomic_def sample_write_def)

lemma sample_load: "relay_load sample_url_parse sample_ip_parse sample_from_str sample_disk = Inr sample_manager"
  by code_simp

text \<open>
  C15. In every state the relay reaches from its start, whatever mutations, failures and
  interleaved permit requests happened, every registered machine has a valid target under
  its own id, at most 32 requests hold or are about to take a permit, and at most two hold
  one from the same semaphore.
\<close>

theorem relay_run_invariant:
  assumes "relay_load up ip fs d = Inr st"
  shows "(let st' = relay_run up ip wr st evs in
      (map_of (rm_snapshot st') m = Some e \<longrightarrow>
         re_machine_id e = m \<and> (\<exists>t. entry_target up ip e = Inr t \<and> safe_target ip m (rt_url t)))
      \<and> length (rm_held st') + length (rm_pending st') \<le> 32
      \<and> length (filter (\<lambda>p. snd p = i) (rm_held st')) \<le> 2)"
proof -
  let ?st = "relay_run up ip wr st evs"
  have ok: "snap_ok up ip (rm_snapshot ?st)" "permits_ok ?st"
    using relay_run_ok [OF relay_load_ok [OF assms], of wr evs] by (simp_all add: manager_ok_def)
  have "length (filter (\<lambda>p. snd p = i) (rm_held ?st)) \<le> 2"
  proof (cases "i < length (rm_sems ?st)")
    case True
    then have "rm_sems ?st ! i + length (filter (\<lambda>p. snd p = i) (rm_held ?st)) = 2"
      using ok(2) by (simp add: permits_ok_def PUBLIC_PER_MACHINE_CONCURRENCY_def)
    then show ?thesis by simp
  next
    case False
    then have "filter (\<lambda>p. snd p = i) (rm_held ?st) = []"
      using ok(2) by (auto simp: permits_ok_def filter_empty_conv)
    then show ?thesis by simp
  qed
  moreover have "length (rm_held ?st) + length (rm_pending ?st) \<le> 32"
    using ok(2) by (simp add: permits_ok_def PUBLIC_GLOBAL_CONCURRENCY_def)
  moreover have "map_of (rm_snapshot ?st) m = Some e \<Longrightarrow>
      re_machine_id e = m \<and> (\<exists>t. entry_target up ip e = Inr t \<and> safe_target ip m (rt_url t))"
    using snap_ok_lookup [OF ok(1), of m e] by (auto simp: entry_target_def relay_target_parse_iff)
  ultimately show ?thesis unfolding Let_def by blast
qed

theorem relay_run_invariant_witness:
  "length (rm_held (relay_run sample_url_parse sample_ip_parse sample_write sample_manager
      [EvUpsert (sample_io 1) sample_entry, EvAcquireGlobal ''m'', EvAcquireMachine ''m''])) \<le> 32"
  using relay_run_invariant [OF sample_load, where wr = sample_write and m = "''m''" and e = sample_entry
    and i = 0 and evs = "[EvUpsert (sample_io 1) sample_entry, EvAcquireGlobal ''m'', EvAcquireMachine ''m'']"]
  unfolding Let_def by linarith

text \<open>
  C32. The registry survives a restart: after a successful mutation the file on disk, read
  back, gives exactly the live snapshot. The text rendered for the saved entries is assumed
  to parse back to the registry value it renders.
\<close>

theorem install_persists:
  assumes "validate_and_install up ip wr io st es = (st', Inr out)"
    and "\<forall>e\<in>set es. machine_id_parse (re_machine_id e) = Inr (re_machine_id e)"
    and "fs (wr (map snd (rm_snapshot st')) @ [CHR 0x0A]) = Some (registry_file_value (map snd (rm_snapshot st')))"
  shows "load_snapshot_sync up ip fs (rm_disk st') = Inr (rm_snapshot st')"
proof (cases rule: validate_and_install_cases [of up ip wr io st es])
  case (installed d s out')
  then have st': "rm_disk st' = d" "rm_snapshot st' = s" using assms(1) by auto
  have s: "s = snapshot_of es" "snap_ok up ip s"
    using installed(2) snapshot_loop_ok [of up ip "[]" es s]
    by (auto simp: snapshot_from_entries_eq snapshot_from_entries_def snapshot_loop_eq snapshot_of_def split: if_splits)
  have "map_of (snapshot_of es) k = Some e \<Longrightarrow> e \<in> set es" for k e
    by (auto simp: snapshot_of_lookup dest!: map_of_SomeD)
  then have ids: "machine_id_parse (re_machine_id e) = Inr (re_machine_id e)" if "e \<in> set (map snd s)" for e
    using that assms(2) s(1) bt_ok_snapshot_of [of es] bt_ok_distinct by (fastforce simp: map_of_eq_Some_iff)
  show ?thesis
    using save_writes [OF installed(3)] assms(3) parse_registry_file_value [OF s(2) ids] snap_ok_values(3) [OF s(2)]
    by (simp add: load_snapshot_sync_def parse_standalone_registry_def ok_or_def st' s(1) [symmetric])
qed (use assms(1) in auto)

theorem install_persists_witness:
  "let st' = fst (validate_and_install sample_url_parse sample_ip_parse sample_write (sample_io 1) sample_manager [sample_entry])
   in load_snapshot_sync sample_url_parse sample_ip_parse sample_from_str (rm_disk st') = Inr [(''m'', sample_entry)]"
proof -
  let ?r = "validate_and_install sample_url_parse sample_ip_parse sample_write (sample_io 1) sample_manager [sample_entry]"
  obtain st' out where st': "?r = (st', Inr out)" "rm_snapshot st' = [(''m'', sample_entry)]"
    using sample_install [of 1 sample_manager] by (simp add: sample_manager_def sample_disk_def)
  have "machine_id_parse ''m'' = Inr ''m''" by code_simp
  then have "load_snapshot_sync sample_url_parse sample_ip_parse sample_from_str (rm_disk st') = Inr (rm_snapshot st')"
    by (intro install_persists [OF st'(1)])
      (simp_all add: sample_entry_def st'(2) sample_from_str_def sample_write_def)
  then show ?thesis unfolding Let_def st'(1) fst_conv st'(2) .
qed

text \<open>
  A mutation that fails changes nothing the relay serves from: the live snapshot, the
  limits and the permits are as before, and unless the final directory sync is what failed
  the registry file is too.
\<close>

theorem failed_mutation_keeps_state:
  assumes "(st', Inl err) \<in> {relay_upsert up ip wr io st e, relay_remove up ip wr io st m,
      relay_set_disabled up ip wr io st m b, relay_import up ip wr io st r}"
  shows "st' = st\<lparr>rm_disk := rm_disk st'\<rparr>
    \<and> (io_sync_parent io \<longrightarrow> dk_file (rm_disk st') = dk_file (rm_disk st))"
proof -
  have "(\<exists>es. validate_and_install up ip wr io st es = (st', Inl err)) \<or> st' = st"
    using assms by (auto simp: mutation_defs split: if_splits option.splits sum.splits)
  then show ?thesis
  proof (elim disjE exE)
    fix es assume v: "validate_and_install up ip wr io st es = (st', Inl err)"
    then show ?thesis
      using save_failed_file [of up ip wr io "rm_disk st" es _ err]
      by (auto simp: validate_and_install_def split: sum.splits prod.splits)
  qed simp
qed

theorem failed_mutation_keeps_state_witness:
  "dk_file (rm_disk (fst (relay_remove sample_url_parse sample_ip_parse sample_write (sample_io 1)
     sample_manager ''absent''))) = dk_file (rm_disk sample_manager)"
proof -
  let ?r = "relay_remove sample_url_parse sample_ip_parse sample_write (sample_io 1) sample_manager ''absent''"
  have "?r = (sample_manager, Inl UnknownMachine)"
    by (simp add: relay_remove_def bt_contains_def sample_manager_def)
  moreover from this have "(sample_manager, Inl UnknownMachine) \<in> {?r}" by simp
  ultimately show ?thesis
    using failed_mutation_keeps_state [of sample_manager UnknownMachine sample_url_parse sample_ip_parse
      sample_write "sample_io 1" sample_manager sample_entry "''absent''"]
    by (simp add: sample_io_def)
qed

text \<open>
  While no machine is removed from the registry and permits are requested for
  registered machines only, at most two requests per machine are in flight, in every
  interleaving.
\<close>

theorem per_machine_limit:
  assumes "relay_load up ip fs d = Inr st"
    and "list_all (keeps_machines (map fst (rm_snapshot st))) evs"
  shows "held_by (relay_run up ip wr st evs) m \<le> 2"
proof -
  have ok: "manager_ok up ip st" by (rule relay_load_ok [OF assms(1)])
  have "tracked (map fst (rm_snapshot st)) st"
    using assms(1)
    by (auto simp: tracked_def relay_load_def and_then_Inr rebuild_machine_limits_def Let_def
        limits_fold_frame limits_fold_pending dom_map_of_conv_image_fst)
  then have "tracked (map fst (rm_snapshot st)) (relay_run up ip wr st evs)"
    using ok assms(2) by (rule tracked_run)
  then show ?thesis
    using tracked_limit relay_run_ok [OF ok, of wr evs]
    by (fastforce simp: manager_ok_def PUBLIC_PER_MACHINE_CONCURRENCY_def)
qed

theorem per_machine_limit_witness:
  "held_by (relay_run sample_url_parse sample_ip_parse sample_write sample_manager
     [EvUpsert (sample_io 1) sample_entry, EvRelease (''m'', 0)]) ''m'' \<le> 2"
  by (rule per_machine_limit [OF sample_load]) simp

text \<open>The sample manager with a given disk, registration state, permits and limits.\<close>

definition sample_manager_with ::
  "disk \<Rightarrow> snapshot \<Rightarrow> nat \<Rightarrow> (machine_id \<times> nat) list \<Rightarrow> nat list \<Rightarrow> (machine_id \<times> nat) list \<Rightarrow> relay_manager" where
  "sample_manager_with d s g l sems held =
     \<lparr>rm_disk = d, rm_snapshot = s, rm_global = g, rm_limits = l, rm_sems = sems, rm_pending = [], rm_held = held\<rparr>"

lemma sample_upsert_first:
  "relay_step sample_url_parse sample_ip_parse sample_write sample_manager (EvUpsert (sample_io t) sample_entry)
   = sample_manager_with \<lparr>dk_file = Some (''saved'' @ [CHR 0x0A]), dk_backups = []\<rparr> [(''m'', sample_entry)]
       32 [(''m'', 0)] [2] []"
  using sample_install [of t sample_manager]
  by (simp add: sample_manager_with_def sample_manager_def sample_disk_def relay_upsert_def
      rebuild_machine_limits_def machine_limit_def new_limit_def PUBLIC_PER_MACHINE_CONCURRENCY_def)

lemma sample_remove_step:
  "relay_step sample_url_parse sample_ip_parse sample_write
     (sample_manager_with \<lparr>dk_file = Some f, dk_backups = []\<rparr> [(''m'', sample_entry)] g l sems held)
     (EvRemove (sample_io t) ''m'')
   = sample_manager_with \<lparr>dk_file = Some [CHR 0x0A], dk_backups = [\<lparr>bk_modified = t, bk_now = t, bk_pid = 7\<rparr>]\<rparr>
       [] g [] sems held"
  by (simp add: sample_manager_with_def relay_remove_def bt_contains_def bt_remove_def validate_and_install_def
      snapshot_from_entries_def save_entries_sync_def import_entries_def sample_io_def backup_and_prune_def
      create_backup_def prune_old_backups_def MAX_REGISTRY_BACKUPS_def write_bytes_atomic_def sample_write_def
      rebuild_machine_limits_def)

lemma sample_upsert_again:
  "t \<noteq> t' \<Longrightarrow> relay_step sample_url_parse sample_ip_parse sample_write
     (sample_manager_with \<lparr>dk_file = Some f, dk_backups = [\<lparr>bk_modified = t, bk_now = t, bk_pid = 7\<rparr>]\<rparr> [] g [] sems held)
     (EvUpsert (sample_io t') sample_entry)
   = sample_manager_with \<lparr>dk_file = Some (''saved'' @ [CHR 0x0A]),
        dk_backups = [\<lparr>bk_modified = t, bk_now = t, bk_pid = 7\<rparr>, \<lparr>bk_modified = t', bk_now = t', bk_pid = 7\<rparr>]\<rparr>
       [(''m'', sample_entry)] g [(''m'', length sems)] (sems @ [2]) held"
  by (simp add: sample_manager_with_def relay_upsert_def validate_and_install_def same_backup_name_def
      snapshot_from_entries_def save_entries_sync_def import_entries_def import_entry_def sample_target
      bt_contains_def sample_io_def backup_and_prune_def
      create_backup_def prune_old_backups_def MAX_REGISTRY_BACKUPS_def write_bytes_atomic_def sample_write_def
      rebuild_machine_limits_def machine_limit_def new_limit_def PUBLIC_PER_MACHINE_CONCURRENCY_def)

lemma sample_acquire:
  "0 < g \<Longrightarrow> i < length sems \<Longrightarrow> 0 < sems ! i \<Longrightarrow>
   relay_step up ip wr (relay_step up ip wr (sample_manager_with d s g [(''m'', i)] sems held) (EvAcquireGlobal ''m''))
     (EvAcquireMachine ''m'')
   = sample_manager_with d s (g - 1) [(''m'', i)] (sems[i := sems ! i - 1]) ((''m'', i) # held)"
  by (simp add: sample_manager_with_def acquire_global_def acquire_machine_def machine_limit_def)

text \<open>
  The limit is per semaphore, not per machine: removing a machine discards its
  semaphore while its permits are still held, and registering it again makes a fresh one,
  so four requests to one machine can be in flight at once.
\<close>

theorem per_machine_limit_bypassed:
  "held_by (relay_run sample_url_parse sample_ip_parse sample_write sample_manager
     [EvUpsert (sample_io 1) sample_entry,
      EvAcquireGlobal ''m'', EvAcquireMachine ''m'', EvAcquireGlobal ''m'', EvAcquireMachine ''m'',
      EvRemove (sample_io 2) ''m'', EvUpsert (sample_io 3) sample_entry,
      EvAcquireGlobal ''m'', EvAcquireMachine ''m'', EvAcquireGlobal ''m'', EvAcquireMachine ''m'']) ''m'' = 4"
  by (simp add: relay_run_def sample_upsert_first sample_remove_step sample_upsert_again sample_acquire
      held_by_def sample_manager_with_def [of _ _ _ _ _ "_ # _ # _ # _ # _"] del: relay_step.simps)

lemma import_fold_lookup:
  "map_of (snd (snd (foldl (import_entry up ip) (acc, q, m) es)))
     = map_of (map (\<lambda>e. (re_machine_id e, e)) (filter (\<lambda>e. is_ok (entry_target up ip e)) es)) ++ map_of m"
proof (induction es arbitrary: acc q m)
  case (Cons e es)
  obtain a1 q1 m1 where st: "import_entry up ip (acc, q, m) e = (a1, q1, m1)"
    by (cases "import_entry up ip (acc, q, m) e") auto
  then have "map_of m1 = (if is_ok (entry_target up ip e) \<and> map_of m (re_machine_id e) = None
      then (map_of m)(re_machine_id e \<mapsto> e) else map_of m)"
    by (auto simp: import_entry_def bt_contains_def map_of_bt_insert split: sum.splits if_splits)
  with Cons [of a1 q1 m1] st show ?case
    by (auto simp: fun_eq_iff map_add_def split: option.splits)
qed simp

lemma length_map_filter_split:
  "length (filter (\<lambda>x. f x = None) xs) + length (List.map_filter f xs) = length xs"
  by (induction xs) (auto simp: List.map_filter_simps split: option.splits)

text \<open>
  An import isolates bad entries: of an array of candidates, each machine id gets the
  first well-formed entry with a valid target and nothing else, and every other candidate is
  accounted for in the quarantine.
\<close>

theorem import_isolates_bad_entries:
  "\<exists>m. bt_ok m \<and> ir_entries (parse_array_shape up ip items) = map snd m
     \<and> map_of m = map_of (map (\<lambda>e. (re_machine_id e, e))
          (filter (\<lambda>e. is_ok (entry_target up ip e)) (List.map_filter entry_from_value items)))
     \<and> length (ir_accepted (parse_array_shape up ip items))
        + length (ir_quarantined (parse_array_shape up ip items)) = length items"
proof -
  let ?es = "List.map_filter entry_from_value items"
  obtain acc q m where f: "foldl (import_entry up ip) ([], [], []) ?es = (acc, q, m)"
    by (cases "foldl (import_entry up ip) ([], [], []) ?es") auto
  have "snap_ok up ip m" "length acc + length q = length ?es"
    using import_fold [OF _ _ f] by auto
  moreover have "map_of m = map_of (map (\<lambda>e. (re_machine_id e, e)) (filter (\<lambda>e. is_ok (entry_target up ip e)) ?es))"
    using import_fold_lookup [of up ip "[]" "[]" "[]" ?es] f by simp
  ultimately show ?thesis
    using length_map_filter_split [of entry_from_value items]
    by (intro exI [of _ m])
      (simp add: parse_array_shape_def import_entries_def f with_quarantine_def snap_ok_def del: is_ok_iff)
qed

lemma newest_first_facts:
  "set (newest_first bs) = set bs" "length (newest_first bs) = length bs"
  "distinct (newest_first bs) = distinct bs"
  by (simp_all add: newest_first_def)

lemma prune_keeps:
  assumes "distinct bs" and "keep < length bs"
  shows "length (filter (\<lambda>b. b \<notin> set (drop keep (newest_first bs))) bs) = keep"
proof -
  let ?n = "newest_first bs"
  have d: "distinct ?n" using assms(1) by (simp add: newest_first_facts)
  have "set (filter (\<lambda>b. b \<notin> set (drop keep ?n)) bs) = set ?n - set (drop keep ?n)"
    by (auto simp: newest_first_facts)
  also have "\<dots> = set (take keep ?n)"
    using d set_take_disj_set_drop_if_distinct [OF d, of keep keep] append_take_drop_id [of keep ?n]
    by (metis Diff_cancel Un_Diff Un_Diff_Int Diff_triv Un_empty_right set_append order_refl)
  finally have "card (set (filter (\<lambda>b. b \<notin> set (drop keep ?n)) bs)) = card (set (take keep ?n))" by simp
  then show ?thesis
    using assms d distinct_card [OF distinct_filter [OF assms(1)]] by (simp add: distinct_card newest_first_facts)
qed

lemma newest_kept:
  assumes "distinct (bs @ [b])" and "\<And>x. x \<in> set bs \<Longrightarrow> bk_modified x < bk_modified b" and "0 < keep"
  shows "b \<notin> set (drop keep (newest_first (bs @ [b])))"
proof
  let ?n = "newest_first (bs @ [b])"
  assume "b \<in> set (drop keep ?n)"
  then obtain i where "i < length (drop keep ?n)" "drop keep ?n ! i = b" by (auto simp: in_set_conv_nth)
  then have i: "keep + i < length ?n" "?n ! (keep + i) = b" by auto
  then have "0 < length ?n" by linarith
  have "sorted (map (\<lambda>b. - int (bk_modified b)) ?n)" by (simp add: newest_first_def)
  then have "- int (bk_modified (?n ! 0)) \<le> - int (bk_modified (?n ! (keep + i)))"
    using i(1) \<open>0 < length ?n\<close> sorted_nth_mono [of "map (\<lambda>b. - int (bk_modified b)) ?n" 0 "keep + i"]
    by (simp only: nth_map length_map le0)
  moreover have "?n ! 0 \<in> set (bs @ [b])" using i nth_mem [of 0 ?n] by (auto simp: newest_first_facts)
  moreover have "?n ! 0 \<noteq> ?n ! (keep + i)"
    using i assms(1,3) newest_first_facts(3) nth_eq_iff_index_eq [of ?n 0 "keep + i"] by force
  ultimately show False using i(2) assms(2) by force
qed

text \<open>
  Backups are bounded without losing the newest: a save over an existing registry whose
  housekeeping succeeds leaves at most five backups, and the one it just wrote is among
  them when the clock is ahead of the older ones.
\<close>

theorem backups_bounded:
  assumes "save_entries_sync up ip wr io d es = (d', Inr out)" and "dk_file d \<noteq> None"
    and "io_list io" and "\<forall>b. io_remove io b" and "distinct (dk_backups d)"
    and "\<forall>b\<in>set (dk_backups d). bk_modified b < io_now io"
  shows "length (dk_backups d') \<le> 5
    \<and> \<lparr>bk_modified = io_now io, bk_now = io_now io, bk_pid = io_pid io\<rparr> \<in> set (dk_backups d')"
proof -
  let ?new = "\<lparr>bk_modified = io_now io, bk_now = io_now io, bk_pid = io_pid io\<rparr>"
  let ?bs = "dk_backups d @ [?new]"
  have dist: "distinct ?bs" using assms(5,6) by auto
  obtain d1 backup where b: "backup_and_prune io d = (d1, Inr backup)" "dk_backups d' = dk_backups d1"
    using assms(1)
    by (auto simp: save_entries_sync_def Let_def write_bytes_atomic_def split: prod.splits sum.splits if_splits)
  then have d1: "dk_backups d1 = (if length ?bs \<le> 5 then ?bs
      else filter (\<lambda>b. b \<notin> set (drop 5 (newest_first ?bs))) ?bs)"
    using assms(2-4)
    by (auto simp: backup_and_prune_def create_backup_def prune_old_backups_def Let_def
        MAX_REGISTRY_BACKUPS_def split: option.splits if_splits)
  show ?thesis
  proof (cases "length ?bs \<le> 5")
    case False
    then have "length (dk_backups d') = 5" using prune_keeps [OF dist, of 5] d1 b(2) by simp
    moreover have "?new \<notin> set (drop 5 (newest_first ?bs))"
      using newest_kept [OF dist, of 5] assms(6) by simp
    then have "?new \<in> set (dk_backups d')" using False d1 b(2) by simp
    ultimately show ?thesis by simp
  qed (use d1 b(2) in simp)
qed

theorem backups_bounded_witness:
  "length (dk_backups (fst (save_entries_sync sample_url_parse sample_ip_parse sample_write (sample_io 9)
     \<lparr>dk_file = Some ''old'', dk_backups = []\<rparr> [sample_entry]))) \<le> 5"
proof -
  let ?d = "\<lparr>dk_file = Some ''old'', dk_backups = []\<rparr>"
  obtain d' out where r: "save_entries_sync sample_url_parse sample_ip_parse sample_write (sample_io 9) ?d [sample_entry]
      = (d', Inr out)"
    by (simp add: save_entries_sync_def import_entries_def import_entry_def sample_target bt_contains_def
        sample_io_def backup_and_prune_def create_backup_def prune_old_backups_def write_bytes_atomic_def
        MAX_REGISTRY_BACKUPS_def)
  show ?thesis using backups_bounded [OF r] r by (simp add: sample_io_def)
qed

end
