(* ===== verification/Relay_Callback.thy ===== *)
theory Relay_Callback
  imports Relay_Registry
begin

text \<open>
  The HTTP surface of the public callback relay: path policy and header filter
  (\<open>crates/labby/src/oauth/public_relay/policy.rs\<close>, \<open>oauth/header_filter.rs\<close>), the forwarder
  (\<open>forward.rs\<close>), the public callback handler and the admin handlers
  (\<open>crates/labby/src/api/services/oauth_relay.rs\<close>).

  A header map is the list of its name and value pairs, names in lower case as \<open>HeaderName\<close>
  keeps them. \<open>set_path\<close> and \<open>set_query\<close> are the URL crate's setters, \<open>client\<close> is the HTTP
  client: it answers an outbound request with an error or with a status, headers and the
  chunks of the body. \<open>read_body\<close> is axum's bounded body reader. Logging is not modelled.
\<close>

type_synonym headers = "(string \<times> string) list"

section \<open>Header filter\<close>

definition REQUEST_HEADER_ALLOWLIST :: "string list" where
  "REQUEST_HEADER_ALLOWLIST =
     [''accept'', ''accept-language'', ''content-type'', ''origin'', ''referer'', ''user-agent'']"

definition RESPONSE_HEADER_ALLOWLIST :: "string list" where
  "RESPONSE_HEADER_ALLOWLIST =
     [''cache-control'', ''content-language'', ''content-type'', ''expires'', ''pragma'']"

definition is_hop_by_hop_header :: "string \<Rightarrow> bool" where
  "is_hop_by_hop_header name =
     List.member [''connection'', ''content-length'', ''host'', ''keep-alive'', ''proxy-authenticate'',
       ''proxy-authorization'', ''te'', ''trailer'', ''transfer-encoding'', ''upgrade''] name"

definition connection_header_names :: "headers \<Rightarrow> string list" where
  "connection_header_names hs =
     map to_ascii_lowercase (filter (\<lambda>v. v \<noteq> []) (map trim
       (concat (map (split_char (CHR '','')) (List.map_filter header_to_str
         (map snd (filter (\<lambda>(n, _). n = ''connection'') hs)))))))"

definition filter_headers :: "headers \<Rightarrow> string list \<Rightarrow> headers" where
  "filter_headers hs allowlist =
     filter (\<lambda>(name, _). List.member allowlist name \<and> \<not> is_hop_by_hop_header name
       \<and> \<not> List.member (connection_header_names hs) name) hs"

definition filter_public_request_headers :: "headers \<Rightarrow> headers" where
  "filter_public_request_headers hs = filter_headers hs REQUEST_HEADER_ALLOWLIST"

definition filter_public_response_headers :: "headers \<Rightarrow> headers" where
  "filter_public_response_headers hs = filter_headers hs RESPONSE_HEADER_ALLOWLIST"

definition header_get :: "headers \<Rightarrow> string \<Rightarrow> string option" where
  "header_get hs name = map_of hs name"

definition header_insert :: "string \<Rightarrow> string \<Rightarrow> headers \<Rightarrow> headers" where
  "header_insert name v hs = filter (\<lambda>(n, _). n \<noteq> name) hs @ [(name, v)]"

section \<open>Path policy\<close>

definition PUBLIC_QUERY_LIMIT_BYTES :: nat where
  "PUBLIC_QUERY_LIMIT_BYTES = 16 * 1024"

definition PUBLIC_REQUEST_BODY_LIMIT_BYTES :: nat where
  "PUBLIC_REQUEST_BODY_LIMIT_BYTES = 64 * 1024"

definition PUBLIC_RESPONSE_LIMIT_BYTES :: nat where
  "PUBLIC_RESPONSE_LIMIT_BYTES = 128 * 1024"

definition validate_suffix_path :: "string \<Rightarrow> relay_error + string" where
  "validate_suffix_path path =
     (if length path > 2048 then Inl InvalidSuffix
      else if \<not> starts_with path ''/callback/'' \<and> path \<noteq> ''/callback'' then Inl InvalidSuffix
      else if str_contains path ''%'' \<or> str_contains path [CHR 0x5C] then Inl InvalidSuffix
      else if list_ex (\<lambda>segment. segment = ''.'' \<or> segment = ''..'') (split_char (CHR ''/'') path)
        then Inl InvalidSuffix
      else Inr path)"

text \<open>\<open>trim_matches\<close> and \<open>trim_end_matches\<close> with a character.\<close>

definition trim_end_char :: "char \<Rightarrow> string \<Rightarrow> string" where
  "trim_end_char c s = rev (dropWhile (\<lambda>x. x = c) (rev s))"

definition trim_char :: "char \<Rightarrow> string \<Rightarrow> string" where
  "trim_char c s = trim_end_char c (dropWhile (\<lambda>x. x = c) s)"

definition suffix_after_machine :: "string \<Rightarrow> machine_id \<Rightarrow> relay_error + string" where
  "suffix_after_machine path machine_id =
     and_then (validate_suffix_path path) (\<lambda>_.
       let base = ''/callback/'' @ machine_id in
       if path = base then Inr []
       else (case strip_prefix base path of
               None \<Rightarrow> Inl InvalidSuffix
             | Some rest \<Rightarrow>
                 (case strip_prefix ''/'' rest of
                    None \<Rightarrow> Inl InvalidSuffix
                  | Some rest' \<Rightarrow> Inr (trim_char (CHR ''/'') rest'))))"

definition is_reserved_public_relay_path :: "string \<Rightarrow> bool" where
  "is_reserved_public_relay_path path =
     (let lower = to_ascii_lowercase path
      in lower = ''/healthz'' \<or> lower = ''/callback'' \<or> starts_with lower ''/callback/'')"

section \<open>The forwarder\<close>

record forward_request =
  fr_method :: string
  fr_target :: relay_target
  fr_suffix_path :: string
  fr_query :: "string option"
  fr_headers :: headers
  fr_body :: string

record forward_response =
  fs_status :: nat
  fs_headers :: headers
  fs_body :: string

record outbound =
  ob_method :: string
  ob_url :: url
  ob_headers :: headers
  ob_body :: "string option"

datatype client_error = Timeout | OtherFailure

record client_response =
  cr_status :: nat
  cr_headers :: headers
  cr_chunks :: "(client_error + string) list"

fun map_forward_error :: "client_error \<Rightarrow> relay_error" where
  "map_forward_error Timeout = UpstreamTimeout"
| "map_forward_error OtherFailure = UpstreamError"

definition path_is_under_base :: "string \<Rightarrow> string \<Rightarrow> bool" where
  "path_is_under_base path base =
     (path = base \<or> (case strip_prefix base path of None \<Rightarrow> False | Some rest \<Rightarrow> starts_with rest ''/''))"

definition build_outbound ::
  "(url \<Rightarrow> string \<Rightarrow> url) \<Rightarrow> (url \<Rightarrow> string option \<Rightarrow> url) \<Rightarrow> forward_request \<Rightarrow> relay_error + outbound" where
  "build_outbound set_path set_query r =
     (let url0 = rt_url (fr_target r);
          base_path = trim_end_char (CHR ''/'') (url_path url0);
          url1 = (if fr_suffix_path r \<noteq> []
                  then let path = (if ends_with base_path ''/'' then base_path else base_path @ ''/'')
                       in set_path url0 (path @ trim_char (CHR ''/'') (fr_suffix_path r))
                  else url0)
      in if \<not> path_is_under_base (url_path url1) base_path then Inl InvalidSuffix
         else Inr \<lparr>ob_method = fr_method r,
                   ob_url = set_query url1 (case fr_query r of
                       Some q \<Rightarrow> if q = [] then None else Some q
                     | None \<Rightarrow> None),
                   ob_headers = filter_public_request_headers (fr_headers r),
                   ob_body = (if fr_body r = [] then None else Some (fr_body r))\<rparr>)"

fun read_chunks :: "string \<Rightarrow> (client_error + string) list \<Rightarrow> relay_error + string" where
  "read_chunks out [] = Inr out"
| "read_chunks out (Inl e # cs) = Inl (map_forward_error e)"
| "read_chunks out (Inr chunk # cs) =
     (if length out + length chunk > PUBLIC_RESPONSE_LIMIT_BYTES then Inl ResponseTooLarge
      else read_chunks (out @ chunk) cs)"

definition receive :: "client_error + client_response \<Rightarrow> relay_error + forward_response" where
  "receive answer =
     (case answer of
        Inl e \<Rightarrow> Inl (map_forward_error e)
      | Inr resp \<Rightarrow>
          and_then (read_chunks [] (cr_chunks resp)) (\<lambda>body.
            Inr \<lparr>fs_status = cr_status resp,
                 fs_headers = filter_public_response_headers (cr_headers resp), fs_body = body\<rparr>))"

text \<open>The outbound request that was sent, if any, and the outcome.\<close>

definition forward ::
  "(url \<Rightarrow> string \<Rightarrow> url) \<Rightarrow> (url \<Rightarrow> string option \<Rightarrow> url) \<Rightarrow> (outbound \<Rightarrow> client_error + client_response) \<Rightarrow>
   forward_request \<Rightarrow> outbound option \<times> (relay_error + forward_response)" where
  "forward set_path set_query client r =
     (case build_outbound set_path set_query r of
        Inl e \<Rightarrow> (None, Inl e)
      | Inr ob \<Rightarrow> (Some ob, receive (client ob)))"

section \<open>The callback handler\<close>

datatype body_error = LengthLimit | OtherBody

fun body_read_error_to_public :: "body_error \<Rightarrow> relay_error" where
  "body_read_error_to_public LengthLimit = BodyTooLarge"
| "body_read_error_to_public OtherBody = InvalidRequestBody"

record callback_request =
  cb_machine_raw :: string
  cb_method :: string
  cb_path :: string
  cb_query :: "string option"
  cb_headers :: headers

datatype response_body = Bytes string | Detail string

record response =
  rs_status :: nat
  rs_headers :: headers
  rs_body :: response_body

text \<open>\<open>str::parse::<usize>\<close>: an optional plus sign, then digits, without overflow.\<close>

definition parse_usize :: "string \<Rightarrow> nat option" where
  "parse_usize s =
     (let digits = (case strip_prefix ''+'' s of Some r \<Rightarrow> r | None \<Rightarrow> s)
      in if digits \<noteq> [] \<and> list_all is_ascii_digit digits \<and> decimal digits < 2 ^ 64
         then Some (decimal digits) else None)"

definition content_length_exceeds_limit :: "headers \<Rightarrow> nat \<Rightarrow> bool" where
  "content_length_exceeds_limit hs limit =
     (case header_get hs ''content-length'' of
        None \<Rightarrow> False
      | Some raw \<Rightarrow>
          (case header_to_str raw of
             None \<Rightarrow> False
           | Some v \<Rightarrow> (case parse_usize v of None \<Rightarrow> False | Some n \<Rightarrow> n > limit)))"

definition quoted_none :: string where
  "quoted_none = [CHR 0x27] @ ''none'' @ [CHR 0x27]"

definition content_security_policy :: string where
  "content_security_policy =
     ''default-src '' @ quoted_none @ ''; base-uri '' @ quoted_none @ ''; form-action '' @ quoted_none
     @ ''; frame-ancestors '' @ quoted_none @ ''; worker-src '' @ quoted_none"

definition apply_public_callback_security_headers :: "headers \<Rightarrow> headers" where
  "apply_public_callback_security_headers hs =
     header_insert ''content-security-policy'' content_security_policy
     (header_insert ''x-content-type-options'' ''nosniff''
     (header_insert ''expires'' ''0''
     (header_insert ''pragma'' ''no-cache''
     (header_insert ''cache-control'' ''no-store'' hs))))"

definition build_forward_response :: "forward_response \<Rightarrow> response" where
  "build_forward_response f =
     \<lparr>rs_status = fs_status f, rs_headers = apply_public_callback_security_headers (fs_headers f),
      rs_body = Bytes (fs_body f)\<rparr>"

fun public_error_status :: "relay_error \<Rightarrow> nat" where
  "public_error_status BodyTooLarge = 413"
| "public_error_status ResponseTooLarge = 413"
| "public_error_status InvalidRequestBody = 400"
| "public_error_status Overloaded = 429"
| "public_error_status UpstreamTimeout = 504"
| "public_error_status InvalidMachineId = 404"
| "public_error_status InvalidSuffix = 404"
| "public_error_status UnknownMachine = 404"
| "public_error_status DisabledMachine = 404"
| "public_error_status InvalidRegistryInput = 422"
| "public_error_status InvalidTarget = 502"
| "public_error_status RegistryUnavailable = 502"
| "public_error_status ForwarderInitFailed = 502"
| "public_error_status UpstreamError = 502"

definition public_error_response :: "relay_error \<Rightarrow> response" where
  "public_error_response e =
     \<lparr>rs_status = public_error_status e,
      rs_headers = apply_public_callback_security_headers [(''content-type'', ''application/json'')],
      rs_body = Detail (public_message e)\<rparr>"

text \<open>The checks before any permit is taken: the machine, the limits, the suffix and the target.\<close>

definition callback_admit ::
  "(string \<Rightarrow> url option) \<Rightarrow> (string \<Rightarrow> ip_addr option) \<Rightarrow> relay_manager option \<Rightarrow> callback_request \<Rightarrow>
   relay_error + (relay_manager \<times> machine_id \<times> string \<times> relay_target)" where
  "callback_admit url_parse ip_parse mgr req =
     and_then (machine_id_parse (cb_machine_raw req)) (\<lambda>machine_id.
       if (case cb_query req of None \<Rightarrow> False | Some q \<Rightarrow> length q > PUBLIC_QUERY_LIMIT_BYTES)
       then Inl BodyTooLarge
       else if content_length_exceeds_limit (cb_headers req) PUBLIC_REQUEST_BODY_LIMIT_BYTES
       then Inl BodyTooLarge
       else and_then (suffix_after_machine (cb_path req) machine_id) (\<lambda>suffix_path.
         and_then (ok_or mgr RegistryUnavailable) (\<lambda>st.
           and_then (relay_resolve url_parse ip_parse st machine_id) (\<lambda>target.
             Inr (st, machine_id, suffix_path, target)))))"

text \<open>
  The handler: the manager after the request (the permit is dropped at its end), the outbound
  request it caused, and the response.
\<close>

definition callback ::
  "(string \<Rightarrow> url option) \<Rightarrow> (string \<Rightarrow> ip_addr option) \<Rightarrow> (url \<Rightarrow> string \<Rightarrow> url) \<Rightarrow> (url \<Rightarrow> string option \<Rightarrow> url) \<Rightarrow>
   (outbound \<Rightarrow> client_error + client_response) \<Rightarrow> (nat \<Rightarrow> body_error + string) \<Rightarrow>
   relay_manager option \<Rightarrow> callback_request \<Rightarrow> relay_manager option \<times> outbound option \<times> response" where
  "callback url_parse ip_parse set_path set_query client read_body mgr req =
     (case callback_admit url_parse ip_parse mgr req of
        Inl e \<Rightarrow> (mgr, None, public_error_response e)
      | Inr (st, machine_id, suffix_path, target) \<Rightarrow>
          (case acquire_forward_permit machine_id st of
             (st1, Inl e) \<Rightarrow> (Some st1, None, public_error_response e)
           | (st1, Inr permit) \<Rightarrow>
               (case read_body PUBLIC_REQUEST_BODY_LIMIT_BYTES of
                  Inl be \<Rightarrow> (Some (release_permit (machine_id, permit) st1), None,
                             public_error_response (body_read_error_to_public be))
                | Inr body \<Rightarrow>
                    (case forward set_path set_query client
                        \<lparr>fr_method = cb_method req, fr_target = target, fr_suffix_path = suffix_path,
                         fr_query = cb_query req, fr_headers = cb_headers req, fr_body = body\<rparr> of
                       (sent, Inl e) \<Rightarrow> (Some (release_permit (machine_id, permit) st1), sent, public_error_response e)
                     | (sent, Inr f) \<Rightarrow> (Some (release_permit (machine_id, permit) st1), sent, build_forward_response f)))))"

section \<open>The admin handlers\<close>

record upsert_body =
  ub_machine_id :: "string option"
  ub_target_url :: string
  ub_description :: "string option"
  ub_disabled :: "bool option"

datatype admin_result =
    ResMachines "machine_view list"
  | ResMachine machine_view
  | ResMutation write_outcome
  | ResImport "string list" "quarantined_entry list" write_outcome

text \<open>\<open>auth\<close> is the list of scopes of the authenticated caller, if there is one.\<close>

definition require_lab_admin :: "string list option \<Rightarrow> tool_error + unit" where
  "require_lab_admin auth =
     (case auth of
        None \<Rightarrow> Inl (Sdk ''auth_failed'')
      | Some scopes \<Rightarrow> if list_ex (\<lambda>s. s = ''lab:admin'') scopes then Inr () else Inl (Sdk ''forbidden''))"

definition require_manager :: "relay_manager option \<Rightarrow> tool_error + relay_manager" where
  "require_manager mgr = ok_or mgr (Sdk ''relay_registry_unavailable'')"

text \<open>A mutation's outcome with the manager it leaves behind, errors translated.\<close>

definition mutation_result ::
  "relay_manager \<times> (relay_error + write_outcome) \<Rightarrow> relay_manager \<times> (tool_error + write_outcome)" where
  "mutation_result r = (fst r, map_err to_tool_error (snd r))"

definition upsert_machine ::
  "(string \<Rightarrow> url option) \<Rightarrow> (string \<Rightarrow> ip_addr option) \<Rightarrow> (relay_entry list \<Rightarrow> string) \<Rightarrow> save_io \<Rightarrow>
   relay_manager option \<Rightarrow> string \<Rightarrow> upsert_body \<Rightarrow> relay_manager option \<times> (tool_error + write_outcome)" where
  "upsert_machine url_parse ip_parse write_file io mgr raw_id body =
     (case require_manager mgr of
        Inl e \<Rightarrow> (mgr, Inl e)
      | Inr st \<Rightarrow>
          (case machine_id_parse raw_id of
             Inl e \<Rightarrow> (mgr, Inl (to_tool_error e))
           | Inr machine_id \<Rightarrow>
               map_prod Some id (mutation_result (relay_upsert url_parse ip_parse write_file io st
                 \<lparr>re_machine_id = machine_id, re_target_url = ub_target_url body,
                  re_description = ub_description body,
                  re_disabled = (case ub_disabled body of Some b \<Rightarrow> b | None \<Rightarrow> False)\<rparr>))))"

definition remove_machine_op ::
  "(string \<Rightarrow> url option) \<Rightarrow> (string \<Rightarrow> ip_addr option) \<Rightarrow> (relay_entry list \<Rightarrow> string) \<Rightarrow> save_io \<Rightarrow>
   relay_manager option \<Rightarrow> string \<Rightarrow> relay_manager option \<times> (tool_error + write_outcome)" where
  "remove_machine_op url_parse ip_parse write_file io mgr raw_id =
     (case require_manager mgr of
        Inl e \<Rightarrow> (mgr, Inl e)
      | Inr st \<Rightarrow>
          (case machine_id_parse raw_id of
             Inl e \<Rightarrow> (mgr, Inl (to_tool_error e))
           | Inr machine_id \<Rightarrow>
               map_prod Some id (mutation_result (relay_remove url_parse ip_parse write_file io st machine_id))))"

definition set_machine_disabled_op ::
  "(string \<Rightarrow> url option) \<Rightarrow> (string \<Rightarrow> ip_addr option) \<Rightarrow> (relay_entry list \<Rightarrow> string) \<Rightarrow> save_io \<Rightarrow>
   relay_manager option \<Rightarrow> string \<Rightarrow> bool \<Rightarrow> relay_manager option \<times> (tool_error + write_outcome)" where
  "set_machine_disabled_op url_parse ip_parse write_file io mgr raw_id disabled =
     (case require_manager mgr of
        Inl e \<Rightarrow> (mgr, Inl e)
      | Inr st \<Rightarrow>
          (case machine_id_parse raw_id of
             Inl e \<Rightarrow> (mgr, Inl (to_tool_error e))
           | Inr machine_id \<Rightarrow>
               map_prod Some id (mutation_result
                 (relay_set_disabled url_parse ip_parse write_file io st machine_id disabled))))"

definition import_registry_op ::
  "(string \<Rightarrow> url option) \<Rightarrow> (string \<Rightarrow> ip_addr option) \<Rightarrow> (relay_entry list \<Rightarrow> string) \<Rightarrow> save_io \<Rightarrow>
   relay_manager option \<Rightarrow> json \<Rightarrow> relay_manager option \<times> (tool_error + admin_result)" where
  "import_registry_op url_parse ip_parse write_file io mgr body =
     (case require_manager mgr of
        Inl e \<Rightarrow> (mgr, Inl e)
      | Inr st \<Rightarrow>
          (case parse_registry_value url_parse ip_parse body of
             Inl e \<Rightarrow> (mgr, Inl (to_tool_error e))
           | Inr report \<Rightarrow>
               (case relay_import url_parse ip_parse write_file io st report of
                  (st', Inl e) \<Rightarrow> (Some st', Inl (to_tool_error e))
                | (st', Inr outcome) \<Rightarrow>
                    (Some st', Inr (ResImport (ir_accepted report) (ir_quarantined report) outcome)))))"

definition admin_list_machines ::
  "(string \<Rightarrow> url option) \<Rightarrow> (string \<Rightarrow> ip_addr option) \<Rightarrow> relay_manager option \<Rightarrow> tool_error + admin_result" where
  "admin_list_machines url_parse ip_parse mgr =
     and_then (require_manager mgr) (\<lambda>st. Inr (ResMachines (relay_list url_parse ip_parse st)))"

definition admin_get_machine ::
  "(string \<Rightarrow> url option) \<Rightarrow> (string \<Rightarrow> ip_addr option) \<Rightarrow> relay_manager option \<Rightarrow> string \<Rightarrow> tool_error + admin_result" where
  "admin_get_machine url_parse ip_parse mgr raw_id =
     and_then (require_manager mgr) (\<lambda>st.
       and_then (map_err to_tool_error (machine_id_parse raw_id)) (\<lambda>machine_id.
         and_then (ok_or (map_of (rm_snapshot st) machine_id) (Sdk ''not_found'')) (\<lambda>e.
           Inr (ResMachine (machine_view_from_entry url_parse ip_parse e)))))"

datatype admin_request =
    ListMachines
  | GetMachine string
  | UpsertWithoutPath upsert_body
  | UpsertWithPath string upsert_body
  | RemoveMachine string
  | DisableMachine string
  | EnableMachine string
  | ImportRegistry json

definition as_mutation ::
  "relay_manager option \<times> (tool_error + write_outcome) \<Rightarrow> relay_manager option \<times> (tool_error + admin_result)" where
  "as_mutation r = (fst r, map_sum id ResMutation (snd r))"

text \<open>What each route does after the scope check.\<close>

fun admin_handler ::
  "(string \<Rightarrow> url option) \<Rightarrow> (string \<Rightarrow> ip_addr option) \<Rightarrow> (relay_entry list \<Rightarrow> string) \<Rightarrow> save_io \<Rightarrow>
   relay_manager option \<Rightarrow> admin_request \<Rightarrow> relay_manager option \<times> (tool_error + admin_result)" where
  "admin_handler up ip wr io mgr ListMachines = (mgr, admin_list_machines up ip mgr)"
| "admin_handler up ip wr io mgr (GetMachine raw) = (mgr, admin_get_machine up ip mgr raw)"
| "admin_handler up ip wr io mgr (UpsertWithoutPath body) =
     (case ub_machine_id body of
        None \<Rightarrow> (mgr, Inl (MissingParam ''machine_id''))
      | Some raw \<Rightarrow> as_mutation (upsert_machine up ip wr io mgr raw body))"
| "admin_handler up ip wr io mgr (UpsertWithPath raw body) = as_mutation (upsert_machine up ip wr io mgr raw body)"
| "admin_handler up ip wr io mgr (RemoveMachine raw) = as_mutation (remove_machine_op up ip wr io mgr raw)"
| "admin_handler up ip wr io mgr (DisableMachine raw) = as_mutation (set_machine_disabled_op up ip wr io mgr raw True)"
| "admin_handler up ip wr io mgr (EnableMachine raw) = as_mutation (set_machine_disabled_op up ip wr io mgr raw False)"
| "admin_handler up ip wr io mgr (ImportRegistry body) = import_registry_op up ip wr io mgr body"

definition admin_route ::
  "(string \<Rightarrow> url option) \<Rightarrow> (string \<Rightarrow> ip_addr option) \<Rightarrow> (relay_entry list \<Rightarrow> string) \<Rightarrow> save_io \<Rightarrow>
   string list option \<Rightarrow> relay_manager option \<Rightarrow> admin_request \<Rightarrow>
   relay_manager option \<times> (tool_error + admin_result)" where
  "admin_route up ip wr io auth mgr req =
     (case require_lab_admin auth of
        Inl e \<Rightarrow> (mgr, Inl e)
      | Inr _ \<Rightarrow> admin_handler up ip wr io mgr req)"

section \<open>Lemmas\<close>

lemma trim_end_char_suffix: "\<exists>k. s = trim_end_char c s @ replicate k c"
proof -
  have "rev s = takeWhile (\<lambda>x. x = c) (rev s) @ dropWhile (\<lambda>x. x = c) (rev s)" by simp
  then have "s = trim_end_char c s @ rev (takeWhile (\<lambda>x. x = c) (rev s))"
    unfolding trim_end_char_def by (metis rev_append rev_rev_ident)
  moreover have "rev (takeWhile (\<lambda>x. x = c) (rev s)) = replicate (length (takeWhile (\<lambda>x. x = c) (rev s))) c"
    by (metis (mono_tags, lifting) replicate_length_same rev_replicate set_takeWhileD)
  ultimately show ?thesis by metis
qed

lemma trim_end_char_id: "s = [] \<or> last s \<noteq> c \<Longrightarrow> trim_end_char c s = s"
  by (cases s rule: rev_cases) (auto simp: trim_end_char_def)

lemma dropWhile_char_prefix: "\<exists>k. s = replicate k c @ dropWhile (\<lambda>x. x = c) s"
proof (induction s)
  case (Cons a s)
  then obtain k where "s = replicate k c @ dropWhile (\<lambda>x. x = c) s" by blast
  then show ?case
    by (cases "a = c") (auto intro: exI [of _ "Suc k"] exI [of _ 0])
qed simp

lemma trim_char_surround: "\<exists>j k. s = replicate j c @ trim_char c s @ replicate k c"
  using dropWhile_char_prefix [of s c] trim_end_char_suffix [of "dropWhile (\<lambda>x. x = c) s" c]
  by (metis append.assoc trim_char_def)

lemma machine_id_last:
  assumes "machine_id_parse raw = Inr m"
  shows "m \<noteq> []" and "CHR ''/'' \<notin> set m" and "last m \<noteq> CHR ''/''"
proof -
  have "\<not> is_ascii_alphanumeric (CHR ''/'')" by code_simp
  then show "CHR ''/'' \<notin> set m" using assms by (auto simp: machine_id_parse_iff)
  show "m \<noteq> []" using assms by (simp add: machine_id_parse_iff)
  with \<open>CHR ''/'' \<notin> set m\<close> show "last m \<noteq> CHR ''/''" using last_in_set by metis
qed

lemma filter_headers_allowed:
  "(n, v) \<in> set (filter_headers hs allow) \<Longrightarrow> n \<in> set allow \<and> \<not> is_hop_by_hop_header n \<and> (n, v) \<in> set hs"
  by (auto simp: filter_headers_def)

lemma callback_admit_Inr:
  "callback_admit up ip mgr req = Inr (st, m, s, t) \<Longrightarrow>
     mgr = Some st \<and> machine_id_parse (cb_machine_raw req) = Inr m
     \<and> suffix_after_machine (cb_path req) m = Inr s \<and> relay_resolve up ip st m = Inr t"
  by (auto simp: callback_admit_def and_then_Inr split: if_splits)

lemma resolve_target:
  assumes "snap_ok up ip (rm_snapshot st)" and "relay_resolve up ip st m = Inr t"
  shows "safe_target ip m (rt_url t)"
  using assms snap_ok_lookup [OF assms(1)]
  by (auto simp: relay_resolve_def and_then_Inr entry_target_def relay_target_parse_iff split: if_splits)

lemma safe_target_host:
  "safe_target ip m u \<Longrightarrow> \<exists>h a. url_host_str u = Some h \<and> ip h = Some a \<and> is_tailscale_cgnat a"
  unfolding safe_target_def by (cases "url_host_str u"; cases "ip (the (url_host_str u))") simp_all

lemma read_chunks_bound: "read_chunks out cs = Inr body \<Longrightarrow>
    length out \<le> PUBLIC_RESPONSE_LIMIT_BYTES \<Longrightarrow> length body \<le> PUBLIC_RESPONSE_LIMIT_BYTES"
  by (induction out cs rule: read_chunks.induct) (auto split: if_splits)

lemma build_outbound_Inr:
  assumes "build_outbound sp sq r = Inr ob"
  shows "\<exists>v. (v = rt_url (fr_target r) \<or> (\<exists>p. v = sp (rt_url (fr_target r)) p))
    \<and> path_is_under_base (url_path v) (trim_end_char (CHR ''/'') (url_path (rt_url (fr_target r))))
    \<and> (\<exists>q. ob_url ob = sq v q) \<and> ob_headers ob = filter_public_request_headers (fr_headers r)
    \<and> ob_body ob = (if fr_body r = [] then None else Some (fr_body r))"
proof -
  let ?u = "rt_url (fr_target r)"
  let ?b = "trim_end_char (CHR ''/'') (url_path ?u)"
  define v where "v = (if fr_suffix_path r \<noteq> []
    then sp ?u ((if ends_with ?b ''/'' then ?b else ?b @ ''/'') @ trim_char (CHR ''/'') (fr_suffix_path r)) else ?u)"
  have "v = ?u \<or> (\<exists>p. v = sp ?u p)" by (auto simp: v_def)
  moreover have "path_is_under_base (url_path v) ?b \<and> (\<exists>q. ob_url ob = sq v q)
      \<and> ob_headers ob = filter_public_request_headers (fr_headers r)
      \<and> ob_body ob = (if fr_body r = [] then None else Some (fr_body r))"
    using assms unfolding build_outbound_def Let_def v_def [symmetric] by (cases "path_is_under_base (url_path v) ?b") auto
  ultimately show ?thesis by blast
qed

text \<open>What a callback that reached the HTTP client had passed.\<close>

lemma callback_sent:
  assumes "callback up ip sp sq client rb mgr req = (mgr', Some ob, resp)"
  obtains st m s t body where
    "mgr = Some st" "machine_id_parse (cb_machine_raw req) = Inr m" "relay_resolve up ip st m = Inr t"
    "rb PUBLIC_REQUEST_BODY_LIMIT_BYTES = Inr body"
    "build_outbound sp sq \<lparr>fr_method = cb_method req, fr_target = t, fr_suffix_path = s,
       fr_query = cb_query req, fr_headers = cb_headers req, fr_body = body\<rparr> = Inr ob"
  using assms
  by (auto simp: callback_def forward_def split: sum.splits prod.splits dest: callback_admit_Inr)

section \<open>Properties\<close>

text \<open>
  C14. The relay cannot be steered: whatever a public request contains, if it causes an
  outbound request at all, that request goes over plain http to port 38935 of a Tailscale
  address, at or below \<open>/callback/\<close> and the machine's id, without userinfo or fragment,
  carries only allowlisted headers and at most 64 KiB of body. Of the URL setters it is
  assumed that they change the path and the query only; of the body reader, its limit.
\<close>

theorem callback_confined:
  assumes "relay_load up ip fs d = Inr st" and "mgr = Some (relay_run up ip wr st evs)"
    and "\<forall>u p. sp u p = u\<lparr>url_path := url_path (sp u p)\<rparr>"
    and "\<forall>u q. sq u q = u\<lparr>url_query := url_query (sq u q)\<rparr>"
    and "\<forall>b. rb PUBLIC_REQUEST_BODY_LIMIT_BYTES = Inr b \<longrightarrow> length b \<le> PUBLIC_REQUEST_BODY_LIMIT_BYTES"
    and "callback up ip sp sq client rb mgr req = (mgr', Some ob, resp)"
  shows "\<exists>m h a. machine_id_parse (cb_machine_raw req) = Inr m
    \<and> url_scheme (ob_url ob) = ''http'' \<and> url_username (ob_url ob) = [] \<and> url_password (ob_url ob) = None
    \<and> url_fragment (ob_url ob) = None \<and> url_port (ob_url ob) = Some 38935
    \<and> url_host_str (ob_url ob) = Some h \<and> ip h = Some a \<and> is_tailscale_cgnat a
    \<and> (url_path (ob_url ob) = ''/callback/'' @ m \<or> prefix (''/callback/'' @ m @ ''/'') (url_path (ob_url ob)))
    \<and> set (map fst (ob_headers ob)) \<subseteq> set REQUEST_HEADER_ALLOWLIST
    \<and> (case ob_body ob of None \<Rightarrow> True | Some b \<Rightarrow> length b \<le> 65536)"
proof -
  obtain st' m s t body where r:
    "mgr = Some st'" "machine_id_parse (cb_machine_raw req) = Inr m" "relay_resolve up ip st' m = Inr t"
    "rb PUBLIC_REQUEST_BODY_LIMIT_BYTES = Inr body"
    "build_outbound sp sq \<lparr>fr_method = cb_method req, fr_target = t, fr_suffix_path = s,
       fr_query = cb_query req, fr_headers = cb_headers req, fr_body = body\<rparr> = Inr ob"
    by (rule callback_sent [OF assms(6)], rule that)
  have "snap_ok up ip (rm_snapshot st')"
    using relay_run_ok [OF relay_load_ok [OF assms(1)]] assms(2) r(1) by (auto simp: manager_ok_def)
  then have safe: "safe_target ip m (rt_url t)" using r(3) by (rule resolve_target)
  then have u: "url_scheme (rt_url t) = ''http''" "url_username (rt_url t) = []" "url_password (rt_url t) = None"
      "url_fragment (rt_url t) = None" "url_port (rt_url t) = Some 38935" "url_path (rt_url t) = ''/callback/'' @ m"
    by (simp_all add: safe_target_def)
  obtain h a where h: "url_host_str (rt_url t) = Some h" "ip h = Some a" "is_tailscale_cgnat a"
    using safe_target_host [OF safe] by blast
  have base: "trim_end_char (CHR ''/'') (''/callback/'' @ m) = ''/callback/'' @ m"
    using machine_id_last [OF r(2)] by (intro trim_end_char_id) simp
  obtain v where v: "v = rt_url t \<or> (\<exists>p. v = sp (rt_url t) p)"
    and under: "path_is_under_base (url_path v) (''/callback/'' @ m)"
    and ob: "\<exists>q. ob_url ob = sq v q" "ob_headers ob = filter_public_request_headers (cb_headers req)"
      "ob_body ob = (if body = [] then None else Some body)"
    using build_outbound_Inr [OF r(5)] by (auto simp only: u(6) base forward_request.simps)
  have v_eq: "v = (rt_url t)\<lparr>url_path := url_path v\<rparr>" using v assms(3) by (metis url.surjective url.update_convs(7))
  obtain q where "ob_url ob = v\<lparr>url_query := q\<rparr>" using ob(1) assms(4) by metis
  then have ob_url: "ob_url ob = (rt_url t)\<lparr>url_path := url_path v, url_query := q\<rparr>" using v_eq by metis
  have "url_path v = ''/callback/'' @ m \<or> prefix (''/callback/'' @ m @ ''/'') (url_path v)"
    using under by (auto simp: path_is_under_base_def starts_with_iff strip_prefix_Some prefix_def split: option.splits)
  moreover have "set (map fst (ob_headers ob)) \<subseteq> set REQUEST_HEADER_ALLOWLIST"
    using ob(2) filter_headers_allowed by (fastforce simp: filter_public_request_headers_def)
  moreover have "length body \<le> 65536" using assms(5) r(4) by (simp add: PUBLIC_REQUEST_BODY_LIMIT_BYTES_def)
  ultimately show ?thesis
    using r(2) h u ob(3) by (intro exI [of _ m] exI [of _ h] exI [of _ a]) (simp add: ob_url)
qed

definition sample_request :: callback_request where
  "sample_request = \<lparr>cb_machine_raw = ''m'', cb_method = ''GET'', cb_path = ''/callback/m'', cb_query = None, cb_headers = []\<rparr>"

lemma sample_admit:
  "callback_admit sample_url_parse sample_ip_parse
     (Some (sample_manager_with d [(''m'', sample_entry)] g l sems held)) sample_request
   = Inr (sample_manager_with d [(''m'', sample_entry)] g l sems held, ''m'', [], \<lparr>rt_machine_id = ''m'', rt_url = sample_url\<rparr>)"
proof -
  have "machine_id_parse ''m'' = Inr ''m''" "suffix_after_machine ''/callback/m'' ''m'' = Inr []" by code_simp+
  then show ?thesis
    by (simp add: callback_admit_def sample_request_def content_length_exceeds_limit_def header_get_def
        relay_resolve_def sample_manager_with_def sample_target ok_or_def)
qed

theorem callback_confined_witness:
  "\<exists>ob. fst (snd (callback sample_url_parse sample_ip_parse (\<lambda>u p. u\<lparr>url_path := p\<rparr>) (\<lambda>u q. u\<lparr>url_query := q\<rparr>)
       (\<lambda>_. Inl Timeout) (\<lambda>_. Inr ''x'')
       (Some (relay_run sample_url_parse sample_ip_parse sample_write sample_manager [EvUpsert (sample_io 1) sample_entry]))
       sample_request)) = Some ob \<and> url_port (ob_url ob) = Some 38935"
proof -
  let ?st = "relay_run sample_url_parse sample_ip_parse sample_write sample_manager [EvUpsert (sample_io 1) sample_entry]"
  have st: "?st = sample_manager_with \<lparr>dk_file = Some (''saved'' @ [CHR 0x0A]), dk_backups = []\<rparr>
      [(''m'', sample_entry)] 32 [(''m'', 0)] [2] []"
    unfolding relay_run_def by (simp only: foldl.simps sample_upsert_first)
  have ne: "fst (snd (callback sample_url_parse sample_ip_parse (\<lambda>u p. u\<lparr>url_path := p\<rparr>) (\<lambda>u q. u\<lparr>url_query := q\<rparr>)
       (\<lambda>_. Inl Timeout) (\<lambda>_. Inr ''x'') (Some ?st) sample_request)) \<noteq> None"
    unfolding st callback_def sample_admit
    by (simp add: acquire_forward_permit_def acquire_global_def acquire_machine_def machine_limit_def
        sample_manager_with_def forward_def build_outbound_def sample_url_def path_is_under_base_def
        trim_end_char_def receive_def sample_request_def)
  then obtain mgr' ob resp where c: "callback sample_url_parse sample_ip_parse (\<lambda>u p. u\<lparr>url_path := p\<rparr>)
      (\<lambda>u q. u\<lparr>url_query := q\<rparr>) (\<lambda>_. Inl Timeout) (\<lambda>_. Inr ''x'') (Some ?st) sample_request = (mgr', Some ob, resp)"
    by (metis option.exhaust prod.collapse)
  have "url_port (ob_url ob) = Some 38935"
    using callback_confined [OF sample_load refl _ _ _ c] by (auto simp: PUBLIC_REQUEST_BODY_LIMIT_BYTES_def)
  with c show ?thesis by auto
qed

definition public_security_headers :: headers where
  "public_security_headers =
     [(''content-security-policy'', content_security_policy), (''x-content-type-options'', ''nosniff''),
      (''expires'', ''0''), (''pragma'', ''no-cache''), (''cache-control'', ''no-store'')]"

lemma security_headers_iff:
  "(n, v) \<in> set (apply_public_callback_security_headers hs) \<longleftrightarrow>
     (n, v) \<in> set public_security_headers
     \<or> (n, v) \<in> set hs \<and> n \<notin> fst ` set public_security_headers"
  by (auto simp: apply_public_callback_security_headers_def header_insert_def public_security_headers_def)

lemma allowlist_beyond_security:
  "n \<in> set RESPONSE_HEADER_ALLOWLIST \<Longrightarrow> n \<notin> fst ` set public_security_headers \<Longrightarrow>
     n \<in> {''content-type'', ''content-language''}"
  by (auto simp: RESPONSE_HEADER_ALLOWLIST_def public_security_headers_def)

lemma receive_headers:
  "receive a = Inr f \<Longrightarrow> (n, v) \<in> set (fs_headers f) \<Longrightarrow> n \<in> set RESPONSE_HEADER_ALLOWLIST"
  by (auto simp: receive_def and_then_Inr filter_public_response_headers_def
      dest: filter_headers_allowed split: sum.splits)

lemma receive_body: "receive a = Inr f \<Longrightarrow> length (fs_body f) \<le> 131072"
  using read_chunks_bound [of "[]"]
  by (auto simp: receive_def and_then_Inr PUBLIC_RESPONSE_LIMIT_BYTES_def split: sum.splits)

lemma callback_response_cases:
  assumes "callback up ip sp sq client rb mgr req = (mgr', sent, resp)"
  obtains (error) e where "resp = public_error_response e"
    | (forwarded) a f where "receive a = Inr f" "resp = build_forward_response f"
  using assms by (auto simp: callback_def forward_def split: sum.splits prod.splits)

text \<open>
  What the public sees is closed: every response, forwarded or error, carries the fixed
  no-store, nosniff and content security headers and otherwise only the upstream's content
  type and language, so no redirect and no cookie passes; a forwarded body has at most
  128 KiB, and an error reveals only one of six fixed messages.
\<close>

theorem callback_response_closed:
  "case callback up ip sp sq client rb mgr req of (mgr', sent, resp) \<Rightarrow>
     set (rs_headers resp) \<subseteq> set public_security_headers \<union> {''content-type'', ''content-language''} \<times> UNIV
     \<and> set public_security_headers \<subseteq> set (rs_headers resp)
     \<and> (case rs_body resp of Bytes b \<Rightarrow> length b \<le> 131072 | Detail msg \<Rightarrow> msg \<in> range public_message)"
proof -
  obtain mgr' sent resp where c: "callback up ip sp sq client rb mgr req = (mgr', sent, resp)"
    by (cases "callback up ip sp sq client rb mgr req") auto
  obtain hs where hs: "rs_headers resp = apply_public_callback_security_headers hs"
      "\<forall>(n, v)\<in>set hs. n \<in> set RESPONSE_HEADER_ALLOWLIST"
    and body: "case rs_body resp of Bytes b \<Rightarrow> length b \<le> 131072 | Detail msg \<Rightarrow> msg \<in> range public_message"
    using c
  proof (cases rule: callback_response_cases)
    case (error e)
    then show ?thesis using that [of "[(''content-type'', ''application/json'')]"]
      by (auto simp: public_error_response_def RESPONSE_HEADER_ALLOWLIST_def)
  next
    case (forwarded a f)
    then show ?thesis using that [of "fs_headers f"] receive_headers [OF forwarded(1)] receive_body [OF forwarded(1)]
      by (fastforce simp: build_forward_response_def)
  qed
  have "(n, v) \<in> set public_security_headers \<union> {''content-type'', ''content-language''} \<times> UNIV"
    if "(n, v) \<in> set (rs_headers resp)" for n v
    using that hs(2) allowlist_beyond_security [of n] unfolding hs(1) security_headers_iff by blast
  moreover have "set public_security_headers \<subseteq> set (rs_headers resp)"
    using security_headers_iff by (metis hs(1) subrelI)
  ultimately show ?thesis using body unfolding c prod.case by (intro conjI subrelI) blast+
qed

lemma split_char_sublist:
  "set (split_char c s) \<subseteq> set (split_char c (a @ c # s))" "set (split_char c s) \<subseteq> set (split_char c (s @ replicate k c))"
  using split_char_append_sep [of c s "replicate (k - 1) c"]
  by (cases k; auto simp: split_char_append_sep replicate_app_Cons_same)+

lemma validate_suffix_path_Inr:
  "validate_suffix_path path = Inr p \<Longrightarrow>
     CHR ''%'' \<notin> set path \<and> CHR 0x5C \<notin> set path
     \<and> ''.'' \<notin> set (split_char (CHR ''/'') path) \<and> ''..'' \<notin> set (split_char (CHR ''/'') path)"
  by (auto simp: validate_suffix_path_def str_contains_single list_ex_iff split: if_splits)

text \<open>
  The suffix handed to the forwarder is what follows the machine's callback path, up to
  surrounding slashes, and cannot traverse: it has no dot segment, no percent sign and no
  backslash.
\<close>

theorem suffix_after_machine_safe:
  assumes "suffix_after_machine path m = Inr s"
  shows "(path = ''/callback/'' @ m \<and> s = [] \<or>
      (\<exists>j k. path = ''/callback/'' @ m @ ''/'' @ replicate j (CHR ''/'') @ s @ replicate k (CHR ''/'')))
    \<and> CHR ''%'' \<notin> set s \<and> CHR 0x5C \<notin> set s
    \<and> ''.'' \<notin> set (split_char (CHR ''/'') s) \<and> ''..'' \<notin> set (split_char (CHR ''/'') s)"
proof -
  have v: "CHR ''%'' \<notin> set path" "CHR 0x5C \<notin> set path"
      "''.'' \<notin> set (split_char (CHR ''/'') path)" "''..'' \<notin> set (split_char (CHR ''/'') path)"
    using assms validate_suffix_path_Inr by (auto simp: suffix_after_machine_def and_then_Inr)
  consider (exact) "path = ''/callback/'' @ m" "s = []"
    | (below) rest where "path = (''/callback/'' @ m) @ ''/'' @ rest" "s = trim_char (CHR ''/'') rest"
    using assms unfolding suffix_after_machine_def and_then_Inr Let_def
    by (auto simp only: strip_prefix_Some split: if_splits option.splits)
  then show ?thesis
  proof cases
    case exact
    then show ?thesis by simp
  next
    case below
    obtain j k where rest: "rest = replicate j (CHR ''/'') @ s @ replicate k (CHR ''/'')"
      using trim_char_surround below(2) by blast
    have path: "path = ((''/callback/'' @ m) @ replicate j (CHR ''/'')) @ CHR ''/'' # (s @ replicate k (CHR ''/''))"
      by (simp add: below(1) rest replicate_app_Cons_same)
    have "set (split_char (CHR ''/'') s) \<subseteq> set (split_char (CHR ''/'') path)"
      unfolding path using split_char_sublist(1,2) [of "CHR ''/''"] by (meson order_trans)
    moreover have "set s \<subseteq> set path" unfolding path by auto
    moreover have "path = ''/callback/'' @ m @ ''/'' @ replicate j (CHR ''/'') @ s @ replicate k (CHR ''/'')"
      using below(1) by (simp only: rest append.assoc)
    ultimately show ?thesis using v by blast
  qed
qed

theorem suffix_after_machine_safe_witness:
  "suffix_after_machine ''/callback/m/cb/x/'' ''m'' = Inr ''cb/x'' \<and> ''..'' \<notin> set (split_char (CHR ''/'') ''cb/x'')"
proof -
  have "suffix_after_machine ''/callback/m/cb/x/'' ''m'' = Inr ''cb/x''" by code_simp
  with suffix_after_machine_safe [OF this] show ?thesis by blast
qed

lemma acquire_release:
  assumes "permits_ok st"
  shows "case acquire_forward_permit m st of
      (st', Inl _) \<Rightarrow> permits_ok st' \<and> rm_global st' = rm_global st \<and> rm_held st' = rm_held st
        \<and> rm_pending st' = rm_pending st \<and> rm_snapshot st' = rm_snapshot st \<and> rm_disk st' = rm_disk st
    | (st', Inr i) \<Rightarrow> (let st'' = release_permit (m, i) st' in
        permits_ok st'' \<and> rm_global st'' = rm_global st \<and> rm_held st'' = rm_held st
        \<and> rm_pending st'' = rm_pending st \<and> rm_snapshot st'' = rm_snapshot st \<and> rm_disk st'' = rm_disk st)"
proof (cases "rm_global st = 0")
  case True
  with assms show ?thesis by (simp add: acquire_forward_permit_def acquire_global_def)
next
  case False
  let ?st1 = "st\<lparr>rm_global := rm_global st - 1, rm_pending := m # rm_pending st\<rparr>"
  have g: "acquire_global m st = (?st1, Inr ())" using False by (simp add: acquire_global_def)
  have ok1: "permits_ok ?st1" using acquire_global_permits [OF assms, of m] g by simp
  then have ok2: "permits_ok (fst (acquire_machine m ?st1))" by (rule acquire_machine_permits) simp
  obtain st2 i where lim: "machine_limit m (?st1\<lparr>rm_pending := rm_pending st\<rparr>) = (st2, i)" by force
  note frame = machine_limit_frame [of m "?st1\<lparr>rm_pending := rm_pending st\<rparr>", unfolded lim fst_conv]
  show ?thesis
  proof (cases "rm_sems st2 ! i = 0")
    case True
    then have "acquire_machine m ?st1 = (st2\<lparr>rm_global := rm_global st2 + 1\<rparr>, Inl Overloaded)"
      using lim by (simp add: acquire_machine_def)
    with ok2 frame False show ?thesis by (simp add: acquire_forward_permit_def g)
  next
    case False': False
    let ?st3 = "st2\<lparr>rm_sems := (rm_sems st2)[i := rm_sems st2 ! i - 1], rm_held := (m, i) # rm_held st2\<rparr>"
    have a: "acquire_machine m ?st1 = (?st3, Inr i)" using lim False' by (simp add: acquire_machine_def)
    then have "permits_ok (release_permit (m, i) ?st3)" using ok2 by (intro release_permits) simp_all
    with frame False show ?thesis
      unfolding acquire_forward_permit_def g prod.case sum.case a Let_def by (simp add: release_permit_def)
  qed
qed

text \<open>
  Every callback gives its permits back: whatever the request and the upstream do, the
  free and held permits, the registry and its file are afterwards as before.
\<close>

theorem callback_no_permit_leak:
  assumes "permits_ok st" and "callback up ip sp sq client rb (Some st) req = (mgr', sent, resp)"
  shows "\<exists>st'. mgr' = Some st' \<and> permits_ok st' \<and> rm_global st' = rm_global st \<and> rm_held st' = rm_held st
    \<and> rm_pending st' = rm_pending st \<and> rm_snapshot st' = rm_snapshot st \<and> rm_disk st' = rm_disk st"
proof (cases "callback_admit up ip (Some st) req")
  case (Inl e)
  with assms show ?thesis by (auto simp: callback_def)
next
  case (Inr r)
  obtain st0 m s t where r: "r = (st0, m, s, t)" by (cases r) auto
  with Inr have "st0 = st" using callback_admit_Inr by fastforce
  obtain st1 p where acq: "acquire_forward_permit m st = (st1, p)" by force
  have out: "mgr' = Some (case p of Inl _ \<Rightarrow> st1 | Inr i \<Rightarrow> release_permit (m, i) st1)"
    using assms(2) unfolding callback_def Inr r \<open>st0 = st\<close>
    by (simp add: acq split: sum.splits prod.splits)
  show ?thesis
    using acquire_release [OF assms(1), of m] unfolding acq out by (cases p) (simp_all add: Let_def)
qed

theorem callback_no_permit_leak_witness:
  "\<exists>st'. fst (callback sample_url_parse sample_ip_parse (\<lambda>u p. u\<lparr>url_path := p\<rparr>) (\<lambda>u q. u\<lparr>url_query := q\<rparr>)
       (\<lambda>_. Inl Timeout) (\<lambda>_. Inr ''x'') (Some sample_manager) sample_request) = Some st' \<and> rm_global st' = 32"
proof -
  have "permits_ok sample_manager" using relay_load_ok [OF sample_load] by (simp add: manager_ok_def)
  from callback_no_permit_leak [OF this] show ?thesis
    by (metis (no_types, lifting) prod.collapse sample_manager_def relay_manager.select_convs(3))
qed

lemma mutation_keeps_ok:
  assumes "manager_ok up ip st"
  shows "manager_ok up ip (fst (relay_upsert up ip wr io st e))"
    and "manager_ok up ip (fst (relay_remove up ip wr io st m))"
    and "manager_ok up ip (fst (relay_set_disabled up ip wr io st m b))"
    and "manager_ok up ip (fst (relay_import up ip wr io st r))"
  using relay_step_ok [OF assms, of wr "EvUpsert io e"] relay_step_ok [OF assms, of wr "EvRemove io m"]
    relay_step_ok [OF assms, of wr "EvSetDisabled io m b"] relay_step_ok [OF assms, of wr "EvImport io r"]
  by simp_all

lemmas admin_defs = upsert_machine_def remove_machine_op_def set_machine_disabled_op_def
  import_registry_op_def as_mutation_def mutation_result_def require_manager_def

lemma admin_handler_ok:
  assumes "manager_ok up ip st"
  shows "\<exists>st'. fst (admin_handler up ip wr io (Some st) req) = Some st' \<and> manager_ok up ip st'"
  using assms mutation_keeps_ok [OF assms]
  by (cases req) (auto simp: admin_defs ok_or_def map_prod_def split: sum.splits option.splits prod.splits,
      (metis fst_conv)+)

text \<open>
  The admin routes are closed without the \<open>lab:admin\<close> scope: an unauthenticated call
  fails with \<open>auth_failed\<close>, one without the scope with \<open>forbidden\<close>, and neither changes the
  registry; a call that passes keeps every invariant of the manager.
\<close>

theorem admin_route_guarded:
  "admin_route up ip wr io None mgr req = (mgr, Inl (Sdk ''auth_failed''))
   \<and> (''lab:admin'' \<notin> set scopes \<longrightarrow> admin_route up ip wr io (Some scopes) mgr req = (mgr, Inl (Sdk ''forbidden'')))
   \<and> (manager_ok up ip st \<longrightarrow>
        (\<exists>st'. fst (admin_route up ip wr io auth (Some st) req) = Some st' \<and> manager_ok up ip st'))"
  using admin_handler_ok [of up ip st wr io req]
  by (auto simp: admin_route_def require_lab_admin_def list_ex_iff split: option.splits sum.splits if_splits)

theorem admin_route_guarded_witness:
  "admin_route sample_url_parse sample_ip_parse sample_write (sample_io 1) (Some [''lab:read'']) (Some sample_manager)
     (RemoveMachine ''m'') = (Some sample_manager, Inl (Sdk ''forbidden''))"
  using admin_route_guarded [where scopes = "[''lab:read'']"] by simp

end
