(* ===== verification/Auth_Types.thy ===== *)
theory Auth_Types
  imports Labby_Prelude Json
begin

text \<open>
  The error type and the row types of \<open>labby-auth\<close> (\<open>error.rs\<close>, \<open>types.rs\<close>), its token
  hashing, and the encryption of provider tokens at rest (\<open>at_rest.rs\<close>).

  SHA-256, ChaCha20-Poly1305, base64url and the Unicode lower-case mapping are library code:
  they are fields of the record \<open>auth_env\<close> that every definition using them takes, beside the
  store's own encryption key. Times are
  \<open>i64\<close> seconds, written as integers; the additions that the sources saturate or let wrap are
  written out. The random bytes of \<open>getrandom::fill\<close> are arguments, \<open>Inl\<close> its error.
\<close>

section \<open>Errors\<close>

datatype auth_error =
    AConfig string
  | AStorage string
  | AInvalidGrant string
  | AInvalidScope string
  | AOauthNeedsReauth string
  | AAuthFailed string
  | AValidation string
  | ANetwork string
  | AServer string
  | ADecode string
  | ARateLimited string nat
  | AInvalidAccessToken
  | AInsecurePermissions string

fun auth_error_kind :: "auth_error \<Rightarrow> string" where
  "auth_error_kind (AConfig _) = ''internal_error''"
| "auth_error_kind (AStorage _) = ''internal_error''"
| "auth_error_kind (AInsecurePermissions _) = ''internal_error''"
| "auth_error_kind (AInvalidGrant _) = ''invalid_grant''"
| "auth_error_kind (AInvalidScope _) = ''invalid_scope''"
| "auth_error_kind (AOauthNeedsReauth _) = ''oauth_needs_reauth''"
| "auth_error_kind (AAuthFailed _) = ''auth_failed''"
| "auth_error_kind AInvalidAccessToken = ''auth_failed''"
| "auth_error_kind (AValidation _) = ''validation_failed''"
| "auth_error_kind (ANetwork _) = ''network_error''"
| "auth_error_kind (AServer _) = ''server_error''"
| "auth_error_kind (ADecode _) = ''decode_error''"
| "auth_error_kind (ARateLimited _ _) = ''rate_limited''"

fun auth_error_status :: "auth_error \<Rightarrow> nat" where
  "auth_error_status (AInvalidGrant _) = 400"
| "auth_error_status (AInvalidScope _) = 400"
| "auth_error_status (AOauthNeedsReauth _) = 401"
| "auth_error_status (AAuthFailed _) = 401"
| "auth_error_status AInvalidAccessToken = 401"
| "auth_error_status (AValidation _) = 422"
| "auth_error_status (ANetwork _) = 502"
| "auth_error_status (AServer _) = 502"
| "auth_error_status (ADecode _) = 500"
| "auth_error_status (ARateLimited _ _) = 429"
| "auth_error_status (AConfig _) = 500"
| "auth_error_status (AStorage _) = 500"
| "auth_error_status (AInsecurePermissions _) = 500"

text \<open>The seconds of the \<open>Retry-After\<close> header of the response, if it has one.\<close>

fun auth_retry_after :: "auth_error \<Rightarrow> nat option" where
  "auth_retry_after (ARateLimited _ ms) = Some (max (ms div 1000) 1)"
| "auth_retry_after _ = None"

definition sqlite_error :: "string \<Rightarrow> auth_error" where
  "sqlite_error msg = AStorage (''sqlite error: '' @ msg)"

text \<open>The constraint failures SQLite reports for a duplicate key and a dangling reference.\<close>

definition unique_failed :: "string \<Rightarrow> auth_error" where
  "unique_failed col = sqlite_error (''UNIQUE constraint failed: '' @ col)"

definition foreign_key_failed :: auth_error where
  "foreign_key_failed = sqlite_error ''FOREIGN KEY constraint failed''"

section \<open>Times\<close>

definition i64_sat :: "int \<Rightarrow> int" where
  "i64_sat x = max (- (2 ^ 63)) (min (2 ^ 63 - 1) x)"

definition i64_wrap :: "int \<Rightarrow> int" where
  "i64_wrap x = (x + 2 ^ 63) mod 2 ^ 64 - 2 ^ 63"

definition is_i64 :: "int \<Rightarrow> bool" where
  "is_i64 x = (- (2 ^ 63) \<le> x \<and> x < 2 ^ 63)"

section \<open>Rows\<close>

record registered_client =
  rc_client_id :: string
  rc_redirect_uris :: "string list"
  rc_created_at :: int
  rc_token_endpoint_auth_method :: string
  rc_jwks :: "json option"

record authorization_request_row =
  ar_state :: string
  ar_client_id :: string
  ar_redirect_uri :: string
  ar_client_state :: string
  ar_resource :: string
  ar_scope :: string
  ar_provider_code_verifier :: string
  ar_code_challenge :: string
  ar_code_challenge_method :: string
  ar_created_at :: int
  ar_expires_at :: int

record authorization_code_row =
  ac_code :: string
  ac_client_id :: string
  ac_subject :: string
  ac_redirect_uri :: string
  ac_resource :: string
  ac_scope :: string
  ac_code_challenge :: string
  ac_code_challenge_method :: string
  ac_provider_refresh_token :: "string option"
  ac_created_at :: int
  ac_expires_at :: int

record refresh_token_row =
  rt_refresh_token :: string
  rt_client_id :: string
  rt_subject :: string
  rt_resource :: string
  rt_scope :: string
  rt_provider_refresh_token :: "string option"
  rt_created_at :: int
  rt_expires_at :: int

record google_credential_row =
  gc_subject :: string
  gc_email :: "string option"
  gc_client_id :: string
  gc_granted_scopes :: "string list"
  gc_access_token :: "string option"
  gc_refresh_token :: string
  gc_token_received_at :: "int option"
  gc_access_token_expires_at :: "int option"
  gc_issuer :: "string option"
  gc_last_refresh_at :: "int option"
  gc_last_scope_upgrade_at :: "int option"
  gc_generation :: int
  gc_created_at :: int
  gc_updated_at :: int

record google_credential_update =
  gu_subject :: string
  gu_email :: "string option"
  gu_client_id :: string
  gu_granted_scopes :: "string list"
  gu_access_token :: string
  gu_refresh_token :: string
  gu_token_received_at :: int
  gu_access_token_expires_at :: int
  gu_issuer :: "string option"
  gu_refreshed :: bool
  gu_scope_upgraded :: bool

record google_invalidation =
  gi_invalidated :: bool
  gi_revoked_refresh_tokens :: nat
  gi_revoked_authorization_codes :: nat

record browser_session_row =
  bs_session_id :: string
  bs_subject :: string
  bs_email :: "string option"
  bs_csrf_token :: string
  bs_created_at :: int
  bs_expires_at :: int

record browser_login_state_row =
  bl_state :: string
  bl_return_to :: string
  bl_provider_code_verifier :: string
  bl_created_at :: int
  bl_expires_at :: int

record native_result_row =
  nr_state :: string
  nr_code :: string
  nr_created_at :: int
  nr_expires_at :: int

record upstream_credential_row =
  uc_upstream_name :: string
  uc_subject :: string
  uc_client_id :: string
  uc_granted_scopes_json :: string
  uc_token_blob :: string
  uc_token_blob_nonce :: string
  uc_token_received_at :: int
  uc_access_token_expires_at :: int
  uc_refresh_token_present :: bool

record upstream_state_row =
  us_upstream_name :: string
  us_subject :: string
  us_csrf_token :: string
  us_pkce_verifier :: string
  us_created_at :: int
  us_expires_at :: int

record allowed_user_row =
  au_email :: string
  au_added_by :: string
  au_created_at :: int

section \<open>Library code the crate calls\<close>

record auth_env =
  enc_key :: "string option"
  sha256 :: "string \<Rightarrow> nat list"
  aead_seal :: "string \<Rightarrow> string \<Rightarrow> string \<Rightarrow> string option"
  aead_open :: "string \<Rightarrow> string \<Rightarrow> string \<Rightarrow> string option"
  b64url :: "string \<Rightarrow> string"
  b64url_decode :: "string \<Rightarrow> string option"
  unicode_lowercase :: "string \<Rightarrow> string"

text \<open>What the crates document: opening a sealed text and decoding an encoding give it back.\<close>

definition aead_law :: "auth_env \<Rightarrow> bool" where
  "aead_law env =
     ((\<forall>k n m c. aead_seal env k n m = Some c \<longrightarrow> aead_open env k n c = Some m)
      \<and> (\<forall>b. b64url_decode env (b64url env b) = Some b))"

section \<open>Token hashing\<close>

definition hex_digit :: "nat \<Rightarrow> char" where
  "hex_digit n = (if n < 10 then char_of (48 + n) else char_of (87 + n))"

definition hex_byte :: "nat \<Rightarrow> string" where
  "hex_byte b = [hex_digit (b div 16), hex_digit (b mod 16)]"

definition hash_token :: "auth_env \<Rightarrow> string \<Rightarrow> string" where
  "hash_token env t = concat (map hex_byte (sha256 env t))"

definition fingerprint :: "auth_env \<Rightarrow> string \<Rightarrow> string" where
  "fingerprint env v = concat (map hex_byte (take 6 (sha256 env v)))"

section \<open>Encryption at rest\<close>

definition enc_prefix :: string where
  "enc_prefix = ''enc:''"

text \<open>
  \<open>u8::from_str_radix(_, 16)\<close>: an optional plus sign and at least one digit. A chunk is two
  bytes long, so the value always fits.
\<close>

definition hex_val :: "char \<Rightarrow> nat option" where
  "hex_val c =
     (if is_ascii_digit c then Some (byte c - 48)
      else if 65 \<le> byte c \<and> byte c \<le> 70 then Some (byte c - 55)
      else if 97 \<le> byte c \<and> byte c \<le> 102 then Some (byte c - 87)
      else None)"

fun hex_number :: "nat \<Rightarrow> string \<Rightarrow> nat option" where
  "hex_number acc [] = Some acc"
| "hex_number acc (c # s) =
     (case hex_val c of None \<Rightarrow> None | Some d \<Rightarrow> hex_number (16 * acc + d) s)"

definition u8_from_hex :: "string \<Rightarrow> nat option" where
  "u8_from_hex s =
     (let digits = (case s of c # r \<Rightarrow> if c = CHR ''+'' then r else s | [] \<Rightarrow> [])
      in if digits = [] then None else hex_number 0 digits)"

fun chunks2 :: "'a list \<Rightarrow> 'a list list" where
  "chunks2 (a # b # s) = [a, b] # chunks2 s"
| "chunks2 [a] = [[a]]"
| "chunks2 [] = []"

definition key_byte :: "string \<Rightarrow> auth_error + char" where
  "key_byte chunk =
     (case from_utf8 chunk of
        None \<Rightarrow> Inl (AConfig ''TOKEN_ENCRYPTION_KEY hex string contains invalid UTF-8'')
      | Some h \<Rightarrow>
          (case u8_from_hex h of
             None \<Rightarrow> Inl (AConfig (''TOKEN_ENCRYPTION_KEY hex string contains invalid character `''
                       @ h @ ''`''))
           | Some b \<Rightarrow> Inr (char_of b)))"

definition key_from_encoded :: "auth_env \<Rightarrow> string \<Rightarrow> auth_error + string" where
  "key_from_encoded env s0 =
     (let s = trim s0
      in if length s = 64 then collect_results (map key_byte (chunks2 s))
         else and_then
           (ok_or (b64url_decode env s)
             (AConfig ''TOKEN_ENCRYPTION_KEY must be 64 hex digits or 43 base64url characters''))
           (\<lambda>bytes.
             if length bytes \<noteq> 32
             then Inl (AConfig (''TOKEN_ENCRYPTION_KEY base64-decoded to '' @ show_nat (length bytes)
                        @ '' bytes, expected 32''))
             else Inr bytes))"

definition encrypt_provider_token ::
    "auth_env \<Rightarrow> string \<Rightarrow> string + string \<Rightarrow> string \<Rightarrow> auth_error + string" where
  "encrypt_provider_token env key rng plaintext =
     and_then (map_err (\<lambda>e. AStorage (''generate nonce: '' @ e)) rng)
       (\<lambda>nonce.
         and_then (ok_or (aead_seal env key nonce plaintext) (AStorage ''token encryption failed''))
           (\<lambda>ciphertext. Inr (enc_prefix @ b64url env (nonce @ ciphertext))))"

definition decrypt_provider_token :: "auth_env \<Rightarrow> string \<Rightarrow> string \<Rightarrow> auth_error + string" where
  "decrypt_provider_token env key stored =
     (case strip_prefix enc_prefix stored of
        None \<Rightarrow> Inr stored
      | Some encoded \<Rightarrow>
          and_then (ok_or (b64url_decode env encoded)
              (AStorage ''provider token ciphertext is not valid base64''))
            (\<lambda>blob.
              if length blob < 12 then Inl (AStorage ''provider token ciphertext blob too short'')
              else and_then (ok_or (aead_open env key (take 12 blob) (drop 12 blob))
                  (AStorage ''provider token decryption failed (wrong key or corrupted data)''))
                (\<lambda>plaintext. ok_or (from_utf8 plaintext)
                  (AStorage ''decrypted provider token is not valid UTF-8''))))"

definition maybe_encrypt ::
    "auth_env \<Rightarrow> string option \<Rightarrow> string + string \<Rightarrow> string \<Rightarrow> auth_error + string" where
  "maybe_encrypt env key rng value =
     (case key of Some k \<Rightarrow> encrypt_provider_token env k rng value | None \<Rightarrow> Inr value)"

definition maybe_decrypt :: "auth_env \<Rightarrow> string option \<Rightarrow> string \<Rightarrow> auth_error + string" where
  "maybe_decrypt env key stored =
     (if starts_with stored enc_prefix
      then and_then
        (ok_or key (AConfig
          ''provider token is encrypted but no TOKEN_ENCRYPTION_KEY is configured''))
        (\<lambda>k. decrypt_provider_token env k stored)
      else Inr stored)"

text \<open>
  A token that is valid UTF-8 comes back from the store's encoding: with a key, whatever the
  twelve random bytes were; without one, when the token does not itself start with the prefix.
\<close>

lemma maybe_encrypt_roundtrip:
  assumes law: "aead_law env"
    and enc: "maybe_encrypt env key rng t = Inr stored"
    and rng: "\<And>n. rng = Inr n \<Longrightarrow> length n = 12"
    and utf8: "from_utf8 t = Some t"
    and plain: "key = None \<Longrightarrow> \<not> starts_with t enc_prefix"
  shows "maybe_decrypt env key stored = Inr t"
proof (cases key)
  case None
  with enc plain show ?thesis by (simp add: maybe_encrypt_def maybe_decrypt_def)
next
  case (Some k)
  with enc obtain n c where n: "rng = Inr n" "aead_seal env k n t = Some c"
    and st: "stored = enc_prefix @ b64url env (n @ c)"
    by (auto simp: maybe_encrypt_def encrypt_provider_token_def and_then_Inr)
  have "strip_prefix enc_prefix stored = Some (b64url env (n @ c))"
    using st by (simp add: strip_prefix_Some)
  moreover have "starts_with stored enc_prefix"
    using st by (simp add: starts_with_iff)
  ultimately show ?thesis
    using law n rng [OF n(1)] utf8 Some
    by (simp add: maybe_decrypt_def decrypt_provider_token_def ok_or_def aead_law_def)
qed

lemma maybe_encrypt_hides:
  "maybe_encrypt env (Some k) rng t = Inr stored \<Longrightarrow> starts_with stored enc_prefix"
  by (auto simp: maybe_encrypt_def encrypt_provider_token_def and_then_Inr starts_with_iff)

text \<open>An environment without an encryption key, for the examples.\<close>

definition plain_env :: auth_env where
  "plain_env = \<lparr>enc_key = None, sha256 = map of_char, aead_seal = (\<lambda>k n m. Some m),
     aead_open = (\<lambda>k n c. Some c), b64url = id, b64url_decode = Some,
     unicode_lowercase = to_ascii_lowercase\<rparr>"

end
