(* ===== verification/Sql_Table.thy ===== *)
theory Sql_Table
  imports Labby_Prelude
begin

text \<open>
  A table of a SQL database as the list of its rows in \<open>rowid\<close> order, with the statements the
  sources send to it. A row is inserted at the end, an update keeps its place, and every
  statement is atomic. The primary key of a table is a function of its rows; a statement that
  would store two rows with one key fails and stores nothing.
\<close>

named_theorems sql \<open>the statements as operations on lists\<close>

section \<open>Statements\<close>

definition has_key :: "('r \<Rightarrow> 'k) \<Rightarrow> 'k \<Rightarrow> 'r list \<Rightarrow> bool" where
  "has_key key k rows = (\<exists>r \<in> set rows. key r = k)"

definition sql_insert :: "('r \<Rightarrow> 'k) \<Rightarrow> 'r \<Rightarrow> 'r list \<Rightarrow> 'r list option" where
  "sql_insert key r rows = (if has_key key (key r) rows then None else Some (rows @ [r]))"

text \<open>\<open>INSERT ... ON CONFLICT(key) DO UPDATE\<close>: \<open>merge old excluded\<close> is the updated row.\<close>

definition sql_upsert :: "('r \<Rightarrow> 'k) \<Rightarrow> ('r \<Rightarrow> 'r \<Rightarrow> 'r) \<Rightarrow> 'r \<Rightarrow> 'r list \<Rightarrow> 'r list" where
  "sql_upsert key merge r rows =
     (if has_key key (key r) rows
      then map (\<lambda>q. if key q = key r then merge q r else q) rows
      else rows @ [r])"

definition sql_delete :: "('r \<Rightarrow> bool) \<Rightarrow> 'r list \<Rightarrow> 'r list" where
  "sql_delete P rows = filter (\<lambda>r. \<not> P r) rows"

definition sql_update :: "('r \<Rightarrow> bool) \<Rightarrow> ('r \<Rightarrow> 'r) \<Rightarrow> 'r list \<Rightarrow> 'r list" where
  "sql_update P f rows = map (\<lambda>r. if P r then f r else r) rows"

text \<open>The number of rows a \<open>DELETE\<close> or an \<open>UPDATE\<close> with this condition reports.\<close>

definition sql_count :: "('r \<Rightarrow> bool) \<Rightarrow> 'r list \<Rightarrow> nat" where
  "sql_count P rows = length (filter P rows)"

text \<open>\<open>query_row\<close> reads the first row of the result; \<open>None\<close> is \<open>QueryReturnedNoRows\<close>.\<close>

definition sql_first :: "('r \<Rightarrow> bool) \<Rightarrow> 'r list \<Rightarrow> 'r option" where
  "sql_first P rows = find P rows"

text \<open>\<open>SELECT ... ORDER BY k ASC LIMIT n\<close>.\<close>

definition sql_order_limit :: "('r \<Rightarrow> 'o :: linorder) \<Rightarrow> nat \<Rightarrow> ('r \<Rightarrow> bool) \<Rightarrow> 'r list \<Rightarrow> 'r list" where
  "sql_order_limit k n P rows = take n (sort_key k (filter P rows))"

section \<open>Tables with a primary key\<close>

definition tbl_ok :: "('r \<Rightarrow> 'k) \<Rightarrow> 'r list \<Rightarrow> bool" where
  "tbl_ok key rows = distinct (map key rows)"

definition tbl_get :: "('r \<Rightarrow> 'k) \<Rightarrow> 'r list \<Rightarrow> 'k \<Rightarrow> 'r option" where
  "tbl_get key rows k = find (\<lambda>r. key r = k) rows"

lemma has_key_iff [sql]: "has_key key k rows \<longleftrightarrow> k \<in> key ` set rows"
  by (auto simp: has_key_def)

lemma tbl_ok_Nil [simp]: "tbl_ok key []"
  by (simp add: tbl_ok_def)

lemma tbl_ok_insert [intro]:
  "tbl_ok key rows \<Longrightarrow> sql_insert key r rows = Some rows' \<Longrightarrow> tbl_ok key rows'"
  by (auto simp: tbl_ok_def sql_insert_def has_key_iff split: if_splits)

lemma tbl_ok_delete [intro, simp]: "tbl_ok key rows \<Longrightarrow> tbl_ok key (sql_delete P rows)"
  by (simp add: tbl_ok_def sql_delete_def distinct_map_filter)

lemma tbl_ok_update [intro]:
  assumes "tbl_ok key rows" and "\<And>r. key (f r) = key r"
  shows "tbl_ok key (sql_update P f rows)"
proof -
  have "map key (sql_update P f rows) = map key rows"
    by (simp add: sql_update_def assms(2))
  with assms(1) show ?thesis by (simp add: tbl_ok_def)
qed

lemma tbl_ok_upsert [intro]:
  assumes "tbl_ok key rows" and "\<And>q. key q = key r \<Longrightarrow> key (merge q r) = key q"
  shows "tbl_ok key (sql_upsert key merge r rows)"
proof (cases "has_key key (key r) rows")
  case True
  have "map key (map (\<lambda>q. if key q = key r then merge q r else q) rows) = map key rows"
    using assms(2) by auto
  with True assms(1) show ?thesis by (simp only: tbl_ok_def sql_upsert_def if_True)
qed (use assms(1) in \<open>auto simp: tbl_ok_def sql_upsert_def has_key_iff\<close>)

lemma tbl_get_Some: "tbl_get key rows k = Some r \<Longrightarrow> r \<in> set rows \<and> key r = k"
  by (auto simp: tbl_get_def find_Some_iff)

lemma tbl_get_None: "tbl_get key rows k = None \<longleftrightarrow> k \<notin> key ` set rows"
  by (auto simp: tbl_get_def find_None_iff)

lemma tbl_get_in:
  "tbl_ok key rows \<Longrightarrow> r \<in> set rows \<Longrightarrow> tbl_get key rows (key r) = Some r"
  by (induction rows) (auto simp: tbl_ok_def tbl_get_def rev_image_eqI)

lemma tbl_get_iff:
  "tbl_ok key rows \<Longrightarrow> tbl_get key rows k = Some r \<longleftrightarrow> r \<in> set rows \<and> key r = k"
  using tbl_get_in tbl_get_Some by metis

lemma find_append:
  "find P (xs @ ys) = (case find P xs of None \<Rightarrow> find P ys | Some x \<Rightarrow> Some x)"
  by (induction xs) auto

lemma tbl_get_snoc:
  "tbl_get key (rows @ [r]) k
   = (case tbl_get key rows k of None \<Rightarrow> if key r = k then Some r else None | Some q \<Rightarrow> Some q)"
  by (simp add: tbl_get_def find_append split: option.splits)

lemma tbl_get_insert [sql]:
  assumes "sql_insert key r rows = Some rows'"
  shows "tbl_get key rows' k = (if k = key r then Some r else tbl_get key rows k)"
proof -
  from assms have "rows' = rows @ [r]" and "tbl_get key rows (key r) = None"
    by (auto simp: sql_insert_def has_key_iff tbl_get_None split: if_splits)
  then show ?thesis by (auto simp: tbl_get_snoc split: option.splits)
qed

lemma find_map_if:
  "(\<And>r. key (f r) = key r) \<Longrightarrow>
   find (\<lambda>r. key r = k) (map (\<lambda>r. if P r then f r else r) rows)
   = map_option (\<lambda>r. if P r then f r else r) (find (\<lambda>r. key r = k) rows)"
  by (induction rows) auto

lemma tbl_get_update [sql]:
  "(\<And>r. key (f r) = key r) \<Longrightarrow>
   tbl_get key (sql_update P f rows) k = map_option (\<lambda>r. if P r then f r else r) (tbl_get key rows k)"
  by (simp add: tbl_get_def sql_update_def find_map_if)

lemma tbl_key_unique:
  "tbl_ok key rows \<Longrightarrow> r \<in> set rows \<Longrightarrow> r' \<in> set rows \<Longrightarrow> key r = key r' \<Longrightarrow> r = r'"
  by (metis tbl_get_in option.inject)

lemma tbl_get_delete [sql]:
  assumes ok: "tbl_ok key rows"
  shows "tbl_get key (sql_delete P rows) k =
     (case tbl_get key rows k of None \<Rightarrow> None | Some r \<Rightarrow> if P r then None else Some r)"
proof (cases "tbl_get key rows k")
  case None
  moreover from None have "tbl_get key (sql_delete P rows) k = None"
    by (auto simp: tbl_get_None sql_delete_def)
  ultimately show ?thesis by simp
next
  case (Some r)
  with ok have r: "r \<in> set rows" "key r = k" by (auto simp: tbl_get_iff)
  show ?thesis
  proof (cases "P r")
    case True
    then have "k \<notin> key ` set (sql_delete P rows)"
      using tbl_key_unique [OF ok r(1)] r(2) by (auto simp: sql_delete_def)
    with True Some show ?thesis by (simp add: tbl_get_None)
  next
    case False
    then have "tbl_get key (sql_delete P rows) k = Some r"
      using ok r by (subst tbl_get_iff) (simp_all add: sql_delete_def tbl_ok_def distinct_map_filter)
    with False Some show ?thesis by simp
  qed
qed

lemma tbl_get_upsert_other:
  assumes "k \<noteq> key r" and "\<And>q. key q = key r \<Longrightarrow> key (merge q r) = key q"
  shows "tbl_get key (sql_upsert key merge r rows) k = tbl_get key rows k"
proof -
  have "find (\<lambda>q. key q = k) (map (\<lambda>q. if key q = key r then merge q r else q) rows)
        = find (\<lambda>q. key q = k) rows"
    using assms by (induction rows) auto
  moreover have "find (\<lambda>q. key q = k) (rows @ [r]) = find (\<lambda>q. key q = k) rows"
    using assms(1) by (simp add: find_append split: option.splits)
  ultimately show ?thesis by (simp add: tbl_get_def sql_upsert_def)
qed

lemma tbl_get_upsert_same:
  assumes "\<And>q. key q = key r \<Longrightarrow> key (merge q r) = key q"
  shows "tbl_get key (sql_upsert key merge r rows) (key r)
         = Some (case tbl_get key rows (key r) of None \<Rightarrow> r | Some q \<Rightarrow> merge q r)"
proof (cases "tbl_get key rows (key r)")
  case None
  then have "sql_upsert key merge r rows = rows @ [r]"
    by (simp add: tbl_get_None sql_upsert_def has_key_iff)
  with None show ?thesis by (simp add: tbl_get_snoc)
next
  case (Some q)
  have "find (\<lambda>q. key q = key r) (map (\<lambda>q. if key q = key r then merge q r else q) rows)
        = map_option (\<lambda>q. merge q r) (find (\<lambda>q. key q = key r) rows)"
    using assms by (induction rows) auto
  moreover from Some have "has_key key (key r) rows"
    using tbl_get_Some [OF Some] by (auto simp: has_key_def)
  ultimately show ?thesis using Some by (simp add: tbl_get_def sql_upsert_def)
qed

lemma sql_first_Some: "sql_first P rows = Some r \<Longrightarrow> r \<in> set rows \<and> P r"
  by (auto simp: sql_first_def find_Some_iff)

lemma sql_first_key:
  assumes ok: "tbl_ok key rows"
  shows "sql_first (\<lambda>r. key r = k \<and> P r) rows
   = (case tbl_get key rows k of None \<Rightarrow> None | Some r \<Rightarrow> if P r then Some r else None)"
proof (cases "sql_first (\<lambda>r. key r = k \<and> P r) rows")
  case None
  then have "\<forall>r \<in> set rows. key r = k \<longrightarrow> \<not> P r" by (auto simp: sql_first_def find_None_iff)
  with None ok show ?thesis by (auto simp: tbl_get_iff split: option.splits)
next
  case (Some r)
  then have r: "r \<in> set rows" "key r = k" "P r" by (auto dest: sql_first_Some)
  with ok have "tbl_get key rows k = Some r" by (simp add: tbl_get_iff)
  with Some r show ?thesis by simp
qed

lemma sql_count_0: "sql_count P rows = 0 \<longleftrightarrow> (\<forall>r \<in> set rows. \<not> P r)"
  by (simp add: sql_count_def filter_empty_conv)

lemma sql_count_pos: "0 < sql_count P rows \<longleftrightarrow> (\<exists>r \<in> set rows. P r)"
  by (metis neq0_conv sql_count_0)

lemma sql_delete_none: "sql_count P rows = 0 \<Longrightarrow> sql_delete P rows = rows"
  by (simp add: sql_count_0 sql_delete_def)

lemma sql_miss: "sql_first P rows = None \<Longrightarrow> sql_delete P rows = rows"
  by (simp add: sql_first_def sql_delete_def find_None_iff)

lemma sql_delete_subset: "set (sql_delete P rows) \<subseteq> set rows"
  by (auto simp: sql_delete_def)

lemma sql_delete_count: "length (sql_delete P rows) + sql_count P rows = length rows"
  using sum_length_filter_compl [of P rows] by (simp add: sql_delete_def sql_count_def)

lemma has_key_upsert:
  assumes "\<And>q. key q = key r \<Longrightarrow> key (merge q r) = key q" and "has_key key k rows"
  shows "has_key key k (sql_upsert key merge r rows)"
proof -
  from assms(2) obtain q where q: "q \<in> set rows" "key q = k" by (auto simp: has_key_def)
  let ?g = "\<lambda>q. if key q = key r then merge q r else q"
  have "key (?g q) = k" using assms(1) q by simp
  with q show ?thesis by (force simp: has_key_def sql_upsert_def)
qed

lemma set_sql_upsert:
  "r' \<in> set (sql_upsert key merge r rows) \<Longrightarrow>
   r' \<in> set rows \<or> r' = r \<or> (\<exists>q \<in> set rows. key q = key r \<and> r' = merge q r)"
  by (auto simp: sql_upsert_def split: if_splits)

lemma set_sql_insert: "sql_insert key r rows = Some rows' \<Longrightarrow> set rows' = insert r (set rows)"
  by (auto simp: sql_insert_def split: if_splits)

lemma set_sql_update: "r' \<in> set (sql_update P f rows) \<Longrightarrow> r' \<in> set rows \<or> (\<exists>q \<in> set rows. P q \<and> r' = f q)"
  by (auto simp: sql_update_def split: if_splits)

end
