(* ===== verification/Auth_Store.thy ===== *)
theory Auth_Store
  imports Auth_Types Sql_Table
begin

text \<open>
  The persistent state of the authorization server: the tables of \<open>sqlite.rs\<close> and the
  operations of \<open>SqliteStore\<close> on them (\<open>sqlite.rs\<close>, \<open>sqlite/tokens.rs\<close>,
  \<open>sqlite/google_credentials.rs\<close>, \<open>sqlite/assertions.rs\<close>), on the current schema.

  An operation takes its arguments, the wall clock where it reads it, and the database; it
  returns its result and the database after it. A statement is atomic and a transaction commits
  or leaves the database as it was, so an operation that sends one statement or one transaction
  is one step. Columns that hold JSON written and read by the store itself (redirect URIs,
  Google scopes) are kept as the value they encode. An I/O failure of SQLite is the error
  \<open>AStorage\<close> with no effect, and is left out.
\<close>

section \<open>Tables\<close>

record refresh_token_db =
  rd_hash :: string
  rd_client_id :: string
  rd_subject :: string
  rd_resource :: string
  rd_scope :: string
  rd_provider_refresh_token :: "string option"
  rd_created_at :: int
  rd_expires_at :: int
  rd_claim_id :: "string option"
  rd_claim_expires_at :: "int option"

record upstream_state_db = upstream_state_row +
  us_dynamic_client_id :: "string option"

record dynamic_client_db =
  dc_upstream_name :: string
  dc_subject :: string
  dc_client_id :: string
  dc_created_at :: int

record assertion_jti_db =
  aj_issuer :: string
  aj_jti :: string
  aj_expires_at :: int

record auth_db =
  clients :: "registered_client list"
  auth_requests :: "authorization_request_row list"
  auth_codes :: "authorization_code_row list"
  refresh_tokens :: "refresh_token_db list"
  google_creds :: "google_credential_row list"
  assertion_jtis :: "assertion_jti_db list"
  browser_sessions :: "browser_session_row list"
  browser_login_states :: "browser_login_state_row list"
  native_results :: "native_result_row list"
  upstream_creds :: "upstream_credential_row list"
  upstream_states :: "upstream_state_db list"
  dynamic_clients :: "dynamic_client_db list"
  allowed_users :: "allowed_user_row list"

definition uc_key :: "upstream_credential_row \<Rightarrow> string \<times> string" where
  "uc_key r = (uc_upstream_name r, uc_subject r)"

definition us_key :: "'a upstream_state_row_scheme \<Rightarrow> string \<times> string \<times> string" where
  "us_key r = (us_upstream_name r, us_subject r, us_csrf_token r)"

definition dc_key :: "dynamic_client_db \<Rightarrow> string \<times> string" where
  "dc_key r = (dc_upstream_name r, dc_subject r)"

definition aj_key :: "assertion_jti_db \<Rightarrow> string \<times> string" where
  "aj_key r = (aj_issuer r, aj_jti r)"

definition empty_db :: auth_db where
  "empty_db = \<lparr>clients = [], auth_requests = [], auth_codes = [], refresh_tokens = [],
     google_creds = [], assertion_jtis = [], browser_sessions = [], browser_login_states = [],
     native_results = [], upstream_creds = [], upstream_states = [], dynamic_clients = [],
     allowed_users = []\<rparr>"

section \<open>Clients\<close>

text \<open>
  The table has no columns for the authentication method and the key set: they are not written,
  and a row that is read back has the method \<open>none\<close> and no keys.
\<close>

definition client_row :: "registered_client \<Rightarrow> registered_client" where
  "client_row c = c\<lparr>rc_token_endpoint_auth_method := ''none'', rc_jwks := None\<rparr>"

definition register_client :: "registered_client \<Rightarrow> auth_db \<Rightarrow> (auth_error + unit) \<times> auth_db" where
  "register_client c db =
     (Inr (), db\<lparr>clients := sql_upsert rc_client_id
        (\<lambda>old new. old\<lparr>rc_redirect_uris := rc_redirect_uris new, rc_created_at := rc_created_at new\<rparr>)
        (client_row c) (clients db)\<rparr>)"

definition find_client :: "string \<Rightarrow> auth_db \<Rightarrow> auth_error + registered_client option" where
  "find_client cid db = Inr (sql_first (\<lambda>c. rc_client_id c = cid) (clients db))"

section \<open>Authorization requests and codes\<close>

definition insert_authorization_request ::
    "authorization_request_row \<Rightarrow> auth_db \<Rightarrow> (auth_error + unit) \<times> auth_db" where
  "insert_authorization_request r db =
     (case sql_insert ar_state r (auth_requests db) of
        None \<Rightarrow> (Inl (unique_failed ''authorization_requests.state''), db)
      | Some rows \<Rightarrow> (Inr (), db\<lparr>auth_requests := rows\<rparr>))"

definition take_authorization_request ::
    "string \<Rightarrow> int \<Rightarrow> auth_db \<Rightarrow> (auth_error + authorization_request_row) \<times> auth_db" where
  "take_authorization_request st now db =
     (let P = (\<lambda>r. ar_state r = st \<and> ar_expires_at r > now)
      in (ok_or (sql_first P (auth_requests db))
            (AInvalidGrant ''authorization state is missing, expired, or already used''),
          db\<lparr>auth_requests := sql_delete P (auth_requests db)\<rparr>))"

definition insert_auth_code ::
    "authorization_code_row \<Rightarrow> auth_db \<Rightarrow> (auth_error + unit) \<times> auth_db" where
  "insert_auth_code r db =
     (case sql_insert ac_code r (auth_codes db) of
        None \<Rightarrow> (Inl (unique_failed ''authorization_codes.code''), db)
      | Some rows \<Rightarrow> (Inr (), db\<lparr>auth_codes := rows\<rparr>))"

definition redeem_auth_code ::
    "string \<Rightarrow> int \<Rightarrow> auth_db \<Rightarrow> (auth_error + authorization_code_row) \<times> auth_db" where
  "redeem_auth_code c now db =
     (let P = (\<lambda>r. ac_code r = c \<and> ac_expires_at r > now)
      in (ok_or (sql_first P (auth_codes db))
            (AInvalidGrant ''authorization code is missing, expired, or already redeemed''),
          db\<lparr>auth_codes := sql_delete P (auth_codes db)\<rparr>))"

section \<open>Browser sessions and logins\<close>

definition upsert_browser_session ::
    "browser_session_row \<Rightarrow> auth_db \<Rightarrow> (auth_error + unit) \<times> auth_db" where
  "upsert_browser_session s db =
     (Inr (), db\<lparr>browser_sessions := sql_upsert bs_session_id
        (\<lambda>old new. old\<lparr>bs_subject := bs_subject new, bs_email := bs_email new,
           bs_csrf_token := bs_csrf_token new, bs_created_at := bs_created_at new,
           bs_expires_at := bs_expires_at new\<rparr>) s (browser_sessions db)\<rparr>)"

definition find_browser_session ::
    "string \<Rightarrow> int \<Rightarrow> auth_db \<Rightarrow> auth_error + browser_session_row option" where
  "find_browser_session sid now db =
     Inr (sql_first (\<lambda>s. bs_session_id s = sid \<and> bs_expires_at s > now) (browser_sessions db))"

definition revoke_browser_session :: "string \<Rightarrow> auth_db \<Rightarrow> (auth_error + unit) \<times> auth_db" where
  "revoke_browser_session sid db =
     (Inr (), db\<lparr>browser_sessions :=
        sql_delete (\<lambda>s. bs_session_id s = sid) (browser_sessions db)\<rparr>)"

definition insert_browser_login_state ::
    "browser_login_state_row \<Rightarrow> auth_db \<Rightarrow> (auth_error + unit) \<times> auth_db" where
  "insert_browser_login_state r db =
     (case sql_insert bl_state r (browser_login_states db) of
        None \<Rightarrow> (Inl (unique_failed ''browser_login_states.state''), db)
      | Some rows \<Rightarrow> (Inr (), db\<lparr>browser_login_states := rows\<rparr>))"

definition count_pending_oauth_states :: "int \<Rightarrow> auth_db \<Rightarrow> auth_error + nat" where
  "count_pending_oauth_states now db =
     Inr (sql_count (\<lambda>r. ar_expires_at r > now) (auth_requests db)
          + sql_count (\<lambda>r. bl_expires_at r > now) (browser_login_states db)
          + sql_count (\<lambda>r. nr_expires_at r > now) (native_results db))"

definition take_browser_login_state ::
    "string \<Rightarrow> int \<Rightarrow> auth_db \<Rightarrow> (auth_error + browser_login_state_row option) \<times> auth_db" where
  "take_browser_login_state st now db =
     (let P = (\<lambda>r. bl_state r = st \<and> bl_expires_at r > now)
      in (Inr (sql_first P (browser_login_states db)),
          db\<lparr>browser_login_states := sql_delete P (browser_login_states db)\<rparr>))"

definition insert_native_authorization_result ::
    "native_result_row \<Rightarrow> auth_db \<Rightarrow> (auth_error + unit) \<times> auth_db" where
  "insert_native_authorization_result r db =
     (Inr (), db\<lparr>native_results := sql_upsert nr_state
        (\<lambda>old new. old\<lparr>nr_code := nr_code new, nr_created_at := nr_created_at new,
           nr_expires_at := nr_expires_at new\<rparr>) r (native_results db)\<rparr>)"

definition take_native_authorization_result ::
    "string \<Rightarrow> int \<Rightarrow> auth_db \<Rightarrow> (auth_error + native_result_row option) \<times> auth_db" where
  "take_native_authorization_result st now db =
     (let P = (\<lambda>r. nr_state r = st \<and> nr_expires_at r > now)
      in (Inr (sql_first P (native_results db)),
          db\<lparr>native_results := sql_delete P (native_results db)\<rparr>))"

section \<open>Expiry\<close>

text \<open>The deletions run one after the other; the count is their sum.\<close>

definition cleanup_expired :: "int \<Rightarrow> auth_db \<Rightarrow> (auth_error + nat) \<times> auth_db" where
  "cleanup_expired now db =
     (Inr (sql_count (\<lambda>r. ar_expires_at r \<le> now) (auth_requests db)
           + sql_count (\<lambda>r. ac_expires_at r \<le> now) (auth_codes db)
           + sql_count (\<lambda>r. rd_expires_at r \<le> now) (refresh_tokens db)
           + sql_count (\<lambda>r. bs_expires_at r \<le> now) (browser_sessions db)
           + sql_count (\<lambda>r. bl_expires_at r \<le> now) (browser_login_states db)
           + sql_count (\<lambda>r. nr_expires_at r \<le> now) (native_results db)
           + sql_count (\<lambda>r. us_expires_at r \<le> now) (upstream_states db)
           + sql_count (\<lambda>r. uc_access_token_expires_at r \<le> now \<and> \<not> uc_refresh_token_present r)
               (upstream_creds db)),
      db\<lparr>auth_requests := sql_delete (\<lambda>r. ar_expires_at r \<le> now) (auth_requests db),
         auth_codes := sql_delete (\<lambda>r. ac_expires_at r \<le> now) (auth_codes db),
         refresh_tokens := sql_delete (\<lambda>r. rd_expires_at r \<le> now) (refresh_tokens db),
         browser_sessions := sql_delete (\<lambda>r. bs_expires_at r \<le> now) (browser_sessions db),
         browser_login_states := sql_delete (\<lambda>r. bl_expires_at r \<le> now) (browser_login_states db),
         native_results := sql_delete (\<lambda>r. nr_expires_at r \<le> now) (native_results db),
         upstream_states := sql_delete (\<lambda>r. us_expires_at r \<le> now) (upstream_states db),
         upstream_creds :=
           sql_delete (\<lambda>r. uc_access_token_expires_at r \<le> now \<and> \<not> uc_refresh_token_present r)
             (upstream_creds db)\<rparr>)"

section \<open>Upstream OAuth\<close>

definition upsert_upstream_oauth_credentials ::
    "upstream_credential_row \<Rightarrow> auth_db \<Rightarrow> (auth_error + unit) \<times> auth_db" where
  "upsert_upstream_oauth_credentials r db =
     (Inr (), db\<lparr>upstream_creds := sql_upsert uc_key
        (\<lambda>old new. old\<lparr>uc_client_id := uc_client_id new,
           uc_granted_scopes_json := uc_granted_scopes_json new,
           uc_token_blob := uc_token_blob new, uc_token_blob_nonce := uc_token_blob_nonce new,
           uc_token_received_at := uc_token_received_at new,
           uc_access_token_expires_at := uc_access_token_expires_at new,
           uc_refresh_token_present := uc_refresh_token_present new\<rparr>) r (upstream_creds db)\<rparr>)"

definition find_upstream_oauth_credentials ::
    "string \<Rightarrow> string \<Rightarrow> auth_db \<Rightarrow> auth_error + upstream_credential_row option" where
  "find_upstream_oauth_credentials u s db =
     Inr (sql_first (\<lambda>r. uc_upstream_name r = u \<and> uc_subject r = s) (upstream_creds db))"

definition delete_upstream_oauth_credentials ::
    "string \<Rightarrow> string \<Rightarrow> auth_db \<Rightarrow> (auth_error + unit) \<times> auth_db" where
  "delete_upstream_oauth_credentials u s db =
     (Inr (), db\<lparr>upstream_creds :=
        sql_delete (\<lambda>r. uc_upstream_name r = u \<and> uc_subject r = s) (upstream_creds db)\<rparr>)"

definition upstream_oauth_state_max_ttl_secs :: int where
  "upstream_oauth_state_max_ttl_secs = 600"

text \<open>The subtraction is unchecked \<open>i64\<close> arithmetic: in a release build it wraps.\<close>

definition save_upstream_oauth_state ::
    "upstream_state_row \<Rightarrow> auth_db \<Rightarrow> (auth_error + unit) \<times> auth_db" where
  "save_upstream_oauth_state r db =
     (if us_expires_at r \<le> us_created_at r
         \<or> i64_wrap (us_expires_at r - us_created_at r) > upstream_oauth_state_max_ttl_secs
      then (Inl (AInvalidGrant ''state TTL exceeds 600s''), db)
      else (case sql_insert us_key
              (upstream_state_row.extend r \<lparr>us_dynamic_client_id = None\<rparr>) (upstream_states db) of
              None \<Rightarrow> (Inl (unique_failed
                ''upstream_oauth_state.upstream_name, upstream_oauth_state.subject, upstream_oauth_state.csrf_token''), db)
            | Some rows \<Rightarrow> (Inr (), db\<lparr>upstream_states := rows\<rparr>)))"

definition find_upstream_oauth_state_subject ::
    "string \<Rightarrow> string \<Rightarrow> int \<Rightarrow> auth_db \<Rightarrow> auth_error + string option" where
  "find_upstream_oauth_state_subject u csrf now db =
     Inr (map_option us_subject (sql_first
       (\<lambda>r. us_upstream_name r = u \<and> us_csrf_token r = csrf \<and> us_expires_at r > now)
       (upstream_states db)))"

definition find_upstream_oauth_state_owner ::
    "string \<Rightarrow> int \<Rightarrow> auth_db \<Rightarrow> auth_error + (string \<times> string) option" where
  "find_upstream_oauth_state_owner csrf now db =
     Inr (map_option (\<lambda>r. (us_upstream_name r, us_subject r))
       (sql_first (\<lambda>r. us_csrf_token r = csrf \<and> us_expires_at r > now) (upstream_states db)))"

definition delete_upstream_oauth_state_by_csrf ::
    "string \<Rightarrow> int \<Rightarrow> auth_db \<Rightarrow> (auth_error + unit) \<times> auth_db" where
  "delete_upstream_oauth_state_by_csrf csrf now db =
     (Inr (), db\<lparr>upstream_states :=
        sql_delete (\<lambda>r. us_csrf_token r = csrf \<and> us_expires_at r > now) (upstream_states db)\<rparr>)"

definition set_upstream_oauth_state_client_id ::
    "string \<Rightarrow> string \<Rightarrow> string \<Rightarrow> auth_db \<Rightarrow> (auth_error + unit) \<times> auth_db" where
  "set_upstream_oauth_state_client_id u csrf cid db =
     (Inr (), db\<lparr>upstream_states :=
        sql_update (\<lambda>r. us_upstream_name r = u \<and> us_csrf_token r = csrf)
          (\<lambda>r. r\<lparr>us_dynamic_client_id := Some cid\<rparr>) (upstream_states db)\<rparr>)"

definition get_upstream_oauth_state_client_id ::
    "string \<Rightarrow> string \<Rightarrow> int \<Rightarrow> auth_db \<Rightarrow> auth_error + string option" where
  "get_upstream_oauth_state_client_id u csrf now db =
     Inr (Option.bind (sql_first
       (\<lambda>r. us_upstream_name r = u \<and> us_csrf_token r = csrf \<and> us_expires_at r > now)
       (upstream_states db)) us_dynamic_client_id)"

definition take_upstream_oauth_state ::
    "string \<Rightarrow> string \<Rightarrow> string \<Rightarrow> int \<Rightarrow> auth_db \<Rightarrow>
     (auth_error + upstream_state_row option) \<times> auth_db" where
  "take_upstream_oauth_state u s csrf now db =
     (let P = (\<lambda>r. us_upstream_name r = u \<and> us_subject r = s \<and> us_csrf_token r = csrf
                   \<and> us_expires_at r > now)
      in (Inr (map_option upstream_state_row.truncate (sql_first P (upstream_states db))),
          db\<lparr>upstream_states := sql_delete P (upstream_states db)\<rparr>))"

definition save_dynamic_client_registration ::
    "string \<Rightarrow> string \<Rightarrow> string \<Rightarrow> int \<Rightarrow> auth_db \<Rightarrow> (auth_error + unit) \<times> auth_db" where
  "save_dynamic_client_registration u s cid now db =
     (Inr (), db\<lparr>dynamic_clients := sql_upsert dc_key
        (\<lambda>old new. old\<lparr>dc_client_id := dc_client_id new, dc_created_at := dc_created_at new\<rparr>)
        \<lparr>dc_upstream_name = u, dc_subject = s, dc_client_id = cid, dc_created_at = now\<rparr>
        (dynamic_clients db)\<rparr>)"

definition find_dynamic_client_registration ::
    "string \<Rightarrow> string \<Rightarrow> auth_db \<Rightarrow> auth_error + string option" where
  "find_dynamic_client_registration u s db =
     Inr (map_option dc_client_id
       (sql_first (\<lambda>r. dc_upstream_name r = u \<and> dc_subject r = s) (dynamic_clients db)))"

definition delete_dynamic_client_registration ::
    "string \<Rightarrow> string \<Rightarrow> auth_db \<Rightarrow> (auth_error + unit) \<times> auth_db" where
  "delete_dynamic_client_registration u s db =
     (Inr (), db\<lparr>dynamic_clients :=
        sql_delete (\<lambda>r. dc_upstream_name r = u \<and> dc_subject r = s) (dynamic_clients db)\<rparr>)"

section \<open>The allowlist\<close>

definition add_allowed_user ::
    "auth_env \<Rightarrow> string \<Rightarrow> string \<Rightarrow> int \<Rightarrow> auth_db \<Rightarrow> (auth_error + unit) \<times> auth_db" where
  "add_allowed_user env email0 added_by created_at db =
     (let email = unicode_lowercase env email0
      in case sql_insert au_email
           \<lparr>au_email = email, au_added_by = added_by, au_created_at = created_at\<rparr>
           (allowed_users db) of
           None \<Rightarrow> (Inl (AValidation (''email fingerprint '' @ fingerprint env email
                     @ '' is already in the allowlist'')), db)
         | Some rows \<Rightarrow> (Inr (), db\<lparr>allowed_users := rows\<rparr>))"

definition remove_allowed_user ::
    "auth_env \<Rightarrow> string \<Rightarrow> auth_db \<Rightarrow> (auth_error + unit) \<times> auth_db" where
  "remove_allowed_user env email0 db =
     (Inr (), db\<lparr>allowed_users :=
        sql_delete (\<lambda>r. au_email r = unicode_lowercase env email0) (allowed_users db)\<rparr>)"

definition list_allowed_users :: "auth_db \<Rightarrow> auth_error + allowed_user_row list" where
  "list_allowed_users db = Inr (sort_key au_created_at (allowed_users db))"

end
