(* ===== verification/Auth_Tokens.thy ===== *)
theory Auth_Tokens
  imports Auth_Store "HOL-Library.List_Lexorder" "HOL-Library.Char_ord"
begin

text \<open>
  The second half of \<open>SqliteStore\<close>: refresh tokens and their leases (\<open>sqlite/tokens.rs\<close>), the
  central Google credential with its generation counter (\<open>sqlite/tokens.rs\<close>,
  \<open>sqlite/google_credentials.rs\<close>) and the replay table of signed assertions
  (\<open>sqlite/assertions.rs\<close>).
\<close>

section \<open>Refresh tokens\<close>

definition read_refresh_row ::
    "auth_env \<Rightarrow> string \<Rightarrow> refresh_token_db \<Rightarrow> auth_error + refresh_token_row" where
  "read_refresh_row env plaintext r =
     (let row = \<lparr>rt_refresh_token = plaintext, rt_client_id = rd_client_id r,
                 rt_subject = rd_subject r, rt_resource = rd_resource r, rt_scope = rd_scope r,
                 rt_provider_refresh_token = rd_provider_refresh_token r,
                 rt_created_at = rd_created_at r, rt_expires_at = rd_expires_at r\<rparr>
      in case rt_provider_refresh_token row of
           None \<Rightarrow> Inr row
         | Some raw \<Rightarrow> and_then (maybe_decrypt env (enc_key env) raw)
             (\<lambda>t. Inr (row\<lparr>rt_provider_refresh_token := Some t\<rparr>)))"

text \<open>
  The lease is committed before the provider token is decrypted, so a decryption error is
  returned with the lease in place.
\<close>

definition claimable :: "string \<Rightarrow> int \<Rightarrow> refresh_token_db \<Rightarrow> bool" where
  "claimable h now r =
     (rd_hash r = h \<and> rd_expires_at r > now
      \<and> (rd_claim_id r = None
         \<or> (case rd_claim_expires_at r of None \<Rightarrow> False | Some e \<Rightarrow> e \<le> now)))"

definition claim_refresh_token ::
    "auth_env \<Rightarrow> string \<Rightarrow> string \<Rightarrow> int \<Rightarrow> int \<Rightarrow> auth_db \<Rightarrow>
     (auth_error + refresh_token_row option) \<times> auth_db" where
  "claim_refresh_token env token cid lease now db =
     (let h = hash_token env token
      in if sql_count (claimable h now) (refresh_tokens db) = 0 then (Inr None, db)
         else
           let rows = sql_update (claimable h now)
                 (\<lambda>r. r\<lparr>rd_claim_id := Some cid, rd_claim_expires_at := Some lease\<rparr>)
                 (refresh_tokens db)
           in case sql_first (\<lambda>r. rd_hash r = h \<and> rd_claim_id r = Some cid) rows of
                None \<Rightarrow> (Inl (sqlite_error ''Query returned no rows''), db)
              | Some r \<Rightarrow> (and_then (read_refresh_row env token r) (\<lambda>row. Inr (Some row)),
                           db\<lparr>refresh_tokens := rows\<rparr>))"

definition release_refresh_claim ::
    "auth_env \<Rightarrow> string \<Rightarrow> string \<Rightarrow> auth_db \<Rightarrow> (auth_error + unit) \<times> auth_db" where
  "release_refresh_claim env token cid db =
     (Inr (), db\<lparr>refresh_tokens := sql_update
        (\<lambda>r. rd_hash r = hash_token env token \<and> rd_claim_id r = Some cid)
        (\<lambda>r. r\<lparr>rd_claim_id := None, rd_claim_expires_at := None\<rparr>) (refresh_tokens db)\<rparr>)"

text \<open>
  The provider token is encrypted before the database is touched. The insertion fails when the
  client is not registered: the column references \<open>registered_clients\<close>.
\<close>

definition encrypt_provider_rt ::
    "auth_env \<Rightarrow> string + string \<Rightarrow> string option \<Rightarrow> auth_error + string option" where
  "encrypt_provider_rt env rng p =
     (case p of None \<Rightarrow> Inr None
      | Some raw \<Rightarrow> and_then (maybe_encrypt env (enc_key env) rng raw) (\<lambda>s. Inr (Some s)))"

definition refresh_db_row ::
    "auth_env \<Rightarrow> refresh_token_row \<Rightarrow> string option \<Rightarrow> refresh_token_db" where
  "refresh_db_row env t enc =
     \<lparr>rd_hash = hash_token env (rt_refresh_token t), rd_client_id = rt_client_id t,
      rd_subject = rt_subject t, rd_resource = rt_resource t, rd_scope = rt_scope t,
      rd_provider_refresh_token = enc, rd_created_at = rt_created_at t,
      rd_expires_at = rt_expires_at t, rd_claim_id = None, rd_claim_expires_at = None\<rparr>"

definition client_known :: "string \<Rightarrow> auth_db \<Rightarrow> bool" where
  "client_known cid db = has_key rc_client_id cid (clients db)"

definition upsert_refresh_token ::
    "auth_env \<Rightarrow> string + string \<Rightarrow> refresh_token_row \<Rightarrow> auth_db \<Rightarrow> (auth_error + unit) \<times> auth_db" where
  "upsert_refresh_token env rng t db =
     (case encrypt_provider_rt env rng (rt_provider_refresh_token t) of
        Inl e \<Rightarrow> (Inl e, db)
      | Inr enc \<Rightarrow>
          if \<not> client_known (rt_client_id t) db then (Inl foreign_key_failed, db)
          else (Inr (), db\<lparr>refresh_tokens := sql_upsert rd_hash
             (\<lambda>old new. old\<lparr>rd_client_id := rd_client_id new, rd_subject := rd_subject new,
                rd_resource := rd_resource new, rd_scope := rd_scope new,
                rd_provider_refresh_token := rd_provider_refresh_token new,
                rd_created_at := rd_created_at new, rd_expires_at := rd_expires_at new\<rparr>)
             (refresh_db_row env t enc) (refresh_tokens db)\<rparr>))"

definition insert_refresh_row ::
    "refresh_token_db \<Rightarrow> auth_db \<Rightarrow> auth_error + auth_db" where
  "insert_refresh_row r db =
     (case sql_insert rd_hash r (refresh_tokens db) of
        None \<Rightarrow> Inl (unique_failed ''refresh_tokens.refresh_token_hash'')
      | Some rows \<Rightarrow>
          if client_known (rd_client_id r) db then Inr (db\<lparr>refresh_tokens := rows\<rparr>)
          else Inl foreign_key_failed)"

text \<open>
  Both rotations delete and insert in one transaction: when nothing was deleted, or the
  insertion fails, the transaction is dropped and rolls back.
\<close>

definition rotate_where ::
    "(refresh_token_db \<Rightarrow> bool) \<Rightarrow> auth_env \<Rightarrow> string + string \<Rightarrow> refresh_token_row \<Rightarrow> auth_db \<Rightarrow>
     (auth_error + refresh_token_row option) \<times> auth_db" where
  "rotate_where P env rng t db =
     (case encrypt_provider_rt env rng (rt_provider_refresh_token t) of
        Inl e \<Rightarrow> (Inl e, db)
      | Inr enc \<Rightarrow>
          if sql_count P (refresh_tokens db) = 0 then (Inr None, db)
          else (case insert_refresh_row (refresh_db_row env t enc)
                  (db\<lparr>refresh_tokens := sql_delete P (refresh_tokens db)\<rparr>) of
                  Inl e \<Rightarrow> (Inl e, db)
                | Inr db' \<Rightarrow> (Inr (Some t), db')))"

definition rotate_refresh_token ::
    "auth_env \<Rightarrow> string + string \<Rightarrow> string \<Rightarrow> refresh_token_row \<Rightarrow> int \<Rightarrow> auth_db \<Rightarrow>
     (auth_error + refresh_token_row option) \<times> auth_db" where
  "rotate_refresh_token env rng old t now =
     rotate_where (\<lambda>r. rd_hash r = hash_token env old \<and> rd_expires_at r > now) env rng t"

definition rotate_claimed_refresh_token ::
    "auth_env \<Rightarrow> string + string \<Rightarrow> string \<Rightarrow> string \<Rightarrow> refresh_token_row \<Rightarrow> int \<Rightarrow> auth_db \<Rightarrow>
     (auth_error + refresh_token_row option) \<times> auth_db" where
  "rotate_claimed_refresh_token env rng old cid t now =
     rotate_where (\<lambda>r. rd_hash r = hash_token env old \<and> rd_claim_id r = Some cid
        \<and> (case rd_claim_expires_at r of None \<Rightarrow> False | Some e \<Rightarrow> e > now)
        \<and> rd_expires_at r > now) env rng t"

definition find_refresh_token ::
    "auth_env \<Rightarrow> string \<Rightarrow> int \<Rightarrow> auth_db \<Rightarrow> auth_error + refresh_token_row option" where
  "find_refresh_token env token now db =
     (case sql_first (\<lambda>r. rd_hash r = hash_token env token \<and> rd_expires_at r > now)
             (refresh_tokens db) of
        None \<Rightarrow> Inr None
      | Some r \<Rightarrow> and_then (read_refresh_row env token r) (\<lambda>row. Inr (Some row)))"

definition revoke_refresh_token ::
    "auth_env \<Rightarrow> string \<Rightarrow> auth_db \<Rightarrow> (auth_error + unit) \<times> auth_db" where
  "revoke_refresh_token env token db =
     (Inr (), db\<lparr>refresh_tokens :=
        sql_delete (\<lambda>r. rd_hash r = hash_token env token) (refresh_tokens db)\<rparr>)"

definition has_refresh_token_for_client :: "string \<Rightarrow> int \<Rightarrow> auth_db \<Rightarrow> auth_error + bool" where
  "has_refresh_token_for_client cid now db =
     Inr (\<exists>r \<in> set (refresh_tokens db). rd_expires_at r > now \<and> rd_client_id r = cid)"

section \<open>The central Google credential\<close>

definition canonical_google_scope :: "string \<Rightarrow> string" where
  "canonical_google_scope s =
     (if s = ''https://www.googleapis.com/auth/userinfo.email'' then ''email''
      else if s = ''https://www.googleapis.com/auth/userinfo.profile'' then ''profile''
      else s)"

definition merge_google_scopes :: "string list \<Rightarrow> string list \<Rightarrow> string list" where
  "merge_google_scopes existing returned =
     remdups_adj (sort (filter (\<lambda>s. s \<noteq> [])
       (map (\<lambda>s. canonical_google_scope (trim s)) (existing @ returned))))"

definition normalize_scopes :: "string list \<Rightarrow> string list" where
  "normalize_scopes scopes = merge_google_scopes [] scopes"

definition decode_row :: "auth_env \<Rightarrow> google_credential_row \<Rightarrow> auth_error + google_credential_row" where
  "decode_row env row =
     and_then (maybe_decrypt env (enc_key env) (gc_refresh_token row))
       (\<lambda>rt. case gc_access_token row of
          None \<Rightarrow> Inr (row\<lparr>gc_refresh_token := rt\<rparr>)
        | Some a \<Rightarrow> and_then (maybe_decrypt env (enc_key env) a)
            (\<lambda>at. Inr (row\<lparr>gc_refresh_token := rt, gc_access_token := Some at\<rparr>)))"

definition normal_email :: "string option \<Rightarrow> string option" where
  "normal_email email =
     (case email of None \<Rightarrow> None
      | Some e \<Rightarrow> if trim e = [] then None else Some (to_ascii_lowercase (trim e)))"

definition coalesce :: "'a option \<Rightarrow> 'a option \<Rightarrow> 'a option" where
  "coalesce a b = (case a of None \<Rightarrow> b | Some _ \<Rightarrow> a)"

definition upsert_google_provider_credential ::
    "auth_env \<Rightarrow> string + string \<Rightarrow> string \<Rightarrow> string option \<Rightarrow> string \<Rightarrow> int \<Rightarrow> auth_db \<Rightarrow>
     (auth_error + unit) \<times> auth_db" where
  "upsert_google_provider_credential env rng subject email token now db =
     (case maybe_encrypt env (enc_key env) rng token of
        Inl e \<Rightarrow> (Inl e, db)
      | Inr enc \<Rightarrow>
          (Inr (), db\<lparr>google_creds := sql_upsert gc_subject
             (\<lambda>old new. old\<lparr>gc_email := coalesce (gc_email new) (gc_email old),
                gc_refresh_token := gc_refresh_token new,
                gc_generation := gc_generation old + 1, gc_updated_at := gc_updated_at new\<rparr>)
             \<lparr>gc_subject = subject, gc_email = normal_email email, gc_client_id = '''',
              gc_granted_scopes = [''email'', ''openid'', ''profile''],
              gc_access_token = None, gc_refresh_token = enc, gc_token_received_at = None,
              gc_access_token_expires_at = None, gc_issuer = None, gc_last_refresh_at = None,
              gc_last_scope_upgrade_at = None, gc_generation = 1, gc_created_at = now,
              gc_updated_at = now\<rparr> (google_creds db)\<rparr>))"

definition associate_google_provider_email ::
    "string \<Rightarrow> string \<Rightarrow> int \<Rightarrow> auth_db \<Rightarrow> (auth_error + bool) \<times> auth_db" where
  "associate_google_provider_email subject email now db =
     (let P = (\<lambda>r. gc_subject r = subject)
      in (Inr (sql_count P (google_creds db) \<noteq> 0),
          db\<lparr>google_creds := sql_update P
             (\<lambda>r. r\<lparr>gc_email := Some (to_ascii_lowercase (trim email)), gc_updated_at := now\<rparr>)
             (google_creds db)\<rparr>))"

text \<open>\<open>email = ?1 COLLATE NOCASE\<close> folds the ASCII letters; a NULL column never matches.\<close>

definition email_matches :: "string \<Rightarrow> google_credential_row \<Rightarrow> bool" where
  "email_matches sel r = (case gc_email r of None \<Rightarrow> False | Some e \<Rightarrow> eq_ignore_ascii_case e sel)"

definition find_google_rows :: "string option \<Rightarrow> auth_db \<Rightarrow> google_credential_row list" where
  "find_google_rows sel db =
     (case sel of
        Some s \<Rightarrow>
          (case sql_first (\<lambda>r. gc_subject r = s) (google_creds db) of
             Some row \<Rightarrow> [row]
           | None \<Rightarrow> sql_order_limit gc_created_at 2 (email_matches s) (google_creds db))
      | None \<Rightarrow> sql_order_limit gc_created_at 2 (\<lambda>_. True) (google_creds db))"

definition find_google_provider_credential_by_selector ::
    "auth_env \<Rightarrow> string option \<Rightarrow> auth_db \<Rightarrow> auth_error + google_credential_row option" where
  "find_google_provider_credential_by_selector env selector db =
     (let sel = (case selector of None \<Rightarrow> None | Some s \<Rightarrow> if trim s = [] then None else Some (trim s))
      in case find_google_rows sel db of
           [] \<Rightarrow> Inr None
         | [row] \<Rightarrow> and_then (decode_row env row) (\<lambda>r. Inr (Some r))
         | _ \<Rightarrow> Inl (AConfig
             ''multiple Google provider credentials exist; configure an account selector''))"

definition find_google_provider_credential ::
    "auth_env \<Rightarrow> string \<Rightarrow> auth_db \<Rightarrow> auth_error + google_credential_row option" where
  "find_google_provider_credential env subject =
     find_google_provider_credential_by_selector env (Some subject)"

definition find_google_provider_credential_by_email ::
    "auth_env \<Rightarrow> string \<Rightarrow> auth_db \<Rightarrow> auth_error + google_credential_row option" where
  "find_google_provider_credential_by_email env email =
     find_google_provider_credential_by_selector env (Some email)"

definition has_google_provider_credential_for_subject :: "string \<Rightarrow> auth_db \<Rightarrow> auth_error + bool" where
  "has_google_provider_credential_for_subject subject db =
     Inr (has_key gc_subject subject (google_creds db))"

definition has_google_provider_credential_for_email :: "string \<Rightarrow> auth_db \<Rightarrow> auth_error + bool" where
  "has_google_provider_credential_for_email email db =
     Inr (\<exists>r \<in> set (google_creds db). email_matches (to_ascii_lowercase (trim email)) r)"

definition count_google_provider_credentials :: "auth_db \<Rightarrow> auth_error + nat" where
  "count_google_provider_credentials db = Inr (length (google_creds db))"

definition upsert_google_provider_token_bundle ::
    "auth_env \<Rightarrow> string + string \<Rightarrow> string + string \<Rightarrow> google_credential_update \<Rightarrow> int \<Rightarrow> auth_db \<Rightarrow>
     (auth_error + unit) \<times> auth_db" where
  "upsert_google_provider_token_bundle env rng1 rng2 u now db =
     (case maybe_encrypt env (enc_key env) rng1 (gu_access_token u) of
        Inl e \<Rightarrow> (Inl e, db)
      | Inr enc_access \<Rightarrow>
     (case maybe_encrypt env (enc_key env) rng2 (gu_refresh_token u) of
        Inl e \<Rightarrow> (Inl e, db)
      | Inr enc_refresh \<Rightarrow>
          (Inr (), db\<lparr>google_creds := sql_upsert gc_subject
             (\<lambda>old new. old\<lparr>gc_email := coalesce (gc_email new) (gc_email old),
                gc_client_id := gc_client_id new, gc_granted_scopes := gc_granted_scopes new,
                gc_access_token := gc_access_token new, gc_refresh_token := gc_refresh_token new,
                gc_token_received_at := gc_token_received_at new,
                gc_access_token_expires_at := gc_access_token_expires_at new,
                gc_issuer := coalesce (gc_issuer new) (gc_issuer old),
                gc_last_refresh_at := (if gu_refreshed u then Some now else gc_last_refresh_at old),
                gc_last_scope_upgrade_at :=
                  (if gu_scope_upgraded u then Some now else gc_last_scope_upgrade_at old),
                gc_generation := gc_generation old + 1, gc_updated_at := now\<rparr>)
             \<lparr>gc_subject = gu_subject u, gc_email = normal_email (gu_email u),
              gc_client_id = gu_client_id u,
              gc_granted_scopes = normalize_scopes (gu_granted_scopes u),
              gc_access_token = Some enc_access, gc_refresh_token = enc_refresh,
              gc_token_received_at = Some (gu_token_received_at u),
              gc_access_token_expires_at = Some (gu_access_token_expires_at u),
              gc_issuer = gu_issuer u,
              gc_last_refresh_at = (if gu_refreshed u then Some now else None),
              gc_last_scope_upgrade_at = (if gu_scope_upgraded u then Some now else None),
              gc_generation = 1, gc_created_at = now, gc_updated_at = now\<rparr>
             (google_creds db)\<rparr>)))"

definition no_invalidation :: google_invalidation where
  "no_invalidation = \<lparr>gi_invalidated = False, gi_revoked_refresh_tokens = 0,
     gi_revoked_authorization_codes = 0\<rparr>"

definition invalidate_google_provider_credential ::
    "string \<Rightarrow> int \<Rightarrow> auth_db \<Rightarrow> (auth_error + google_invalidation) \<times> auth_db" where
  "invalidate_google_provider_credential subject generation db =
     (let P = (\<lambda>r. gc_subject r = subject \<and> gc_generation r = generation)
      in if sql_count P (google_creds db) = 0 then (Inr no_invalidation, db)
         else
           (Inr \<lparr>gi_invalidated = True,
                 gi_revoked_refresh_tokens = sql_count (\<lambda>r. rd_subject r = subject) (refresh_tokens db),
                 gi_revoked_authorization_codes =
                   sql_count (\<lambda>r. ac_subject r = subject) (auth_codes db)\<rparr>,
            db\<lparr>google_creds := sql_delete P (google_creds db),
               auth_codes := sql_delete (\<lambda>r. ac_subject r = subject) (auth_codes db),
               refresh_tokens := sql_delete (\<lambda>r. rd_subject r = subject) (refresh_tokens db)\<rparr>))"

text \<open>
  The explicit revocation reads and then compares and deletes, up to four times. The two
  database calls of a round are separate transactions: \<open>between i\<close> is what other connections
  did to the database before the \<open>i\<close>-th call of the loop.
\<close>

fun revoke_rounds ::
    "nat \<Rightarrow> nat \<Rightarrow> auth_env \<Rightarrow> (nat \<Rightarrow> auth_db \<Rightarrow> auth_db) \<Rightarrow> string option \<Rightarrow> auth_db \<Rightarrow>
     (auth_error + google_invalidation) \<times> auth_db" where
  "revoke_rounds 0 i env between selector db =
     (Inl (AStorage ''Google provider credential changed repeatedly during explicit revoke''), db)"
| "revoke_rounds (Suc n) i env between selector db0 =
     (let db = between i db0
      in case find_google_provider_credential_by_selector env selector db of
           Inl e \<Rightarrow> (Inl e, db)
         | Inr None \<Rightarrow> (Inr no_invalidation, db)
         | Inr (Some row) \<Rightarrow>
             (case invalidate_google_provider_credential (gc_subject row) (gc_generation row)
                     (between (Suc i) db) of
                (Inl e, db') \<Rightarrow> (Inl e, db')
              | (Inr iv, db') \<Rightarrow>
                  if gi_invalidated iv then (Inr iv, db')
                  else revoke_rounds n (Suc (Suc i)) env between selector db'))"

definition revoke_google_provider_credential ::
    "auth_env \<Rightarrow> (nat \<Rightarrow> auth_db \<Rightarrow> auth_db) \<Rightarrow> string option \<Rightarrow> auth_db \<Rightarrow>
     (auth_error + google_invalidation) \<times> auth_db" where
  "revoke_google_provider_credential = revoke_rounds 4 0"

text \<open>
  The upgrade of plaintext tokens when a key is configured: every column that does not carry
  the prefix is sealed, in one transaction. The nonces are drawn in order.
\<close>

definition seal_legacy ::
    "auth_env \<Rightarrow> string \<Rightarrow> (string + string) list \<Rightarrow> string \<Rightarrow>
     auth_error + string option \<times> (string + string) list" where
  "seal_legacy env k rngs token =
     (if starts_with token enc_prefix then Inr (None, rngs)
      else and_then (encrypt_provider_token env k
             (case rngs of [] \<Rightarrow> Inl ''no entropy'' | r # _ \<Rightarrow> r) token)
             (\<lambda>s. Inr (Some s, tl rngs)))"

fun encrypt_legacy_rows ::
    "auth_env \<Rightarrow> string \<Rightarrow> (string + string) list \<Rightarrow> google_credential_row list \<Rightarrow>
     auth_error + nat \<times> google_credential_row list" where
  "encrypt_legacy_rows env k rngs [] = Inr (0, [])"
| "encrypt_legacy_rows env k rngs (row # rows) =
     and_then (case gc_access_token row of None \<Rightarrow> Inr (None, rngs)
               | Some a \<Rightarrow> seal_legacy env k rngs a)
       (\<lambda>(next_access, rngs1).
     and_then (seal_legacy env k rngs1 (gc_refresh_token row))
       (\<lambda>(next_refresh, rngs2).
     and_then (encrypt_legacy_rows env k rngs2 rows)
       (\<lambda>(n, rows').
         if next_access = None \<and> next_refresh = None then Inr (n, row # rows')
         else Inr (Suc n,
           row\<lparr>gc_access_token := coalesce next_access (gc_access_token row),
               gc_refresh_token := (case next_refresh of None \<Rightarrow> gc_refresh_token row | Some t \<Rightarrow> t)\<rparr>
           # rows'))))"

definition encrypt_legacy_google_provider_credentials ::
    "auth_env \<Rightarrow> (string + string) list \<Rightarrow> auth_db \<Rightarrow> (auth_error + nat) \<times> auth_db" where
  "encrypt_legacy_google_provider_credentials env rngs db =
     (case enc_key env of
        None \<Rightarrow> (Inr 0, db)
      | Some k \<Rightarrow>
          (case encrypt_legacy_rows env k rngs (google_creds db) of
             Inl e \<Rightarrow> (Inl e, db)
           | Inr (n, rows) \<Rightarrow> (Inr n, db\<lparr>google_creds := rows\<rparr>)))"

section \<open>Replay of assertions\<close>

definition assertion_acceptable :: "string \<Rightarrow> string \<Rightarrow> int \<Rightarrow> int \<Rightarrow> int \<Rightarrow> bool" where
  "assertion_acceptable issuer jti issued_at expires_at now =
     (\<not> (issuer = [] \<or> length issuer > 2048 \<or> jti = [] \<or> length jti > 256
         \<or> issued_at > i64_sat (now + 60)
         \<or> expires_at \<le> now
         \<or> i64_sat (expires_at - issued_at) > 5 * 60))"

definition consume_assertion_jti ::
    "string \<Rightarrow> string \<Rightarrow> int \<Rightarrow> int \<Rightarrow> int \<Rightarrow> auth_db \<Rightarrow> (auth_error + bool) \<times> auth_db" where
  "consume_assertion_jti issuer jti issued_at expires_at now db =
     (if \<not> assertion_acceptable issuer jti issued_at expires_at now then (Inr False, db)
      else
        let live = sql_delete (\<lambda>r. aj_expires_at r \<le> now) (assertion_jtis db)
        in case sql_insert aj_key
             \<lparr>aj_issuer = issuer, aj_jti = jti, aj_expires_at = expires_at\<rparr> live of
             None \<Rightarrow> (Inr False, db\<lparr>assertion_jtis := live\<rparr>)
           | Some rows \<Rightarrow> (Inr True, db\<lparr>assertion_jtis := rows\<rparr>))"

text \<open>Opening the store runs the two maintenance passes on the migrated database.\<close>

definition open_with_key ::
    "auth_env \<Rightarrow> (string + string) list \<Rightarrow> int \<Rightarrow> auth_db \<Rightarrow> (auth_error + unit) \<times> auth_db" where
  "open_with_key env rngs now db =
     (case cleanup_expired now db of
        (Inl e, db') \<Rightarrow> (Inl e, db')
      | (Inr _, db') \<Rightarrow>
          (case encrypt_legacy_google_provider_credentials env rngs db' of
             (Inl e, db'') \<Rightarrow> (Inl e, db'')
           | (Inr _, db'') \<Rightarrow> (Inr (), db'')))"

end
