(* ===== verification/Ticket_Spec.thy ===== *)
theory Ticket_Spec
  imports Main
begin

text \<open>
  An abstract specification of one-shot tickets: what the authorization server promises of
  authorization codes, login states and the other records that may be used once. The state is
  a finite map from keys to tickets. A ticket is issued under its key; a live ticket can be
  redeemed, which removes it; and any tickets may be dropped (expiry, revocation).
\<close>

datatype 'r ticket_event = Issue 'r | Redeem int 'r | Quiet

inductive ticket_step ::
    "('r \<Rightarrow> 'k) \<Rightarrow> ('r \<Rightarrow> int) \<Rightarrow> ('k \<rightharpoonup> 'r) \<Rightarrow> 'r ticket_event \<Rightarrow> ('k \<rightharpoonup> 'r) \<Rightarrow> bool"
  for key :: "'r \<Rightarrow> 'k" and expiry :: "'r \<Rightarrow> int" where
  issue: "ticket_step key expiry m (Issue r) (m(key r \<mapsto> r))"
| redeem: "m (key r) = Some r \<Longrightarrow> now < expiry r \<Longrightarrow>
    ticket_step key expiry m (Redeem now r) (m(key r := None))"
| quiet: "m' \<subseteq>\<^sub>m m \<Longrightarrow> ticket_step key expiry m Quiet m'"

inductive ticket_run ::
    "('r \<Rightarrow> 'k) \<Rightarrow> ('r \<Rightarrow> int) \<Rightarrow> ('k \<rightharpoonup> 'r) \<Rightarrow> 'r ticket_event list \<Rightarrow> ('k \<rightharpoonup> 'r) \<Rightarrow> bool"
  for key :: "'r \<Rightarrow> 'k" and expiry :: "'r \<Rightarrow> int" where
  run_nil: "ticket_run key expiry m [] m"
| run_cons: "ticket_step key expiry m e m' \<Longrightarrow> ticket_run key expiry m' es m'' \<Longrightarrow>
    ticket_run key expiry m (e # es) m''"

inductive_cases ticket_step_elims:
  "ticket_step key expiry m (Issue r) m'"
  "ticket_step key expiry m (Redeem now r) m'"
  "ticket_step key expiry m Quiet m'"

inductive_simps ticket_step_simps:
  "ticket_step key expiry m (Issue r) m'"
  "ticket_step key expiry m (Redeem now r) m'"
  "ticket_step key expiry m Quiet m'"

fun issues :: "('r \<Rightarrow> 'k) \<Rightarrow> 'k \<Rightarrow> 'r ticket_event list \<Rightarrow> nat" where
  "issues key k [] = 0"
| "issues key k (Issue r # es) = (if key r = k then 1 else 0) + issues key k es"
| "issues key k (_ # es) = issues key k es"

fun redeems :: "('r \<Rightarrow> 'k) \<Rightarrow> 'k \<Rightarrow> 'r ticket_event list \<Rightarrow> nat" where
  "redeems key k [] = 0"
| "redeems key k (Redeem now r # es) = (if key r = k then 1 else 0) + redeems key k es"
| "redeems key k (_ # es) = redeems key k es"

definition held :: "('k \<rightharpoonup> 'r) \<Rightarrow> 'k \<Rightarrow> nat" where
  "held m k = (if m k = None then 0 else 1)"

lemma held_sub: "m' \<subseteq>\<^sub>m m \<Longrightarrow> held m' k \<le> held m k"
  by (auto simp: held_def map_le_def dom_def)

lemma ticket_step_balance:
  "ticket_step key expiry m e m' \<Longrightarrow>
   redeems key k [e] + held m' k \<le> issues key k [e] + held m k"
  by (induction rule: ticket_step.induct) (auto simp: held_def held_sub [unfolded held_def])

text \<open>Tickets are conserved: what is redeemed or still held was issued.\<close>

lemma ticket_balance:
  assumes "ticket_run key expiry m es m'"
  shows "redeems key k es + held m' k \<le> issues key k es + held m k"
  using assms
proof (induction rule: ticket_run.induct)
  case (run_cons m e m' es m'')
  have "redeems key k (e # es) = redeems key k [e] + redeems key k es"
    and "issues key k (e # es) = issues key k [e] + issues key k es"
    by (cases e; simp)+
  with ticket_step_balance [OF run_cons(1), of k] run_cons(3) show ?case by simp
qed simp

lemma map_le_SomeD: "m' \<subseteq>\<^sub>m m \<Longrightarrow> m' k = Some v \<Longrightarrow> m k = Some v"
  by (metis domI map_le_def)

lemma ticket_step_origin:
  "ticket_step key expiry m e m' \<Longrightarrow> m' k = Some r \<Longrightarrow> e = Issue r \<or> m k = Some r"
  by (induction rule: ticket_step.induct) (auto dest: map_le_SomeD split: if_splits)

text \<open>A redeemed ticket is, field for field, one that was issued before it or held at the start.\<close>

lemma ticket_redeemed_issued:
  assumes "ticket_run key expiry m es m'" and "es = es1 @ Redeem now r # es2"
  shows "now < expiry r \<and> (Issue r \<in> set es1 \<or> m (key r) = Some r)"
  using assms
proof (induction arbitrary: es1 rule: ticket_run.induct)
  case (run_cons m e m' es m'')
  show ?case
  proof (cases es1)
    case Nil
    with run_cons show ?thesis by (auto simp: ticket_step_simps)
  next
    case (Cons e1 es1')
    with run_cons have IH: "now < expiry r \<and> (Issue r \<in> set es1' \<or> m' (key r) = Some r)"
      and e: "e1 = e" by auto
    with ticket_step_origin [OF run_cons(1)] Cons show ?thesis by auto
  qed
qed simp

text \<open>
  The promise to a client: no key is redeemed more often than it was issued, and what a
  redemption returns was issued before it and had not expired.
\<close>

definition once_only :: "('r \<Rightarrow> 'k) \<Rightarrow> ('r \<Rightarrow> int) \<Rightarrow> 'r ticket_event list \<Rightarrow> bool" where
  "once_only key expiry es =
     ((\<forall>k. redeems key k es \<le> issues key k es)
      \<and> (\<forall>es1 now r es2. es = es1 @ Redeem now r # es2 \<longrightarrow> now < expiry r \<and> Issue r \<in> set es1))"

lemma ticket_run_once_only:
  assumes "ticket_run key expiry Map.empty es m'"
  shows "once_only key expiry es"
  using ticket_balance [OF assms] ticket_redeemed_issued [OF assms]
  by (auto simp: once_only_def held_def) (metis add_leD1)

end
