(* ===== verification/Auth_Run.thy ===== *)
theory Auth_Run
  imports Auth_Tokens Ticket_Spec
begin

text \<open>
  The store as a state machine: every operation of \<open>SqliteStore\<close>, the lookups included,
  is an event, and a run is any sequence of events, the serialisation that SQLite gives to the
  requests of all connections. The invariants of the database and the refinement of the
  one-shot tickets are proved over runs.
\<close>

section \<open>Events and runs\<close>

datatype (plugins only: size code) store_op =
    RegisterClient registered_client
  | InsertRequest authorization_request_row
  | TakeRequest string int
  | InsertCode authorization_code_row
  | RedeemCode string int
  | UpsertSession browser_session_row
  | RevokeSession string
  | InsertLogin browser_login_state_row
  | TakeLogin string int
  | InsertNative native_result_row
  | TakeNative string int
  | Cleanup int
  | UpsertUpstreamCred upstream_credential_row
  | DeleteUpstreamCred string string
  | SaveState upstream_state_row
  | DeleteStateByCsrf string int
  | SetStateClientId string string string
  | TakeState string string string int
  | SaveDynamicClient string string string int
  | DeleteDynamicClient string string
  | AddAllowedUser string string int
  | RemoveAllowedUser string
  | ClaimRefresh string string int int
  | ReleaseClaim string string
  | UpsertRefresh "string + string" refresh_token_row
  | RotateRefresh "string + string" string refresh_token_row int
  | RotateClaimed "string + string" string string refresh_token_row int
  | RevokeRefresh string
  | UpsertGoogle "string + string" string "string option" string int
  | AssociateEmail string string int
  | UpsertBundle "string + string" "string + string" google_credential_update int
  | InvalidateGoogle string int
  | EncryptLegacy "(string + string) list"
  | ConsumeJti string string int int int
  | FindClient string
  | CountPending int
  | FindSession string int
  | FindUpstreamCred string string
  | FindStateSubject string string int
  | FindStateOwner string int
  | GetStateClientId string string int
  | FindDynamicClient string string
  | ListAllowed
  | FindRefresh string int
  | HasRefreshForClient string int
  | FindGoogle "string option"
  | HasGoogleSubject string
  | HasGoogleEmail string
  | CountGoogle

datatype store_result =
    RUnit
  | RBool bool
  | RCount nat
  | RRequest authorization_request_row
  | RCode authorization_code_row
  | RLogin "browser_login_state_row option"
  | RNative "native_result_row option"
  | RState "upstream_state_row option"
  | RRefresh "refresh_token_row option"
  | RInvalidation google_invalidation
  | RClient "registered_client option"
  | RSession "browser_session_row option"
  | RUpstreamCred "upstream_credential_row option"
  | RText "string option"
  | ROwner "(string \<times> string) option"
  | RUsers "allowed_user_row list"
  | RGoogle "google_credential_row option"

definition returning ::
    "('a \<Rightarrow> store_result) \<Rightarrow> (auth_error + 'a) \<times> auth_db \<Rightarrow> (auth_error + store_result) \<times> auth_db" where
  "returning f = map_prod (map_sum id f) id"

primrec exec :: "auth_env \<Rightarrow> store_op \<Rightarrow> auth_db \<Rightarrow> (auth_error + store_result) \<times> auth_db" where
  "exec env (RegisterClient c) db = returning (\<lambda>_. RUnit) (register_client c db)"
| "exec env (InsertRequest r) db = returning (\<lambda>_. RUnit) (insert_authorization_request r db)"
| "exec env (TakeRequest s now) db = returning RRequest (take_authorization_request s now db)"
| "exec env (InsertCode r) db = returning (\<lambda>_. RUnit) (insert_auth_code r db)"
| "exec env (RedeemCode c now) db = returning RCode (redeem_auth_code c now db)"
| "exec env (UpsertSession s) db = returning (\<lambda>_. RUnit) (upsert_browser_session s db)"
| "exec env (RevokeSession s) db = returning (\<lambda>_. RUnit) (revoke_browser_session s db)"
| "exec env (InsertLogin r) db = returning (\<lambda>_. RUnit) (insert_browser_login_state r db)"
| "exec env (TakeLogin s now) db = returning RLogin (take_browser_login_state s now db)"
| "exec env (InsertNative r) db = returning (\<lambda>_. RUnit) (insert_native_authorization_result r db)"
| "exec env (TakeNative s now) db = returning RNative (take_native_authorization_result s now db)"
| "exec env (Cleanup now) db = returning RCount (cleanup_expired now db)"
| "exec env (UpsertUpstreamCred r) db = returning (\<lambda>_. RUnit) (upsert_upstream_oauth_credentials r db)"
| "exec env (DeleteUpstreamCred u s) db =
     returning (\<lambda>_. RUnit) (delete_upstream_oauth_credentials u s db)"
| "exec env (SaveState r) db = returning (\<lambda>_. RUnit) (save_upstream_oauth_state r db)"
| "exec env (DeleteStateByCsrf c now) db =
     returning (\<lambda>_. RUnit) (delete_upstream_oauth_state_by_csrf c now db)"
| "exec env (SetStateClientId u c cid) db =
     returning (\<lambda>_. RUnit) (set_upstream_oauth_state_client_id u c cid db)"
| "exec env (TakeState u s c now) db = returning RState (take_upstream_oauth_state u s c now db)"
| "exec env (SaveDynamicClient u s cid now) db =
     returning (\<lambda>_. RUnit) (save_dynamic_client_registration u s cid now db)"
| "exec env (DeleteDynamicClient u s) db =
     returning (\<lambda>_. RUnit) (delete_dynamic_client_registration u s db)"
| "exec env (AddAllowedUser e b t) db = returning (\<lambda>_. RUnit) (add_allowed_user env e b t db)"
| "exec env (RemoveAllowedUser e) db = returning (\<lambda>_. RUnit) (remove_allowed_user env e db)"
| "exec env (ClaimRefresh t cid lease now) db =
     returning RRefresh (claim_refresh_token env t cid lease now db)"
| "exec env (ReleaseClaim t cid) db = returning (\<lambda>_. RUnit) (release_refresh_claim env t cid db)"
| "exec env (UpsertRefresh rng t) db = returning (\<lambda>_. RUnit) (upsert_refresh_token env rng t db)"
| "exec env (RotateRefresh rng old t now) db =
     returning RRefresh (rotate_refresh_token env rng old t now db)"
| "exec env (RotateClaimed rng old cid t now) db =
     returning RRefresh (rotate_claimed_refresh_token env rng old cid t now db)"
| "exec env (RevokeRefresh t) db = returning (\<lambda>_. RUnit) (revoke_refresh_token env t db)"
| "exec env (UpsertGoogle rng s e t now) db =
     returning (\<lambda>_. RUnit) (upsert_google_provider_credential env rng s e t now db)"
| "exec env (AssociateEmail s e now) db =
     returning RBool (associate_google_provider_email s e now db)"
| "exec env (UpsertBundle r1 r2 u now) db =
     returning (\<lambda>_. RUnit) (upsert_google_provider_token_bundle env r1 r2 u now db)"
| "exec env (InvalidateGoogle s g) db =
     returning RInvalidation (invalidate_google_provider_credential s g db)"
| "exec env (EncryptLegacy rngs) db =
     returning RCount (encrypt_legacy_google_provider_credentials env rngs db)"
| "exec env (ConsumeJti i j iat ex now) db =
     returning RBool (consume_assertion_jti i j iat ex now db)"
| "exec env (FindClient c) db = returning RClient (find_client c db, db)"
| "exec env (CountPending now) db = returning RCount (count_pending_oauth_states now db, db)"
| "exec env (FindSession s now) db = returning RSession (find_browser_session s now db, db)"
| "exec env (FindUpstreamCred u s) db =
     returning RUpstreamCred (find_upstream_oauth_credentials u s db, db)"
| "exec env (FindStateSubject u c now) db =
     returning RText (find_upstream_oauth_state_subject u c now db, db)"
| "exec env (FindStateOwner c now) db = returning ROwner (find_upstream_oauth_state_owner c now db, db)"
| "exec env (GetStateClientId u c now) db =
     returning RText (get_upstream_oauth_state_client_id u c now db, db)"
| "exec env (FindDynamicClient u s) db =
     returning RText (find_dynamic_client_registration u s db, db)"
| "exec env ListAllowed db = returning RUsers (list_allowed_users db, db)"
| "exec env (FindRefresh t now) db = returning RRefresh (find_refresh_token env t now db, db)"
| "exec env (HasRefreshForClient c now) db =
     returning RBool (has_refresh_token_for_client c now db, db)"
| "exec env (FindGoogle sel) db =
     returning RGoogle (find_google_provider_credential_by_selector env sel db, db)"
| "exec env (HasGoogleSubject s) db =
     returning RBool (has_google_provider_credential_for_subject s db, db)"
| "exec env (HasGoogleEmail e) db =
     returning RBool (has_google_provider_credential_for_email e db, db)"
| "exec env CountGoogle db = returning RCount (count_google_provider_credentials db, db)"

fun run_ops ::
    "auth_env \<Rightarrow> store_op list \<Rightarrow> auth_db \<Rightarrow> (auth_error + store_result) list \<times> auth_db" where
  "run_ops env [] db = ([], db)"
| "run_ops env (op # ops) db =
     (case exec env op db of (r, db') \<Rightarrow>
        (case run_ops env ops db' of (rs, db'') \<Rightarrow> (r # rs, db'')))"

lemma snd_returning [simp]: "snd (returning f x) = snd x"
  by (simp add: returning_def)

lemma fst_returning: "fst (returning f x) = map_sum id f (fst x)"
  by (simp add: returning_def)

lemma length_run_ops [simp]: "length (fst (run_ops env ops db)) = length ops"
  by (induction ops arbitrary: db) (auto split: prod.splits, metis fst_conv)

lemma run_ops_append:
  "run_ops env (ops1 @ ops2) db =
     (let (rs1, db1) = run_ops env ops1 db; (rs2, db2) = run_ops env ops2 db1 in (rs1 @ rs2, db2))"
  by (induction ops1 arbitrary: db) (auto split: prod.splits)

lemmas plain_defs =
  register_client_def insert_authorization_request_def insert_auth_code_def
  upsert_browser_session_def revoke_browser_session_def insert_browser_login_state_def
  take_browser_login_state_def insert_native_authorization_result_def
  take_native_authorization_result_def cleanup_expired_def
  upsert_upstream_oauth_credentials_def delete_upstream_oauth_credentials_def
  save_upstream_oauth_state_def delete_upstream_oauth_state_by_csrf_def
  set_upstream_oauth_state_client_id_def take_upstream_oauth_state_def
  save_dynamic_client_registration_def delete_dynamic_client_registration_def
  add_allowed_user_def remove_allowed_user_def release_refresh_claim_def
  upsert_refresh_token_def revoke_refresh_token_def upsert_google_provider_credential_def
  associate_google_provider_email_def upsert_google_provider_token_bundle_def
  invalidate_google_provider_credential_def encrypt_legacy_google_provider_credentials_def
  consume_assertion_jti_def

lemmas store_defs = plain_defs
  claim_refresh_token_def rotate_where_def insert_refresh_row_def rotate_refresh_token_def
  rotate_claimed_refresh_token_def take_authorization_request_def redeem_auth_code_def

section \<open>The invariant\<close>

text \<open>
  Primary keys are unique in every table, every refresh token belongs to a registered client
  and a lease column is set with the other, a credential's generation is positive, and a
  pending upstream state has a lifetime of at most 600 seconds.
\<close>

definition keys_ok :: "auth_db \<Rightarrow> bool" where
  "keys_ok db =
     (tbl_ok rc_client_id (clients db) \<and> tbl_ok ar_state (auth_requests db)
      \<and> tbl_ok ac_code (auth_codes db) \<and> tbl_ok rd_hash (refresh_tokens db)
      \<and> tbl_ok gc_subject (google_creds db) \<and> tbl_ok aj_key (assertion_jtis db)
      \<and> tbl_ok bs_session_id (browser_sessions db) \<and> tbl_ok bl_state (browser_login_states db)
      \<and> tbl_ok nr_state (native_results db) \<and> tbl_ok uc_key (upstream_creds db)
      \<and> tbl_ok us_key (upstream_states db) \<and> tbl_ok dc_key (dynamic_clients db)
      \<and> tbl_ok au_email (allowed_users db))"

definition refs_ok :: "auth_db \<Rightarrow> bool" where
  "refs_ok db = (\<forall>r \<in> set (refresh_tokens db). client_known (rd_client_id r) db)"

definition leases_ok :: "auth_db \<Rightarrow> bool" where
  "leases_ok db =
     (\<forall>r \<in> set (refresh_tokens db). rd_claim_id r = None \<longleftrightarrow> rd_claim_expires_at r = None)"

definition generations_ok :: "auth_db \<Rightarrow> bool" where
  "generations_ok db = (\<forall>r \<in> set (google_creds db). 1 \<le> gc_generation r)"

definition ttl_ok :: "auth_db \<Rightarrow> bool" where
  "ttl_ok db =
     (\<forall>r \<in> set (upstream_states db). us_created_at r < us_expires_at r
        \<and> (0 \<le> us_created_at r \<and> is_i64 (us_expires_at r) \<longrightarrow>
           us_expires_at r \<le> us_created_at r + 600))"

definition db_ok :: "auth_db \<Rightarrow> bool" where
  "db_ok db = (keys_ok db \<and> refs_ok db \<and> leases_ok db \<and> generations_ok db \<and> ttl_ok db)"

lemma encrypt_legacy_rows_keeps:
  "encrypt_legacy_rows env k rngs rows = Inr (n, rows') \<Longrightarrow>
   map gc_subject rows' = map gc_subject rows \<and> map gc_generation rows' = map gc_generation rows"
  by (induction rows arbitrary: rngs n rows')
    (auto simp: and_then_Inr split: if_splits)

lemma legacy_tbl_ok [intro]:
  "encrypt_legacy_rows env k rngs rows = Inr (n, rows') \<Longrightarrow> tbl_ok gc_subject rows \<Longrightarrow>
   tbl_ok gc_subject rows'"
  by (simp add: tbl_ok_def encrypt_legacy_rows_keeps)

lemma legacy_generations:
  assumes "encrypt_legacy_rows env k rngs rows = Inr (n, rows')"
    and "\<forall>r \<in> set rows. 1 \<le> gc_generation r"
  shows "\<forall>r \<in> set rows'. 1 \<le> gc_generation r"
proof -
  have "gc_generation ` set rows' = gc_generation ` set rows"
    using encrypt_legacy_rows_keeps [OF assms(1)] by (metis list.set_map)
  with assms(2) show ?thesis by (metis imageE imageI)
qed

lemma keys_ok_exec: "keys_ok db \<Longrightarrow> keys_ok (snd (exec env op db))"
  by (cases op)
    (auto simp: keys_ok_def store_defs Let_def uc_key_def us_key_def dc_key_def client_row_def
        refresh_db_row_def
      split: option.splits sum.splits prod.splits if_splits)

lemmas row_origins = set_sql_insert set_sql_upsert set_sql_update sql_delete_subset [THEN subsetD]

lemma generations_ok_exec: "generations_ok db \<Longrightarrow> generations_ok (snd (exec env op db))"
  by (cases op)
    (auto simp: generations_ok_def store_defs Let_def
      split: option.splits sum.splits prod.splits if_splits
      dest!: row_origins dest: legacy_generations)

lemma i64_wrap_small: "0 \<le> x \<Longrightarrow> x < 2 ^ 63 \<Longrightarrow> i64_wrap x = x"
  by (simp add: i64_wrap_def)

lemma ttl_ok_exec: "ttl_ok db \<Longrightarrow> ttl_ok (snd (exec env op db))"
  by (cases op)
    (auto simp: ttl_ok_def store_defs Let_def upstream_state_row.defs is_i64_def
        upstream_oauth_state_max_ttl_secs_def i64_wrap_small not_less
      split: option.splits sum.splits prod.splits if_splits dest!: row_origins)

lemma leases_ok_exec: "leases_ok db \<Longrightarrow> leases_ok (snd (exec env op db))"
  by (cases op)
    (auto simp: leases_ok_def store_defs Let_def refresh_db_row_def
      split: option.splits sum.splits prod.splits if_splits dest!: row_origins)

lemma refs_ok_exec: "refs_ok db \<Longrightarrow> refs_ok (snd (exec env op db))"
  by (cases op)
    (auto simp: refs_ok_def store_defs Let_def refresh_db_row_def client_known_def
        has_key_upsert
      split: option.splits sum.splits prod.splits if_splits dest!: row_origins)

lemma db_ok_exec: "db_ok db \<Longrightarrow> db_ok (snd (exec env op db))"
  by (simp add: db_ok_def keys_ok_exec refs_ok_exec leases_ok_exec generations_ok_exec ttl_ok_exec)

lemma db_ok_run: "db_ok db \<Longrightarrow> db_ok (snd (run_ops env ops db))"
proof (induction ops arbitrary: db)
  case (Cons op ops)
  from Cons.IH [OF db_ok_exec [OF Cons.prems, of env op]] show ?case
    by (simp split: prod.splits) (metis prod.collapse prod.inject)
qed simp

lemma db_ok_empty: "db_ok empty_db"
  by (simp add: db_ok_def keys_ok_def refs_ok_def leases_ok_def generations_ok_def ttl_ok_def
      empty_db_def)

text \<open>
  C12. The database stays well-formed: every operation of the store, and so every run of them,
  whether they succeed or fail, keeps the primary keys unique, every refresh token attached to
  a registered client, the two lease columns set together, the generations positive and the
  lifetime of pending upstream states within 600 seconds.
\<close>

theorem store_run_invariant: "db_ok db \<Longrightarrow> db_ok (snd (run_ops env ops db))"
  by (rule db_ok_run)

definition demo_client :: registered_client where
  "demo_client = \<lparr>rc_client_id = ''app'', rc_redirect_uris = [''https://app/cb''],
     rc_created_at = 0, rc_token_endpoint_auth_method = ''none'', rc_jwks = None\<rparr>"

definition demo_token :: "string \<Rightarrow> refresh_token_row" where
  "demo_token t = \<lparr>rt_refresh_token = t, rt_client_id = ''app'', rt_subject = ''alice'',
     rt_resource = [], rt_scope = ''mcp'', rt_provider_refresh_token = None,
     rt_created_at = 0, rt_expires_at = 1000\<rparr>"

text \<open>A database with one client and one unclaimed refresh token.\<close>

definition demo_db :: auth_db where
  "demo_db = empty_db\<lparr>clients := [demo_client],
     refresh_tokens := [refresh_db_row plain_env (demo_token ''A'') None]\<rparr>"

lemma demo_db_run:
  "run_ops plain_env [RegisterClient demo_client, UpsertRefresh (Inl []) (demo_token ''A'')] empty_db
   = ([Inr RUnit, Inr RUnit], demo_db)"
  by (simp add: register_client_def upsert_refresh_token_def encrypt_provider_rt_def client_row_def
      client_known_def has_key_def sql_upsert_def demo_client_def demo_token_def demo_db_def
      empty_db_def returning_def)

lemma demo_db_ok: "db_ok demo_db"
  using db_ok_run [OF db_ok_empty, of plain_env] demo_db_run by (metis snd_conv)

theorem store_run_invariant_witness:
  "db_ok empty_db
   \<and> refresh_tokens demo_db \<noteq> []
   \<and> db_ok (snd (run_ops plain_env
       [RegisterClient demo_client, UpsertRefresh (Inl []) (demo_token ''A'')] empty_db))"
  using store_run_invariant [OF db_ok_empty] db_ok_empty by (simp add: demo_db_def del: run_ops.simps)

end
