(* ===== verification/Auth_Tickets.thy ===== *)
theory Auth_Tickets
  imports Auth_Run
begin

text \<open>
  Five tables of the store hold records that are used once: authorization requests,
  authorization codes, browser logins, native results and upstream states. Each refines the
  abstract one-shot tickets, in every run of the store, whatever other operations do between.
\<close>

section \<open>What the statements do to tickets\<close>

lemma tick_refl: "ticket_step key expiry m Quiet m"
  by (simp add: ticket_step_simps)

lemma tick_delete:
  "tbl_ok key rows \<Longrightarrow>
   ticket_step key expiry (tbl_get key rows) Quiet (tbl_get key (sql_delete P rows))"
  by (auto simp: ticket_step_simps map_le_def dom_def tbl_get_delete split: option.splits if_splits)

lemma tick_insert:
  "sql_insert key r rows = Some rows' \<Longrightarrow>
   ticket_step key expiry (tbl_get key rows) (Issue r) (tbl_get key rows')"
  by (auto simp: ticket_step_simps fun_eq_iff tbl_get_insert)

lemma tick_upsert:
  assumes "\<And>q. key q = key r \<Longrightarrow> merge q r = r"
  shows "ticket_step key expiry (tbl_get key rows) (Issue r) (tbl_get key (sql_upsert key merge r rows))"
proof -
  have "tbl_get key (sql_upsert key merge r rows) k = ((tbl_get key rows)(key r \<mapsto> r)) k" for k
  proof (cases "k = key r")
    case True
    have "key q = key r \<Longrightarrow> key (merge q r) = key q" for q using assms by simp
    from tbl_get_upsert_same [of key r merge rows, OF this] True assms show ?thesis
      by (auto split: option.splits dest: tbl_get_Some)
  next
    case False
    then show ?thesis by (simp add: tbl_get_upsert_other assms)
  qed
  then show ?thesis by (simp add: ticket_step_simps fun_eq_iff)
qed

lemma tick_take:
  assumes ok: "tbl_ok key rows"
    and hit: "sql_first (\<lambda>r. key r = k \<and> expiry r > now) rows = Some r"
  shows "ticket_step key expiry (tbl_get key rows) (Redeem now r)
           (tbl_get key (sql_delete (\<lambda>r. key r = k \<and> expiry r > now) rows))"
proof -
  from hit have r: "r \<in> set rows" "key r = k" "expiry r > now" by (auto dest: sql_first_Some)
  then have get: "tbl_get key rows (key r) = Some r" using tbl_get_in [OF ok] by blast
  have "tbl_get key (sql_delete (\<lambda>r. key r = k \<and> expiry r > now) rows)
        = (tbl_get key rows)(key r := None)"
    using r get by (auto simp: fun_eq_iff tbl_get_delete [OF ok] split: option.splits dest: tbl_get_Some)
  with get r show ?thesis by (simp add: ticket_step_simps)
qed

lemmas ticks = tick_refl tick_delete tick_insert tick_upsert tick_take

text \<open>The same through a projection of the rows that keeps key and expiry.\<close>

lemma tbl_get_map:
  "(\<And>r. key' (f r) = key r) \<Longrightarrow> tbl_get key' (map f rows) k = map_option f (tbl_get key rows k)"
  by (induction rows) (auto simp: tbl_get_def)

lemma tick_project:
  assumes "ticket_step key expiry m e m'"
    and "\<And>r. key' (f r) = key r" and "\<And>r. expiry' (f r) = expiry r"
  shows "ticket_step key' expiry' (\<lambda>k. map_option f (m k)) (map_ticket_event f e)
           (\<lambda>k. map_option f (m' k))"
  using assms(1)
proof cases
  case (issue r)
  have "(\<lambda>k. map_option f (m' k)) = (\<lambda>k. map_option f (m k))(key' (f r) \<mapsto> f r)"
    by (auto simp: issue fun_eq_iff assms(2))
  with issue show ?thesis by (simp add: ticket_step_simps)
next
  case (redeem r now)
  have "(\<lambda>k. map_option f (m' k)) = (\<lambda>k. map_option f (m k))(key' (f r) := None)"
    by (auto simp: redeem fun_eq_iff assms(2))
  with redeem show ?thesis by (simp add: ticket_step_simps assms)
next
  case quiet
  then show ?thesis
    by (auto simp: ticket_step_simps map_le_def dom_def)
qed

section \<open>The interface\<close>

locale one_shot =
  fixes env :: auth_env
    and rows :: "auth_db \<Rightarrow> 'r list"
    and key :: "'r \<Rightarrow> 'k"
    and expiry :: "'r \<Rightarrow> int"
    and label :: "store_op \<Rightarrow> auth_error + store_result \<Rightarrow> 'r ticket_event"
  assumes simulates: "db_ok db \<Longrightarrow>
    ticket_step key expiry (tbl_get key (rows db)) (label op (fst (exec env op db)))
      (tbl_get key (rows (snd (exec env op db))))"
begin

lemma refines:
  "db_ok db \<Longrightarrow>
   ticket_run key expiry (tbl_get key (rows db)) (map2 label ops (fst (run_ops env ops db)))
     (tbl_get key (rows (snd (run_ops env ops db))))"
proof (induction ops arbitrary: db)
  case (Cons op ops)
  obtain r db' where e: "exec env op db = (r, db')" by fastforce
  obtain rs db'' where es: "run_ops env ops db' = (rs, db'')" by fastforce
  have "db_ok db'" using db_ok_exec [OF Cons.prems, of env op] e by simp
  then have "ticket_run key expiry (tbl_get key (rows db')) (map2 label ops rs)
      (tbl_get key (rows db''))"
    using Cons.IH [of db'] es by simp
  moreover have "ticket_step key expiry (tbl_get key (rows db)) (label op r) (tbl_get key (rows db'))"
    using simulates [OF Cons.prems, of op] e by simp
  ultimately show ?case by (simp add: e es run_cons)
qed (simp add: run_nil)

lemma used_once:
  assumes "db_ok db" and "rows db = []"
  shows "once_only key expiry (map2 label ops (fst (run_ops env ops db)))"
proof -
  have "tbl_get key (rows db) = Map.empty" by (simp add: assms(2) tbl_get_def fun_eq_iff)
  then show ?thesis using refines [OF assms(1), of ops] ticket_run_once_only by metis
qed

end

section \<open>The five tables\<close>

text \<open>The ticket event of an operation with its result.\<close>

definition request_label :: "store_op \<Rightarrow> auth_error + store_result \<Rightarrow> authorization_request_row ticket_event" where
  "request_label op r =
     (case op of
        InsertRequest row \<Rightarrow> (case r of Inr _ \<Rightarrow> Issue row | _ \<Rightarrow> Quiet)
      | TakeRequest s now \<Rightarrow> (case r of Inr (RRequest row) \<Rightarrow> Redeem now row | _ \<Rightarrow> Quiet)
      | _ \<Rightarrow> Quiet)"

definition code_label :: "store_op \<Rightarrow> auth_error + store_result \<Rightarrow> authorization_code_row ticket_event" where
  "code_label op r =
     (case op of
        InsertCode row \<Rightarrow> (case r of Inr _ \<Rightarrow> Issue row | _ \<Rightarrow> Quiet)
      | RedeemCode c now \<Rightarrow> (case r of Inr (RCode row) \<Rightarrow> Redeem now row | _ \<Rightarrow> Quiet)
      | _ \<Rightarrow> Quiet)"

definition login_label :: "store_op \<Rightarrow> auth_error + store_result \<Rightarrow> browser_login_state_row ticket_event" where
  "login_label op r =
     (case op of
        InsertLogin row \<Rightarrow> (case r of Inr _ \<Rightarrow> Issue row | _ \<Rightarrow> Quiet)
      | TakeLogin s now \<Rightarrow> (case r of Inr (RLogin (Some row)) \<Rightarrow> Redeem now row | _ \<Rightarrow> Quiet)
      | _ \<Rightarrow> Quiet)"

definition native_label :: "store_op \<Rightarrow> auth_error + store_result \<Rightarrow> native_result_row ticket_event" where
  "native_label op r =
     (case op of
        InsertNative row \<Rightarrow> (case r of Inr _ \<Rightarrow> Issue row | _ \<Rightarrow> Quiet)
      | TakeNative s now \<Rightarrow> (case r of Inr (RNative (Some row)) \<Rightarrow> Redeem now row | _ \<Rightarrow> Quiet)
      | _ \<Rightarrow> Quiet)"

definition state_label :: "store_op \<Rightarrow> auth_error + store_result \<Rightarrow> upstream_state_row ticket_event" where
  "state_label op r =
     (case op of
        SaveState row \<Rightarrow> (case r of Inr _ \<Rightarrow> Issue row | _ \<Rightarrow> Quiet)
      | TakeState u s c now \<Rightarrow> (case r of Inr (RState (Some row)) \<Rightarrow> Redeem now row | _ \<Rightarrow> Quiet)
      | _ \<Rightarrow> Quiet)"

lemmas label_defs = request_label_def code_label_def login_label_def native_label_def state_label_def

lemma db_ok_tables:
  assumes "db_ok db"
  shows "tbl_ok ar_state (auth_requests db)" "tbl_ok ac_code (auth_codes db)"
    "tbl_ok bl_state (browser_login_states db)" "tbl_ok nr_state (native_results db)"
    "tbl_ok us_key (upstream_states db)" "tbl_ok rd_hash (refresh_tokens db)"
    "tbl_ok gc_subject (google_creds db)" "tbl_ok aj_key (assertion_jtis db)"
  using assms by (simp_all add: db_ok_def keys_ok_def)

interpretation requests: one_shot env auth_requests ar_state ar_expires_at request_label
proof unfold_locales
  fix db op
  assume "db_ok db"
  then show "ticket_step ar_state ar_expires_at (tbl_get ar_state (auth_requests db))
      (request_label op (fst (exec env op db)))
      (tbl_get ar_state (auth_requests (snd (exec env op db))))"
    by (cases op)
      (auto simp: label_defs store_defs Let_def fst_returning db_ok_tables ticks sql_miss ok_or_def
        split: option.splits sum.splits prod.splits if_splits)
qed

interpretation codes: one_shot env auth_codes ac_code ac_expires_at code_label
proof unfold_locales
  fix db op
  assume "db_ok db"
  then show "ticket_step ac_code ac_expires_at (tbl_get ac_code (auth_codes db))
      (code_label op (fst (exec env op db)))
      (tbl_get ac_code (auth_codes (snd (exec env op db))))"
    by (cases op)
      (auto simp: label_defs store_defs Let_def fst_returning db_ok_tables ticks sql_miss ok_or_def
        split: option.splits sum.splits prod.splits if_splits)
qed

interpretation logins: one_shot env browser_login_states bl_state bl_expires_at login_label
proof unfold_locales
  fix db op
  assume "db_ok db"
  then show "ticket_step bl_state bl_expires_at (tbl_get bl_state (browser_login_states db))
      (login_label op (fst (exec env op db)))
      (tbl_get bl_state (browser_login_states (snd (exec env op db))))"
    by (cases op)
      (auto simp: label_defs store_defs Let_def fst_returning db_ok_tables ticks sql_miss ok_or_def
        split: option.splits sum.splits prod.splits if_splits)
qed

interpretation natives: one_shot env native_results nr_state nr_expires_at native_label
proof unfold_locales
  fix db op
  assume "db_ok db"
  then show "ticket_step nr_state nr_expires_at (tbl_get nr_state (native_results db))
      (native_label op (fst (exec env op db)))
      (tbl_get nr_state (native_results (snd (exec env op db))))"
    by (cases op)
      (auto simp: label_defs store_defs Let_def fst_returning db_ok_tables ticks sql_miss ok_or_def
        split: option.splits sum.splits prod.splits if_splits)
qed

text \<open>The rows of the state table carry one more column, which a taker does not see.\<close>

abbreviation states_of :: "auth_db \<Rightarrow> upstream_state_row list" where
  "states_of db \<equiv> map upstream_state_row.truncate (upstream_states db)"

lemma us_truncate [simp]:
  "us_key (upstream_state_row.truncate r) = us_key r"
  "us_expires_at (upstream_state_row.truncate r) = us_expires_at r"
  "upstream_state_row.truncate (upstream_state_row.extend s x) = s"
  "upstream_state_row.truncate (r\<lparr>us_dynamic_client_id := c\<rparr>) = upstream_state_row.truncate r"
  by (simp_all add: us_key_def upstream_state_row.defs)

lemma states_get: "tbl_get us_key (states_of db) = (\<lambda>k. map_option upstream_state_row.truncate (tbl_get us_key (upstream_states db) k))"
  by (rule ext) (simp add: tbl_get_map)

lemma state_key_cond:
  "(\<lambda>r. us_upstream_name r = u \<and> us_subject r = s \<and> us_csrf_token r = c \<and> now < us_expires_at r)
   = (\<lambda>r. us_key r = (u, s, c) \<and> us_expires_at r > now)"
  by (auto simp: us_key_def fun_eq_iff)

lemma state_tick:
  "ticket_step us_key us_expires_at (tbl_get us_key (upstream_states db)) e
     (tbl_get us_key (upstream_states db')) \<Longrightarrow>
   ticket_step us_key us_expires_at (tbl_get us_key (states_of db))
     (map_ticket_event upstream_state_row.truncate e) (tbl_get us_key (states_of db'))"
  unfolding states_get by (rule tick_project) simp_all

lemma state_tick_save:
  assumes "sql_insert us_key (upstream_state_row.extend r x) (upstream_states db) = Some rows"
  shows "ticket_step us_key us_expires_at (tbl_get us_key (states_of db)) (Issue r)
           (tbl_get us_key (map upstream_state_row.truncate rows))"
  using state_tick [of db "Issue (upstream_state_row.extend r x)" "db\<lparr>upstream_states := rows\<rparr>"]
    tick_insert [OF assms] by simp

lemma state_tick_take:
  assumes "db_ok db"
  shows "ticket_step us_key us_expires_at (tbl_get us_key (states_of db))
     (state_label (TakeState u s c now) (map_sum id RState (fst (take_upstream_oauth_state u s c now db))))
     (tbl_get us_key (states_of (snd (take_upstream_oauth_state u s c now db))))"
proof (cases "sql_first (\<lambda>r. us_key r = (u, s, c) \<and> us_expires_at r > now) (upstream_states db)")
  case None
  then show ?thesis
    by (simp add: label_defs take_upstream_oauth_state_def Let_def state_key_cond sql_miss tick_refl)
next
  case (Some r)
  from state_tick [where e = "Redeem now r" and db = db and
      db' = "db\<lparr>upstream_states := sql_delete (\<lambda>r. us_key r = (u, s, c) \<and> us_expires_at r > now)
               (upstream_states db)\<rparr>"]
    tick_take [OF db_ok_tables(5) [OF assms] Some] Some
  show ?thesis by (simp add: label_defs take_upstream_oauth_state_def Let_def state_key_cond)
qed

lemma state_tick_delete:
  assumes "db_ok db"
  shows "ticket_step us_key us_expires_at (tbl_get us_key (states_of db)) Quiet
     (tbl_get us_key (map upstream_state_row.truncate (sql_delete P (upstream_states db))))"
  using state_tick [of db Quiet "db\<lparr>upstream_states := sql_delete P (upstream_states db)\<rparr>"]
    tick_delete [OF db_ok_tables(5) [OF assms]] by simp

lemma state_tick_update:
  "map upstream_state_row.truncate (sql_update P (\<lambda>r. r\<lparr>us_dynamic_client_id := c\<rparr>) rows)
   = map upstream_state_row.truncate rows"
  by (simp add: sql_update_def)

interpretation states: one_shot env states_of us_key us_expires_at state_label
proof unfold_locales
  fix db op
  assume ok: "db_ok db"
  show "ticket_step us_key us_expires_at (tbl_get us_key (states_of db))
      (state_label op (fst (exec env op db)))
      (tbl_get us_key (states_of (snd (exec env op db))))"
  proof (cases "\<exists>u s c now. op = TakeState u s c now")
    case True
    then show ?thesis using state_tick_take [OF ok] by (auto simp: fst_returning)
  next
    case False
    with ok show ?thesis
      by (cases op)
        (auto simp: label_defs store_defs Let_def fst_returning tick_refl state_tick_save state_tick_delete
            state_tick_update
          split: option.splits sum.splits prod.splits if_splits)
  qed
qed

section \<open>Properties\<close>

text \<open>
  C10. Each of the five tables of one-shot records refines the abstract tickets: in every run
  of the store, from any well-formed database and with any interleaving of its operations, the
  sequence of successful insertions and redemptions of a table is a run of the ticket machine
  whose states are the contents of the table.
\<close>

theorem one_shot_refinement:
  assumes "db_ok db" and "run_ops env ops db = (rs, db')"
  shows "ticket_run ar_state ar_expires_at (tbl_get ar_state (auth_requests db))
      (map2 request_label ops rs) (tbl_get ar_state (auth_requests db'))
    \<and> ticket_run ac_code ac_expires_at (tbl_get ac_code (auth_codes db))
      (map2 code_label ops rs) (tbl_get ac_code (auth_codes db'))
    \<and> ticket_run bl_state bl_expires_at (tbl_get bl_state (browser_login_states db))
      (map2 login_label ops rs) (tbl_get bl_state (browser_login_states db'))
    \<and> ticket_run nr_state nr_expires_at (tbl_get nr_state (native_results db))
      (map2 native_label ops rs) (tbl_get nr_state (native_results db'))
    \<and> ticket_run us_key us_expires_at (tbl_get us_key (states_of db))
      (map2 state_label ops rs) (tbl_get us_key (states_of db'))"
  using requests.refines [OF assms(1), where env = env and ops = ops] codes.refines [OF assms(1), where env = env and ops = ops]
    logins.refines [OF assms(1), where env = env and ops = ops] natives.refines [OF assms(1), where env = env and ops = ops]
    states.refines [OF assms(1), where env = env and ops = ops]
  by (simp add: assms(2))

definition demo_code :: authorization_code_row where
  "demo_code = \<lparr>ac_code = ''c1'', ac_client_id = ''app'', ac_subject = ''alice'',
     ac_redirect_uri = ''https://app/cb'', ac_resource = [], ac_scope = ''mcp'',
     ac_code_challenge = ''x'', ac_code_challenge_method = ''S256'',
     ac_provider_refresh_token = None, ac_created_at = 0, ac_expires_at = 600\<rparr>"

lemma auth_codes_empty: "auth_codes empty_db = []"
  by (simp add: empty_db_def)

theorem one_shot_refinement_witness:
  "map2 code_label [InsertCode demo_code, RedeemCode ''c1'' 5, RedeemCode ''c1'' 6]
     (fst (run_ops plain_env [InsertCode demo_code, RedeemCode ''c1'' 5, RedeemCode ''c1'' 6] empty_db))
   = [Issue demo_code, Redeem 5 demo_code, Quiet]
   \<and> ticket_run ac_code ac_expires_at (tbl_get ac_code (auth_codes empty_db))
       [Issue demo_code, Redeem 5 demo_code, Quiet] (tbl_get ac_code [])"
proof -
  let ?ops = "[InsertCode demo_code, RedeemCode ''c1'' 5, RedeemCode ''c1'' 6]"
  have r: "run_ops plain_env ?ops empty_db
    = ([Inr RUnit, Inr (RCode demo_code),
        Inl (AInvalidGrant ''authorization code is missing, expired, or already redeemed'')], empty_db)"
    by (simp add: insert_auth_code_def redeem_auth_code_def sql_insert_def has_key_def sql_first_def
        sql_delete_def ok_or_def demo_code_def empty_db_def returning_def Let_def)
  show ?thesis
    using one_shot_refinement [OF db_ok_empty r] unfolding r by (simp add: label_defs auth_codes_empty)
qed

text \<open>
  One-shot records are used at most once. In every run of the store from the empty
  database, whatever operations interleave, an authorization request, an authorization code, a
  browser login, a native result or an upstream state is handed out at most as often as it was
  stored under its key; the row handed out is the very row that was stored before, and it had
  not expired.
\<close>

theorem one_shot_used_once:
  "let rs = fst (run_ops env ops empty_db) in
     once_only ar_state ar_expires_at (map2 request_label ops rs)
     \<and> once_only ac_code ac_expires_at (map2 code_label ops rs)
     \<and> once_only bl_state bl_expires_at (map2 login_label ops rs)
     \<and> once_only nr_state nr_expires_at (map2 native_label ops rs)
     \<and> once_only us_key us_expires_at (map2 state_label ops rs)"
  unfolding Let_def
  by (intro conjI requests.used_once codes.used_once logins.used_once natives.used_once
      states.used_once db_ok_empty)
    (simp_all add: empty_db_def)

end
