(* ===== verification/Auth_Google.thy ===== *)
theory Auth_Google
  imports Auth_Run
begin

text \<open>
  The generation counter of the Google credential, the bounded retry of the explicit revoke,
  and the replay table of assertions, over runs of the store.
\<close>

section \<open>Generations\<close>

definition gens :: "google_credential_row list \<Rightarrow> string \<Rightarrow> int option" where
  "gens rows s = map_option gc_generation (tbl_get gc_subject rows s)"

definition gen_of :: "string \<Rightarrow> auth_db \<Rightarrow> int option" where
  "gen_of s db = gens (google_creds db) s"

text \<open>The operations that install a credential for the subject.\<close>

fun installs :: "string \<Rightarrow> store_op \<Rightarrow> bool" where
  "installs s (UpsertGoogle rng s' e t now) = (s' = s)"
| "installs s (UpsertBundle r1 r2 u now) = (gu_subject u = s)"
| "installs s _ = False"

fun invalidates :: "string \<Rightarrow> store_op \<Rightarrow> bool" where
  "invalidates s (InvalidateGoogle s' g) = (s' = s)"
| "invalidates s _ = False"

lemma gens_zip: "gens rows s = map_of (zip (map gc_subject rows) (map gc_generation rows)) s"
  by (induction rows) (auto simp: gens_def tbl_get_def)

lemma gens_legacy: "encrypt_legacy_rows env k rngs rows = Inr (n, rows') \<Longrightarrow> gens rows' s = gens rows s"
  by (simp add: gens_zip encrypt_legacy_rows_keeps)

lemma gens_update:
  "(\<And>r. gc_subject (f r) = gc_subject r) \<Longrightarrow> (\<And>r. gc_generation (f r) = gc_generation r) \<Longrightarrow>
   gens (sql_update P f rows) s = gens rows s"
  by (simp add: gens_zip sql_update_def comp_def if_distrib cong: if_cong)

lemma gens_delete_other:
  "tbl_ok gc_subject rows \<Longrightarrow> s \<noteq> s' \<Longrightarrow>
   gens (sql_delete (\<lambda>r. gc_subject r = s' \<and> P r) rows) s = gens rows s"
  by (auto simp: gens_def tbl_get_delete split: option.splits dest: tbl_get_Some)

lemma gens_upsert:
  assumes "\<And>q r. gc_subject (merge q r) = gc_subject q"
    and "\<And>q r. gc_generation (merge q r) = gc_generation q + 1" and "gc_generation row = 1"
  shows "gens (sql_upsert gc_subject merge row rows) s
    = (if s = gc_subject row then Some (case gens rows s of None \<Rightarrow> 1 | Some g \<Rightarrow> g + 1)
       else gens rows s)"
  using assms
  by (auto simp: gens_def tbl_get_upsert_other tbl_get_upsert_same split: option.splits)

lemma gen_of_exec:
  assumes ok: "db_ok db" and keep: "\<not> invalidates s op"
  shows "gen_of s (snd (exec env op db))
    = (if installs s op \<and> (\<exists>x. fst (exec env op db) = Inr x)
       then Some (case gen_of s db of None \<Rightarrow> 1 | Some g \<Rightarrow> g + 1) else gen_of s db)"
proof -
  have tbl: "tbl_ok gc_subject (google_creds db)" using ok by (simp add: db_ok_def keys_ok_def)
  show ?thesis
    using keep
    by (cases op)
      (auto simp: gen_of_def store_defs Let_def fst_returning gens_legacy gens_upsert gens_update
          gens_delete_other [OF tbl]
        split: option.splits sum.splits prod.splits if_splits)
qed

text \<open>While nobody invalidates it, a credential keeps its row and its generation only grows.\<close>

lemma gen_of_run:
  "db_ok db \<Longrightarrow> \<forall>op \<in> set ops. \<not> invalidates s op \<Longrightarrow> gen_of s db = Some g \<Longrightarrow>
   \<exists>g' \<ge> g. gen_of s (snd (run_ops env ops db)) = Some g'"
proof (induction ops arbitrary: db g)
  case (Cons op ops)
  obtain r db' where e: "exec env op db = (r, db')" by fastforce
  have ok': "db_ok db'" using db_ok_exec [OF Cons.prems(1), of env op] e by simp
  have "gen_of s db' = Some (if installs s op \<and> (\<exists>x. r = Inr x) then g + 1 else g)"
    using gen_of_exec [OF Cons.prems(1), of s op env] Cons.prems(2,3) e by simp
  then obtain g1 where "g1 \<ge> g" "gen_of s db' = Some g1" by (auto split: if_splits)
  moreover from this(2) ok' Cons.prems(2) have
    "\<exists>g' \<ge> g1. gen_of s (snd (run_ops env ops db')) = Some g'" by (intro Cons.IH) auto
  ultimately show ?case by (auto simp: e split: prod.splits)
qed simp

lemma stale_invalidation:
  assumes "db_ok db" and "gen_of s db = Some g'" and "g < g'"
  shows "invalidate_google_provider_credential s g db = (Inr no_invalidation, db)"
proof -
  have "tbl_ok gc_subject (google_creds db)" using assms(1) by (simp add: db_ok_def keys_ok_def)
  then have "\<not> (gc_subject r = s \<and> gc_generation r = g)" if "r \<in> set (google_creds db)" for r
    using assms(2,3) that tbl_get_in [of gc_subject "google_creds db" r]
    by (auto simp: gen_of_def gens_def)
  then have "sql_count (\<lambda>r. gc_subject r = s \<and> gc_generation r = g) (google_creds db) = 0"
    by (simp add: sql_count_0)
  then show ?thesis by (simp add: invalidate_google_provider_credential_def)
qed

text \<open>
  An invalidation that was decided on an older generation cannot remove a newer
  credential. After a request has read a credential, if another request installs a new one
  while the row stays in the table (nobody invalidates the subject in between), comparing and
  deleting with the old generation reports no invalidation and leaves the whole database, and
  so the sessions of the subject, as they are, however the other operations interleave.
\<close>

theorem newer_credential_survives:
  assumes "db_ok db" and "tbl_get gc_subject (google_creds db) s = Some row"
    and "\<forall>op \<in> set (ops1 @ w # ops2). \<not> invalidates s op"
    and "installs s w" and "fst (exec env w (snd (run_ops env ops1 db))) = Inr x"
    and "db' = snd (run_ops env (ops1 @ w # ops2) db)"
  shows "invalidate_google_provider_credential s (gc_generation row) db' = (Inr no_invalidation, db')"
proof -
  let ?g = "gc_generation row" and ?db1 = "snd (run_ops env ops1 db)"
  have ok1: "db_ok ?db1" using assms(1) by (rule db_ok_run)
  have "gen_of s db = Some ?g" using assms(2) by (simp add: gen_of_def gens_def)
  with assms(1,3) obtain g1 where g1: "g1 \<ge> ?g" "gen_of s ?db1 = Some g1"
    using gen_of_run [of db ops1 s ?g env] by auto
  let ?db2 = "snd (exec env w ?db1)"
  have "gen_of s ?db2 = Some (g1 + 1)"
    using gen_of_exec [OF ok1, of s w env] assms(3,4,5) g1(2) by auto
  with assms(3) ok1 obtain g2 where g2: "g2 \<ge> g1 + 1" "gen_of s (snd (run_ops env ops2 ?db2)) = Some g2"
    using gen_of_run [OF db_ok_exec [OF ok1, of env w], of ops2 s "g1 + 1" env] by auto
  have "db' = snd (run_ops env ops2 ?db2)"
    unfolding assms(6) by (simp add: run_ops_append Let_def split: prod.splits)
  with g2(2) have "gen_of s db' = Some g2" by simp
  moreover have "db_ok db'" unfolding assms(6) by (rule db_ok_run [OF assms(1)])
  moreover have "?g < g2" using g1(1) g2(1) by linarith
  ultimately show ?thesis by (intro stale_invalidation)
qed

definition demo_google :: auth_db where
  "demo_google = snd (exec plain_env (UpsertGoogle (Inl []) ''alice'' None ''t1'' 1) empty_db)"

lemmas google_eval = upsert_google_provider_credential_def maybe_encrypt_def sql_upsert_def
  has_key_def plain_env_def empty_db_def returning_def normal_email_def

lemma demo_google_ok: "db_ok demo_google"
  unfolding demo_google_def by (rule db_ok_exec [OF db_ok_empty])

lemma demo_google_row:
  "\<exists>row. tbl_get gc_subject (google_creds demo_google) ''alice'' = Some row \<and> gc_generation row = 1"
  by (simp add: demo_google_def google_eval tbl_get_def)

theorem newer_credential_survives_witness:
  "let db' = snd (run_ops plain_env [RedeemCode ''x'' 2, UpsertGoogle (Inl []) ''alice'' None ''t2'' 3]
               demo_google)
   in invalidate_google_provider_credential ''alice'' 1 db' = (Inr no_invalidation, db')"
proof -
  obtain row where row: "tbl_get gc_subject (google_creds demo_google) ''alice'' = Some row"
    "gc_generation row = 1" using demo_google_row by blast
  show ?thesis
    using newer_credential_survives [OF demo_google_ok row(1), of "[RedeemCode ''x'' 2]"
        "UpsertGoogle (Inl []) ''alice'' None ''t2'' 3" "[]" plain_env RUnit] row(2)
    by (simp add: Let_def upsert_google_provider_credential_def maybe_encrypt_def fst_returning
        plain_env_def split: prod.splits)
qed

text \<open>
  The counter restarts when the row is deleted: a credential created after an invalidation has
  generation 1 again, and a request that had read generation 1 of the credential before it
  removes the new one, with every code and token of the subject.
\<close>

lemma recreated_credential_invalidated:
  assumes ok: "db_ok db" and gone: "gen_of s db = None"
    and w: "installs s w" and ok_w: "fst (exec env w db) = Inr x"
  shows "\<exists>inv db'. invalidate_google_provider_credential s 1 (snd (exec env w db)) = (Inr inv, db')
    \<and> gi_invalidated inv \<and> gen_of s db' = None
    \<and> (\<forall>r \<in> set (refresh_tokens db'). rd_subject r \<noteq> s)
    \<and> (\<forall>r \<in> set (auth_codes db'). ac_subject r \<noteq> s)"
proof -
  let ?db = "snd (exec env w db)"
  have nw: "\<not> invalidates s w" using w by (cases w) auto
  have "gen_of s ?db = Some 1"
    using gen_of_exec [OF ok nw, of env] w ok_w gone by auto
  then obtain r where r: "r \<in> set (google_creds ?db)" "gc_subject r = s" "gc_generation r = 1"
    by (auto simp: gen_of_def gens_def dest: tbl_get_Some)
  have tbl: "tbl_ok gc_subject (google_creds ?db)"
    using db_ok_exec [OF ok, of env w] by (simp add: db_ok_def keys_ok_def)
  have "tbl_get gc_subject (google_creds ?db) s = Some r"
    using tbl_get_in [OF tbl r(1)] r(2) by simp
  then have "gens (sql_delete (\<lambda>r. gc_subject r = s \<and> gc_generation r = 1) (google_creds ?db)) s = None"
    using r by (simp add: gens_def tbl_get_delete [OF tbl])
  moreover have "sql_count (\<lambda>r. gc_subject r = s \<and> gc_generation r = 1) (google_creds ?db) \<noteq> 0"
    using r by (auto simp: sql_count_0)
  ultimately show ?thesis
    by (auto simp: invalidate_google_provider_credential_def Let_def gen_of_def sql_delete_def)
qed

section \<open>The explicit revoke\<close>

text \<open>A database whose one credential, if there is one, can be decoded.\<close>

definition readable :: "auth_env \<Rightarrow> auth_db \<Rightarrow> bool" where
  "readable env db =
     (length (google_creds db) \<le> 1 \<and> list_all (\<lambda>r. is_ok (decode_row env r)) (google_creds db))"

lemma decode_row_keeps:
  "decode_row env row = Inr r \<Longrightarrow> gc_subject r = gc_subject row \<and> gc_generation r = gc_generation row"
  by (auto simp: decode_row_def and_then_Inr split: option.splits)

lemma find_google_rows_subset:
  "set (find_google_rows sel db) \<subseteq> set (google_creds db) \<and>
   length (find_google_rows sel db) \<le> max 1 (length (google_creds db))"
  by (auto simp: find_google_rows_def sql_order_limit_def split: option.splits
      dest!: in_set_takeD sql_first_Some)
    (meson le_max_iff_disj length_filter_le min.coboundedI1)

lemma readable_find:
  assumes "readable env db"
  shows "\<exists>x. find_google_provider_credential_by_selector env sel db = Inr x
    \<and> (\<forall>row. x = Some row \<longrightarrow>
        (\<exists>r \<in> set (google_creds db). gc_subject r = gc_subject row \<and> gc_generation r = gc_generation row))"
proof -
  let ?sel = "case sel of None \<Rightarrow> None | Some s \<Rightarrow> if trim s = [] then None else Some (trim s)"
  have sub: "set (find_google_rows ?sel db) \<subseteq> set (google_creds db)"
    and len: "length (find_google_rows ?sel db) \<le> 1"
    using find_google_rows_subset [of ?sel db] assms by (auto simp: readable_def)
  show ?thesis
  proof (cases "find_google_rows ?sel db")
    case Nil
    then show ?thesis by (simp add: find_google_provider_credential_by_selector_def)
  next
    case (Cons row rest)
    with len sub have "rest = []" and row: "row \<in> set (google_creds db)" by auto
    moreover obtain r where "decode_row env row = Inr r"
      using assms row by (auto simp: readable_def list_all_iff)
    ultimately show ?thesis
      using Cons decode_row_keeps by (auto simp: find_google_provider_credential_by_selector_def)
  qed
qed

lemma readable_invalidate:
  "readable env db \<Longrightarrow> readable env (snd (invalidate_google_provider_credential s g db))"
  by (auto simp: readable_def invalidate_google_provider_credential_def Let_def sql_delete_def
      list_all_iff intro: le_trans [OF length_filter_le])

lemma invalidate_present:
  "r \<in> set (google_creds db) \<Longrightarrow> gc_subject r = s \<Longrightarrow> gc_generation r = g \<Longrightarrow>
   \<exists>inv db'. invalidate_google_provider_credential s g db = (Inr inv, db') \<and> gi_invalidated inv"
  by (auto simp: invalidate_google_provider_credential_def Let_def sql_count_0)

lemma invalidate_total:
  "\<exists>inv. fst (invalidate_google_provider_credential s g db) = Inr inv
     \<and> (gi_invalidated inv \<or> inv = no_invalidation)"
  by (auto simp: invalidate_google_provider_credential_def Let_def)

lemma revoke_rounds_ends:
  assumes "readable env db" and "\<And>i d. readable env d \<Longrightarrow> readable env (between i d)"
    and "j < n" and "\<And>d. google_creds (between (i + 2 * j + 1) d) = google_creds d"
  shows "\<exists>inv. fst (revoke_rounds n i env between sel db) = Inr inv
    \<and> (gi_invalidated inv
       \<or> inv = no_invalidation
         \<and> find_google_provider_credential_by_selector env sel
             (snd (revoke_rounds n i env between sel db)) = Inr None)"
  using assms(1,3,4)
proof (induction n arbitrary: i j db)
  case (Suc n)
  let ?db = "between i db"
  have rd: "readable env ?db" using assms(2) Suc.prems(1) by blast
  obtain x where x: "find_google_provider_credential_by_selector env sel ?db = Inr x"
    and there: "\<And>row. x = Some row \<Longrightarrow> \<exists>r \<in> set (google_creds ?db).
      gc_subject r = gc_subject row \<and> gc_generation r = gc_generation row"
    using readable_find [OF rd, of sel] by blast
  show ?case
  proof (cases x)
    case None
    with x show ?thesis by simp
  next
    case (Some row)
    let ?res = "invalidate_google_provider_credential (gc_subject row) (gc_generation row)
      (between (Suc i) ?db)"
    obtain inv db' where res: "?res = (Inr inv, db')"
      using invalidate_total by (metis prod.collapse)
    show ?thesis
    proof (cases "gi_invalidated inv")
      case True
      with x Some res show ?thesis by simp
    next
      case False
      have "j \<noteq> 0"
      proof
        assume "j = 0"
        then have same: "google_creds (between (Suc i) ?db) = google_creds ?db"
          using Suc.prems(3) [of ?db] by simp
        obtain r where "r \<in> set (google_creds (between (Suc i) ?db))"
          "gc_subject r = gc_subject row" "gc_generation r = gc_generation row"
          using there [OF Some] unfolding same by blast
        from invalidate_present [OF this] False res show False by simp
      qed
      then obtain j' where j': "j = Suc j'" using not0_implies_Suc by blast
      have "readable env db'"
        using readable_invalidate [OF assms(2) [OF rd, of "Suc i"]] res by (metis snd_conv)
      with Suc.IH [of db' j' "Suc (Suc i)"] Suc.prems(2,3) j' False x Some res
      show ?thesis by simp
    qed
  qed
qed simp

text \<open>
  The explicit revoke ends with an answer. While the loop runs other connections may
  change the database before each of its eight calls; if in one of the four rounds the
  credential is left alone between the read and the compare-and-delete, the loop returns: the
  credential was removed, or none was found. (The databases the loop meets hold at most one
  credential, and it can be decoded, so that the selection itself does not fail.)
\<close>

theorem revoke_answers:
  assumes "readable env db"
    and "\<forall>i d. readable env d \<longrightarrow> readable env (between i d)"
    and "j < 4" and "\<forall>d. google_creds (between (2 * j + 1) d) = google_creds d"
  shows "\<exists>inv. fst (revoke_google_provider_credential env between sel db) = Inr inv
    \<and> (gi_invalidated inv
       \<or> inv = no_invalidation
         \<and> find_google_provider_credential_by_selector env sel
             (snd (revoke_google_provider_credential env between sel db)) = Inr None)"
  unfolding revoke_google_provider_credential_def
proof (rule revoke_rounds_ends [OF assms(1) _ assms(3)])
  show "readable env d \<Longrightarrow> readable env (between i d)" for i d using assms(2) by blast
  show "google_creds (between (0 + 2 * j + 1) d) = google_creds d" for d
    using assms(4) by (simp only: add_0)
qed

theorem revoke_answers_witness:
  "readable plain_env demo_google
   \<and> (\<exists>inv. fst (revoke_google_provider_credential plain_env (\<lambda>i d. d) None demo_google) = Inr inv
        \<and> (gi_invalidated inv
           \<or> inv = no_invalidation
             \<and> find_google_provider_credential_by_selector plain_env None
                 (snd (revoke_google_provider_credential plain_env (\<lambda>i d. d) None demo_google)) = Inr None))"
proof -
  have r: "readable plain_env demo_google"
    by (simp add: readable_def demo_google_def google_eval decode_row_def maybe_decrypt_def
        starts_with_def enc_prefix_def)
  from revoke_answers [OF r, of "\<lambda>i d. d" 0 None] r show ?thesis by simp
qed

section \<open>Assertions\<close>

fun jti_clock_le :: "int \<Rightarrow> store_op \<Rightarrow> bool" where
  "jti_clock_le limit (ConsumeJti i j iat ex now) = (now \<le> limit)"
| "jti_clock_le limit _ = True"

definition jti_recorded :: "string \<Rightarrow> string \<Rightarrow> int \<Rightarrow> auth_db \<Rightarrow> bool" where
  "jti_recorded i j ex db =
     (\<lparr>aj_issuer = i, aj_jti = j, aj_expires_at = ex\<rparr> \<in> set (assertion_jtis db))"

lemma jti_recorded_exec:
  "jti_recorded i j ex db \<Longrightarrow> jti_clock_le limit op \<Longrightarrow> limit < ex \<Longrightarrow>
   jti_recorded i j ex (snd (exec env op db))"
  by (cases op)
    (auto simp: jti_recorded_def store_defs Let_def sql_delete_def set_sql_insert
      split: option.splits sum.splits prod.splits if_splits)

lemma jti_recorded_run:
  "jti_recorded i j ex db \<Longrightarrow> \<forall>op \<in> set ops. jti_clock_le limit op \<Longrightarrow> limit < ex \<Longrightarrow>
   jti_recorded i j ex (snd (run_ops env ops db))"
proof (induction ops arbitrary: db)
  case (Cons op ops)
  from Cons.IH [OF jti_recorded_exec [OF Cons.prems(1), of limit op env]] Cons.prems(2,3)
  show ?case by (simp split: prod.splits) (metis prod.collapse prod.inject)
qed simp

lemma jti_consumed_records:
  "consume_assertion_jti i j iat ex now db = (Inr True, db') \<Longrightarrow> jti_recorded i j ex db'"
  by (auto simp: consume_assertion_jti_def Let_def jti_recorded_def set_sql_insert
      split: if_splits option.splits)

lemma jti_recorded_refuses:
  assumes "jti_recorded i j ex db"
  shows "fst (consume_assertion_jti i j iat ex now db) = Inr False"
proof (cases "now < ex")
  case True
  then have "has_key aj_key (i, j) (sql_delete (\<lambda>r. aj_expires_at r \<le> now) (assertion_jtis db))"
    using assms by (force simp: jti_recorded_def has_key_def aj_key_def sql_delete_def)
  then show ?thesis
    by (simp add: consume_assertion_jti_def Let_def sql_insert_def aj_key_def)
qed (simp add: consume_assertion_jti_def assertion_acceptable_def)

text \<open>
  A signed assertion is accepted once. After an assertion has been consumed, the same
  issuer, identifier and expiry are refused in every later state of the store, whatever
  operations came between, provided the clock did not run backwards: no assertion in between
  was consumed at a later time than the replay.
\<close>

theorem assertion_consumed_once:
  assumes "consume_assertion_jti i j iat ex now db = (Inr True, db1)"
    and "\<forall>op \<in> set ops. jti_clock_le now' op"
  shows "fst (consume_assertion_jti i j iat' ex now' (snd (run_ops env ops db1))) = Inr False"
proof (cases "now' < ex")
  case True
  then show ?thesis
    using jti_recorded_run [OF jti_consumed_records [OF assms(1)] assms(2)]
    by (intro jti_recorded_refuses) simp
qed (simp add: consume_assertion_jti_def assertion_acceptable_def)

theorem assertion_consumed_once_witness:
  "consume_assertion_jti ''iss'' ''j1'' 0 60 10 empty_db
     = (Inr True, empty_db\<lparr>assertion_jtis := [\<lparr>aj_issuer = ''iss'', aj_jti = ''j1'', aj_expires_at = 60\<rparr>]\<rparr>)
   \<and> fst (consume_assertion_jti ''iss'' ''j1'' 0 60 20
       (snd (run_ops plain_env [ConsumeJti ''iss'' ''j2'' 0 60 15]
         (empty_db\<lparr>assertion_jtis := [\<lparr>aj_issuer = ''iss'', aj_jti = ''j1'', aj_expires_at = 60\<rparr>]\<rparr>))))
     = Inr False"
proof -
  have c: "consume_assertion_jti ''iss'' ''j1'' 0 60 10 empty_db
     = (Inr True, empty_db\<lparr>assertion_jtis := [\<lparr>aj_issuer = ''iss'', aj_jti = ''j1'', aj_expires_at = 60\<rparr>]\<rparr>)"
    by (simp add: consume_assertion_jti_def assertion_acceptable_def i64_sat_def sql_delete_def
        sql_insert_def has_key_def empty_db_def)
  from assertion_consumed_once [OF c, of "[ConsumeJti ''iss'' ''j2'' 0 60 15]" 20 0 plain_env] c
  show ?thesis by (simp del: run_ops.simps)
qed

end
