(* ===== verification/Auth_Migrations.thy ===== *)
theory Auth_Migrations
  imports Auth_Types
begin

text \<open>
  Opening the auth database (\<open>open_connection\<close> of \<open>sqlite.rs\<close> and \<open>sqlite/migrations.rs\<close>): the
  tables are created when missing, the resource columns are added, and the versioned migrations
  run from the \<open>user_version\<close> the file carries. The model keeps the schema and the rows of the
  file; the migrations are the list of statements they send, each of which SQLite commits on
  its own, so that an interruption leaves the effect of a prefix of the list.
\<close>

section \<open>A database file\<close>

datatype sql_value = SNull | SText string | SInt int

type_synonym sql_row = "(string \<times> sql_value) list"

record sql_table =
  t_cols :: "string list"
  t_rows :: "sql_row list"

record sql_file =
  user_version :: int
  tables :: "(string \<times> sql_table) list"

definition col :: "sql_row \<Rightarrow> string \<Rightarrow> sql_value" where
  "col r c = (case map_of r c of None \<Rightarrow> SNull | Some v \<Rightarrow> v)"

definition table :: "sql_file \<Rightarrow> string \<Rightarrow> sql_table option" where
  "table f t = map_of (tables f) t"

definition set_table :: "string \<Rightarrow> sql_table \<Rightarrow> sql_file \<Rightarrow> sql_file" where
  "set_table t tb f = f\<lparr>tables := (t, tb) # filter (\<lambda>(t', _). t' \<noteq> t) (tables f)\<rparr>"

definition cols_of :: "sql_file \<Rightarrow> string \<Rightarrow> string list" where
  "cols_of f t = (case table f t of None \<Rightarrow> [] | Some tb \<Rightarrow> t_cols tb)"

definition rows_of :: "sql_file \<Rightarrow> string \<Rightarrow> sql_row list" where
  "rows_of f t = (case table f t of None \<Rightarrow> [] | Some tb \<Rightarrow> t_rows tb)"

section \<open>Statements\<close>

datatype stmt =
    CreateTable string "string list"
  | AddColumn string string sql_value
  | SetHash string
  | CreateIndex string "string list" bool
  | RebuildRefresh
  | CopyGoogle
  | SetVersion int

definition no_such_table :: "string \<Rightarrow> auth_error" where
  "no_such_table t = sqlite_error (''no such table: '' @ t)"

definition no_such_column :: "string \<Rightarrow> auth_error" where
  "no_such_column c = sqlite_error (''no such column: '' @ c)"

text \<open>\<open>ALTER TABLE ADD COLUMN\<close>, guarded by \<open>PRAGMA table_info\<close> as in \<open>add_column_if_missing\<close>.\<close>

definition add_column_if_missing :: "string \<Rightarrow> string \<Rightarrow> sql_value \<Rightarrow> sql_file \<Rightarrow> auth_error + sql_file" where
  "add_column_if_missing t c d f =
     (case table f t of
        None \<Rightarrow> Inl (no_such_table t)
      | Some tb \<Rightarrow>
          if c \<in> set (t_cols tb) then Inr f
          else Inr (set_table t (tb\<lparr>t_cols := t_cols tb @ [c],
                                   t_rows := map (\<lambda>r. (c, d) # r) (t_rows tb)\<rparr>) f))"

definition refresh_cols_v4 :: "string list" where
  "refresh_cols_v4 = [''refresh_token_hash'', ''client_id'', ''subject'', ''resource'', ''scope'',
     ''provider_refresh_token'', ''created_at'', ''expires_at'']"

text \<open>
  The transaction of version 4: a new table with these columns, filled from the old one, takes
  its place. It fails, and changes nothing, when the old table lacks a column.
\<close>

definition rebuild_refresh :: "sql_file \<Rightarrow> auth_error + sql_file" where
  "rebuild_refresh f =
     (case table f ''refresh_tokens'' of
        None \<Rightarrow> Inl (no_such_table ''refresh_tokens'')
      | Some tb \<Rightarrow>
          (case find (\<lambda>c. c \<notin> set (t_cols tb)) refresh_cols_v4 of
             Some c \<Rightarrow> Inl (no_such_column c)
           | None \<Rightarrow> Inr (set_table ''refresh_tokens''
               \<lparr>t_cols = refresh_cols_v4,
                t_rows = map (\<lambda>r. map (\<lambda>c. (c, col r c)) refresh_cols_v4) (t_rows tb)\<rparr> f)))"

text \<open>
  Version 7 seeds the central credential of a subject from its newest refresh token that has a
  provider token; rows with an equal creation time are taken in table order.
\<close>

definition int_of :: "sql_value \<Rightarrow> int" where
  "int_of v = (case v of SInt i \<Rightarrow> i | _ \<Rightarrow> 0)"

definition newest_provider_rows :: "sql_row list \<Rightarrow> sql_row list" where
  "newest_provider_rows rows =
     (let have = filter (\<lambda>r. col r ''provider_refresh_token'' \<noteq> SNull) rows
      in concat (map (\<lambda>s.
           case find (\<lambda>r. col r ''subject'' = s
                  \<and> list_all (\<lambda>q. col q ''subject'' = s \<longrightarrow>
                       int_of (col q ''created_at'') \<le> int_of (col r ''created_at'')) have) have of
             None \<Rightarrow> [] | Some r \<Rightarrow> [r])
         (remdups (map (\<lambda>r. col r ''subject'') have))))"

definition google_seed :: "sql_row \<Rightarrow> sql_row" where
  "google_seed r =
     [(''subject'', col r ''subject''), (''email'', SNull),
      (''refresh_token'', col r ''provider_refresh_token''), (''generation'', SInt 1),
      (''created_at'', col r ''created_at''), (''updated_at'', col r ''created_at''),
      (''client_id'', SText ''''),
      (''granted_scopes_json'', SText ''[\"email\",\"openid\",\"profile\"]'')]"

definition copy_google :: "sql_file \<Rightarrow> auth_error + sql_file" where
  "copy_google f =
     (case table f ''google_provider_credentials'' of
        None \<Rightarrow> Inl (no_such_table ''google_provider_credentials'')
      | Some g \<Rightarrow>
          (let old = map (\<lambda>r. col r ''subject'') (t_rows g);
               new = filter (\<lambda>r. col r ''subject'' \<notin> set old)
                       (map google_seed (newest_provider_rows (rows_of f ''refresh_tokens'')))
           in Inr (set_table ''google_provider_credentials'' (g\<lparr>t_rows := t_rows g @ new\<rparr>) f)))"

definition set_hash :: "auth_env \<Rightarrow> string \<Rightarrow> sql_row \<Rightarrow> sql_row" where
  "set_hash env p r =
     (if col r ''refresh_token'' = SText p \<and> col r ''refresh_token_hash'' = SNull
      then (''refresh_token_hash'', SText (hash_token env p)) # filter (\<lambda>(c, _). c \<noteq> ''refresh_token_hash'') r
      else r)"

fun exec_stmt :: "auth_env \<Rightarrow> stmt \<Rightarrow> sql_file \<Rightarrow> auth_error + sql_file" where
  "exec_stmt env (CreateTable t cs) f =
     Inr (case table f t of Some _ \<Rightarrow> f | None \<Rightarrow> set_table t \<lparr>t_cols = cs, t_rows = []\<rparr> f)"
| "exec_stmt env (AddColumn t c d) f = add_column_if_missing t c d f"
| "exec_stmt env (SetHash p) f =
     (case table f ''refresh_tokens'' of
        None \<Rightarrow> Inl (no_such_table ''refresh_tokens'')
      | Some tb \<Rightarrow> Inr (set_table ''refresh_tokens'' (tb\<lparr>t_rows := map (set_hash env p) (t_rows tb)\<rparr>) f))"
| "exec_stmt env (CreateIndex t cs unique) f =
     (case table f t of
        None \<Rightarrow> Inl (no_such_table t)
      | Some tb \<Rightarrow>
          (case find (\<lambda>c. c \<notin> set (t_cols tb)) cs of
             Some c \<Rightarrow> Inl (no_such_column c)
           | None \<Rightarrow>
               if unique \<and> \<not> distinct (filter (\<lambda>k. SNull \<notin> set k) (map (\<lambda>r. map (col r) cs) (t_rows tb)))
               then Inl (unique_failed t) else Inr f))"
| "exec_stmt env RebuildRefresh f = rebuild_refresh f"
| "exec_stmt env CopyGoogle f = copy_google f"
| "exec_stmt env (SetVersion v) f = Inr (f\<lparr>user_version := v\<rparr>)"

fun exec_stmts :: "auth_env \<Rightarrow> stmt list \<Rightarrow> sql_file \<Rightarrow> auth_error + sql_file" where
  "exec_stmts env [] f = Inr f"
| "exec_stmts env (s # ss) f = and_then (exec_stmt env s f) (exec_stmts env ss)"

section \<open>Opening\<close>

definition base_stmts :: "stmt list" where
  "base_stmts =
     [CreateTable ''registered_clients'' [''client_id'', ''redirect_uris'', ''created_at''],
      CreateTable ''authorization_requests'' [''state'', ''client_id'', ''redirect_uri'',
        ''client_state'', ''resource'', ''scope'', ''provider_code_verifier'', ''code_challenge'',
        ''code_challenge_method'', ''created_at'', ''expires_at''],
      CreateTable ''authorization_codes'' [''code'', ''client_id'', ''subject'', ''redirect_uri'',
        ''resource'', ''scope'', ''code_challenge'', ''code_challenge_method'',
        ''provider_refresh_token'', ''created_at'', ''expires_at'', ''refresh_claim_id'',
        ''refresh_claim_expires_at''],
      CreateTable ''refresh_tokens'' [''refresh_token_hash'', ''client_id'', ''subject'', ''resource'',
        ''scope'', ''provider_refresh_token'', ''created_at'', ''expires_at''],
      CreateTable ''google_provider_credentials'' [''subject'', ''email'', ''client_id'',
        ''granted_scopes_json'', ''access_token'', ''refresh_token'', ''token_received_at'',
        ''access_token_expires_at'', ''issuer'', ''last_refresh_at'', ''last_scope_upgrade_at'',
        ''generation'', ''created_at'', ''updated_at''],
      CreateIndex ''google_provider_credentials'' [''email''] False,
      CreateTable ''assertion_jtis'' [''issuer'', ''jti'', ''expires_at''],
      CreateIndex ''assertion_jtis'' [''expires_at''] False,
      CreateTable ''browser_sessions'' [''session_id'', ''subject'', ''email'', ''csrf_token'',
        ''created_at'', ''expires_at''],
      CreateTable ''browser_login_states'' [''state'', ''return_to'', ''provider_code_verifier'',
        ''created_at'', ''expires_at''],
      CreateTable ''native_authorization_results'' [''state'', ''code'', ''created_at'', ''expires_at''],
      CreateTable ''upstream_oauth_credentials'' [''upstream_name'', ''subject'', ''client_id'',
        ''granted_scopes_json'', ''token_blob'', ''token_blob_nonce'', ''token_received_at'',
        ''access_token_expires_at'', ''refresh_token_present''],
      CreateTable ''upstream_oauth_state'' [''upstream_name'', ''subject'', ''csrf_token'',
        ''pkce_verifier'', ''created_at'', ''expires_at''],
      CreateTable ''upstream_oauth_dynamic_clients'' [''upstream_name'', ''subject'', ''client_id'',
        ''created_at''],
      CreateTable ''allowed_users'' [''email'', ''added_by'', ''created_at''],
      AddColumn ''authorization_requests'' ''resource'' (SText ''''),
      AddColumn ''authorization_codes'' ''resource'' (SText ''''),
      AddColumn ''refresh_tokens'' ''resource'' (SText '''')]"

definition schema_version :: int where
  "schema_version = 8"

text \<open>The plaintext tokens the backfill of version 1 reads after it has added the column.\<close>

definition plaintext_tokens :: "sql_file \<Rightarrow> string list" where
  "plaintext_tokens f =
     concat (map (\<lambda>r. case col r ''refresh_token'' of SText p \<Rightarrow> [p] | _ \<Rightarrow> [])
       (rows_of f ''refresh_tokens''))"

definition stmts_1_to_3 :: "sql_file \<Rightarrow> stmt list" where
  "stmts_1_to_3 f =
     (if user_version f < 1 then
        (if ''refresh_token_hash'' \<in> set (cols_of f ''refresh_tokens'') then []
         else AddColumn ''refresh_tokens'' ''refresh_token_hash'' SNull
              # map SetHash (plaintext_tokens f))
        @ [CreateIndex ''refresh_tokens'' [''refresh_token_hash''] True, SetVersion 1] else [])
     @ (if user_version f < 2 then
          [AddColumn ''upstream_oauth_state'' ''dynamic_client_id'' SNull, SetVersion 2] else [])
     @ (if user_version f < 3 then
          [CreateIndex ''refresh_tokens'' [''client_id'', ''expires_at''] False, SetVersion 3] else [])"

definition stmts_4 :: "sql_file \<Rightarrow> stmt list" where
  "stmts_4 f =
     (if user_version f < 4 then [RebuildRefresh, SetVersion schema_version] else [])"

definition stmts_5_to_8 :: "sql_file \<Rightarrow> stmt list" where
  "stmts_5_to_8 f =
     (if user_version f < 5 then
        [CreateTable ''assertion_jtis'' [''issuer'', ''jti'', ''expires_at''],
         CreateIndex ''assertion_jtis'' [''expires_at''] False, SetVersion 5] else [])
     @ (if user_version f < 6 then
          [AddColumn ''refresh_tokens'' ''refresh_claim_id'' SNull,
           AddColumn ''refresh_tokens'' ''refresh_claim_expires_at'' SNull, SetVersion 6] else [])
     @ (if user_version f < 7 then
          [CreateTable ''google_provider_credentials'' [''subject'', ''email'', ''refresh_token'',
             ''generation'', ''created_at'', ''updated_at''],
           CreateIndex ''google_provider_credentials'' [''email''] False, CopyGoogle, SetVersion 7] else [])
     @ (if user_version f < 8 then
          [AddColumn ''google_provider_credentials'' ''client_id'' (SText ''''),
           AddColumn ''google_provider_credentials'' ''granted_scopes_json''
             (SText ''[\"email\",\"openid\",\"profile\"]''),
           AddColumn ''google_provider_credentials'' ''access_token'' SNull,
           AddColumn ''google_provider_credentials'' ''token_received_at'' SNull,
           AddColumn ''google_provider_credentials'' ''access_token_expires_at'' SNull,
           AddColumn ''google_provider_credentials'' ''issuer'' SNull,
           AddColumn ''google_provider_credentials'' ''last_refresh_at'' SNull,
           AddColumn ''google_provider_credentials'' ''last_scope_upgrade_at'' SNull,
           SetVersion 8] else [])"

definition run_migrations :: "sql_file \<Rightarrow> stmt list" where
  "run_migrations f = stmts_1_to_3 f @ stmts_4 f @ stmts_5_to_8 f"

definition open_connection :: "auth_env \<Rightarrow> sql_file \<Rightarrow> auth_error + sql_file" where
  "open_connection env f =
     and_then (exec_stmts env base_stmts f) (\<lambda>f'. exec_stmts env (run_migrations f') f')"

section \<open>Effects of statements\<close>

lemma map_of_filter_other: "t' \<noteq> t \<Longrightarrow> map_of (filter (\<lambda>(k, _). k \<noteq> t) m) t' = map_of m t'"
  by (induction m) auto

lemma table_set_table [simp]: "table (set_table t tb f) t' = (if t' = t then Some tb else table f t')"
  by (simp add: table_def set_table_def map_of_filter_other)

lemma version_set_table [simp]: "user_version (set_table t tb f) = user_version f"
  by (simp add: set_table_def)

lemma table_set_version [simp]: "table (f\<lparr>user_version := v\<rparr>) t = table f t"
  by (simp add: table_def)

fun stmt_version :: "int \<Rightarrow> stmt \<Rightarrow> int" where
  "stmt_version v (SetVersion w) = w"
| "stmt_version v _ = v"

lemmas stmt_defs = add_column_if_missing_def rebuild_refresh_def copy_google_def Let_def

lemma exec_stmt_version: "exec_stmt env s f = Inr f' \<Longrightarrow> user_version f' = stmt_version (user_version f) s"
  by (cases s) (auto simp: stmt_defs split: option.splits if_splits)

lemma exec_stmt_keeps_col:
  "exec_stmt env s f = Inr f' \<Longrightarrow> s \<noteq> RebuildRefresh \<Longrightarrow>
   c \<in> set (cols_of f t) \<Longrightarrow> c \<in> set (cols_of f' t)"
  by (cases s) (auto simp: stmt_defs cols_of_def split: option.splits if_splits)

lemma exec_stmt_adds_col: "exec_stmt env (AddColumn t c d) f = Inr f' \<Longrightarrow> c \<in> set (cols_of f' t)"
  by (auto simp: stmt_defs cols_of_def split: option.splits if_splits)

lemma exec_stmts_append: "exec_stmts env (ss @ ss') f = and_then (exec_stmts env ss f) (exec_stmts env ss')"
  by (induction ss arbitrary: f) (auto simp: and_then_def split: sum.splits)

lemma exec_stmts_version:
  "exec_stmts env ss f = Inr f' \<Longrightarrow> user_version f' = foldl stmt_version (user_version f) ss"
  by (induction ss arbitrary: f) (auto simp: and_then_Inr exec_stmt_version)

lemma exec_stmts_keeps_col:
  "exec_stmts env ss f = Inr f' \<Longrightarrow> RebuildRefresh \<notin> set ss \<Longrightarrow>
   c \<in> set (cols_of f t) \<Longrightarrow> c \<in> set (cols_of f' t)"
  by (induction ss arbitrary: f) (auto simp: and_then_Inr dest: exec_stmt_keeps_col)

lemma exec_stmts_adds_col:
  assumes "exec_stmts env (pre @ AddColumn t c d # post) f = Inr f'" and "RebuildRefresh \<notin> set post"
  shows "c \<in> set (cols_of f' t)"
proof -
  from assms(1) obtain f1 f2 where "exec_stmt env (AddColumn t c d) f1 = Inr f2"
    and "exec_stmts env post f2 = Inr f'"
    by (auto simp: exec_stmts_append and_then_Inr)
  then show ?thesis
    using exec_stmt_adds_col exec_stmts_keeps_col [OF _ assms(2)] by blast
qed

section \<open>Uninterrupted migration\<close>

text \<open>The columns the lease of a refresh token is kept in.\<close>

definition lease_cols :: "string list" where
  "lease_cols = [''refresh_claim_id'', ''refresh_claim_expires_at'']"

lemma migrations_split:
  assumes "user_version f < 6"
  obtains pre post where
    "run_migrations f = pre @ AddColumn ''refresh_tokens'' ''refresh_claim_id'' SNull
       # AddColumn ''refresh_tokens'' ''refresh_claim_expires_at'' SNull # post"
    and "RebuildRefresh \<notin> set post"
proof -
  let ?tail = "SetVersion 6
     # [CreateTable ''google_provider_credentials'' [''subject'', ''email'', ''refresh_token'',
             ''generation'', ''created_at'', ''updated_at''],
           CreateIndex ''google_provider_credentials'' [''email''] False, CopyGoogle, SetVersion 7]
     @ drop (length (stmts_5_to_8 (f\<lparr>user_version := 6\<rparr>)) - 9) (stmts_5_to_8 (f\<lparr>user_version := 6\<rparr>))"
  have "run_migrations f = (stmts_1_to_3 f @ stmts_4 f @ (if user_version f < 5 then
        [CreateTable ''assertion_jtis'' [''issuer'', ''jti'', ''expires_at''],
         CreateIndex ''assertion_jtis'' [''expires_at''] False, SetVersion 5] else []))
      @ AddColumn ''refresh_tokens'' ''refresh_claim_id'' SNull
      # AddColumn ''refresh_tokens'' ''refresh_claim_expires_at'' SNull # ?tail"
    using assms by (simp add: run_migrations_def stmts_5_to_8_def)
  moreover have "RebuildRefresh \<notin> set ?tail" by (simp add: stmts_5_to_8_def)
  ultimately show thesis by (rule that)
qed

lemma migrations_version:
  "0 \<le> v \<Longrightarrow> v \<le> 8 \<Longrightarrow> user_version f = v \<Longrightarrow> foldl stmt_version v (run_migrations f) = 8"
proof -
  have hash: "foldl stmt_version v (map SetHash ps) = v" for v ps
    by (induction ps) auto
  show "0 \<le> v \<Longrightarrow> v \<le> 8 \<Longrightarrow> user_version f = v \<Longrightarrow> foldl stmt_version v (run_migrations f) = 8"
    by (simp add: run_migrations_def stmts_1_to_3_def stmts_4_def stmts_5_to_8_def schema_version_def hash)
qed

lemma no_rebuild_later: "4 \<le> user_version f \<Longrightarrow> RebuildRefresh \<notin> set (run_migrations f)"
  by (auto simp: run_migrations_def stmts_1_to_3_def stmts_4_def stmts_5_to_8_def)

lemma base_no_rebuild: "RebuildRefresh \<notin> set base_stmts"
  by (simp add: base_stmts_def)

lemma base_version: "foldl stmt_version v base_stmts = v"
  by (simp add: base_stmts_def)

text \<open>
  Opening a file of any earlier version brings it to version 8 with the lease columns in the
  refresh-token table, when it runs to its end and the file had the columns its version implies.
\<close>

lemma open_migrates:
  assumes "open_connection env f = Inr f'" and "0 \<le> user_version f" and "user_version f \<le> 8"
    and "6 \<le> user_version f \<Longrightarrow> set lease_cols \<subseteq> set (cols_of f ''refresh_tokens'')"
  shows "user_version f' = 8 \<and> set lease_cols \<subseteq> set (cols_of f' ''refresh_tokens'')"
proof -
  from assms(1) obtain f1 where base: "exec_stmts env base_stmts f = Inr f1"
    and mig: "exec_stmts env (run_migrations f1) f1 = Inr f'"
    by (auto simp: open_connection_def and_then_Inr)
  have v1: "user_version f1 = user_version f"
    using exec_stmts_version [OF base] by (simp add: base_version)
  then have v: "user_version f' = 8"
    using exec_stmts_version [OF mig] migrations_version [OF assms(2,3), of f1] by simp
  have "set lease_cols \<subseteq> set (cols_of f' ''refresh_tokens'')"
  proof (cases "user_version f < 6")
    case True
    with v1 obtain pre post where
      split: "run_migrations f1 = pre @ AddColumn ''refresh_tokens'' ''refresh_claim_id'' SNull
         # AddColumn ''refresh_tokens'' ''refresh_claim_expires_at'' SNull # post"
      and post: "RebuildRefresh \<notin> set post"
      using migrations_split [of f1] by auto
    have "''refresh_claim_id'' \<in> set (cols_of f' ''refresh_tokens'')"
      using exec_stmts_adds_col [OF mig [unfolded split]] post by simp
    moreover have "''refresh_claim_expires_at'' \<in> set (cols_of f' ''refresh_tokens'')"
      using exec_stmts_adds_col [of env "pre @ [AddColumn ''refresh_tokens'' ''refresh_claim_id'' SNull]"]
        mig post unfolding split by (metis append.assoc append_Cons append_Nil)
    ultimately show ?thesis by (simp add: lease_cols_def)
  next
    case False
    with assms(4) v1 show ?thesis
      using exec_stmts_keeps_col [OF base base_no_rebuild]
        exec_stmts_keeps_col [OF mig no_rebuild_later] by (auto simp: subset_iff)
  qed
  with v show ?thesis by simp
qed

section \<open>Interrupted migration\<close>

text \<open>The file an interruption right after the last statement of version 4 leaves behind.\<close>

definition interrupted_after_v4 :: "auth_env \<Rightarrow> sql_file \<Rightarrow> auth_error + sql_file" where
  "interrupted_after_v4 env f =
     and_then (exec_stmts env base_stmts f)
       (\<lambda>f'. exec_stmts env (stmts_1_to_3 f' @ stmts_4 f') f')"

fun reopen :: "nat \<Rightarrow> auth_env \<Rightarrow> sql_file \<Rightarrow> auth_error + sql_file" where
  "reopen 0 env f = Inr f"
| "reopen (Suc n) env f = and_then (open_connection env f) (reopen n env)"

lemma prefix_interrupted: "prefix (stmts_1_to_3 f @ stmts_4 f) (run_migrations f)"
  by (simp add: run_migrations_def)

lemma rebuild_cols: "rebuild_refresh f = Inr f' \<Longrightarrow> cols_of f' ''refresh_tokens'' = refresh_cols_v4"
  by (auto simp: rebuild_refresh_def cols_of_def split: option.splits)

lemma interrupted_state:
  assumes "user_version f < 4" and "interrupted_after_v4 env f = Inr f'"
  shows "user_version f' = 8 \<and> cols_of f' ''refresh_tokens'' = refresh_cols_v4"
proof -
  from assms(2) obtain f1 where base: "exec_stmts env base_stmts f = Inr f1"
    and mig: "exec_stmts env (stmts_1_to_3 f1 @ stmts_4 f1) f1 = Inr f'"
    by (auto simp: interrupted_after_v4_def and_then_Inr)
  have "user_version f1 < 4"
    using exec_stmts_version [OF base] assms(1) by (simp add: base_version)
  then have s4: "stmts_4 f1 = [RebuildRefresh, SetVersion 8]"
    by (simp add: stmts_4_def schema_version_def)
  from mig obtain f2 f3 where "rebuild_refresh f2 = Inr f3" and "f' = f3\<lparr>user_version := 8\<rparr>"
    unfolding s4 exec_stmts_append by (auto simp: and_then_Inr)
  with rebuild_cols [of f2 f3] show ?thesis by (simp add: cols_of_def)
qed

text \<open>The statements every opening sends leave a complete version-4 table alone.\<close>

lemma base_stmt_keeps_refresh:
  assumes "s \<in> set base_stmts" and "exec_stmt env s f = Inr f'"
    and "cols_of f ''refresh_tokens'' = refresh_cols_v4"
  shows "cols_of f' ''refresh_tokens'' = refresh_cols_v4"
proof -
  have there: "table f ''refresh_tokens'' \<noteq> None" "''resource'' \<in> set (cols_of f ''refresh_tokens'')"
    using assms(3) by (auto simp: cols_of_def refresh_cols_v4_def split: option.splits)
  have "(\<exists>t cs. s = CreateTable t cs) \<or> (\<exists>t cs u. s = CreateIndex t cs u)
    \<or> (\<exists>t d. s = AddColumn t ''resource'' d)"
    using assms(1) by (auto simp: base_stmts_def)
  then have "cols_of f' ''refresh_tokens'' = cols_of f ''refresh_tokens''"
    using assms(2) there
    by (auto simp: cols_of_def add_column_if_missing_def split: option.splits if_splits)
  with assms(3) show ?thesis by simp
qed

lemma base_stmts_keep_refresh:
  "exec_stmts env ss f = Inr f' \<Longrightarrow> set ss \<subseteq> set base_stmts \<Longrightarrow>
   cols_of f ''refresh_tokens'' = refresh_cols_v4 \<Longrightarrow> cols_of f' ''refresh_tokens'' = refresh_cols_v4"
proof (induction ss arbitrary: f)
  case (Cons s ss)
  then obtain f1 where "exec_stmt env s f = Inr f1" "exec_stmts env ss f1 = Inr f'"
    by (auto simp: and_then_Inr)
  with Cons base_stmt_keeps_refresh [of s env f f1] show ?case by simp
qed simp

lemma reopen_stuck:
  "reopen n env f = Inr f' \<Longrightarrow> user_version f = 8 \<Longrightarrow> cols_of f ''refresh_tokens'' = refresh_cols_v4 \<Longrightarrow>
   user_version f' = 8 \<and> cols_of f' ''refresh_tokens'' = refresh_cols_v4"
proof (induction n arbitrary: f)
  case (Suc n)
  then obtain f1 where o: "open_connection env f = Inr f1" and r: "reopen n env f1 = Inr f'"
    by (auto simp: and_then_Inr)
  from o obtain f0 where b: "exec_stmts env base_stmts f = Inr f0"
    and m: "exec_stmts env (run_migrations f0) f0 = Inr f1"
    by (auto simp: open_connection_def and_then_Inr)
  have v0: "user_version f0 = 8"
    using exec_stmts_version [OF b] Suc.prems(2) by (simp add: base_version)
  then have "f1 = f0"
    using m by (simp add: run_migrations_def stmts_1_to_3_def stmts_4_def stmts_5_to_8_def)
  with Suc.IH [OF r] v0 base_stmts_keep_refresh [OF b] Suc.prems(3) show ?case by simp
qed simp

text \<open>
  C37. Migration of the auth database. If opening a file of version 0 to 8 runs to its end, the
  file is at version 8 and its refresh-token table has the two lease columns. But the step for
  version 4 already records version 8: if the process dies between that statement and the
  steps for version 5 and 6 (a prefix of the statements, each committed on its own), the file
  claims version 8 without the lease columns, and no number of later openings adds them.
\<close>

theorem migration_and_interruption:
  "(open_connection env f = Inr f' \<longrightarrow> 0 \<le> user_version f \<longrightarrow> user_version f \<le> 8 \<longrightarrow>
      (6 \<le> user_version f \<longrightarrow> set lease_cols \<subseteq> set (cols_of f ''refresh_tokens'')) \<longrightarrow>
      user_version f' = 8 \<and> set lease_cols \<subseteq> set (cols_of f' ''refresh_tokens''))
   \<and> (user_version g < 4 \<longrightarrow> interrupted_after_v4 env g = Inr g1 \<longrightarrow> reopen n env g1 = Inr g' \<longrightarrow>
      user_version g' = 8 \<and> set lease_cols \<inter> set (cols_of g' ''refresh_tokens'') = {})"
proof (intro conjI impI)
  assume "user_version g < 4" "interrupted_after_v4 env g = Inr g1" "reopen n env g1 = Inr g'"
  with interrupted_state [of g env g1] reopen_stuck [of n env g1 g']
  have "user_version g' = 8 \<and> cols_of g' ''refresh_tokens'' = refresh_cols_v4" by simp
  then show "user_version g' = 8" "set lease_cols \<inter> set (cols_of g' ''refresh_tokens'') = {}"
    by (simp_all add: lease_cols_def refresh_cols_v4_def)
qed (use open_migrates in auto)

text \<open>A file that has just been created.\<close>

definition fresh_file :: sql_file where
  "fresh_file = \<lparr>user_version = 0, tables = []\<rparr>"

lemmas file_eval = base_stmts_def fresh_file_def add_column_if_missing_def table_def set_table_def
  cols_of_def rows_of_def rebuild_refresh_def refresh_cols_v4_def schema_version_def
  stmts_1_to_3_def stmts_4_def

lemma fresh_file_opens: "\<exists>f. open_connection plain_env fresh_file = Inr f"
  by (simp add: open_connection_def run_migrations_def stmts_5_to_8_def copy_google_def
      newest_provider_rows_def file_eval)

lemma fresh_file_interrupted:
  "\<exists>g1 g'. interrupted_after_v4 plain_env fresh_file = Inr g1 \<and> reopen 1 plain_env g1 = Inr g'"
proof -
  have "\<exists>g'. and_then (interrupted_after_v4 plain_env fresh_file) (reopen 1 plain_env) = Inr g'"
    by (simp add: interrupted_after_v4_def open_connection_def run_migrations_def stmts_5_to_8_def
        file_eval)
  then show ?thesis by (auto simp: and_then_Inr)
qed

theorem migration_and_interruption_witness:
  "(\<exists>f'. open_connection plain_env fresh_file = Inr f' \<and> user_version f' = 8
      \<and> set lease_cols \<subseteq> set (cols_of f' ''refresh_tokens''))
   \<and> (\<exists>g1 g'. interrupted_after_v4 plain_env fresh_file = Inr g1 \<and> reopen 1 plain_env g1 = Inr g'
      \<and> user_version g' = 8 \<and> set lease_cols \<inter> set (cols_of g' ''refresh_tokens'') = {})"
proof -
  obtain f' where f: "open_connection plain_env fresh_file = Inr f'" using fresh_file_opens by blast
  obtain g1 g' where g: "interrupted_after_v4 plain_env fresh_file = Inr g1"
    "reopen 1 plain_env g1 = Inr g'" using fresh_file_interrupted by blast
  have v: "user_version fresh_file = 0" by (simp add: fresh_file_def)
  from migration_and_interruption [of plain_env fresh_file f' fresh_file g1 1 g'] f g
  show ?thesis unfolding v by auto
qed

end
