(* ===== verification/Auth_Server.thy ===== *)
theory Auth_Server
  imports Auth_Types Auth_Tokens Ssrf
begin

text \<open>
  The decisions of the authorization server that need no database: the derived URLs
  (\<open>metadata.rs\<close>), redirect URIs, scopes, resources, return paths and the allowlist
  (\<open>authorize.rs\<close>), client metadata documents (\<open>cimd.rs\<close>), lifetimes (\<open>util.rs\<close>), PKCE and the
  checks on a redeemed code (\<open>token.rs\<close>), and the mapping of errors to the token endpoint's
  responses (\<open>token/response.rs\<close>).

  The \<open>url\<close> crate is a parameter again: \<open>url_parse\<close>, \<open>url_to_string\<close> and the form encoder
  \<open>append_pair\<close>. The configuration is validated before the server starts, so the public URL is
  present.
\<close>

section \<open>Configuration\<close>

record machine_client =
  mc_client_id :: string
  mc_client_secret :: "string option"
  mc_jwks :: "json option"
  mc_scopes :: "string list"
  mc_resources :: "string list"

record enterprise_issuer =
  ei_issuer :: string
  ei_jwks_uri :: "string option"
  ei_jwks :: "json option"
  ei_allowed_client_ids :: "string list"

record auth_config =
  cfg_public_url :: url
  cfg_public_url_str :: string
  cfg_allowed_client_redirect_uris :: "string list"
  cfg_admin_email :: string
  cfg_google_client_id :: string
  cfg_access_token_ttl :: nat
  cfg_refresh_token_ttl :: nat
  cfg_auth_code_ttl :: nat
  cfg_max_pending_oauth_states :: nat
  cfg_codex_issuer_compatibility :: bool
  cfg_env_prefix :: string
  cfg_session_cookie_name :: string
  cfg_scopes_supported :: "string list"
  cfg_resource_path :: string
  cfg_default_scope :: string
  cfg_static_token_scopes :: "string list"
  cfg_login_path :: string
  cfg_disable_static_token_with_oauth :: bool
  cfg_machine_clients :: "machine_client list"
  cfg_enterprise_issuers :: "enterprise_issuer list"

section \<open>Derived URLs\<close>

definition trim_end_char :: "char \<Rightarrow> string \<Rightarrow> string" where
  "trim_end_char c s = rev (dropWhile (\<lambda>x. x = c) (rev s))"

definition trim_start_char :: "char \<Rightarrow> string \<Rightarrow> string" where
  "trim_start_char c s = dropWhile (\<lambda>x. x = c) s"

definition trim_end_slashes :: "string \<Rightarrow> string" where
  "trim_end_slashes = trim_end_char (CHR ''/'')"

definition public_base_url :: "auth_config \<Rightarrow> string" where
  "public_base_url cfg = trim_end_slashes (cfg_public_url_str cfg)"

definition native_callback_endpoint :: "auth_config \<Rightarrow> string" where
  "native_callback_endpoint cfg = public_base_url cfg @ ''/native/callback''"

definition native_poll_endpoint :: "auth_config \<Rightarrow> string" where
  "native_poll_endpoint cfg = public_base_url cfg @ ''/native/poll''"

definition canonical_resource_url :: "auth_config \<Rightarrow> string" where
  "canonical_resource_url cfg =
     (let base = public_base_url cfg; suffix_path = trim_start_char (CHR ''/'') (cfg_resource_path cfg)
      in if suffix_path = [] then base else base @ ''/'' @ suffix_path)"

section \<open>Redirect URIs\<close>

definition port_or_known_default :: "url \<Rightarrow> nat option" where
  "port_or_known_default u =
     (case url_port u of Some p \<Rightarrow> Some p
      | None \<Rightarrow>
          if url_scheme u = ''http'' \<or> url_scheme u = ''ws'' then Some 80
          else if url_scheme u = ''https'' \<or> url_scheme u = ''wss'' then Some 443
          else if url_scheme u = ''ftp'' then Some 21 else None)"

definition is_loopback_redirect :: "(string \<Rightarrow> url option) \<Rightarrow> string \<Rightarrow> bool" where
  "is_loopback_redirect url_parse v =
     (case url_parse v of None \<Rightarrow> False
      | Some u \<Rightarrow> url_scheme u = ''http''
          \<and> url_host_str u \<in> {Some ''127.0.0.1'', Some ''localhost'', Some ''::1''})"

definition is_native_app_scheme_redirect :: "(string \<Rightarrow> url option) \<Rightarrow> string \<Rightarrow> bool" where
  "is_native_app_scheme_redirect url_parse v =
     (case url_parse v of None \<Rightarrow> False
      | Some u \<Rightarrow> url_scheme u \<notin>
          {''http'', ''https'', ''javascript'', ''data'', ''vbscript'', ''file''})"

text \<open>\<open>str::find\<close>: the byte index of the first occurrence.\<close>

fun str_find :: "string \<Rightarrow> string \<Rightarrow> nat option" where
  "str_find [] p = (if p = [] then Some 0 else None)"
| "str_find (c # s) p =
     (if starts_with (c # s) p then Some 0 else map_option Suc (str_find s p))"

text \<open>The loop over the non-empty parts; the rest of the value after the cursor is passed on.\<close>

fun match_parts :: "bool \<Rightarrow> string list \<Rightarrow> string \<Rightarrow> bool" where
  "match_parts anchored [] rest = True"
| "match_parts anchored (part # parts) rest =
     (if anchored then
        (if starts_with rest part then match_parts False parts (drop (length part) rest) else False)
      else (case str_find rest part of
              None \<Rightarrow> False
            | Some found \<Rightarrow> match_parts False parts (drop (found + length part) rest)))"

definition redirect_wildcard_matches :: "string \<Rightarrow> string \<Rightarrow> bool" where
  "redirect_wildcard_matches pattern v =
     (if pattern = ''*'' then True
      else
        let parts = split_char (CHR ''*'') pattern
        in if length parts = 1 then pattern = v
           else
             let anchored_start = \<not> starts_with pattern ''*'';
                 anchored_end = \<not> ends_with pattern ''*'';
                 non_empty = filter (\<lambda>p. p \<noteq> []) parts
             in if non_empty = [] then True
                else if \<not> match_parts anchored_start non_empty v then False
                else if anchored_end then ends_with v (last non_empty) else True)"

definition host_pattern_matches :: "string \<Rightarrow> string \<Rightarrow> bool" where
  "host_pattern_matches pattern_host candidate_host =
     (let ps = split_char (CHR ''.'') pattern_host; cs = split_char (CHR ''.'') candidate_host
      in length ps = length cs
         \<and> list_all (\<lambda>(p, c). p = ''*'' \<or> (CHR ''*'' \<notin> set p \<and> eq_ignore_ascii_case p c)) (zip ps cs))"

definition redirect_pattern_matches ::
    "(string \<Rightarrow> url option) \<Rightarrow> (url \<Rightarrow> string) \<Rightarrow> string \<Rightarrow> url \<Rightarrow> bool" where
  "redirect_pattern_matches url_parse url_to_string pattern candidate =
     (if pattern = ''https://*'' then url_scheme candidate = ''https'' \<and> url_host_str candidate \<noteq> None
      else case url_parse pattern of
        None \<Rightarrow> False
      | Some pu \<Rightarrow>
          if url_scheme pu \<noteq> url_scheme candidate then False
          else case (url_host_str pu, url_host_str candidate) of
            (Some ph, Some ch) \<Rightarrow>
              if port_or_known_default pu \<noteq> port_or_known_default candidate then False
              else if \<not> host_pattern_matches ph ch then False
              else if \<not> redirect_wildcard_matches (url_path pu) (url_path candidate) then False
              else (case (url_query pu, url_query candidate) of
                      (Some pq, Some cq) \<Rightarrow> redirect_wildcard_matches pq cq
                    | (None, None) \<Rightarrow> True
                    | _ \<Rightarrow> False)
          | _ \<Rightarrow> redirect_wildcard_matches pattern (url_to_string candidate))"

definition is_allowed_redirect_uri ::
    "(string \<Rightarrow> url option) \<Rightarrow> (url \<Rightarrow> string) \<Rightarrow> string \<Rightarrow> string list \<Rightarrow> bool" where
  "is_allowed_redirect_uri url_parse url_to_string v patterns =
     (if is_loopback_redirect url_parse v \<or> is_native_app_scheme_redirect url_parse v then True
      else case url_parse v of
        None \<Rightarrow> False
      | Some candidate \<Rightarrow>
          list_ex (\<lambda>p. redirect_pattern_matches url_parse url_to_string p candidate) patterns)"

section \<open>Return paths of browser logins\<close>

definition sanitize_return_to :: "(string \<Rightarrow> url option) \<Rightarrow> auth_config \<Rightarrow> string option \<Rightarrow> string" where
  "sanitize_return_to url_parse cfg requested =
     (case requested of
        None \<Rightarrow> ''/''
      | Some raw \<Rightarrow>
          (let r = trim raw
           in if r = [] then ''/''
              else if starts_with r ''/'' \<and> \<not> starts_with r ''//'' then r
              else case url_parse r of
                None \<Rightarrow> ''/''
              | Some u \<Rightarrow>
                  if url_scheme u \<noteq> url_scheme (cfg_public_url cfg)
                     \<or> url_host_str u \<noteq> url_host_str (cfg_public_url cfg)
                     \<or> port_or_known_default u \<noteq> port_or_known_default (cfg_public_url cfg)
                  then ''/''
                  else url_path u
                       @ (case url_query u of None \<Rightarrow> [] | Some q \<Rightarrow> ''?'' @ q)
                       @ (case url_fragment u of None \<Rightarrow> [] | Some f \<Rightarrow> ''#'' @ f)))"

section \<open>Scopes and resources\<close>

definition validate_response_type :: "string \<Rightarrow> auth_error + unit" where
  "validate_response_type t =
     (if t = ''code'' then Inr () else Inl (AValidation ''response_type must be `code`''))"

definition admin_scope_of :: "string \<Rightarrow> string" where
  "admin_scope_of default_scope = hd (split_char (CHR '':'') default_scope) @ '':admin''"

definition elevate_scope_for_allowed_user :: "string \<Rightarrow> string \<Rightarrow> string" where
  "elevate_scope_for_allowed_user scope default_scope =
     (let admin_scope = admin_scope_of default_scope;
          scopes = filter (\<lambda>s. s \<noteq> []) (split_whitespace scope)
      in join '' '' (if admin_scope \<in> set scopes then scopes else scopes @ [admin_scope]))"

definition resource_message :: "auth_config \<Rightarrow> string" where
  "resource_message cfg = ''resource must be `'' @ canonical_resource_url cfg
     @ ''` or a configured protected MCP route''"

text \<open>\<open>resources\<close> is \<open>ResourceRegistry::effective_resource_scopes\<close> at the time of the request.\<close>

definition validate_scope ::
    "auth_config \<Rightarrow> (string \<Rightarrow> string list option) \<Rightarrow> string \<Rightarrow> string \<Rightarrow> auth_error + string" where
  "validate_scope cfg resources resource scope =
     (let canonical = canonical_resource_url cfg
      in and_then
           (if trim_end_slashes resource = canonical then Inr (cfg_scopes_supported cfg)
            else ok_or (case resources resource of
                          Some (s # ss) \<Rightarrow> Some (s # ss) | _ \<Rightarrow> None)
                   (AValidation (resource_message cfg)))
           (\<lambda>supported.
              let normalized = trim scope
              in if normalized = [] then
                   (if trim_end_slashes resource = canonical then Inr (cfg_default_scope cfg)
                    else Inr (join '' '' supported))
                 else
                   let requested = split_whitespace normalized
                   in if list_all (\<lambda>s. s \<in> set supported) requested then Inr (join '' '' requested)
                      else Inl (AValidation (''scope must be one of: '' @ join '', '' supported))))"

definition validate_resource ::
    "auth_config \<Rightarrow> (string \<Rightarrow> string list option) \<Rightarrow> string option \<Rightarrow> auth_error + string" where
  "validate_resource cfg resources requested =
     (let canonical = canonical_resource_url cfg
      in case requested of
           None \<Rightarrow> Inr canonical
         | Some raw \<Rightarrow>
             if trim raw = [] then Inr canonical
             else let r = trim_end_slashes (trim raw)
                  in if r = canonical \<or> resources r \<noteq> None then Inr r
                     else Inl (AValidation (resource_message cfg)))"

definition as_invalid_scope :: "auth_error \<Rightarrow> auth_error" where
  "as_invalid_scope e = (case e of AValidation m \<Rightarrow> AInvalidScope m | _ \<Rightarrow> e)"

definition validate_token_scope ::
    "auth_config \<Rightarrow> (string \<Rightarrow> string list option) \<Rightarrow> string \<Rightarrow> string \<Rightarrow> auth_error + string" where
  "validate_token_scope cfg resources resource scope =
     map_err as_invalid_scope (validate_scope cfg resources resource scope)"

section \<open>The allowlist\<close>

definition resolve_allowed_emails :: "auth_config \<Rightarrow> allowed_user_row list \<Rightarrow> string list" where
  "resolve_allowed_emails cfg rows =
     cfg_admin_email cfg
     # map au_email (filter (\<lambda>r. \<not> eq_ignore_ascii_case (au_email r) (cfg_admin_email cfg)) rows)"

definition check_email_allowlist :: "string option \<Rightarrow> bool option \<Rightarrow> string list \<Rightarrow> auth_error + unit" where
  "check_email_allowlist email email_verified allowed =
     (if allowed = [] then Inr ()
      else if email_verified \<noteq> Some True
      then Inl (AAuthFailed ''google did not return a verified email address'')
      else case email of
        None \<Rightarrow> Inl (AAuthFailed ''google did not return an email address'')
      | Some e \<Rightarrow>
          if list_ex (\<lambda>a. eq_ignore_ascii_case a (trim e)) allowed then Inr ()
          else Inl (AAuthFailed ''google account is not permitted to access this gateway''))"

section \<open>Lifetimes\<close>

definition expires_at :: "int \<Rightarrow> nat \<Rightarrow> string \<Rightarrow> auth_error + int" where
  "expires_at created_at ttl field =
     (if int ttl \<ge> 2 ^ 63 then Inl (AConfig (field @ '' exceeds supported range''))
      else if \<not> is_i64 (created_at + int ttl)
      then Inl (AConfig (field @ '' exceeds supported range''))
      else Inr (created_at + int ttl))"

definition ttl_field :: "auth_config \<Rightarrow> string \<Rightarrow> string" where
  "ttl_field cfg name = cfg_env_prefix cfg @ name"

section \<open>Client metadata documents\<close>

record client_metadata_document =
  cd_client_id :: string
  cd_client_name :: string
  cd_redirect_uris :: "string list"
  cd_token_endpoint_auth_method :: string
  cd_jwks :: "json option"

definition metadata_document_url :: "(string \<Rightarrow> url option) \<Rightarrow> string \<Rightarrow> url option" where
  "metadata_document_url url_parse cid =
     (case parse_validated_https_url url_parse cid of
        Inr u \<Rightarrow> if url_path u \<noteq> ''/'' \<and> url_path u \<noteq> [] then Some u else None
      | Inl _ \<Rightarrow> None)"

definition is_metadata_document_client_id :: "(string \<Rightarrow> url option) \<Rightarrow> string \<Rightarrow> bool" where
  "is_metadata_document_client_id url_parse cid = (metadata_document_url url_parse cid \<noteq> None)"

definition validate_document ::
    "(string \<Rightarrow> url option) \<Rightarrow> (url \<Rightarrow> string) \<Rightarrow> string \<Rightarrow> client_metadata_document \<Rightarrow> string list \<Rightarrow> int \<Rightarrow>
     auth_error + registered_client" where
  "validate_document url_parse url_to_string expected doc patterns now =
     (if cd_client_id doc \<noteq> expected
      then Inl (AInvalidGrant ''client metadata client_id does not match document URL'')
      else if trim (cd_client_name doc) = [] \<or> cd_redirect_uris doc = []
      then Inl (AValidation ''client metadata requires client_name and redirect_uris'')
      else if list_ex (\<lambda>u. \<not> is_allowed_redirect_uri url_parse url_to_string u patterns) (cd_redirect_uris doc)
      then Inl (AValidation ''client metadata contains an unsafe redirect URI'')
      else if cd_token_endpoint_auth_method doc \<noteq> ''none''
              \<and> cd_token_endpoint_auth_method doc \<noteq> ''private_key_jwt''
      then Inl (AValidation ''client metadata token_endpoint_auth_method must be none or private_key_jwt'')
      else if cd_token_endpoint_auth_method doc = ''private_key_jwt'' \<and> cd_jwks doc = None
      then Inl (AValidation ''private_key_jwt client metadata requires inline jwks'')
      else Inr \<lparr>rc_client_id = cd_client_id doc, rc_redirect_uris = cd_redirect_uris doc,
                rc_created_at = now,
                rc_token_endpoint_auth_method = cd_token_endpoint_auth_method doc,
                rc_jwks = cd_jwks doc\<rparr>)"

section \<open>Redeeming a code\<close>

definition digest_bytes :: "nat list \<Rightarrow> string" where
  "digest_bytes bs = map char_of bs"

definition pkce_challenge :: "auth_env \<Rightarrow> string \<Rightarrow> string" where
  "pkce_challenge env verifier = b64url env (digest_bytes (sha256 env verifier))"

definition validate_authorization_code_row ::
    "auth_env \<Rightarrow> authorization_code_row \<Rightarrow> string \<Rightarrow> string \<Rightarrow> string \<Rightarrow> auth_error + unit" where
  "validate_authorization_code_row env row client_id redirect_uri verifier =
     (if ac_client_id row \<noteq> client_id
      then Inl (AInvalidGrant ''client_id does not match the authorization code'')
      else if ac_redirect_uri row \<noteq> redirect_uri
      then Inl (AInvalidGrant ''redirect_uri does not match the authorization code'')
      else if ac_code_challenge_method row \<noteq> ''S256''
      then Inl (AInvalidGrant ''authorization code uses an unsupported PKCE method'')
      else if pkce_challenge env verifier \<noteq> ac_code_challenge row
      then Inl (AInvalidGrant ''code_verifier does not match the authorization code'')
      else Inr ())"

definition require_field :: "string option \<Rightarrow> string \<Rightarrow> auth_error + string" where
  "require_field v field = ok_or v (AValidation (''missing `'' @ field @ ''` parameter''))"

section \<open>The token endpoint's errors\<close>

datatype token_endpoint_error = TAuth auth_error | TUnsupportedGrantType string

fun oauth_error :: "token_endpoint_error \<Rightarrow> string" where
  "oauth_error (TAuth (AInvalidGrant _)) = ''invalid_grant''"
| "oauth_error (TAuth (AInvalidScope _)) = ''invalid_scope''"
| "oauth_error (TAuth (AOauthNeedsReauth _)) = ''oauth_needs_reauth''"
| "oauth_error (TUnsupportedGrantType _) = ''unsupported_grant_type''"
| "oauth_error (TAuth (AAuthFailed _)) = ''invalid_client''"
| "oauth_error (TAuth AInvalidAccessToken) = ''invalid_client''"
| "oauth_error (TAuth (ARateLimited _ _)) = ''temporarily_unavailable''"
| "oauth_error (TAuth (AValidation _)) = ''invalid_request''"
| "oauth_error (TAuth _) = ''server_error''"

fun token_error_status :: "token_endpoint_error \<Rightarrow> nat" where
  "token_error_status (TAuth (AInvalidGrant _)) = 400"
| "token_error_status (TAuth (AInvalidScope _)) = 400"
| "token_error_status (TAuth (AValidation _)) = 400"
| "token_error_status (TUnsupportedGrantType _) = 400"
| "token_error_status (TAuth (AOauthNeedsReauth _)) = 401"
| "token_error_status (TAuth (AAuthFailed _)) = 401"
| "token_error_status (TAuth AInvalidAccessToken) = 401"
| "token_error_status (TAuth (ARateLimited _ _)) = 429"
| "token_error_status (TAuth _) = 500"

section \<open>Return paths\<close>

definition same_origin :: "url \<Rightarrow> url \<Rightarrow> bool" where
  "same_origin u v =
     (url_scheme u = url_scheme v \<and> url_host_str u = url_host_str v
      \<and> port_or_known_default u = port_or_known_default v)"

text \<open>
  After a browser login the redirect target is a path of the own origin, or else the
  requested return target was an absolute URL of the own origin whose path starts with two
  slashes. Its path is then used as it is, and a browser reads it as the address of another
  host. The URL parser gives paths that start with a slash for the schemes of web servers.
\<close>

theorem return_to_local:
  assumes paths: "\<And>s u. url_parse s = Some u \<Longrightarrow> url_scheme u \<in> {''http'', ''https''} \<Longrightarrow>
      starts_with (url_path u) ''/''"
    and web: "url_scheme (cfg_public_url cfg) \<in> {''http'', ''https''}"
  shows "starts_with (sanitize_return_to url_parse cfg requested) ''/''
    \<and> (starts_with (sanitize_return_to url_parse cfg requested) ''//'' \<longleftrightarrow>
       (\<exists>raw u. requested = Some raw \<and> trim raw \<noteq> []
          \<and> (starts_with (trim raw) ''//'' \<or> \<not> starts_with (trim raw) ''/'')
          \<and> url_parse (trim raw) = Some u \<and> same_origin u (cfg_public_url cfg)
          \<and> starts_with (url_path u) ''//''))"
proof (cases requested)
  case (Some raw)
  have app: "starts_with (p @ q @ f) ''/'' \<and> (starts_with (p @ q @ f) ''//'' \<longleftrightarrow> starts_with p ''//'')"
    if "starts_with p ''/''" "q = [] \<or> hd q = CHR ''?''" "f = [] \<or> hd f = CHR ''#''" for p q f
  proof -
    from that(1) obtain zs where "p = CHR ''/'' # zs" by (auto simp: labby_str prefix_def)
    with that(2,3) show ?thesis
      by (cases zs; cases q; cases f) (auto simp: labby_str)
  qed
  let ?q = "\<lambda>u. case url_query u of None \<Rightarrow> [] | Some q \<Rightarrow> ''?'' @ q"
  let ?f = "\<lambda>u. case url_fragment u of None \<Rightarrow> [] | Some f \<Rightarrow> ''#'' @ f"
  have own: "starts_with (url_path u @ ?q u @ ?f u) ''/''
      \<and> (starts_with (url_path u @ ?q u @ ?f u) ''//'' \<longleftrightarrow> starts_with (url_path u) ''//'')"
    if "url_parse s = Some u" "same_origin u (cfg_public_url cfg)" for s u
    using paths [OF that(1)] web that(2)
    by (intro app) (auto simp: same_origin_def split: option.split)
  have slash: "starts_with ''/'' ''/''" "\<not> starts_with ''/'' ''//''" by (simp_all add: labby_str)
  show ?thesis
    using own [of "trim raw"] slash unfolding Some sanitize_return_to_def Let_def
    by (cases "url_parse (trim raw)") (auto simp: same_origin_def)
qed (simp add: sanitize_return_to_def labby_str)

text \<open>
  The own origin is \<open>https://g\<close>; a login that asks to return to \<open>https://g//e\<close> is sent to \<open>//e\<close>.
\<close>

definition slash_url :: "string \<Rightarrow> url" where
  "slash_url path = \<lparr>url_scheme = ''https'', url_username = [], url_password = None, url_host = None,
     url_host_str = Some ''g'', url_port = None, url_path = path, url_query = None, url_fragment = None\<rparr>"

definition slash_config :: auth_config where
  "slash_config = \<lparr>cfg_public_url = slash_url ''/'', cfg_public_url_str = ''https://g'',
     cfg_allowed_client_redirect_uris = [], cfg_admin_email = ''a'', cfg_google_client_id = ''G'',
     cfg_access_token_ttl = 60, cfg_refresh_token_ttl = 600, cfg_auth_code_ttl = 60,
     cfg_max_pending_oauth_states = 5, cfg_codex_issuer_compatibility = False, cfg_env_prefix = [],
     cfg_session_cookie_name = ''c'', cfg_scopes_supported = [''m''], cfg_resource_path = [],
     cfg_default_scope = ''m'', cfg_static_token_scopes = [], cfg_login_path = [],
     cfg_disable_static_token_with_oauth = False, cfg_machine_clients = [],
     cfg_enterprise_issuers = []\<rparr>"

theorem return_to_local_witness:
  "starts_with (sanitize_return_to (\<lambda>s. if s = ''https://g//e'' then Some (slash_url ''//e'') else None)
      slash_config (Some ''https://g//e'')) ''//''
   \<and> sanitize_return_to (\<lambda>s. if s = ''https://g//e'' then Some (slash_url ''//e'') else None)
      slash_config (Some ''https://g//e'') = ''//e''"
proof -
  let ?parse = "\<lambda>s. if s = ''https://g//e'' then Some (slash_url ''//e'') else None"
  have t: "trim ''https://g//e'' = ''https://g//e''" by code_simp
  have same: "same_origin (slash_url ''//e'') (cfg_public_url slash_config)"
    by (simp add: same_origin_def slash_url_def slash_config_def port_or_known_default_def)
  have "starts_with (sanitize_return_to ?parse slash_config (Some ''https://g//e'')) ''//''"
  proof (rule return_to_local [THEN conjunct2, THEN iffD2])
    show "starts_with (url_path u) ''/''" if "?parse s = Some u" for s u
      using that by (auto simp: slash_url_def labby_str split: if_splits)
    show "url_scheme (cfg_public_url slash_config) \<in> {''http'', ''https''}"
      by (simp add: slash_config_def slash_url_def)
    show "\<exists>raw u. Some ''https://g//e'' = Some raw \<and> trim raw \<noteq> []
        \<and> (starts_with (trim raw) ''//'' \<or> \<not> starts_with (trim raw) ''/'')
        \<and> ?parse (trim raw) = Some u \<and> same_origin u (cfg_public_url slash_config)
        \<and> starts_with (url_path u) ''//''"
      using t same by (simp add: labby_str) (simp add: slash_url_def)
  qed
  moreover have "sanitize_return_to ?parse slash_config (Some ''https://g//e'') = ''//e''"
    unfolding sanitize_return_to_def Let_def option.case t
    by (simp add: slash_url_def slash_config_def labby_str port_or_known_default_def)
  ultimately show ?thesis by blast
qed

end
