(* ===== verification/Remote_Fetch.thy ===== *)
theory Remote_Fetch
  imports Auth_Types Ssrf
begin

text \<open>
  Fetching OAuth metadata from hosts a client names (\<open>remote.rs\<close>), and the bounded caches of
  the fetched documents (\<open>cimd.rs\<close>, \<open>token.rs\<close>). The resolver, the HTTP client and the JSON
  deserialiser are parameters; what is modelled is which addresses may be connected to, how
  much is read, and how long a document may be served from a cache.
\<close>

section \<open>Admission of addresses\<close>

fun v4_is_broadcast :: "ipv4 \<Rightarrow> bool" where
  "v4_is_broadcast (Ipv4 a b c d) = (a = 255 \<and> b = 255 \<and> c = 255 \<and> d = 255)"

fun v4_is_documentation :: "ipv4 \<Rightarrow> bool" where
  "v4_is_documentation (Ipv4 a b c d) =
     ((a = 192 \<and> b = 0 \<and> c = 2) \<or> (a = 198 \<and> b = 51 \<and> c = 100) \<or> (a = 203 \<and> b = 0 \<and> c = 113))"

fun is_public_ip :: "ip_addr \<Rightarrow> bool" where
  "is_public_ip (V4 (Ipv4 a b c d)) =
     (\<not> v4_is_broadcast (Ipv4 a b c d) \<and> \<not> v4_is_documentation (Ipv4 a b c d)
      \<and> \<not> v4_is_multicast (Ipv4 a b c d)
      \<and> a \<noteq> 0 \<and> \<not> (a = 192 \<and> b = 0) \<and> \<not> (a = 198 \<and> 18 \<le> b \<and> b \<le> 19) \<and> a < 240)"
| "is_public_ip (V6 (Ipv6 s0 s1 s2 s3 s4 s5 s6 s7)) =
     (\<not> v6_is_multicast (Ipv6 s0 s1 s2 s3 s4 s5 s6 s7)
      \<and> s0 AND 0xffc0 \<noteq> 0xfec0 \<and> \<not> (s0 = 0x2001 \<and> s1 = 0x0db8))"

text \<open>The text of an \<open>SsrfError\<close> and of an address are display code: \<open>show_ssrf\<close>, \<open>show_ip\<close>.\<close>

fun admit_addresses ::
    "(ssrf_error \<Rightarrow> string) \<Rightarrow> (ip_addr \<Rightarrow> string) \<Rightarrow> string \<Rightarrow> ip_addr list \<Rightarrow> auth_error + unit" where
  "admit_addresses show_ssrf show_ip host [] = Inr ()"
| "admit_addresses show_ssrf show_ip host (ip # ips) =
     and_then (map_err (\<lambda>e. AValidation (show_ssrf e)) (check_ip_not_private ip)) (\<lambda>_.
     if \<not> is_public_ip ip
     then Inl (AValidation (''`'' @ host @ ''` resolves to non-global address '' @ show_ip ip
                 @ ''; blocked to prevent SSRF''))
     else admit_addresses show_ssrf show_ip host ips)"

text \<open>
  \<open>secure_get\<close> up to the request: the validated URL, its host and the addresses the client is
  pinned to. \<open>resolve\<close> is \<open>tokio::net::lookup_host\<close>, \<open>Inl\<close> its error.
\<close>

definition secure_get_target ::
    "(string \<Rightarrow> url option) \<Rightarrow> (ssrf_error \<Rightarrow> string) \<Rightarrow> (ip_addr \<Rightarrow> string) \<Rightarrow>
     (string \<Rightarrow> nat \<Rightarrow> string + ip_addr list) \<Rightarrow> string \<Rightarrow>
     auth_error + url \<times> string \<times> ip_addr list" where
  "secure_get_target url_parse show_ssrf show_ip resolve raw =
     and_then (map_err (\<lambda>e. AValidation (show_ssrf e)) (parse_validated_https_url url_parse raw))
       (\<lambda>validated.
     and_then (ok_or (url_host_str validated) (AValidation ''metadata URL has no host''))
       (\<lambda>host.
     and_then (map_err (\<lambda>e. ANetwork (''resolve OAuth metadata host: '' @ e))
                (resolve host (case url_port validated of Some p \<Rightarrow> p | None \<Rightarrow> 443)))
       (\<lambda>addresses.
     if addresses = [] then Inl (ANetwork ''OAuth metadata host resolved to no addresses'')
     else and_then (admit_addresses show_ssrf show_ip host addresses)
            (\<lambda>_. Inr (validated, host, addresses)))))"

lemma admit_addresses_Inr:
  "admit_addresses show_ssrf show_ip host ips = Inr () \<longleftrightarrow>
   (\<forall>ip \<in> set ips. check_ip_not_private ip = Inr () \<and> is_public_ip ip)"
  by (induction ips) (auto simp: labby_res)

section \<open>Reading the body\<close>

definition max_document_bytes :: nat where
  "max_document_bytes = 1024 * 1024"

text \<open>\<open>name\<close> is the document's name; a chunk is \<open>Inl\<close> when reading fails.\<close>

fun read_document ::
    "string \<Rightarrow> string \<Rightarrow> (string + string) list \<Rightarrow> auth_error + string" where
  "read_document name bytes [] = Inr bytes"
| "read_document name bytes (Inl e # cs) = Inl (ANetwork (''read '' @ name @ '': '' @ e))"
| "read_document name bytes (Inr chunk # cs) =
     (if length bytes + length chunk > max_document_bytes
      then Inl (AValidation (name @ '' exceeds 1 MiB''))
      else read_document name (bytes @ chunk) cs)"

lemma read_document_bounded:
  "length bytes \<le> max_document_bytes \<Longrightarrow> read_document name bytes cs = Inr body \<Longrightarrow>
   length body \<le> max_document_bytes \<and> body = bytes @ concat (map projr cs)"
  by (induction name bytes cs rule: read_document.induct) (auto split: if_splits)

section \<open>Cache policy\<close>

record cache_policy_rec =
  cp_cacheable :: bool
  cp_max_age_secs :: int

definition default_policy :: cache_policy_rec where
  "default_policy = \<lparr>cp_cacheable = True, cp_max_age_secs = 300\<rparr>"

definition max_cache_secs :: int where
  "max_cache_secs = 60 * 60"

text \<open>\<open>str::parse::<i64>\<close>: an optional sign, at least one digit, and a value in range.\<close>

definition parse_i64 :: "string \<Rightarrow> int option" where
  "parse_i64 s =
     (let (neg, digits) =
        (case s of
           c # r \<Rightarrow> if c = CHR ''-'' then (True, r) else if c = CHR ''+'' then (False, r) else (False, s)
         | [] \<Rightarrow> (False, []));
        v = (if neg then - int (decimal digits) else int (decimal digits))
      in if digits \<noteq> [] \<and> list_all is_ascii_digit digits \<and> is_i64 v then Some v else None)"

definition trim_quotes :: "string \<Rightarrow> string" where
  "trim_quotes s = rev (dropWhile (\<lambda>c. c = CHR 0x22) (rev (dropWhile (\<lambda>c. c = CHR 0x22) s)))"

definition apply_directive :: "cache_policy_rec \<Rightarrow> string \<Rightarrow> cache_policy_rec" where
  "apply_directive policy directive =
     (let p = (if eq_ignore_ascii_case directive ''no-store'' \<or> eq_ignore_ascii_case directive ''no-cache''
               then policy\<lparr>cp_cacheable := False\<rparr> else policy)
      in case split_once (CHR ''='') directive of
           None \<Rightarrow> p
         | Some (name, raw) \<Rightarrow>
             if eq_ignore_ascii_case (trim name) ''max-age''
             then (case parse_i64 (trim_quotes (trim raw)) of
                     Some secs \<Rightarrow> p\<lparr>cp_max_age_secs := max 0 (min max_cache_secs secs)\<rparr>
                   | None \<Rightarrow> p)
             else p)"

definition cache_policy :: "string option \<Rightarrow> cache_policy_rec" where
  "cache_policy header =
     (case header of
        None \<Rightarrow> default_policy
      | Some v \<Rightarrow> foldl apply_directive default_policy (map trim (split_char (CHR '','') v)))"

lemma cache_policy_bounded: "0 \<le> cp_max_age_secs (cache_policy h) \<and> cp_max_age_secs (cache_policy h) \<le> 3600"
proof -
  have step: "0 \<le> cp_max_age_secs (apply_directive p d) \<and> cp_max_age_secs (apply_directive p d) \<le> 3600"
    if "0 \<le> cp_max_age_secs p \<and> cp_max_age_secs p \<le> 3600" for p d
    using that by (auto simp: apply_directive_def Let_def max_cache_secs_def split: option.splits)
  have "0 \<le> cp_max_age_secs (foldl apply_directive p ds) \<and> cp_max_age_secs (foldl apply_directive p ds) \<le> 3600"
    if "0 \<le> cp_max_age_secs p \<and> cp_max_age_secs p \<le> 3600" for p ds
    using that by (induction ds arbitrary: p) (auto simp: step)
  then show ?thesis by (auto simp: cache_policy_def default_policy_def split: option.splits)
qed

section \<open>Caches\<close>

text \<open>
  A \<open>DashMap\<close> from keys to a document and its expiry, as the list of its entries in some order.
  Storing drops the expired entries, then the one that expires first if the cache is full, and
  inserts or replaces; other threads do not store between these calls in the model.
\<close>

type_synonym 'v cache = "(string \<times> 'v \<times> int) list"

definition cache_keys :: "'v cache \<Rightarrow> string list" where
  "cache_keys c = map fst c"

definition cache_ok :: "nat \<Rightarrow> 'v cache \<Rightarrow> bool" where
  "cache_ok cap c = (distinct (cache_keys c) \<and> length c \<le> cap)"

definition cache_lookup :: "string \<Rightarrow> int \<Rightarrow> 'v cache \<Rightarrow> 'v option" where
  "cache_lookup k now c =
     (case map_of c k of Some (v, e) \<Rightarrow> if e > now then Some v else None | None \<Rightarrow> None)"

definition retain_live :: "int \<Rightarrow> 'v cache \<Rightarrow> 'v cache" where
  "retain_live now c = filter (\<lambda>(k, v, e). e > now) c"

fun oldest :: "'v cache \<Rightarrow> (string \<times> 'v \<times> int) option" where
  "oldest [] = None"
| "oldest (x # c) =
     (case oldest c of None \<Rightarrow> Some x | Some y \<Rightarrow> if snd (snd x) \<le> snd (snd y) then Some x else Some y)"

definition evict_oldest :: "nat \<Rightarrow> 'v cache \<Rightarrow> 'v cache" where
  "evict_oldest cap c =
     (if length c \<ge> cap
      then (case oldest c of None \<Rightarrow> c | Some (k, _, _) \<Rightarrow> filter (\<lambda>(k', _, _). k' \<noteq> k) c)
      else c)"

definition dash_insert :: "string \<Rightarrow> 'v \<Rightarrow> int \<Rightarrow> 'v cache \<Rightarrow> 'v cache" where
  "dash_insert k v e c = (k, v, e) # filter (\<lambda>(k', _, _). k' \<noteq> k) c"

text \<open>\<open>now\<close> and \<open>now'\<close> are the clock at the sweep and at the insertion.\<close>

definition cache_store :: "nat \<Rightarrow> string \<Rightarrow> 'v \<Rightarrow> int \<Rightarrow> int \<Rightarrow> int \<Rightarrow> 'v cache \<Rightarrow> 'v cache" where
  "cache_store cap k v now now' max_age c =
     dash_insert k v (i64_sat (now' + max_age)) (evict_oldest cap (retain_live now c))"

lemma oldest_in: "oldest c = Some x \<Longrightarrow> x \<in> set c"
  by (induction c arbitrary: x) (auto split: option.splits if_splits)

lemma oldest_None: "oldest c = None \<longleftrightarrow> c = []"
  by (cases c) (auto split: option.splits)

lemma evict_oldest_length:
  assumes "length c \<le> cap" and "0 < cap"
  shows "length (evict_oldest cap c) < cap"
proof (cases "oldest c")
  case None
  with assms show ?thesis by (simp add: evict_oldest_def oldest_None)
next
  case (Some x)
  obtain k v e where x: "x = (k, v, e)" by (cases x)
  from oldest_in [OF Some] have "length (filter (\<lambda>(k', _, _). k' \<noteq> k) c) < length c"
    unfolding x by (intro length_filter_less [of "(k, v, e)"]) auto
  with assms Some x show ?thesis by (auto simp: evict_oldest_def)
qed

lemma map_of_cache_filter:
  assumes "distinct (cache_keys c)"
  shows "map_of (filter P c) k =
    (case map_of c k of Some ve \<Rightarrow> if P (k, ve) then Some ve else None | None \<Rightarrow> None)"
  using assms
proof (induction c)
  case (Cons x c)
  obtain k' ve where x: "x = (k', ve)" by (cases x)
  have "map_of c k' = None" using Cons.prems by (simp add: x cache_keys_def map_of_eq_None_iff)
  with Cons show ?case by (cases "k = k'") (simp_all add: x cache_keys_def)
qed (simp add: cache_keys_def)

lemma cache_lookup_store_same:
  "cache_lookup k t (cache_store cap k v now now' age c) = (if i64_sat (now' + age) > t then Some v else None)"
  by (simp add: cache_lookup_def cache_store_def dash_insert_def)

lemma filter_keys_distinct: "distinct (cache_keys c) \<Longrightarrow> distinct (cache_keys (filter P c))"
  by (induction c) (auto simp: cache_keys_def)

lemma cache_store_distinct:
  "distinct (cache_keys c) \<Longrightarrow> distinct (cache_keys (cache_store cap k v now now' age c))"
proof -
  assume "distinct (cache_keys c)"
  then have "distinct (cache_keys (evict_oldest cap (retain_live now c)))"
    by (auto simp: evict_oldest_def retain_live_def filter_keys_distinct split: option.splits)
  then show ?thesis
    using filter_keys_distinct [of _ "\<lambda>(k', _, _). k' \<noteq> k"]
    by (auto simp: cache_store_def dash_insert_def cache_keys_def)
qed

text \<open>Storing keeps the cache within its capacity and its keys distinct.\<close>

lemma cache_store_ok:
  assumes "cache_ok cap c" and "0 < cap"
  shows "cache_ok cap (cache_store cap k v now now' age c)"
proof -
  have "length (retain_live now c) \<le> cap"
    using assms(1) by (auto simp: cache_ok_def retain_live_def intro: le_trans [OF length_filter_le])
  from evict_oldest_length [OF this assms(2)]
  have "length (cache_store cap k v now now' age c) \<le> cap"
    unfolding cache_store_def dash_insert_def
    by (auto simp: Suc_le_eq intro: le_less_trans [OF length_filter_le])
  with assms cache_store_distinct [of c cap k v now now' age] show ?thesis by (simp add: cache_ok_def)
qed

lemma map_of_evict:
  "distinct (cache_keys c) \<Longrightarrow> map_of (evict_oldest cap c) k = Some ve \<Longrightarrow> map_of c k = Some ve"
  by (auto simp: evict_oldest_def map_of_cache_filter split: option.splits if_splits)

lemma cache_lookup_store_other:
  assumes "distinct (cache_keys c)" and "k' \<noteq> k"
    and "cache_lookup k' t (cache_store cap k v now now' age c) = Some w"
  shows "cache_lookup k' t c = Some w"
proof -
  let ?c1 = "retain_live now c"
  let ?c2 = "evict_oldest cap ?c1"
  have d1: "distinct (cache_keys ?c1)" using assms(1) by (simp add: retain_live_def filter_keys_distinct)
  then have d2: "distinct (cache_keys ?c2)"
    by (auto simp: evict_oldest_def filter_keys_distinct split: option.splits)
  have "map_of (cache_store cap k v now now' age c) k' = map_of ?c2 k'"
    using assms(2)
    by (simp add: cache_store_def dash_insert_def map_of_cache_filter [OF d2] split: option.split)
  with assms(3) obtain e where e: "map_of ?c2 k' = Some (w, e)" "t < e"
    unfolding cache_lookup_def by (auto split: option.splits if_splits)
  from map_of_evict [OF d1 this(1)] have "map_of c k' = Some (w, e)"
    unfolding retain_live_def map_of_cache_filter [OF assms(1)]
    by (simp split: option.splits if_splits)
  with e(2) show ?thesis by (simp add: cache_lookup_def)
qed

text \<open>What a lookup returns right after storing was stored now or was there before.\<close>

lemma cache_lookup_origin:
  "distinct (cache_keys c) \<Longrightarrow> cache_lookup k' t (cache_store cap k v now now' age c) = Some w \<Longrightarrow>
   (k' = k \<and> w = v \<and> t < i64_sat (now' + age)) \<or> cache_lookup k' t c = Some w"
  by (cases "k' = k")
    (auto simp: cache_lookup_store_same intro: cache_lookup_store_other split: if_splits)

end
