(* ===== verification/Auth_Prog.thy ===== *)
theory Auth_Prog
  imports Auth_Run Auth_Server Remote_Fetch
begin

text \<open>
  Request handlers as programs. A handler performs one action at a time, a store operation, a
  cache access, or a question to its surroundings (the clock, the random generator, the rate
  limiter, the resource registry, a remote document, Google), and continues with the outcome;
  between two actions other handlers may run. A system is a list of such programs over the
  shared state, and a step of the system is a step of one of them: every interleaving at the
  await points of the handlers is a run of the system.
\<close>

section \<open>Actions\<close>

record google_exchange =
  gx_subject :: string
  gx_email :: "string option"
  gx_email_verified :: "bool option"
  gx_access_token :: string
  gx_refresh_token :: "string option"
  gx_expires_in :: "nat option"
  gx_granted_scopes :: "string list"
  gx_id_token :: "string option"

datatype key_algorithm = EdDSA | RS256 | ES256 | OtherAlgorithm string

record jwk =
  jwk_kid :: "string option"
  jwk_key_algorithm :: "key_algorithm option"
  jwk_key :: json

datatype limiter = AuthorizeLimiter | RegisterLimiter | TokenLimiter

datatype ask =
    Now
  | RandomBytes nat
  | TryAcquire limiter string
  | EffectiveResources
  | FetchDocument url
  | FetchKeys url
  | ExchangeCode string string
  | RefreshGoogle string string "string option"

datatype cache_op =
    CachedClient string int
  | StoreClient string registered_client int int int
  | CachedKeys string string int
  | StoreKeys string "jwk list" int int int

datatype action = Store store_op | Cache cache_op | Ask ask

datatype outcome =
    GotStore "auth_error + store_result"
  | GotClient "registered_client option"
  | GotKeys "jwk list option"
  | GotNow int
  | GotBytes "string + string"
  | GotPermit bool
  | GotResources "string \<Rightarrow> string list option"
  | GotDocument "auth_error + client_metadata_document \<times> cache_policy_rec"
  | GotKeyset "auth_error + jwk list \<times> cache_policy_rec"
  | GotGoogle "auth_error + google_exchange"

text \<open>The outcomes an action can have. A wall clock does not show a negative time.\<close>

definition ask_fits :: "ask \<Rightarrow> outcome \<Rightarrow> bool" where
  "ask_fits q out =
     (case q of
        Now \<Rightarrow> (case out of GotNow t \<Rightarrow> 0 \<le> t \<and> t < 2 ^ 63 | _ \<Rightarrow> False)
      | RandomBytes n \<Rightarrow>
          (case out of GotBytes r \<Rightarrow> (case r of Inl _ \<Rightarrow> True | Inr b \<Rightarrow> length b = n) | _ \<Rightarrow> False)
      | TryAcquire _ _ \<Rightarrow> (case out of GotPermit _ \<Rightarrow> True | _ \<Rightarrow> False)
      | EffectiveResources \<Rightarrow> (case out of GotResources _ \<Rightarrow> True | _ \<Rightarrow> False)
      | FetchDocument _ \<Rightarrow> (case out of GotDocument _ \<Rightarrow> True | _ \<Rightarrow> False)
      | FetchKeys _ \<Rightarrow> (case out of GotKeyset _ \<Rightarrow> True | _ \<Rightarrow> False)
      | ExchangeCode _ _ \<Rightarrow> (case out of GotGoogle _ \<Rightarrow> True | _ \<Rightarrow> False)
      | RefreshGoogle _ _ _ \<Rightarrow> (case out of GotGoogle _ \<Rightarrow> True | _ \<Rightarrow> False))"

definition fits :: "action \<Rightarrow> outcome \<Rightarrow> bool" where
  "fits act out =
     (case act of
        Store _ \<Rightarrow> (case out of GotStore _ \<Rightarrow> True | _ \<Rightarrow> False)
      | Cache c \<Rightarrow>
          (case c of
             CachedClient _ _ \<Rightarrow> (case out of GotClient _ \<Rightarrow> True | _ \<Rightarrow> False)
           | StoreClient _ _ _ _ _ \<Rightarrow> (case out of GotClient None \<Rightarrow> True | _ \<Rightarrow> False)
           | CachedKeys _ _ _ \<Rightarrow> (case out of GotKeys _ \<Rightarrow> True | _ \<Rightarrow> False)
           | StoreKeys _ _ _ _ _ \<Rightarrow> (case out of GotKeys None \<Rightarrow> True | _ \<Rightarrow> False))
      | Ask q \<Rightarrow> ask_fits q out)"

lemma fits_simps [simp]:
  "fits (Store op) out \<longleftrightarrow> (\<exists>r. out = GotStore r)"
  "fits (Cache (CachedClient cid t)) out \<longleftrightarrow> (\<exists>c. out = GotClient c)"
  "fits (Cache (StoreClient cid cl t t' a)) out \<longleftrightarrow> out = GotClient None"
  "fits (Cache (CachedKeys u kid t)) out \<longleftrightarrow> (\<exists>c. out = GotKeys c)"
  "fits (Cache (StoreKeys u ks t t' a)) out \<longleftrightarrow> out = GotKeys None"
  "fits (Ask Now) out \<longleftrightarrow> (\<exists>t. out = GotNow t \<and> 0 \<le> t \<and> t < 2 ^ 63)"
  "fits (Ask (RandomBytes n)) out \<longleftrightarrow> (\<exists>r. out = GotBytes r \<and> (\<forall>b. r = Inr b \<longrightarrow> length b = n))"
  "fits (Ask (TryAcquire l ip)) out \<longleftrightarrow> (\<exists>b. out = GotPermit b)"
  "fits (Ask EffectiveResources) out \<longleftrightarrow> (\<exists>r. out = GotResources r)"
  "fits (Ask (FetchDocument d)) out \<longleftrightarrow> (\<exists>r. out = GotDocument r)"
  "fits (Ask (FetchKeys d)) out \<longleftrightarrow> (\<exists>r. out = GotKeyset r)"
  "fits (Ask (ExchangeCode x y)) out \<longleftrightarrow> (\<exists>r. out = GotGoogle r)"
  "fits (Ask (RefreshGoogle x y z)) out \<longleftrightarrow> (\<exists>r. out = GotGoogle r)"
  by (cases out; auto simp: fits_def ask_fits_def split: option.splits sum.splits)+

section \<open>The shared state\<close>

record shared =
  sh_db :: auth_db
  sh_clients :: "registered_client cache"
  sh_keys :: "jwk list cache"

definition initial :: shared where
  "initial = \<lparr>sh_db = empty_db, sh_clients = [], sh_keys = []\<rparr>"

definition find_key :: "jwk list \<Rightarrow> string \<Rightarrow> jwk option" where
  "find_key keys kid = find (\<lambda>k. jwk_kid k = Some kid) keys"

definition max_cached_clients :: nat where
  "max_cached_clients = 1024"

definition max_cached_keysets :: nat where
  "max_cached_keysets = 256"

fun cache_step :: "cache_op \<Rightarrow> shared \<Rightarrow> outcome \<times> shared" where
  "cache_step (CachedClient cid now) sh = (GotClient (cache_lookup cid now (sh_clients sh)), sh)"
| "cache_step (StoreClient cid c now now' age) sh =
     (GotClient None, sh\<lparr>sh_clients := cache_store max_cached_clients cid c now now' age (sh_clients sh)\<rparr>)"
| "cache_step (CachedKeys uri kid now) sh =
     (GotKeys (case cache_lookup uri now (sh_keys sh) of
        Some keys \<Rightarrow> if find_key keys kid \<noteq> None then Some keys else None
      | None \<Rightarrow> None), sh)"
| "cache_step (StoreKeys uri keys now now' age) sh =
     (GotKeys None, sh\<lparr>sh_keys := cache_store max_cached_keysets uri keys now now' age (sh_keys sh)\<rparr>)"

text \<open>What an action does. The answer to a question is any that fits.\<close>

fun performs :: "auth_env \<Rightarrow> action \<Rightarrow> shared \<Rightarrow> outcome \<Rightarrow> shared \<Rightarrow> bool" where
  "performs env (Store op) sh out sh' =
     (case exec env op (sh_db sh) of (r, db') \<Rightarrow> out = GotStore r \<and> sh' = sh\<lparr>sh_db := db'\<rparr>)"
| "performs env (Cache op) sh out sh' = ((out, sh') = cache_step op sh)"
| "performs env (Ask q) sh out sh' = (fits (Ask q) out \<and> sh' = sh)"

lemma performs_fits: "performs env act sh out sh' \<Longrightarrow> fits act out"
proof (cases act)
  case (Cache c)
  then show "performs env act sh out sh' \<Longrightarrow> fits act out" by (cases c) simp_all
qed (auto split: prod.splits)

section \<open>Programs\<close>

datatype 'a prog = Ret 'a | Do action "outcome \<Rightarrow> 'a prog"

primrec bindp :: "'a prog \<Rightarrow> ('a \<Rightarrow> 'b prog) \<Rightarrow> 'b prog" where
  "bindp (Ret a) f = f a"
| "bindp (Do act k) f = Do act (\<lambda>r. bindp (k r) f)"

text \<open>The question mark after an awaited fallible call, and after a pure one.\<close>

definition attempt :: "('e + 'a) prog \<Rightarrow> ('a \<Rightarrow> ('e + 'b) prog) \<Rightarrow> ('e + 'b) prog" where
  "attempt p f = bindp p (\<lambda>r. case r of Inl e \<Rightarrow> Ret (Inl e) | Inr x \<Rightarrow> f x)"

definition check :: "'e + 'a \<Rightarrow> ('a \<Rightarrow> ('e + 'b) prog) \<Rightarrow> ('e + 'b) prog" where
  "check r f = (case r of Inl e \<Rightarrow> Ret (Inl e) | Inr x \<Rightarrow> f x)"

abbreviation fail :: "'e \<Rightarrow> ('e + 'a) prog" where
  "fail e \<equiv> Ret (Inl e)"

abbreviation done_with :: "'a \<Rightarrow> ('e + 'a) prog" where
  "done_with x \<equiv> Ret (Inr x)"

text \<open>
  The actions with the types their outcomes have; the other shapes do not occur.
\<close>

definition call :: "store_op \<Rightarrow> (store_result \<Rightarrow> 'a option) \<Rightarrow> (auth_error + 'a) prog" where
  "call op f = Do (Store op) (\<lambda>out. case out of
     GotStore r \<Rightarrow> Ret (and_then r (\<lambda>x. ok_or (f x) (AStorage []))) | _ \<Rightarrow> fail (AStorage []))"

definition now_unix :: "(int \<Rightarrow> 'a prog) \<Rightarrow> 'a prog" where
  "now_unix f = Do (Ask Now) (\<lambda>out. case out of GotNow t \<Rightarrow> f t | _ \<Rightarrow> f 0)"

definition random_bytes :: "nat \<Rightarrow> (string + string \<Rightarrow> 'a prog) \<Rightarrow> 'a prog" where
  "random_bytes n f = Do (Ask (RandomBytes n)) (\<lambda>out. case out of GotBytes r \<Rightarrow> f r | _ \<Rightarrow> f (Inl []))"

definition random_token :: "auth_env \<Rightarrow> nat \<Rightarrow> (string \<Rightarrow> (auth_error + 'a) prog) \<Rightarrow> (auth_error + 'a) prog" where
  "random_token env n f = random_bytes n (\<lambda>r.
     case r of Inl e \<Rightarrow> fail (AStorage (''generate random token: '' @ e)) | Inr b \<Rightarrow> f (b64url env b))"

definition try_acquire :: "limiter \<Rightarrow> string \<Rightarrow> (bool \<Rightarrow> 'a prog) \<Rightarrow> 'a prog" where
  "try_acquire l ip f = Do (Ask (TryAcquire l ip)) (\<lambda>out. case out of GotPermit b \<Rightarrow> f b | _ \<Rightarrow> f False)"

definition effective_resources :: "((string \<Rightarrow> string list option) \<Rightarrow> 'a prog) \<Rightarrow> 'a prog" where
  "effective_resources f =
     Do (Ask EffectiveResources) (\<lambda>out. case out of GotResources r \<Rightarrow> f r | _ \<Rightarrow> f (\<lambda>_. None))"

definition fetch_document :: "url \<Rightarrow> (auth_error + client_metadata_document \<times> cache_policy_rec) prog" where
  "fetch_document u = Do (Ask (FetchDocument u)) (\<lambda>out.
     case out of GotDocument r \<Rightarrow> Ret r | _ \<Rightarrow> fail (AStorage []))"

definition fetch_keys :: "url \<Rightarrow> (auth_error + jwk list \<times> cache_policy_rec) prog" where
  "fetch_keys u = Do (Ask (FetchKeys u)) (\<lambda>out.
     case out of GotKeyset r \<Rightarrow> Ret r | _ \<Rightarrow> fail (AStorage []))"

definition exchange_code :: "string \<Rightarrow> string \<Rightarrow> (auth_error + google_exchange) prog" where
  "exchange_code code verifier = Do (Ask (ExchangeCode code verifier)) (\<lambda>out.
     case out of GotGoogle r \<Rightarrow> Ret r | _ \<Rightarrow> fail (AStorage []))"

definition google_refresh ::
    "string \<Rightarrow> string \<Rightarrow> string option \<Rightarrow> (auth_error + google_exchange) prog" where
  "google_refresh token subject email = Do (Ask (RefreshGoogle token subject email)) (\<lambda>out.
     case out of GotGoogle r \<Rightarrow> Ret r | _ \<Rightarrow> fail (AStorage []))"

definition cached_client :: "string \<Rightarrow> int \<Rightarrow> (registered_client option \<Rightarrow> 'a prog) \<Rightarrow> 'a prog" where
  "cached_client cid now f =
     Do (Cache (CachedClient cid now)) (\<lambda>out. case out of GotClient c \<Rightarrow> f c | _ \<Rightarrow> f None)"

definition cached_keys :: "string \<Rightarrow> string \<Rightarrow> int \<Rightarrow> (jwk list option \<Rightarrow> 'a prog) \<Rightarrow> 'a prog" where
  "cached_keys uri kid now f =
     Do (Cache (CachedKeys uri kid now)) (\<lambda>out. case out of GotKeys c \<Rightarrow> f c | _ \<Rightarrow> f None)"

definition store_client :: "string \<Rightarrow> registered_client \<Rightarrow> int \<Rightarrow> int \<Rightarrow> int \<Rightarrow> 'a prog \<Rightarrow> 'a prog" where
  "store_client cid c now now' age p = Do (Cache (StoreClient cid c now now' age)) (\<lambda>_. p)"

definition store_keys :: "string \<Rightarrow> jwk list \<Rightarrow> int \<Rightarrow> int \<Rightarrow> int \<Rightarrow> 'a prog \<Rightarrow> 'a prog" where
  "store_keys uri ks now now' age p = Do (Cache (StoreKeys uri ks now now' age)) (\<lambda>_. p)"

lemmas action_defs = now_unix_def random_bytes_def random_token_def try_acquire_def
  effective_resources_def fetch_document_def fetch_keys_def exchange_code_def google_refresh_def
  cached_client_def cached_keys_def store_client_def store_keys_def

fun as_unit :: "store_result \<Rightarrow> unit option" where
  "as_unit RUnit = Some ()" | "as_unit _ = None"
fun as_bool :: "store_result \<Rightarrow> bool option" where
  "as_bool (RBool b) = Some b" | "as_bool _ = None"
fun as_count :: "store_result \<Rightarrow> nat option" where
  "as_count (RCount n) = Some n" | "as_count _ = None"
fun as_request :: "store_result \<Rightarrow> authorization_request_row option" where
  "as_request (RRequest r) = Some r" | "as_request _ = None"
fun as_code :: "store_result \<Rightarrow> authorization_code_row option" where
  "as_code (RCode r) = Some r" | "as_code _ = None"
fun as_login :: "store_result \<Rightarrow> browser_login_state_row option option" where
  "as_login (RLogin r) = Some r" | "as_login _ = None"
fun as_native :: "store_result \<Rightarrow> native_result_row option option" where
  "as_native (RNative r) = Some r" | "as_native _ = None"
fun as_refresh :: "store_result \<Rightarrow> refresh_token_row option option" where
  "as_refresh (RRefresh r) = Some r" | "as_refresh _ = None"
fun as_invalidation :: "store_result \<Rightarrow> google_invalidation option" where
  "as_invalidation (RInvalidation r) = Some r" | "as_invalidation _ = None"
fun as_client :: "store_result \<Rightarrow> registered_client option option" where
  "as_client (RClient r) = Some r" | "as_client _ = None"
fun as_users :: "store_result \<Rightarrow> allowed_user_row list option" where
  "as_users (RUsers r) = Some r" | "as_users _ = None"
fun as_google :: "store_result \<Rightarrow> google_credential_row option option" where
  "as_google (RGoogle r) = Some r" | "as_google _ = None"
fun as_session :: "store_result \<Rightarrow> browser_session_row option option" where
  "as_session (RSession r) = Some r" | "as_session _ = None"

lemma as_Some [simp]:
  "as_unit x = Some u \<longleftrightarrow> x = RUnit" "as_bool x = Some b \<longleftrightarrow> x = RBool b"
  "as_count x = Some n \<longleftrightarrow> x = RCount n" "as_request x = Some q \<longleftrightarrow> x = RRequest q"
  "as_code x = Some c \<longleftrightarrow> x = RCode c" "as_login x = Some l \<longleftrightarrow> x = RLogin l"
  "as_native x = Some nt \<longleftrightarrow> x = RNative nt" "as_refresh x = Some rt \<longleftrightarrow> x = RRefresh rt"
  "as_invalidation x = Some iv \<longleftrightarrow> x = RInvalidation iv" "as_client x = Some cl \<longleftrightarrow> x = RClient cl"
  "as_users x = Some us \<longleftrightarrow> x = RUsers us" "as_google x = Some g \<longleftrightarrow> x = RGoogle g"
  "as_session x = Some s \<longleftrightarrow> x = RSession s"
  by (cases x; auto)+

section \<open>Systems\<close>

type_synonym event = "action \<times> outcome"
type_synonym trace = "event list"
type_synonym 'a system = "trace \<times> shared \<times> 'a prog list"

inductive sys_step :: "auth_env \<Rightarrow> 'a system \<Rightarrow> 'a system \<Rightarrow> bool" for env :: auth_env where
  sys_do: "i < length ps \<Longrightarrow> ps ! i = Do act k \<Longrightarrow> performs env act sh out sh' \<Longrightarrow>
    sys_step env (tr, sh, ps) (tr @ [(act, out)], sh', ps[i := k out])"

inductive sys_run :: "auth_env \<Rightarrow> 'a system \<Rightarrow> 'a system \<Rightarrow> bool" for env :: auth_env where
  sys_refl: "sys_run env s s"
| sys_next: "sys_run env s s' \<Longrightarrow> sys_step env s' s'' \<Longrightarrow> sys_run env s s''"

inductive_cases sys_stepE: "sys_step env s s'"

text \<open>One program alone, with the answers to its questions in order; \<open>None\<close> when they do not fit.\<close>

primrec run_prog :: "'a prog \<Rightarrow> auth_env \<Rightarrow> outcome list \<Rightarrow> shared \<Rightarrow> ('a \<times> trace \<times> shared) option" where
  "run_prog (Ret a) = (\<lambda>env outs sh. Some (a, [], sh))"
| "run_prog (Do act k) = (\<lambda>env outs sh.
     case act of
       Store op \<Rightarrow> (case exec env op (sh_db sh) of (r, db') \<Rightarrow>
         map_option (\<lambda>(a, tr, sh'). (a, (act, GotStore r) # tr, sh'))
           (run_prog (k (GotStore r)) env outs (sh\<lparr>sh_db := db'\<rparr>)))
     | Cache op \<Rightarrow> (case cache_step op sh of (out, sh1) \<Rightarrow>
         map_option (\<lambda>(a, tr, sh'). (a, (act, out) # tr, sh')) (run_prog (k out) env outs sh1))
     | Ask q \<Rightarrow> (case outs of
         [] \<Rightarrow> None
       | out # outs' \<Rightarrow>
           if fits (Ask q) out
           then map_option (\<lambda>(a, tr, sh'). (a, (act, out) # tr, sh')) (run_prog (k out) env outs' sh)
           else None))"

lemma sys_run_trans: "sys_run env s s' \<Longrightarrow> sys_run env s' s'' \<Longrightarrow> sys_run env s s''"
  by (rotate_tac, induction rule: sys_run.induct) (auto intro: sys_run.intros)

lemma run_prog_Do:
  assumes "run_prog (Do act k) env outs sh = Some (a, tr, sh')"
  shows "\<exists>out outs' sh1 tr'. performs env act sh out sh1
    \<and> run_prog (k out) env outs' sh1 = Some (a, tr', sh') \<and> tr = (act, out) # tr'"
proof (cases act)
  case (Store op)
  obtain r db' where e: "exec env op (sh_db sh) = (r, db')" by fastforce
  with assms Store obtain tr' where
    "run_prog (k (GotStore r)) env outs (sh\<lparr>sh_db := db'\<rparr>) = Some (a, tr', sh')"
    "tr = (act, GotStore r) # tr'" by auto
  with Store e show ?thesis by fastforce
next
  case (Cache c)
  obtain out sh1 where e: "cache_step c sh = (out, sh1)" by fastforce
  with assms Cache obtain tr' where
    "run_prog (k out) env outs sh1 = Some (a, tr', sh')" "tr = (act, out) # tr'" by auto
  with Cache e show ?thesis by fastforce
next
  case (Ask q)
  with assms show ?thesis by (auto split: list.splits if_splits)
qed

text \<open>A program that runs alone is a run of every system it belongs to.\<close>

lemma run_prog_sys_run:
  assumes "run_prog p env outs sh = Some (a, tr, sh')" and "i < length ps" and "ps ! i = p"
  shows "sys_run env (tr0, sh, ps) (tr0 @ tr, sh', ps[i := Ret a])"
  using assms
proof (induction p arbitrary: outs sh tr ps tr0)
  case (Ret x)
  then show ?case using list_update_id [of ps i] by (auto intro: sys_refl)
next
  case (Do act k)
  from run_prog_Do [OF Do.prems(1)] obtain out outs' sh1 tr' where
    step: "performs env act sh out sh1"
    and rest: "run_prog (k out) env outs' sh1 = Some (a, tr', sh')" and tr: "tr = (act, out) # tr'"
    by blast
  have "sys_run env (tr0, sh, ps) (tr0 @ [(act, out)], sh1, ps[i := k out])"
    using sys_do [OF Do.prems(2,3) step] by (auto intro: sys_run.intros)
  moreover have "sys_run env (tr0 @ [(act, out)], sh1, ps[i := k out])
      ((tr0 @ [(act, out)]) @ tr', sh', ps[i := k out, i := Ret a])"
    using Do.IH [of "k out" outs' sh1 tr' "ps[i := k out]" "tr0 @ [(act, out)]"] rest Do.prems(2) by simp
  ultimately have "sys_run env (tr0, sh, ps) ((tr0 @ [(act, out)]) @ tr', sh', ps[i := k out, i := Ret a])"
    by (rule sys_run_trans)
  with tr show ?case by simp
qed

text \<open>Programs one after the other, each with the answers to its questions.\<close>

fun run_all ::
    "auth_env \<Rightarrow> ('a prog \<times> outcome list) list \<Rightarrow> shared \<Rightarrow> ('a list \<times> trace \<times> shared) option" where
  "run_all env [] sh = Some ([], [], sh)"
| "run_all env ((p, outs) # xs) sh =
     (case run_prog p env outs sh of
        None \<Rightarrow> None
      | Some (a, tr, sh1) \<Rightarrow>
          map_option (\<lambda>(as, tr', sh'). (a # as, tr @ tr', sh')) (run_all env xs sh1))"

lemma run_all_sys_run:
  "run_all env xs sh = Some (as, tr, sh') \<Longrightarrow>
   sys_run env (tr0, sh, pre @ map fst xs) (tr0 @ tr, sh', pre @ map Ret as)"
proof (induction env xs sh arbitrary: as tr tr0 pre rule: run_all.induct)
  case (1 env sh)
  then show ?case by (simp add: sys_refl)
next
  case (2 env p outs xs sh)
  from "2.prems" obtain a tr1 sh1 as' tr2 where p: "run_prog p env outs sh = Some (a, tr1, sh1)"
    and rest: "run_all env xs sh1 = Some (as', tr2, sh')" and eq: "as = a # as'" "tr = tr1 @ tr2"
    by (auto split: option.splits)
  have "sys_run env (tr0, sh, pre @ p # map fst xs) (tr0 @ tr1, sh1, (pre @ [Ret a]) @ map fst xs)"
    using run_prog_sys_run [OF p, of "length pre" "pre @ p # map fst xs" tr0] by simp
  moreover have "sys_run env (tr0 @ tr1, sh1, (pre @ [Ret a]) @ map fst xs)
      ((tr0 @ tr1) @ tr2, sh', (pre @ [Ret a]) @ map Ret as')"
    by (rule "2.IH" [OF p refl refl rest])
  ultimately have "sys_run env (tr0, sh, pre @ p # map fst xs)
      ((tr0 @ tr1) @ tr2, sh', (pre @ [Ret a]) @ map Ret as')"
    by (rule sys_run_trans)
  with eq show ?case by simp
qed

section \<open>The store operations of a system\<close>

definition store_event :: "event \<Rightarrow> (store_op \<times> (auth_error + store_result)) option" where
  "store_event e = (case e of (Store op, GotStore r) \<Rightarrow> Some (op, r) | _ \<Rightarrow> None)"

definition ops_of :: "trace \<Rightarrow> store_op list" where
  "ops_of tr = map fst (List.map_filter store_event tr)"

definition results_of :: "trace \<Rightarrow> (auth_error + store_result) list" where
  "results_of tr = map snd (List.map_filter store_event tr)"

lemma ops_of_simps [simp]:
  "ops_of [] = []" "ops_of (tr @ tr') = ops_of tr @ ops_of tr'"
  "ops_of [(Store op, GotStore r)] = [op]" "ops_of [(Cache c, out)] = []" "ops_of [(Ask q, out)] = []"
  "results_of [] = []" "results_of (tr @ tr') = results_of tr @ results_of tr'"
  "results_of [(Store op, GotStore r)] = [r]" "results_of [(Cache c, out)] = []"
  "results_of [(Ask q, out)] = []" "length (results_of tr) = length (ops_of tr)"
  by (simp_all add: ops_of_def results_of_def store_event_def List.map_filter_def)

text \<open>
  Whatever the interleaving, the database of a system is what the store operations of its trace
  make of the database it started with: the theorems on runs of the store apply to systems.
\<close>

lemma step_store:
  assumes "performs env act sh out sh'"
  shows "run_ops env (ops_of [(act, out)]) (sh_db sh) = (results_of [(act, out)], sh_db sh')"
  using assms
proof (cases act)
  case (Cache c)
  with assms show ?thesis by (cases c) auto
qed (auto split: prod.splits)

lemma sys_run_store:
  assumes "sys_run env ([], sh0, ps0) s"
  shows "run_ops env (ops_of (fst s)) (sh_db sh0) = (results_of (fst s), sh_db (fst (snd s)))"
  using assms
proof (induction "([] :: trace, sh0, ps0)" s rule: sys_run.induct)
  case (sys_next s' s'')
  from sys_next(3) show ?case
  proof cases
    case (sys_do i ps act k sh out sh' tr)
    with sys_next(2) step_store [OF sys_do(5)] show ?thesis by (simp add: run_ops_append)
  qed
qed simp

section \<open>What programs guarantee\<close>

text \<open>
  \<open>G tr act\<close> says when an action may be taken after the events \<open>tr\<close>, \<open>Q tr a\<close> what a result
  means. A program keeps them if they hold of its own events, whatever outcomes its actions
  have. The equations compute the condition like a weakest precondition.
\<close>

primrec keeps :: "(trace \<Rightarrow> action \<Rightarrow> bool) \<Rightarrow> (trace \<Rightarrow> 'a \<Rightarrow> bool) \<Rightarrow> 'a prog \<Rightarrow> trace \<Rightarrow> bool" where
  "keeps G Q (Ret a) = (\<lambda>tr. Q tr a)"
| "keeps G Q (Do act k) =
     (\<lambda>tr. G tr act \<and> (\<forall>out. fits act out \<longrightarrow> keeps G Q (k out) (tr @ [(act, out)])))"

lemma keeps_bindp [simp]:
  "keeps G Q (bindp p f) tr \<longleftrightarrow> keeps G (\<lambda>tr a. keeps G Q (f a) tr) p tr"
  by (induction p arbitrary: tr) auto

lemma keeps_mono:
  "keeps G Q p tr \<Longrightarrow> (\<And>tr' a. prefix tr tr' \<Longrightarrow> Q tr' a \<Longrightarrow> Q' tr' a) \<Longrightarrow> keeps G Q' p tr"
proof (induction p arbitrary: tr)
  case (Do act k)
  show ?case
  proof (simp, intro conjI allI impI)
    show "G tr act" using Do.prems(1) by simp
    fix out
    assume fit: "fits act out"
    show "keeps G Q' (k out) (tr @ [(act, out)])"
    proof (rule Do.IH)
      show "k out \<in> range k" by simp
      show "keeps G Q (k out) (tr @ [(act, out)])" using Do.prems(1) fit by simp
      show "Q tr' a \<Longrightarrow> Q' tr' a" if "prefix (tr @ [(act, out)]) tr'" for tr' a
        using Do.prems(2) append_prefixD [OF that] by blast
    qed
  qed
qed simp

text \<open>Facts about a trace that stay true when other events are added in between.\<close>

definition stable :: "(trace \<Rightarrow> bool) \<Rightarrow> bool" where
  "stable P = (\<forall>tr tr'. set tr \<subseteq> set tr' \<longrightarrow> P tr \<longrightarrow> P tr')"

text \<open>
  In every run of a system of programs that keep stable guarantees, every action was taken
  under its condition, and every program keeps the guarantees of its result.
\<close>

lemma snoc_split:
  "tr @ [e] = tr1 @ e' # tr2 \<longleftrightarrow> (tr2 = [] \<and> tr1 = tr \<and> e' = e) \<or> (\<exists>tr3. tr2 = tr3 @ [e] \<and> tr = tr1 @ e' # tr3)"
  by (cases tr2 rule: rev_cases) auto

lemma sys_run_keeps:
  assumes run: "sys_run env ([], sh0, ps0) s"
    and stG: "\<And>act. stable (\<lambda>tr. G tr act)"
    and init: "\<And>i. i < length ps0 \<Longrightarrow> keeps G (Q i) (ps0 ! i) []"
    and s: "s = (tr, sh, ps)"
  shows "length ps = length ps0
    \<and> (\<forall>i < length ps0. \<exists>loc. set loc \<subseteq> set tr \<and> keeps G (Q i) (ps ! i) loc)
    \<and> (\<forall>tr1 act out tr2. tr = tr1 @ (act, out) # tr2 \<longrightarrow> G tr1 act \<and> fits act out)"
  using run s
proof (induction "([] :: trace, sh0, ps0)" s arbitrary: tr sh ps rule: sys_run.induct)
  case sys_refl
  then show ?case using init by (auto intro!: exI [of _ "[]"])
next
  case (sys_next s' s'')
  from sys_next(3) show ?case
  proof cases
    case (sys_do i ps1 act k sh1 out sh2 tr1)
    note IH = sys_next(2) [OF sys_do(1)]
    from IH sys_do(3,4) obtain loc where loc: "set loc \<subseteq> set tr1" "keeps G (Q i) (Do act k) loc"
      by metis
    have fit: "fits act out" by (rule performs_fits [OF sys_do(5)])
    have now: "G tr1 act" using stG [of act] loc by (auto simp: stable_def)
    have procs: "\<exists>loc. set loc \<subseteq> set (tr1 @ [(act, out)]) \<and> keeps G (Q j) (ps1[i := k out] ! j) loc"
      if j: "j < length ps0" for j
    proof (cases "j = i")
      case True
      have "keeps G (Q i) (k out) (loc @ [(act, out)])" using loc(2) fit by simp
      with True loc(1) sys_do(3) show ?thesis by (intro exI [of _ "loc @ [(act, out)]"]) auto
    next
      case False
      with IH j obtain loc' where "set loc' \<subseteq> set tr1" "keeps G (Q j) (ps1 ! j) loc'" by auto
      with False show ?thesis by (intro exI [of _ loc']) auto
    qed
    show ?thesis
      using IH procs now fit sys_do(2) sys_next(4) by (auto simp: snoc_split)
  qed
qed

lemma sys_run_guarantee:
  assumes "sys_run env ([], sh0, ps0) (tr, sh, ps)" and "\<And>act. stable (\<lambda>tr. G tr act)"
    and "\<And>p. p \<in> set ps0 \<Longrightarrow> keeps G (\<lambda>_ _. True) p []"
    and "tr = tr1 @ (act, out) # tr2"
  shows "G tr1 act"
  using sys_run_keeps [where G = G and Q = "\<lambda>_ _ _. True", OF assms(1,2) assms(3) [OF nth_mem] refl]
    assms(4) by blast

lemma sys_run_returns:
  assumes "sys_run env ([], sh0, ps0) (tr, sh, ps)"
    and "\<And>act. stable (\<lambda>tr. G tr act)" and "\<And>a. stable (\<lambda>tr. Q i tr a)"
    and "\<And>i. i < length ps0 \<Longrightarrow> keeps G (Q i) (ps0 ! i) []"
    and "i < length ps0" and "ps ! i = Ret a"
  shows "Q i tr a"
proof -
  obtain loc where "set loc \<subseteq> set tr" "keeps G (Q i) (ps ! i) loc"
    using sys_run_keeps [OF assms(1,2,4) refl] assms(5) by blast
  with assms(6) assms(3) [of a] show ?thesis by (auto simp: stable_def)
qed

end
