(* ===== verification/Auth_Authorize.thy ===== *)
theory Auth_Authorize
  imports Auth_Prog
begin

text \<open>
  The browser-facing handlers: login, client registration, authorization, the provider's
  callback and the native-app routes (\<open>authorize.rs\<close>), the resolution of clients (\<open>cimd.rs\<close>),
  browser sessions (\<open>session.rs\<close>), the guards of \<open>AuthState\<close> (\<open>state.rs\<close>), and the admin routes
  for the allowlist (\<open>api/services/auth_admin.rs\<close>).

  A redirect keeps its parts: the URI the handler parsed and the query pairs it appended; the
  \<open>url\<close> crate serialises them. Log lines are left out.
\<close>

section \<open>The server\<close>

text \<open>
  The configuration with the library functions the handlers call: the \<open>url\<close> crate,
  \<open>serde_json::from_value\<close> for key sets, \<open>jsonwebtoken\<close>, base64 and form decoding. The last three
  fields are the parts of \<open>AppState\<close> the web routes add: the static bearer token, the derivation
  of actor keys and the switch that turns the login of the web interface off.
\<close>

record jwt_header =
  jh_alg :: key_algorithm
  jh_typ :: "string option"
  jh_kid :: "string option"

record client_assertion_claims =
  ca_iss :: string
  ca_sub :: string
  ca_aud :: string
  ca_exp :: int
  ca_iat :: int
  ca_jti :: string

record id_jag_claims = client_assertion_claims +
  ij_client_id :: string
  ij_resource :: string
  ij_scope :: string

record access_claims =
  ac_iss :: string
  ac_sub :: string
  ac_aud :: string
  ac_exp :: nat
  ac_nbf :: "nat option"
  ac_iat :: nat
  ac_jti :: string
  ac_token_scope :: string
  ac_azp :: string

record server =
  sv_cfg :: auth_config
  sv_env :: auth_env
  sv_url_parse :: "string \<Rightarrow> url option"
  sv_url_to_string :: "url \<Rightarrow> string"
  sv_show_ssrf :: "ssrf_error \<Rightarrow> string"
  sv_parse_jwks :: "json \<Rightarrow> string + jwk list"
  sv_decode_header :: "string \<Rightarrow> jwt_header option"
  sv_decoding_key :: "jwk \<Rightarrow> bool"
  sv_unverified_assertion :: "string \<Rightarrow> client_assertion_claims option"
  sv_decode_assertion :: "int \<Rightarrow> string \<Rightarrow> jwk \<Rightarrow> key_algorithm \<Rightarrow> string \<Rightarrow> string \<Rightarrow> client_assertion_claims option"
  sv_unverified_id_jag :: "string \<Rightarrow> id_jag_claims option"
  sv_decode_id_jag :: "int \<Rightarrow> string \<Rightarrow> jwk \<Rightarrow> key_algorithm \<Rightarrow> string \<Rightarrow> string \<Rightarrow> id_jag_claims option"
  sv_sign :: "access_claims \<Rightarrow> string + string"
  sv_verify :: "int \<Rightarrow> string \<Rightarrow> string \<Rightarrow> string \<Rightarrow> access_claims option"
  sv_b64_standard_decode :: "string \<Rightarrow> string option"
  sv_form_value :: "string \<Rightarrow> string option"
  sv_static_token :: "string option"
  sv_actor_key :: "string \<Rightarrow> string option"
  sv_web_ui_auth_disabled :: bool

section \<open>Replies\<close>

record google_authorize =
  ga_state :: string
  ga_scope :: string
  ga_code_challenge :: string
  ga_code_challenge_method :: string
  ga_offline_access :: bool
  ga_force_consent :: bool

record token_response =
  tr_access_token :: string
  tr_token_type :: string
  tr_expires_in :: nat
  tr_refresh_token :: "string option"
  tr_scope :: string

datatype http_reply =
    FoundGoogle google_authorize
  | SeeOther string "(string \<times> string) list" "string option"
  | NativeSuccessPage
  | NativeGonePage
  | NativePoll "string option"
  | RegisteredReply string "string list" string
  | TokenReply token_response
  | RevokedReply
  | AllowedUsers "allowed_user_row list"
  | AllowedUserAdded allowed_user_row
  | AllowedUserRemoved

fun auth_error_message :: "auth_error \<Rightarrow> string" where
  "auth_error_message (AConfig m) = m"
| "auth_error_message (AStorage m) = m"
| "auth_error_message (AInvalidGrant m) = m"
| "auth_error_message (AInvalidScope m) = m"
| "auth_error_message (AOauthNeedsReauth m) = m"
| "auth_error_message (AAuthFailed m) = m"
| "auth_error_message (AValidation m) = m"
| "auth_error_message (ANetwork m) = m"
| "auth_error_message (AServer m) = m"
| "auth_error_message (ADecode m) = m"
| "auth_error_message (ARateLimited m _) = m"
| "auth_error_message AInvalidAccessToken = ''invalid access token''"
| "auth_error_message (AInsecurePermissions p) = ''path `'' @ p @ ''` has insecure permissions''"

section \<open>Guards\<close>

definition limiter_name :: "limiter \<Rightarrow> string" where
  "limiter_name l = (case l of AuthorizeLimiter \<Rightarrow> ''authorize'' | RegisterLimiter \<Rightarrow> ''register''
     | TokenLimiter \<Rightarrow> ''token'')"

definition check_rate_limit :: "limiter \<Rightarrow> string \<Rightarrow> (auth_error + unit) prog" where
  "check_rate_limit l ip = try_acquire l ip (\<lambda>permit.
     if permit then done_with ()
     else fail (ARateLimited (limiter_name l @ '' rate limit exceeded'') 60000))"

definition ensure_pending_oauth_state_capacity :: "server \<Rightarrow> (auth_error + unit) prog" where
  "ensure_pending_oauth_state_capacity sv =
     now_unix (\<lambda>now. attempt (call (CountPending now) as_count) (\<lambda>count.
       if count \<ge> cfg_max_pending_oauth_states (sv_cfg sv)
       then fail (ARateLimited ''too many pending authorization requests'' 5000)
       else done_with ()))"

definition allowed_emails :: "server \<Rightarrow> (auth_error + string list) prog" where
  "allowed_emails sv = attempt (call ListAllowed as_users)
     (\<lambda>rows. done_with (resolve_allowed_emails (sv_cfg sv) rows))"

section \<open>Clients\<close>

definition resolve_client :: "server \<Rightarrow> string \<Rightarrow> (auth_error + registered_client option) prog" where
  "resolve_client sv cid =
     (case metadata_document_url (sv_url_parse sv) cid of
        None \<Rightarrow> call (FindClient cid) as_client
      | Some u \<Rightarrow>
          now_unix (\<lambda>now. cached_client cid now (\<lambda>hit.
          case hit of Some c \<Rightarrow> done_with (Some c) | None \<Rightarrow>
          now_unix (\<lambda>now2. cached_client cid now2 (\<lambda>hit2.
          case hit2 of Some c \<Rightarrow> done_with (Some c) | None \<Rightarrow>
          attempt (fetch_document u) (\<lambda>(document, policy).
          now_unix (\<lambda>created.
          check (validate_document (sv_url_parse sv) (sv_url_to_string sv) cid document
                   (cfg_allowed_client_redirect_uris (sv_cfg sv)) created) (\<lambda>client.
          if cp_cacheable policy
          then now_unix (\<lambda>sweep. now_unix (\<lambda>stored.
                 store_client cid client sweep stored (cp_max_age_secs policy)
                   (done_with (Some client))))
          else done_with (Some client)))))))))"

definition register_client_handler ::
    "server \<Rightarrow> string \<Rightarrow> string list \<Rightarrow> (auth_error + http_reply) prog" where
  "register_client_handler sv ip uris =
     attempt (check_rate_limit RegisterLimiter ip) (\<lambda>_.
     if uris = [] then fail (AValidation ''at least one redirect URI is required'')
     else case find (\<lambda>u. u \<noteq> native_callback_endpoint (sv_cfg sv)
                  \<and> \<not> is_allowed_redirect_uri (sv_url_parse sv) (sv_url_to_string sv) u
                       (cfg_allowed_client_redirect_uris (sv_cfg sv))) uris of
       Some u \<Rightarrow> fail (AValidation (''redirect URI `'' @ u
         @ ''` must target a loopback host, match the native callback endpoint, or match an allowed redirect pattern''))
     | None \<Rightarrow>
         random_token (sv_env sv) 18 (\<lambda>cid. now_unix (\<lambda>now.
         attempt (call (RegisterClient \<lparr>rc_client_id = cid, rc_redirect_uris = uris,
                     rc_created_at = now, rc_token_endpoint_auth_method = ''none'', rc_jwks = None\<rparr>) as_unit)
           (\<lambda>_. done_with (RegisteredReply cid uris ''none'')))))"

section \<open>Browser login and sessions\<close>

definition auth_request_ttl_secs :: int where
  "auth_request_ttl_secs = 300"

definition browser_login :: "server \<Rightarrow> string \<Rightarrow> string option \<Rightarrow> (auth_error + http_reply) prog" where
  "browser_login sv ip return_to =
     attempt (check_rate_limit AuthorizeLimiter ip) (\<lambda>_.
     attempt (ensure_pending_oauth_state_capacity sv) (\<lambda>_.
     random_token (sv_env sv) 32 (\<lambda>verifier.
     random_token (sv_env sv) 24 (\<lambda>request_state.
     now_unix (\<lambda>created. now_unix (\<lambda>now.
     attempt (call (InsertLogin \<lparr>bl_state = request_state,
                 bl_return_to = sanitize_return_to (sv_url_parse sv) (sv_cfg sv) return_to,
                 bl_provider_code_verifier = verifier, bl_created_at = created,
                 bl_expires_at = i64_wrap (now + auth_request_ttl_secs)\<rparr>) as_unit)
       (\<lambda>_. done_with (FoundGoogle \<lparr>ga_state = request_state,
          ga_scope = cfg_default_scope (sv_cfg sv),
          ga_code_challenge = pkce_challenge (sv_env sv) verifier,
          ga_code_challenge_method = ''S256'', ga_offline_access = False,
          ga_force_consent = False\<rparr>))))))))"

definition refresh_ttl_field :: "server \<Rightarrow> string" where
  "refresh_ttl_field sv = ttl_field (sv_cfg sv) ''_AUTH_REFRESH_TOKEN_TTL_SECS''"

definition create_browser_session ::
    "server \<Rightarrow> string \<Rightarrow> string option \<Rightarrow> (auth_error + browser_session_row) prog" where
  "create_browser_session sv subject email =
     now_unix (\<lambda>created.
     random_token (sv_env sv) 24 (\<lambda>sid.
     random_token (sv_env sv) 18 (\<lambda>csrf.
     check (expires_at created (cfg_refresh_token_ttl (sv_cfg sv)) (refresh_ttl_field sv)) (\<lambda>ex.
     let session = \<lparr>bs_session_id = sid, bs_subject = subject, bs_email = email,
                    bs_csrf_token = csrf, bs_created_at = created, bs_expires_at = ex\<rparr>
     in attempt (call (UpsertSession session) as_unit) (\<lambda>_. done_with session)))))"

definition secure_cookie_attr :: "server \<Rightarrow> string" where
  "secure_cookie_attr sv = (if url_scheme (cfg_public_url (sv_cfg sv)) = ''https'' then ''; Secure'' else [])"

definition build_browser_session_cookie :: "server \<Rightarrow> string \<Rightarrow> string" where
  "build_browser_session_cookie sv sid =
     cfg_session_cookie_name (sv_cfg sv) @ ''='' @ sid @ ''; Path=/; HttpOnly; SameSite=Lax; Max-Age=''
     @ show_nat (cfg_refresh_token_ttl (sv_cfg sv)) @ secure_cookie_attr sv"

section \<open>Authorization\<close>

record authorize_query =
  aq_response_type :: string
  aq_client_id :: string
  aq_redirect_uri :: string
  aq_state :: string
  aq_resource :: "string option"
  aq_scope :: string
  aq_code_challenge :: string
  aq_code_challenge_method :: string

definition issuer_pair :: "server \<Rightarrow> (string \<times> string) list" where
  "issuer_pair sv =
     (if cfg_codex_issuer_compatibility (sv_cfg sv) then []
      else [(''iss'', public_base_url (sv_cfg sv))])"

definition authorization_error_redirect ::
    "server \<Rightarrow> authorize_query \<Rightarrow> string \<Rightarrow> auth_error \<Rightarrow> auth_error + http_reply" where
  "authorization_error_redirect sv query code error =
     (case sv_url_parse sv (aq_redirect_uri query) of
        None \<Rightarrow> Inl (AConfig ''validated redirect_uri could not be parsed'')
      | Some _ \<Rightarrow> Inr (SeeOther (aq_redirect_uri query)
          ([(''error'', code), (''error_description'', auth_error_message error), (''state'', aq_state query)]
           @ issuer_pair sv) None))"

text \<open>The part of \<open>authorize\<close> after all checks: the pending request is stored.\<close>

definition authorize_accept ::
    "server \<Rightarrow> authorize_query \<Rightarrow> string \<Rightarrow> string \<Rightarrow> (auth_error + http_reply) prog" where
  "authorize_accept sv query resource scope =
     random_token (sv_env sv) 32 (\<lambda>verifier.
     random_token (sv_env sv) 24 (\<lambda>request_state.
     now_unix (\<lambda>created. now_unix (\<lambda>now.
     attempt (call (InsertRequest \<lparr>ar_state = request_state, ar_client_id = aq_client_id query,
                 ar_redirect_uri = aq_redirect_uri query, ar_client_state = aq_state query,
                 ar_resource = resource, ar_scope = scope, ar_provider_code_verifier = verifier,
                 ar_code_challenge = aq_code_challenge query,
                 ar_code_challenge_method = aq_code_challenge_method query,
                 ar_created_at = created, ar_expires_at = i64_wrap (now + auth_request_ttl_secs)\<rparr>) as_unit)
       (\<lambda>_.
     attempt (allowed_emails sv) (\<lambda>emails.
     attempt (case emails of
                [email] \<Rightarrow> attempt (call (FindGoogle (Some email)) as_google) (\<lambda>cred.
                  done_with (case cred of None \<Rightarrow> False
                    | Some c \<Rightarrow> gc_client_id c = cfg_google_client_id (sv_cfg sv)))
              | _ \<Rightarrow> done_with False)
       (\<lambda>sole_account_has_credential.
     done_with (FoundGoogle \<lparr>ga_state = request_state, ga_scope = scope,
       ga_code_challenge = pkce_challenge (sv_env sv) verifier,
       ga_code_challenge_method = ''S256'', ga_offline_access = True,
       ga_force_consent = (length emails \<noteq> 1 \<or> \<not> sole_account_has_credential)\<rparr>))))))))"

definition authorize :: "server \<Rightarrow> string \<Rightarrow> authorize_query \<Rightarrow> (auth_error + http_reply) prog" where
  "authorize sv ip query =
     attempt (check_rate_limit AuthorizeLimiter ip) (\<lambda>_.
     attempt (ensure_pending_oauth_state_capacity sv) (\<lambda>_.
     attempt (resolve_client sv (aq_client_id query)) (\<lambda>found.
     check (ok_or found (AInvalidGrant ''unknown client_id'')) (\<lambda>client.
     if aq_redirect_uri query \<notin> set (rc_redirect_uris client)
     then fail (AValidation ''redirect_uri does not match the registered client'')
     else
     attempt (if is_metadata_document_client_id (sv_url_parse sv) (aq_client_id query)
              then call (RegisterClient client) as_unit else done_with ()) (\<lambda>_.
     case validate_response_type (aq_response_type query) of
       Inl e \<Rightarrow> Ret (authorization_error_redirect sv query ''unsupported_response_type'' e)
     | Inr _ \<Rightarrow>
     effective_resources (\<lambda>resources.
     case validate_resource (sv_cfg sv) resources (aq_resource query) of
       Inl e \<Rightarrow> Ret (authorization_error_redirect sv query ''invalid_target'' e)
     | Inr resource \<Rightarrow>
     effective_resources (\<lambda>resources2.
     case validate_scope (sv_cfg sv) resources2 resource (aq_scope query) of
       Inl e \<Rightarrow> Ret (authorization_error_redirect sv query ''invalid_scope'' e)
     | Inr scope \<Rightarrow>
         if aq_code_challenge_method query \<noteq> ''S256''
         then Ret (authorization_error_redirect sv query ''invalid_request''
                (AValidation ''code_challenge_method must be S256''))
         else authorize_accept sv query resource scope)))))))"

section \<open>The provider's callback\<close>

definition redirect_with ::
    "server \<Rightarrow> auth_error \<Rightarrow> string \<Rightarrow> (string \<times> string) list \<Rightarrow> auth_error + http_reply" where
  "redirect_with sv unparsable uri pairs =
     (case sv_url_parse sv uri of
        None \<Rightarrow> Inl unparsable
      | Some _ \<Rightarrow> Inr (SeeOther uri (pairs @ issuer_pair sv) None))"

definition unparsable_registered :: auth_error where
  "unparsable_registered = AConfig ''failed to parse registered redirect_uri''"

definition token_lifetime :: "nat option \<Rightarrow> int" where
  "token_lifetime e = (case e of None \<Rightarrow> 3600 | Some n \<Rightarrow> if int n < 2 ^ 63 then int n else 2 ^ 63 - 1)"

definition google_issuer :: string where
  "google_issuer = ''https://accounts.google.com''"

text \<open>Without a configured key nothing is encrypted and no nonce is drawn.\<close>

definition nonce :: "auth_env \<Rightarrow> (string + string \<Rightarrow> 'a prog) \<Rightarrow> 'a prog" where
  "nonce env f = (if enc_key env = None then f (Inl []) else random_bytes 12 f)"

definition upsert_bundle :: "server \<Rightarrow> google_credential_update \<Rightarrow> (auth_error + unit) prog" where
  "upsert_bundle sv u =
     nonce (sv_env sv) (\<lambda>n1. nonce (sv_env sv) (\<lambda>n2. now_unix (\<lambda>now.
       call (UpsertBundle n1 n2 u now) as_unit)))"

text \<open>The first branch of \<open>callback\<close>: a browser login.\<close>

definition callback_login ::
    "server \<Rightarrow> string \<Rightarrow> browser_login_state_row \<Rightarrow> (auth_error + http_reply) prog" where
  "callback_login sv code login =
     attempt (exchange_code code (bl_provider_code_verifier login)) (\<lambda>google.
     attempt (allowed_emails sv) (\<lambda>allowed.
     check (check_email_allowlist (gx_email google) (gx_email_verified google) allowed) (\<lambda>_.
     attempt (create_browser_session sv (gx_subject google) (gx_email google)) (\<lambda>session.
     done_with (SeeOther (bl_return_to login) []
       (Some (build_browser_session_cookie sv (bs_session_id session))))))))"

text \<open>The end of \<open>callback\<close>: the local authorization code.\<close>

definition auth_code_ttl_field :: "server \<Rightarrow> string" where
  "auth_code_ttl_field sv = ttl_field (sv_cfg sv) ''_AUTH_CODE_TTL_SECS''"

definition callback_issue ::
    "server \<Rightarrow> authorization_request_row \<Rightarrow> google_exchange \<Rightarrow> (auth_error + http_reply) prog" where
  "callback_issue sv request google =
     random_token (sv_env sv) 24 (\<lambda>auth_code.
     now_unix (\<lambda>created. now_unix (\<lambda>now.
     check (expires_at now (cfg_auth_code_ttl (sv_cfg sv)) (auth_code_ttl_field sv)) (\<lambda>ex.
     attempt (call (InsertCode \<lparr>ac_code = auth_code, ac_client_id = ar_client_id request,
                 ac_subject = gx_subject google, ac_redirect_uri = ar_redirect_uri request,
                 ac_resource = ar_resource request,
                 ac_scope = elevate_scope_for_allowed_user (ar_scope request)
                              (cfg_default_scope (sv_cfg sv)),
                 ac_code_challenge = ar_code_challenge request,
                 ac_code_challenge_method = ar_code_challenge_method request,
                 ac_provider_refresh_token = None, ac_created_at = created, ac_expires_at = ex\<rparr>) as_unit)
       (\<lambda>_.
     if ar_redirect_uri request = native_callback_endpoint (sv_cfg sv)
     then now_unix (\<lambda>stored.
       check (expires_at stored (cfg_auth_code_ttl (sv_cfg sv)) (auth_code_ttl_field sv)) (\<lambda>ex2.
       attempt (call (InsertNative \<lparr>nr_state = ar_client_state request, nr_code = auth_code,
                   nr_created_at = stored, nr_expires_at = ex2\<rparr>) as_unit) (\<lambda>_.
       done_with NativeSuccessPage)))
     else Ret (redirect_with sv (AStorage ''registered redirect_uri is not a valid URL'')
       (ar_redirect_uri request) [(''code'', auth_code), (''state'', ar_client_state request)]))))))"

definition callback_authorize ::
    "server \<Rightarrow> string \<Rightarrow> authorization_request_row \<Rightarrow> (auth_error + http_reply) prog" where
  "callback_authorize sv code request =
     attempt (exchange_code code (ar_provider_code_verifier request)) (\<lambda>google.
     attempt (allowed_emails sv) (\<lambda>allowed.
     case check_email_allowlist (gx_email google) (gx_email_verified google) allowed of
       Inl denial \<Rightarrow> Ret (redirect_with sv unparsable_registered (ar_redirect_uri request)
         [(''error'', ''access_denied''), (''error_description'', auth_error_message denial),
          (''state'', ar_client_state request)])
     | Inr _ \<Rightarrow>
     check (case gx_email google of
              Some e \<Rightarrow> if trim e \<noteq> [] then Inr (trim e) else Inl (AAuthFailed
                ''google did not return a verified email address after allowlist validation'')
            | None \<Rightarrow> Inl (AAuthFailed
                ''google did not return a verified email address after allowlist validation''))
       (\<lambda>verified_email.
     attempt (call (FindGoogle (Some (gx_subject google))) as_google) (\<lambda>existing.
     let granted = merge_google_scopes (case existing of None \<Rightarrow> [] | Some c \<Rightarrow> gc_granted_scopes c)
                     (gx_granted_scopes google);
         upgraded = (case existing of None \<Rightarrow> True
                     | Some c \<Rightarrow> list_ex (\<lambda>s. s \<notin> set (gc_granted_scopes c)) granted)
     in case (case gx_refresh_token google of
                Some t \<Rightarrow> Some t
              | None \<Rightarrow> (case existing of
                  Some c \<Rightarrow> if gc_client_id c = cfg_google_client_id (sv_cfg sv)
                             then Some (gc_refresh_token c) else None
                | None \<Rightarrow> None)) of
          None \<Rightarrow> Ret (redirect_with sv unparsable_registered (ar_redirect_uri request)
            [(''error'', ''server_error''),
             (''error_description'', ''Google did not issue a reusable offline credential; reconnect and grant access again''),
             (''state'', ar_client_state request)])
        | Some provider_refresh_token \<Rightarrow>
            now_unix (\<lambda>received.
            attempt (upsert_bundle sv \<lparr>gu_subject = gx_subject google, gu_email = Some verified_email,
                gu_client_id = cfg_google_client_id (sv_cfg sv), gu_granted_scopes = granted,
                gu_access_token = gx_access_token google,
                gu_refresh_token = provider_refresh_token, gu_token_received_at = received,
                gu_access_token_expires_at = i64_sat (received + token_lifetime (gx_expires_in google)),
                gu_issuer = Some google_issuer, gu_refreshed = False, gu_scope_upgraded = upgraded\<rparr>)
              (\<lambda>_. callback_issue sv request google))))))"

definition oauth_callback :: "server \<Rightarrow> string \<Rightarrow> string \<Rightarrow> (auth_error + http_reply) prog" where
  "oauth_callback sv st code =
     now_unix (\<lambda>now. attempt (call (TakeLogin st now) as_login) (\<lambda>login.
     case login of
       Some l \<Rightarrow> callback_login sv code l
     | None \<Rightarrow>
         now_unix (\<lambda>now2. bindp (call (TakeRequest st now2) as_request) (\<lambda>taken.
         check (map_err (\<lambda>_. AInvalidGrant ''authorization state is invalid or expired'') taken)
           (callback_authorize sv code)))))"

section \<open>Native apps\<close>

definition native_callback :: "string \<Rightarrow> auth_error + http_reply" where
  "native_callback st =
     (if trim st = [] then Inl (AValidation ''missing `state` parameter'') else Inr NativeGonePage)"

definition native_poll :: "string \<Rightarrow> (auth_error + http_reply) prog" where
  "native_poll st =
     (if trim st = [] then fail (AValidation ''missing `state` parameter'')
      else now_unix (\<lambda>now. attempt (call (TakeNative (trim st) now) as_native)
        (\<lambda>row. done_with (NativePoll (map_option nr_code row)))))"

section \<open>Administration of the allowlist\<close>

record auth_context =
  cx_sub :: string
  cx_actor_key :: "string option"
  cx_scopes :: "string list"
  cx_issuer :: string
  cx_via_session :: bool
  cx_csrf_token :: "string option"
  cx_email :: "string option"

definition max_email_length :: nat where
  "max_email_length = 320"

definition validate_email :: "string \<Rightarrow> tool_error + string" where
  "validate_email raw =
     (let trimmed = trim raw
      in if trimmed = [] then Inl (Sdk ''validation_failed'')
         else if length trimmed > max_email_length then Inl (Sdk ''validation_failed'')
         else if \<not> ws_free trimmed then Inl (Sdk ''validation_failed'')
         else if CHR ''@'' \<notin> set trimmed then Inl (Sdk ''validation_failed'')
         else Inr (to_ascii_lowercase trimmed))"

definition require_admin :: "auth_context \<Rightarrow> string \<Rightarrow> tool_error + unit" where
  "require_admin ctx admin_email =
     (if \<not> cx_via_session ctx then Inl (Sdk ''forbidden'')
      else case cx_email ctx of
        None \<Rightarrow> Inl (Sdk ''forbidden'')
      | Some e \<Rightarrow> if eq_ignore_ascii_case e admin_email then Inr () else Inl (Sdk ''forbidden''))"

definition auth_err :: "auth_error \<Rightarrow> tool_error" where
  "auth_err e = Sdk (auth_error_kind e)"

definition admin_call :: "store_op \<Rightarrow> (store_result \<Rightarrow> 'a option) \<Rightarrow> (tool_error + 'a) prog" where
  "admin_call op f = bindp (call op f) (\<lambda>r. Ret (map_err auth_err r))"

definition list_allowed_emails :: "server \<Rightarrow> auth_context \<Rightarrow> (tool_error + http_reply) prog" where
  "list_allowed_emails sv ctx =
     check (require_admin ctx (cfg_admin_email (sv_cfg sv))) (\<lambda>_.
     attempt (admin_call ListAllowed as_users) (\<lambda>rows. done_with (AllowedUsers rows)))"

definition add_allowed_email :: "server \<Rightarrow> auth_context \<Rightarrow> string \<Rightarrow> (tool_error + http_reply) prog" where
  "add_allowed_email sv ctx raw =
     check (require_admin ctx (cfg_admin_email (sv_cfg sv))) (\<lambda>_.
     check (validate_email raw) (\<lambda>email.
     now_unix (\<lambda>created.
     attempt (admin_call (AddAllowedUser email (cx_sub ctx) created) as_unit) (\<lambda>_.
     done_with (AllowedUserAdded \<lparr>au_email = email, au_added_by = cx_sub ctx, au_created_at = created\<rparr>)))))"

definition delete_allowed_email :: "server \<Rightarrow> auth_context \<Rightarrow> string \<Rightarrow> (tool_error + http_reply) prog" where
  "delete_allowed_email sv ctx raw =
     check (require_admin ctx (cfg_admin_email (sv_cfg sv))) (\<lambda>_.
     attempt (admin_call (RemoveAllowedUser (to_ascii_lowercase (trim raw))) as_unit) (\<lambda>_.
     done_with AllowedUserRemoved))"

end
