(* ===== verification/Auth_Grants.thy ===== *)
theory Auth_Grants
  imports Auth_Authorize
begin

text \<open>
  The token and revocation endpoints (\<open>token.rs\<close>): client authentication, the four grants, the
  rotation of refresh tokens with the refresh of the central Google credential, and revocation.

  The resource registry is asked once per validation, also where the answer is not needed. The
  single-flight lock per Google subject and the locks per fetched document only restrict
  which interleavings occur; the model allows all of them.
\<close>

section \<open>Requests\<close>

record token_request =
  tq_grant_type :: string
  tq_code :: "string option"
  tq_client_id :: "string option"
  tq_resource :: "string option"
  tq_redirect_uri :: "string option"
  tq_code_verifier :: "string option"
  tq_refresh_token :: "string option"
  tq_scope :: "string option"
  tq_client_secret :: "string option"
  tq_client_assertion_type :: "string option"
  tq_client_assertion :: "string option"
  tq_assertion :: "string option"

record revocation_request =
  rq_token :: string
  rq_token_type_hint :: "string option"
  rq_client_id :: "string option"
  rq_client_secret :: "string option"
  rq_client_assertion_type :: "string option"
  rq_client_assertion :: "string option"

section \<open>Client authentication\<close>

definition invalid_client :: auth_error where
  "invalid_client = AAuthFailed ''invalid client credentials''"

definition jwt_bearer :: string where
  "jwt_bearer = ''urn:ietf:params:oauth:client-assertion-type:jwt-bearer''"

definition ensure_allowed_algorithm :: "key_algorithm \<Rightarrow> auth_error + unit" where
  "ensure_allowed_algorithm alg =
     (if alg \<in> {EdDSA, RS256, ES256} then Inr () else Inl invalid_client)"

definition ensure_jwk_algorithm :: "jwk \<Rightarrow> key_algorithm \<Rightarrow> auth_error + unit" where
  "ensure_jwk_algorithm key alg =
     (if (case jwk_key_algorithm key of
            None \<Rightarrow> True
          | Some EdDSA \<Rightarrow> alg = EdDSA
          | Some RS256 \<Rightarrow> alg = RS256
          | Some ES256 \<Rightarrow> alg = ES256
          | _ \<Rightarrow> False)
      then Inr () else Inl invalid_client)"

definition token_audience :: "server \<Rightarrow> string" where
  "token_audience sv = public_base_url (sv_cfg sv) @ ''/token''"

definition basic_client_credentials ::
    "server \<Rightarrow> string option \<Rightarrow> auth_error + (string \<times> string) option" where
  "basic_client_credentials sv authorization =
     (case authorization of
        None \<Rightarrow> Inr None
      | Some raw0 \<Rightarrow>
          and_then (ok_or (header_to_str raw0) invalid_client) (\<lambda>raw.
          and_then (ok_or (split_once (CHR '' '') raw) invalid_client) (\<lambda>(scheme, encoded).
          if \<not> eq_ignore_ascii_case scheme ''basic'' then Inl invalid_client
          else
          and_then (ok_or (Option.bind (sv_b64_standard_decode sv (trim encoded)) from_utf8) invalid_client)
            (\<lambda>decoded.
          and_then (ok_or (split_once (CHR '':'') decoded) invalid_client) (\<lambda>(cid, secret).
          and_then (ok_or (sv_form_value sv cid) invalid_client) (\<lambda>cid'.
          and_then (ok_or (sv_form_value sv secret) invalid_client) (\<lambda>secret'.
          Inr (Some (cid', secret')))))))))"

definition validate_client_assertion ::
    "server \<Rightarrow> string \<Rightarrow> string \<Rightarrow> jwk list \<Rightarrow> (auth_error + unit) prog" where
  "validate_client_assertion sv assertion cid keys =
     check (ok_or (sv_decode_header sv assertion) (AAuthFailed ''invalid client assertion'')) (\<lambda>header.
     check (ensure_allowed_algorithm (jh_alg header)) (\<lambda>_.
     check (ok_or (jh_kid header) (AAuthFailed ''client assertion is missing kid'')) (\<lambda>kid.
     check (ok_or (find_key keys kid) (AAuthFailed ''unknown client assertion key'')) (\<lambda>key.
     check (ensure_jwk_algorithm key (jh_alg header)) (\<lambda>_.
     check (ensure (sv_decoding_key sv key) (AAuthFailed ''invalid client assertion key'')) (\<lambda>_.
     now_unix (\<lambda>clock.
     check (ok_or (sv_decode_assertion sv clock assertion key (jh_alg header) (token_audience sv) cid)
              (AAuthFailed ''invalid client assertion'')) (\<lambda>claims.
     now_unix (\<lambda>now.
     if ca_iss claims \<noteq> cid \<or> ca_sub claims \<noteq> cid \<or> ca_aud claims \<noteq> token_audience sv
        \<or> ca_iat claims > i64_wrap (now + 60) \<or> ca_exp claims \<le> now
     then fail (AAuthFailed ''invalid or replayed client assertion'')
     else
     now_unix (\<lambda>now2.
     attempt (call (ConsumeJti (ca_iss claims) (ca_jti claims) (ca_iat claims) (ca_exp claims) now2) as_bool)
       (\<lambda>fresh. if fresh then done_with ()
                else fail (AAuthFailed ''invalid or replayed client assertion''))))))))))))"

definition authenticate_machine_client ::
    "server \<Rightarrow> machine_client \<Rightarrow> string option \<Rightarrow> string option \<Rightarrow> string option \<Rightarrow>
     (auth_error + unit) prog" where
  "authenticate_machine_client sv client secret assertion_type assertion =
     (case (secret, assertion) of
        (Some supplied, None) \<Rightarrow>
          check (ok_or (mc_client_secret client) invalid_client) (\<lambda>expected.
          if supplied = expected then done_with () else fail invalid_client)
      | (None, Some a) \<Rightarrow>
          if assertion_type \<noteq> Some jwt_bearer then fail invalid_client
          else
          check (ok_or (mc_jwks client) invalid_client) (\<lambda>value.
          check (map_err (\<lambda>e. AConfig (''invalid machine client JWKS: '' @ e)) (sv_parse_jwks sv value))
            (\<lambda>keys. validate_client_assertion sv a (mc_client_id client) keys))
      | _ \<Rightarrow> fail invalid_client)"

definition find_machine_client :: "server \<Rightarrow> string \<Rightarrow> machine_client option" where
  "find_machine_client sv cid = find (\<lambda>c. mc_client_id c = cid) (cfg_machine_clients (sv_cfg sv))"

definition authenticate_oauth_client ::
    "server \<Rightarrow> string \<Rightarrow> string option \<Rightarrow> string option \<Rightarrow> string option \<Rightarrow> (auth_error + unit) prog" where
  "authenticate_oauth_client sv cid secret assertion_type assertion =
     (case find_machine_client sv cid of
        Some mc \<Rightarrow> authenticate_machine_client sv mc secret assertion_type assertion
      | None \<Rightarrow>
          attempt (resolve_client sv cid) (\<lambda>found.
          check (ok_or found invalid_client) (\<lambda>client.
          if rc_token_endpoint_auth_method client = ''none'' \<and> secret = None \<and> assertion = None
          then done_with ()
          else if rc_token_endpoint_auth_method client = ''private_key_jwt'' \<and> secret = None
                  \<and> assertion_type = Some jwt_bearer
          then check (ok_or (rc_jwks client) invalid_client) (\<lambda>value.
               check (map_err (\<lambda>_. invalid_client) (sv_parse_jwks sv value)) (\<lambda>keys.
               check (ok_or assertion invalid_client) (\<lambda>a.
               validate_client_assertion sv a cid keys)))
          else fail invalid_client)))"

section \<open>Access tokens\<close>

definition build_token_response ::
    "server \<Rightarrow> string \<Rightarrow> string \<Rightarrow> string \<Rightarrow> string \<Rightarrow> string option \<Rightarrow>
     (auth_error + token_response) prog" where
  "build_token_response sv cid subject resource scope refresh =
     now_unix (\<lambda>t.
     check (ensure (0 \<le> t) (AStorage ''current unix timestamp is negative or exceeds usize range'')) (\<lambda>_.
     check (ensure (nat t + cfg_access_token_ttl (sv_cfg sv) < 2 ^ 64)
              (AConfig (ttl_field (sv_cfg sv) ''_AUTH_ACCESS_TOKEN_TTL_SECS exceeds supported range''))) (\<lambda>_.
     random_token (sv_env sv) 18 (\<lambda>jti.
     check (map_err (\<lambda>e. AStorage (''encode access token: '' @ e))
              (sv_sign sv \<lparr>ac_iss = public_base_url (sv_cfg sv), ac_sub = subject, ac_aud = resource,
                 ac_exp = nat t + cfg_access_token_ttl (sv_cfg sv), ac_nbf = None, ac_iat = nat t,
                 ac_jti = jti, ac_token_scope = scope, ac_azp = cid\<rparr>)) (\<lambda>access_token.
     done_with \<lparr>tr_access_token = access_token, tr_token_type = ''Bearer'',
       tr_expires_in = cfg_access_token_ttl (sv_cfg sv), tr_refresh_token = refresh,
       tr_scope = scope\<rparr>)))))"

section \<open>The authorization code grant\<close>

definition requested_resource :: "token_request \<Rightarrow> string option" where
  "requested_resource q =
     (case tq_resource q of
        None \<Rightarrow> None
      | Some r \<Rightarrow> if trim r = [] then None else Some (trim_end_slashes (trim r)))"

text \<open>An empty stored resource stands for the canonical one.\<close>

definition effective_resource :: "server \<Rightarrow> string \<Rightarrow> string" where
  "effective_resource sv r = (if trim r = [] then canonical_resource_url (sv_cfg sv) else r)"

definition unavailable :: auth_error where
  "unavailable = AOauthNeedsReauth
     ''google provider credential is unavailable; reauthorization required''"

text \<open>After the code was redeemed: its checks and the new refresh token.\<close>

definition issue_for_code ::
    "server \<Rightarrow> token_request \<Rightarrow> string \<Rightarrow> string \<Rightarrow> string \<Rightarrow> authorization_code_row \<Rightarrow>
     (auth_error + token_response) prog" where
  "issue_for_code sv q cid redirect_uri verifier row =
     check (validate_authorization_code_row (sv_env sv) row cid redirect_uri verifier) (\<lambda>_.
     if (case requested_resource q of None \<Rightarrow> False | Some r \<Rightarrow> r \<noteq> ac_resource row)
     then fail (AInvalidGrant ''resource does not match the authorization code'')
     else
     attempt (call (HasGoogleSubject (ac_subject row)) as_bool) (\<lambda>has.
     if \<not> has then fail unavailable
     else
     random_token (sv_env sv) 24 (\<lambda>refresh.
     now_unix (\<lambda>created.
     check (expires_at created (cfg_refresh_token_ttl (sv_cfg sv)) (refresh_ttl_field sv)) (\<lambda>ex.
     attempt (call (UpsertRefresh (Inl []) \<lparr>rt_refresh_token = refresh, rt_client_id = ac_client_id row,
                 rt_subject = ac_subject row, rt_resource = ac_resource row, rt_scope = ac_scope row,
                 rt_provider_refresh_token = None, rt_created_at = created, rt_expires_at = ex\<rparr>) as_unit)
       (\<lambda>_. build_token_response sv (ac_client_id row) (ac_subject row)
              (effective_resource sv (ac_resource row)) (ac_scope row) (Some refresh)))))))"

definition authorization_code_grant ::
    "server \<Rightarrow> token_request \<Rightarrow> (auth_error + token_response) prog" where
  "authorization_code_grant sv q =
     effective_resources (\<lambda>resources.
     check (validate_resource (sv_cfg sv) resources (tq_resource q)) (\<lambda>_.
     check (require_field (tq_code q) ''code'') (\<lambda>code.
     check (require_field (tq_client_id q) ''client_id'') (\<lambda>cid.
     check (require_field (tq_redirect_uri q) ''redirect_uri'') (\<lambda>redirect_uri.
     check (require_field (tq_code_verifier q) ''code_verifier'') (\<lambda>verifier.
     attempt (authenticate_oauth_client sv cid (tq_client_secret q) (tq_client_assertion_type q)
                (tq_client_assertion q)) (\<lambda>_.
     now_unix (\<lambda>now.
     attempt (call (RedeemCode code now) as_code) (\<lambda>row.
     issue_for_code sv q cid redirect_uri verifier row)))))))))"

section \<open>The refresh token grant\<close>

text \<open>
  The loop over at most two attempts; \<open>n\<close> is the number left. \<open>attempt == 1\<close> is the last one.
\<close>

primrec refresh_rounds ::
    "nat \<Rightarrow> server \<Rightarrow> string \<Rightarrow> google_credential_row \<Rightarrow> (auth_error + google_exchange) prog" where
  "refresh_rounds 0 sv subject cred = fail (AOauthNeedsReauth
     ''google provider credential could not be refreshed; reauthorization required'')"
| "refresh_rounds (Suc n) sv subject cred =
     bindp (google_refresh (gc_refresh_token cred) (gc_subject cred) (gc_email cred)) (\<lambda>answer.
     case answer of
       Inr google \<Rightarrow>
         if gx_subject google \<noteq> subject
         then attempt (call (InvalidateGoogle subject (gc_generation cred)) as_invalidation) (\<lambda>_.
              fail (AAuthFailed ''google refresh returned a different account subject''))
         else
         now_unix (\<lambda>received.
         attempt (upsert_bundle sv \<lparr>gu_subject = gx_subject google, gu_email = gx_email google,
             gu_client_id = cfg_google_client_id (sv_cfg sv),
             gu_granted_scopes = merge_google_scopes (gc_granted_scopes cred) (gx_granted_scopes google),
             gu_access_token = gx_access_token google,
             gu_refresh_token = (case gx_refresh_token google of Some t \<Rightarrow> t | None \<Rightarrow> gc_refresh_token cred),
             gu_token_received_at = received,
             gu_access_token_expires_at = i64_sat (received + token_lifetime (gx_expires_in google)),
             gu_issuer = Some google_issuer, gu_refreshed = True, gu_scope_upgraded = False\<rparr>)
           (\<lambda>_. done_with google))
     | Inl e \<Rightarrow>
         (case e of
            AOauthNeedsReauth message \<Rightarrow>
              attempt (call (InvalidateGoogle subject (gc_generation cred)) as_invalidation) (\<lambda>iv.
              if gi_invalidated iv then fail (AOauthNeedsReauth message)
              else if n = 0 then fail (AOauthNeedsReauth message)
              else
              attempt (call (FindGoogle (Some subject)) as_google) (\<lambda>again.
              check (ok_or again (AOauthNeedsReauth message)) (\<lambda>replacement.
              refresh_rounds n sv subject replacement)))
          | _ \<Rightarrow> fail e))"

definition refresh_google_provider_credential ::
    "server \<Rightarrow> string \<Rightarrow> (auth_error + google_exchange) prog" where
  "refresh_google_provider_credential sv subject =
     attempt (call (FindGoogle (Some subject)) as_google) (\<lambda>found.
     check (ok_or found unavailable) (\<lambda>cred. refresh_rounds 2 sv subject cred))"

definition complete_claimed_refresh ::
    "server \<Rightarrow> string \<Rightarrow> string \<Rightarrow> string \<Rightarrow> string option \<Rightarrow> refresh_token_row \<Rightarrow>
     (auth_error + token_response) prog" where
  "complete_claimed_refresh sv cid refresh claim requested stored =
     (if rt_client_id stored \<noteq> cid
      then fail (AInvalidGrant ''client_id does not match the refresh token'')
      else
        let resource = effective_resource sv (rt_resource stored)
        in if (case requested of None \<Rightarrow> False | Some r \<Rightarrow> r \<noteq> resource)
           then fail (AInvalidGrant ''resource does not match the refresh token'')
           else
           attempt (refresh_google_provider_credential sv (rt_subject stored)) (\<lambda>google.
           now_unix (\<lambda>now.
           check (expires_at now (cfg_refresh_token_ttl (sv_cfg sv)) (refresh_ttl_field sv)) (\<lambda>ex.
           let scope = elevate_scope_for_allowed_user (rt_scope stored) (cfg_default_scope (sv_cfg sv))
           in
           random_token (sv_env sv) 24 (\<lambda>replacement.
           attempt (build_token_response sv (rt_client_id stored) (gx_subject google) resource scope
                      (Some replacement)) (\<lambda>response.
           now_unix (\<lambda>now2.
           attempt (call (RotateClaimed (Inl []) refresh claim
                \<lparr>rt_refresh_token = replacement, rt_client_id = rt_client_id stored,
                 rt_subject = gx_subject google, rt_resource = resource, rt_scope = scope,
                 rt_provider_refresh_token = None, rt_created_at = now, rt_expires_at = ex\<rparr> now2) as_refresh)
             (\<lambda>rotated.
           check (ok_or rotated (AInvalidGrant ''refresh token was already used'')) (\<lambda>_.
           done_with response)))))))))"

definition refresh_token_grant :: "server \<Rightarrow> token_request \<Rightarrow> (auth_error + token_response) prog" where
  "refresh_token_grant sv q =
     effective_resources (\<lambda>resources.
     check (case requested_resource q of
              None \<Rightarrow> Inr None
            | Some _ \<Rightarrow> map_sum id Some (validate_resource (sv_cfg sv) resources
                (map_option trim (tq_resource q)))) (\<lambda>requested.
     check (require_field (tq_client_id q) ''client_id'') (\<lambda>cid.
     check (require_field (tq_refresh_token q) ''refresh_token'') (\<lambda>refresh.
     attempt (authenticate_oauth_client sv cid (tq_client_secret q) (tq_client_assertion_type q)
                (tq_client_assertion q)) (\<lambda>_.
     random_token (sv_env sv) 18 (\<lambda>claim.
     now_unix (\<lambda>t. now_unix (\<lambda>now.
     attempt (call (ClaimRefresh refresh claim (i64_sat (t + 30)) now) as_refresh) (\<lambda>claimed.
     check (ok_or claimed (AInvalidGrant ''unknown refresh_token'')) (\<lambda>stored.
     bindp (complete_claimed_refresh sv cid refresh claim requested stored) (\<lambda>result.
     case result of
       Inr response \<Rightarrow> done_with response
     | Inl e \<Rightarrow> attempt (call (ReleaseClaim refresh claim) as_unit) (\<lambda>_. fail e))))))))))))"

section \<open>Machine clients and enterprise assertions\<close>

definition client_credentials_grant ::
    "server \<Rightarrow> token_request \<Rightarrow> (auth_error + token_response) prog" where
  "client_credentials_grant sv q =
     check (require_field (tq_client_id q) ''client_id'') (\<lambda>cid.
     check (ok_or (find_machine_client sv cid) invalid_client) (\<lambda>client.
     attempt (authenticate_machine_client sv client (tq_client_secret q) (tq_client_assertion_type q)
                (tq_client_assertion q)) (\<lambda>_.
     effective_resources (\<lambda>resources.
     check (map_err as_invalid_scope (validate_resource (sv_cfg sv) resources (tq_resource q)))
       (\<lambda>resource.
     if \<not> list_ex (\<lambda>r. trim_end_slashes r = resource) (mc_resources client)
     then fail (AInvalidScope ''requested resource exceeds machine client grant'')
     else
     let asked = (case tq_scope q of Some s \<Rightarrow> s
           | None \<Rightarrow> if mc_scopes client = [] then cfg_default_scope (sv_cfg sv) else []);
         wanted = (if asked = [] then join '' '' (mc_scopes client) else asked)
     in
     effective_resources (\<lambda>resources2.
     check (validate_token_scope (sv_cfg sv) resources2 resource wanted) (\<lambda>scope.
     if mc_scopes client \<noteq> [] \<and> \<not> list_all (\<lambda>s. s \<in> set (mc_scopes client)) (split_whitespace scope)
     then fail (AInvalidScope ''requested scope exceeds machine client grant'')
     else build_token_response sv cid cid resource scope None)))))))"

definition find_enterprise_issuer :: "server \<Rightarrow> string \<Rightarrow> enterprise_issuer option" where
  "find_enterprise_issuer sv iss =
     find (\<lambda>i. trim_end_slashes (ei_issuer i) = trim_end_slashes iss)
       (cfg_enterprise_issuers (sv_cfg sv))"

definition load_enterprise_jwks ::
    "server \<Rightarrow> enterprise_issuer \<Rightarrow> string \<Rightarrow> (auth_error + jwk list) prog" where
  "load_enterprise_jwks sv issuer kid =
     (case ei_jwks issuer of
        Some value \<Rightarrow> Ret (map_err (\<lambda>e. AConfig (''invalid enterprise JWKS: '' @ e)) (sv_parse_jwks sv value))
      | None \<Rightarrow>
          check (ok_or (ei_jwks_uri issuer) (AConfig ''enterprise issuer has no JWKS'')) (\<lambda>uri.
          check (map_err (\<lambda>e. AConfig (sv_show_ssrf sv e))
                   (parse_validated_https_url (sv_url_parse sv) uri)) (\<lambda>u.
          now_unix (\<lambda>now. cached_keys uri kid now (\<lambda>hit.
          case hit of Some keys \<Rightarrow> done_with keys | None \<Rightarrow>
          now_unix (\<lambda>now2. cached_keys uri kid now2 (\<lambda>hit2.
          case hit2 of Some keys \<Rightarrow> done_with keys | None \<Rightarrow>
          attempt (fetch_keys u) (\<lambda>(keys, policy).
          if cp_cacheable policy
          then now_unix (\<lambda>sweep. now_unix (\<lambda>stored.
                 store_keys uri keys sweep stored (cp_max_age_secs policy) (done_with keys)))
          else done_with keys))))))))"

definition enterprise_managed_grant ::
    "server \<Rightarrow> token_request \<Rightarrow> (auth_error + token_response) prog" where
  "enterprise_managed_grant sv q =
     check (require_field (tq_assertion q) ''assertion'') (\<lambda>assertion.
     check (ok_or (sv_decode_header sv assertion) (AInvalidGrant ''invalid ID-JAG header'')) (\<lambda>header.
     check (map_err (\<lambda>_. AInvalidGrant ''unsupported ID-JAG algorithm'')
              (ensure_allowed_algorithm (jh_alg header))) (\<lambda>_.
     check (ensure (jh_typ header = Some ''oauth-id-jag+jwt'')
              (AInvalidGrant ''ID-JAG typ must be oauth-id-jag+jwt'')) (\<lambda>_.
     check (ok_or (jh_kid header) (AInvalidGrant ''ID-JAG is missing kid'')) (\<lambda>kid.
     check (ok_or (sv_unverified_id_jag sv assertion) (AInvalidGrant ''invalid ID-JAG'')) (\<lambda>unverified.
     check (ok_or (find_enterprise_issuer sv (ca_iss unverified))
              (AInvalidGrant ''untrusted ID-JAG issuer'')) (\<lambda>issuer.
     attempt (load_enterprise_jwks sv issuer kid) (\<lambda>keys.
     check (ok_or (find_key keys kid) (AInvalidGrant ''unknown ID-JAG signing key'')) (\<lambda>key.
     check (map_err (\<lambda>_. AInvalidGrant ''ID-JAG key algorithm mismatch'')
              (ensure_jwk_algorithm key (jh_alg header))) (\<lambda>_.
     check (ensure (sv_decoding_key sv key) (AInvalidGrant ''invalid ID-JAG signing key'')) (\<lambda>_.
     now_unix (\<lambda>clock.
     check (ok_or (sv_decode_id_jag sv clock assertion key (jh_alg header)
                     (public_base_url (sv_cfg sv)) (ei_issuer issuer))
              (AInvalidGrant ''invalid ID-JAG'')) (\<lambda>claims.
     now_unix (\<lambda>now.
     if trim_end_slashes (ca_aud claims) \<noteq> trim_end_slashes (public_base_url (sv_cfg sv))
        \<or> ca_iat claims > i64_wrap (now + 60) \<or> ca_exp claims \<le> now
     then fail (AInvalidGrant ''expired, replayed, or misdirected ID-JAG'')
     else
     check (require_field (tq_client_id q) ''client_id'') (\<lambda>cid.
     if ij_client_id claims \<noteq> cid
        \<or> (ei_allowed_client_ids issuer \<noteq> [] \<and> cid \<notin> set (ei_allowed_client_ids issuer))
     then fail (AInvalidGrant ''ID-JAG client_id is not authorized'')
     else
     attempt (authenticate_oauth_client sv cid (tq_client_secret q) (tq_client_assertion_type q)
                (tq_client_assertion q)) (\<lambda>_.
     now_unix (\<lambda>now2.
     attempt (call (ConsumeJti (ca_iss claims) (ca_jti claims) (ca_iat claims) (ca_exp claims) now2) as_bool)
       (\<lambda>fresh.
     if \<not> fresh then fail (AInvalidGrant ''expired, replayed, or misdirected ID-JAG'')
     else
     effective_resources (\<lambda>resources.
     check (validate_resource (sv_cfg sv) resources (Some (ij_resource claims))) (\<lambda>resource.
     if (case tq_resource q of None \<Rightarrow> False | Some r \<Rightarrow> trim_end_slashes r \<noteq> resource)
     then fail (AInvalidGrant ''requested resource does not match ID-JAG'')
     else
     effective_resources (\<lambda>resources2.
     check (validate_token_scope (sv_cfg sv) resources2 resource (ij_scope claims)) (\<lambda>scope.
     case tq_scope q of
       None \<Rightarrow> build_token_response sv cid (ca_sub claims) resource scope None
     | Some s \<Rightarrow>
         effective_resources (\<lambda>resources3.
         check (validate_token_scope (sv_cfg sv) resources3 resource s) (\<lambda>requested.
         if \<not> list_all (\<lambda>v. v \<in> set (split_whitespace scope)) (split_whitespace requested)
         then fail (AInvalidScope ''requested scope exceeds ID-JAG grant'')
         else build_token_response sv cid (ca_sub claims) resource requested None))))))))))))))))))))))))"

section \<open>The endpoints\<close>

definition with_basic ::
    "server \<Rightarrow> string option \<Rightarrow> token_request \<Rightarrow> auth_error + token_request" where
  "with_basic sv authorization q =
     and_then (basic_client_credentials sv authorization) (\<lambda>creds.
     case creds of
       None \<Rightarrow> Inr q
     | Some (cid, secret) \<Rightarrow>
         if tq_client_id q \<noteq> None \<or> tq_client_secret q \<noteq> None \<or> tq_client_assertion q \<noteq> None
         then Inl invalid_client
         else Inr (q\<lparr>tq_client_id := Some cid, tq_client_secret := Some secret\<rparr>))"

definition infer_client_id :: "server \<Rightarrow> token_request \<Rightarrow> token_request" where
  "infer_client_id sv q =
     (case (tq_client_id q, tq_client_assertion q) of
        (None, Some a) \<Rightarrow>
          (case sv_unverified_assertion sv a of
             Some claims \<Rightarrow> q\<lparr>tq_client_id := Some (ca_sub claims)\<rparr> | None \<Rightarrow> q)
      | _ \<Rightarrow> q)"

definition as_token_error :: "(auth_error + 'a) prog \<Rightarrow> (token_endpoint_error + 'a) prog" where
  "as_token_error p = bindp p (\<lambda>r. Ret (map_err TAuth r))"

definition grant :: "server \<Rightarrow> token_request \<Rightarrow> (token_endpoint_error + token_response) prog" where
  "grant sv q =
     (if tq_grant_type q = ''authorization_code'' then as_token_error (authorization_code_grant sv q)
      else if tq_grant_type q = ''refresh_token'' then as_token_error (refresh_token_grant sv q)
      else if tq_grant_type q = ''client_credentials'' then as_token_error (client_credentials_grant sv q)
      else if tq_grant_type q = ''urn:ietf:params:oauth:grant-type:jwt-bearer''
      then as_token_error (enterprise_managed_grant sv q)
      else fail (TUnsupportedGrantType (tq_grant_type q)))"

definition token_endpoint ::
    "server \<Rightarrow> string \<Rightarrow> string option \<Rightarrow> token_request \<Rightarrow> (token_endpoint_error + token_response) prog" where
  "token_endpoint sv ip authorization q =
     attempt (as_token_error (check_rate_limit TokenLimiter ip)) (\<lambda>_.
     check (map_err TAuth (with_basic sv authorization q)) (\<lambda>q'.
     grant sv (infer_client_id sv q')))"

definition revoke_credentials ::
    "server \<Rightarrow> string option \<Rightarrow> revocation_request \<Rightarrow> auth_error + revocation_request" where
  "revoke_credentials sv authorization q =
     and_then (basic_client_credentials sv authorization) (\<lambda>creds.
     case creds of
       None \<Rightarrow> Inr q
     | Some (cid, secret) \<Rightarrow>
         if rq_client_id q \<noteq> None \<or> rq_client_secret q \<noteq> None \<or> rq_client_assertion q \<noteq> None
         then Inl invalid_client
         else Inr (q\<lparr>rq_client_id := Some cid, rq_client_secret := Some secret\<rparr>))"

definition revoke_endpoint ::
    "server \<Rightarrow> string \<Rightarrow> string option \<Rightarrow> revocation_request \<Rightarrow> (token_endpoint_error + unit) prog" where
  "revoke_endpoint sv ip authorization q0 =
     as_token_error (
     attempt (check_rate_limit TokenLimiter ip) (\<lambda>_.
     check (revoke_credentials sv authorization q0) (\<lambda>q.
     now_unix (\<lambda>now.
     attempt (call (FindRefresh (rq_token q) now) as_refresh) (\<lambda>found.
     case found of
       None \<Rightarrow> done_with ()
     | Some row \<Rightarrow>
         check (ok_or (rq_client_id q) invalid_client) (\<lambda>cid.
         if cid \<noteq> rt_client_id row then fail invalid_client
         else
         attempt (authenticate_oauth_client sv cid (rq_client_secret q) (rq_client_assertion_type q)
                    (rq_client_assertion q)) (\<lambda>_.
         call (RevokeRefresh (rq_token q)) as_unit)))))))"

end
