(* ===== verification/Auth_Middleware.thy ===== *)
theory Auth_Middleware
  imports Auth_Authorize
begin

text \<open>
  Authentication of requests to the gateway itself: the tower layer of \<open>middleware.rs\<close>, which
  guards the web API, the older function of \<open>api/router.rs\<close>, which still guards the MCP endpoint,
  the check of protected MCP routes, and the session routes of \<open>api/browser_session.rs\<close>. Each
  ends with the authentication context the request is forwarded with, or with a rejection.
\<close>

section \<open>Requests and rejections\<close>

text \<open>Header names are lower case; \<open>get\<close> returns the first value.\<close>

record http_request =
  hr_method :: string
  hr_path_and_query :: "string option"
  hr_headers :: "(string \<times> string) list"

definition header_str :: "http_request \<Rightarrow> string \<Rightarrow> string option" where
  "header_str req name = Option.bind (map_of (hr_headers req) name) header_to_str"

datatype auth_rejection =
    AuthRequired string "string option"
  | InsufficientScope "string option"
  | InvalidCsrf
  | LoginRedirect string

definition tokens_equal :: "string \<Rightarrow> string \<Rightarrow> bool" where
  "tokens_equal a b = (a = b)"

definition parse_bearer_token :: "string \<Rightarrow> string option" where
  "parse_bearer_token value =
     (case split_whitespace value of
        [scheme, token] \<Rightarrow> if eq_ignore_ascii_case scheme ''bearer'' then Some token else None
      | _ \<Rightarrow> None)"

definition bearer_token :: "http_request \<Rightarrow> string option" where
  "bearer_token req = Option.bind (header_str req ''authorization'') parse_bearer_token"

definition cookie_value :: "string \<Rightarrow> string \<Rightarrow> string option" where
  "cookie_value name cookie =
     (case split_once (CHR ''='') cookie of
        None \<Rightarrow> None
      | Some (key, v) \<Rightarrow> if trim key = name then Some (trim v) else None)"

definition read_cookie :: "http_request \<Rightarrow> string \<Rightarrow> string option" where
  "read_cookie req name =
     Option.bind (header_str req ''cookie'') (\<lambda>raw.
       case List.map_filter (cookie_value name) (map trim (split_char (CHR '';'') raw)) of
         [] \<Rightarrow> None | v # _ \<Rightarrow> Some v)"

definition csrf_header :: string where
  "csrf_header = ''x-csrf-token''"

definition is_safe_method :: "string \<Rightarrow> bool" where
  "is_safe_method m = (m = ''GET'' \<or> m = ''HEAD'' \<or> m = ''OPTIONS'')"

text \<open>The check of state-changing requests that come with a session cookie.\<close>

definition csrf_ok :: "http_request \<Rightarrow> browser_session_row \<Rightarrow> bool" where
  "csrf_ok req session =
     (is_safe_method (hr_method req) \<or> header_str req csrf_header = Some (bs_csrf_token session))"

definition hex_upper :: "nat \<Rightarrow> char" where
  "hex_upper d = (if d < 10 then char_of (48 + d) else char_of (55 + d))"

definition percent_encode_path :: "string \<Rightarrow> string" where
  "percent_encode_path s =
     concat (map (\<lambda>c. if is_ascii_alphanumeric c \<or> c \<in> {CHR ''-'', CHR ''_'', CHR ''.'', CHR ''~'', CHR ''/''}
       then [c] else [CHR ''%'', hex_upper (byte c div 16), hex_upper (byte c mod 16)]) s)"

definition wants_html :: "http_request \<Rightarrow> bool" where
  "wants_html req =
     (hr_method req = ''GET''
      \<and> (case header_str req ''accept'' of None \<Rightarrow> False | Some a \<Rightarrow> str_contains a ''text/html''))"

definition login_redirect :: "string \<Rightarrow> http_request \<Rightarrow> auth_rejection" where
  "login_redirect login_path req =
     LoginRedirect (login_path @ ''?return_to=''
       @ percent_encode_path (case hr_path_and_query req of None \<Rightarrow> ''/'' | Some pq \<Rightarrow> pq))"

section \<open>The layer\<close>

record auth_layer =
  al_static_token :: "string option"
  al_auth_state :: "server option"
  al_actor_key :: "string \<Rightarrow> string option"
  al_resource_url :: "string option"
  al_metadata_url :: "string option"
  al_required_scopes :: "string list"
  al_allow_session_cookie :: bool
  al_static_token_scopes :: "string list"
  al_login_path :: string
  al_session_cookie_name :: string

definition quoted :: "string \<Rightarrow> string" where
  "quoted s = [CHR 0x22] @ s @ [CHR 0x22]"

definition www_authenticate_value :: "string \<Rightarrow> string" where
  "www_authenticate_value url =
     ''Bearer resource_metadata='' @ quoted (trim_end_slashes url @ ''/.well-known/oauth-protected-resource'')"

definition challenge_scopes :: "auth_layer \<Rightarrow> string list" where
  "challenge_scopes layer =
     (if al_required_scopes layer \<noteq> [] then al_required_scopes layer
      else case al_auth_state layer of
        None \<Rightarrow> al_static_token_scopes layer
      | Some sv \<Rightarrow> cfg_scopes_supported (sv_cfg sv))"

definition auth_error_response :: "string \<Rightarrow> auth_layer \<Rightarrow> auth_rejection" where
  "auth_error_response message layer =
     AuthRequired message
       (Option.bind
          (case al_metadata_url layer of
             Some url \<Rightarrow> Some (''Bearer resource_metadata='' @ quoted url)
           | None \<Rightarrow> map_option www_authenticate_value (al_resource_url layer))
          (\<lambda>challenge. header_to_str (challenge @ '', scope='' @ quoted (join '' '' (challenge_scopes layer)))))"

definition insufficient_scope_response :: "auth_layer \<Rightarrow> string list \<Rightarrow> auth_rejection option" where
  "insufficient_scope_response layer granted =
     (if list_all (\<lambda>s. s \<in> set granted) (al_required_scopes layer) then None
      else Some (InsufficientScope
        (Option.bind
          (case al_metadata_url layer of
             Some url \<Rightarrow> Some url
           | None \<Rightarrow> map_option (\<lambda>r. trim_end_slashes r @ ''/.well-known/oauth-protected-resource'')
                       (al_resource_url layer))
          (\<lambda>url. header_to_str (''Bearer error='' @ quoted ''insufficient_scope'' @ '', scope=''
             @ quoted (join '' '' (al_required_scopes layer)) @ '', resource_metadata='' @ quoted url)))))"

definition granted :: "auth_layer \<Rightarrow> auth_context \<Rightarrow> (auth_rejection + auth_context) prog" where
  "granted layer ctx =
     (case insufficient_scope_response layer (cx_scopes ctx) of
        Some r \<Rightarrow> fail r | None \<Rightarrow> done_with ctx)"

definition static_context :: "(string \<Rightarrow> string option) \<Rightarrow> string list \<Rightarrow> auth_context" where
  "static_context actor_key scopes =
     \<lparr>cx_sub = ''static-bearer'', cx_actor_key = actor_key ''static-bearer'', cx_scopes = scopes,
      cx_issuer = ''local'', cx_via_session = False, cx_csrf_token = None, cx_email = None\<rparr>"

definition token_context :: "(string \<Rightarrow> string option) \<Rightarrow> access_claims \<Rightarrow> auth_context" where
  "token_context actor_key claims =
     \<lparr>cx_sub = ac_sub claims, cx_actor_key = actor_key (ac_sub claims),
      cx_scopes = split_whitespace (ac_token_scope claims), cx_issuer = ac_iss claims,
      cx_via_session = False, cx_csrf_token = None, cx_email = None\<rparr>"

definition session_context ::
    "(string \<Rightarrow> string option) \<Rightarrow> string list \<Rightarrow> browser_session_row \<Rightarrow> auth_context" where
  "session_context actor_key scopes s =
     \<lparr>cx_sub = bs_subject s, cx_actor_key = actor_key (bs_subject s), cx_scopes = scopes,
      cx_issuer = ''browser-session'', cx_via_session = True, cx_csrf_token = Some (bs_csrf_token s),
      cx_email = bs_email s\<rparr>"

text \<open>A server is only made in OAuth mode (\<open>AuthState::new\<close>), so the mode needs no test.\<close>

definition static_token_blocked :: "auth_layer \<Rightarrow> bool" where
  "static_token_blocked layer =
     (case al_auth_state layer of
        None \<Rightarrow> False | Some sv \<Rightarrow> cfg_disable_static_token_with_oauth (sv_cfg sv))"

definition bearer_path :: "auth_layer \<Rightarrow> string \<Rightarrow> (auth_rejection + auth_context) prog" where
  "bearer_path layer token =
     (if \<not> static_token_blocked layer
         \<and> (case al_static_token layer of None \<Rightarrow> False | Some expected \<Rightarrow> tokens_equal token expected)
      then granted layer (static_context (al_actor_key layer) (al_static_token_scopes layer))
      else case al_auth_state layer of
        None \<Rightarrow> fail (auth_error_response ''invalid bearer token'' layer)
      | Some sv \<Rightarrow>
          now_unix (\<lambda>clock.
          case sv_verify sv clock token
                 (case al_resource_url layer of
                    Some url \<Rightarrow> url | None \<Rightarrow> canonical_resource_url (sv_cfg sv))
                 (public_base_url (sv_cfg sv)) of
            Some claims \<Rightarrow> granted layer (token_context (al_actor_key layer) claims)
          | None \<Rightarrow> fail (auth_error_response ''invalid bearer token'' layer)))"

text \<open>The end of \<open>authenticate\<close>: a browser is sent to the login, anyone else is refused.\<close>

definition unauthenticated :: "auth_layer \<Rightarrow> http_request \<Rightarrow> (auth_rejection + auth_context) prog" where
  "unauthenticated layer req =
     (if al_allow_session_cookie layer \<and> al_auth_state layer \<noteq> None \<and> wants_html req
      then fail (login_redirect (al_login_path layer) req)
      else fail (auth_error_response
        (if al_allow_session_cookie layer then ''missing bearer token or session cookie''
         else ''missing bearer token'') layer))"

definition authenticate :: "auth_layer \<Rightarrow> http_request \<Rightarrow> (auth_rejection + auth_context) prog" where
  "authenticate layer req =
     (case bearer_token req of
        Some token \<Rightarrow> bearer_path layer token
      | None \<Rightarrow>
          (case (if al_allow_session_cookie layer \<and> al_auth_state layer \<noteq> None
                 then read_cookie req (al_session_cookie_name layer) else None) of
             Some sid \<Rightarrow>
               now_unix (\<lambda>now. bindp (call (FindSession sid now) as_session) (\<lambda>found.
               case found of
                 Inr (Some session) \<Rightarrow>
                   if \<not> csrf_ok req session then fail InvalidCsrf
                   else granted layer
                     (session_context (al_actor_key layer) (al_static_token_scopes layer) session)
               | _ \<Rightarrow> unauthenticated layer req))
           | None \<Rightarrow> unauthenticated layer req))"

text \<open>The layer of the web API and of the MCP transport, as \<open>build_router\<close> makes it.\<close>

definition make_auth_layer :: "server \<Rightarrow> bool \<Rightarrow> auth_layer" where
  "make_auth_layer sv allow =
     \<lparr>al_static_token = sv_static_token sv, al_auth_state = Some sv, al_actor_key = sv_actor_key sv,
      al_resource_url = Some (canonical_resource_url (sv_cfg sv)), al_metadata_url = None,
      al_required_scopes = [], al_allow_session_cookie = allow,
      al_static_token_scopes = cfg_static_token_scopes (sv_cfg sv),
      al_login_path = cfg_login_path (sv_cfg sv),
      al_session_cookie_name = cfg_session_cookie_name (sv_cfg sv)\<rparr>"

section \<open>The MCP endpoint\<close>

text \<open>
  \<open>authenticate_request\<close> of \<open>api/router.rs\<close>, which guards the MCP endpoint. It has its own list of
  scopes and does not look at \<open>disable_static_token_with_oauth\<close>.
\<close>

definition lab_scopes :: "string list" where
  "lab_scopes = [''lab:read'', ''lab:admin'']"

definition router_auth_error :: "string \<Rightarrow> string option \<Rightarrow> string list \<Rightarrow> auth_rejection" where
  "router_auth_error message resource_url scopes =
     AuthRequired message (Option.bind resource_url (\<lambda>url.
       header_to_str (www_authenticate_value url @ '', scope='' @ quoted (join '' '' scopes))))"

definition supported_scopes :: "server option \<Rightarrow> string list" where
  "supported_scopes auth_state = (case auth_state of None \<Rightarrow> [] | Some sv \<Rightarrow> cfg_scopes_supported (sv_cfg sv))"

definition request_bearer ::
    "string option \<Rightarrow> server option \<Rightarrow> (string \<Rightarrow> string option) \<Rightarrow> string option \<Rightarrow> string \<Rightarrow>
     (auth_rejection + auth_context) prog" where
  "request_bearer static_token auth_state actor_key resource_url token =
     (if (case static_token of None \<Rightarrow> False | Some expected \<Rightarrow> tokens_equal token expected)
      then done_with (static_context actor_key lab_scopes)
      else case auth_state of
        None \<Rightarrow> fail (router_auth_error ''invalid bearer token'' resource_url [])
      | Some sv \<Rightarrow>
          now_unix (\<lambda>clock.
          case sv_verify sv clock token (canonical_resource_url (sv_cfg sv)) (public_base_url (sv_cfg sv)) of
            Some claims \<Rightarrow> done_with (token_context actor_key claims)
          | None \<Rightarrow> fail (router_auth_error ''invalid bearer token'' resource_url
                       (cfg_scopes_supported (sv_cfg sv)))))"

definition request_unauthenticated ::
    "server option \<Rightarrow> string option \<Rightarrow> bool \<Rightarrow> http_request \<Rightarrow> (auth_rejection + auth_context) prog" where
  "request_unauthenticated auth_state resource_url allow req =
     (if allow \<and> auth_state \<noteq> None \<and> wants_html req then fail (login_redirect ''/auth/login'' req)
      else fail (router_auth_error
        (if allow then ''missing bearer token or session cookie'' else ''missing bearer token'')
        resource_url (supported_scopes auth_state)))"

definition authenticate_request ::
    "string option \<Rightarrow> server option \<Rightarrow> (string \<Rightarrow> string option) \<Rightarrow> string option \<Rightarrow> bool \<Rightarrow> http_request \<Rightarrow>
     (auth_rejection + auth_context) prog" where
  "authenticate_request static_token auth_state actor_key resource_url allow req =
     (case bearer_token req of
        Some token \<Rightarrow> request_bearer static_token auth_state actor_key resource_url token
      | None \<Rightarrow>
          (case (case auth_state of
                   Some sv \<Rightarrow> if allow then read_cookie req (cfg_session_cookie_name (sv_cfg sv)) else None
                 | None \<Rightarrow> None) of
             Some sid \<Rightarrow>
               now_unix (\<lambda>now. bindp (call (FindSession sid now) as_session) (\<lambda>found.
               case found of
                 Inr (Some session) \<Rightarrow>
                   if \<not> csrf_ok req session then fail InvalidCsrf
                   else done_with (session_context actor_key lab_scopes session)
               | _ \<Rightarrow> request_unauthenticated auth_state resource_url allow req))
           | None \<Rightarrow> request_unauthenticated auth_state resource_url allow req))"

definition authenticate_mcp :: "server \<Rightarrow> http_request \<Rightarrow> (auth_rejection + auth_context) prog" where
  "authenticate_mcp sv req =
     authenticate_request (sv_static_token sv) (Some sv) (sv_actor_key sv)
       (Some (canonical_resource_url (sv_cfg sv))) False req"

section \<open>Protected MCP routes\<close>

record protected_route =
  pr_public_host :: string
  pr_public_path :: string
  pr_scopes :: "string list"

definition public_resource :: "protected_route \<Rightarrow> string" where
  "public_resource route = ''https://'' @ pr_public_host route @ pr_public_path route"

definition route_resource_metadata_url :: "protected_route \<Rightarrow> string" where
  "route_resource_metadata_url route =
     ''https://'' @ pr_public_host route @ ''/.well-known/oauth-protected-resource''
     @ trim_end_slashes (pr_public_path route)"

definition route_challenge :: "string \<Rightarrow> protected_route \<Rightarrow> auth_rejection" where
  "route_challenge message route =
     AuthRequired message (header_to_str (''Bearer resource_metadata=''
       @ quoted (route_resource_metadata_url route) @ '', scope='' @ quoted (join '' '' (pr_scopes route))))"

definition authenticate_protected_route_request ::
    "protected_route \<Rightarrow> server option \<Rightarrow> (string \<Rightarrow> string option) \<Rightarrow> http_request \<Rightarrow>
     (auth_rejection + auth_context) prog" where
  "authenticate_protected_route_request route auth_state actor_key req =
     (case bearer_token req of
        None \<Rightarrow> fail (route_challenge ''missing bearer token'' route)
      | Some token \<Rightarrow>
          (case auth_state of
             None \<Rightarrow> fail (route_challenge ''oauth auth state is not configured'' route)
           | Some sv \<Rightarrow>
               now_unix (\<lambda>clock.
               case sv_verify sv clock token (public_resource route) (public_base_url (sv_cfg sv)) of
                 None \<Rightarrow> fail (route_challenge ''invalid bearer token'' route)
               | Some claims \<Rightarrow>
                   let scopes = split_whitespace (ac_token_scope claims)
                   in if ''lab:admin'' \<notin> set scopes \<and> \<not> list_all (\<lambda>s. s \<in> set scopes) (pr_scopes route)
                      then fail (InsufficientScope (header_to_str (''Bearer error=''
                        @ quoted ''insufficient_scope'' @ '', scope='' @ quoted (join '' '' (pr_scopes route))
                        @ '', resource_metadata='' @ quoted (route_resource_metadata_url route))))
                      else done_with (token_context actor_key claims))))"

section \<open>Session routes\<close>

text \<open>
  The body of \<open>/auth/session\<close>: who is signed in, if anyone. The route is outside the
  authentication layer, so that it never sees an authentication context.
\<close>

datatype session_reply =
    SignedOut bool
  | SignedInAs string "string option" bool bool int string
  | SessionError
  | LoggedOut "string option"
  | LogoutCsrf

definition dev_session_expires_at :: int where
  "dev_session_expires_at = 253402300799"

definition auth_session :: "server \<Rightarrow> http_request \<Rightarrow> session_reply prog" where
  "auth_session sv req =
     (if sv_web_ui_auth_disabled sv
      then Ret (SignedInAs ''labby-dev'' None False True dev_session_expires_at [])
      else if (case (sv_static_token sv, bearer_token req) of
                 (Some expected, Some token) \<Rightarrow> tokens_equal token expected | _ \<Rightarrow> False)
      then Ret (SignedInAs ''static-bearer'' None True True dev_session_expires_at [])
      else case read_cookie req (cfg_session_cookie_name (sv_cfg sv)) of
        None \<Rightarrow> Ret (SignedOut True)
      | Some sid \<Rightarrow>
          now_unix (\<lambda>now. bindp (call (FindSession sid now) as_session) (\<lambda>found.
          case found of
            Inl _ \<Rightarrow> Ret SessionError
          | Inr None \<Rightarrow> Ret (SignedOut True)
          | Inr (Some s) \<Rightarrow>
              Ret (SignedInAs (bs_subject s) (bs_email s) True
                (case bs_email s of None \<Rightarrow> False
                 | Some e \<Rightarrow> eq_ignore_ascii_case e (cfg_admin_email (sv_cfg sv))
                             \<and> cfg_admin_email (sv_cfg sv) \<noteq> [])
                (bs_expires_at s) (bs_csrf_token s)))))"

definition clear_browser_session_cookie :: "server \<Rightarrow> string" where
  "clear_browser_session_cookie sv =
     cfg_session_cookie_name (sv_cfg sv)
     @ ''=; Path=/; HttpOnly; SameSite=Lax; Max-Age=0; Expires=Thu, 01 Jan 1970 00:00:00 GMT''
     @ secure_cookie_attr sv"

definition auth_logout :: "server \<Rightarrow> http_request \<Rightarrow> session_reply prog" where
  "auth_logout sv req =
     (let gone = Ret (LoggedOut (Some (clear_browser_session_cookie sv)))
      in if sv_web_ui_auth_disabled sv then gone
         else case read_cookie req (cfg_session_cookie_name (sv_cfg sv)) of
           None \<Rightarrow> gone
         | Some sid \<Rightarrow>
             now_unix (\<lambda>now. bindp (call (FindSession sid now) as_session) (\<lambda>found.
             case found of
               Inl _ \<Rightarrow> Ret SessionError
             | Inr None \<Rightarrow> gone
             | Inr (Some s) \<Rightarrow>
                 if header_str req csrf_header \<noteq> Some (bs_csrf_token s) then Ret LogoutCsrf
                 else bindp (call (RevokeSession sid) as_unit) (\<lambda>r.
                      case r of Inl _ \<Rightarrow> Ret SessionError | Inr _ \<Rightarrow> gone))))"

section \<open>What is forwarded\<close>

lemma run_now:
  "run_prog (now_unix f) env outs sh = Some (a, tr, sh') \<Longrightarrow>
   \<exists>t outs' tr'. run_prog (f t) env outs' sh = Some (a, tr', sh')"
  by (auto simp: now_unix_def split: list.splits if_splits)

lemma run_find_session:
  "run_prog (bindp (call (FindSession sid now) as_session) f) env outs sh = Some (a, tr, sh') \<Longrightarrow>
   \<exists>tr'. run_prog (f (find_browser_session sid now (sh_db sh))) env outs sh = Some (a, tr', sh')"
  by (auto simp: call_def returning_def find_browser_session_def labby_res ok_or_def)

lemma run_granted:
  "run_prog (granted layer ctx) env outs sh = Some (Inr ctx', tr, sh') \<longleftrightarrow>
     ctx' = ctx \<and> tr = [] \<and> sh' = sh \<and> list_all (\<lambda>s. s \<in> set (cx_scopes ctx)) (al_required_scopes layer)"
  by (auto simp: granted_def insufficient_scope_response_def)

lemma run_unauthenticated:
  "run_prog (unauthenticated layer req) env outs sh \<noteq> Some (Inr ctx, tr, sh')"
  by (simp add: unauthenticated_def)

lemma authenticate_cases:
  assumes run: "run_prog (authenticate layer req) env outs sh = Some (Inr ctx, tr, sh')"
  shows "sh' = sh \<and> set (al_required_scopes layer) \<subseteq> set (cx_scopes ctx)
    \<and> ((\<exists>token. bearer_token req = Some token \<and> al_static_token layer = Some token
           \<and> \<not> static_token_blocked layer
           \<and> ctx = static_context (al_actor_key layer) (al_static_token_scopes layer))
       \<or> (\<exists>token sv clock claims. bearer_token req = Some token \<and> al_auth_state layer = Some sv
           \<and> sv_verify sv clock token (case al_resource_url layer of Some url \<Rightarrow> url
               | None \<Rightarrow> canonical_resource_url (sv_cfg sv)) (public_base_url (sv_cfg sv)) = Some claims
           \<and> ctx = token_context (al_actor_key layer) claims)
       \<or> (\<exists>sid now s. bearer_token req = None \<and> al_allow_session_cookie layer
           \<and> al_auth_state layer \<noteq> None \<and> read_cookie req (al_session_cookie_name layer) = Some sid
           \<and> find_browser_session sid now (sh_db sh) = Inr (Some s) \<and> csrf_ok req s
           \<and> ctx = session_context (al_actor_key layer) (al_static_token_scopes layer) s))"
proof (cases "bearer_token req")
  case (Some token)
  show ?thesis
  proof (cases "\<not> static_token_blocked layer \<and> al_static_token layer = Some token")
    case True
    with run Some show ?thesis
      by (simp add: authenticate_def bearer_path_def tokens_equal_def run_granted list_all_iff subset_iff)
  next
    case False
    with run Some obtain sv where sv: "al_auth_state layer = Some sv"
      by (auto simp: authenticate_def bearer_path_def tokens_equal_def split: option.splits if_splits)
    define res where "res = (case al_resource_url layer of Some url \<Rightarrow> url
      | None \<Rightarrow> canonical_resource_url (sv_cfg sv))"
    from run Some False sv obtain clock outs' tr' where "run_prog (case sv_verify sv clock token res
        (public_base_url (sv_cfg sv)) of
        Some claims \<Rightarrow> granted layer (token_context (al_actor_key layer) claims)
      | None \<Rightarrow> fail (auth_error_response ''invalid bearer token'' layer)) env outs' sh = Some (Inr ctx, tr', sh')"
      by (cases "al_static_token layer")
        (fastforce simp: authenticate_def bearer_path_def tokens_equal_def res_def dest: run_now split: if_splits)+
    then obtain claims
      where claims: "sv_verify sv clock token res (public_base_url (sv_cfg sv)) = Some claims"
        and ctx: "ctx = token_context (al_actor_key layer) claims"
        and rest: "sh' = sh" "set (al_required_scopes layer) \<subseteq> set (cx_scopes ctx)"
      by (auto simp: run_granted list_all_iff subset_iff split: option.splits)
    have "\<exists>token sv clock claims. bearer_token req = Some token \<and> al_auth_state layer = Some sv
        \<and> sv_verify sv clock token (case al_resource_url layer of Some url \<Rightarrow> url
            | None \<Rightarrow> canonical_resource_url (sv_cfg sv)) (public_base_url (sv_cfg sv)) = Some claims
        \<and> ctx = token_context (al_actor_key layer) claims"
      using Some sv claims ctx unfolding res_def by blast
    with rest show ?thesis by blast
  qed
next
  case None
  with run obtain sid where sid: "al_allow_session_cookie layer" "al_auth_state layer \<noteq> None"
    "read_cookie req (al_session_cookie_name layer) = Some sid"
    by (auto simp: authenticate_def run_unauthenticated split: option.splits if_splits)
  with run None obtain now outs' tr' where "run_prog (case find_browser_session sid now (sh_db sh) of
      Inr (Some session) \<Rightarrow> if \<not> csrf_ok req session then fail InvalidCsrf
        else granted layer (session_context (al_actor_key layer) (al_static_token_scopes layer) session)
      | _ \<Rightarrow> unauthenticated layer req) env outs' sh = Some (Inr ctx, tr', sh')"
    by (auto simp: authenticate_def dest!: run_now run_find_session)
  with None sid show ?thesis
    by (auto simp: run_unauthenticated run_granted list_all_iff split: sum.splits option.splits if_splits)
qed


definition demo_layer :: auth_layer where
  "demo_layer = \<lparr>al_static_token = Some ''t'', al_auth_state = None, al_actor_key = Some,
     al_resource_url = None, al_metadata_url = None, al_required_scopes = [''r''],
     al_allow_session_cookie = False, al_static_token_scopes = [''r'', ''w''], al_login_path = ''/l'',
     al_session_cookie_name = ''c''\<rparr>"

definition demo_static_request :: http_request where
  "demo_static_request = \<lparr>hr_method = ''POST'', hr_path_and_query = None,
     hr_headers = [(''authorization'', ''Bearer t'')]\<rparr>"

lemma demo_static_bearer [simp]: "bearer_token demo_static_request = Some ''t''"
  by code_simp

lemma demo_layer_facts [simp]:
  "al_static_token demo_layer = Some ''t''"
  "\<not> static_token_blocked demo_layer" "al_required_scopes demo_layer = [''r'']"
  "al_actor_key demo_layer = Some" "al_static_token_scopes demo_layer = [''r'', ''w'']"
  by (simp_all add: demo_layer_def static_token_blocked_def)


end
