(* ===== verification/Auth_Service.thy ===== *)
theory Auth_Service
  imports Auth_Grants Auth_Middleware
begin

text \<open>
  All routes together. A request is one to the authorization server, to the allowlist, to the
  session routes or to the gateway behind the authentication layer; \<open>serve\<close> is the program that
  answers it, and the service under a list of concurrent requests is the system of their
  programs. The allowlist routes lie behind the layer of the web API, as in \<open>build_router\<close>.
\<close>

datatype request =
    BrowserLogin string "string option"
  | RegisterRequest string "string list"
  | Authorize string authorize_query
  | Callback string string
  | NativeCallback string
  | NativePollRequest string
  | Token string "string option" token_request
  | Revoke string "string option" revocation_request
  | ListAllowedEmails http_request
  | AddAllowedEmail http_request string
  | DeleteAllowedEmail http_request string
  | WebApi http_request
  | McpEndpoint http_request
  | ProtectedRoute protected_route http_request
  | AuthSession http_request
  | AuthLogout http_request

datatype response =
    Reply http_reply
  | AuthFailure auth_error
  | TokenFailure token_endpoint_error
  | ToolFailure tool_error
  | Rejected auth_rejection
  | Forwarded auth_context
  | SessionReply session_reply

definition reply_with :: "('e \<Rightarrow> response) \<Rightarrow> ('a \<Rightarrow> http_reply) \<Rightarrow> ('e + 'a) prog \<Rightarrow> response prog" where
  "reply_with f g p = bindp p (\<lambda>r. Ret (case r of Inl e \<Rightarrow> f e | Inr x \<Rightarrow> Reply (g x)))"

text \<open>A handler behind an authentication check.\<close>

definition behind ::
    "(auth_rejection + auth_context) prog \<Rightarrow> (auth_context \<Rightarrow> response prog) \<Rightarrow> response prog" where
  "behind auth h = bindp auth (\<lambda>r. case r of Inl rej \<Rightarrow> Ret (Rejected rej) | Inr ctx \<Rightarrow> h ctx)"

primrec serve :: "server \<Rightarrow> request \<Rightarrow> response prog" where
  "serve sv (BrowserLogin ip return_to) = reply_with AuthFailure id (browser_login sv ip return_to)"
| "serve sv (RegisterRequest ip uris) = reply_with AuthFailure id (register_client_handler sv ip uris)"
| "serve sv (Authorize ip q) = reply_with AuthFailure id (authorize sv ip q)"
| "serve sv (Callback st code) = reply_with AuthFailure id (oauth_callback sv st code)"
| "serve sv (NativeCallback st) = reply_with AuthFailure id (Ret (native_callback st))"
| "serve sv (NativePollRequest st) = reply_with AuthFailure id (native_poll st)"
| "serve sv (Token ip authorization q) =
     reply_with TokenFailure TokenReply (token_endpoint sv ip authorization q)"
| "serve sv (Revoke ip authorization q) =
     reply_with TokenFailure (\<lambda>_. RevokedReply) (revoke_endpoint sv ip authorization q)"
| "serve sv (ListAllowedEmails req) = behind (authenticate (make_auth_layer sv True) req)
     (\<lambda>ctx. reply_with ToolFailure id (list_allowed_emails sv ctx))"
| "serve sv (AddAllowedEmail req raw) = behind (authenticate (make_auth_layer sv True) req)
     (\<lambda>ctx. reply_with ToolFailure id (add_allowed_email sv ctx raw))"
| "serve sv (DeleteAllowedEmail req raw) = behind (authenticate (make_auth_layer sv True) req)
     (\<lambda>ctx. reply_with ToolFailure id (delete_allowed_email sv ctx raw))"
| "serve sv (WebApi req) = behind (authenticate (make_auth_layer sv True) req) (\<lambda>ctx. Ret (Forwarded ctx))"
| "serve sv (McpEndpoint req) = behind (authenticate_mcp sv req) (\<lambda>ctx. Ret (Forwarded ctx))"
| "serve sv (ProtectedRoute route req) =
     behind (authenticate_protected_route_request route (Some sv) (sv_actor_key sv) req)
       (\<lambda>ctx. Ret (Forwarded ctx))"
| "serve sv (AuthSession req) = bindp (auth_session sv req) (\<lambda>r. Ret (SessionReply r))"
| "serve sv (AuthLogout req) = bindp (auth_logout sv req) (\<lambda>r. Ret (SessionReply r))"

section \<open>Runs of guarded handlers\<close>

lemma run_bindp:
  "run_prog (bindp p f) env outs sh = Some (a, tr, sh') \<Longrightarrow>
   \<exists>b tr1 outs' tr2 sh1. run_prog p env outs sh = Some (b, tr1, sh1)
     \<and> run_prog (f b) env outs' sh1 = Some (a, tr2, sh')"
proof (induction p arbitrary: outs sh tr)
  case (Ret x)
  then show ?case by auto
next
  case (Do act k)
  then show ?case by (fastforce split: action.splits prod.splits list.splits if_splits)
qed

lemma run_behind:
  assumes "run_prog (behind p (\<lambda>ctx. Ret (Forwarded ctx))) env outs sh = Some (Forwarded ctx, tr, sh')"
  shows "\<exists>tr'. run_prog p env outs sh = Some (Inr ctx, tr', sh')"
proof -
  obtain b tr1 outs' tr2 sh1 where "run_prog p env outs sh = Some (b, tr1, sh1)"
    "run_prog (case b of Inl rej \<Rightarrow> Ret (Rejected rej) | Inr ctx \<Rightarrow> Ret (Forwarded ctx)) env outs' sh1
      = Some (Forwarded ctx, tr2, sh')"
    using run_bindp [OF assms [unfolded behind_def]] by blast
  then show ?thesis by (cases b) auto
qed

end
