(* ===== verification/Auth_Logic.thy ===== *)
theory Auth_Logic
  imports Auth_Service
begin

text \<open>
  A small program logic for handlers. \<open>gives G P p tr\<close>: after the events \<open>tr\<close>, every action of
  \<open>p\<close> is taken under its condition \<open>G\<close>, and if \<open>p\<close> ends with success, \<open>P\<close> holds of the events
  and the result. The equations push it through the combinators, so that a handler's condition
  is computed by rewriting.
\<close>

definition gives ::
    "(trace \<Rightarrow> action \<Rightarrow> bool) \<Rightarrow> (trace \<Rightarrow> 'a \<Rightarrow> bool) \<Rightarrow> ('e + 'a) prog \<Rightarrow> trace \<Rightarrow> bool" where
  "gives G P p tr = keeps G (\<lambda>tr r. \<forall>x. r = Inr x \<longrightarrow> P tr x) p tr"

named_theorems gives_rules \<open>Equations of the logic\<close>

text \<open>The outcomes that fit an action, one by one.\<close>

lemma all_outcomes:
  "(\<forall>out. (\<exists>r. out = f r) \<longrightarrow> X out) \<longleftrightarrow> (\<forall>r. X (f r))"
  "(\<forall>out. (\<exists>r. out = f r \<and> Y r) \<longrightarrow> X out) \<longleftrightarrow> (\<forall>r. Y r \<longrightarrow> X (f r))"
  by blast+

lemma gives_Ret [gives_rules]: "gives G P (Ret r) tr \<longleftrightarrow> (\<forall>x. r = Inr x \<longrightarrow> P tr x)"
  by (simp add: gives_def)

lemma gives_bindp [gives_rules]:
  "gives G P (bindp p f) tr \<longleftrightarrow> keeps G (\<lambda>tr a. gives G P (f a) tr) p tr"
  by (simp add: gives_def)

lemma keeps_cong: "(\<And>tr a. Q tr a \<longleftrightarrow> Q' tr a) \<Longrightarrow> keeps G Q p tr \<longleftrightarrow> keeps G Q' p tr"
  by (auto intro: keeps_mono)

lemma gives_attempt [gives_rules]:
  "gives G P (attempt p f) tr \<longleftrightarrow> gives G (\<lambda>tr x. gives G P (f x) tr) p tr"
  unfolding attempt_def gives_bindp
  by (subst (2) gives_def, rule keeps_cong) (auto simp: gives_Ret split: sum.splits)

lemma gives_check [gives_rules]:
  "gives G P (check r f) tr \<longleftrightarrow> (\<forall>x. r = Inr x \<longrightarrow> gives G P (f x) tr)"
  by (auto simp: check_def gives_Ret split: sum.splits)

lemma keeps_call [gives_rules]:
  "keeps G Q (call op f) tr \<longleftrightarrow> G tr (Store op)
     \<and> (\<forall>r. Q (tr @ [(Store op, GotStore r)]) (and_then r (\<lambda>x. ok_or (f x) (AStorage []))))"
  by (simp add: call_def all_outcomes)

lemma gives_call [gives_rules]:
  "gives G P (call op f) tr \<longleftrightarrow> G tr (Store op)
     \<and> (\<forall>x y. f x = Some y \<longrightarrow> P (tr @ [(Store op, GotStore (Inr x))]) y)"
  by (auto simp: gives_def keeps_call labby_res)

lemma gives_now [gives_rules]:
  "gives G P (now_unix f) tr \<longleftrightarrow> G tr (Ask Now)
     \<and> (\<forall>t. 0 \<le> t \<and> t < 2 ^ 63 \<longrightarrow> gives G P (f t) (tr @ [(Ask Now, GotNow t)]))"
  by (simp add: now_unix_def gives_def all_outcomes)

lemma gives_random_bytes [gives_rules]:
  "gives G P (random_bytes n f) tr \<longleftrightarrow> G tr (Ask (RandomBytes n))
     \<and> (\<forall>r. (\<forall>b. r = Inr b \<longrightarrow> length b = n)
            \<longrightarrow> gives G P (f r) (tr @ [(Ask (RandomBytes n), GotBytes r)]))"
  by (simp add: random_bytes_def gives_def all_outcomes)

lemma gives_random_token [gives_rules]:
  "gives G P (random_token env n f) tr \<longleftrightarrow> G tr (Ask (RandomBytes n))
     \<and> (\<forall>b. length b = n
            \<longrightarrow> gives G P (f (b64url env b)) (tr @ [(Ask (RandomBytes n), GotBytes (Inr b))]))"
  by (auto simp: random_token_def gives_random_bytes gives_Ret split: sum.splits)

lemma gives_try_acquire [gives_rules]:
  "gives G P (try_acquire l ip f) tr \<longleftrightarrow> G tr (Ask (TryAcquire l ip))
     \<and> (\<forall>b. gives G P (f b) (tr @ [(Ask (TryAcquire l ip), GotPermit b)]))"
  by (simp add: try_acquire_def gives_def all_outcomes)

lemma gives_effective_resources [gives_rules]:
  "gives G P (effective_resources f) tr \<longleftrightarrow> G tr (Ask EffectiveResources)
     \<and> (\<forall>r. gives G P (f r) (tr @ [(Ask EffectiveResources, GotResources r)]))"
  by (simp add: effective_resources_def gives_def all_outcomes)

lemma gives_fetch_document [gives_rules]:
  "gives G P (fetch_document u) tr \<longleftrightarrow> G tr (Ask (FetchDocument u))
     \<and> (\<forall>d. P (tr @ [(Ask (FetchDocument u), GotDocument (Inr d))]) d)"
  by (simp add: fetch_document_def gives_def all_outcomes)

lemma gives_fetch_keys [gives_rules]:
  "gives G P (fetch_keys u) tr \<longleftrightarrow> G tr (Ask (FetchKeys u))
     \<and> (\<forall>d. P (tr @ [(Ask (FetchKeys u), GotKeyset (Inr d))]) d)"
  by (simp add: fetch_keys_def gives_def all_outcomes)

lemma gives_exchange_code [gives_rules]:
  "gives G P (exchange_code c v) tr \<longleftrightarrow> G tr (Ask (ExchangeCode c v))
     \<and> (\<forall>g. P (tr @ [(Ask (ExchangeCode c v), GotGoogle (Inr g))]) g)"
  by (simp add: exchange_code_def gives_def all_outcomes)

lemma keeps_google_refresh [gives_rules]:
  "keeps G Q (google_refresh t s e) tr \<longleftrightarrow> G tr (Ask (RefreshGoogle t s e))
     \<and> (\<forall>r. Q (tr @ [(Ask (RefreshGoogle t s e), GotGoogle r)]) r)"
  by (simp add: google_refresh_def all_outcomes)

lemma gives_cached_client [gives_rules]:
  "gives G P (cached_client cid t f) tr \<longleftrightarrow> G tr (Cache (CachedClient cid t))
     \<and> (\<forall>c. gives G P (f c) (tr @ [(Cache (CachedClient cid t), GotClient c)]))"
  by (simp add: cached_client_def gives_def all_outcomes)

lemma gives_cached_keys [gives_rules]:
  "gives G P (cached_keys u kid t f) tr \<longleftrightarrow> G tr (Cache (CachedKeys u kid t))
     \<and> (\<forall>c. gives G P (f c) (tr @ [(Cache (CachedKeys u kid t), GotKeys c)]))"
  by (simp add: cached_keys_def gives_def all_outcomes)

lemma gives_store_client [gives_rules]:
  "gives G P (store_client cid c t t' a p) tr \<longleftrightarrow> G tr (Cache (StoreClient cid c t t' a))
     \<and> gives G P p (tr @ [(Cache (StoreClient cid c t t' a), GotClient None)])"
  by (simp add: store_client_def gives_def all_outcomes)

lemma gives_store_keys [gives_rules]:
  "gives G P (store_keys u ks t t' a p) tr \<longleftrightarrow> G tr (Cache (StoreKeys u ks t t' a))
     \<and> gives G P p (tr @ [(Cache (StoreKeys u ks t t' a), GotKeys None)])"
  by (simp add: store_keys_def gives_def all_outcomes)

lemma gives_nonce [gives_rules]:
  "gives G P (nonce env f) tr \<longleftrightarrow>
     (if enc_key env = None then gives G P (f (Inl [])) tr else gives G P (random_bytes 12 f) tr)"
  by (simp add: nonce_def)

lemma gives_if [gives_rules]:
  "gives G P (if b then p else q) tr \<longleftrightarrow> (if b then gives G P p tr else gives G P q tr)"
  by simp

text \<open>The consequence rule: what a sub-program gives is all its caller needs to know.\<close>

lemma gives_mono:
  assumes "gives G P p tr" and "\<And>tr' x. set tr \<subseteq> set tr' \<Longrightarrow> P tr' x \<Longrightarrow> P' tr' x"
  shows "gives G P' p tr"
  using assms unfolding gives_def by (auto elim!: keeps_mono dest: set_mono_prefix)

end
