(* ===== verification/Auth_Provenance.thy ===== *)
theory Auth_Provenance
  imports Auth_Logic Auth_Tickets
begin

text \<open>
  Where tokens come from. The guarantee states, for each operation that creates a client, a
  pending request, a code, a session or a refresh token, which events its handler must have
  seen before; every handler keeps it, and so every interleaving of requests does. The
  invariant carries these origins through the database, and the theorems read off the chain
  from a token back to the sign-in it stands for.
\<close>

section \<open>Origins\<close>

definition uri_allowed :: "server \<Rightarrow> string \<Rightarrow> bool" where
  "uri_allowed sv u =
     (u = native_callback_endpoint (sv_cfg sv)
      \<or> is_allowed_redirect_uri (sv_url_parse sv) (sv_url_to_string sv) u
          (cfg_allowed_client_redirect_uris (sv_cfg sv)))"

definition client_uris_ok :: "server \<Rightarrow> registered_client \<Rightarrow> bool" where
  "client_uris_ok sv c = (\<forall>u \<in> set (rc_redirect_uris c). uri_allowed sv u)"

text \<open>A client as a handler got it: from the table, from the cache, or freshly validated.\<close>

definition resolved :: "server \<Rightarrow> trace \<Rightarrow> registered_client \<Rightarrow> bool" where
  "resolved sv tr c =
     ((\<exists>cid. (Store (FindClient cid), GotStore (Inr (RClient (Some c)))) \<in> set tr)
      \<or> (\<exists>cid now. (Cache (CachedClient cid now), GotClient (Some c)) \<in> set tr)
      \<or> client_uris_ok sv c)"

text \<open>
  The identity Google returned for an exchange with this verifier, whose verified email was on
  the allowlist as the handler read it.
\<close>

definition signed_in :: "server \<Rightarrow> trace \<Rightarrow> string \<Rightarrow> google_exchange \<Rightarrow> bool" where
  "signed_in sv tr verifier g =
     ((\<exists>code. (Ask (ExchangeCode code verifier), GotGoogle (Inr g)) \<in> set tr)
      \<and> (\<exists>rows. (Store ListAllowed, GotStore (Inr (RUsers rows))) \<in> set tr
           \<and> check_email_allowlist (gx_email g) (gx_email_verified g)
               (resolve_allowed_emails (sv_cfg sv) rows) = Inr ()))"

definition taken_request :: "trace \<Rightarrow> authorization_request_row \<Rightarrow> bool" where
  "taken_request tr q = (\<exists>st now. (Store (TakeRequest st now), GotStore (Inr (RRequest q))) \<in> set tr)"

definition taken_login :: "trace \<Rightarrow> browser_login_state_row \<Rightarrow> bool" where
  "taken_login tr l = (\<exists>st now. (Store (TakeLogin st now), GotStore (Inr (RLogin (Some l)))) \<in> set tr)"

definition redeemed :: "trace \<Rightarrow> authorization_code_row \<Rightarrow> bool" where
  "redeemed tr c = (\<exists>code now. (Store (RedeemCode code now), GotStore (Inr (RCode c))) \<in> set tr)"

definition claimed :: "trace \<Rightarrow> string \<Rightarrow> string \<Rightarrow> refresh_token_row \<Rightarrow> bool" where
  "claimed tr token claim t =
     (\<exists>lease now. (Store (ClaimRefresh token claim lease now), GotStore (Inr (RRefresh (Some t)))) \<in> set tr)"

definition found_session :: "trace \<Rightarrow> browser_session_row \<Rightarrow> bool" where
  "found_session tr s =
     (\<exists>sid now. (Store (FindSession sid now), GotStore (Inr (RSession (Some s)))) \<in> set tr)"

text \<open>A session of the configured admin, whose subject is \<open>by\<close>.\<close>

definition admin_session :: "server \<Rightarrow> trace \<Rightarrow> string \<Rightarrow> bool" where
  "admin_session sv tr by =
     (\<exists>s email. found_session tr s \<and> bs_subject s = by \<and> bs_email s = Some email
        \<and> eq_ignore_ascii_case email (cfg_admin_email (sv_cfg sv)))"

definition issued_code :: "server \<Rightarrow> authorization_request_row \<Rightarrow> google_exchange \<Rightarrow> authorization_code_row \<Rightarrow> bool" where
  "issued_code sv q g c =
     (ac_client_id c = ar_client_id q \<and> ac_subject c = gx_subject g
      \<and> ac_redirect_uri c = ar_redirect_uri q \<and> ac_resource c = ar_resource q
      \<and> ac_scope c = elevate_scope_for_allowed_user (ar_scope q) (cfg_default_scope (sv_cfg sv))
      \<and> ac_code_challenge c = ar_code_challenge q
      \<and> ac_code_challenge_method c = ar_code_challenge_method q)"

text \<open>
  The proof of possession of a code: one of the presented pairs \<open>V\<close> of redirect URI and verifier
  has the URI of the code and a verifier for its challenge.
\<close>

definition pkce_proved :: "(string \<times> string) set \<Rightarrow> server \<Rightarrow> authorization_code_row \<Rightarrow> bool" where
  "pkce_proved V sv c =
     (\<exists>v. (ac_redirect_uri c, v) \<in> V \<and> pkce_challenge (sv_env sv) v = ac_code_challenge c)"

definition presented :: "token_request \<Rightarrow> (string \<times> string) set" where
  "presented q = {(u, v). tq_redirect_uri q = Some u \<and> tq_code_verifier q = Some v}"

lemma presented_simps [simp]:
  "presented (q\<lparr>tq_client_id := x\<rparr>) = presented q" "presented (q\<lparr>tq_client_secret := y\<rparr>) = presented q"
  "presented (infer_client_id sv q) = presented q"
  "with_basic sv authorization q = Inr q' \<Longrightarrow> presented q' = presented q"
  by (auto simp: presented_def infer_client_id_def with_basic_def and_then_def
      split: option.splits if_splits sum.splits prod.splits)

definition presents :: "request list \<Rightarrow> (string \<times> string) set" where
  "presents reqs = {(u, v). \<exists>ip authorization q. Token ip authorization q \<in> set reqs \<and> (u, v) \<in> presented q}"

text \<open>
  Where a redirect goes: with a session cookie to the return path of a login, without one to a
  URI of a resolved client or of a pending request.
\<close>

definition reply_ok :: "server \<Rightarrow> trace \<Rightarrow> http_reply \<Rightarrow> bool" where
  "reply_ok sv tr reply =
     (case reply of
        SeeOther uri pairs cookie \<Rightarrow>
          (if cookie = None
           then (\<exists>c. resolved sv tr c \<and> uri \<in> set (rc_redirect_uris c))
                \<or> (\<exists>q. taken_request tr q \<and> uri = ar_redirect_uri q)
           else (\<exists>l. taken_login tr l \<and> uri = bl_return_to l \<and> pairs = []))
      | _ \<Rightarrow> True)"

lemma reply_ok_simps [simp]:
  "reply_ok sv tr (FoundGoogle ga)" "reply_ok sv tr NativeSuccessPage" "reply_ok sv tr NativeGonePage"
  "reply_ok sv tr (NativePoll c)" "reply_ok sv tr (RegisteredReply cid uris m)"
  "reply_ok sv tr (TokenReply t)" "reply_ok sv tr RevokedReply" "reply_ok sv tr (AllowedUsers us)"
  "reply_ok sv tr (AllowedUserAdded u)" "reply_ok sv tr AllowedUserRemoved"
  by (simp_all add: reply_ok_def)

section \<open>The guarantee\<close>

definition guarantee :: "(string \<times> string) set \<Rightarrow> server \<Rightarrow> trace \<Rightarrow> action \<Rightarrow> bool" where
  "guarantee V sv tr act =
     (case act of
        Store op \<Rightarrow>
          (case op of
             RegisterClient c \<Rightarrow> resolved sv tr c
           | InsertRequest q \<Rightarrow>
               ar_code_challenge_method q = ''S256''
               \<and> (\<exists>c. resolved sv tr c \<and> ar_redirect_uri q \<in> set (rc_redirect_uris c))
           | InsertCode c \<Rightarrow>
               (\<exists>q g. taken_request tr q \<and> signed_in sv tr (ar_provider_code_verifier q) g
                  \<and> issued_code sv q g c)
           | InsertLogin l \<Rightarrow>
               (\<exists>requested. bl_return_to l = sanitize_return_to (sv_url_parse sv) (sv_cfg sv) requested)
           | UpsertSession s \<Rightarrow>
               (\<exists>l g. taken_login tr l \<and> signed_in sv tr (bl_provider_code_verifier l) g
                  \<and> bs_subject s = gx_subject g \<and> bs_email s = gx_email g)
           | UpsertRefresh rng t \<Rightarrow>
               (\<exists>c. redeemed tr c \<and> pkce_proved V sv c
                  \<and> rt_client_id t = ac_client_id c \<and> rt_subject t = ac_subject c
                  \<and> rt_resource t = ac_resource c \<and> rt_scope t = ac_scope c)
           | RotateClaimed rng token claim t now \<Rightarrow>
               (\<exists>old. claimed tr token claim old \<and> rt_client_id t = rt_client_id old
                  \<and> rt_subject t = rt_subject old
                  \<and> rt_resource t = effective_resource sv (rt_resource old)
                  \<and> rt_scope t = elevate_scope_for_allowed_user (rt_scope old) (cfg_default_scope (sv_cfg sv)))
           | RotateRefresh rng token t now \<Rightarrow> False
           | AddAllowedUser email by now \<Rightarrow> admin_session sv tr by
           | RemoveAllowedUser email \<Rightarrow> (\<exists>by. admin_session sv tr by)
           | _ \<Rightarrow> True)
      | Cache op \<Rightarrow> (case op of StoreClient cid c now now' age \<Rightarrow> client_uris_ok sv c | _ \<Rightarrow> True)
      | Ask q \<Rightarrow> True)"

lemma origin_mono:
  assumes "set tr \<subseteq> set tr'"
  shows "resolved sv tr c \<Longrightarrow> resolved sv tr' c" "signed_in sv tr v g \<Longrightarrow> signed_in sv tr' v g"
    "taken_request tr q \<Longrightarrow> taken_request tr' q" "taken_login tr l \<Longrightarrow> taken_login tr' l"
    "redeemed tr cd \<Longrightarrow> redeemed tr' cd" "claimed tr tk cl rt \<Longrightarrow> claimed tr' tk cl rt"
    "found_session tr s \<Longrightarrow> found_session tr' s" "admin_session sv tr by \<Longrightarrow> admin_session sv tr' by"
proof -
  show found: "found_session tr s \<Longrightarrow> found_session tr' s" for s
    using assms by (auto simp: found_session_def)
  then show "admin_session sv tr by \<Longrightarrow> admin_session sv tr' by"
    unfolding admin_session_def by blast
qed (use assms in \<open>auto simp: resolved_def signed_in_def taken_request_def taken_login_def redeemed_def
    claimed_def\<close>)

lemma guarantee_stable: "stable (\<lambda>tr. guarantee V sv tr act)"
proof -
  have "guarantee V sv tr act \<longrightarrow> guarantee V sv tr' act" if "set tr \<subseteq> set tr'" for tr tr'
  proof (cases act)
    case (Store op)
    then show ?thesis
      using origin_mono [OF that]
      by (cases op) (auto simp: guarantee_def, metis+)
  qed (auto simp: guarantee_def)
  then show ?thesis by (auto simp: stable_def)
qed

section \<open>The handlers keep the guarantee\<close>

lemmas origin_defs = resolved_def signed_in_def taken_request_def taken_login_def redeemed_def
  claimed_def found_session_def

lemma guarantee_Ask [simp]: "guarantee V sv tr (Ask q)"
  by (simp add: guarantee_def)

lemma guarantee_reads [simp]:
  "guarantee V sv tr (Store (CountPending t))" "guarantee V sv tr (Store ListAllowed)"
  "guarantee V sv tr (Store (FindClient cid))" "guarantee V sv tr (Store (FindGoogle sel))"
  "guarantee V sv tr (Store (TakeLogin st t))" "guarantee V sv tr (Store (TakeRequest st t))"
  "guarantee V sv tr (Store (InsertNative nr))"
  "guarantee V sv tr (Store (TakeNative st t))" "guarantee V sv tr (Store (UpsertBundle r1 r2 u t))"
  "guarantee V sv tr (Store (ConsumeJti i j ia ex t))" "guarantee V sv tr (Store (RedeemCode c t))"
  "guarantee V sv tr (Store (HasGoogleSubject sub))" "guarantee V sv tr (Store (ClaimRefresh tk cl le t))"
  "guarantee V sv tr (Store (ReleaseClaim tk cl))" "guarantee V sv tr (Store (InvalidateGoogle sub n))"
  "guarantee V sv tr (Store (FindRefresh tk t))" "guarantee V sv tr (Store (RevokeRefresh tk))"
  "guarantee V sv tr (Store (FindSession sid t))" "guarantee V sv tr (Store (RevokeSession sid))"
  "guarantee V sv tr (Cache (CachedClient cid t))" "guarantee V sv tr (Cache (CachedKeys uri kid t))"
  "guarantee V sv tr (Cache (StoreKeys uri ks t t' ag))"
  by (simp_all add: guarantee_def)

lemma validate_document_uris:
  "validate_document (sv_url_parse sv) (sv_url_to_string sv) cid doc
     (cfg_allowed_client_redirect_uris (sv_cfg sv)) now = Inr c \<Longrightarrow> client_uris_ok sv c"
  by (auto simp: validate_document_def client_uris_ok_def uri_allowed_def list_ex_iff split: if_splits)

lemma guarantee_store_client [simp]:
  "guarantee V sv tr (Cache (StoreClient cid c t t' a)) \<longleftrightarrow> client_uris_ok sv c"
  by (simp add: guarantee_def)

lemma resolve_client_gives:
  "gives (guarantee V sv) (\<lambda>tr' r. \<forall>c. r = Some c \<longrightarrow> resolved sv tr' c) (resolve_client sv cid) tr"
  unfolding resolve_client_def
  by (auto simp: gives_rules resolved_def validate_document_uris split: option.split)

lemma guards_give:
  "gives (guarantee V sv) (\<lambda>_ _. True) (check_rate_limit l ip) tr"
  "gives (guarantee V sv) (\<lambda>_ _. True) (ensure_pending_oauth_state_capacity sv) tr"
  "gives (guarantee V sv) (\<lambda>_ _. True) (upsert_bundle sv u) tr"
  by (auto simp: check_rate_limit_def ensure_pending_oauth_state_capacity_def upsert_bundle_def gives_rules)

lemma allowed_emails_gives:
  "gives (guarantee V sv) (\<lambda>tr' es. \<exists>rows. es = resolve_allowed_emails (sv_cfg sv) rows
      \<and> (Store ListAllowed, GotStore (Inr (RUsers rows))) \<in> set tr') (allowed_emails sv) tr"
  by (auto simp: allowed_emails_def gives_rules)

lemma register_client_handler_gives:
  "gives (guarantee V sv) (reply_ok sv) (register_client_handler sv ip uris) tr"
  unfolding register_client_handler_def gives_attempt
  by (rule gives_mono [OF guards_give(1)])
    (auto simp: gives_rules guarantee_def resolved_def client_uris_ok_def uri_allowed_def find_None_iff
      split: option.split)

lemma browser_login_gives: "gives (guarantee V sv) (reply_ok sv) (browser_login sv ip return_to) tr"
  unfolding browser_login_def gives_attempt
  by (rule gives_mono [OF guards_give(1)], rule gives_mono [OF guards_give(2)])
    (auto simp: gives_rules guarantee_def)

lemma authorize_accept_gives:
  assumes "resolved sv tr c" and "aq_redirect_uri query \<in> set (rc_redirect_uris c)"
    and "aq_code_challenge_method query = ''S256''"
  shows "gives (guarantee V sv) (reply_ok sv) (authorize_accept sv query resource scope) tr"
proof -
  have req: "guarantee V sv tr' (Store (InsertRequest q))"
    if "set tr \<subseteq> set tr'" and "ar_redirect_uri q = aq_redirect_uri query"
      and "ar_code_challenge_method q = ''S256''" for tr' q
    using that assms origin_mono(1) [OF that(1) assms(1)] by (auto simp: guarantee_def)
  have emails: "gives (guarantee V sv) P (allowed_emails sv) tr'"
    if "\<And>tr'' es. P tr'' es" for P :: "trace \<Rightarrow> string list \<Rightarrow> bool" and tr'
    using that by (auto intro: gives_mono [OF allowed_emails_gives])
  show ?thesis
    unfolding authorize_accept_def
    by (auto simp: gives_rules assms(3) intro!: req emails split: list.split option.split)
qed

lemma redirects_ok:
  "authorization_error_redirect sv query code e = Inr r \<Longrightarrow> resolved sv tr c \<Longrightarrow>
   aq_redirect_uri query \<in> set (rc_redirect_uris c) \<Longrightarrow> reply_ok sv tr r"
  "redirect_with sv err uri pairs = Inr r \<Longrightarrow> taken_request tr q \<Longrightarrow> uri = ar_redirect_uri q \<Longrightarrow>
   reply_ok sv tr r"
  "taken_login tr l \<Longrightarrow> reply_ok sv tr (SeeOther (bl_return_to l) [] (Some cookie))"
  by (auto simp: authorization_error_redirect_def redirect_with_def reply_ok_def split: option.splits)

lemma authorize_gives: "gives (guarantee V sv) (reply_ok sv) (authorize sv ip query) tr"
proof -
  have accept: "gives (guarantee V sv) (reply_ok sv) (authorize_accept sv query resource scope) tr'"
    if "resolved sv tr c" "set tr \<subseteq> set tr'" "aq_redirect_uri query \<in> set (rc_redirect_uris c)"
      "aq_code_challenge_method query = ''S256''" for tr tr' c resource scope
    using that authorize_accept_gives origin_mono(1) by blast
  have refuse: "reply_ok sv tr' r"
    if "authorization_error_redirect sv query code e = Inr r" "resolved sv tr c" "set tr \<subseteq> set tr'"
      "aq_redirect_uri query \<in> set (rc_redirect_uris c)" for code e r tr tr' c
    using that redirects_ok(1) origin_mono(1) by blast
  show ?thesis
    unfolding authorize_def gives_attempt
    by (rule gives_mono [OF guards_give(1)], rule gives_mono [OF guards_give(2)],
        rule gives_mono [OF resolve_client_gives])
      (auto simp: gives_rules guarantee_def [of V sv _ "Store (RegisterClient _)"] intro!: accept
        elim!: refuse split: sum.split)
qed

lemma seen_intros:
  "(Store (TakeLogin st now), GotStore (Inr (RLogin (Some l)))) \<in> set tr \<Longrightarrow> taken_login tr l"
  "(Store (TakeRequest st now), GotStore (Inr (RRequest q))) \<in> set tr \<Longrightarrow> taken_request tr q"
  "(Store (RedeemCode code now), GotStore (Inr (RCode c))) \<in> set tr \<Longrightarrow> redeemed tr c"
  "(Store (ClaimRefresh tk cl lease now), GotStore (Inr (RRefresh (Some t)))) \<in> set tr \<Longrightarrow> claimed tr tk cl t"
  by (auto simp: origin_defs)

lemma guarantee_intros:
  "taken_login tr l \<Longrightarrow> signed_in sv tr (bl_provider_code_verifier l) g \<Longrightarrow>
   bs_subject s = gx_subject g \<Longrightarrow> bs_email s = gx_email g \<Longrightarrow> guarantee V sv tr (Store (UpsertSession s))"
  "taken_request tr q \<Longrightarrow> signed_in sv tr (ar_provider_code_verifier q) g \<Longrightarrow> issued_code sv q g c \<Longrightarrow>
   guarantee V sv tr (Store (InsertCode c))"
  by (simp add: guarantee_def, blast)+

lemma create_browser_session_gives:
  assumes "taken_login tr l" and "signed_in sv tr (bl_provider_code_verifier l) g"
  shows "gives (guarantee V sv) (\<lambda>_ _. True) (create_browser_session sv (gx_subject g) (gx_email g)) tr"
proof -
  have step: "guarantee V sv tr' (Store (UpsertSession s))"
    if "set tr \<subseteq> set tr'" "bs_subject s = gx_subject g" "bs_email s = gx_email g" for tr' s
    using that assms origin_mono(2,4) [OF that(1)] guarantee_intros(1) by blast
  show ?thesis
    unfolding create_browser_session_def by (auto simp: gives_rules Let_def intro!: step)
qed

lemma callback_login_gives:
  assumes "taken_login tr l"
  shows "gives (guarantee V sv) (reply_ok sv) (callback_login sv code l) tr"
proof -
  have session: "gives (guarantee V sv) P (create_browser_session sv (gx_subject g) (gx_email g)) tr'"
    if "set tr \<subseteq> set tr'" "(Ask (ExchangeCode code (bl_provider_code_verifier l)), GotGoogle (Inr g)) \<in> set tr'"
      "(Store ListAllowed, GotStore (Inr (RUsers rows))) \<in> set tr'"
      "check_email_allowlist (gx_email g) (gx_email_verified g)
         (resolve_allowed_emails (sv_cfg sv) rows) = Inr ()"
      "\<And>tr x. taken_login tr l \<Longrightarrow> P tr x" for tr' g rows P
  proof (rule gives_mono [OF create_browser_session_gives])
    show login: "taken_login tr' l" using assms origin_mono(4) [OF that(1)] by blast
    show "signed_in sv tr' (bl_provider_code_verifier l) g" using that by (auto simp: signed_in_def)
    show "P tr'' x" if "set tr' \<subseteq> set tr''" for tr'' x
      using \<open>\<And>tr x. taken_login tr l \<Longrightarrow> P tr x\<close> origin_mono(4) [OF that login] by blast
  qed
  show ?thesis
    unfolding callback_login_def gives_attempt gives_exchange_code
    by (auto simp: gives_rules redirects_ok(3) intro!: gives_mono [OF allowed_emails_gives] session)
qed

lemma callback_issue_gives:
  assumes "taken_request tr q" and "signed_in sv tr (ar_provider_code_verifier q) g"
  shows "gives (guarantee V sv) (reply_ok sv) (callback_issue sv q g) tr"
proof -
  have step: "guarantee V sv tr' (Store (InsertCode c))" if "set tr \<subseteq> set tr'" "issued_code sv q g c" for tr' c
    using that assms origin_mono(2,3) [OF that(1)] guarantee_intros(2) by blast
  have taken: "taken_request (tr @ es) q" for es using assms(1) origin_mono(3) [of tr "tr @ es"] by auto
  show ?thesis
    unfolding callback_issue_def
    by (auto simp: gives_rules issued_code_def intro!: step elim!: redirects_ok(2) [OF _ taken])
qed

lemma callback_authorize_gives:
  assumes "taken_request tr q"
  shows "gives (guarantee V sv) (reply_ok sv) (callback_authorize sv code q) tr"
proof -
  have issue: "gives (guarantee V sv) (reply_ok sv) (callback_issue sv q g) tr'"
    if "(Store ListAllowed, GotStore (Inr (RUsers rows))) \<in> set tr1"
      "(Ask (ExchangeCode code (ar_provider_code_verifier q)), GotGoogle (Inr g)) \<in> set tr1"
      "set tr1 \<subseteq> set tr'" "set tr \<subseteq> set tr1"
      "check_email_allowlist em (gx_email_verified g)
         (resolve_allowed_emails (sv_cfg sv) rows) = Inr u" "gx_email g = em" for tr1 tr' g rows u em
  proof (rule callback_issue_gives)
    show "taken_request tr' q" using assms origin_mono(3) that by blast
    show "signed_in sv tr' (ar_provider_code_verifier q) g" using that by (auto simp: signed_in_def)
  qed
  have refuse: "reply_ok sv tr' r"
    if "redirect_with sv err (ar_redirect_uri q) pairs = Inr r" "set tr \<subseteq> set tr'" for err pairs r tr'
    using that assms redirects_ok(2) origin_mono(3) by blast
  show ?thesis
    unfolding callback_authorize_def gives_attempt gives_exchange_code Let_def
    by (auto simp: gives_rules intro!: gives_mono [OF allowed_emails_gives] gives_mono [OF guards_give(3)]
        elim!: refuse split: sum.split option.split) (rule issue; assumption)+
qed

lemma oauth_callback_gives: "gives (guarantee V sv) (reply_ok sv) (oauth_callback sv st code) tr"
  unfolding oauth_callback_def
  by (auto simp: gives_rules labby_res
      intro!: callback_login_gives callback_authorize_gives intro: seen_intros split: option.split)

lemma native_poll_gives: "gives (guarantee V sv) (reply_ok sv) (native_poll st) tr"
  by (auto simp: native_poll_def gives_rules)

text \<open>A context from a session names the subject and the email of a session that was found.\<close>

definition context_ok :: "trace \<Rightarrow> auth_context \<Rightarrow> bool" where
  "context_ok tr ctx =
     (cx_via_session ctx \<longrightarrow>
        (\<exists>s. found_session tr s \<and> bs_subject s = cx_sub ctx \<and> bs_email s = cx_email ctx))"

lemma contexts_ok [simp]:
  "context_ok tr (static_context f scopes)" "context_ok tr (token_context f claims)"
  "found_session tr s \<Longrightarrow> context_ok tr (session_context f scopes s)"
  by (auto simp: context_ok_def static_context_def token_context_def session_context_def)

lemma context_ok_mono: "set tr \<subseteq> set tr' \<Longrightarrow> context_ok tr ctx \<Longrightarrow> context_ok tr' ctx"
  unfolding context_ok_def using origin_mono(7) by blast

lemma granted_gives: "context_ok tr ctx \<Longrightarrow> gives (guarantee V sv) context_ok (granted layer ctx) tr"
  by (auto simp: granted_def gives_rules split: option.split)

lemma found_session_simps [simp]:
  "found_session (tr @ es) s \<longleftrightarrow> found_session tr s \<or> found_session es s" "\<not> found_session [] s"
  "found_session (e # es) s \<longleftrightarrow>
     (\<exists>sid now. e = (Store (FindSession sid now), GotStore (Inr (RSession (Some s))))) \<or> found_session es s"
  by (auto simp: found_session_def)

lemma authenticate_gives:
  "gives (guarantee V sv) context_ok (authenticate layer req) tr"
  "gives (guarantee V sv) context_ok (authenticate_request tok st f res allow req) tr"
  "gives (guarantee V sv) context_ok (authenticate_protected_route_request route st f req) tr"
proof -
  show "gives (guarantee V sv) context_ok (authenticate layer req) tr"
    by (auto simp: authenticate_def bearer_path_def unauthenticated_def gives_rules labby_res
        intro!: granted_gives
        split: option.split sum.split)
  show "gives (guarantee V sv) context_ok (authenticate_request tok st f res allow req) tr"
    by (auto simp: authenticate_request_def request_bearer_def request_unauthenticated_def gives_rules
        labby_res split: option.split sum.split)
  show "gives (guarantee V sv) context_ok (authenticate_protected_route_request route st f req) tr"
    by (auto simp: authenticate_protected_route_request_def gives_rules Let_def split: option.split)
qed

lemma admin_gives:
  assumes "context_ok tr ctx"
  shows "gives (guarantee V sv) (reply_ok sv) (list_allowed_emails sv ctx) tr"
    "gives (guarantee V sv) (reply_ok sv) (add_allowed_email sv ctx raw) tr"
    "gives (guarantee V sv) (reply_ok sv) (delete_allowed_email sv ctx raw) tr"
proof -
  have admin: "admin_session sv tr (cx_sub ctx)"
    if "require_admin ctx (cfg_admin_email (sv_cfg sv)) = Inr ()"
    using that assms
    by (auto simp: require_admin_def context_ok_def admin_session_def split: if_splits option.splits)
  have later: "admin_session sv (tr @ es) (cx_sub ctx)"
    if "require_admin ctx (cfg_admin_email (sv_cfg sv)) = Inr ()" for es
    using origin_mono(8) [of tr "tr @ es"] admin [OF that] by auto
  show "gives (guarantee V sv) (reply_ok sv) (list_allowed_emails sv ctx) tr"
    "gives (guarantee V sv) (reply_ok sv) (add_allowed_email sv ctx raw) tr"
    "gives (guarantee V sv) (reply_ok sv) (delete_allowed_email sv ctx raw) tr"
    using admin later
    by (auto simp: list_allowed_emails_def add_allowed_email_def delete_allowed_email_def admin_call_def
        gives_rules guarantee_def)
qed

section \<open>The token endpoint keeps the guarantee\<close>

lemma validate_client_assertion_gives:
  "gives (guarantee V sv) (\<lambda>_ _. True) (validate_client_assertion sv a cid keys) tr"
  by (auto simp: validate_client_assertion_def gives_rules)

lemma authenticate_machine_client_gives:
  "gives (guarantee V sv) (\<lambda>_ _. True) (authenticate_machine_client sv mc secret ty a) tr"
  by (auto simp: authenticate_machine_client_def gives_rules validate_client_assertion_gives
      split: option.split)

lemma authenticate_oauth_client_gives:
  "gives (guarantee V sv) (\<lambda>_ _. True) (authenticate_oauth_client sv cid secret ty a) tr"
  unfolding authenticate_oauth_client_def
  by (auto simp: gives_rules authenticate_machine_client_gives validate_client_assertion_gives
      intro!: gives_mono [OF resolve_client_gives] split: option.split)

text \<open>What a successful token response says: it is the signature of claims for this subject.\<close>

definition signs :: "server \<Rightarrow> token_response \<Rightarrow> access_claims \<Rightarrow> bool" where
  "signs sv resp claims =
     (sv_sign sv claims = Inr (tr_access_token resp) \<and> ac_token_scope claims = tr_scope resp
      \<and> ac_iss claims = public_base_url (sv_cfg sv)
      \<and> ac_exp claims = ac_iat claims + cfg_access_token_ttl (sv_cfg sv))"

lemma build_token_response_gives:
  "gives (guarantee V sv) (\<lambda>_ resp. tr_refresh_token resp = refresh \<and> (\<exists>claims. signs sv resp claims
      \<and> ac_azp claims = cid \<and> ac_sub claims = subject \<and> ac_aud claims = resource
      \<and> ac_token_scope claims = scope))
     (build_token_response sv cid subject resource scope refresh) tr"
  by (auto simp: build_token_response_def gives_rules signs_def)

text \<open>The subject, client, resource and scope a user token is issued for, with its origin.\<close>

definition user_token ::
    "(string \<times> string) set \<Rightarrow> server \<Rightarrow> trace \<Rightarrow> string \<Rightarrow> string \<Rightarrow> string \<Rightarrow> string \<Rightarrow> bool" where
  "user_token V sv tr cid subject resource scope =
     ((\<exists>c. redeemed tr c \<and> pkce_proved V sv c
         \<and> cid = ac_client_id c \<and> subject = ac_subject c
         \<and> resource = effective_resource sv (ac_resource c) \<and> scope = ac_scope c)
      \<or> (\<exists>tk cl t. claimed tr tk cl t \<and> cid = rt_client_id t \<and> subject = rt_subject t
         \<and> resource = effective_resource sv (rt_resource t)
         \<and> scope = elevate_scope_for_allowed_user (rt_scope t) (cfg_default_scope (sv_cfg sv))))"

definition for_user :: "(string \<times> string) set \<Rightarrow> server \<Rightarrow> trace \<Rightarrow> token_response \<Rightarrow> bool" where
  "for_user V sv tr resp =
     (\<exists>claims. signs sv resp claims
        \<and> user_token V sv tr (ac_azp claims) (ac_sub claims) (ac_aud claims) (ac_token_scope claims))"

lemma user_token_mono:
  "set tr \<subseteq> set tr' \<Longrightarrow> user_token V sv tr cid subject resource scope \<Longrightarrow>
   user_token V sv tr' cid subject resource scope"
  unfolding user_token_def using origin_mono(5,6) by blast

definition token_result :: "(string \<times> string) set \<Rightarrow> server \<Rightarrow> trace \<Rightarrow> token_response \<Rightarrow> bool" where
  "token_result V sv tr resp = (tr_refresh_token resp \<noteq> None \<longrightarrow> for_user V sv tr resp)"

lemma build_for_user:
  assumes "user_token V sv tr cid subject resource scope"
  shows "gives (guarantee V sv) (token_result V sv)
    (build_token_response sv cid subject resource scope refresh) tr"
proof (rule gives_mono [OF build_token_response_gives])
  fix tr' resp
  assume "set tr \<subseteq> set tr'"
  with assms have "user_token V sv tr' cid subject resource scope" by (rule user_token_mono [rotated])
  then show "tr_refresh_token resp = refresh \<and> (\<exists>claims. signs sv resp claims
      \<and> ac_azp claims = cid \<and> ac_sub claims = subject \<and> ac_aud claims = resource
      \<and> ac_token_scope claims = scope) \<Longrightarrow> token_result V sv tr' resp"
    unfolding token_result_def for_user_def by blast
qed

lemma issue_for_code_gives:
  assumes "redeemed tr c" and "(uri, verifier) \<in> V"
  shows "gives (guarantee V sv) (token_result V sv) (issue_for_code sv q cid uri verifier c) tr"
proof -
  have pkce: "pkce_proved V sv c"
    if "validate_authorization_code_row (sv_env sv) c cid uri verifier = Inr ()"
    using that assms(2) by (auto simp: validate_authorization_code_row_def pkce_proved_def split: if_splits)
  have step: "guarantee V sv tr' (Store (UpsertRefresh rng t))"
    if "set tr \<subseteq> set tr'" "validate_authorization_code_row (sv_env sv) c cid uri verifier = Inr ()"
      "rt_client_id t = ac_client_id c" "rt_subject t = ac_subject c"
      "rt_resource t = ac_resource c" "rt_scope t = ac_scope c" for tr' rng t
    using that pkce origin_mono(5) [OF that(1) assms(1)] by (simp add: guarantee_def) metis
  have user: "user_token V sv tr' (ac_client_id c) (ac_subject c)
      (effective_resource sv (ac_resource c)) (ac_scope c)"
    if "set tr \<subseteq> set tr'" "validate_authorization_code_row (sv_env sv) c cid uri verifier = Inr ()" for tr'
    using that pkce origin_mono(5) [OF that(1) assms(1)] by (auto simp: user_token_def)
  show ?thesis
    unfolding issue_for_code_def
    by (auto simp: gives_rules intro!: step build_for_user user split: option.split)
qed

lemma require_field_Inr: "require_field v field = Inr x \<longleftrightarrow> v = Some x"
  by (simp add: require_field_def ok_or_def split: option.split)

lemma authorization_code_grant_gives:
  assumes "presented q \<subseteq> V"
  shows "gives (guarantee V sv) (token_result V sv) (authorization_code_grant sv q) tr"
  using assms unfolding authorization_code_grant_def
  by (auto simp: gives_rules presented_def require_field_Inr intro!: gives_mono [OF authenticate_oauth_client_gives] issue_for_code_gives
      intro: seen_intros)

lemma refresh_rounds_gives:
  "gives (guarantee V sv) (\<lambda>_ g. gx_subject g = subject) (refresh_rounds n sv subject cred) tr"
proof (induction n arbitrary: cred tr)
  case (Suc n)
  have stored: "gives (guarantee V sv) P (upsert_bundle sv u) tr'" if "\<And>tr x. P tr x" for P u tr'
    using that by (auto intro: gives_mono [OF guards_give(3)])
  show ?case
    by (auto simp: gives_rules Suc.IH intro!: stored split: sum.split auth_error.split)
qed (simp add: gives_rules)

lemma refresh_google_gives:
  "gives (guarantee V sv) (\<lambda>_ g. gx_subject g = subject) (refresh_google_provider_credential sv subject) tr"
  by (auto simp: refresh_google_provider_credential_def gives_rules refresh_rounds_gives)

lemma complete_claimed_refresh_gives:
  assumes "claimed tr token claim t"
  shows "gives (guarantee V sv) (token_result V sv) (complete_claimed_refresh sv cid token claim requested t) tr"
proof -
  let ?scope = "elevate_scope_for_allowed_user (rt_scope t) (cfg_default_scope (sv_cfg sv))"
  let ?resource = "effective_resource sv (rt_resource t)"
  have step: "guarantee V sv tr' (Store (RotateClaimed rng token claim t' now))"
    if "set tr \<subseteq> set tr'" "rt_client_id t' = rt_client_id t" "rt_subject t' = rt_subject t"
      "rt_resource t' = ?resource" "rt_scope t' = ?scope" for tr' rng t' now
    using that origin_mono(6) [OF that(1) assms] by (auto simp: guarantee_def)
  have user: "user_token V sv tr' (rt_client_id t) (rt_subject t) ?resource ?scope"
    if "set tr \<subseteq> set tr'" for tr'
    using origin_mono(6) [OF that assms] unfolding user_token_def by blast
  have result: "token_result V sv (tr' @ es) resp" if "token_result V sv tr' resp" for tr' es resp
    using that user_token_mono [of tr' "tr' @ es"] by (auto simp: token_result_def for_user_def)
  have built: "gives (guarantee V sv) P
      (build_token_response sv (rt_client_id t) (rt_subject t) ?resource ?scope refresh) tr'"
    if "set tr \<subseteq> set tr'" "\<And>tr'' resp. set tr' \<subseteq> set tr'' \<Longrightarrow> token_result V sv tr'' resp \<Longrightarrow> P tr'' resp"
    for P refresh tr'
    using that(2) by (rule gives_mono [OF build_for_user [OF user [OF that(1)]]])
  show ?thesis
    unfolding complete_claimed_refresh_def Let_def
    by (auto simp: gives_rules del: subsetI intro!: gives_mono [OF refresh_google_gives] built step
        subset_insertI2 result split: option.split) blast+
qed

lemma refresh_token_grant_gives:
  "gives (guarantee V sv) (token_result V sv) (refresh_token_grant sv q) tr"
proof -
  have complete: "keeps (guarantee V sv) (\<lambda>tr r. gives (guarantee V sv) (token_result V sv)
        (case r of Inr response \<Rightarrow> done_with response
         | Inl e \<Rightarrow> attempt (call (ReleaseClaim token claim) as_unit) (\<lambda>_. fail e)) tr)
      (complete_claimed_refresh sv cid token claim requested t) tr'"
    if "claimed tr' token claim t" for token claim cid requested t tr'
    using complete_claimed_refresh_gives [OF that] unfolding gives_def [of _ _ "complete_claimed_refresh _ _ _ _ _ _"]
    by (rule keeps_mono) (auto simp: gives_rules split: sum.split)
  show ?thesis
    unfolding refresh_token_grant_def
    by (auto simp: gives_rules intro!: gives_mono [OF authenticate_oauth_client_gives] complete
        intro: seen_intros)
qed

lemma build_without_refresh:
  "gives (guarantee V sv) (token_result V sv) (build_token_response sv cid subject resource scope None) tr"
  by (rule gives_mono [OF build_token_response_gives]) (simp add: token_result_def)

lemma client_credentials_grant_gives:
  "gives (guarantee V sv) (token_result V sv) (client_credentials_grant sv q) tr"
  unfolding client_credentials_grant_def Let_def
  by (auto simp: gives_rules build_without_refresh intro!: gives_mono [OF authenticate_machine_client_gives])

lemma load_enterprise_jwks_gives:
  "gives (guarantee V sv) (\<lambda>_ _. True) (load_enterprise_jwks sv issuer kid) tr"
  by (auto simp: load_enterprise_jwks_def gives_rules split: option.split)

lemma enterprise_managed_grant_gives:
  "gives (guarantee V sv) (token_result V sv) (enterprise_managed_grant sv q) tr"
  unfolding enterprise_managed_grant_def
  by (auto simp: gives_rules build_without_refresh intro!: gives_mono [OF load_enterprise_jwks_gives]
      gives_mono [OF authenticate_oauth_client_gives] split: option.split)

lemma gives_as_token_error: "gives G P (as_token_error p) tr \<longleftrightarrow> gives G P p tr"
  unfolding as_token_error_def gives_bindp by (subst (2) gives_def) (simp add: gives_Ret)

lemma token_endpoint_gives:
  assumes "presented q \<subseteq> V"
  shows "gives (guarantee V sv) (token_result V sv) (token_endpoint sv ip authorization q) tr"
  unfolding token_endpoint_def gives_attempt gives_as_token_error
  by (rule gives_mono [OF guards_give(1)])
    (use assms in \<open>auto simp: gives_rules grant_def gives_as_token_error authorization_code_grant_gives
      refresh_token_grant_gives client_credentials_grant_gives enterprise_managed_grant_gives\<close>)

lemma revoke_endpoint_gives:
  "gives (guarantee V sv) (\<lambda>_ _. True) (revoke_endpoint sv ip authorization q) tr"
  unfolding revoke_endpoint_def gives_attempt gives_as_token_error
  by (rule gives_mono [OF guards_give(1)])
    (auto simp: gives_rules intro!: gives_mono [OF authenticate_oauth_client_gives] split: option.split)

text \<open>
  The meaning of a response: a token the token endpoint returns has its origin, and redirects
  go where they may.
\<close>

definition response_ok :: "(string \<times> string) set \<Rightarrow> server \<Rightarrow> request \<Rightarrow> trace \<Rightarrow> response \<Rightarrow> bool" where
  "response_ok V sv req tr resp =
     ((\<forall>ip authorization q t. req = Token ip authorization q \<longrightarrow> resp = Reply (TokenReply t) \<longrightarrow>
        token_result V sv tr t)
      \<and> (\<forall>reply. resp = Reply reply \<longrightarrow> reply_ok sv tr reply)
      \<and> (\<forall>ctx. resp = Forwarded ctx \<longrightarrow> context_ok tr ctx))"

lemma response_ok_stable: "stable (\<lambda>tr. response_ok V sv req tr resp)"
proof -
  have reply: "reply_ok sv tr r \<Longrightarrow> reply_ok sv tr' r" if "set tr \<subseteq> set tr'" for tr tr' r
  proof (cases r)
    case (SeeOther uri pairs cookie)
    show "reply_ok sv tr r \<Longrightarrow> reply_ok sv tr' r"
      by (simp only: reply_ok_def SeeOther http_reply.case split: if_splits)
        (blast intro: origin_mono(1,3,4) [OF that])+
  qed simp_all
  have token: "token_result V sv tr t \<Longrightarrow> token_result V sv tr' t" if "set tr \<subseteq> set tr'" for tr tr' t
    unfolding token_result_def for_user_def by (blast intro: user_token_mono [OF that])
  have "response_ok V sv req tr' resp" if "set tr \<subseteq> set tr'" and "response_ok V sv req tr resp" for tr tr'
    using that(2) unfolding response_ok_def
    by (intro conjI allI impI)
      (blast intro: token [OF that(1)], blast intro: reply [OF that(1)], blast intro: context_ok_mono [OF that(1)])
  then show ?thesis by (simp add: stable_def)
qed

lemma reply_with_keeps:
  assumes "gives (guarantee V sv) P p tr"
    and "\<And>tr x. P tr x \<Longrightarrow> response_ok V sv req tr (Reply (g x))"
    and "\<And>tr e. response_ok V sv req tr (f e)"
  shows "keeps (guarantee V sv) (response_ok V sv req) (reply_with f g p) tr"
  unfolding reply_with_def keeps_bindp
  by (rule keeps_mono [OF assms(1) [unfolded gives_def]])
    (use assms(2,3) in \<open>auto split: sum.split\<close>)

lemma behind_keeps:
  assumes "gives (guarantee V sv) context_ok auth tr"
    and "\<And>rej tr. Q tr (Rejected rej)"
    and "\<And>tr ctx. context_ok tr ctx \<Longrightarrow> keeps (guarantee V sv) Q (h ctx) tr"
  shows "keeps (guarantee V sv) Q (behind auth h) tr"
  unfolding behind_def keeps_bindp
  by (rule keeps_mono [OF assms(1) [unfolded gives_def]]) (use assms(2,3) in \<open>auto split: sum.split\<close>)

lemma session_routes_keep:
  "keeps (guarantee V sv) (\<lambda>_ _. True) (auth_session sv' req) tr"
  "keeps (guarantee V sv) (\<lambda>_ _. True) (auth_logout sv' req) tr"
  by (auto simp: auth_session_def auth_logout_def Let_def now_unix_def call_def split: option.split sum.split)

lemma serve_keeps:
  assumes "\<And>ip authorization q. req = Token ip authorization q \<Longrightarrow> presented q \<subseteq> V"
  shows "keeps (guarantee V sv) (response_ok V sv req) (serve sv req) tr"
proof -
  have session: "keeps (guarantee V sv) (response_ok V sv req) (bindp p (\<lambda>r. Ret (SessionReply r))) tr"
    if "keeps (guarantee V sv) (\<lambda>_ _. True) p tr" for p
    unfolding keeps_bindp by (rule keeps_mono [OF that]) (simp add: response_ok_def)
  show ?thesis
  proof (cases req)
    case (NativeCallback st)
    then show ?thesis by (simp add: reply_with_def response_ok_def native_callback_def)
  qed (auto intro!: reply_with_keeps behind_keeps browser_login_gives register_client_handler_gives
      authorize_gives oauth_callback_gives native_poll_gives token_endpoint_gives revoke_endpoint_gives
      admin_gives authenticate_gives(1,3) authenticate_gives(2)
      session_routes_keep
      simp: response_ok_def authenticate_mcp_def dest: assms)
qed

section \<open>Where rows come from\<close>

text \<open>The rows of a table after an operation were there before or are the ones it wrote.\<close>

lemma request_rows:
  "q \<in> set (auth_requests (snd (exec env op db))) \<Longrightarrow> q \<in> set (auth_requests db) \<or> op = InsertRequest q"
  by (cases op)
    (auto simp: store_defs Let_def split: option.splits sum.splits prod.splits if_splits dest!: row_origins)

lemma code_rows:
  "c \<in> set (auth_codes (snd (exec env op db))) \<Longrightarrow> c \<in> set (auth_codes db) \<or> op = InsertCode c"
  by (cases op)
    (auto simp: store_defs Let_def split: option.splits sum.splits prod.splits if_splits dest!: row_origins)

lemma login_rows:
  "l \<in> set (browser_login_states (snd (exec env op db))) \<Longrightarrow>
   l \<in> set (browser_login_states db) \<or> op = InsertLogin l"
  by (cases op)
    (auto simp: store_defs Let_def split: option.splits sum.splits prod.splits if_splits dest!: row_origins)

lemma session_rows:
  "s \<in> set (browser_sessions (snd (exec env op db))) \<Longrightarrow> s \<in> set (browser_sessions db)
   \<or> (\<exists>s'. op = UpsertSession s' \<and> bs_subject s = bs_subject s' \<and> bs_email s = bs_email s')"
  by (cases op)
    (auto simp: store_defs Let_def split: option.splits sum.splits prod.splits if_splits dest!: row_origins)

lemma client_rows:
  "c \<in> set (clients (snd (exec env op db))) \<Longrightarrow> c \<in> set (clients db)
   \<or> (\<exists>c'. op = RegisterClient c' \<and> rc_redirect_uris c = rc_redirect_uris c')"
  by (cases op)
    (auto simp: store_defs Let_def client_row_def
      split: option.splits sum.splits prod.splits if_splits dest!: row_origins)

lemma user_rows:
  "r \<in> set (allowed_users (snd (exec env op db))) \<Longrightarrow> r \<in> set (allowed_users db)
   \<or> (\<exists>email by now. op = AddAllowedUser email by now \<and> au_added_by r = by)"
  by (cases op)
    (auto simp: store_defs Let_def split: option.splits sum.splits prod.splits if_splits dest!: row_origins)

text \<open>What identifies the grant a refresh token stands for.\<close>

definition same_grant :: "refresh_token_db \<Rightarrow> refresh_token_row \<Rightarrow> bool" where
  "same_grant r t =
     (rd_client_id r = rt_client_id t \<and> rd_subject r = rt_subject t
      \<and> rd_resource r = rt_resource t \<and> rd_scope r = rt_scope t)"

definition writes_refresh :: "store_op \<Rightarrow> refresh_token_row \<Rightarrow> bool" where
  "writes_refresh op t =
     ((\<exists>rng. op = UpsertRefresh rng t) \<or> (\<exists>rng tk cl now. op = RotateClaimed rng tk cl t now)
      \<or> (\<exists>rng tk now. op = RotateRefresh rng tk t now))"

lemma refresh_rows:
  "r \<in> set (refresh_tokens (snd (exec env op db))) \<Longrightarrow>
   (\<exists>r' \<in> set (refresh_tokens db). \<forall>t. same_grant r t \<longleftrightarrow> same_grant r' t)
   \<or> (\<exists>t. writes_refresh op t \<and> same_grant r t)"
  by (cases op)
    (auto simp: store_defs Let_def same_grant_def writes_refresh_def refresh_db_row_def
      split: option.splits sum.splits prod.splits if_splits dest!: row_origins)

section \<open>The invariant\<close>

definition request_ok :: "server \<Rightarrow> trace \<Rightarrow> authorization_request_row \<Rightarrow> bool" where
  "request_ok sv tr q =
     (uri_allowed sv (ar_redirect_uri q) \<and> ar_code_challenge_method q = ''S256''
      \<and> (\<exists>r. (Store (InsertRequest q), GotStore r) \<in> set tr))"

definition code_ok :: "server \<Rightarrow> trace \<Rightarrow> authorization_code_row \<Rightarrow> bool" where
  "code_ok sv tr c =
     (\<exists>q g. request_ok sv tr q \<and> taken_request tr q
        \<and> signed_in sv tr (ar_provider_code_verifier q) g \<and> issued_code sv q g c)"

definition grant_ok :: "(string \<times> string) set \<Rightarrow> server \<Rightarrow> trace \<Rightarrow> refresh_token_row \<Rightarrow> bool" where
  "grant_ok V sv tr t =
     (\<exists>c. code_ok sv tr c \<and> redeemed tr c \<and> pkce_proved V sv c
        \<and> rt_client_id t = ac_client_id c \<and> rt_subject t = ac_subject c
        \<and> effective_resource sv (rt_resource t) = effective_resource sv (ac_resource c)
        \<and> rt_scope t = ac_scope c)"

definition clients_inv :: "server \<Rightarrow> trace \<Rightarrow> shared \<Rightarrow> bool" where
  "clients_inv sv tr sh =
     ((\<forall>c \<in> set (clients (sh_db sh)). client_uris_ok sv c)
      \<and> (\<forall>(k, c, e) \<in> set (sh_clients sh). client_uris_ok sv c)
      \<and> (\<forall>c. resolved sv tr c \<longrightarrow> client_uris_ok sv c))"

definition requests_inv :: "server \<Rightarrow> trace \<Rightarrow> shared \<Rightarrow> bool" where
  "requests_inv sv tr sh =
     (\<forall>q. q \<in> set (auth_requests (sh_db sh)) \<or> taken_request tr q \<longrightarrow> request_ok sv tr q)"

definition codes_inv :: "server \<Rightarrow> trace \<Rightarrow> shared \<Rightarrow> bool" where
  "codes_inv sv tr sh =
     (\<forall>c. c \<in> set (auth_codes (sh_db sh)) \<or> redeemed tr c \<longrightarrow> code_ok sv tr c)"

definition grants_inv :: "(string \<times> string) set \<Rightarrow> server \<Rightarrow> trace \<Rightarrow> shared \<Rightarrow> bool" where
  "grants_inv V sv tr sh =
     ((\<forall>r \<in> set (refresh_tokens (sh_db sh)). \<exists>t. same_grant r t \<and> grant_ok V sv tr t)
      \<and> (\<forall>tk cl t. claimed tr tk cl t \<longrightarrow> grant_ok V sv tr t))"

lemma grants_claimed: "grants_inv V sv tr sh \<Longrightarrow> claimed tr tk cl t \<Longrightarrow> grant_ok V sv tr t"
  unfolding grants_inv_def by blast

lemma ok_mono:
  assumes "set tr \<subseteq> set tr'"
  shows "request_ok sv tr q \<Longrightarrow> request_ok sv tr' q" "code_ok sv tr c \<Longrightarrow> code_ok sv tr' c"
    "grant_ok V sv tr t \<Longrightarrow> grant_ok V sv tr' t"
proof -
  show req: "request_ok sv tr q \<Longrightarrow> request_ok sv tr' q" for q
    using assms by (auto simp: request_ok_def)
  show code: "code_ok sv tr c \<Longrightarrow> code_ok sv tr' c" for c
    unfolding code_ok_def using req origin_mono [OF assms] by blast
  show "grant_ok V sv tr t \<Longrightarrow> grant_ok V sv tr' t"
    unfolding grant_ok_def using code origin_mono(5) [OF assms] by blast
qed

lemma effective_resource_idem [simp]:
  "effective_resource sv (effective_resource sv r) = effective_resource sv r"
  by (simp add: effective_resource_def)

text \<open>Elevating twice is elevating once, if the configured scope holds no whitespace.\<close>

lemma elevate_idem:
  assumes "ws_free (admin_scope_of d)"
  shows "elevate_scope_for_allowed_user (elevate_scope_for_allowed_user s d) d
    = elevate_scope_for_allowed_user s d"
proof -
  define ws where "ws = filter (\<lambda>w. w \<noteq> []) (split_whitespace s)"
  define L where "L = (if admin_scope_of d \<in> set ws then ws else ws @ [admin_scope_of d])"
  have once: "elevate_scope_for_allowed_user s d = join '' '' L"
    by (simp only: elevate_scope_for_allowed_user_def Let_def L_def ws_def)
  have "\<forall>w \<in> set ws. ws_free w \<and> w \<noteq> []" using split_whitespace_ws_free by (auto simp: ws_def)
  then have words: "\<forall>w \<in> set L. ws_free w \<and> w \<noteq> []"
    using assms by (auto simp: L_def admin_scope_of_def)
  then have "filter (\<lambda>w. w \<noteq> []) L = L" by (simp add: filter_id_conv)
  moreover have "admin_scope_of d \<in> set L" by (simp add: L_def)
  ultimately show ?thesis
    unfolding once unfolding elevate_scope_for_allowed_user_def Let_def split_whitespace_join [OF words]
    by simp
qed

definition logins_inv :: "server \<Rightarrow> trace \<Rightarrow> shared \<Rightarrow> bool" where
  "logins_inv sv tr sh =
     (\<forall>l. l \<in> set (browser_login_states (sh_db sh)) \<or> taken_login tr l \<longrightarrow>
        (\<exists>requested. bl_return_to l = sanitize_return_to (sv_url_parse sv) (sv_cfg sv) requested))"

definition session_ok :: "server \<Rightarrow> trace \<Rightarrow> browser_session_row \<Rightarrow> bool" where
  "session_ok sv tr s =
     (\<exists>l g. taken_login tr l \<and> signed_in sv tr (bl_provider_code_verifier l) g
        \<and> bs_subject s = gx_subject g \<and> bs_email s = gx_email g)"

definition sessions_inv :: "server \<Rightarrow> trace \<Rightarrow> shared \<Rightarrow> bool" where
  "sessions_inv sv tr sh =
     (\<forall>s. s \<in> set (browser_sessions (sh_db sh)) \<or> found_session tr s \<longrightarrow> session_ok sv tr s)"

definition listed :: "trace \<Rightarrow> allowed_user_row \<Rightarrow> bool" where
  "listed tr r = (\<exists>rows. (Store ListAllowed, GotStore (Inr (RUsers rows))) \<in> set tr \<and> r \<in> set rows)"

definition users_inv :: "server \<Rightarrow> trace \<Rightarrow> shared \<Rightarrow> bool" where
  "users_inv sv tr sh =
     (\<forall>r. r \<in> set (allowed_users (sh_db sh)) \<or> listed tr r \<longrightarrow> admin_session sv tr (au_added_by r))"

section \<open>The invariant holds in every run\<close>

lemma set_cache_store:
  "x \<in> set (cache_store cap k v now now' age c) \<Longrightarrow> x = (k, v, i64_sat (now' + age)) \<or> x \<in> set c"
  by (auto simp: cache_store_def dash_insert_def evict_oldest_def retain_live_def
      split: if_splits option.splits)

lemma cache_lookup_in: "cache_lookup k now c = Some v \<Longrightarrow> \<exists>e. (k, v, e) \<in> set c"
  by (auto simp: cache_lookup_def split: option.splits if_splits dest!: map_of_SomeD)

text \<open>What one event adds to the origins.\<close>

lemma seen_snoc:
  "resolved sv (tr @ [(act, out)]) c \<longleftrightarrow> resolved sv tr c
     \<or> (\<exists>cid. act = Store (FindClient cid) \<and> out = GotStore (Inr (RClient (Some c))))
     \<or> (\<exists>cid now. act = Cache (CachedClient cid now) \<and> out = GotClient (Some c))"
  "taken_request (tr @ [(act, out)]) q \<longleftrightarrow> taken_request tr q
     \<or> (\<exists>st now. act = Store (TakeRequest st now) \<and> out = GotStore (Inr (RRequest q)))"
  "taken_login (tr @ [(act, out)]) l \<longleftrightarrow> taken_login tr l
     \<or> (\<exists>st now. act = Store (TakeLogin st now) \<and> out = GotStore (Inr (RLogin (Some l))))"
  "redeemed (tr @ [(act, out)]) cd \<longleftrightarrow> redeemed tr cd
     \<or> (\<exists>code now. act = Store (RedeemCode code now) \<and> out = GotStore (Inr (RCode cd)))"
  "claimed (tr @ [(act, out)]) tk cl t \<longleftrightarrow> claimed tr tk cl t
     \<or> (\<exists>lease now. act = Store (ClaimRefresh tk cl lease now) \<and> out = GotStore (Inr (RRefresh (Some t))))"
  by (auto simp: origin_defs)

lemma map_sum_Inr: "map_sum id f r = Inr y \<longleftrightarrow> (\<exists>x. r = Inr x \<and> y = f x)"
  by (cases r) auto

text \<open>What the store hands out is a row of its tables.\<close>

lemma handed_out:
  "fst (exec env (FindClient cid) db) = Inr (RClient (Some c)) \<Longrightarrow> c \<in> set (clients db)"
  "fst (exec env (TakeRequest st now) db) = Inr (RRequest q) \<Longrightarrow> q \<in> set (auth_requests db)"
  "fst (exec env (RedeemCode code now) db) = Inr (RCode cd) \<Longrightarrow> cd \<in> set (auth_codes db)"
  "fst (exec env (TakeLogin st now) db) = Inr (RLogin (Some l)) \<Longrightarrow> l \<in> set (browser_login_states db)"
  "fst (exec env (FindSession sid now) db) = Inr (RSession (Some s)) \<Longrightarrow> s \<in> set (browser_sessions db)"
  "fst (exec env ListAllowed db) = Inr (RUsers rows) \<Longrightarrow> r \<in> set rows \<Longrightarrow> r \<in> set (allowed_users db)"
  by (auto simp: fst_returning map_sum_Inr find_client_def take_authorization_request_def
      find_browser_session_def list_allowed_users_def sql_order_limit_def
      take_browser_login_state_def
      redeem_auth_code_def Let_def ok_or_def dest: sql_first_Some split: option.splits)

lemma claim_hands_out:
  assumes "fst (exec env (ClaimRefresh tk cl lease now) db) = Inr (RRefresh (Some t))"
  shows "\<exists>r \<in> set (refresh_tokens db). same_grant r t"
proof -
  let ?f = "\<lambda>r. r\<lparr>rd_claim_id := Some cl, rd_claim_expires_at := Some lease\<rparr>"
  let ?rows = "sql_update (claimable (hash_token env tk) now) ?f (refresh_tokens db)"
  from assms obtain r where r: "r \<in> set ?rows" "read_refresh_row env tk r = Inr t"
    by (auto simp: fst_returning map_sum_Inr claim_refresh_token_def Let_def and_then_Inr
        split: if_splits option.splits dest!: sql_first_Some)
  from r(2) have "same_grant r t"
    by (auto simp: read_refresh_row_def Let_def same_grant_def and_then_Inr split: option.splits)
  with set_sql_update [OF r(1)] show ?thesis by (auto simp: same_grant_def)
qed

lemma step_cases:
  assumes "performs env act sh out sh'"
  obtains (store) op r where "act = Store op" "out = GotStore r" "r = fst (exec env op (sh_db sh))"
      "sh' = sh\<lparr>sh_db := snd (exec env op (sh_db sh))\<rparr>"
  | (cache) op where "act = Cache op" "(out, sh') = cache_step op sh"
  | (ask) q where "act = Ask q" "sh' = sh"
  using assms by (cases act) (auto split: prod.splits)

lemma clients_step:
  assumes "clients_inv sv tr sh" and "guarantee V sv tr act" and "performs env act sh out sh'"
  shows "clients_inv sv (tr @ [(act, out)]) sh'"
  using assms(3)
proof (cases rule: step_cases)
  case (store op r)
  have "client_uris_ok sv c" if "c \<in> set (clients (sh_db sh'))" for c
    using client_rows [of c env op "sh_db sh"] that assms(1,2) store
    by (auto simp: clients_inv_def guarantee_def client_uris_ok_def)
  moreover have "client_uris_ok sv c" if "resolved sv (tr @ [(act, out)]) c" for c
    using that assms(1) store handed_out(1) [of env _ "sh_db sh" c]
    by (auto simp: seen_snoc clients_inv_def simp del: exec.simps)
  ultimately show ?thesis using assms(1) store by (auto simp: clients_inv_def)
next
  case (cache op)
  then show ?thesis
    using assms(1,2)
    by (cases op)
      (auto simp: clients_inv_def seen_snoc dest!: set_cache_store cache_lookup_in)
next
  case (ask q)
  with assms(1) show ?thesis by (auto simp: clients_inv_def seen_snoc)
qed

lemma requests_step:
  assumes "clients_inv sv tr sh" and "requests_inv sv tr sh" and "guarantee V sv tr act"
    and "performs env act sh out sh'"
  shows "requests_inv sv (tr @ [(act, out)]) sh'"
proof -
  have old: "request_ok sv (tr @ [(act, out)]) q"
    if "q \<in> set (auth_requests (sh_db sh)) \<or> taken_request tr q" for q
    using that assms(2) ok_mono(1) [of tr "tr @ [(act, out)]"] by (auto simp: requests_inv_def)
  show ?thesis
    using assms(4)
  proof (cases rule: step_cases)
    case (store op r)
    have "request_ok sv (tr @ [(act, out)]) q" if "q \<in> set (auth_requests (sh_db sh'))" for q
      using request_rows [of q env op "sh_db sh"] that old store assms(1,3)
      by (auto simp: request_ok_def guarantee_def clients_inv_def client_uris_ok_def)
    moreover have "request_ok sv (tr @ [(act, out)]) q" if "taken_request (tr @ [(act, out)]) q" for q
      using that old store handed_out(2) [of env _ _ "sh_db sh" q]
      by (auto simp: seen_snoc simp del: exec.simps)
    ultimately show ?thesis by (auto simp: requests_inv_def)
  next
    case (cache op)
    with old show ?thesis by (cases op) (auto simp: requests_inv_def seen_snoc)
  next
    case (ask q)
    with old show ?thesis by (auto simp: requests_inv_def seen_snoc)
  qed
qed

lemma codes_step:
  assumes "requests_inv sv tr sh" and "codes_inv sv tr sh" and "guarantee V sv tr act"
    and "performs env act sh out sh'"
  shows "codes_inv sv (tr @ [(act, out)]) sh'"
proof -
  have old: "code_ok sv (tr @ [(act, out)]) c"
    if "c \<in> set (auth_codes (sh_db sh)) \<or> redeemed tr c" for c
    using that assms(2) ok_mono(2) [of tr "tr @ [(act, out)]"] by (auto simp: codes_inv_def)
  show ?thesis
    using assms(4)
  proof (cases rule: step_cases)
    case (store op r)
    have new: "code_ok sv (tr @ [(act, out)]) c" if "op = InsertCode c" for c
    proof (rule ok_mono(2))
      from that store assms(3) obtain q g where "taken_request tr q"
        "signed_in sv tr (ar_provider_code_verifier q) g" "issued_code sv q g c"
        by (auto simp: guarantee_def)
      with assms(1) show "code_ok sv tr c" by (auto simp: code_ok_def requests_inv_def)
    qed auto
    have "code_ok sv (tr @ [(act, out)]) c" if "c \<in> set (auth_codes (sh_db sh'))" for c
      using code_rows [of c env op "sh_db sh"] that old new store by auto
    moreover have "code_ok sv (tr @ [(act, out)]) c" if "redeemed (tr @ [(act, out)]) c" for c
      using that old store handed_out(3) [of env _ _ "sh_db sh" c]
      by (auto simp: seen_snoc simp del: exec.simps)
    ultimately show ?thesis by (auto simp: codes_inv_def)
  next
    case (cache op)
    with old show ?thesis by (cases op) (auto simp: codes_inv_def seen_snoc)
  next
    case (ask q)
    with old show ?thesis by (auto simp: codes_inv_def seen_snoc)
  qed
qed

lemma rotated_grant_ok:
  assumes "grant_ok V sv tr old" and "ws_free (admin_scope_of (cfg_default_scope (sv_cfg sv)))"
    and "rt_client_id t = rt_client_id old" and "rt_subject t = rt_subject old"
    and "rt_resource t = effective_resource sv (rt_resource old)"
    and "rt_scope t = elevate_scope_for_allowed_user (rt_scope old) (cfg_default_scope (sv_cfg sv))"
  shows "grant_ok V sv tr t"
proof -
  from assms(1) obtain c where c: "code_ok sv tr c" "redeemed tr c" "pkce_proved V sv c"
    "rt_client_id old = ac_client_id c" "rt_subject old = ac_subject c"
    "effective_resource sv (rt_resource old) = effective_resource sv (ac_resource c)"
    "rt_scope old = ac_scope c"
    by (auto simp: grant_ok_def)
  from c(1) have "elevate_scope_for_allowed_user (ac_scope c) (cfg_default_scope (sv_cfg sv)) = ac_scope c"
    by (auto simp: code_ok_def issued_code_def elevate_idem [OF assms(2)])
  with c assms(3-6) show ?thesis by (auto simp: grant_ok_def)
qed

lemma grants_step:
  assumes ws: "ws_free (admin_scope_of (cfg_default_scope (sv_cfg sv)))"
    and "codes_inv sv tr sh" and "grants_inv V sv tr sh" and "guarantee V sv tr act"
    and "performs env act sh out sh'"
  shows "grants_inv V sv (tr @ [(act, out)]) sh'"
proof -
  have old: "\<exists>t. same_grant r t \<and> grant_ok V sv (tr @ [(act, out)]) t"
    if "r \<in> set (refresh_tokens (sh_db sh))" for r
    using that assms(3) ok_mono(3) [of tr "tr @ [(act, out)]"] by (fastforce simp: grants_inv_def)
  have seen: "grant_ok V sv (tr @ [(act, out)]) t" if "claimed tr tk cl t" for tk cl t
    using grants_claimed [OF assms(3) that] ok_mono(3) [of tr "tr @ [(act, out)]" V sv t]
    by (simp add: subset_insertI)
  show ?thesis
    using assms(5)
  proof (cases rule: step_cases)
    case (store op r)
    have new: "grant_ok V sv (tr @ [(act, out)]) t" if w: "writes_refresh op t" for t
    proof (rule ok_mono(3))
      consider (upsert) rng where "op = UpsertRefresh rng t"
        | (rotate) rng tk cl now where "op = RotateClaimed rng tk cl t now"
        using w store(1) assms(4) by (auto simp: writes_refresh_def guarantee_def)
      then show "grant_ok V sv tr t"
      proof cases
        case upsert
        with store(1) assms(2,4) show ?thesis by (auto simp: guarantee_def grant_ok_def codes_inv_def)
      next
        case rotate
        with store(1) assms(4) obtain old where "claimed tr tk cl old"
          "rt_client_id t = rt_client_id old" "rt_subject t = rt_subject old"
          "rt_resource t = effective_resource sv (rt_resource old)"
          "rt_scope t = elevate_scope_for_allowed_user (rt_scope old) (cfg_default_scope (sv_cfg sv))"
          by (auto simp: guarantee_def)
        with grants_claimed [OF assms(3)] show ?thesis by (blast intro: rotated_grant_ok [OF _ ws])
      qed
    qed auto
    have "\<exists>t. same_grant r t \<and> grant_ok V sv (tr @ [(act, out)]) t"
      if "r \<in> set (refresh_tokens (sh_db sh'))" for r
      using refresh_rows [of r env op "sh_db sh"] that store old new by auto
    moreover have "grant_ok V sv (tr @ [(act, out)]) t" if c: "claimed (tr @ [(act, out)]) tk cl t" for tk cl t
    proof (cases "claimed tr tk cl t")
      case False
      with c store obtain r' where r': "r' \<in> set (refresh_tokens (sh_db sh))" "same_grant r' t"
        using claim_hands_out [of env tk cl _ _ "sh_db sh" t] by (auto simp: seen_snoc simp del: exec.simps)
      from old [OF r'(1)] obtain t' where "same_grant r' t'" "grant_ok V sv (tr @ [(act, out)]) t'" by blast
      with r'(2) show ?thesis by (auto simp: same_grant_def grant_ok_def)
    qed (rule seen)
    ultimately show ?thesis by (auto simp: grants_inv_def)
  next
    case (cache op)
    with old seen show ?thesis by (cases op) (auto simp: grants_inv_def seen_snoc)
  next
    case (ask q)
    with old seen show ?thesis by (auto simp: grants_inv_def seen_snoc)
  qed
qed

lemma logins_step:
  assumes "logins_inv sv tr sh" and "guarantee V sv tr act" and "performs env act sh out sh'"
  shows "logins_inv sv (tr @ [(act, out)]) sh'"
  using assms(3)
proof (cases rule: step_cases)
  case (store op r)
  have "\<exists>rq. bl_return_to l = sanitize_return_to (sv_url_parse sv) (sv_cfg sv) rq"
    if "l \<in> set (browser_login_states (sh_db sh'))" for l
    using login_rows [of l env op "sh_db sh"] that assms(1,2) store
    by (auto simp: logins_inv_def guarantee_def)
  moreover have "\<exists>rq. bl_return_to l = sanitize_return_to (sv_url_parse sv) (sv_cfg sv) rq"
    if "taken_login (tr @ [(act, out)]) l" for l
    using that assms(1) store handed_out(4) [of env _ _ "sh_db sh" l]
    by (auto simp: seen_snoc logins_inv_def simp del: exec.simps)
  ultimately show ?thesis by (auto simp: logins_inv_def)
next
  case (cache op)
  with assms(1) show ?thesis by (cases op) (auto simp: logins_inv_def seen_snoc)
next
  case (ask q)
  with assms(1) show ?thesis by (auto simp: logins_inv_def seen_snoc)
qed

lemma sessions_step:
  assumes "sessions_inv sv tr sh" and "guarantee V sv tr act" and "performs env act sh out sh'"
  shows "sessions_inv sv (tr @ [(act, out)]) sh'"
proof -
  have "set tr \<subseteq> set (tr @ [(act, out)])" by auto
  from origin_mono(2,4) [OF this] have mono: "session_ok sv (tr @ [(act, out)]) s" if "session_ok sv tr s" for s
    using that unfolding session_ok_def by blast
  show ?thesis
    using assms(3)
  proof (cases rule: step_cases)
    case (store op r)
    have "session_ok sv tr s" if "s \<in> set (browser_sessions (sh_db sh'))" for s
      using session_rows [of s env op "sh_db sh"] that assms(1,2) store
      by (auto simp: sessions_inv_def guarantee_def session_ok_def)
    moreover have "session_ok sv tr s" if "found_session (tr @ [(act, out)]) s" for s
      using that assms(1) store handed_out(5) [of env _ _ "sh_db sh" s]
      by (auto simp: sessions_inv_def simp del: exec.simps)
    ultimately show ?thesis using mono unfolding sessions_inv_def by blast
  next
    case (cache op)
    with assms(1) mono show ?thesis by (cases op) (auto simp: sessions_inv_def)
  next
    case (ask q)
    with assms(1) mono show ?thesis by (auto simp: sessions_inv_def)
  qed
qed

lemma users_step:
  assumes "users_inv sv tr sh" and "guarantee V sv tr act" and "performs env act sh out sh'"
  shows "users_inv sv (tr @ [(act, out)]) sh'"
proof -
  have "set tr \<subseteq> set (tr @ [(act, out)])" by auto
  note mono = origin_mono(8) [OF this]
  show ?thesis
    using assms(3)
  proof (cases rule: step_cases)
    case (store op res)
    have "admin_session sv tr (au_added_by r)" if "r \<in> set (allowed_users (sh_db sh'))" for r
      using user_rows [of r env op "sh_db sh"] that assms(1,2) store
      by (auto simp: users_inv_def guarantee_def)
    moreover have "admin_session sv tr (au_added_by r)" if "listed (tr @ [(act, out)]) r" for r
      using that assms(1) store
      by (auto simp: users_inv_def listed_def simp del: exec.simps dest: handed_out(6) [OF sym])
    ultimately show ?thesis using mono unfolding users_inv_def by blast
  next
    case (cache op)
    with assms(1) mono show ?thesis by (cases op) (auto simp: users_inv_def listed_def)
  next
    case (ask q)
    with assms(1) mono show ?thesis by (auto simp: users_inv_def listed_def)
  qed
qed

text \<open>All together, in every interleaving of requests from the initial state.\<close>

lemma presents_Token: "Token ip authorization q \<in> set reqs \<Longrightarrow> presented q \<subseteq> presents reqs"
  by (auto simp: presents_def)

lemma run_invariant:
  assumes "sys_run env ([], initial, map (serve sv) reqs) s" and "s = (tr, sh, ps)"
  shows "clients_inv sv tr sh \<and> requests_inv sv tr sh \<and> codes_inv sv tr sh
    \<and> logins_inv sv tr sh \<and> sessions_inv sv tr sh \<and> users_inv sv tr sh
    \<and> (ws_free (admin_scope_of (cfg_default_scope (sv_cfg sv))) \<longrightarrow> grants_inv (presents reqs) sv tr sh)"
  using assms
proof (induction "([] :: trace, initial, map (serve sv) reqs)" s arbitrary: tr sh ps rule: sys_run.induct)
  case sys_refl
  then show ?case
    by (auto simp: clients_inv_def requests_inv_def codes_inv_def grants_inv_def logins_inv_def
        sessions_inv_def users_inv_def listed_def initial_def empty_db_def origin_defs)
next
  case (sys_next s' s'')
  from sys_next(3) show ?case
  proof cases
    case (sys_do i ps1 act k sh1 out sh2 tr1)
    have "guarantee (presents reqs) sv tr1 act"
    proof (rule sys_run_guarantee [where tr = "tr1 @ [(act, out)]" and out = out])
      show "sys_run env ([], initial, map (serve sv) reqs) (tr1 @ [(act, out)], sh2, ps1[i := k out])"
        using sys_next(1,3) sys_do by (auto intro: sys_run.sys_next)
      show "keeps (guarantee (presents reqs) sv) (\<lambda>_ _. True) p []" if "p \<in> set (map (serve sv) reqs)" for p
        using that serve_keeps presents_Token by (auto intro!: keeps_mono [OF serve_keeps] dest: presents_Token)
    qed (auto intro: guarantee_stable)
    with sys_next(2) [OF sys_do(1)] sys_do(2,5) sys_next(4) show ?thesis
      by (auto intro: clients_step requests_step codes_step grants_step logins_step sessions_step users_step)
  qed
qed

lemma token_result_origin:
  assumes "codes_inv sv tr sh" and "grants_inv V sv tr sh"
    and "ws_free (admin_scope_of (cfg_default_scope (sv_cfg sv)))"
    and "token_result V sv tr resp" and "tr_refresh_token resp \<noteq> None"
  shows "\<exists>claims c. signs sv resp claims \<and> code_ok sv tr c \<and> redeemed tr c \<and> pkce_proved V sv c
    \<and> ac_azp claims = ac_client_id c \<and> ac_sub claims = ac_subject c
    \<and> ac_aud claims = effective_resource sv (ac_resource c) \<and> ac_token_scope claims = ac_scope c"
proof -
  from assms(4,5) obtain claims where s: "signs sv resp claims"
    and u: "user_token V sv tr (ac_azp claims) (ac_sub claims) (ac_aud claims) (ac_token_scope claims)"
    by (auto simp: token_result_def for_user_def)
  from u consider
      (code) c where "redeemed tr c" "pkce_proved V sv c"
        "ac_azp claims = ac_client_id c" "ac_sub claims = ac_subject c"
        "ac_aud claims = effective_resource sv (ac_resource c)" "ac_token_scope claims = ac_scope c"
    | (refresh) tk cl t where "claimed tr tk cl t" "ac_azp claims = rt_client_id t"
        "ac_sub claims = rt_subject t" "ac_aud claims = effective_resource sv (rt_resource t)"
        "ac_token_scope claims
           = elevate_scope_for_allowed_user (rt_scope t) (cfg_default_scope (sv_cfg sv))"
    unfolding user_token_def by blast
  then show ?thesis
  proof cases
    case code
    with assms(1) s show ?thesis by (auto simp: codes_inv_def)
  next
    case (refresh tk cl t)
    from grants_claimed [OF assms(2) this(1)] obtain c where c: "code_ok sv tr c" "redeemed tr c" "pkce_proved V sv c"
      "rt_client_id t = ac_client_id c" "rt_subject t = ac_subject c"
      "effective_resource sv (rt_resource t) = effective_resource sv (ac_resource c)"
      "rt_scope t = ac_scope c"
      by (auto simp: grant_ok_def)
    from c(1) have "elevate_scope_for_allowed_user (ac_scope c) (cfg_default_scope (sv_cfg sv)) = ac_scope c"
      by (auto simp: code_ok_def issued_code_def elevate_idem [OF assms(3)])
    with c s refresh show ?thesis by auto
  qed
qed

lemma run_response:
  assumes "sys_run env ([], initial, map (serve sv) reqs) (tr, sh, ps)"
    and "i < length reqs" and "ps ! i = Ret resp"
  shows "response_ok (presents reqs) sv (reqs ! i) tr resp"
proof -
  have keep: "keeps (guarantee (presents reqs) sv) (response_ok (presents reqs) sv (reqs ! j))
      (map (serve sv) reqs ! j) []"
    if "j < length (map (serve sv) reqs)" for j
  proof -
    from that have "reqs ! j \<in> set reqs" by simp
    then show ?thesis using that presents_Token by (simp, intro serve_keeps) (metis presents_Token)
  qed
  show ?thesis
    by (rule sys_run_returns [where Q = "\<lambda>i. response_ok (presents reqs) sv (reqs ! i)",
          OF assms(1) guarantee_stable response_ok_stable keep])
      (use assms in auto)
qed

end
