(* ===== verification/Auth_Bounds.thy ===== *)
theory Auth_Bounds
  imports Auth_Logic
begin

text \<open>
  How long a request can take. \<open>within p n\<close>: whatever the outcomes, \<open>p\<close> performs at most \<open>n\<close>
  actions. Each handler has such a bound, so the authorization server answers every request
  after a fixed number of actions of its own, however the requests interleave.
\<close>

section \<open>Counting actions\<close>

primrec within :: "'a prog \<Rightarrow> nat \<Rightarrow> bool" where
  "within (Ret a) = (\<lambda>n. True)"
| "within (Do act k) = (\<lambda>n. 0 < n \<and> (\<forall>out. fits act out \<longrightarrow> within (k out) (n - 1)))"

lemma within_more: "within p m \<Longrightarrow> m \<le> n \<Longrightarrow> within p n"
proof (induction p arbitrary: m n)
  case (Do act k)
  show ?case
  proof (simp del: One_nat_def, intro conjI allI impI)
    show "0 < n" using Do.prems by simp
    fix out assume "fits act out"
    with Do.prems(1) have "within (k out) (m - 1)" by simp
    moreover have "m - 1 \<le> n - 1" using Do.prems(2) by simp
    ultimately show "within (k out) (n - 1)" by (rule Do.IH [OF rangeI])
  qed
qed simp

lemma within_bindp:
  "within p m \<Longrightarrow> m \<le> n \<Longrightarrow> (\<And>a. within (f a) (n - m)) \<Longrightarrow> within (bindp p f) n"
proof (induction p arbitrary: m n)
  case (Ret a)
  then show ?case using within_more [of "f a" "n - m" n] by simp
next
  case (Do act k)
  show ?case
  proof (simp del: One_nat_def, intro conjI allI impI)
    show "0 < n" using Do.prems by simp
    fix out assume "fits act out"
    with Do.prems(1) have w: "0 < m" "within (k out) (m - 1)" by simp_all
    moreover have "m - 1 \<le> n - 1" using Do.prems(2) by simp
    moreover have "within (f a) (n - 1 - (m - 1))" for a
      using Do.prems(3) [of a] w(1) by (simp add: diff_diff_left)
    ultimately show "within (bindp (k out) f) (n - 1)" by (intro Do.IH [OF rangeI])
  qed
qed

lemma within_attempt:
  "within p m \<Longrightarrow> m \<le> n \<Longrightarrow> (\<And>x. within (f x) (n - m)) \<Longrightarrow> within (attempt p f) n"
  unfolding attempt_def by (rule within_bindp) (auto split: sum.split)

named_theorems within_rules \<open>Costs of the actions\<close>

lemma within_check [within_rules]:
  "within (check r f) n \<longleftrightarrow> (\<forall>x. r = Inr x \<longrightarrow> within (f x) n)"
  by (simp add: check_def split: sum.split)

lemma within_call [within_rules]: "within (call op f) n \<longleftrightarrow> 0 < n"
  by (auto simp: call_def)

lemma within_attempt_call [within_rules]:
  "within (attempt (call op g) f) n \<longleftrightarrow> 0 < n \<and> (\<forall>x y. g x = Some y \<longrightarrow> within (f y) (n - 1))"
proof -
  have "(\<forall>r. within (case and_then r (\<lambda>x. ok_or (g x) (AStorage [])) of Inl e \<Rightarrow> Ret (Inl e) | Inr y \<Rightarrow> f y) m)
      \<longleftrightarrow> (\<forall>x y. g x = Some y \<longrightarrow> within (f y) m)" for m
    by (force simp: and_then_def ok_or_def split: sum.splits option.splits)
  then show ?thesis by (simp add: attempt_def call_def all_outcomes)
qed

lemma within_actions [within_rules]:
  "within (now_unix h) n \<longleftrightarrow> 0 < n \<and> (\<forall>t. 0 \<le> t \<and> t < 2 ^ 63 \<longrightarrow> within (h t) (n - 1))"
  "within (try_acquire l ip h') n \<longleftrightarrow> 0 < n \<and> (\<forall>b. within (h' b) (n - 1))"
  "within (effective_resources h'') n \<longleftrightarrow> 0 < n \<and> (\<forall>r. within (h'' r) (n - 1))"
  "within (cached_client cid t1 k) n \<longleftrightarrow> 0 < n \<and> (\<forall>c. within (k c) (n - 1))"
  "within (cached_keys u kid t2 k') n \<longleftrightarrow> 0 < n \<and> (\<forall>c. within (k' c) (n - 1))"
  "within (store_client cid cl t3 t4 a p) n \<longleftrightarrow> 0 < n \<and> within p (n - 1)"
  "within (store_keys u ks t5 t6 a p) n \<longleftrightarrow> 0 < n \<and> within p (n - 1)"
  by (simp_all add: action_defs all_outcomes)

lemma within_random [within_rules]:
  "within (random_bytes k f) n \<longleftrightarrow> 0 < n \<and> (\<forall>r. (\<forall>b. r = Inr b \<longrightarrow> length b = k) \<longrightarrow> within (f r) (n - 1))"
  "within (random_token env k f') n \<longleftrightarrow> 0 < n \<and> (\<forall>b. length b = k \<longrightarrow> within (f' (b64url env b)) (n - 1))"
  by (force simp: random_token_def random_bytes_def all_outcomes split: sum.splits)+

lemma within_remote [within_rules]:
  "within (attempt (fetch_document u) f) n \<longleftrightarrow> 0 < n \<and> (\<forall>x. within (f x) (n - 1))"
  "within (attempt (fetch_keys u) f') n \<longleftrightarrow> 0 < n \<and> (\<forall>x. within (f' x) (n - 1))"
  "within (attempt (exchange_code c v) f'') n \<longleftrightarrow> 0 < n \<and> (\<forall>x. within (f'' x) (n - 1))"
  "within (bindp (google_refresh tk s e) f''') n \<longleftrightarrow> 0 < n \<and> (\<forall>x. within (f''' x) (n - 1))"
  by (force simp: attempt_def fetch_document_def fetch_keys_def exchange_code_def google_refresh_def
      all_outcomes split: sum.splits)+

lemma within_nonce [within_rules]:
  "within (nonce env f) n \<longleftrightarrow> (if enc_key env = None then within (f (Inl [])) n
     else within (random_bytes 12 f) n)"
  by (simp add: nonce_def)

section \<open>The handlers\<close>

lemma guards_within:
  "within (check_rate_limit l ip) 1" "within (ensure_pending_oauth_state_capacity sv) 2"
  "within (allowed_emails sv) 1" "within (upsert_bundle sv u) 4"
  by (auto simp: check_rate_limit_def ensure_pending_oauth_state_capacity_def allowed_emails_def
      upsert_bundle_def within_rules)

lemma resolve_client_within: "within (resolve_client sv cid) 9"
  by (auto simp: resolve_client_def within_rules split: option.split)


lemma login_within:
  "within (register_client_handler sv ip uris) 4" "within (browser_login sv ip return_to) 8"
  "within (create_browser_session sv subject email) 4" "within (native_poll st) 2"
  unfolding register_client_handler_def browser_login_def create_browser_session_def native_poll_def
  by (rule within_attempt [OF guards_within(1)], simp, force simp: within_rules split: option.split)
    (rule within_attempt [OF guards_within(1)], simp, rule within_attempt [OF guards_within(2)], simp,
      simp_all add: within_rules Let_def)

lemma authorize_accept_within: "within (authorize_accept sv query resource scope) 7"
  by (auto simp: authorize_accept_def within_rules guards_within(3) [simplified]
      intro!: within_attempt [where m = 1] split: list.split)

lemma authorize_within: "within (authorize sv ip query) 22"
  unfolding authorize_def
  by (rule within_attempt [OF guards_within(1)], simp, rule within_attempt [OF guards_within(2)], simp,
      rule within_attempt [OF resolve_client_within], simp)
    (auto simp: within_rules authorize_accept_within intro!: within_attempt [where m = 1] split: sum.split)

lemma callback_parts_within:
  "within (callback_login sv code login) 6" "within (callback_issue sv q g) 6"
  by (auto simp: callback_login_def callback_issue_def within_rules
      intro!: within_attempt [OF guards_within(3)] within_attempt [OF login_within(3)])

lemma callback_authorize_within: "within (callback_authorize sv code q) 14"
  by (auto simp: callback_authorize_def within_rules callback_parts_within Let_def
      intro!: within_attempt [OF guards_within(3)] within_attempt [OF guards_within(4)]
      split: sum.split option.split)

lemma oauth_callback_within: "within (oauth_callback sv st code) 18"
proof -
  have "within (bindp (call op as_request) (\<lambda>taken. check (f taken) (callback_authorize sv code))) 15" for op f
    by (rule within_bindp [where m = 1]) (simp_all add: within_rules callback_authorize_within)
  then show ?thesis
    unfolding oauth_callback_def
    by (auto simp: within_rules intro: within_more [OF callback_parts_within(1)] split: option.split)
qed


lemma admin_call_within: "0 < n \<Longrightarrow> (\<And>x. within (g x) (n - 1)) \<Longrightarrow> within (attempt (admin_call op f) g) n"
  unfolding admin_call_def
  by (rule within_attempt [where m = 1], rule within_bindp [where m = 1]) (auto simp: within_rules)

lemma admin_within:
  "within (list_allowed_emails sv ctx) 1" "within (add_allowed_email sv ctx raw) 2"
  "within (delete_allowed_email sv ctx raw) 1"
  by (auto simp: list_allowed_emails_def add_allowed_email_def delete_allowed_email_def within_rules
      intro!: admin_call_within)

section \<open>The token endpoint\<close>

lemma client_authentication_within:
  "within (validate_client_assertion sv a cid keys) 4"
  "within (authenticate_machine_client sv mc secret ty as) 4"
  "within (authenticate_oauth_client sv cid secret ty as) 13"
proof -
  show v: "within (validate_client_assertion sv a cid keys) 4" for a cid keys
    by (auto simp: validate_client_assertion_def within_rules)
  show m: "within (authenticate_machine_client sv mc secret ty as) 4" for mc
    by (auto simp: authenticate_machine_client_def within_rules v split: option.split)
  show "within (authenticate_oauth_client sv cid secret ty as) 13"
    by (auto simp: authenticate_oauth_client_def within_rules v intro: within_more [OF m]
        intro!: within_attempt [OF resolve_client_within] split: option.split)
qed

lemma build_token_response_within:
  "within (build_token_response sv cid subject resource scope refresh) 2"
  by (auto simp: build_token_response_def within_rules)

lemma authorization_code_grant_within: "within (authorization_code_grant sv q) 22"
proof -
  have "within (issue_for_code sv q cid uri v row) 6" for cid uri v row
    by (auto simp: issue_for_code_def within_rules build_token_response_within split: option.split)
  then show ?thesis
    by (auto simp: authorization_code_grant_def within_rules
        intro!: within_attempt [OF client_authentication_within(3)])
qed

lemma refresh_rounds_within: "within (refresh_rounds n sv subject cred) (3 * n + 3)"
proof (induction n arbitrary: cred)
  case (Suc n)
  show ?case
    by (auto simp: within_rules intro!: within_attempt [OF guards_within(4)] Suc.IH [THEN within_more]
        split: sum.split auth_error.split)
qed simp

lemma complete_claimed_refresh_within:
  "within (complete_claimed_refresh sv cid token claim requested stored) 16"
proof -
  have "within (refresh_google_provider_credential sv subject) 10" for subject
    using refresh_rounds_within [of 2]
    by (auto simp: refresh_google_provider_credential_def within_rules)
  then show ?thesis
    by (auto simp: complete_claimed_refresh_def within_rules Let_def
        intro!: within_attempt [where m = 10] within_attempt [OF build_token_response_within]
        split: option.split)
qed

lemma refresh_token_grant_within: "within (refresh_token_grant sv q) 35"
proof -
  have "within (bindp (complete_claimed_refresh sv cid token claim requested stored) (\<lambda>result.
      case result of Inr response \<Rightarrow> done_with response
      | Inl e \<Rightarrow> attempt (call (ReleaseClaim token claim) as_unit) (\<lambda>_. fail e))) 17" for cid token claim requested stored
    by (rule within_bindp [OF complete_claimed_refresh_within]) (auto simp: within_rules split: sum.split)
  then show ?thesis
    by (auto simp: refresh_token_grant_def within_rules
        intro!: within_attempt [OF client_authentication_within(3)])
qed

lemma other_grants_within:
  "within (client_credentials_grant sv q) 8" "within (enterprise_managed_grant sv q) 30"
proof -
  have "within (load_enterprise_jwks sv issuer kid) 8" for issuer kid
    by (auto simp: load_enterprise_jwks_def within_rules split: option.split)
  then show "within (enterprise_managed_grant sv q) 30"
    by (auto simp: enterprise_managed_grant_def within_rules
        intro!: within_attempt [where m = 8] within_attempt [OF client_authentication_within(3)]
          build_token_response_within [THEN within_more] split: option.split)
  show "within (client_credentials_grant sv q) 8"
    by (auto simp: client_credentials_grant_def within_rules build_token_response_within Let_def
        intro!: within_attempt [OF client_authentication_within(2)])
qed


lemma within_as_token_error: "within p n \<Longrightarrow> within (as_token_error p) n"
  unfolding as_token_error_def by (rule within_bindp) auto

lemma endpoints_within:
  "within (token_endpoint sv ip authorization q) 36" "within (revoke_endpoint sv ip authorization rq) 17"
proof -
  have "within (grant sv q) 35" for q
    unfolding grant_def
    by (auto intro!: within_as_token_error refresh_token_grant_within
        intro: within_more [OF authorization_code_grant_within] within_more [OF other_grants_within(1)]
          within_more [OF other_grants_within(2)])
  then show "within (token_endpoint sv ip authorization q) 36"
    unfolding token_endpoint_def
    by (auto simp: within_rules intro!: within_attempt [OF within_as_token_error [OF guards_within(1)]])
  show "within (revoke_endpoint sv ip authorization rq) 17"
    unfolding revoke_endpoint_def
    by (rule within_as_token_error, rule within_attempt [OF guards_within(1)])
      (auto simp: within_rules intro!: within_attempt [OF client_authentication_within(3)]
        split: option.split)
qed

section \<open>Runs end\<close>

lemma behind_within:
  "within auth m \<Longrightarrow> m \<le> n \<Longrightarrow> (\<And>ctx. within (h ctx) (n - m)) \<Longrightarrow> within (behind auth h) n"
  unfolding behind_def by (rule within_bindp) (auto split: sum.split)

lemma within_find_session [within_rules]:
  "within (bindp (call op as_session) f) n \<longleftrightarrow> 0 < n \<and> (\<forall>r. within (f (and_then r (\<lambda>x. ok_or (as_session x) (AStorage [])))) (n - 1))"
  by (simp add: call_def all_outcomes)

lemma verdicts_within [within_rules]:
  "within (granted layer ctx) n" "within (unauthenticated layer req) n"
  "within (request_unauthenticated st res allow req) n"
  by (simp_all add: granted_def unauthenticated_def request_unauthenticated_def split: option.split)

lemma authentication_within:
  "within (authenticate layer req) 2" "within (authenticate_request tok st f res allow req) 2"
  "within (authenticate_protected_route_request route st f req) 2"
  "within (auth_session sv req) 2" "within (auth_logout sv req) 3"
proof -
  show "within (authenticate layer req) 2"
    by (auto simp: authenticate_def bearer_path_def within_rules
        split: option.split sum.split)
  show "within (authenticate_request tok st f res allow req) 2"
    by (auto simp: authenticate_request_def request_bearer_def within_rules
        split: option.split sum.split)
  show "within (authenticate_protected_route_request route st f req) 2"
    by (auto simp: authenticate_protected_route_request_def within_rules Let_def split: option.split)
  show "within (auth_session sv req) 2"
    by (auto simp: auth_session_def within_rules split: option.split sum.split)
  have revoke: "within (bindp (call (RevokeSession sid) as_unit) g) 1" if "\<And>r. within (g r) 0" for sid g
    by (rule within_bindp [where m = 1]) (use that in \<open>auto simp: within_rules\<close>)
  show "within (auth_logout sv req) 3"
    by (auto simp: auth_logout_def within_rules Let_def intro!: revoke [simplified] split: option.split sum.split)
qed

definition max_actions :: nat where
  "max_actions = 36"

lemma reply_within: "within p n \<Longrightarrow> n \<le> 36 \<Longrightarrow> within (reply_with f g p) max_actions"
  unfolding reply_with_def max_actions_def by (erule within_bindp) (simp_all split: sum.split)

lemma reply_after: "within p n \<Longrightarrow> n \<le> m \<Longrightarrow> within (reply_with f g p) m"
  unfolding reply_with_def by (erule within_bindp) (simp_all split: sum.split)

lemma serve_within: "within (serve sv req) max_actions"
proof -
  have session: "within (bindp p (\<lambda>r. Ret (SessionReply r))) max_actions" if "within p 3" for p
    unfolding max_actions_def by (rule within_bindp [OF that]) simp_all
  note behind = behind_within [where n = max_actions, OF authentication_within(1)]
    behind_within [where n = max_actions, OF authentication_within(2)]
    behind_within [where n = max_actions, OF authentication_within(3)]
  show ?thesis
  proof (cases req)
    case (NativeCallback st)
    then show ?thesis by (simp add: reply_with_def)
  qed (auto simp: authenticate_mcp_def max_actions_def [THEN eq_refl] reply_after [OF admin_within(1)]
      intro!: reply_within [OF login_within(1)] reply_within [OF login_within(2)]
        reply_within [OF authorize_within] reply_within [OF oauth_callback_within]
        reply_within [OF login_within(4)] reply_within [OF endpoints_within(1)]
        reply_within [OF endpoints_within(2)] behind session
        reply_after [OF admin_within(1)] reply_after [OF admin_within(2)] reply_after [OF admin_within(3)]
        authentication_within(5) within_more [OF authentication_within(4)],
      auto simp: max_actions_def)
qed

text \<open>What is left of every program of a run: its bound less the actions it has performed.\<close>

lemma sys_run_within:
  assumes "sys_run env (tr0, sh0, ps0) s" and "s = (tr, sh, ps)"
    and "\<And>p. p \<in> set ps0 \<Longrightarrow> within p n"
  shows "\<exists>ns. length ns = length ps0 \<and> length ps = length ps0 \<and> sum_list ns + length tr \<le> n * length ps0 + length tr0
    \<and> (\<forall>i < length ps0. within (ps ! i) (ns ! i))"
  using assms
proof (induction "(tr0, sh0, ps0)" s arbitrary: tr sh ps rule: sys_run.induct)
  case sys_refl
  then show ?case
    by (intro exI [of _ "replicate (length ps0) n"]) (auto simp: sum_list_replicate)
next
  case (sys_next s' s'')
  from sys_next(3) show ?case
  proof cases
    case (sys_do i ps1 act k sh1 out sh2 tr1)
    from sys_next(2) [OF sys_do(1) sys_next(5)] obtain ns where ns: "length ns = length ps0"
      "length ps1 = length ps0" "sum_list ns + length tr1 \<le> n * length ps0 + length tr0"
      "\<forall>i < length ps0. within (ps1 ! i) (ns ! i)" by blast
    with sys_do have act: "0 < ns ! i" "within (k out) (ns ! i - 1)" "i < length ns"
      using performs_fits [OF sys_do(5)] by (auto dest: spec [of _ i])
    have "sum_list (ns[i := ns ! i - 1]) + 1 = sum_list ns"
      using act member_le_sum_list [of "ns ! i" ns] by (simp add: sum_list_update)
    with ns act sys_do sys_next(4) show ?thesis
      by (intro exI [of _ "ns[i := ns ! i - 1]"]) (auto simp: nth_list_update)
  qed
qed

lemma performs_total: "\<exists>out sh'. performs env act sh out sh'"
proof (cases act)
  case (Store op)
  then show ?thesis by (cases "exec env op (sh_db sh)") auto
next
  case (Cache op)
  then show ?thesis by (cases "cache_step op sh") auto
next
  case (Ask q)
  have "\<exists>out. fits (Ask q) out" by (cases q) (auto intro: exI [of _ "0 :: int"] exI [of _ "Inl []"])
  with Ask show ?thesis by auto
qed


lemma stuck_answered:
  assumes "\<And>s'. \<not> sys_step env (tr, sh, ps) s'" and "i < length ps"
  shows "\<exists>a. ps ! i = Ret a"
proof (cases "ps ! i")
  case (Do act k)
  obtain out sh' where "performs env act sh out sh'" using performs_total by blast
  from sys_do [OF assms(2) Do this] assms(1) show ?thesis by blast
qed simp

text \<open>
  Every run of a system whose programs are bounded can be continued until all of them have
  returned.
\<close>

lemma sys_run_completes:
  assumes "\<And>i. i < length ps \<Longrightarrow> within (ps ! i) (ns ! i)" and "length ns = length ps"
  shows "\<exists>tr' sh' rs. sys_run env (tr, sh, ps) (tr', sh', map Ret rs)"
  using assms
proof (induction "sum_list ns" arbitrary: ns tr sh ps rule: less_induct)
  case less
  show ?case
  proof (cases "\<exists>i < length ps. \<exists>act k. ps ! i = Do act k")
    case True
    then obtain i act k where i: "i < length ps" "ps ! i = Do act k" by blast
    obtain out sh' where p: "performs env act sh out sh'" using performs_total by blast
    have w: "0 < ns ! i" "within (k out) (ns ! i - 1)"
      using less(2) [OF i(1)] i performs_fits [OF p] by auto
    have "sum_list (ns[i := ns ! i - 1]) < sum_list ns"
      using w i less(3) member_le_sum_list [of "ns ! i" ns] by (simp add: sum_list_update)
    moreover have "within (ps[i := k out] ! j) (ns[i := ns ! i - 1] ! j)" if "j < length (ps[i := k out])" for j
      using that less(2,3) w i by (cases "j = i") auto
    ultimately obtain tr' sh'' rs where
      "sys_run env (tr @ [(act, out)], sh', ps[i := k out]) (tr', sh'', map Ret rs)"
      using less(1) [of "ns[i := ns ! i - 1]" "ps[i := k out]"] less(3) by fastforce
    with sys_run_trans [OF sys_next [OF sys_refl sys_do [OF i p]]] show ?thesis by blast
  next
    case False
    then have "\<forall>i < length ps. \<exists>a. ps ! i = Ret a" by (metis prog.exhaust)
    then obtain f where "\<forall>i < length ps. ps ! i = Ret (f i)" by metis
    then have "ps = map Ret (map f [0..<length ps])" by (auto intro: nth_equalityI)
    then show ?thesis using sys_refl by metis
  qed
qed

end
