(* ===== verification/Auth_Theorems.thy ===== *)
theory Auth_Theorems
  imports Auth_Provenance Auth_Bounds
begin

text \<open>
  What the authorization server guarantees under concurrent requests: the origin of user
  tokens and browser sessions, and the targets of redirects. A small server, with a run of four
  requests from registration to a token, shows that the hypotheses can be met.
\<close>

section \<open>A server and a run\<close>

definition demo_url :: url where
  "demo_url = \<lparr>url_scheme = ''http'', url_username = [], url_password = None, url_host = None,
     url_host_str = Some ''127.0.0.1'', url_port = None, url_path = ''/'', url_query = None,
     url_fragment = None\<rparr>"

definition demo_config :: auth_config where
  "demo_config = \<lparr>cfg_public_url = demo_url, cfg_public_url_str = ''s'',
     cfg_allowed_client_redirect_uris = [], cfg_admin_email = ''a'', cfg_google_client_id = ''G'',
     cfg_access_token_ttl = 60, cfg_refresh_token_ttl = 600, cfg_auth_code_ttl = 60,
     cfg_max_pending_oauth_states = 5, cfg_codex_issuer_compatibility = True, cfg_env_prefix = [],
     cfg_session_cookie_name = ''c'', cfg_scopes_supported = [''m''], cfg_resource_path = [],
     cfg_default_scope = ''m'', cfg_static_token_scopes = [], cfg_login_path = [],
     cfg_disable_static_token_with_oauth = False, cfg_machine_clients = [],
     cfg_enterprise_issuers = []\<rparr>"

definition demo_server :: server where
  "demo_server = \<lparr>sv_cfg = demo_config, sv_env = plain_env,
     sv_url_parse = (\<lambda>s. if s = ''u'' then Some demo_url else None),
     sv_url_to_string = (\<lambda>_. ''u''), sv_show_ssrf = (\<lambda>_. []), sv_parse_jwks = (\<lambda>_. Inl []),
     sv_decode_header = (\<lambda>_. None), sv_decoding_key = (\<lambda>_. False),
     sv_unverified_assertion = (\<lambda>_. None), sv_decode_assertion = (\<lambda>_ _ _ _ _ _. None),
     sv_unverified_id_jag = (\<lambda>_. None), sv_decode_id_jag = (\<lambda>_ _ _ _ _ _. None),
     sv_sign = (\<lambda>c. Inr (ac_sub c)), sv_verify = (\<lambda>_ _ _ _. None), sv_b64_standard_decode = Some,
     sv_form_value = Some, sv_static_token = None, sv_actor_key = (\<lambda>_. None),
     sv_web_ui_auth_disabled = False\<rparr>"

definition demo_id :: string where
  "demo_id = replicate 18 (CHR ''i'')"

definition demo_state :: string where
  "demo_state = replicate 24 (CHR ''s'')"

definition demo_auth_code :: string where
  "demo_auth_code = replicate 24 (CHR ''k'')"

definition demo_google :: google_exchange where
  "demo_google = \<lparr>gx_subject = ''sub'', gx_email = Some ''a'', gx_email_verified = Some True,
     gx_access_token = ''at'', gx_refresh_token = Some ''rt'', gx_expires_in = None,
     gx_granted_scopes = [], gx_id_token = None\<rparr>"

definition demo_token_request :: token_request where
  "demo_token_request = \<lparr>tq_grant_type = ''authorization_code'', tq_code = Some demo_auth_code,
     tq_client_id = Some demo_id, tq_resource = None, tq_redirect_uri = Some ''u'',
     tq_code_verifier = Some ''v'', tq_refresh_token = None, tq_scope = None,
     tq_client_secret = None, tq_client_assertion_type = None, tq_client_assertion = None,
     tq_assertion = None\<rparr>"

definition demo_query :: authorize_query where
  "demo_query = \<lparr>aq_response_type = ''code'', aq_client_id = demo_id, aq_redirect_uri = ''u'',
     aq_state = ''x'', aq_resource = None, aq_scope = [], aq_code_challenge = ''v'',
     aq_code_challenge_method = ''S256''\<rparr>"

definition demo_requests :: "request list" where
  "demo_requests = [RegisterRequest ''ip'' [''u''], Authorize ''ip'' demo_query,
     Callback demo_state ''gc'', Token ''ip'' None demo_token_request]"

definition demo_registered :: shared where
  "demo_registered = \<lparr>sh_db = empty_db\<lparr>clients := [\<lparr>rc_client_id = demo_id, rc_redirect_uris = [''u''],
     rc_created_at = 0, rc_token_endpoint_auth_method = ''none'', rc_jwks = None\<rparr>]\<rparr>,
     sh_clients = [], sh_keys = []\<rparr>"

definition demo_request :: authorization_request_row where
  "demo_request = \<lparr>ar_state = demo_state, ar_client_id = demo_id, ar_redirect_uri = ''u'',
     ar_client_state = ''x'', ar_resource = ''s'', ar_scope = ''m'',
     ar_provider_code_verifier = replicate 32 (CHR ''w''), ar_code_challenge = ''v'',
     ar_code_challenge_method = ''S256'', ar_created_at = 0, ar_expires_at = 300\<rparr>"

definition demo_pending :: shared where
  "demo_pending = demo_registered\<lparr>sh_db := (sh_db demo_registered)\<lparr>auth_requests := [demo_request]\<rparr>\<rparr>"

definition demo_issued :: authorization_code_row where
  "demo_issued = \<lparr>ac_code = demo_auth_code, ac_client_id = demo_id, ac_subject = ''sub'',
     ac_redirect_uri = ''u'', ac_resource = ''s'', ac_scope = ''m m:admin'', ac_code_challenge = ''v'',
     ac_code_challenge_method = ''S256'', ac_provider_refresh_token = None, ac_created_at = 1,
     ac_expires_at = 61\<rparr>"

definition demo_credential :: google_credential_row where
  "demo_credential = \<lparr>gc_subject = ''sub'', gc_email = Some ''a'', gc_client_id = ''G'',
     gc_granted_scopes = [], gc_access_token = Some ''at'', gc_refresh_token = ''rt'',
     gc_token_received_at = Some 1, gc_access_token_expires_at = Some 3601,
     gc_issuer = Some google_issuer, gc_last_refresh_at = None, gc_last_scope_upgrade_at = Some 1,
     gc_generation = 1, gc_created_at = 1, gc_updated_at = 1\<rparr>"

definition demo_coded :: shared where
  "demo_coded = demo_registered\<lparr>sh_db := (sh_db demo_registered)\<lparr>auth_codes := [demo_issued],
     google_creds := [demo_credential]\<rparr>\<rparr>"

definition demo_response :: token_response where
  "demo_response = \<lparr>tr_access_token = ''sub'', tr_token_type = ''Bearer'', tr_expires_in = 60,
     tr_refresh_token = Some (replicate 24 (CHR ''r'')), tr_scope = ''m m:admin''\<rparr>"

text \<open>Facts the evaluation uses, so that the configuration itself is not unfolded.\<close>

lemma demo_config_simps [simp]:
  "cfg_allowed_client_redirect_uris demo_config = []" "cfg_admin_email demo_config = ''a''"
  "cfg_google_client_id demo_config = ''G''" "cfg_access_token_ttl demo_config = 60"
  "cfg_refresh_token_ttl demo_config = 600" "cfg_auth_code_ttl demo_config = 60"
  "cfg_max_pending_oauth_states demo_config = 5" "cfg_codex_issuer_compatibility demo_config"
  "cfg_default_scope demo_config = ''m''" "cfg_machine_clients demo_config = []"
  by (simp_all add: demo_config_def)

lemma demo_server_simps [simp]:
  "sv_cfg demo_server = demo_config" "sv_env demo_server = plain_env"
  "sv_url_parse demo_server s = (if s = ''u'' then Some demo_url else None)"
  "sv_sign demo_server c = Inr (ac_sub c)"
  by (simp_all add: demo_server_def)

lemma plain_env_simps [simp]: "enc_key plain_env = None" "b64url plain_env b = b" 
  "unicode_lowercase plain_env = to_ascii_lowercase"
  by (simp_all add: plain_env_def)

lemma demo_facts [simp]:
  "native_callback_endpoint demo_config = ''s/native/callback''"
  "public_base_url demo_config = ''s''"
  "validate_resource demo_config (\<lambda>_. None) None = Inr ''s''"
  "validate_scope demo_config (\<lambda>_. None) ''s'' [] = Inr ''m''"
  "elevate_scope_for_allowed_user ''m'' ''m'' = ''m m:admin''"
  "pkce_challenge plain_env ''v'' = ''v''"
  "is_allowed_redirect_uri (sv_url_parse demo_server) (sv_url_to_string demo_server) ''u'' []"
  "merge_google_scopes [] [] = []" "normalize_scopes [] = []"
  "effective_resource demo_server ''s'' = ''s''"
  "trim ''a'' = ''a''" "trim ''sub'' = ''sub''" "to_ascii_lowercase ''a'' = ''a''"
  "eq_ignore_ascii_case ''a'' ''a''"
  by code_simp+

lemma demo_id_facts [simp]:
  "metadata_document_url (sv_url_parse demo_server) demo_id = None"
  "length demo_id = 18" "length demo_state = 24" "length demo_auth_code = 24"
  by code_simp+

lemmas demo_rows = demo_google_def demo_query_def demo_request_def demo_issued_def demo_credential_def
  demo_token_request_def demo_response_def demo_registered_def demo_pending_def demo_coded_def
  initial_def empty_db_def

lemmas prog_evals = reply_with_def attempt_def check_def call_def action_defs fits_def ask_fits_def
  returning_def ok_or_def check_rate_limit_def ensure_pending_oauth_state_capacity_def allowed_emails_def
  resolve_client_def sql_upsert_def sql_insert_def sql_first_def sql_delete_def sql_count_def has_key_def
  i64_wrap_def i64_sat_def is_i64_def nonce_def map_err_def ensure_def

lemma demo_register:
  "\<exists>tr. run_prog (serve demo_server (RegisterRequest ''ip'' [''u''])) plain_env
     [GotPermit True, GotBytes (Inr demo_id), GotNow 0] initial
   = Some (Reply (RegisteredReply demo_id [''u''] ''none''), tr, demo_registered)"
  by (simp add: register_client_handler_def register_client_def client_row_def prog_evals demo_rows)

lemma demo_authorize:
  "\<exists>tr g. run_prog (serve demo_server (Authorize ''ip'' demo_query)) plain_env
     [GotPermit True, GotNow 0, GotResources (\<lambda>_. None), GotResources (\<lambda>_. None),
      GotBytes (Inr (replicate 32 (CHR ''w''))), GotBytes (Inr demo_state), GotNow 0, GotNow 0] demo_registered
   = Some (Reply (FoundGoogle g), tr, demo_pending)"
  by (simp add: authorize_def is_metadata_document_client_id_def authorize_accept_def
      validate_response_type_def find_client_def insert_authorization_request_def
      count_pending_oauth_states_def list_allowed_users_def sql_order_limit_def
      find_google_provider_credential_by_selector_def find_google_rows_def resolve_allowed_emails_def
      auth_request_ttl_secs_def prog_evals demo_rows)

lemma demo_callback:
  "\<exists>tr pairs. run_prog (serve demo_server (Callback demo_state ''gc'')) plain_env
     [GotNow 1, GotNow 1, GotGoogle (Inr demo_google), GotNow 1, GotNow 1, GotBytes (Inr demo_auth_code),
      GotNow 1, GotNow 1] demo_pending
   = Some (Reply (SeeOther ''u'' pairs None), tr, demo_coded)"
  by (simp add: oauth_callback_def callback_authorize_def callback_issue_def upsert_bundle_def
      take_browser_login_state_def take_authorization_request_def list_allowed_users_def
      sql_order_limit_def resolve_allowed_emails_def check_email_allowlist_def
      find_google_provider_credential_by_selector_def find_google_rows_def
      upsert_google_provider_token_bundle_def maybe_encrypt_def normal_email_def token_lifetime_def
      expires_at_def insert_auth_code_def redirect_with_def prog_evals demo_rows Let_def)

lemma demo_token:
  "\<exists>tr sh. run_prog (serve demo_server (Token ''ip'' None demo_token_request)) plain_env
     [GotPermit True, GotResources (\<lambda>_. None), GotNow 2, GotBytes (Inr (replicate 24 (CHR ''r''))),
      GotNow 2, GotNow 2, GotBytes (Inr (replicate 18 (CHR ''j'')))] demo_coded
   = Some (Reply (TokenReply demo_response), tr, sh)"
  by (simp add: token_endpoint_def with_basic_def basic_client_credentials_def infer_client_id_def
      grant_def as_token_error_def authorization_code_grant_def require_field_def
      authenticate_oauth_client_def find_machine_client_def find_client_def redeem_auth_code_def
      issue_for_code_def validate_authorization_code_row_def requested_resource_def
      has_google_provider_credential_for_subject_def expires_at_def upsert_refresh_token_def
      encrypt_provider_rt_def client_known_def build_token_response_def prog_evals demo_rows Let_def)

text \<open>The answers the surroundings give to the questions of the four requests.\<close>

definition demo_answers :: "outcome list list" where
  "demo_answers =
     [[GotPermit True, GotBytes (Inr demo_id), GotNow 0],
      [GotPermit True, GotNow 0, GotResources (\<lambda>_. None), GotResources (\<lambda>_. None),
       GotBytes (Inr (replicate 32 (CHR ''w''))), GotBytes (Inr demo_state), GotNow 0, GotNow 0],
      [GotNow 1, GotNow 1, GotGoogle (Inr demo_google), GotNow 1, GotNow 1,
       GotBytes (Inr demo_auth_code), GotNow 1, GotNow 1],
      [GotPermit True, GotResources (\<lambda>_. None), GotNow 2, GotBytes (Inr (replicate 24 (CHR ''r''))),
       GotNow 2, GotNow 2, GotBytes (Inr (replicate 18 (CHR ''j'')))]]"

lemma run_all_step:
  "run_prog p env outs sh = Some (a, tr, sh1) \<Longrightarrow> run_all env xs sh1 = Some (as, tr', sh') \<Longrightarrow>
   run_all env ((p, outs) # xs) sh = Some (a # as, tr @ tr', sh')"
  by simp

lemma demo_run:
  "\<exists>tr sh r1 r2 pairs. sys_run plain_env ([], initial, map (serve demo_server) demo_requests)
     (tr, sh, [Ret r1, Ret r2, Ret (Reply (SeeOther ''u'' pairs None)), Ret (Reply (TokenReply demo_response))])"
proof -
  obtain tr1 where 1: "run_prog (serve demo_server (RegisterRequest ''ip'' [''u''])) plain_env
      (demo_answers ! 0) initial
      = Some (Reply (RegisteredReply demo_id [''u''] ''none''), tr1, demo_registered)"
    using demo_register unfolding demo_answers_def nth_Cons_0 by blast
  obtain tr2 g where 2: "run_prog (serve demo_server (Authorize ''ip'' demo_query)) plain_env
      (demo_answers ! 1) demo_registered = Some (Reply (FoundGoogle g), tr2, demo_pending)"
    using demo_authorize by (simp add: demo_answers_def del: serve.simps) blast
  obtain tr3 pairs where 3: "run_prog (serve demo_server (Callback demo_state ''gc'')) plain_env
      (demo_answers ! 2) demo_pending = Some (Reply (SeeOther ''u'' pairs None), tr3, demo_coded)"
    using demo_callback by (simp add: demo_answers_def del: serve.simps) blast
  obtain tr4 sh where 4: "run_prog (serve demo_server (Token ''ip'' None demo_token_request)) plain_env
      (demo_answers ! 3) demo_coded = Some (Reply (TokenReply demo_response), tr4, sh)"
    using demo_token by (simp add: demo_answers_def del: serve.simps) blast
  have "sys_run plain_env ([], initial, map (serve demo_server) demo_requests)
      (tr1 @ tr2 @ tr3 @ tr4, sh, [Ret (Reply (RegisteredReply demo_id [''u''] ''none'')),
        Ret (Reply (FoundGoogle g)), Ret (Reply (SeeOther ''u'' pairs None)),
        Ret (Reply (TokenReply demo_response))])"
    using run_all_sys_run
    [OF run_all_step [OF 1 run_all_step [OF 2 run_all_step [OF 3 run_all_step [OF 4 run_all.simps(1)]]]],
      of "[]" "[]"]
    by (simp only: demo_requests_def list.map append_Nil append_Nil2 fst_conv)
  then show ?thesis by (intro exI)
qed

text \<open>A browser that logs in.\<close>

definition demo_login :: browser_login_state_row where
  "demo_login = \<lparr>bl_state = demo_state, bl_return_to = ''/'',
     bl_provider_code_verifier = replicate 32 (CHR ''w''), bl_created_at = 0, bl_expires_at = 300\<rparr>"

definition demo_session :: browser_session_row where
  "demo_session = \<lparr>bs_session_id = replicate 24 (CHR ''x''), bs_subject = ''sub'', bs_email = Some ''a'',
     bs_csrf_token = replicate 18 (CHR ''y''), bs_created_at = 1, bs_expires_at = 601\<rparr>"

lemma demo_browser_login:
  "\<exists>tr g. run_prog (serve demo_server (BrowserLogin ''ip'' None)) plain_env
     [GotPermit True, GotNow 0, GotBytes (Inr (replicate 32 (CHR ''w''))), GotBytes (Inr demo_state),
      GotNow 0, GotNow 0] initial
   = Some (Reply (FoundGoogle g), tr, initial\<lparr>sh_db := empty_db\<lparr>browser_login_states := [demo_login]\<rparr>\<rparr>)"
  by (simp add: browser_login_def count_pending_oauth_states_def insert_browser_login_state_def
      sanitize_return_to_def auth_request_ttl_secs_def demo_login_def prog_evals demo_rows)

definition demo_logged :: shared where
  "demo_logged = initial\<lparr>sh_db := empty_db\<lparr>browser_sessions := [demo_session]\<rparr>\<rparr>"

lemma demo_login_callback:
  "\<exists>tr cookie. run_prog (serve demo_server (Callback demo_state ''gc'')) plain_env
     [GotNow 1, GotGoogle (Inr demo_google), GotNow 1, GotBytes (Inr (replicate 24 (CHR ''x''))),
      GotBytes (Inr (replicate 18 (CHR ''y'')))]
     (initial\<lparr>sh_db := empty_db\<lparr>browser_login_states := [demo_login]\<rparr>\<rparr>)
   = Some (Reply (SeeOther ''/'' [] (Some cookie)), tr, demo_logged)"
  by (simp add: oauth_callback_def callback_login_def create_browser_session_def
      take_browser_login_state_def list_allowed_users_def sql_order_limit_def resolve_allowed_emails_def
      check_email_allowlist_def expires_at_def upsert_browser_session_def demo_login_def demo_session_def demo_logged_def
      prog_evals demo_rows Let_def)

text \<open>The same browser, as the administrator, then adds an email to the allowlist.\<close>

definition demo_admin_request :: http_request where
  "demo_admin_request = \<lparr>hr_method = ''POST'', hr_path_and_query = None,
     hr_headers = [(''cookie'', ''c='' @ replicate 24 (CHR ''x'')), (''x-csrf-token'', replicate 18 (CHR ''y''))]\<rparr>"

definition demo_row :: allowed_user_row where
  "demo_row = \<lparr>au_email = ''@'', au_added_by = ''sub'', au_created_at = 2\<rparr>"

lemma demo_admin_facts [simp]:
  "bearer_token demo_admin_request = None"
  "read_cookie demo_admin_request ''c'' = Some (bs_session_id demo_session)"
  "csrf_ok demo_admin_request demo_session"
  by code_simp+

lemma demo_email [simp]: "validate_email ''@'' = Inr ''@''" "to_ascii_lowercase ''@'' = ''@''"
proof -
  show lower: "to_ascii_lowercase ''@'' = ''@''" by code_simp
  have "trim ''@'' = ''@''" by code_simp
  with lower show "validate_email ''@'' = Inr ''@''"
    by (simp add: validate_email_def max_email_length_def ws_free_def ws1_def ws2_def ws3_def)
qed

lemma demo_layer_simps [simp]:
  "al_auth_state (make_auth_layer demo_server True) = Some demo_server"
  "al_allow_session_cookie (make_auth_layer demo_server True)"
  "al_session_cookie_name (make_auth_layer demo_server True) = ''c''"
  "al_required_scopes (make_auth_layer demo_server True) = []"
  by (simp_all add: make_auth_layer_def demo_config_def)

lemma demo_session_simps [simp]:
  "bs_subject demo_session = ''sub''" "bs_email demo_session = Some ''a''" "bs_expires_at demo_session = 601"
  by (simp_all add: demo_session_def)

lemma demo_add_email:
  "\<exists>tr sh. run_prog (serve demo_server (AddAllowedEmail demo_admin_request ''@'')) plain_env
     [GotNow 2, GotNow 2] demo_logged = Some (Reply (AllowedUserAdded demo_row), tr, sh)
   \<and> allowed_users (sh_db sh) = [demo_row] \<and> browser_sessions (sh_db sh) = [demo_session]"
  by (simp add: authenticate_def behind_def granted_def insufficient_scope_response_def
      session_context_def add_allowed_email_def require_admin_def admin_call_def add_allowed_user_def
      find_browser_session_def demo_logged_def demo_row_def prog_evals demo_rows Let_def)

definition demo_login_requests :: "request list" where
  "demo_login_requests =
     [BrowserLogin ''ip'' None, Callback demo_state ''gc'', AddAllowedEmail demo_admin_request ''@'']"

lemma demo_login_run:
  "\<exists>tr sh r cookie. sys_run plain_env ([], initial, map (serve demo_server) demo_login_requests)
     (tr, sh, [Ret r, Ret (Reply (SeeOther ''/'' [] (Some cookie))), Ret (Reply (AllowedUserAdded demo_row))])
   \<and> browser_sessions (sh_db sh) = [demo_session] \<and> allowed_users (sh_db sh) = [demo_row]"
proof -
  obtain tr1 g where 1: "run_prog (serve demo_server (BrowserLogin ''ip'' None)) plain_env
      [GotPermit True, GotNow 0, GotBytes (Inr (replicate 32 (CHR ''w''))), GotBytes (Inr demo_state),
       GotNow 0, GotNow 0] initial
      = Some (Reply (FoundGoogle g), tr1, initial\<lparr>sh_db := empty_db\<lparr>browser_login_states := [demo_login]\<rparr>\<rparr>)"
    using demo_browser_login by blast
  obtain tr2 cookie where 2: "run_prog (serve demo_server (Callback demo_state ''gc'')) plain_env
      [GotNow 1, GotGoogle (Inr demo_google), GotNow 1, GotBytes (Inr (replicate 24 (CHR ''x''))),
       GotBytes (Inr (replicate 18 (CHR ''y'')))]
      (initial\<lparr>sh_db := empty_db\<lparr>browser_login_states := [demo_login]\<rparr>\<rparr>)
      = Some (Reply (SeeOther ''/'' [] (Some cookie)), tr2, demo_logged)"
    using demo_login_callback by blast
  obtain tr3 sh where 3: "run_prog (serve demo_server (AddAllowedEmail demo_admin_request ''@'')) plain_env
      [GotNow 2, GotNow 2] demo_logged = Some (Reply (AllowedUserAdded demo_row), tr3, sh)"
    and rows: "allowed_users (sh_db sh) = [demo_row]" "browser_sessions (sh_db sh) = [demo_session]"
    using demo_add_email by blast
  have "sys_run plain_env ([], initial, map (serve demo_server) demo_login_requests)
      (tr1 @ tr2 @ tr3, sh, [Ret (Reply (FoundGoogle g)), Ret (Reply (SeeOther ''/'' [] (Some cookie))),
        Ret (Reply (AllowedUserAdded demo_row))])"
    using run_all_sys_run [OF run_all_step [OF 1 run_all_step [OF 2 run_all_step [OF 3 run_all.simps(1)]]],
      of "[]" "[]"]
    by (simp only: demo_login_requests_def list.map append_Nil append_Nil2 fst_conv)
  with rows show ?thesis by blast
qed

section \<open>Properties\<close>

lemma demo_ws_free: "ws_free (admin_scope_of (cfg_default_scope (sv_cfg demo_server)))"
  by (simp add: admin_scope_of_def ws_free_def All_less_Suc eval_nat_numeral ws1_def ws2_def ws3_def)

text \<open>
  C1. No user token without a sign-in. Take any list of concurrent requests to the
  authorization server and any interleaving of their handlers, from the empty database. If the
  token endpoint answers one of them with a token response that carries a refresh token, then
  the access token is the signature of claims that go back to a pending request \<open>q\<close> stored
  before: its redirect URI is allowed by the configuration and its challenge method is S256; it
  was taken by a callback that exchanged a code with Google under the request's own verifier;
  the identity \<open>g\<close> Google returned has a verified email on the allowlist the server read; a
  local code for \<open>q\<close> and \<open>g\<close> was redeemed, and one of the token requests presented its redirect URI
  together with a verifier for its challenge; and subject, client, audience and scope of the claims are those of \<open>g\<close> and \<open>q\<close>, the
  scope with the admin scope added. Authorization codes were moreover handed out at most once.
\<close>

theorem token_provenance:
  assumes ws: "ws_free (admin_scope_of (cfg_default_scope (sv_cfg sv)))"
    and run: "sys_run (sv_env sv) ([], initial, map (serve sv) reqs) (tr, sh, ps)"
    and i: "i < length reqs" "reqs ! i = Token ip authorization tq"
    and reply: "ps ! i = Ret (Reply (TokenReply resp))" "tr_refresh_token resp \<noteq> None"
  shows "(\<exists>claims q g c.
        signs sv resp claims \<and> request_ok sv tr q \<and> taken_request tr q
        \<and> signed_in sv tr (ar_provider_code_verifier q) g
        \<and> issued_code sv q g c \<and> redeemed tr c
        \<and> pkce_proved (presents reqs) sv c
        \<and> ac_sub claims = gx_subject g \<and> ac_azp claims = ar_client_id q
        \<and> ac_aud claims = effective_resource sv (ar_resource q)
        \<and> ac_token_scope claims
            = elevate_scope_for_allowed_user (ar_scope q) (cfg_default_scope (sv_cfg sv)))
    \<and> once_only ac_code ac_expires_at (map2 code_label (ops_of tr) (results_of tr))"
proof -
  have "response_ok (presents reqs) sv (reqs ! i) tr (Reply (TokenReply resp))"
    by (rule run_response [OF run i(1) reply(1)])
  with i(2) have "token_result (presents reqs) sv tr resp" by (auto simp: response_ok_def)
  with run_invariant [OF run refl] ws token_result_origin [OF _ _ ws _ reply(2)]
  obtain claims c where "signs sv resp claims" "code_ok sv tr c" "redeemed tr c"
    "pkce_proved (presents reqs) sv c"
    "ac_azp claims = ac_client_id c" "ac_sub claims = ac_subject c"
    "ac_aud claims = effective_resource sv (ac_resource c)" "ac_token_scope claims = ac_scope c"
    by blast
  moreover have "once_only ac_code ac_expires_at (map2 code_label (ops_of tr) (results_of tr))"
    using codes.used_once [where env = "sv_env sv" and ops = "ops_of tr", OF db_ok_empty]
      sys_run_store [OF run]
    by (simp add: auth_codes_empty initial_def)
  ultimately show ?thesis unfolding code_ok_def issued_code_def by metis
qed


theorem token_provenance_witness:
  "\<exists>tr sh r1 r2 r3 claims q g c.
     sys_run plain_env ([], initial, map (serve demo_server) demo_requests)
       (tr, sh, [Ret r1, Ret r2, Ret r3, Ret (Reply (TokenReply demo_response))])
     \<and> signs demo_server demo_response claims \<and> taken_request tr q
     \<and> signed_in demo_server tr (ar_provider_code_verifier q) g \<and> issued_code demo_server q g c
     \<and> redeemed tr c \<and> ac_sub claims = gx_subject g"
proof -
  obtain tr sh r1 r2 r3 where run: "sys_run plain_env ([], initial, map (serve demo_server) demo_requests)
      (tr, sh, [Ret r1, Ret r2, Ret r3, Ret (Reply (TokenReply demo_response))])"
    using demo_run by blast
  have run': "sys_run (sv_env demo_server) ([], initial, map (serve demo_server) demo_requests)
      (tr, sh, [Ret r1, Ret r2, Ret r3, Ret (Reply (TokenReply demo_response))])"
    unfolding demo_server_simps by (rule run)
  have i: "3 < length demo_requests" "demo_requests ! 3 = Token ''ip'' None demo_token_request"
    "tr_refresh_token demo_response \<noteq> None"
    by (simp_all add: demo_requests_def demo_response_def)
  have reply: "[Ret r1, Ret r2, Ret r3, Ret (Reply (TokenReply demo_response))] ! 3
      = Ret (Reply (TokenReply demo_response))" by simp
  from token_provenance [OF demo_ws_free run' i(1,2) reply i(3)] run show ?thesis by blast
qed

text \<open>
  C6. Redirects are confined. In every interleaving of requests, a redirect without a session
  cookie goes to a URI that is allowed by the configuration, and a redirect that sets a session
  cookie carries no parameters and goes to a return path as \<open>sanitize_return_to\<close> produces it.
\<close>

theorem redirects_confined:
  assumes run: "sys_run (sv_env sv) ([], initial, map (serve sv) reqs) (tr, sh, ps)"
    and i: "i < length reqs"
    and reply: "ps ! i = Ret (Reply (SeeOther uri pairs cookie))"
  shows "if cookie = None then uri_allowed sv uri
    else pairs = [] \<and> (\<exists>requested. uri = sanitize_return_to (sv_url_parse sv) (sv_cfg sv) requested)"
proof -
  have "reply_ok sv tr (SeeOther uri pairs cookie)"
    using run_response [OF run i reply] by (simp add: response_ok_def)
  with run_invariant [OF run refl] show ?thesis
    by (auto simp: reply_ok_def clients_inv_def client_uris_ok_def requests_inv_def request_ok_def
        logins_inv_def split: if_splits)
qed

theorem redirects_confined_witness:
  "\<exists>tr sh r r' cookie requested.
     sys_run plain_env ([], initial, map (serve demo_server) demo_login_requests)
       (tr, sh, [Ret r, Ret (Reply (SeeOther ''/'' [] (Some cookie))), Ret r'])
     \<and> ''/'' = sanitize_return_to (sv_url_parse demo_server) demo_config requested"
proof -
  obtain tr sh r r' cookie where run: "sys_run (sv_env demo_server)
      ([], initial, map (serve demo_server) demo_login_requests)
      (tr, sh, [Ret r, Ret (Reply (SeeOther ''/'' [] (Some cookie))), Ret r'])"
    using demo_login_run unfolding demo_server_simps by blast
  have i: "1 < length demo_login_requests" by (simp add: demo_login_requests_def)
  have reply: "[Ret r, Ret (Reply (SeeOther ''/'' [] (Some cookie))), Ret r'] ! 1
      = Ret (Reply (SeeOther ''/'' [] (Some cookie)))" by simp
  from redirects_confined [OF run i reply] obtain requested
    where "''/'' = sanitize_return_to (sv_url_parse demo_server) demo_config requested"
    unfolding demo_server_simps by (auto simp only: option.distinct if_False)
  with run show ?thesis unfolding demo_server_simps by blast
qed

text \<open>
  C2. A browser session stands for a sign-in. In every interleaving of requests, every session
  in the database belongs to the identity Google returned for a pending login the server took,
  under that login's verifier, and its verified email was on the allowlist the server read.
\<close>

theorem sessions_signed_in:
  assumes run: "sys_run (sv_env sv) ([], initial, map (serve sv) reqs) (tr, sh, ps)"
    and s: "s \<in> set (browser_sessions (sh_db sh))"
  shows "\<exists>l g. taken_login tr l \<and> signed_in sv tr (bl_provider_code_verifier l) g
    \<and> bs_subject s = gx_subject g \<and> bs_email s = gx_email g"
  using run_invariant [OF run refl] s by (auto simp: sessions_inv_def session_ok_def)

theorem sessions_signed_in_witness:
  "\<exists>tr sh ps l g. sys_run plain_env ([], initial, map (serve demo_server) demo_login_requests) (tr, sh, ps)
     \<and> taken_login tr l \<and> signed_in demo_server tr (bl_provider_code_verifier l) g \<and> gx_subject g = ''sub''"
proof -
  obtain tr sh ps where run: "sys_run (sv_env demo_server)
      ([], initial, map (serve demo_server) demo_login_requests) (tr, sh, ps)"
    and "browser_sessions (sh_db sh) = [demo_session]"
    using demo_login_run unfolding demo_server_simps by blast
  then have "demo_session \<in> set (browser_sessions (sh_db sh))" by simp
  from sessions_signed_in [OF run this] run show ?thesis
    unfolding demo_server_simps by (simp add: demo_session_def) metis
qed

text \<open>
  C5. Only the administrator extends the allowlist. In every interleaving of requests, whoever is
  on the allowlist, now or when the server read it, was put there by someone who had signed in at
  Google, through a pending login the server took, with the configured administrator's verified
  email.
\<close>

theorem allowlist_governed:
  assumes run: "sys_run (sv_env sv) ([], initial, map (serve sv) reqs) (tr, sh, ps)"
    and r: "r \<in> set (allowed_users (sh_db sh)) \<or> listed tr r"
  shows "\<exists>l g email. taken_login tr l \<and> signed_in sv tr (bl_provider_code_verifier l) g
    \<and> au_added_by r = gx_subject g \<and> gx_email g = Some email
    \<and> eq_ignore_ascii_case email (cfg_admin_email (sv_cfg sv))"
proof -
  note invs = run_invariant [OF run refl]
  from invs r have "admin_session sv tr (au_added_by r)" by (auto simp: users_inv_def)
  then obtain s email where "found_session tr s" "bs_subject s = au_added_by r" "bs_email s = Some email"
    "eq_ignore_ascii_case email (cfg_admin_email (sv_cfg sv))"
    by (auto simp: admin_session_def)
  with invs show ?thesis by (fastforce simp: sessions_inv_def session_ok_def)
qed

theorem allowlist_governed_witness:
  "\<exists>tr sh ps l g. sys_run plain_env ([], initial, map (serve demo_server) demo_login_requests) (tr, sh, ps)
     \<and> demo_row \<in> set (allowed_users (sh_db sh)) \<and> taken_login tr l
     \<and> signed_in demo_server tr (bl_provider_code_verifier l) g \<and> au_added_by demo_row = gx_subject g"
proof -
  obtain tr sh ps where run: "sys_run (sv_env demo_server)
      ([], initial, map (serve demo_server) demo_login_requests) (tr, sh, ps)"
    and "allowed_users (sh_db sh) = [demo_row]"
    using demo_login_run unfolding demo_server_simps by blast
  then have row: "demo_row \<in> set (allowed_users (sh_db sh))" by simp
  from allowlist_governed [OF run disjI1 [OF row]] run row show ?thesis
    unfolding demo_server_simps by metis
qed



text \<open>
  The switch \<open>disable_static_token_with_oauth\<close>. With it set, the layer of the web API forwards
  a request with a bearer token only if the token verifies as an access token of this server; the
  static token alone is never enough. The MCP endpoint has its own check, which does not read the
  switch: it forwards a request with the static token as an administrator whatever the switch says.
\<close>

theorem static_token_policy:
  assumes switch: "cfg_disable_static_token_with_oauth (sv_cfg sv)"
    and token: "bearer_token req = Some token" "sv_static_token sv = Some token"
  shows "(run_prog (serve sv (WebApi req)) (sv_env sv) outs sh = Some (Forwarded ctx, tr, sh') \<longrightarrow>
      (\<exists>clock claims. sv_verify sv clock token (canonical_resource_url (sv_cfg sv))
          (public_base_url (sv_cfg sv)) = Some claims \<and> ctx = token_context (sv_actor_key sv) claims))
    \<and> serve sv (McpEndpoint req) = Ret (Forwarded (static_context (sv_actor_key sv) lab_scopes))"
proof -
  have "\<exists>clock claims. sv_verify sv clock token (canonical_resource_url (sv_cfg sv))
      (public_base_url (sv_cfg sv)) = Some claims \<and> ctx = token_context (sv_actor_key sv) claims"
    if "run_prog (serve sv (WebApi req)) (sv_env sv) outs sh = Some (Forwarded ctx, tr, sh')"
  proof -
    from that obtain tr' where run: "run_prog (authenticate (make_auth_layer sv True) req) (sv_env sv) outs sh
        = Some (Inr ctx, tr', sh')"
      using run_behind by fastforce
    from authenticate_cases [OF this] switch token show ?thesis
      by (auto simp: make_auth_layer_def static_token_blocked_def)
  qed
  with token show ?thesis
    by (simp add: behind_def authenticate_mcp_def authenticate_request_def request_bearer_def
        tokens_equal_def)
qed

definition demo_claims :: access_claims where
  "demo_claims = \<lparr>ac_iss = ''s'', ac_sub = ''sub'', ac_aud = ''s'', ac_exp = 60, ac_nbf = None, ac_iat = 0, ac_jti = [],
     ac_token_scope = ''m'', ac_azp = ''c''\<rparr>"

definition demo_strict :: server where
  "demo_strict = demo_server\<lparr>sv_cfg := demo_config\<lparr>cfg_disable_static_token_with_oauth := True\<rparr>,
     sv_static_token := Some ''t'', sv_verify := (\<lambda>_ _ _ _. Some demo_claims)\<rparr>"

theorem static_token_policy_witness:
  "\<exists>tr sh clock claims. run_prog (serve demo_strict (WebApi demo_static_request)) plain_env [GotNow 5] initial
       = Some (Forwarded (token_context (sv_actor_key demo_strict) demo_claims), tr, sh)
     \<and> sv_verify demo_strict clock ''t'' (canonical_resource_url (sv_cfg demo_strict))
         (public_base_url (sv_cfg demo_strict)) = Some claims
     \<and> serve demo_strict (McpEndpoint demo_static_request)
         = Ret (Forwarded (static_context (sv_actor_key demo_strict) lab_scopes))"
proof -
  have facts: "cfg_disable_static_token_with_oauth (sv_cfg demo_strict)" "sv_env demo_strict = plain_env"
    "sv_static_token demo_strict = Some ''t''" "sv_verify demo_strict a b c d = Some demo_claims" for a b c d
    by (simp_all add: demo_strict_def)
  then have "\<exists>tr sh. run_prog (serve demo_strict (WebApi demo_static_request)) plain_env [GotNow 5] initial
      = Some (Forwarded (token_context (sv_actor_key demo_strict) demo_claims), tr, sh)"
    by (simp add: behind_def authenticate_def bearer_path_def granted_def insufficient_scope_response_def
        make_auth_layer_def static_token_blocked_def now_unix_def fits_def ask_fits_def)
  with static_token_policy [OF facts(1) demo_static_bearer facts(3)] facts show ?thesis by metis
qed

end
