(* ===== verification/Resource_Registry.thy ===== *)
theory Resource_Registry
  imports Ssrf Ordered_Map "HOL-Library.Char_ord" "HOL-Library.List_Lexorder"
begin

text \<open>
  The registry of OAuth resources and their scopes (\<open>labby-auth/src/resource_registry.rs\<close>): a
  configured table that is replaced as a whole, and leases that expire. Every operation drops
  the expired leases first. The specification never drops a lease; the two answer alike as long
  as the clock does not run backwards.
\<close>

section \<open>Data\<close>

record resource_lease =
  rl_id :: string
  rl_resource :: string
  rl_scopes :: "string list"
  rl_expires_at_unix :: nat

record lease_diagnostic =
  ld_resource :: string
  ld_scopes :: "string list"
  ld_owner :: string
  ld_expires_at_unix :: nat

datatype registry_error =
    InvalidResource | InvalidScopes | InvalidTtl | InvalidOwner | LeaseNotFound
  | RandomnessUnavailable | InvalidClock

record stored_lease =
  sl_resource :: string
  sl_scopes :: "string list"
  sl_owner :: string
  sl_expires_at_unix :: nat

text \<open>A \<open>BTreeMap\<close> is the list of its entries in key order, a \<open>BTreeSet\<close> the list of its elements.\<close>

record resource_registry =
  rr_configured :: "(string \<times> string list) list"
  rr_leases :: "(string \<times> stored_lease) list"

definition new_registry :: resource_registry where
  "new_registry = \<lparr>rr_configured = [], rr_leases = []\<rparr>"

definition bt_set :: "string list \<Rightarrow> string list" where
  "bt_set xs = sort (remdups xs)"

definition max_resource_lease_ttl :: nat where
  "max_resource_lease_ttl = 86400"

definition max_resource_lease_owner_len :: nat where
  "max_resource_lease_owner_len = 128"

section \<open>Validation\<close>

definition canonical_resource :: "(string \<Rightarrow> url option) \<Rightarrow> string \<Rightarrow> registry_error + string" where
  "canonical_resource url_parse resource =
     (let trimmed = trim resource;
          canonical = (if trimmed \<noteq> [] \<and> last trimmed = CHR ''/'' then butlast trimmed else trimmed)
      in case url_parse canonical of
           None \<Rightarrow> Inl InvalidResource
         | Some parsed \<Rightarrow>
             if url_scheme parsed \<noteq> ''https'' \<or> url_host_str parsed = None \<or> url_username parsed \<noteq> []
                \<or> url_password parsed \<noteq> None \<or> url_query parsed \<noteq> None \<or> url_fragment parsed \<noteq> None
             then Inl InvalidResource else Inr canonical)"

definition scope_byte :: "nat \<Rightarrow> bool" where
  "scope_byte b = (b = 0x21 \<or> (0x23 \<le> b \<and> b \<le> 0x5b) \<or> (0x5d \<le> b \<and> b \<le> 0x7e))"

definition valid_scope :: "string \<Rightarrow> bool" where
  "valid_scope scope = (scope \<noteq> [] \<and> list_all (\<lambda>c. scope_byte (byte c)) scope)"

definition validated_scopes :: "string list \<Rightarrow> registry_error + string list" where
  "validated_scopes raw =
     (let scopes = bt_set (map trim raw)
      in if scopes = [] \<or> list_ex (\<lambda>s. \<not> valid_scope s) scopes then Inl InvalidScopes else Inr scopes)"

text \<open>A \<open>Duration\<close> is its seconds and nanoseconds.\<close>

type_synonym duration = "nat \<times> nat"

definition validate_ttl :: "duration \<Rightarrow> registry_error + unit" where
  "validate_ttl ttl =
     (if ttl = (0, 0) \<or> fst ttl > max_resource_lease_ttl
         \<or> (fst ttl = max_resource_lease_ttl \<and> snd ttl > 0) \<or> snd ttl \<noteq> 0
      then Inl InvalidTtl else Inr ())"

text \<open>A \<open>SystemTime\<close> is its offset from the epoch in seconds, rounded down.\<close>

definition unix_seconds :: "int \<Rightarrow> registry_error + nat" where
  "unix_seconds now = (if now < 0 then Inl InvalidClock else Inr (nat now))"

definition checked_add_u64 :: "nat \<Rightarrow> nat \<Rightarrow> nat option" where
  "checked_add_u64 a b = (if a + b < 2 ^ 64 then Some (a + b) else None)"

section \<open>Operations\<close>

definition prune_locked :: "nat \<Rightarrow> resource_registry \<Rightarrow> resource_registry" where
  "prune_locked now reg =
     reg\<lparr>rr_leases := filter (\<lambda>(_, l). now < sl_expires_at_unix l) (rr_leases reg)\<rparr>"

definition public_lease :: "string \<Rightarrow> stored_lease \<Rightarrow> resource_lease" where
  "public_lease i l =
     \<lparr>rl_id = i, rl_resource = sl_resource l, rl_scopes = sl_scopes l,
      rl_expires_at_unix = sl_expires_at_unix l\<rparr>"

primrec configured_of ::
    "(string \<Rightarrow> url option) \<Rightarrow> (string \<times> string list) list \<Rightarrow> (string \<times> string list) list \<Rightarrow>
     registry_error + (string \<times> string list) list" where
  "configured_of url_parse acc [] = Inr acc"
| "configured_of url_parse acc (r # rs) =
     and_then (canonical_resource url_parse (fst r)) (\<lambda>resource.
     and_then (validated_scopes (snd r)) (\<lambda>scopes.
     configured_of url_parse (bt_insert resource scopes acc) rs))"

definition replace_configured_resource_scopes ::
    "(string \<Rightarrow> url option) \<Rightarrow> (string \<times> string list) list \<Rightarrow> resource_registry \<Rightarrow>
     (registry_error + unit) \<times> resource_registry" where
  "replace_configured_resource_scopes url_parse resources reg =
     (case configured_of url_parse [] resources of
        Inl e \<Rightarrow> (Inl e, reg)
      | Inr configured \<Rightarrow> (Inr (), reg\<lparr>rr_configured := configured\<rparr>))"

text \<open>\<open>rnd\<close> is what \<open>random_lease_id\<close> returns, \<open>None\<close> when the random source fails.\<close>

definition lease_input ::
    "(string \<Rightarrow> url option) \<Rightarrow> string \<Rightarrow> string list \<Rightarrow> duration \<Rightarrow> string \<Rightarrow> int \<Rightarrow>
     registry_error + nat \<times> stored_lease" where
  "lease_input url_parse resource0 scopes0 ttl owner0 now =
     and_then (validate_ttl ttl) (\<lambda>_.
     and_then (canonical_resource url_parse resource0) (\<lambda>resource.
     and_then (validated_scopes scopes0) (\<lambda>scopes.
     let owner = trim owner0
     in if owner = [] \<or> length owner > max_resource_lease_owner_len then Inl InvalidOwner
        else and_then (unix_seconds now) (\<lambda>now_unix.
             and_then (ok_or (checked_add_u64 now_unix (fst ttl)) InvalidTtl) (\<lambda>expires.
             Inr (now_unix, \<lparr>sl_resource = resource, sl_scopes = scopes, sl_owner = owner,
               sl_expires_at_unix = expires\<rparr>))))))"

definition create_resource_lease_at ::
    "(string \<Rightarrow> url option) \<Rightarrow> string \<Rightarrow> string list \<Rightarrow> duration \<Rightarrow> string \<Rightarrow> int \<Rightarrow> string option \<Rightarrow>
     resource_registry \<Rightarrow> (registry_error + resource_lease) \<times> resource_registry" where
  "create_resource_lease_at url_parse resource scopes ttl owner now rnd reg =
     (case lease_input url_parse resource scopes ttl owner now of
        Inl e \<Rightarrow> (Inl e, reg)
      | Inr (now_unix, stored) \<Rightarrow>
          (case rnd of
             None \<Rightarrow> (Inl RandomnessUnavailable, reg)
           | Some i \<Rightarrow>
               let pruned = prune_locked now_unix reg
               in (Inr (public_lease i stored),
                   pruned\<lparr>rr_leases := bt_insert i stored (rr_leases pruned)\<rparr>)))"

definition renew_input :: "duration \<Rightarrow> int \<Rightarrow> registry_error + nat \<times> nat" where
  "renew_input ttl now =
     and_then (validate_ttl ttl) (\<lambda>_.
     and_then (unix_seconds now) (\<lambda>now_unix.
     and_then (ok_or (checked_add_u64 now_unix (fst ttl)) InvalidTtl) (\<lambda>expires.
     Inr (now_unix, expires))))"

definition renew_resource_lease_at ::
    "string \<Rightarrow> duration \<Rightarrow> int \<Rightarrow> resource_registry \<Rightarrow>
     (registry_error + resource_lease) \<times> resource_registry" where
  "renew_resource_lease_at i ttl now reg =
     (case renew_input ttl now of
        Inl e \<Rightarrow> (Inl e, reg)
      | Inr (now_unix, expires) \<Rightarrow>
          let pruned = prune_locked now_unix reg
          in (case map_of (rr_leases pruned) i of
                None \<Rightarrow> (Inl LeaseNotFound, pruned)
              | Some l \<Rightarrow>
                  let l' = l\<lparr>sl_expires_at_unix := expires\<rparr>
                  in (Inr (public_lease i l'), pruned\<lparr>rr_leases := bt_insert i l' (rr_leases pruned)\<rparr>)))"

definition release_resource_lease ::
    "string \<Rightarrow> int \<Rightarrow> resource_registry \<Rightarrow> (registry_error + unit) \<times> resource_registry" where
  "release_resource_lease i now reg =
     (case unix_seconds now of
        Inl e \<Rightarrow> (Inl e, reg)
      | Inr now_unix \<Rightarrow>
          let pruned = prune_locked now_unix reg
          in (case map_of (rr_leases pruned) i of
                None \<Rightarrow> (Inl LeaseNotFound, pruned)
              | Some _ \<Rightarrow> (Inr (), pruned\<lparr>rr_leases := bt_remove i (rr_leases pruned)\<rparr>)))"

definition prune_expired_resource_leases :: "int \<Rightarrow> resource_registry \<Rightarrow> nat \<times> resource_registry" where
  "prune_expired_resource_leases now reg =
     (case unix_seconds now of
        Inl _ \<Rightarrow> (0, reg)
      | Inr now_unix \<Rightarrow>
          let pruned = prune_locked now_unix reg
          in (length (rr_leases reg) - length (rr_leases pruned), pruned))"

text \<open>The scopes of a resource: the configured ones and those of its leases, in order, without duplicates.\<close>

definition collect_scopes :: "string \<Rightarrow> resource_registry \<Rightarrow> string list" where
  "collect_scopes resource reg =
     bt_set ((case map_of (rr_configured reg) resource of None \<Rightarrow> [] | Some s \<Rightarrow> s)
       @ concat (map (sl_scopes \<circ> snd) (filter (\<lambda>(_, l). sl_resource l = resource) (rr_leases reg))))"

definition effective_resource_scopes_at ::
    "(string \<Rightarrow> url option) \<Rightarrow> string \<Rightarrow> int \<Rightarrow> resource_registry \<Rightarrow>
     string list option \<times> resource_registry" where
  "effective_resource_scopes_at url_parse resource0 now reg =
     (case canonical_resource url_parse resource0 of
        Inl _ \<Rightarrow> (None, reg)
      | Inr resource \<Rightarrow>
          (case unix_seconds now of
             Inl _ \<Rightarrow> (None, reg)
           | Inr now_unix \<Rightarrow>
               let pruned = prune_locked now_unix reg; scopes = collect_scopes resource pruned
               in (if scopes = [] then None else Some scopes, pruned)))"

definition lease_count :: "int \<Rightarrow> resource_registry \<Rightarrow> nat \<times> resource_registry" where
  "lease_count now reg =
     (case unix_seconds now of
        Inl _ \<Rightarrow> (0, reg)
      | Inr now_unix \<Rightarrow> let pruned = prune_locked now_unix reg in (length (rr_leases pruned), pruned))"

definition diagnostic :: "stored_lease \<Rightarrow> lease_diagnostic" where
  "diagnostic l =
     \<lparr>ld_resource = sl_resource l, ld_scopes = sl_scopes l, ld_owner = sl_owner l,
      ld_expires_at_unix = sl_expires_at_unix l\<rparr>"

definition lease_diagnostics :: "int \<Rightarrow> resource_registry \<Rightarrow> lease_diagnostic list \<times> resource_registry" where
  "lease_diagnostics now reg =
     (case unix_seconds now of
        Inl _ \<Rightarrow> ([], reg)
      | Inr now_unix \<Rightarrow>
          let pruned = prune_locked now_unix reg in (map (diagnostic \<circ> snd) (rr_leases pruned), pruned))"

section \<open>The registry as a machine\<close>

datatype registry_op =
    Replace "(string \<times> string list) list"
  | Create string "string list" duration string int "string option"
  | Renew string duration int
  | Release string int
  | Prune int
  | Effective string int
  | CountLeases int
  | Diagnostics int

datatype registry_result =
    RUnit "registry_error + unit"
  | RLease "registry_error + resource_lease"
  | RPruned nat
  | RScopes "string list option"
  | RCount nat
  | RDiagnostics "lease_diagnostic list"

primrec registry_step ::
    "(string \<Rightarrow> url option) \<Rightarrow> registry_op \<Rightarrow> resource_registry \<Rightarrow> registry_result \<times> resource_registry" where
  "registry_step up (Replace rs) reg = map_prod RUnit id (replace_configured_resource_scopes up rs reg)"
| "registry_step up (Create r ss ttl owner now rnd) reg =
     map_prod RLease id (create_resource_lease_at up r ss ttl owner now rnd reg)"
| "registry_step up (Renew i ttl now) reg = map_prod RLease id (renew_resource_lease_at i ttl now reg)"
| "registry_step up (Release i now) reg = map_prod RUnit id (release_resource_lease i now reg)"
| "registry_step up (Prune now) reg = map_prod RPruned id (prune_expired_resource_leases now reg)"
| "registry_step up (Effective r now) reg = map_prod RScopes id (effective_resource_scopes_at up r now reg)"
| "registry_step up (CountLeases now) reg = map_prod RCount id (lease_count now reg)"
| "registry_step up (Diagnostics now) reg = map_prod RDiagnostics id (lease_diagnostics now reg)"

primrec op_clock :: "registry_op \<Rightarrow> int option" where
  "op_clock (Replace rs) = None"
| "op_clock (Create r ss ttl owner now rnd) = Some now"
| "op_clock (Renew i ttl now) = Some now"
| "op_clock (Release i now) = Some now"
| "op_clock (Prune now) = Some now"
| "op_clock (Effective r now) = Some now"
| "op_clock (CountLeases now) = Some now"
| "op_clock (Diagnostics now) = Some now"

primrec run_registry ::
    "(string \<Rightarrow> url option) \<Rightarrow> registry_op list \<Rightarrow> resource_registry \<Rightarrow>
     registry_result list \<times> resource_registry" where
  "run_registry up [] reg = ([], reg)"
| "run_registry up (op # ops) reg =
     (case registry_step up op reg of
        (r, reg') \<Rightarrow> map_prod ((#) r) id (run_registry up ops reg'))"

section \<open>The specification\<close>

text \<open>
  Two maps; a lease stays in its map until it is released, and every operation looks only at the
  leases that are live at its own time.
\<close>

record lease_spec =
  ls_configured :: "string \<rightharpoonup> string list"
  ls_leases :: "string \<rightharpoonup> stored_lease"

definition live :: "nat \<Rightarrow> (string \<rightharpoonup> stored_lease) \<Rightarrow> (string \<rightharpoonup> stored_lease)" where
  "live now m = (\<lambda>i. Option.bind (m i) (\<lambda>l. if now < sl_expires_at_unix l then Some l else None))"

definition spec_scopes :: "string \<Rightarrow> (string \<rightharpoonup> string list) \<Rightarrow> (string \<rightharpoonup> stored_lease) \<Rightarrow> string set" where
  "spec_scopes resource configured m =
     {s. \<exists>ss. configured resource = Some ss \<and> s \<in> set ss}
     \<union> {s. \<exists>i l. m i = Some l \<and> sl_resource l = resource \<and> s \<in> set (sl_scopes l)}"

definition spec_renew :: "string \<Rightarrow> nat \<Rightarrow> nat \<Rightarrow> lease_spec \<Rightarrow> (registry_error + resource_lease) \<times> lease_spec" where
  "spec_renew i now expires sp =
     (case live now (ls_leases sp) i of
        None \<Rightarrow> (Inl LeaseNotFound, sp)
      | Some l \<Rightarrow>
          let l' = l\<lparr>sl_expires_at_unix := expires\<rparr>
          in (Inr (public_lease i l'), sp\<lparr>ls_leases := (ls_leases sp)(i \<mapsto> l')\<rparr>))"

definition spec_release :: "string \<Rightarrow> nat \<Rightarrow> lease_spec \<Rightarrow> (registry_error + unit) \<times> lease_spec" where
  "spec_release i now sp =
     (case live now (ls_leases sp) i of
        None \<Rightarrow> (Inl LeaseNotFound, sp)
      | Some _ \<Rightarrow> (Inr (), sp\<lparr>ls_leases := (ls_leases sp)(i := None)\<rparr>))"

text \<open>How many leases a \<open>Prune\<close> drops is not part of the specification.\<close>

primrec spec_step ::
    "(string \<Rightarrow> url option) \<Rightarrow> registry_op \<Rightarrow> lease_spec \<Rightarrow> registry_result \<times> lease_spec" where
  "spec_step up (Replace rs) sp =
     (case configured_of up [] rs of
        Inl e \<Rightarrow> (RUnit (Inl e), sp)
      | Inr c \<Rightarrow> (RUnit (Inr ()), sp\<lparr>ls_configured := map_of c\<rparr>))"
| "spec_step up (Create r ss ttl owner now rnd) sp =
     (case lease_input up r ss ttl owner now of
        Inl e \<Rightarrow> (RLease (Inl e), sp)
      | Inr (_, l) \<Rightarrow>
          (case rnd of
             None \<Rightarrow> (RLease (Inl RandomnessUnavailable), sp)
           | Some i \<Rightarrow> (RLease (Inr (public_lease i l)), sp\<lparr>ls_leases := (ls_leases sp)(i \<mapsto> l)\<rparr>)))"
| "spec_step up (Renew i ttl now) sp =
     (case renew_input ttl now of
        Inl e \<Rightarrow> (RLease (Inl e), sp)
      | Inr (n, expires) \<Rightarrow> map_prod RLease id (spec_renew i n expires sp))"
| "spec_step up (Release i now) sp =
     (case unix_seconds now of
        Inl e \<Rightarrow> (RUnit (Inl e), sp) | Inr n \<Rightarrow> map_prod RUnit id (spec_release i n sp))"
| "spec_step up (Prune now) sp = (RPruned 0, sp)"
| "spec_step up (Effective r now) sp =
     (RScopes (case (canonical_resource up r, unix_seconds now) of
        (Inr resource, Inr n) \<Rightarrow>
          let S = spec_scopes resource (ls_configured sp) (live n (ls_leases sp))
          in if S = {} then None else Some (sorted_list_of_set S)
      | _ \<Rightarrow> None), sp)"
| "spec_step up (CountLeases now) sp =
     (RCount (case unix_seconds now of Inl _ \<Rightarrow> 0 | Inr n \<Rightarrow> card (dom (live n (ls_leases sp)))), sp)"
| "spec_step up (Diagnostics now) sp =
     (RDiagnostics (case unix_seconds now of
        Inl _ \<Rightarrow> []
      | Inr n \<Rightarrow> map (\<lambda>i. diagnostic (the (live n (ls_leases sp) i)))
                 (sorted_list_of_set (dom (live n (ls_leases sp))))), sp)"

primrec run_spec ::
    "(string \<Rightarrow> url option) \<Rightarrow> registry_op list \<Rightarrow> lease_spec \<Rightarrow> registry_result list \<times> lease_spec" where
  "run_spec up [] sp = ([], sp)"
| "run_spec up (op # ops) sp =
     (case spec_step up op sp of (r, sp') \<Rightarrow> map_prod ((#) r) id (run_spec up ops sp'))"

definition new_spec :: lease_spec where
  "new_spec = \<lparr>ls_configured = Map.empty, ls_leases = Map.empty\<rparr>"

primrec without_count :: "registry_result \<Rightarrow> registry_result" where
  "without_count (RUnit r) = RUnit r"
| "without_count (RLease r) = RLease r"
| "without_count (RPruned n) = RPruned 0"
| "without_count (RScopes r) = RScopes r"
| "without_count (RCount n) = RCount n"
| "without_count (RDiagnostics ds) = RDiagnostics ds"

section \<open>The registry refines the specification\<close>

definition sim :: "int \<Rightarrow> resource_registry \<Rightarrow> lease_spec \<Rightarrow> bool" where
  "sim t reg sp =
     (bt_ok (rr_leases reg) \<and> map_of (rr_configured reg) = ls_configured sp
      \<and> live (nat t) (map_of (rr_leases reg)) = live (nat t) (ls_leases sp))"

lemma live_live: "t \<le> n \<Longrightarrow> live n (live t m) = live n m"
  by (auto simp: live_def fun_eq_iff Option.bind_eq_Some_conv split: Option.bind_split)

lemma live_upd: "live n (m(i \<mapsto> l)) = (if n < sl_expires_at_unix l then (live n m)(i \<mapsto> l) else (live n m)(i := None))"
  by (auto simp: live_def fun_eq_iff)

lemma live_del: "live n (m(i := None)) = (live n m)(i := None)"
  by (auto simp: live_def fun_eq_iff)

lemma map_of_pruned:
  "distinct (map fst m) \<Longrightarrow> map_of (filter (\<lambda>(_, l). now < sl_expires_at_unix l) m) = live now (map_of m)"
proof (induction m)
  case (Cons x m)
  have "map_of m (fst x) = None" using Cons.prems by (simp add: map_of_eq_None_iff)
  with Cons show ?case by (cases x) (auto simp: live_def fun_eq_iff)
qed (simp add: live_def)

lemma bt_ok_filter: "bt_ok m \<Longrightarrow> bt_ok (filter P m)"
  by (simp add: bt_ok_def sorted_wrt_map sorted_wrt_filter)

lemma prune_simps [simp]:
  "rr_configured (prune_locked n reg) = rr_configured reg"
  "bt_ok (rr_leases reg) \<Longrightarrow> bt_ok (rr_leases (prune_locked n reg))"
  "bt_ok (rr_leases reg) \<Longrightarrow> map_of (rr_leases (prune_locked n reg)) = live n (map_of (rr_leases reg))"
  by (simp_all add: prune_locked_def bt_ok_filter map_of_pruned bt_ok_distinct)

lemma sim_live: "sim t reg sp \<Longrightarrow> nat t \<le> n \<Longrightarrow> live n (map_of (rr_leases reg)) = live n (ls_leases sp)"
  unfolding sim_def by (metis live_live)

lemma sim_later: "sim t reg sp \<Longrightarrow> t \<le> t' \<Longrightarrow> sim t' reg sp"
  using sim_live [of t reg sp "nat t'"] by (simp add: sim_def nat_mono)

lemma sim_prune: "sim t reg sp \<Longrightarrow> t \<le> int n \<Longrightarrow> sim (int n) (prune_locked n reg) sp"
  using sim_live [of t reg sp n] by (simp add: sim_def live_live)

lemma pruned_leases:
  "sim t reg sp \<Longrightarrow> t \<le> int n \<Longrightarrow> map_of (rr_leases (prune_locked n reg)) = live n (ls_leases sp)"
  using sim_live [of t reg sp n] by (simp add: sim_def)

lemma sim_put:
  assumes "sim t reg sp"
  shows "sim t (reg\<lparr>rr_leases := bt_insert i l (rr_leases reg)\<rparr>) (sp\<lparr>ls_leases := (ls_leases sp)(i \<mapsto> l)\<rparr>)"
  using assms by (simp add: sim_def bt_ok_insert map_of_bt_insert live_upd)

lemma sim_remove:
  assumes "sim t reg sp"
  shows "sim t (reg\<lparr>rr_leases := bt_remove i (rr_leases reg)\<rparr>) (sp\<lparr>ls_leases := (ls_leases sp)(i := None)\<rparr>)"
  using assms by (simp add: sim_def bt_ok_remove map_of_bt_remove live_del)

lemma unix_seconds_Inr: "unix_seconds now = Inr n \<longleftrightarrow> 0 \<le> now \<and> n = nat now"
  by (auto simp: unix_seconds_def)

lemma lease_input_clock: "lease_input up r ss ttl owner now = Inr (n, l) \<Longrightarrow> now = int n"
  by (auto simp: lease_input_def and_then_def unix_seconds_Inr Let_def split: sum.splits if_splits)

lemma renew_input_clock: "renew_input ttl now = Inr (n, e) \<Longrightarrow> now = int n"
  by (auto simp: renew_input_def and_then_def unix_seconds_Inr split: sum.splits)

lemma bt_mem: "bt_ok m \<Longrightarrow> (i, l) \<in> set m \<longleftrightarrow> map_of m i = Some l"
  using map_of_eq_Some_iff [OF bt_ok_distinct] by metis

lemma collect_scopes_eq:
  assumes "bt_ok (rr_leases reg)"
  shows "collect_scopes r reg
    = sorted_list_of_set (spec_scopes r (map_of (rr_configured reg)) (map_of (rr_leases reg)))"
proof -
  have "set (concat (map (sl_scopes \<circ> snd) (filter (\<lambda>(_, l). sl_resource l = r) (rr_leases reg))))
      = {s. \<exists>i l. map_of (rr_leases reg) i = Some l \<and> sl_resource l = r \<and> s \<in> set (sl_scopes l)}"
    unfolding bt_mem [OF assms, symmetric] by auto blast+
  then have "set ((case map_of (rr_configured reg) r of None \<Rightarrow> [] | Some s \<Rightarrow> s)
      @ concat (map (sl_scopes \<circ> snd) (filter (\<lambda>(_, l). sl_resource l = r) (rr_leases reg))))
    = spec_scopes r (map_of (rr_configured reg)) (map_of (rr_leases reg))"
    unfolding set_append spec_scopes_def by (cases "map_of (rr_configured reg) r") simp_all
  then show ?thesis
    unfolding collect_scopes_def bt_set_def sorted_list_of_set_sort_remdups [symmetric] by simp
qed

lemma finite_spec_scopes: "finite (spec_scopes r c (map_of m))"
proof -
  have "finite {s. \<exists>i l. map_of m i = Some l \<and> sl_resource l = r \<and> s \<in> set (sl_scopes l)}"
    by (rule finite_subset [of _ "\<Union>(i, l) \<in> set m. set (sl_scopes l)"]) (auto dest: map_of_SomeD)
  moreover have "finite {s. \<exists>ss. c r = Some ss \<and> s \<in> set ss}" by (cases "c r") auto
  ultimately show ?thesis by (simp add: spec_scopes_def)
qed

lemma bt_keys: "bt_ok m \<Longrightarrow> sorted_list_of_set (dom (map_of m)) = map fst m"
  unfolding bt_ok_def dom_map_of_conv_image_fst
  by (metis set_map sorted_list_of_set.idem_if_sorted_distinct strict_sorted_iff)

lemma bt_values: "bt_ok m \<Longrightarrow> map (\<lambda>i. f (the (map_of m i))) (map fst m) = map (f \<circ> snd) m"
  using bt_ok_distinct [of m] by (auto intro!: map_cong simp: map_of_eq_Some_iff)

lemma bt_length: "bt_ok m \<Longrightarrow> card (dom (map_of m)) = length m"
  using distinct_card [OF bt_ok_distinct] by (simp add: dom_map_of_conv_image_fst)

lemma sim_ok: "sim t reg sp \<Longrightarrow> bt_ok (rr_leases reg)"
  by (simp add: sim_def)

lemma sim_configured: "sim t reg sp \<Longrightarrow> map_of (rr_configured reg) = ls_configured sp"
  by (simp add: sim_def)

lemma without_count_fixed:
  "registry_step up (Create rs ss ttl owner now rnd) reg = (r, reg') \<Longrightarrow> without_count r = r"
  "registry_step up (Renew i ttl now) reg = (r, reg') \<Longrightarrow> without_count r = r"
  "registry_step up (Release i now) reg = (r, reg') \<Longrightarrow> without_count r = r"
  by (auto simp: map_prod_def split: prod.splits)

lemma step_create:
  assumes "sim t reg sp" and "t \<le> now"
  shows "\<exists>r reg' sp'. registry_step up (Create rs ss ttl owner now rnd) reg = (r, reg')
    \<and> spec_step up (Create rs ss ttl owner now rnd) sp = (r, sp') \<and> sim now reg' sp'"
proof (cases "lease_input up rs ss ttl owner now")
  case (Inr x)
  then obtain n l where x: "x = (n, l)" "now = int n" using lease_input_clock by (cases x) auto
  have "sim now (prune_locked n reg) sp" using sim_prune [OF assms(1)] assms(2) x by simp
  from sim_put [OF this] Inr x sim_later [OF assms] show ?thesis
    by (cases rnd) (simp_all add: create_resource_lease_at_def Let_def)
qed (use sim_later [OF assms] in \<open>simp add: create_resource_lease_at_def\<close>)

lemma step_renew:
  assumes "sim t reg sp" and "t \<le> now"
  shows "\<exists>r reg' sp'. registry_step up (Renew i ttl now) reg = (r, reg')
    \<and> spec_step up (Renew i ttl now) sp = (r, sp') \<and> sim now reg' sp'"
proof (cases "renew_input ttl now")
  case (Inr x)
  then obtain n e where x: "x = (n, e)" "now = int n" using renew_input_clock by (cases x) auto
  have pruned: "sim now (prune_locked n reg) sp" "map_of (rr_leases (prune_locked n reg)) = live n (ls_leases sp)"
    using sim_prune [OF assms(1)] pruned_leases [OF assms(1)] assms(2) x by simp_all
  with sim_put [OF pruned(1)] Inr x show ?thesis
    by (cases "live n (ls_leases sp) i") (simp_all add: renew_resource_lease_at_def spec_renew_def Let_def)
qed (use sim_later [OF assms] in \<open>simp add: renew_resource_lease_at_def\<close>)

lemma step_release:
  assumes "sim t reg sp" and "t \<le> now"
  shows "\<exists>r reg' sp'. registry_step up (Release i now) reg = (r, reg')
    \<and> spec_step up (Release i now) sp = (r, sp') \<and> sim now reg' sp'"
proof (cases "unix_seconds now")
  case (Inr n)
  then have n: "now = int n" by (simp add: unix_seconds_Inr)
  have pruned: "sim now (prune_locked n reg) sp" "map_of (rr_leases (prune_locked n reg)) = live n (ls_leases sp)"
    using sim_prune [OF assms(1)] pruned_leases [OF assms(1)] assms(2) n by simp_all
  with sim_remove [OF pruned(1)] Inr show ?thesis
    by (cases "live n (ls_leases sp) i") (simp_all add: release_resource_lease_def spec_release_def Let_def)
qed (use sim_later [OF assms] in \<open>simp add: release_resource_lease_def\<close>)

text \<open>The operations that only look; \<open>n\<close> is the time they prune at.\<close>

lemma step_read:
  assumes "sim t reg sp" and "t \<le> int n"
  shows "sim (int n) (prune_locked n reg) sp"
    "collect_scopes r (prune_locked n reg)
      = sorted_list_of_set (spec_scopes r (ls_configured sp) (live n (ls_leases sp)))"
    "finite (spec_scopes r (ls_configured sp) (live n (ls_leases sp)))"
    "length (rr_leases (prune_locked n reg)) = card (dom (live n (ls_leases sp)))"
    "map (diagnostic \<circ> snd) (rr_leases (prune_locked n reg))
      = map (\<lambda>i. diagnostic (the (live n (ls_leases sp) i))) (sorted_list_of_set (dom (live n (ls_leases sp))))"
proof -
  let ?p = "prune_locked n reg"
  show sim: "sim (int n) ?p sp" by (rule sim_prune [OF assms])
  note leases = pruned_leases [OF assms] and ok = sim_ok [OF sim]
  show "collect_scopes r ?p = sorted_list_of_set (spec_scopes r (ls_configured sp) (live n (ls_leases sp)))"
    using collect_scopes_eq [OF ok] by (simp add: leases sim_configured [OF assms(1)])
  show "finite (spec_scopes r (ls_configured sp) (live n (ls_leases sp)))"
    using finite_spec_scopes [of r _ "rr_leases ?p"] by (simp add: leases)
  show "length (rr_leases ?p) = card (dom (live n (ls_leases sp)))"
    using bt_length [OF ok] by (simp add: leases)
  show "map (diagnostic \<circ> snd) (rr_leases ?p)
      = map (\<lambda>i. diagnostic (the (live n (ls_leases sp) i))) (sorted_list_of_set (dom (live n (ls_leases sp))))"
    using bt_values [OF ok, of diagnostic] bt_keys [OF ok] by (simp add: leases)
qed

lemma registry_step_sim:
  assumes "sim t reg sp" and "\<forall>now. op_clock op = Some now \<longrightarrow> t \<le> now"
  shows "\<exists>r reg' sp'. registry_step up op reg = (r, reg') \<and> spec_step up op sp = (without_count r, sp')
    \<and> sim (case op_clock op of None \<Rightarrow> t | Some now \<Rightarrow> now) reg' sp'"
proof (cases op)
  case (Replace rs)
  with assms(1) show ?thesis
    by (auto simp: replace_configured_resource_scopes_def sim_def split: sum.splits)
next
  case (Create rs ss ttl owner now rnd)
  with step_create [OF assms(1), of now up rs ss ttl owner rnd] assms(2) show ?thesis
    by (auto simp del: registry_step.simps spec_step.simps
        intro: sym [OF without_count_fixed(1)])
next
  case (Renew i ttl now)
  with step_renew [OF assms(1), of now up i ttl] assms(2) show ?thesis
    by (auto simp del: registry_step.simps spec_step.simps
        intro: sym [OF without_count_fixed(2)])
next
  case (Release i now)
  with step_release [OF assms(1), of now up i] assms(2) show ?thesis
    by (auto simp del: registry_step.simps spec_step.simps
        intro: sym [OF without_count_fixed(3)])
next
  case (Prune now)
  with assms step_read(1) [OF assms(1), of "nat now"] sim_later [OF assms(1), of now] show ?thesis
    by (auto simp: prune_expired_resource_leases_def unix_seconds_def Let_def)
next
  case (Effective r now)
  with assms step_read(1-3) [OF assms(1), of "nat now"] sim_later [OF assms(1), of now] show ?thesis
    by (auto simp: effective_resource_scopes_at_def unix_seconds_def Let_def
        sorted_list_of_set_eq_Nil_iff split: sum.splits)
next
  case (CountLeases now)
  with assms step_read(1,4) [OF assms(1), of "nat now"] sim_later [OF assms(1), of now] show ?thesis
    by (auto simp: lease_count_def unix_seconds_def Let_def)
next
  case (Diagnostics now)
  with assms step_read(1,5) [OF assms(1), of "nat now"] sim_later [OF assms(1), of now] show ?thesis
    by (auto simp: lease_diagnostics_def unix_seconds_def Let_def)
qed

lemma run_registry_sim:
  assumes "sim t reg sp" and "sorted (t # List.map_filter op_clock ops)"
  shows "map without_count (fst (run_registry up ops reg)) = fst (run_spec up ops sp)"
  using assms
proof (induction ops arbitrary: t reg sp)
  case (Cons op ops)
  have clock: "\<forall>now. op_clock op = Some now \<longrightarrow> t \<le> now"
    using Cons.prems(2) by (auto simp: List.map_filter_def)
  from registry_step_sim [OF Cons.prems(1) clock, of up] obtain r reg' sp' where
    step: "registry_step up op reg = (r, reg')" "spec_step up op sp = (without_count r, sp')"
    and sim: "sim (case op_clock op of None \<Rightarrow> t | Some now \<Rightarrow> now) reg' sp'"
    by blast
  have "sorted ((case op_clock op of None \<Rightarrow> t | Some now \<Rightarrow> now) # List.map_filter op_clock ops)"
    using Cons.prems(2) by (auto simp: map_filter_simps split: option.splits)
  from Cons.IH [OF sim this] step show ?case
    by (simp add: map_prod_def split_beta del: registry_step.simps spec_step.simps)
qed simp

text \<open>
  C9. Dropping expired leases cannot be observed. Run any operations on a fresh registry whose
  clock readings never decrease. Every answer (the leases created and renewed, the errors, the
  scopes of a resource, the number of leases and the diagnostics) is that of the specification,
  which keeps every lease until it is released and looks at the live ones only. So a scope is
  granted for a resource exactly while it is configured or some unreleased lease for the
  resource, as last renewed, has not expired.
\<close>

theorem registry_refines:
  assumes "sorted (List.map_filter op_clock ops)"
  shows "map without_count (fst (run_registry up ops new_registry)) = fst (run_spec up ops new_spec)"
proof (rule run_registry_sim)
  let ?t = "Min (insert 0 (set (List.map_filter op_clock ops)))"
  show "sim ?t new_registry new_spec" by (simp add: sim_def new_registry_def new_spec_def bt_ok_def)
  show "sorted (?t # List.map_filter op_clock ops)" using assms by auto
qed

definition demo_resource_url :: url where
  "demo_resource_url = \<lparr>url_scheme = ''https'', url_username = [], url_password = None, url_host = None,
     url_host_str = Some ''h'', url_port = None, url_path = [], url_query = None, url_fragment = None\<rparr>"

definition demo_lease_ops :: "registry_op list" where
  "demo_lease_ops =
     [Create ''r'' [''a'', ''b''] (10, 0) ''o'' 5 (Some ''i''), Effective ''r'' 14, Renew ''i'' (20, 0) 14,
      Effective ''r/'' 33, CountLeases 34, Effective ''r'' 34]"

definition demo_url_parse :: "string \<Rightarrow> url option" where
  "demo_url_parse s = (if s = ''r'' then Some demo_resource_url else None)"

lemma demo_registry_facts:
  "canonical_resource demo_url_parse ''r'' = Inr ''r''" "canonical_resource demo_url_parse ''r/'' = Inr ''r''"
  "validated_scopes [''a'', ''b''] = Inr [''a'', ''b'']" "trim ''o'' = ''o''" "bt_set [''a'', ''b''] = [''a'', ''b'']"
  "bt_set [] = []"
  by code_simp+

lemma demo_registry_run:
  "run_registry demo_url_parse demo_lease_ops new_registry
     = ([RLease (Inr \<lparr>rl_id = ''i'', rl_resource = ''r'', rl_scopes = [''a'', ''b''], rl_expires_at_unix = 15\<rparr>),
         RScopes (Some [''a'', ''b'']),
         RLease (Inr \<lparr>rl_id = ''i'', rl_resource = ''r'', rl_scopes = [''a'', ''b''], rl_expires_at_unix = 34\<rparr>),
         RScopes (Some [''a'', ''b'']), RCount 0, RScopes None], new_registry)"
  by (simp add: demo_lease_ops_def new_registry_def create_resource_lease_at_def lease_input_def validate_ttl_def
      max_resource_lease_ttl_def max_resource_lease_owner_len_def unix_seconds_def checked_add_u64_def
      demo_registry_facts prune_locked_def public_lease_def effective_resource_scopes_at_def collect_scopes_def
      renew_resource_lease_at_def renew_input_def lease_count_def and_then_def ok_or_def Let_def)

theorem registry_refines_witness:
  "fst (run_spec demo_url_parse demo_lease_ops new_spec)
     = [RLease (Inr \<lparr>rl_id = ''i'', rl_resource = ''r'', rl_scopes = [''a'', ''b''], rl_expires_at_unix = 15\<rparr>),
        RScopes (Some [''a'', ''b'']),
        RLease (Inr \<lparr>rl_id = ''i'', rl_resource = ''r'', rl_scopes = [''a'', ''b''], rl_expires_at_unix = 34\<rparr>),
        RScopes (Some [''a'', ''b'']), RCount 0, RScopes None]"
proof -
  have "sorted (List.map_filter op_clock demo_lease_ops)" by code_simp
  from registry_refines [OF this, of demo_url_parse, symmetric] show ?thesis
    by (simp add: demo_registry_run del: run_spec.simps)
qed

section \<open>What a registry holds\<close>

definition scopes_ok :: "string list \<Rightarrow> bool" where
  "scopes_ok ss = (ss \<noteq> [] \<and> list_all valid_scope ss \<and> sorted_wrt (<) ss)"

definition https_resource :: "(string \<Rightarrow> url option) \<Rightarrow> string \<Rightarrow> bool" where
  "https_resource up r =
     (case up r of
        None \<Rightarrow> False
      | Some u \<Rightarrow> url_scheme u = ''https'' \<and> url_host_str u \<noteq> None \<and> url_username u = []
          \<and> url_password u = None \<and> url_query u = None \<and> url_fragment u = None)"

definition lease_ok :: "(string \<Rightarrow> url option) \<Rightarrow> nat \<Rightarrow> stored_lease \<Rightarrow> bool" where
  "lease_ok up t l =
     (https_resource up (sl_resource l) \<and> scopes_ok (sl_scopes l)
      \<and> sl_owner l \<noteq> [] \<and> length (sl_owner l) \<le> 128 \<and> sl_expires_at_unix l \<le> t + 86400)"

definition registry_ok :: "(string \<Rightarrow> url option) \<Rightarrow> nat \<Rightarrow> resource_registry \<Rightarrow> bool" where
  "registry_ok up t reg =
     (bt_ok (rr_configured reg) \<and> bt_ok (rr_leases reg)
      \<and> list_all (\<lambda>(r, ss). https_resource up r \<and> scopes_ok ss) (rr_configured reg)
      \<and> list_all (\<lambda>(_, l). lease_ok up t l) (rr_leases reg))"

lemma scopes_okI: "validated_scopes raw = Inr ss \<Longrightarrow> scopes_ok ss"
  by (auto simp: validated_scopes_def scopes_ok_def bt_set_def Let_def list_all_iff list_ex_iff
      strict_sorted_iff split: if_splits)

lemma https_resourceI: "canonical_resource up r = Inr c \<Longrightarrow> https_resource up c"
  by (auto simp: canonical_resource_def https_resource_def Let_def split: option.splits if_splits)

lemma ttl_bound: "validate_ttl ttl = Inr u \<Longrightarrow> 0 < fst ttl \<and> fst ttl \<le> 86400"
  by (cases ttl) (auto simp: validate_ttl_def max_resource_lease_ttl_def split: if_splits)

lemma lease_input_ok:
  "lease_input up r ss ttl owner now = Inr (n, l) \<Longrightarrow> now \<le> int t \<Longrightarrow> lease_ok up t l"
  using ttl_bound [of ttl] scopes_okI https_resourceI
  by (fastforce simp: lease_input_def lease_ok_def and_then_def ok_or_def checked_add_u64_def unix_seconds_def
      max_resource_lease_owner_len_def Let_def split: sum.splits if_splits option.splits)

lemma renew_input_ok: "renew_input ttl now = Inr (n, e) \<Longrightarrow> now \<le> int t \<Longrightarrow> e \<le> t + 86400"
  using ttl_bound [of ttl]
  by (fastforce simp: renew_input_def and_then_def ok_or_def checked_add_u64_def unix_seconds_def
      split: sum.splits if_splits option.splits)

lemma list_all_bt:
  "list_all P m \<Longrightarrow> P (k, v) \<Longrightarrow> list_all P (bt_insert k v m)"
  "list_all P m \<Longrightarrow> list_all P (bt_remove k m)" "list_all P m \<Longrightarrow> list_all P (filter Q m)"
  by (auto simp: list_all_iff bt_remove_def dest: subsetD [OF set_bt_insert])

lemma configured_of_ok:
  assumes "configured_of up acc rs = Inr c" and "bt_ok acc"
    and "list_all (\<lambda>(r, ss). https_resource up r \<and> scopes_ok ss) acc"
  shows "bt_ok c \<and> list_all (\<lambda>(r, ss). https_resource up r \<and> scopes_ok ss) c"
  using assms
proof (induction rs arbitrary: acc)
  case (Cons r rs)
  then obtain k ss where "canonical_resource up (fst r) = Inr k" "validated_scopes (snd r) = Inr ss"
    "configured_of up (bt_insert k ss acc) rs = Inr c"
    by (auto simp: and_then_def split: sum.splits)
  with Cons show ?case by (auto intro!: list_all_bt bt_ok_insert dest: scopes_okI https_resourceI)
qed simp

lemma registry_ok_prune: "registry_ok up t reg \<Longrightarrow> registry_ok up t (prune_locked n reg)"
  by (auto simp: registry_ok_def prune_locked_def intro: bt_ok_filter list_all_bt)

lemma registry_ok_put:
  "registry_ok up t reg \<Longrightarrow> lease_ok up t l \<Longrightarrow> registry_ok up t (reg\<lparr>rr_leases := bt_insert i l (rr_leases reg)\<rparr>)"
  by (auto simp: registry_ok_def intro: bt_ok_insert list_all_bt)

lemma registry_ok_remove:
  "registry_ok up t reg \<Longrightarrow> registry_ok up t (reg\<lparr>rr_leases := bt_remove i (rr_leases reg)\<rparr>)"
  by (auto simp: registry_ok_def intro: bt_ok_remove list_all_bt)

lemma renewed_ok:
  assumes "registry_ok up t reg" and "map_of (rr_leases reg) i = Some l" and "e \<le> t + 86400"
  shows "lease_ok up t (l\<lparr>sl_expires_at_unix := e\<rparr>)"
  using assms map_of_SomeD [OF assms(2)] by (auto simp: registry_ok_def lease_ok_def list_all_iff)

lemma collected_ok:
  assumes "registry_ok up t reg"
  shows "list_all valid_scope (collect_scopes r reg)"
  using assms
  by (fastforce simp: registry_ok_def collect_scopes_def bt_set_def list_all_iff lease_ok_def scopes_ok_def
      dest: map_of_SomeD [OF sym] split: option.splits)

lemma registry_step_ok:
  assumes ok: "registry_ok up t reg" and clock: "\<forall>now. op_clock op = Some now \<longrightarrow> now \<le> int t"
    and step: "registry_step up op reg = (r, reg')"
  shows "registry_ok up t reg' \<and> (\<forall>ss. r = RScopes (Some ss) \<longrightarrow> list_all valid_scope ss)"
proof (cases op)
  case (Replace rs)
  with ok step show ?thesis
    by (auto simp: replace_configured_resource_scopes_def registry_ok_def bt_ok_def
        dest!: configured_of_ok split: sum.splits)
next
  case (Create rs ss ttl owner now rnd)
  with ok step clock show ?thesis
    by (auto simp: create_resource_lease_at_def Let_def split: sum.splits option.splits
        intro!: registry_ok_put registry_ok_prune dest: lease_input_ok)
next
  case (Renew i ttl now)
  with ok step clock show ?thesis
    by (auto simp: renew_resource_lease_at_def Let_def split: sum.splits option.splits
        intro!: registry_ok_put registry_ok_prune renewed_ok dest: renew_input_ok)
next
  case (Release i now)
  with ok step show ?thesis
    by (auto simp: release_resource_lease_def Let_def split: sum.splits option.splits
        intro!: registry_ok_remove registry_ok_prune)
next
  case (Prune now)
  with ok step show ?thesis
    by (auto simp: prune_expired_resource_leases_def Let_def intro: registry_ok_prune split: sum.splits)
next
  case (Effective r now)
  with ok step show ?thesis
    by (auto simp: effective_resource_scopes_at_def Let_def intro: registry_ok_prune collected_ok
        split: sum.splits if_splits)
next
  case (CountLeases now)
  with ok step show ?thesis
    by (auto simp: lease_count_def Let_def intro: registry_ok_prune split: sum.splits)
next
  case (Diagnostics now)
  with ok step show ?thesis
    by (auto simp: lease_diagnostics_def Let_def intro: registry_ok_prune split: sum.splits)
qed

lemma run_registry_ok:
  assumes "registry_ok up t reg" and "\<forall>now \<in> set (List.map_filter op_clock ops). now \<le> int t"
  shows "registry_ok up t (snd (run_registry up ops reg))
    \<and> (\<forall>ss. RScopes (Some ss) \<in> set (fst (run_registry up ops reg)) \<longrightarrow> list_all valid_scope ss)"
  using assms
proof (induction ops arbitrary: reg)
  case (Cons op ops)
  obtain r reg' where step: "registry_step up op reg = (r, reg')" by (cases "registry_step up op reg")
  have "\<forall>now. op_clock op = Some now \<longrightarrow> now \<le> int t" using Cons.prems(2) by (auto simp: map_filter_simps)
  note first = registry_step_ok [OF Cons.prems(1) this step]
  have "\<forall>now \<in> set (List.map_filter op_clock ops). now \<le> int t"
    using Cons.prems(2) by (auto simp: map_filter_simps split: option.splits)
  with Cons.IH [of reg'] first step show ?case by (auto simp del: registry_step.simps)
qed simp

text \<open>
  What the registry can hold and hand out. After any run of operations, with clock readings
  in any order up to \<open>t\<close>, every lease is for an https URL without credentials, query and fragment,
  has an owner of 1 to 128 bytes and expires within a day of \<open>t\<close>; its scopes and the configured
  ones are in order, not empty and made of printable characters without space, quote and
  backslash, and so is every scope list the registry has handed out.
\<close>

theorem registry_run_ok:
  assumes "\<forall>now \<in> set (List.map_filter op_clock ops). now \<le> int t"
  shows "registry_ok up t (snd (run_registry up ops new_registry))
    \<and> (\<forall>ss. RScopes (Some ss) \<in> set (fst (run_registry up ops new_registry)) \<longrightarrow> list_all valid_scope ss)"
  by (rule run_registry_ok [OF _ assms]) (simp add: registry_ok_def new_registry_def bt_ok_def)

theorem registry_run_ok_witness:
  "registry_ok demo_url_parse 34 (snd (run_registry demo_url_parse demo_lease_ops new_registry))
   \<and> RScopes (Some [''a'', ''b'']) \<in> set (fst (run_registry demo_url_parse demo_lease_ops new_registry))
   \<and> list_all valid_scope [''a'', ''b'']"
proof -
  have clocks: "\<forall>now \<in> set (List.map_filter op_clock demo_lease_ops). now \<le> int 34" by code_simp
  have "RScopes (Some [''a'', ''b'']) \<in> set (fst (run_registry demo_url_parse demo_lease_ops new_registry))"
    by (simp add: demo_registry_run)
  with registry_run_ok [OF clocks, of demo_url_parse] show ?thesis by blast
qed

end
