(* ===== verification/Workspace_Path.thy ===== *)
theory Workspace_Path
  imports Rust_Path Tool_Error
begin

text \<open>
  Paths of the Code Mode workspace (\<open>labby-codemode/src/state/path.rs\<close>): what a script may name.
\<close>

definition has_windows_drive_prefix :: "string \<Rightarrow> bool" where
  "has_windows_drive_prefix s =
     (case s of a # b # _ \<Rightarrow> is_ascii_alphabetic a \<and> b = CHR '':'' | _ \<Rightarrow> False)"

definition path_traversal :: tool_error where
  "path_traversal = Sdk ''path_traversal''"

definition is_reserved_metadata_path :: "string \<Rightarrow> bool" where
  "is_reserved_metadata_path path =
     list_ex (\<lambda>part. eq_ignore_ascii_case part ''.git'' \<or> eq_ignore_ascii_case part ''.labby-state'')
       (split_char (CHR ''/'') path)"

definition denied_needles :: "string list" where
  "denied_needles =
     [''.env'', ''.ssh/'', ''.aws/'', ''.config/gcloud/'', ''.netrc'', ''id_rsa'', ''id_ed25519'']"

definition reject_credential_like_path :: "string \<Rightarrow> tool_error + unit" where
  "reject_credential_like_path path =
     (let lower = to_ascii_lowercase path
      in if is_reserved_metadata_path lower then Inl (Sdk ''permission_denied'')
         else if list_ex (\<lambda>needle. lower = needle \<or> str_contains lower needle) denied_needles
         then Inl (Sdk ''permission_denied'')
         else Inr ())"

text \<open>The loop of \<open>parse\<close> over the components.\<close>

primrec normal_parts :: "component list \<Rightarrow> tool_error + string list" where
  "normal_parts [] = Inr []"
| "normal_parts (c # cs) =
     (case c of
        Normal value \<Rightarrow>
          and_then (normal_parts cs) (\<lambda>parts. Inr (if value \<noteq> [] then value # parts else parts))
      | CurDir \<Rightarrow> normal_parts cs
      | _ \<Rightarrow> Inl path_traversal)"

definition parse_virtual_path :: "string \<Rightarrow> tool_error + string" where
  "parse_virtual_path raw =
     (let trimmed = trim raw
      in if trimmed = [] \<or> trimmed = ''/'' then Inl (InvalidParam ''path'')
         else let normalized = map (\<lambda>c. if c = CHR 0x5C then CHR ''/'' else c) trimmed
              in if has_windows_drive_prefix normalized then Inl path_traversal
                 else and_then (normal_parts (components (dropWhile (\<lambda>c. c = CHR ''/'') normalized))) (\<lambda>parts.
                      if parts = [] then Inl (InvalidParam ''path'')
                      else let v = join ''/'' parts
                           in and_then (reject_credential_like_path v) (\<lambda>_. Inr v)))"

definition parse_read_scope :: "string \<Rightarrow> tool_error + string" where
  "parse_read_scope raw =
     (let trimmed = trim raw
      in if trimmed = [] \<or> trimmed = ''.'' \<or> trimmed = ''/'' then Inr [] else parse_virtual_path raw)"

text \<open>\<open>self.root.join(path)\<close>, as the components below the root.\<close>

definition path_below :: "string \<Rightarrow> string list" where
  "path_below v = (if v = [] then [] else split_char (CHR ''/'') v)"

definition virtual_ok :: "string \<Rightarrow> bool" where
  "virtual_ok v =
     (path_below v \<noteq> [] \<and> list_all plain_name (path_below v) \<and> \<not> is_reserved_metadata_path v
      \<and> list_all (\<lambda>needle. \<not> str_contains (to_ascii_lowercase v) needle) denied_needles)"

lemma normal_parts_plain:
  "normal_parts cs = Inr parts \<Longrightarrow> set parts \<subseteq> {p. Normal p \<in> set cs} \<and> [] \<notin> set parts"
proof (induction cs arbitrary: parts)
  case (Cons c cs)
  then show ?case by (cases c) (auto simp: and_then_def split: sum.splits if_splits)
qed simp

lemma split_lower: "split_char (CHR ''/'') (to_ascii_lowercase v) = map to_ascii_lowercase (split_char (CHR ''/'') v)"
proof -
  have "ascii_lower c = CHR ''/'' \<longleftrightarrow> c = CHR ''/''" for c
  proof
    assume "ascii_lower c = CHR ''/''"
    then have "byte (ascii_lower c) = 47" by simp
    then have "byte c = byte (CHR ''/'')" by (auto simp: byte_ascii_lower is_ascii_uppercase_def split: if_splits)
    then show "c = CHR ''/''" by (simp only: of_char_eq_iff)
  qed (simp add: ascii_lower_def is_ascii_uppercase_def)
  then show ?thesis
    by (induction v) (auto simp: to_ascii_lowercase_def split: list.splits)
qed

lemma reserved_lower: "is_reserved_metadata_path (to_ascii_lowercase v) = is_reserved_metadata_path v"
  by (simp add: is_reserved_metadata_path_def split_lower list_ex_iff eq_ignore_ascii_case_def)

lemma path_below_join: "parts \<noteq> [] \<Longrightarrow> \<forall>p \<in> set parts. plain_name p \<Longrightarrow> path_below (join ''/'' parts) = parts"
proof -
  assume a: "parts \<noteq> []" "\<forall>p \<in> set parts. plain_name p"
  then have "split_char (CHR ''/'') (join ''/'' parts) = parts"
    by (intro split_char_join) (auto simp: plain_name_def)
  moreover have "join ''/'' parts \<noteq> []"
    using a by (cases parts; cases "tl parts") (auto simp: plain_name_def)
  ultimately show ?thesis by (simp add: path_below_def)
qed

lemma parse_virtual_ok: "parse_virtual_path raw = Inr v \<Longrightarrow> virtual_ok v"
proof -
  assume "parse_virtual_path raw = Inr v"
  then obtain s parts where parts: "normal_parts (components s) = Inr parts" "parts \<noteq> []"
    "v = join ''/'' parts" "reject_credential_like_path v = Inr ()"
    by (auto simp: parse_virtual_path_def and_then_def Let_def split: sum.splits if_splits)
  then have "\<forall>p \<in> set parts. plain_name p"
    using normal_parts_plain components_Normal_plain by blast
  with parts have "path_below v = parts" by (simp add: path_below_join)
  with parts \<open>\<forall>p \<in> set parts. plain_name p\<close> show ?thesis
    by (auto simp: virtual_ok_def reject_credential_like_path_def Let_def reserved_lower list_all_iff list_ex_iff
        split: if_splits)
qed

end
