(* ===== verification/Workspace_Fs.thy ===== *)
theory Workspace_Fs
  imports Labby_Prelude
begin

text \<open>
  The part of the host's file system below the workspace root, and the calls of \<open>std::fs\<close> and
  \<open>tokio::fs\<close> the workspace makes on it. A path is the list of its components below the root. An
  entry is a file with its bytes, a directory or a symbolic link; where a link leads is not
  modelled: a call that would follow one ends in \<open>Outside\<close>. Permissions, full disks and other
  processes are left out, so that a call fails only by the state of the tree.
\<close>

section \<open>Trees\<close>

datatype entry = File string | Dir | Link

type_synonym path = "string list"

text \<open>The order of the list is the order in which the system lists directories; it is arbitrary.\<close>

type_synonym tree = "(path \<times> entry) list"

definition node :: "tree \<Rightarrow> path \<Rightarrow> entry option" where
  "node t p = (if p = [] then Some Dir else map_of t p)"

definition tree_ok :: "tree \<Rightarrow> bool" where
  "tree_ok t =
     (distinct (map fst t) \<and> list_all (\<lambda>(p, _). p \<noteq> [] \<and> node t (butlast p) = Some Dir) t)"

definition put :: "path \<Rightarrow> entry \<Rightarrow> tree \<Rightarrow> tree" where
  "put p e t = (p, e) # filter (\<lambda>(q, _). q \<noteq> p) t"

definition children :: "tree \<Rightarrow> path \<Rightarrow> string list" where
  "children t d = remdups (map last (filter (\<lambda>q. q \<noteq> [] \<and> butlast q = d) (map fst t)))"

section \<open>Calls\<close>

datatype io_error = ENotFound | EOther

datatype 'a os = Outside | OsErr io_error | OsOk 'a

text \<open>Resolution of a path: every component before the last is looked up and must be a directory.\<close>

primrec lstat_from :: "tree \<Rightarrow> path \<Rightarrow> path \<Rightarrow> entry os" where
  "lstat_from t p [] = (case node t p of None \<Rightarrow> OsErr ENotFound | Some e \<Rightarrow> OsOk e)"
| "lstat_from t p (x # xs) =
     (case node t p of
        None \<Rightarrow> OsErr ENotFound
      | Some Dir \<Rightarrow> lstat_from t (p @ [x]) xs
      | Some Link \<Rightarrow> Outside
      | Some (File _) \<Rightarrow> OsErr EOther)"

definition symlink_metadata :: "tree \<Rightarrow> path \<Rightarrow> entry os" where
  "symlink_metadata t p = lstat_from t [] p"

definition metadata :: "tree \<Rightarrow> path \<Rightarrow> entry os" where
  "metadata t p = (case symlink_metadata t p of OsOk Link \<Rightarrow> Outside | r \<Rightarrow> r)"

text \<open>\<open>File::open\<close> and reading to the end; a directory can be opened but not read.\<close>

definition open_file :: "tree \<Rightarrow> path \<Rightarrow> entry os" where
  "open_file t p = metadata t p"

definition read_bytes :: "entry \<Rightarrow> string os" where
  "read_bytes e = (case e of File c \<Rightarrow> OsOk c | _ \<Rightarrow> OsErr EOther)"

primrec create_dirs :: "path \<Rightarrow> path \<Rightarrow> tree \<Rightarrow> tree os" where
  "create_dirs p [] t = OsOk t"
| "create_dirs p (x # xs) t =
     (case node t (p @ [x]) of
        None \<Rightarrow> create_dirs (p @ [x]) xs (put (p @ [x]) Dir t)
      | Some Dir \<Rightarrow> create_dirs (p @ [x]) xs t
      | Some Link \<Rightarrow> Outside
      | Some (File _) \<Rightarrow> OsErr EOther)"

definition create_dir_all :: "path \<Rightarrow> tree \<Rightarrow> tree os" where
  "create_dir_all p t = create_dirs [] p t"

text \<open>Where a new name may be placed: the parent is a directory.\<close>

definition parent_dir :: "tree \<Rightarrow> path \<Rightarrow> unit os" where
  "parent_dir t p =
     (case symlink_metadata t (butlast p) of
        OsOk Dir \<Rightarrow> OsOk () | OsOk Link \<Rightarrow> Outside | OsOk (File _) \<Rightarrow> OsErr EOther
      | Outside \<Rightarrow> Outside | OsErr e \<Rightarrow> OsErr e)"

definition create_new :: "path \<Rightarrow> string \<Rightarrow> tree \<Rightarrow> tree os" where
  "create_new p c t =
     (case parent_dir t p of
        OsOk _ \<Rightarrow> if node t p = None then OsOk (put p (File c) t) else OsErr EOther
      | Outside \<Rightarrow> Outside | OsErr e \<Rightarrow> OsErr e)"

definition write_bytes :: "path \<Rightarrow> string \<Rightarrow> tree \<Rightarrow> tree os" where
  "write_bytes p c t =
     (case parent_dir t p of
        OsOk _ \<Rightarrow>
          (case node t p of
             None \<Rightarrow> OsOk (put p (File c) t)
           | Some (File _) \<Rightarrow> OsOk (put p (File c) t)
           | Some Dir \<Rightarrow> OsErr EOther
           | Some Link \<Rightarrow> Outside)
      | Outside \<Rightarrow> Outside | OsErr e \<Rightarrow> OsErr e)"

definition remove_file :: "path \<Rightarrow> tree \<Rightarrow> tree os" where
  "remove_file p t =
     (case symlink_metadata t p of
        OsOk Dir \<Rightarrow> OsErr EOther
      | OsOk _ \<Rightarrow> OsOk (filter (\<lambda>(q, _). q \<noteq> p) t)
      | Outside \<Rightarrow> Outside | OsErr e \<Rightarrow> OsErr e)"

definition remove_dir :: "path \<Rightarrow> tree \<Rightarrow> tree os" where
  "remove_dir p t =
     (case symlink_metadata t p of
        OsOk Dir \<Rightarrow>
          if p = [] \<or> children t p \<noteq> [] then OsErr EOther else OsOk (filter (\<lambda>(q, _). q \<noteq> p) t)
      | OsOk _ \<Rightarrow> OsErr EOther
      | Outside \<Rightarrow> Outside | OsErr e \<Rightarrow> OsErr e)"

definition remove_dir_all :: "path \<Rightarrow> tree \<Rightarrow> tree os" where
  "remove_dir_all p t =
     (case symlink_metadata t p of
        OsOk (File _) \<Rightarrow> OsErr EOther
      | OsOk _ \<Rightarrow> OsOk (filter (\<lambda>(q, _). \<not> prefix p q) t)
      | Outside \<Rightarrow> Outside | OsErr e \<Rightarrow> OsErr e)"

text \<open>\<open>rename(2)\<close>: a directory goes to a free name or an empty directory, anything else to any non-directory.\<close>

definition relocate :: "path \<Rightarrow> path \<Rightarrow> tree \<Rightarrow> tree" where
  "relocate a b t =
     map (\<lambda>(q, e). (if prefix a q then b @ drop (length a) q else q, e)) (filter (\<lambda>(q, _). q \<noteq> b) t)"

definition rename :: "path \<Rightarrow> path \<Rightarrow> tree \<Rightarrow> tree os" where
  "rename a b t =
     (case (symlink_metadata t a, parent_dir t b) of
        (Outside, _) \<Rightarrow> Outside
      | (OsErr e, _) \<Rightarrow> OsErr e
      | (OsOk _, Outside) \<Rightarrow> Outside
      | (OsOk _, OsErr e) \<Rightarrow> OsErr e
      | (OsOk e, OsOk _) \<Rightarrow>
          if a = b then OsOk t
          else if a = [] \<or> strict_prefix a b then OsErr EOther
          else (case (e, node t b) of
            (_, None) \<Rightarrow> OsOk (relocate a b t)
          | (Dir, Some Dir) \<Rightarrow> if b = [] \<or> children t b \<noteq> [] then OsErr EOther else OsOk (relocate a b t)
          | (Dir, Some _) \<Rightarrow> OsErr EOther
          | (_, Some Dir) \<Rightarrow> OsErr EOther
          | (_, Some _) \<Rightarrow> OsOk (relocate a b t)))"

section \<open>Usage\<close>

primrec entry_bytes :: "entry \<Rightarrow> nat" where
  "entry_bytes (File c) = length c"
| "entry_bytes Dir = 0"
| "entry_bytes Link = 0"

definition tree_bytes :: "tree \<Rightarrow> nat" where
  "tree_bytes t = sum_list (map entry_bytes (map snd t))"

definition tree_entries :: "tree \<Rightarrow> nat" where
  "tree_entries t = length (filter (\<lambda>e. e \<noteq> Link) (map snd t))"

section \<open>Lookup\<close>

lemma node_Nil [simp]: "node t [] = Some Dir"
  by (simp add: node_def)

lemma node_filter: "node (filter (\<lambda>(q, _). P q) t) q = (if q = [] \<or> P q then node t q else None)"
  by (simp add: node_def map_of_filter_key)

lemma node_put: "p \<noteq> [] \<Longrightarrow> node (put p e t) q = (if q = p then Some e else node t q)"
  by (simp add: node_def put_def map_of_filter_key)

lemma tree_ok_distinct: "tree_ok t \<Longrightarrow> distinct (map fst t)"
  by (simp add: tree_ok_def)

lemma node_mem: "tree_ok t \<Longrightarrow> (p, e) \<in> set t \<Longrightarrow> p \<noteq> [] \<and> node t p = Some e"
  by (auto simp: tree_ok_def node_def list_all_iff)

lemma mem_node: "node t p = Some e \<Longrightarrow> p \<noteq> [] \<Longrightarrow> (p, e) \<in> set t"
  by (auto simp: node_def dest: map_of_SomeD)

lemma tree_ok_parent:
  assumes "tree_ok t" and "node t p = Some e" and "p \<noteq> []"
  shows "node t (butlast p) = Some Dir"
  using assms mem_node [OF assms(2,3)] by (auto simp: tree_ok_def list_all_iff)

text \<open>In a tree everything above an entry is a directory.\<close>

lemma tree_ok_above:
  assumes "tree_ok t" and "node t p = Some e" and "strict_prefix q p"
  shows "node t q = Some Dir"
proof -
  have "node t (butlast p) = Some Dir \<and> prefix q (butlast p)"
    using assms tree_ok_parent by (metis butlast_snoc prefix_order.less_irrefl prefix_snoc rev_exhaust
        strict_prefix_def strict_prefix_simps(1))
  then show ?thesis
    using assms(1)
  proof (induction "length p" arbitrary: p rule: less_induct)
    case less
    show ?case
    proof (cases "q = butlast p")
      case False
      then have ne: "butlast p \<noteq> []" using less.prems by auto
      then have "length (butlast p) < length p" by (cases p) auto
      moreover have "node t (butlast (butlast p)) = Some Dir" using tree_ok_parent less.prems ne by blast
      moreover have "prefix q (butlast (butlast p))"
        using False less.prems ne by (metis append_butlast_last_id prefix_snoc)
      ultimately show ?thesis using less.hyps less.prems(2) by blast
    qed (use less.prems in simp)
  qed
qed

lemma tree_ok_below:
  assumes "tree_ok t" and "node t p \<noteq> Some Dir" and "strict_prefix p q"
  shows "node t q = None"
  using assms tree_ok_above by (cases "node t q") auto

section \<open>Resolution\<close>

text \<open>No link on the way to a path, the path itself included or not.\<close>

definition clear_to :: "tree \<Rightarrow> path \<Rightarrow> bool" where
  "clear_to t p = (\<forall>q. strict_prefix q p \<longrightarrow> node t q \<noteq> Some Link)"

definition clear :: "tree \<Rightarrow> path \<Rightarrow> bool" where
  "clear t p = (\<forall>q. prefix q p \<longrightarrow> node t q \<noteq> Some Link)"

lemma clear_iff: "clear t p \<longleftrightarrow> clear_to t p \<and> node t p \<noteq> Some Link"
  by (auto simp: clear_def clear_to_def strict_prefix_def)

lemma strict_prefix_snoc: "strict_prefix q (p @ [x]) \<longleftrightarrow> prefix q p"
  by (metis append_self_conv not_Cons_self2 prefix_def prefix_order.less_le prefix_snoc same_prefix_nil)

lemma clear_to_snoc: "clear_to t (p @ [x]) = clear t p"
  by (simp add: clear_def clear_to_def strict_prefix_snoc)

lemma clear_to_butlast: "p \<noteq> [] \<Longrightarrow> clear_to t p = clear t (butlast p)"
  by (metis append_butlast_last_id clear_to_snoc)

lemma clear_Nil [simp]: "clear t []"
  by (auto simp: clear_def)

lemma clear_prefix: "clear t p \<Longrightarrow> prefix q p \<Longrightarrow> clear t q"
  by (auto simp: clear_def)

lemma lstat_from_found:
  "lstat_from t p xs = OsOk e \<Longrightarrow> node t (p @ xs) = Some e"
  by (induction xs arbitrary: p) (fastforce split: option.splits entry.splits)+

lemma symlink_metadata_node: "symlink_metadata t p = OsOk e \<Longrightarrow> node t p = Some e"
  using lstat_from_found [of t "[]" p e] by (simp add: symlink_metadata_def)

lemma lstat_from_clear:
  "(\<forall>q. strict_prefix q xs \<longrightarrow> node t (p @ q) \<noteq> Some Link) \<Longrightarrow> lstat_from t p xs \<noteq> Outside"
proof (induction xs arbitrary: p)
  case (Cons x xs)
  have "node t p \<noteq> Some Link" using Cons.prems by (metis append_Nil2 strict_prefix_simps(2))
  moreover have "\<forall>q. strict_prefix q xs \<longrightarrow> node t ((p @ [x]) @ q) \<noteq> Some Link"
    using Cons.prems by (auto dest: spec [of _ "x # _"])
  ultimately show ?case using Cons.IH by (auto split: option.splits entry.splits)
qed (auto split: option.splits)

lemma symlink_metadata_clear: "clear_to t p \<Longrightarrow> symlink_metadata t p \<noteq> Outside"
  using lstat_from_clear [of p t "[]"] by (simp add: symlink_metadata_def clear_to_def)

lemma lstat_from_complete:
  "(\<forall>q. strict_prefix q xs \<longrightarrow> node t (p @ q) = Some Dir) \<Longrightarrow> node t (p @ xs) = Some e \<Longrightarrow> lstat_from t p xs = OsOk e"
proof (induction xs arbitrary: p)
  case (Cons x xs)
  have "node t p = Some Dir" using Cons.prems by (metis append_Nil2 strict_prefix_simps(2))
  moreover have "\<forall>q. strict_prefix q xs \<longrightarrow> node t ((p @ [x]) @ q) = Some Dir"
    using Cons.prems(1) by (auto dest: spec [of _ "x # _"])
  ultimately show ?case using Cons.IH [of "p @ [x]"] Cons.prems by simp
qed simp

lemma symlink_metadata_complete: "tree_ok t \<Longrightarrow> node t p = Some e \<Longrightarrow> symlink_metadata t p = OsOk e"
  using lstat_from_complete [of p t "[]" e] tree_ok_above [of t p e] by (simp add: symlink_metadata_def)

lemma symlink_metadata_cases:
  assumes "tree_ok t" and "clear_to t p"
  obtains e where "node t p = Some e" and "symlink_metadata t p = OsOk e"
  | err where "node t p = None" and "symlink_metadata t p = OsErr err"
proof (cases "node t p")
  case None
  then have "\<And>e. symlink_metadata t p \<noteq> OsOk e" using symlink_metadata_node by fastforce
  with None symlink_metadata_clear [OF assms(2)] that(2) show ?thesis by (cases "symlink_metadata t p") auto
next
  case (Some e)
  with that(1) symlink_metadata_complete [OF assms(1)] show ?thesis by blast
qed

lemma metadata_cases:
  assumes "tree_ok t" and "clear t p"
  obtains e where "node t p = Some e" and "metadata t p = OsOk e" and "e \<noteq> Link"
  | err where "node t p = None" and "metadata t p = OsErr err"
proof -
  have c: "clear_to t p" "node t p \<noteq> Some Link" using assms(2) by (simp_all add: clear_iff)
  show ?thesis
  proof (cases rule: symlink_metadata_cases [OF assms(1) c(1)])
    case (1 e)
    with c(2) that(1) [of e] show ?thesis by (cases e) (auto simp: metadata_def)
  next
    case (2 err)
    with that(2) show ?thesis by (simp add: metadata_def)
  qed
qed

section \<open>Changes\<close>

lemma tree_okI:
  assumes "distinct (map fst t)" and "\<And>p e. (p, e) \<in> set t \<Longrightarrow> p \<noteq> [] \<and> node t (butlast p) = Some Dir"
  shows "tree_ok t"
  using assms by (auto simp: tree_ok_def list_all_iff)

lemma tree_ok_put:
  assumes ok: "tree_ok t" and p: "p \<noteq> []" "node t (butlast p) = Some Dir" and new: "node t p \<noteq> Some Dir"
  shows "tree_ok (put p e t)"
proof (rule tree_okI)
  show "distinct (map fst (put p e t))"
    using tree_ok_distinct [OF ok] by (auto simp: put_def distinct_map_filter)
  fix q e' assume q: "(q, e') \<in> set (put p e t)"
  have up: "butlast p \<noteq> p" using p(1) by (cases p rule: rev_cases) auto
  from q consider "q = p" | "(q, e') \<in> set t" "q \<noteq> p" by (auto simp: put_def)
  then show "q \<noteq> [] \<and> node (put p e t) (butlast q) = Some Dir"
  proof cases
    case 1
    with p up show ?thesis by (simp add: node_put)
  next
    case 2
    with node_mem [OF ok 2(1)] tree_ok_parent [OF ok] new p(1) show ?thesis by (auto simp: node_put)
  qed
qed

lemma tree_ok_filter:
  assumes ok: "tree_ok t" and closed: "\<And>p. p \<noteq> [] \<Longrightarrow> P p \<Longrightarrow> node t p \<noteq> None \<Longrightarrow> butlast p = [] \<or> P (butlast p)"
  shows "tree_ok (filter (\<lambda>(q, _). P q) t)"
proof (rule tree_okI)
  show "distinct (map fst (filter (\<lambda>(q, _). P q) t))"
    using tree_ok_distinct [OF ok] by (auto simp: distinct_map_filter)
  fix q e assume "(q, e) \<in> set (filter (\<lambda>(q, _). P q) t)"
  then have q: "(q, e) \<in> set t" "P q" by auto
  from node_mem [OF ok q(1)] q(2) closed [of q] tree_ok_parent [OF ok, of q e]
  show "q \<noteq> [] \<and> node (filter (\<lambda>(q, _). P q) t) (butlast q) = Some Dir"
    by (auto simp: node_filter)
qed

lemma tree_ok_remove_leaf:
  assumes "tree_ok t" and "\<And>q. q \<noteq> [] \<Longrightarrow> butlast q = p \<Longrightarrow> node t q = None"
  shows "tree_ok (filter (\<lambda>(q, _). q \<noteq> p) t)"
  by (rule tree_ok_filter [OF assms(1)]) (use assms(2) in auto)

lemma tree_ok_remove_below: "tree_ok t \<Longrightarrow> tree_ok (filter (\<lambda>(q, _). \<not> prefix p q) t)"
  by (rule tree_ok_filter) (auto simp: prefix_order.trans [OF _ prefixeq_butlast])

lemma children_none:
  assumes "children t p = []" and "q \<noteq> []" and "butlast q = p"
  shows "node t q = None"
  using assms by (auto simp: children_def filter_empty_conv node_def map_of_eq_None_iff)

subsection \<open>Sizes\<close>

lemma sizes_Cons [simp]:
  "tree_bytes ((p, e) # t) = entry_bytes e + tree_bytes t"
  "tree_entries ((p, e) # t) = (if e = Link then 0 else 1) + tree_entries t"
  "tree_bytes [] = 0" "tree_entries [] = 0"
  by (simp_all add: tree_bytes_def tree_entries_def)

lemma sizes_filter:
  "tree_bytes (filter P t) \<le> tree_bytes t" "tree_entries (filter P t) \<le> tree_entries t"
  by (induction t) (auto split: prod.splits)

text \<open>What one entry contributes.\<close>

definition node_bytes :: "tree \<Rightarrow> path \<Rightarrow> nat" where
  "node_bytes t p = (case node t p of None \<Rightarrow> 0 | Some e \<Rightarrow> entry_bytes e)"

definition node_count :: "tree \<Rightarrow> path \<Rightarrow> nat" where
  "node_count t p = (case node t p of None \<Rightarrow> 0 | Some e \<Rightarrow> if e = Link then 0 else 1)"

lemma filter_other_key: "p \<notin> fst ` set t \<Longrightarrow> filter (\<lambda>(q, _). q \<noteq> p) t = t"
  by (induction t) auto

lemma sizes_without:
  assumes "distinct (map fst t)" and "p \<noteq> []"
  shows "tree_bytes (filter (\<lambda>(q, _). q \<noteq> p) t) + node_bytes t p = tree_bytes t"
    and "tree_entries (filter (\<lambda>(q, _). q \<noteq> p) t) + node_count t p = tree_entries t"
  using assms
  by (induction t) (auto simp: node_bytes_def node_count_def node_def filter_other_key split: if_splits)

lemma sizes_put:
  assumes "tree_ok t" and "p \<noteq> []"
  shows "tree_bytes (put p e t) + node_bytes t p = tree_bytes t + entry_bytes e"
    and "tree_entries (put p e t) + node_count t p = tree_entries t + (if e = Link then 0 else 1)"
  using sizes_without [OF tree_ok_distinct [OF assms(1)] assms(2)] by (auto simp: put_def)

lemma sizes_relocate:
  assumes "tree_ok t" and "b \<noteq> []"
  shows "tree_bytes (relocate a b t) + node_bytes t b = tree_bytes t"
    and "tree_entries (relocate a b t) + node_count t b = tree_entries t"
proof -
  have "map snd (relocate a b t) = map snd (filter (\<lambda>(q, _). q \<noteq> b) t)"
    by (auto simp: relocate_def)
  then have "tree_bytes (relocate a b t) = tree_bytes (filter (\<lambda>(q, _). q \<noteq> b) t)"
    "tree_entries (relocate a b t) = tree_entries (filter (\<lambda>(q, _). q \<noteq> b) t)"
    by (simp_all only: tree_bytes_def tree_entries_def)
  with sizes_without [OF tree_ok_distinct [OF assms(1)] assms(2)]
  show "tree_bytes (relocate a b t) + node_bytes t b = tree_bytes t"
    "tree_entries (relocate a b t) + node_count t b = tree_entries t" by simp_all
qed

subsection \<open>Moving\<close>

text \<open>What \<open>rename\<close> has checked before it moves anything.\<close>

definition movable :: "tree \<Rightarrow> path \<Rightarrow> path \<Rightarrow> bool" where
  "movable t a b =
     (tree_ok t \<and> a \<noteq> [] \<and> b \<noteq> [] \<and> node t a \<noteq> None \<and> \<not> prefix a b \<and> node t (butlast b) = Some Dir
      \<and> (\<forall>q. strict_prefix b q \<longrightarrow> node t q = None))"

definition moved :: "path \<Rightarrow> path \<Rightarrow> path \<Rightarrow> path" where
  "moved a b q = (if prefix a q then b @ drop (length a) q else q)"

lemma relocate_eq: "relocate a b t = map (\<lambda>(q, e). (moved a b q, e)) (filter (\<lambda>(q, _). q \<noteq> b) t)"
  by (simp add: relocate_def moved_def)

lemma movable_keys:
  assumes "movable t a b" and "(q, e) \<in> set t" and "q \<noteq> b"
  shows "\<not> prefix b q"
  using assms node_mem [of t q e] by (auto simp: movable_def strict_prefix_def)

lemma moved_inj:
  assumes mv: "movable t a b" and keys: "(q, e) \<in> set t" "q \<noteq> b" "(q', e') \<in> set t" "q' \<noteq> b"
    and eq: "moved a b q = moved a b q'"
  shows "q = q'"
proof (cases "prefix a q"; cases "prefix a q'")
  assume "prefix a q" "prefix a q'"
  with eq show ?thesis by (auto simp: moved_def elim!: prefixE)
next
  assume "prefix a q" "\<not> prefix a q'"
  with eq movable_keys [OF mv keys(3,4)] show ?thesis by (auto simp: moved_def)
next
  assume "\<not> prefix a q" "prefix a q'"
  with eq movable_keys [OF mv keys(1,2)] show ?thesis by (auto simp: moved_def)
next
  assume "\<not> prefix a q" "\<not> prefix a q'"
  with eq show ?thesis by (simp add: moved_def)
qed

lemma relocate_distinct:
  assumes mv: "movable t a b"
  shows "distinct (map fst (relocate a b t))"
proof -
  have d: "distinct (map fst (filter (\<lambda>(q, _). q \<noteq> b) t))"
    using mv by (simp add: movable_def tree_ok_distinct distinct_map_filter)
  have "inj_on (moved a b) (set (map fst (filter (\<lambda>(q, _). q \<noteq> b) t)))"
    by (rule inj_onI) (auto dest: moved_inj [OF mv])
  with d have "distinct (map (moved a b) (map fst (filter (\<lambda>(q, _). q \<noteq> b) t)))"
    by (simp only: distinct_map)
  moreover have "map fst (relocate a b t) = map (moved a b) (map fst (filter (\<lambda>(q, _). q \<noteq> b) t))"
    by (auto simp: relocate_eq)
  ultimately show ?thesis by simp
qed

lemma relocate_mem:
  "(q, e) \<in> set (relocate a b t) \<longleftrightarrow> (\<exists>q'. (q', e) \<in> set t \<and> q' \<noteq> b \<and> q = moved a b q')"
  by (auto simp: relocate_eq image_iff)

lemma option_eqI: "(\<And>e. x = Some e \<longleftrightarrow> y = Some e) \<Longrightarrow> x = y"
  by (cases x; cases y) auto

lemma node_relocate:
  assumes mv: "movable t a b" and q: "q \<noteq> []"
  shows "node (relocate a b t) q
    = (if prefix b q then node t (a @ drop (length b) q) else if prefix a q then None else node t q)"
proof -
  have node: "node (relocate a b t) q = Some e \<longleftrightarrow> (\<exists>q'. (q', e) \<in> set t \<and> q' \<noteq> b \<and> q = moved a b q')" for e
    using q relocate_mem [of q e a b t] map_of_eq_Some_iff [OF relocate_distinct [OF mv], of q e]
    by (simp add: node_def)
  have ok: "tree_ok t" using mv by (simp add: movable_def)
  have old: "(q', e) \<in> set t \<longleftrightarrow> q' \<noteq> [] \<and> node t q' = Some e" for q' e
    using node_mem [OF ok] mem_node [of t q' e] by blast
  have ab: "a \<noteq> []" "b \<noteq> []" "\<not> prefix a b" using mv by (auto simp: movable_def)
  have "node (relocate a b t) q = Some e \<longleftrightarrow>
    (if prefix b q then node t (a @ drop (length b) q) else if prefix a q then None else node t q) = Some e" for e
  proof (cases "prefix b q")
    case True
    then obtain r where r: "q = b @ r" by (auto elim: prefixE)
    have "(\<exists>q'. (q', e) \<in> set t \<and> q' \<noteq> b \<and> q = moved a b q') \<longleftrightarrow> node t (a @ r) = Some e"
    proof
      assume "\<exists>q'. (q', e) \<in> set t \<and> q' \<noteq> b \<and> q = moved a b q'"
      then obtain q' where q': "(q', e) \<in> set t" "q' \<noteq> b" "b @ r = moved a b q'" using r by auto
      have "prefix a q'" using movable_keys [OF mv q'(1,2)] q'(3) by (auto simp: moved_def split: if_splits)
      then have "q' = a @ r" using q'(3) by (auto simp: moved_def elim!: prefixE)
      with q'(1) show "node t (a @ r) = Some e" by (simp add: old)
    next
      assume "node t (a @ r) = Some e"
      moreover have "a @ r \<noteq> b" using ab by auto
      moreover have "moved a b (a @ r) = b @ r" by (simp add: moved_def)
      ultimately show "\<exists>q'. (q', e) \<in> set t \<and> q' \<noteq> b \<and> q = moved a b q'" using ab r old by auto
    qed
    with True r node show ?thesis by simp
  next
    case False
    then have "q = moved a b q' \<longleftrightarrow> q = q' \<and> \<not> prefix a q" for q'
      by (metis moved_def prefixI)
    moreover have "q \<noteq> b" using False by auto
    ultimately have "(\<exists>q'. (q', e) \<in> set t \<and> q' \<noteq> b \<and> q = moved a b q') \<longleftrightarrow> \<not> prefix a q \<and> node t q = Some e"
      using old q by auto
    with False node show ?thesis by simp
  qed
  then show ?thesis by (intro option_eqI) blast
qed

lemma tree_ok_relocate:
  assumes mv: "movable t a b"
  shows "tree_ok (relocate a b t)"
proof (rule tree_okI [OF relocate_distinct [OF mv]])
  fix q e assume "(q, e) \<in> set (relocate a b t)"
  then obtain q' where q': "(q', e) \<in> set t" "q' \<noteq> b" "q = moved a b q'" by (auto simp: relocate_mem)
  have ok: "tree_ok t" and ab: "a \<noteq> []" "b \<noteq> []" "\<not> prefix a b" "node t (butlast b) = Some Dir"
    using mv by (auto simp: movable_def)
  have up: "q' \<noteq> []" "node t (butlast q') = Some Dir"
    using node_mem [OF ok q'(1)] tree_ok_parent [OF ok] by auto
  show "q \<noteq> [] \<and> node (relocate a b t) (butlast q) = Some Dir"
  proof (cases "prefix a q'")
    case True
    then obtain r where r: "q' = a @ r" "q = b @ r" using q'(3) by (auto simp: moved_def elim: prefixE)
    show ?thesis
    proof (cases "r = []")
      case True
      have "\<not> prefix a (butlast b)" using ab(3) by (metis append_butlast_last_id ab(2) prefix_snoc)
      moreover have "\<not> prefix b (butlast b)"
        using ab(2) by (metis length_butlast diff_less length_greater_0_conv less_one not_less prefix_length_le)
      ultimately show ?thesis using True r ab node_relocate [OF mv, of "butlast b"] by (cases "butlast b = []") auto
    next
      case False
      then show ?thesis using r up ab node_relocate [OF mv, of "butlast q"] by (simp add: butlast_append)
    qed
  next
    case False
    then have q: "q = q'" using q'(3) by (simp add: moved_def)
    have "\<not> prefix b (butlast q')"
      using movable_keys [OF mv q'(1,2)] by (metis prefix_order.trans prefixeq_butlast)
    moreover have "\<not> prefix a (butlast q')" using False by (metis prefix_order.trans prefixeq_butlast)
    ultimately show ?thesis using q up node_relocate [OF mv, of "butlast q'"] by (cases "butlast q' = []") auto
  qed
qed

subsection \<open>What the calls do\<close>

text \<open>Outside the set \<open>S\<close> nothing happens but that new directories appear.\<close>

definition frame :: "path set \<Rightarrow> tree \<Rightarrow> tree \<Rightarrow> bool" where
  "frame S t t' =
     (\<forall>q. q \<notin> S \<longrightarrow> node t' q = node t q \<or> (node t q = None \<and> node t' q = Some Dir))"

lemma frame_refl [simp]: "frame S t t"
  by (simp add: frame_def)

lemma frame_trans: "frame S t t' \<Longrightarrow> frame S' t' t'' \<Longrightarrow> frame (S \<union> S') t t''"
  by (fastforce simp: frame_def)

lemma frame_mono: "frame S t t' \<Longrightarrow> S \<subseteq> S' \<Longrightarrow> frame S' t t'"
  by (auto simp: frame_def)

primrec missing_from :: "tree \<Rightarrow> path \<Rightarrow> path \<Rightarrow> nat" where
  "missing_from t p [] = 0"
| "missing_from t p (x # xs) = (if node t (p @ [x]) = None then 1 else 0) + missing_from t (p @ [x]) xs"

lemma missing_from_snoc:
  "missing_from t p (xs @ [x]) = missing_from t p xs + (if node t (p @ xs @ [x]) = None then 1 else 0)"
  by (induction xs arbitrary: p) auto

lemma missing_from_cong:
  "(\<And>q. strict_prefix p q \<Longrightarrow> node t q = node t' q) \<Longrightarrow> missing_from t p xs = missing_from t' p xs"
proof (induction xs arbitrary: p)
  case (Cons x xs)
  have "missing_from t (p @ [x]) xs = missing_from t' (p @ [x]) xs"
    by (rule Cons.IH) (metis Cons.prems prefix_order.less_trans strict_prefix_snoc prefix_order.order_refl)
  with Cons.prems [of "p @ [x]"] show ?case by (simp add: strict_prefix_snoc)
qed simp

lemma missing_all:
  assumes "tree_ok t" and "node t p = None"
  shows "missing_from t p xs = length xs"
  using assms(2)
proof (induction xs arbitrary: p)
  case (Cons x xs)
  have "node t (p @ [x]) = None"
    using tree_ok_below [OF assms(1), of p "p @ [x]"] Cons.prems by (simp add: strict_prefix_snoc)
  with Cons.IH show ?case by simp
qed simp

lemma create_dirs_inside:
  "(\<forall>q. prefix q xs \<longrightarrow> node t (p @ q) \<noteq> Some Link) \<Longrightarrow> create_dirs p xs t \<noteq> Outside"
proof (induction xs arbitrary: p t)
  case (Cons x xs)
  have x: "node t (p @ [x]) \<noteq> Some Link" using Cons.prems by (metis Cons_prefix_Cons prefix_bot.bot_least)
  have below: "node t ((p @ [x]) @ q) \<noteq> Some Link" if "prefix q xs" for q
    using Cons.prems that by (metis Cons_prefix_Cons append.assoc append_Cons append_Nil)
  then have "node (put (p @ [x]) Dir t) ((p @ [x]) @ q) \<noteq> Some Link" if "prefix q xs" for q
    using that by (simp add: node_put)
  with x below Cons.IH show ?case by (auto split: option.split entry.split)
qed simp

lemma create_dirs_ok:
  assumes "tree_ok t" and "node t p = Some Dir" and "create_dirs p xs t = OsOk t'"
  shows "tree_ok t' \<and> node t' (p @ xs) = Some Dir \<and> tree_bytes t' = tree_bytes t
    \<and> tree_entries t' = tree_entries t + missing_from t p xs
    \<and> (\<forall>q. node t' q = node t q \<or> (node t q = None \<and> node t' q = Some Dir \<and> prefix q (p @ xs)))"
  using assms
proof (induction xs arbitrary: p t)
  case (Cons x xs)
  let ?q = "p @ [x]"
  show ?case
  proof (cases "node t ?q")
    case None
    let ?t = "put ?q Dir t"
    have ok: "tree_ok ?t" using Cons.prems None by (intro tree_ok_put) auto
    have sizes: "tree_bytes ?t = tree_bytes t" "tree_entries ?t = tree_entries t + 1"
      using sizes_put [OF Cons.prems(1), of ?q Dir] None by (simp_all add: node_bytes_def node_count_def)
    have step: "create_dirs ?q xs ?t = OsOk t'" using Cons.prems(3) None by simp
    have missing: "missing_from ?t ?q xs = missing_from t ?q xs"
      by (rule missing_from_cong) (auto simp: node_put)
    have "node ?t ?q = Some Dir" by (simp add: node_put)
    note IH = Cons.IH [OF ok this step]
    have "node t' q = node t q \<or> (node t q = None \<and> node t' q = Some Dir \<and> prefix q (p @ x # xs))" for q
    proof (cases "q = ?q")
      case True
      then have "node t' q = Some Dir" using IH by (metis node_put append_is_Nil_conv not_Cons_self2)
      with True None show ?thesis by simp
    next
      case False
      then have "node ?t q = node t q" by (simp add: node_put)
      with IH show ?thesis by (metis append.assoc append_Cons append_Nil)
    qed
    with IH sizes missing None show ?thesis by simp
  next
    case (Some e)
    then have "e = Dir" using Cons.prems(3) by (cases e) auto
    with Some Cons.IH [OF Cons.prems(1), of ?q] Cons.prems(3) show ?thesis by simp
  qed
qed simp

lemma parent_dir_cases:
  assumes "tree_ok t" and "clear_to t p" and "p \<noteq> []"
  obtains "parent_dir t p = OsOk ()" and "node t (butlast p) = Some Dir"
  | err where "parent_dir t p = OsErr err" and "node t (butlast p) \<noteq> Some Dir"
proof -
  have c: "clear t (butlast p)" using assms clear_to_butlast by blast
  then have c': "clear_to t (butlast p)" "node t (butlast p) \<noteq> Some Link" by (simp_all add: clear_iff)
  show ?thesis
  proof (cases rule: symlink_metadata_cases [OF assms(1) c'(1)])
    case (1 e)
    with that c'(2) show ?thesis by (cases e) (auto simp: parent_dir_def)
  next
    case (2 err)
    with that show ?thesis by (auto simp: parent_dir_def)
  qed
qed

lemma rename_cases:
  assumes ok: "tree_ok t" and c: "clear_to t a" "clear_to t b" and ne: "a \<noteq> []" "b \<noteq> []"
  obtains err where "rename a b t = OsErr err"
  | "rename a b t = OsOk t" and "a = b"
  | "rename a b t = OsOk (relocate a b t)" and "movable t a b"
      and "\<And>c. node t a = Some (File c) \<Longrightarrow> node t b \<noteq> Some Dir"
proof (cases rule: symlink_metadata_cases [OF ok c(1)])
  case (2 err)
  with that(1) show ?thesis by (simp add: rename_def)
next
  case (1 e)
  show ?thesis
  proof (cases rule: parent_dir_cases [OF ok c(2) ne(2)])
    case (2 err)
    with 1 that(1) show ?thesis by (simp add: rename_def)
  next
    case par: 1
    have free: "movable t a b" if "a \<noteq> b" "\<not> strict_prefix a b"
      and "node t b \<noteq> Some Dir \<or> children t b = []"
    proof -
      have "node t q = None" if "strict_prefix b q" for q
        using \<open>node t b \<noteq> Some Dir \<or> children t b = []\<close>
      proof
        assume "node t b \<noteq> Some Dir"
        then show ?thesis using tree_ok_below [OF ok] that by blast
      next
        assume leaf: "children t b = []"
        from that obtain x r where q: "q = b @ x # r" by (auto elim: strict_prefixE')
        have "node t (b @ [x]) = None" using children_none [OF leaf] by simp
        with ok q show ?thesis
          by (cases "r = []") (auto intro: tree_ok_below [of t "b @ [x]"] simp: strict_prefix_def)
      qed
      with ok ne par 1 that show ?thesis by (auto simp: movable_def strict_prefix_def)
    qed
    consider "a = b" | "a \<noteq> b" "strict_prefix a b" | "a \<noteq> b" "\<not> strict_prefix a b" by blast
    then show ?thesis
    proof cases
      case 1
      have "rename a b t = OsOk t" using 1 par \<open>symlink_metadata t a = OsOk e\<close> by (simp add: rename_def)
      with 1 that(2) show ?thesis by blast
    next
      case 2
      have "rename a b t = OsErr EOther" using 2 par \<open>symlink_metadata t a = OsOk e\<close> by (simp add: rename_def)
      with that(1) show ?thesis by blast
    next
      case 3
      have "rename a b t = OsErr EOther \<or> (rename a b t = OsOk (relocate a b t)
          \<and> (node t b \<noteq> Some Dir \<or> children t b = []) \<and> (\<forall>c. e = File c \<longrightarrow> node t b \<noteq> Some Dir))"
        using 3 par ne \<open>symlink_metadata t a = OsOk e\<close>
        by (simp add: rename_def split: option.split entry.split)
      with 3 free that(1,3) \<open>node t a = Some e\<close> show ?thesis by (metis option.inject)
    qed
  qed
qed

end
