(* ===== verification/Workspace.thy ===== *)
theory Workspace
  imports Workspace_Path Workspace_Fs "HOL-Library.Char_ord" "HOL-Library.List_Lexorder"
begin

text \<open>
  The Code Mode workspace (\<open>labby-codemode/src/state/workspace.rs\<close>, \<open>quota.rs\<close>, and the symlink guard
  of \<open>labby-runtime/src/path_safety.rs\<close>): the files a script may keep, under a quota.
\<close>

section \<open>Operations on the tree\<close>

text \<open>An operation ends with its result and the new tree, unless it follows a link out of the tree.\<close>

datatype 'a outcome = Escaped | Done "tool_error + 'a" tree

type_synonym 'a ws = "tree \<Rightarrow> 'a outcome"

definition pass :: "'a \<Rightarrow> 'a ws" where
  "pass a = (\<lambda>t. Done (Inr a) t)"

definition throw :: "tool_error \<Rightarrow> 'a ws" where
  "throw e = (\<lambda>t. Done (Inl e) t)"

definition lift_result :: "tool_error + 'a \<Rightarrow> 'a ws" where
  "lift_result r = (\<lambda>t. Done r t)"

text \<open>Sequencing with the question mark, and the handling of a result as a value.\<close>

definition bindw :: "'a ws \<Rightarrow> ('a \<Rightarrow> 'b ws) \<Rightarrow> 'b ws" where
  "bindw m f = (\<lambda>t. case m t of
     Escaped \<Rightarrow> Escaped | Done (Inl e) t' \<Rightarrow> Done (Inl e) t' | Done (Inr a) t' \<Rightarrow> f a t')"

definition catchw :: "'a ws \<Rightarrow> (tool_error + 'a \<Rightarrow> 'b ws) \<Rightarrow> 'b ws" where
  "catchw m f = (\<lambda>t. case m t of Escaped \<Rightarrow> Escaped | Done r t' \<Rightarrow> f r t')"

definition internal_io :: "io_error \<Rightarrow> tool_error" where
  "internal_io e = Sdk ''internal_error''"

definition not_found_or_internal :: "io_error \<Rightarrow> tool_error" where
  "not_found_or_internal e = (if e = ENotFound then Sdk ''not_found'' else Sdk ''internal_error'')"

text \<open>A call that looks, and one that changes the tree, with the translation of its error.\<close>

definition look :: "(io_error \<Rightarrow> tool_error) \<Rightarrow> (tree \<Rightarrow> 'a os) \<Rightarrow> 'a ws" where
  "look err f = (\<lambda>t. case f t of Outside \<Rightarrow> Escaped | OsErr e \<Rightarrow> Done (Inl (err e)) t | OsOk a \<Rightarrow> Done (Inr a) t)"

definition change :: "(io_error \<Rightarrow> tool_error) \<Rightarrow> (tree \<Rightarrow> tree os) \<Rightarrow> unit ws" where
  "change err f = (\<lambda>t. case f t of Outside \<Rightarrow> Escaped | OsErr e \<Rightarrow> Done (Inl (err e)) t | OsOk t' \<Rightarrow> Done (Inr ()) t')"

section \<open>Guards\<close>

record limits =
  max_file_bytes :: nat
  max_total_bytes :: nat
  max_entries :: nat
  max_result_bytes :: nat

definition default_limits :: limits where
  "default_limits = \<lparr>max_file_bytes = 1024 * 1024, max_total_bytes = 64 * 1024 * 1024,
     max_entries = 10000, max_result_bytes = 1024 * 1024\<rparr>"

definition reject_existing_symlink :: "path \<Rightarrow> unit ws" where
  "reject_existing_symlink p =
     (\<lambda>t. case symlink_metadata t p of
        OsOk Link \<Rightarrow> Done (Inl (Sdk ''symlink_rejected'')) t
      | OsOk _ \<Rightarrow> Done (Inr ()) t
      | OsErr ENotFound \<Rightarrow> Done (Inr ()) t
      | OsErr EOther \<Rightarrow> Done (Inl (Sdk ''internal_error'')) t
      | Outside \<Rightarrow> Escaped)"

text \<open>The loop over the components below the root; the root itself is a directory.\<close>

primrec reject_symlinks_below :: "path \<Rightarrow> path \<Rightarrow> unit ws" where
  "reject_symlinks_below p [] = pass ()"
| "reject_symlinks_below p (x # xs) =
     bindw (reject_existing_symlink (p @ [x])) (\<lambda>_. reject_symlinks_below (p @ [x]) xs)"

definition reject_existing_symlink_ancestors :: "path \<Rightarrow> unit ws" where
  "reject_existing_symlink_ancestors p =
     bindw (reject_existing_symlink []) (\<lambda>_. reject_symlinks_below [] p)"

definition reject_existing_symlink_path :: "path \<Rightarrow> unit ws" where
  "reject_existing_symlink_path p =
     (\<lambda>t. case symlink_metadata t p of
        OsOk Link \<Rightarrow> Done (Inl (Sdk ''permission_denied'')) t
      | OsOk _ \<Rightarrow> Done (Inr ()) t
      | OsErr ENotFound \<Rightarrow> Done (Inr ()) t
      | OsErr EOther \<Rightarrow> Done (Inl (Sdk ''internal_error'')) t
      | Outside \<Rightarrow> Escaped)"

definition guard_path :: "path \<Rightarrow> unit ws" where
  "guard_path p = bindw (reject_existing_symlink_ancestors p) (\<lambda>_. reject_existing_symlink_path p)"

section \<open>Quota\<close>

definition u64_max :: nat where
  "u64_max = 2 ^ 64 - 1"

definition saturating_add :: "nat \<Rightarrow> nat \<Rightarrow> nat" where
  "saturating_add a b = min (a + b) u64_max"

text \<open>
  \<open>workspace_usage\<close> walks the whole tree and adds with saturation, which gives the sum cut off at the
  largest \<open>u64\<close>.
\<close>

definition usage_bytes :: "tree \<Rightarrow> nat" where
  "usage_bytes t = min (tree_bytes t) u64_max"

definition usage_entries :: "tree \<Rightarrow> nat" where
  "usage_entries t = min (tree_entries t) u64_max"

primrec count_missing :: "path \<Rightarrow> path \<Rightarrow> nat ws" where
  "count_missing p [] = pass 0"
| "count_missing p (x # xs) =
     (\<lambda>t. case symlink_metadata t (p @ [x]) of
        OsOk _ \<Rightarrow> count_missing (p @ [x]) xs t
      | OsErr ENotFound \<Rightarrow> Done (Inr (length (x # xs))) t
      | OsErr EOther \<Rightarrow> Done (Inl (Sdk ''internal_error'')) t
      | Outside \<Rightarrow> Escaped)"

definition missing_entry_count :: "path \<Rightarrow> nat ws" where
  "missing_entry_count p =
     (if is_reserved_metadata_path (join ''/'' p) then pass 0 else count_missing [] p)"

definition check_entry_quota_for_path :: "limits \<Rightarrow> path \<Rightarrow> unit ws" where
  "check_entry_quota_for_path lim p =
     (\<lambda>t. bindw (missing_entry_count p) (\<lambda>missing.
        if saturating_add (usage_entries t) missing > max_entries lim then throw (Sdk ''quota_exceeded'')
        else pass ()) t)"

definition current_file_bytes :: "path \<Rightarrow> tree \<Rightarrow> nat os" where
  "current_file_bytes p t =
     (case metadata t p of
        OsOk (File c) \<Rightarrow> OsOk (length c) | OsOk _ \<Rightarrow> OsOk 0 | OsErr _ \<Rightarrow> OsOk 0 | Outside \<Rightarrow> Outside)"

definition check_write_quota :: "limits \<Rightarrow> path \<Rightarrow> nat \<Rightarrow> unit ws" where
  "check_write_quota lim p next_file_bytes =
     bindw (look internal_io (current_file_bytes p)) (\<lambda>current t.
       if saturating_add (usage_bytes t - current) next_file_bytes > max_total_bytes lim
       then Done (Inl (Sdk ''quota_exceeded'')) t
       else check_entry_quota_for_path lim p t)"

definition enforce_total_limits :: "limits \<Rightarrow> unit ws" where
  "enforce_total_limits lim =
     (\<lambda>t. if usage_bytes t > max_total_bytes lim then Done (Inl (Sdk ''quota_exceeded'')) t
          else if usage_entries t > max_entries lim then Done (Inl (Sdk ''quota_exceeded'')) t
          else Done (Inr ()) t)"

section \<open>Reading and writing\<close>

definition tmp_dir :: path where
  "tmp_dir = [''.labby-state'', ''tmp'']"

text \<open>\<open>name\<close> is the fresh identifier of the temporary file.\<close>

definition create_temp_path :: "string \<Rightarrow> path ws" where
  "create_temp_path name =
     bindw (change internal_io (create_dir_all tmp_dir)) (\<lambda>_.
     bindw (reject_existing_symlink_ancestors tmp_dir) (\<lambda>_.
     bindw (look internal_io (\<lambda>t. symlink_metadata t tmp_dir)) (\<lambda>meta.
     if meta \<noteq> Dir then throw (Sdk ''permission_denied'')
     else pass (tmp_dir @ [name @ ''.tmp'']))))"

text \<open>The end of \<open>write_file\<close>: a temporary file is written and renamed to the destination.\<close>

definition replace_file :: "string \<Rightarrow> path \<Rightarrow> string \<Rightarrow> unit ws" where
  "replace_file name p content =
     bindw (guard_path p) (\<lambda>_.
     bindw (create_temp_path name) (\<lambda>tmp.
     bindw (change internal_io (create_new tmp content)) (\<lambda>_.
     bindw (look internal_io (\<lambda>t. symlink_metadata t tmp)) (\<lambda>meta.
     case meta of
       File _ \<Rightarrow> bindw (guard_path p) (\<lambda>_. change internal_io (rename tmp p))
     | _ \<Rightarrow> bindw (catchw (change internal_io (remove_file tmp)) (\<lambda>_. pass ())) (\<lambda>_.
             throw (Sdk ''permission_denied''))))))"

definition write_file :: "limits \<Rightarrow> string \<Rightarrow> string \<Rightarrow> string \<Rightarrow> unit ws" where
  "write_file lim name v content =
     (if length content > max_file_bytes lim then throw (InvalidParam ''content'')
      else let p = path_below v in
       bindw (guard_path p) (\<lambda>_.
       bindw (check_write_quota lim p (length content)) (\<lambda>_.
       bindw (change internal_io (create_dir_all (butlast p))) (\<lambda>_.
       replace_file name p content))))"

text \<open>
  Reading takes one byte more than the limit before the length is checked, so that a character
  cut there makes the text invalid.
\<close>

definition read_file :: "limits \<Rightarrow> string \<Rightarrow> string ws" where
  "read_file lim v =
     (let p = path_below v in
       bindw (guard_path p) (\<lambda>_.
       bindw (look not_found_or_internal (\<lambda>t. open_file t p)) (\<lambda>e.
       bindw (look internal_io (\<lambda>_. read_bytes e)) (\<lambda>bytes.
       let content = take (max_result_bytes lim + 1) bytes in
       case from_utf8 content of
         None \<Rightarrow> throw (Sdk ''internal_error'')
       | Some content \<Rightarrow>
           if length content > max_result_bytes lim then throw (Sdk ''response_too_large'')
           else pass content))))"

definition read_file_bytes :: "limits \<Rightarrow> string \<Rightarrow> string ws" where
  "read_file_bytes lim v =
     (let p = path_below v in
       bindw (guard_path p) (\<lambda>_.
       bindw (look not_found_or_internal (\<lambda>t. open_file t p)) (\<lambda>e.
       bindw (look internal_io (\<lambda>_. read_bytes e)) (\<lambda>bytes.
       if length (take (max_file_bytes lim + 1) bytes) > max_file_bytes lim
       then throw (Sdk ''response_too_large'') else pass (take (max_file_bytes lim + 1) bytes)))))"

definition append_file :: "limits \<Rightarrow> string \<Rightarrow> string \<Rightarrow> string \<Rightarrow> unit ws" where
  "append_file lim name v content =
     bindw (catchw (read_file lim v) (\<lambda>r. case r of
        Inr existing \<Rightarrow> pass existing
      | Inl e \<Rightarrow> if tool_error_kind e = ''not_found'' then pass [] else throw e)) (\<lambda>existing.
     write_file lim name v (existing @ content))"

definition copy_file :: "limits \<Rightarrow> string \<Rightarrow> string \<Rightarrow> string \<Rightarrow> unit ws" where
  "copy_file lim name from to =
     bindw (read_file lim from) (\<lambda>content. write_file lim name to content)"

definition path_exists :: "string \<Rightarrow> bool ws" where
  "path_exists v =
     (let p = path_below v in
       bindw (guard_path p) (\<lambda>_ t.
       case metadata t p of
         OsOk _ \<Rightarrow> Done (Inr True) t
       | OsErr ENotFound \<Rightarrow> Done (Inr False) t
       | OsErr EOther \<Rightarrow> Done (Inl (Sdk ''internal_error'')) t
       | Outside \<Rightarrow> Escaped))"

text \<open>The length reported for a directory is the system's.\<close>

definition stat_path :: "string \<Rightarrow> (string \<times> nat option) ws" where
  "stat_path v =
     (let p = path_below v in
       bindw (guard_path p) (\<lambda>_.
       bindw (look not_found_or_internal (\<lambda>t. metadata t p)) (\<lambda>e.
       case e of
         File c \<Rightarrow> pass (''file'', Some (length c))
       | Dir \<Rightarrow> pass (''directory'', None)
       | Link \<Rightarrow> throw (Sdk ''permission_denied''))))"

definition mkdir :: "limits \<Rightarrow> string \<Rightarrow> unit ws" where
  "mkdir lim v =
     (let p = path_below v in
       bindw (guard_path p) (\<lambda>_.
       bindw (check_entry_quota_for_path lim p) (\<lambda>_.
       bindw (change internal_io (create_dir_all p)) (\<lambda>_.
       guard_path p))))"

definition remove :: "string \<Rightarrow> bool \<Rightarrow> unit ws" where
  "remove v recursive =
     (if is_reserved_metadata_path v then throw (Sdk ''permission_denied'')
      else let p = path_below v in
       bindw (guard_path p) (\<lambda>_.
       bindw (look not_found_or_internal (\<lambda>t. metadata t p)) (\<lambda>e.
       case e of
         File _ \<Rightarrow> change internal_io (remove_file p)
       | Dir \<Rightarrow> if recursive then change internal_io (remove_dir_all p)
                else change internal_io (remove_dir p)
       | Link \<Rightarrow> throw (Sdk ''permission_denied''))))"

definition move_path :: "limits \<Rightarrow> string \<Rightarrow> string \<Rightarrow> unit ws" where
  "move_path lim from to =
     (let a = path_below from; b = path_below to in
       bindw (reject_existing_symlink_ancestors a) (\<lambda>_.
       bindw (reject_existing_symlink_ancestors b) (\<lambda>_.
       bindw (reject_existing_symlink_path a) (\<lambda>_.
       bindw (reject_existing_symlink_path b) (\<lambda>_.
       bindw (check_entry_quota_for_path lim b) (\<lambda>_.
       bindw (change internal_io (create_dir_all (butlast b))) (\<lambda>_.
       change not_found_or_internal (rename a b))))))))"

definition list_dir :: "limits \<Rightarrow> string \<Rightarrow> string list ws" where
  "list_dir lim v =
     (let p = path_below v in
       bindw (guard_path p) (\<lambda>_.
       bindw (look not_found_or_internal (\<lambda>t. case metadata t p of
          OsOk Dir \<Rightarrow> OsOk (children t p) | OsOk _ \<Rightarrow> OsErr EOther | OsErr e \<Rightarrow> OsErr e | Outside \<Rightarrow> Outside))
         (\<lambda>names.
       let entries = filter (\<lambda>name. \<not> is_reserved_metadata_path
             (if v = [] then name else v @ ''/'' @ name)) names
       in if length entries > max_entries lim then throw (Sdk ''response_too_large'')
          else pass (sort entries))))"

end
