(* ===== verification/Workspace_Logic.thy ===== *)
theory Workspace_Logic
  imports Workspace
begin

text \<open>
  Weakest preconditions for the workspace operations. A triple holds only if the operation does
  not follow a link, so that every lemma here also says that nothing outside the tree is touched.
\<close>

section \<open>Rules\<close>

definition wp :: "'a ws \<Rightarrow> (tool_error + 'a \<Rightarrow> tree \<Rightarrow> bool) \<Rightarrow> tree \<Rightarrow> bool" where
  "wp m Q t = (case m t of Escaped \<Rightarrow> False | Done r t' \<Rightarrow> Q r t')"

lemma wp_simps [simp]:
  "wp (pass a) Q t = Q (Inr a) t" "wp (throw e) Q t = Q (Inl e) t" "wp (lift_result r) Q t = Q r t"
  "wp (catchw m g) Q' t = wp m (\<lambda>r. wp (g r) Q') t"
  by (simp_all add: wp_def pass_def throw_def lift_result_def catchw_def split: outcome.splits)

lemma wp_bindw [simp]:
  "wp (bindw m f) Q t = wp m (\<lambda>r t'. case r of Inl e \<Rightarrow> Q (Inl e) t' | Inr a \<Rightarrow> wp (f a) Q t') t"
  by (auto simp: wp_def bindw_def split: outcome.splits sum.splits)

lemma wp_look [simp]:
  "wp (look err f) Q t
     = (case f t of Outside \<Rightarrow> False | OsErr e \<Rightarrow> Q (Inl (err e)) t | OsOk a \<Rightarrow> Q (Inr a) t)"
  by (auto simp: wp_def look_def split: os.splits)

lemma wp_change [simp]:
  "wp (change err f) Q t
     = (case f t of Outside \<Rightarrow> False | OsErr e \<Rightarrow> Q (Inl (err e)) t | OsOk t' \<Rightarrow> Q (Inr ()) t')"
  by (auto simp: wp_def change_def split: os.splits)

lemma wp_mono: "wp m Q t \<Longrightarrow> (\<And>r t'. Q r t' \<Longrightarrow> Q' r t') \<Longrightarrow> wp m Q' t"
  by (auto simp: wp_def split: outcome.splits)

lemma wp_Done: "m t = Done r t' \<Longrightarrow> wp m Q t = Q r t'"
  by (simp add: wp_def)

section \<open>The symlink guard\<close>

lemma reject_existing_symlink_cases:
  assumes "tree_ok t" and "clear_to t p"
  shows "wp (reject_existing_symlink p) (\<lambda>r t'. t' = t \<and> (r = Inr () \<longrightarrow> clear t p)) t"
    and "wp (reject_existing_symlink_path p) (\<lambda>r t'. t' = t \<and> (r = Inr () \<longrightarrow> clear t p)) t"
proof -
  show "wp (reject_existing_symlink p) (\<lambda>r t'. t' = t \<and> (r = Inr () \<longrightarrow> clear t p)) t"
  proof (cases rule: symlink_metadata_cases [OF assms])
    case (1 e)
    with assms(2) show ?thesis by (cases e) (auto simp: wp_def reject_existing_symlink_def clear_iff)
  next
    case (2 err)
    with assms(2) show ?thesis by (cases err) (auto simp: wp_def reject_existing_symlink_def clear_iff)
  qed
  show "wp (reject_existing_symlink_path p) (\<lambda>r t'. t' = t \<and> (r = Inr () \<longrightarrow> clear t p)) t"
  proof (cases rule: symlink_metadata_cases [OF assms])
    case (1 e)
    with assms(2) show ?thesis by (cases e) (auto simp: wp_def reject_existing_symlink_path_def clear_iff)
  next
    case (2 err)
    with assms(2) show ?thesis by (cases err) (auto simp: wp_def reject_existing_symlink_path_def clear_iff)
  qed
qed

lemma reject_symlinks_below:
  assumes "tree_ok t" and "clear t p"
  shows "wp (reject_symlinks_below p xs) (\<lambda>r t'. t' = t \<and> (r = Inr () \<longrightarrow> clear t (p @ xs))) t"
  using assms(2)
proof (induction xs arbitrary: p)
  case (Cons x xs)
  have "clear_to t (p @ [x])" using Cons.prems by (simp add: clear_to_snoc)
  from reject_existing_symlink_cases(1) [OF assms(1) this] Cons.IH [of "p @ [x]"] show ?case
    by (auto elim!: wp_mono split: sum.split)
qed simp

lemma unit_result: "(\<And>e. Q (Inl e)) \<Longrightarrow> Q (Inr ()) \<Longrightarrow> Q r" for r :: "'e + unit"
  by (cases r) auto

lemma unit_result_if:
  fixes r :: "'e + unit"
  assumes "r = Inr () \<longrightarrow> A" and "\<And>e. Q (Inl e)" and "A \<Longrightarrow> Q (Inr ())"
  shows "Q r"
  using assms by (cases r) auto

lemma reject_ancestors:
  assumes "tree_ok t" and "\<And>e. Q (Inl e) t" and "clear t p \<Longrightarrow> Q (Inr ()) t"
  shows "wp (reject_existing_symlink_ancestors p) Q t"
proof -
  have c: "clear_to t []" by (simp add: clear_to_def)
  have "wp (reject_existing_symlink_ancestors p) (\<lambda>r t'. t' = t \<and> (r = Inr () \<longrightarrow> clear t p)) t"
    using reject_existing_symlink_cases(1) [OF assms(1) c] reject_symlinks_below [OF assms(1), of "[]" p]
    unfolding reject_existing_symlink_ancestors_def
    by (auto elim!: wp_mono split: sum.split)
  then show ?thesis
    by (rule wp_mono) (auto intro: unit_result_if [where Q = "\<lambda>r. Q r t"] assms(2,3))
qed

lemma reject_path:
  assumes "tree_ok t" and "clear t p" and "\<And>e. Q (Inl e) t" and "Q (Inr ()) t"
  shows "wp (reject_existing_symlink_path p) Q t"
proof -
  have "clear_to t p" using assms(2) by (simp add: clear_iff)
  from reject_existing_symlink_cases(2) [OF assms(1) this] show ?thesis
    by (rule wp_mono) (auto intro: unit_result [where Q = "\<lambda>r. Q r t"] assms(3,4))
qed

lemma guard:
  assumes "tree_ok t" and "\<And>e. Q (Inl e) t" and "clear t p \<Longrightarrow> Q (Inr ()) t"
  shows "wp (guard_path p) Q t"
  unfolding guard_path_def wp_bindw
  by (rule reject_ancestors [OF assms(1)]) (auto intro!: reject_path assms)

text \<open>With a directory above a path that is clear, the guard cannot fail.\<close>

lemma symlink_metadata_absent:
  assumes "tree_ok t" and "p \<noteq> []" and "node t (butlast p) = Some Dir" and "node t p = None"
  shows "symlink_metadata t p = OsErr ENotFound"
proof -
  have "lstat_from t q xs = OsErr ENotFound"
    if "node t (q @ xs) = None" "xs \<noteq> []" "node t (q @ butlast xs) = Some Dir" for q xs
    using that
  proof (induction xs arbitrary: q)
    case (Cons x xs)
    have q: "node t q = Some Dir"
    proof (cases "xs = []")
      case False
      then have "strict_prefix q (q @ butlast (x # xs))" by (auto simp: strict_prefix_def)
      then show ?thesis using tree_ok_above [OF assms(1) Cons.prems(3)] by blast
    qed (use Cons.prems in simp)
    with Cons show ?case by (cases "xs = []") auto
  qed simp
  from this [of "[]" p] assms show ?thesis by (simp add: symlink_metadata_def)
qed

lemma guard_passes:
  assumes ok: "tree_ok t" and c: "clear t p" and par: "p \<noteq> [] \<Longrightarrow> node t (butlast p) = Some Dir"
  shows "guard_path p t = Done (Inr ()) t"
proof -
  have one: "reject_existing_symlink q t = Done (Inr ()) t \<and> reject_existing_symlink_path q t = Done (Inr ()) t"
    if q: "prefix q p" for q
  proof (cases "node t q")
    case (Some e)
    have "e \<noteq> Link" using c q Some by (auto simp: clear_def)
    with symlink_metadata_complete [OF ok Some] show ?thesis
      by (cases e) (auto simp: reject_existing_symlink_def reject_existing_symlink_path_def)
  next
    case None
    then have "q \<noteq> []" by auto
    moreover have "q = p"
    proof (rule ccontr)
      assume "q \<noteq> p"
      have "p \<noteq> []" using q \<open>q \<noteq> []\<close> by auto
      then have "prefix q (butlast p)" using q \<open>q \<noteq> p\<close> by (metis append_butlast_last_id prefix_snoc)
      with par [OF \<open>p \<noteq> []\<close>] None have "strict_prefix q (butlast p)" by (auto simp: strict_prefix_def)
      with tree_ok_above [OF ok par [OF \<open>p \<noteq> []\<close>]] None show False by auto
    qed
    ultimately have "symlink_metadata t q = OsErr ENotFound"
      using symlink_metadata_absent [OF ok] par None by auto
    then show ?thesis by (simp add: reject_existing_symlink_def reject_existing_symlink_path_def)
  qed
  have "reject_symlinks_below q xs t = Done (Inr ()) t" if "p = q @ xs" for q xs
    using that
  proof (induction xs arbitrary: q)
    case (Cons x xs)
    then have "prefix (q @ [x]) p" by simp
    with Cons one [of "q @ [x]"] show ?case by (simp add: bindw_def)
  qed (simp add: pass_def)
  with one [of "[]"] one [of p] show ?thesis
    by (simp add: guard_path_def reject_existing_symlink_ancestors_def bindw_def)
qed

section \<open>Quota\<close>

text \<open>The checks add with saturation, so a limit below the largest number is needed to trust them.\<close>

definition limits_ok :: "limits \<Rightarrow> bool" where
  "limits_ok lim = (max_total_bytes lim < u64_max \<and> max_entries lim < u64_max)"

lemma saturating_le: "m < u64_max \<Longrightarrow> saturating_add (min a u64_max) b \<le> m \<longleftrightarrow> a + b \<le> m"
  by (auto simp: saturating_add_def min_def)

lemma count_missing:
  assumes "tree_ok t" and "clear t (p @ xs)"
  shows "wp (count_missing p xs) (\<lambda>r t'. t' = t \<and> (\<forall>n. r = Inr n \<longrightarrow> n = missing_from t p xs)) t"
  using assms(2)
proof (induction xs arbitrary: p)
  case (Cons x xs)
  have c: "clear_to t (p @ [x])" using Cons.prems clear_prefix clear_to_snoc by (metis prefixI)
  show ?case
  proof (cases rule: symlink_metadata_cases [OF assms(1) c])
    case (1 e)
    with Cons show ?thesis by (simp add: wp_def)
  next
    case (2 err)
    with missing_all [OF assms(1), of "p @ [x]" xs] show ?thesis by (cases err) (auto simp: wp_def)
  qed
qed simp

definition entry_room :: "limits \<Rightarrow> path \<Rightarrow> tree \<Rightarrow> bool" where
  "entry_room lim p t =
     (tree_entries t + (if is_reserved_metadata_path (join ''/'' p) then 0 else missing_from t [] p)
      \<le> max_entries lim)"

lemma check_entry_quota:
  assumes "tree_ok t" and "clear t p \<or> is_reserved_metadata_path (join ''/'' p)" and "limits_ok lim"
    and "\<And>e. Q (Inl e) t" and "entry_room lim p t \<Longrightarrow> Q (Inr ()) t"
  shows "wp (check_entry_quota_for_path lim p) Q t"
proof -
  have "wp (missing_entry_count p) (\<lambda>r t'. t' = t \<and> (\<forall>n. r = Inr n \<longrightarrow>
      n = (if is_reserved_metadata_path (join ''/'' p) then 0 else missing_from t [] p))) t"
    using count_missing [OF assms(1), of "[]" p] assms(2) by (auto simp: missing_entry_count_def)
  moreover have "\<not> saturating_add (usage_entries t) n > max_entries lim \<longleftrightarrow> tree_entries t + n \<le> max_entries lim" for n
    using assms(3) saturating_le [of "max_entries lim" "tree_entries t" n]
    by (simp add: limits_ok_def usage_entries_def not_less)
  ultimately show ?thesis
    using assms(4,5) unfolding check_entry_quota_for_path_def entry_room_def
    by (fastforce simp: wp_def bindw_def pass_def throw_def split: outcome.splits sum.splits)
qed

lemma check_write_quota:
  assumes "tree_ok t" and "clear t p" and "limits_ok lim" and "q \<longrightarrow> tree_bytes t \<le> max_total_bytes lim"
    and "\<And>e. Q (Inl e) t"
    and "entry_room lim p t \<Longrightarrow> (q \<longrightarrow> tree_bytes t - node_bytes t p + n \<le> max_total_bytes lim) \<Longrightarrow> Q (Inr ()) t"
  shows "wp (check_write_quota lim p n) Q t"
proof -
  have cur: "current_file_bytes p t = OsOk (node_bytes t p)"
  proof (cases rule: metadata_cases [OF assms(1,2)])
    case (1 e)
    then show ?thesis by (cases e) (auto simp: current_file_bytes_def node_bytes_def)
  next
    case (2 err)
    then show ?thesis by (simp add: current_file_bytes_def node_bytes_def)
  qed
  have "tree_bytes t - node_bytes t p + n \<le> max_total_bytes lim"
    if q and "saturating_add (usage_bytes t - node_bytes t p) n \<le> max_total_bytes lim"
  proof -
    have "min (tree_bytes t) u64_max = tree_bytes t"
      "min (tree_bytes t - node_bytes t p) u64_max = tree_bytes t - node_bytes t p"
      using assms(3,4) that(1) by (auto simp: limits_ok_def min_def)
    with saturating_le [of "max_total_bytes lim" "tree_bytes t - node_bytes t p" n] that assms(3) show ?thesis
      by (simp add: limits_ok_def usage_bytes_def)
  qed
  then show ?thesis
    unfolding check_write_quota_def wp_bindw wp_look cur os.case sum.case
    using check_entry_quota [OF assms(1) _ assms(3), of p Q] assms(2,5,6)
    by (auto simp: wp_def not_less)
qed

section \<open>The invariant\<close>

definition meta_dir :: string where
  "meta_dir = ''.labby-state''"

definition meta :: "path set" where
  "meta = {q. prefix [meta_dir] q}"

definition meta_clear :: "tree \<Rightarrow> bool" where
  "meta_clear t = (\<forall>q \<in> meta. node t q \<noteq> Some Link)"

text \<open>
  The slack of three entries: a write makes the two directories of the temporary files without
  counting them, and a write that fails at the end leaves its temporary file behind. The limit
  of bytes is part of the invariant on demand.
\<close>

definition ws_ok :: "bool \<Rightarrow> limits \<Rightarrow> tree \<Rightarrow> bool" where
  "ws_ok quota lim t =
     (tree_ok t \<and> meta_clear t \<and> (quota \<longrightarrow> tree_bytes t \<le> max_total_bytes lim)
      \<and> tree_entries t \<le> max_entries lim + 3)"

lemma tmp_dir_meta: "prefix q tmp_dir \<Longrightarrow> q = [] \<or> q \<in> meta"
  by (auto simp: tmp_dir_def meta_def meta_dir_def prefix_Cons)

lemma tmp_clear: "meta_clear t \<Longrightarrow> clear t tmp_dir"
  by (auto simp: clear_def meta_clear_def dest!: tmp_dir_meta)

lemma meta_up: "q \<in> meta \<Longrightarrow> prefix q q' \<Longrightarrow> q' \<in> meta"
  by (auto simp: meta_def)

lemma not_meta_prefix: "p \<notin> meta \<Longrightarrow> prefix q p \<Longrightarrow> q \<notin> meta"
  using meta_up by blast

text \<open>A path a script can name is not empty and lies outside the metadata.\<close>

lemma virtual_path_below:
  assumes "virtual_ok v"
  shows "path_below v \<noteq> []" "path_below v \<notin> meta" "\<not> is_reserved_metadata_path (join ''/'' (path_below v))"
proof -
  have v: "v \<noteq> []" "path_below v = split_char (CHR ''/'') v"
    using assms by (auto simp: virtual_ok_def path_below_def)
  then show "path_below v \<noteq> []" "\<not> is_reserved_metadata_path (join ''/'' (path_below v))"
    using assms by (auto simp: virtual_ok_def join_split_char)
  have "meta_dir \<notin> set (path_below v)"
    using assms v by (auto simp: virtual_ok_def is_reserved_metadata_path_def list_ex_iff meta_dir_def
        eq_ignore_ascii_case_def)
  then show "path_below v \<notin> meta" by (auto simp: meta_def prefix_def)
qed

lemma meta_clear_dirs:
  assumes "meta_clear t" and "\<forall>q. node t' q = node t q \<or> (node t q = None \<and> node t' q = Some Dir \<and> P q)"
  shows "meta_clear t'"
  using assms by (metis entry.distinct(5) meta_clear_def option.inject)

lemma create_dir_all_ok:
  assumes ok: "tree_ok t" and c: "clear t p"
    and err: "\<And>e. Q (Inl (f e)) t"
    and fin: "\<And>t'. tree_ok t' \<Longrightarrow> node t' p = Some Dir \<Longrightarrow> tree_bytes t' = tree_bytes t \<Longrightarrow>
      tree_entries t' = tree_entries t + missing_from t [] p \<Longrightarrow>
      (\<forall>q. node t' q = node t q \<or> (node t q = None \<and> node t' q = Some Dir \<and> prefix q p)) \<Longrightarrow> Q (Inr ()) t'"
  shows "wp (change f (create_dir_all p)) Q t"
proof -
  have "create_dir_all p t \<noteq> Outside"
    using create_dirs_inside [of p t "[]"] c by (simp add: create_dir_all_def clear_def)
  moreover have "Q (Inr ()) t'" if "create_dir_all p t = OsOk t'" for t'
    using create_dirs_ok [OF ok _ that [unfolded create_dir_all_def]] fin by auto
  ultimately show ?thesis using err by (auto split: os.splits)
qed

lemma create_temp_path:
  assumes ok: "tree_ok t" and c: "meta_clear t"
    and err: "\<And>e t'. tree_ok t' \<Longrightarrow> tree_bytes t' = tree_bytes t \<Longrightarrow> tree_entries t' \<le> tree_entries t + 2 \<Longrightarrow>
      (\<forall>q. node t' q = node t q \<or> (node t q = None \<and> node t' q = Some Dir \<and> prefix q tmp_dir)) \<Longrightarrow> Q (Inl e) t'"
    and fin: "\<And>t'. tree_ok t' \<Longrightarrow> tree_bytes t' = tree_bytes t \<Longrightarrow> tree_entries t' \<le> tree_entries t + 2 \<Longrightarrow>
      node t' tmp_dir = Some Dir \<Longrightarrow>
      (\<forall>q. node t' q = node t q \<or> (node t q = None \<and> node t' q = Some Dir \<and> prefix q tmp_dir)) \<Longrightarrow>
      Q (Inr (tmp_dir @ [name @ ''.tmp''])) t'"
  shows "wp (create_temp_path name) Q t"
proof -
  have two: "missing_from t [] tmp_dir \<le> 2" by (simp add: tmp_dir_def)
  show ?thesis
    unfolding create_temp_path_def wp_bindw
  proof (rule create_dir_all_ok [OF ok tmp_clear [OF c]], goal_cases)
    case (1 e)
    then show ?case using err [OF ok] by simp
  next
    case (2 t')
    have n: "tree_entries t' \<le> tree_entries t + 2" using 2(4) two by simp
    have "symlink_metadata t' tmp_dir = OsOk Dir" using symlink_metadata_complete [OF 2(1,2)] .
    with err [OF 2(1,3) n 2(5)] fin [OF 2(1,3) n 2(2,5)] show ?case
      by (auto intro!: reject_ancestors [OF 2(1)])
  qed
qed

section \<open>Writing\<close>

text \<open>What a write promises: the invariant, and that outside the metadata it changes only its own file.\<close>

definition wrote :: "bool \<Rightarrow> limits \<Rightarrow> tree \<Rightarrow> path \<Rightarrow> string \<Rightarrow> tool_error + unit \<Rightarrow> tree \<Rightarrow> bool" where
  "wrote quota lim t p c r t' =
     (ws_ok quota lim t' \<and> frame ((if r = Inr () then {p} else {}) \<union> meta) t t'
      \<and> (r = Inr () \<longrightarrow> node t' p = Some (File c)))"

lemma rename_file:
  assumes ok: "tree_ok t" and a: "node t a = Some (File c)" "a \<noteq> b"
    and b: "b \<noteq> []" "node t (butlast b) = Some Dir"
  shows "rename a b t = (if node t b = Some Dir then OsErr EOther else OsOk (relocate a b t))"
    and "node t b \<noteq> Some Dir \<Longrightarrow> movable t a b"
proof -
  have ne: "a \<noteq> []" using a by auto
  have "\<not> strict_prefix a b"
  proof
    assume "strict_prefix a b"
    then have "prefix a (butlast b)" using b(1) by (metis append_butlast_last_id strict_prefix_snoc)
    then show False
      using tree_ok_above [OF ok b(2), of a] a(1) b(2) by (cases "a = butlast b") (auto simp: strict_prefix_def)
  qed
  moreover have "symlink_metadata t (butlast b) = OsOk Dir" by (rule symlink_metadata_complete [OF ok b(2)])
  moreover have "symlink_metadata t a = OsOk (File c)" by (rule symlink_metadata_complete [OF ok a(1)])
  ultimately show "rename a b t = (if node t b = Some Dir then OsErr EOther else OsOk (relocate a b t))"
    using a(2) ne by (auto simp: rename_def parent_dir_def split: option.split entry.split)
  show "movable t a b" if "node t b \<noteq> Some Dir"
    using that ok a ne b \<open>\<not> strict_prefix a b\<close> tree_ok_below [OF ok that]
    by (auto simp: movable_def strict_prefix_def)
qed

lemma rename_temp:
  assumes ok: "tree_ok t" and c: "meta_clear t" "clear t p" and p: "p \<noteq> []" "p \<notin> meta"
    and par: "node t (butlast p) = Some Dir" and tmp: "tmp \<in> meta" "node t tmp = Some (File content)"
    and bytes: "b \<longrightarrow> tree_bytes t - node_bytes t p \<le> m" "node_bytes t p \<le> tree_bytes t"
    and entries: "tree_entries t \<le> n + node_count t p" "node t p = Some Dir \<Longrightarrow> tree_entries t \<le> n"
  shows "wp (bindw (guard_path p) (\<lambda>_. change internal_io (rename tmp p))) (\<lambda>r t'. tree_ok t' \<and> meta_clear t'
    \<and> (b \<longrightarrow> tree_bytes t' \<le> m) \<and> tree_entries t' \<le> n
    \<and> frame ((if r = Inr () then {p} else {}) \<union> meta) t t' \<and> (r = Inr () \<longrightarrow> node t' p = Some (File content))) t"
proof -
  have ne: "tmp \<noteq> p" using p(2) tmp(1) by auto
  note rn = rename_file [OF ok tmp(2) ne p(1) par]
  have guard: "guard_path p t = Done (Inr ()) t" by (rule guard_passes [OF ok c(2) par])
  show ?thesis
  proof (cases "node t p = Some Dir")
    case True
    with bytes entries(2) have "b \<longrightarrow> tree_bytes t \<le> m" "tree_entries t \<le> n" by (auto simp: node_bytes_def)
    with True rn(1) guard ok c(1) show ?thesis by (simp add: wp_Done)
  next
    case False
    let ?t = "relocate tmp p t"
    note mv = rn(2) [OF False]
    have node: "node ?t q = (if prefix p q then node t (tmp @ drop (length p) q) else if prefix tmp q then None else node t q)"
      if "q \<noteq> []" for q
      by (rule node_relocate [OF mv that])
    have below: "node t (tmp @ r) = (if r = [] then Some (File content) else None)" for r
      using tmp(2) tree_ok_below [OF ok, of tmp "tmp @ r"] by (auto simp: strict_prefix_def)
    have at: "node ?t p = Some (File content)" using node [OF p(1)] below [of "[]"] by simp
    have other: "node ?t q = node t q" if "q \<noteq> p" "q \<notin> meta" for q
    proof (cases "q = []")
      case ne: False
      have "\<not> prefix tmp q" using that(2) tmp(1) meta_up by blast
      moreover have "node t q = None \<and> node t (tmp @ drop (length p) q) = None" if "prefix p q"
        using \<open>q \<noteq> p\<close> that below tree_ok_below [OF ok False, of q] by (auto simp: strict_prefix_def elim!: prefixE)
      ultimately show ?thesis using node [OF ne] by auto
    qed simp
    have "meta_clear ?t"
    proof (unfold meta_clear_def, intro ballI)
      fix q assume q: "q \<in> meta"
      then have "\<not> prefix p q" using p by (auto simp: meta_def prefix_def Cons_eq_append_conv)
      moreover have "q \<noteq> []" using q by (auto simp: meta_def)
      ultimately show "node ?t q \<noteq> Some Link" using node c(1) q by (auto simp: meta_clear_def)
    qed
    moreover have "b \<longrightarrow> tree_bytes ?t \<le> m" "tree_entries ?t \<le> n"
      using sizes_relocate [OF ok p(1), of tmp] bytes entries(1) by auto
    moreover have "frame ({p} \<union> meta) t ?t" using other by (auto simp: frame_def)
    ultimately show ?thesis
      using False rn(1) guard at tree_ok_relocate [OF mv] by (simp add: wp_Done)
  qed
qed

lemma node_count_clear: "clear t p \<Longrightarrow> node_count t p = (if node t p = None then 0 else 1)"
  by (auto simp: node_count_def clear_iff split: option.split)

lemma node_bytes_le: "tree_ok t \<Longrightarrow> p \<noteq> [] \<Longrightarrow> node_bytes t p \<le> tree_bytes t"
  using sizes_without(1) [OF tree_ok_distinct, of t p] by linarith

lemma replace_file:
  assumes ok: "tree_ok t" and c: "meta_clear t" "clear t p" and p: "p \<noteq> []" "p \<notin> meta"
    and par: "node t (butlast p) = Some Dir"
    and bytes: "b \<longrightarrow> tree_bytes t \<le> m" "b \<longrightarrow> tree_bytes t - node_bytes t p + length content \<le> m"
    and entries: "tree_entries t + (if node t p = None then 1 else 0) \<le> n"
  shows "wp (replace_file name p content) (\<lambda>r t'. tree_ok t' \<and> meta_clear t' \<and> (b \<longrightarrow> tree_bytes t' \<le> m)
    \<and> tree_entries t' \<le> n + 3
    \<and> frame ((if r = Inr () then {p} else {}) \<union> meta) t t' \<and> (r = Inr () \<longrightarrow> node t' p = Some (File content))) t"
    (is "wp _ ?Q t")
proof -
  have stop: "?Q (Inl e) t'" if "tree_ok t'" "tree_bytes t' = tree_bytes t" "tree_entries t' \<le> tree_entries t + 2"
    and "\<forall>q. node t' q = node t q \<or> (node t q = None \<and> node t' q = Some Dir \<and> prefix q tmp_dir)" for e t'
    using that meta_clear_dirs [OF c(1) that(4)] bytes(1) entries by (auto simp: frame_def)
  have tail: "wp (bindw (change internal_io (create_new (tmp_dir @ [name @ ''.tmp'']) content)) (\<lambda>_.
      bindw (look internal_io (\<lambda>t. symlink_metadata t (tmp_dir @ [name @ ''.tmp'']))) (\<lambda>meta.
      case meta of
        File _ \<Rightarrow> bindw (guard_path p) (\<lambda>_. change internal_io (rename (tmp_dir @ [name @ ''.tmp'']) p))
      | _ \<Rightarrow> bindw (catchw (change internal_io (remove_file (tmp_dir @ [name @ ''.tmp'']))) (\<lambda>_. pass ())) (\<lambda>_.
              throw (Sdk ''permission_denied''))))) ?Q t2"
    if t2: "tree_ok t2" "tree_bytes t2 = tree_bytes t" "tree_entries t2 \<le> tree_entries t + 2"
      "node t2 tmp_dir = Some Dir"
      and same: "\<forall>q. node t2 q = node t q \<or> (node t q = None \<and> node t2 q = Some Dir \<and> prefix q tmp_dir)" for t2
  proof -
    let ?tmp = "tmp_dir @ [name @ ''.tmp'']"
    let ?t3 = "put ?tmp (File content) t2"
    have tmp: "?tmp \<in> meta" by (simp add: meta_def meta_dir_def tmp_dir_def)
    have m2: "meta_clear t2" by (rule meta_clear_dirs [OF c(1) same])
    have parent: "parent_dir t2 ?tmp = OsOk ()"
      using symlink_metadata_complete [OF t2(1,4)] by (simp add: parent_dir_def)
    show ?thesis
    proof (cases "node t2 ?tmp")
      case (Some e)
      with parent stop [OF t2(1-3) same] show ?thesis by (simp add: create_new_def)
    next
      case None
      have old: "node t2 q = node t q" if "q \<notin> meta" for q using same that tmp_dir_meta [of q] by auto
      have t3: "node ?t3 q = (if q = ?tmp then Some (File content) else node t2 q)" for q
        by (rule node_put) simp
      have keep: "node ?t3 q = node t q" if "q \<notin> meta" for q using old [OF that] tmp that t3 [of q] by auto
      have ok3: "tree_ok ?t3" using t2(1,4) None by (intro tree_ok_put) auto
      have sizes: "tree_bytes ?t3 = tree_bytes t + length content" "tree_entries ?t3 = tree_entries t2 + 1"
        using sizes_put [OF t2(1), of ?tmp "File content"] None t2(2) by (simp_all add: node_bytes_def node_count_def)
      have up: "q \<notin> meta" if "prefix q p" for q using not_meta_prefix [OF p(2) that] .
      have c3: "clear ?t3 p" using c(2) keep up by (auto simp: clear_def)
      have m3: "meta_clear ?t3" using m2 by (auto simp: meta_clear_def t3)
      have at: "node ?t3 p = node t p" by (rule keep [OF p(2)])
      have par3: "node ?t3 (butlast p) = Some Dir" using par keep [OF up] by (simp add: prefixeq_butlast)
      have nb: "node_bytes ?t3 p = node_bytes t p" "node_count ?t3 p = node_count t p"
        by (simp_all add: node_bytes_def node_count_def at)
      have "wp (bindw (guard_path p) (\<lambda>_. change internal_io (rename ?tmp p))) (\<lambda>r t'. tree_ok t' \<and> meta_clear t'
          \<and> (b \<longrightarrow> tree_bytes t' \<le> m) \<and> tree_entries t' \<le> n + 3
          \<and> frame ((if r = Inr () then {p} else {}) \<union> meta) ?t3 t' \<and> (r = Inr () \<longrightarrow> node t' p = Some (File content))) ?t3"
      proof (rule rename_temp [OF ok3 m3 c3 p par3 tmp])
        show "node ?t3 ?tmp = Some (File content)" by (simp add: t3)
        show "b \<longrightarrow> tree_bytes ?t3 - node_bytes ?t3 p \<le> m"
          using bytes(2) sizes(1) nb(1) node_bytes_le [OF ok p(1)] by simp
        show "node_bytes ?t3 p \<le> tree_bytes ?t3" using sizes(1) nb(1) node_bytes_le [OF ok p(1)] by simp
        show "tree_entries ?t3 \<le> n + 3 + node_count ?t3 p" using sizes(2) t2(3) entries by simp
        show "tree_entries ?t3 \<le> n + 3" if "node ?t3 p = Some Dir"
          using sizes(2) t2(3) entries that at by simp
      qed
      then have "wp (bindw (guard_path p) (\<lambda>_. change internal_io (rename ?tmp p))) ?Q ?t3"
        by (rule wp_mono) (use keep in \<open>auto simp: frame_def\<close>)
      moreover have "symlink_metadata ?t3 ?tmp = OsOk (File content)"
        by (rule symlink_metadata_complete [OF ok3]) (simp add: t3)
      ultimately show ?thesis using None parent by (simp add: create_new_def)
    qed
  qed
  have now: "?Q (Inl e) t" for e using ok c(1) bytes(1) entries by auto
  show ?thesis
    unfolding replace_file_def
  proof (subst wp_bindw, rule guard [OF ok], unfold sum.case, goal_cases)
    case (1 e)
    show ?case by (rule now)
  next
    case 2
    show ?case
      by (subst wp_bindw, rule create_temp_path [OF ok c(1)]; unfold sum.case) (erule (3) stop, erule (4) tail)
  qed
qed

lemma write_file:
  assumes lim: "limits_ok lim" and ok: "ws_ok b lim t" and v: "virtual_ok v"
  shows "wp (write_file lim name v content) (wrote b lim t (path_below v) content) t"
proof -
  let ?p = "path_below v"
  have t: "tree_ok t" "meta_clear t" "b \<longrightarrow> tree_bytes t \<le> max_total_bytes lim" "tree_entries t \<le> max_entries lim + 3"
    using ok by (auto simp: ws_ok_def)
  note p = virtual_path_below [OF v]
  have stop: "wrote b lim t ?p content (Inl e) t" for e using ok by (simp add: wrote_def)
  have go: "wp (bindw (change internal_io (create_dir_all (butlast ?p))) (\<lambda>_. replace_file name ?p content))
      (wrote b lim t ?p content) t"
    if c: "clear t ?p" and room: "entry_room lim ?p t"
      and bytes: "b \<longrightarrow> tree_bytes t - node_bytes t ?p + length content \<le> max_total_bytes lim"
  proof (subst wp_bindw, rule create_dir_all_ok [OF t(1)], goal_cases)
    case 1
    show ?case using clear_prefix [OF c] by (simp add: prefixeq_butlast)
  next
    case (2 e)
    show ?case using stop by simp
  next
    case (3 t1)
    have "butlast ?p @ [last ?p] = ?p" using p(1) by simp
    then have miss: "missing_from t [] ?p = missing_from t [] (butlast ?p) + (if node t ?p = None then 1 else 0)"
      by (metis append_Nil missing_from_snoc)
    have at: "node t1 ?p = node t ?p"
      using 3(5) p(1) by (metis append_butlast_last_id prefix_order.less_le_not_le strict_prefix_snoc)
    have keep: "node t1 q \<noteq> Some Link" if "node t q \<noteq> Some Link" for q
      using 3(5) that by (metis entry.distinct(5) option.inject)
    have "wp (replace_file name ?p content) (\<lambda>r t'. tree_ok t' \<and> meta_clear t' \<and> (b \<longrightarrow> tree_bytes t' \<le> max_total_bytes lim)
        \<and> tree_entries t' \<le> max_entries lim + 3 \<and> frame ((if r = Inr () then {?p} else {}) \<union> meta) t1 t'
        \<and> (r = Inr () \<longrightarrow> node t' ?p = Some (File content))) t1"
    proof (rule replace_file [OF 3(1) _ _ p(1,2) 3(2)])
      show "meta_clear t1" by (rule meta_clear_dirs [OF t(2) 3(5)])
      show "clear t1 ?p" using c keep by (auto simp: clear_def)
      show "b \<longrightarrow> tree_bytes t1 \<le> max_total_bytes lim" using 3(3) t(3) by simp
      show "b \<longrightarrow> tree_bytes t1 - node_bytes t1 ?p + length content \<le> max_total_bytes lim"
        using bytes 3(3) at by (simp add: node_bytes_def)
      show "tree_entries t1 + (if node t1 ?p = None then 1 else 0) \<le> max_entries lim"
        using room p(3) miss 3(4) at by (simp add: entry_room_def)
    qed
    moreover have "frame {} t t1" using 3(5) by (auto simp: frame_def)
    ultimately have "wp (replace_file name ?p content) (wrote b lim t ?p content) t1"
      by (auto elim!: wp_mono simp: wrote_def ws_ok_def dest: frame_trans [of "{}"])
    then show ?case by simp
  qed
  have "wp (bindw (guard_path ?p) (\<lambda>_. bindw (check_write_quota lim ?p (length content)) (\<lambda>_.
      bindw (change internal_io (create_dir_all (butlast ?p))) (\<lambda>_. replace_file name ?p content))))
      (wrote b lim t ?p content) t"
  proof (subst wp_bindw, rule guard [OF t(1)], unfold sum.case, goal_cases)
    case 2
    show ?case
      by (subst wp_bindw, rule check_write_quota [OF t(1) 2 lim t(3)]; unfold sum.case)
        (fact stop, rule go [OF 2])
  qed (fact stop)
  with stop show ?thesis by (simp add: write_file_def Let_def del: wp_bindw)
qed

end
