(* ===== verification/Workspace_Edits.thy ===== *)
theory Workspace_Edits
  imports Workspace
begin

text \<open>
  The operations of the workspace over many files: walking, globbing and searching, replacing
  with a rollback, edit plans and archives (\<open>labby-codemode/src/state/workspace.rs\<close>).
\<close>

section \<open>Walking\<close>

text \<open>The entries of a directory with their virtual paths; metadata is skipped.\<close>

definition dir_entries :: "tree \<Rightarrow> path \<Rightarrow> (path \<times> entry) list" where
  "dir_entries t d =
     filter (\<lambda>(q, _). \<not> is_reserved_metadata_path (join ''/'' q))
       (List.map_filter (\<lambda>x. map_option (Pair (d @ [x])) (node t (d @ [x]))) (children t d))"

definition sub_dirs :: "(path \<times> entry) list \<Rightarrow> path list" where
  "sub_dirs es = map fst (filter (\<lambda>(_, e). e = Dir) es)"

text \<open>The loop over the stack of directories, last pushed first, as the list of the entries it visits.\<close>

function visit :: "tree \<Rightarrow> path list \<Rightarrow> (path \<times> entry) list" where
  "visit t [] = []"
| "visit t (d # stack) =
     (let es = dir_entries t d in es @ visit t (rev (sub_dirs es) @ stack))"
  by pat_completeness auto

definition below_count :: "tree \<Rightarrow> path \<Rightarrow> nat" where
  "below_count t d = Suc (card {k \<in> fst ` set t. strict_prefix d k})"

lemma dir_entries_mem: "(q, e) \<in> set (dir_entries t d) \<Longrightarrow> node t q = Some e \<and> (\<exists>x. q = d @ [x])"
  by (auto simp: dir_entries_def List.map_filter_def split: option.splits)

lemma distinct_dir_entries: "distinct (map fst (dir_entries t d))"
proof -
  have "map fst (List.map_filter (\<lambda>x. map_option (Pair (d @ [x])) (node t (d @ [x]))) xs)
      = map (\<lambda>x. d @ [x]) (filter (\<lambda>x. node t (d @ [x]) \<noteq> None) xs)" for xs
    by (induction xs) (auto simp: map_filter_simps split: option.splits)
  then have "distinct (map fst (List.map_filter (\<lambda>x. map_option (Pair (d @ [x])) (node t (d @ [x]))) (children t d)))"
    by (simp add: children_def distinct_map inj_on_def)
  then show ?thesis unfolding dir_entries_def by (rule distinct_map_filter)
qed

lemma sub_dirs_smaller:
  "sum_list (map (below_count t) (sub_dirs (dir_entries t d))) < below_count t d"
proof -
  let ?D = "sub_dirs (dir_entries t d)"
  let ?B = "\<lambda>q. {k \<in> fst ` set t. prefix q k}"
  have keys: "q \<in> fst ` set t \<and> (\<exists>x. q = d @ [x])" if "q \<in> set ?D" for q
    using that dir_entries_mem by (fastforce simp: sub_dirs_def dest: mem_node)
  have card: "below_count t q = card (?B q)" if "q \<in> set ?D" for q
  proof -
    have "?B q = insert q {k \<in> fst ` set t. strict_prefix q k}"
      using keys [OF that] by (auto simp: strict_prefix_def)
    then show ?thesis by (simp add: below_count_def)
  qed
  have "distinct ?D"
    unfolding sub_dirs_def by (rule distinct_map_filter [OF distinct_dir_entries])
  then have "sum_list (map (below_count t) ?D) = (\<Sum>q \<in> set ?D. card (?B q))"
    using card by (simp add: sum_list_distinct_conv_sum_set)
  also have "\<dots> = card (\<Union>q \<in> set ?D. ?B q)"
  proof (rule card_UN_disjoint [symmetric])
    show "\<forall>q \<in> set ?D. \<forall>q' \<in> set ?D. q \<noteq> q' \<longrightarrow> ?B q \<inter> ?B q' = {}"
      using keys by (auto simp: prefix_def dest!: keys)
  qed auto
  also have "\<dots> \<le> card {k \<in> fst ` set t. strict_prefix d k}"
    by (rule card_mono) (use keys in \<open>fastforce simp: strict_prefix_def elim!: prefixE\<close>)+
  finally show ?thesis by (simp add: below_count_def)
qed

termination visit
proof (relation "measure (\<lambda>(t, stack). sum_list (map (below_count t) stack))")
  fix t d stack es assume "es = dir_entries t d"
  then show "((t, rev (sub_dirs es) @ stack), t, d # stack)
      \<in> measure (\<lambda>(t, stack). sum_list (map (below_count t) stack))"
    using sub_dirs_smaller [of t d] by (simp add: rev_map [symmetric])
qed simp

definition normalize_limit :: "nat \<Rightarrow> nat" where
  "normalize_limit limit = max 1 (min limit 10000)"

text \<open>\<open>we_host\<close> is the path on the host the entry was found at.\<close>

record walk_entry =
  we_path :: string
  we_host :: path
  we_kind :: string
  we_bytes :: "nat option"

definition walk_entry_of :: "path \<times> entry \<Rightarrow> walk_entry" where
  "walk_entry_of x =
     \<lparr>we_path = join ''/'' (fst x), we_host = fst x, we_kind = (if snd x = Dir then ''directory'' else ''file''),
      we_bytes = (case snd x of File c \<Rightarrow> Some (length c) | _ \<Rightarrow> None)\<rparr>"

fun walk_loop ::
    "nat \<Rightarrow> (path \<times> entry) list \<Rightarrow> (path \<times> entry) list \<Rightarrow> tool_error + walk_entry list \<times> bool" where
  "walk_loop limit [] acc = Inr (sort_key we_path (map walk_entry_of acc), False)"
| "walk_loop limit ((q, e) # es) acc =
     (if e = Link then Inl (Sdk ''permission_denied'')
      else let acc' = acc @ [(q, e)]
           in if length acc' > limit
              then Inr (take limit (sort_key we_path (map walk_entry_of acc')), True)
              else walk_loop limit es acc')"

definition walk_tree :: "string \<Rightarrow> nat \<Rightarrow> (walk_entry list \<times> bool) ws" where
  "walk_tree v limit0 =
     (let p = path_below v in
       bindw (guard_path p) (\<lambda>_.
       bindw (look not_found_or_internal (\<lambda>t. case metadata t p of
          OsOk Dir \<Rightarrow> OsOk (visit t [p]) | OsOk _ \<Rightarrow> OsErr EOther | OsErr e \<Rightarrow> OsErr e | Outside \<Rightarrow> Outside))
         (\<lambda>es. lift_result (walk_loop (normalize_limit limit0) es []))))"

text \<open>\<open>walk_files\<close>: the files of the whole workspace; links are skipped.\<close>

definition walk_files :: "nat \<Rightarrow> tree \<Rightarrow> string list \<times> bool" where
  "walk_files limit t =
     (let files = map (join ''/'' \<circ> fst) (filter (\<lambda>(_, e). e \<noteq> Dir \<and> e \<noteq> Link) (visit t [[]]))
      in if length files > limit then (take limit (sort (take (Suc limit) files)), True)
         else (sort files, False))"

section \<open>Globs\<close>

text \<open>
  The regular expressions are those of the \<open>regex\<close> crate: \<open>rx_new\<close> compiles one, \<open>rx_escape\<close> escapes a
  character.
\<close>

record regex =
  rx_new :: "string \<Rightarrow> (string \<Rightarrow> bool) option"
  rx_escape :: "char \<Rightarrow> string"

fun glob_body :: "regex \<Rightarrow> string \<Rightarrow> string" where
  "glob_body rx [] = []"
| "glob_body rx (c # cs) =
     (if c = CHR ''*'' then
        (case cs of
           d # cs' \<Rightarrow>
             if d = CHR ''*'' then
               (case cs' of
                  f # cs'' \<Rightarrow> if f = CHR ''/'' then ''(?:.*/)?'' @ glob_body rx cs'' else ''.*'' @ glob_body rx cs'
                | [] \<Rightarrow> ''.*'' @ glob_body rx cs')
             else ''[^/]*'' @ glob_body rx cs
         | [] \<Rightarrow> ''[^/]*'' @ glob_body rx cs)
      else if c = CHR ''?'' then ''[^/]'' @ glob_body rx cs
      else rx_escape rx c @ glob_body rx cs)"

definition glob_pattern_regex :: "regex \<Rightarrow> string \<Rightarrow> tool_error + (string \<Rightarrow> bool)" where
  "glob_pattern_regex rx pattern =
     (if trim pattern = [] then Inl (InvalidParam ''pattern'')
      else if str_contains pattern ''..'' \<or> starts_with pattern ''/'' \<or> CHR '':'' \<in> set pattern
      then Inl (Sdk ''path_traversal'')
      else ok_or (rx_new rx (''^'' @ glob_body rx pattern @ ''$'')) (InvalidParam ''pattern''))"

definition glob_matches :: "nat \<Rightarrow> (string \<Rightarrow> bool) \<Rightarrow> string list \<times> bool \<Rightarrow> string list \<times> bool" where
  "glob_matches limit matcher walked =
     (let matches = filter matcher (sort (fst walked))
      in if length matches > limit then (take limit matches, True) else (matches, snd walked))"

definition glob :: "limits \<Rightarrow> regex \<Rightarrow> string \<Rightarrow> nat \<Rightarrow> (string list \<times> bool) ws" where
  "glob lim rx pattern limit0 =
     bindw (lift_result (glob_pattern_regex rx pattern)) (\<lambda>matcher t.
       Done (Inr (glob_matches (normalize_limit limit0) matcher (walk_files (max_entries lim) t))) t)"

section \<open>Replacing\<close>

text \<open>\<open>str::replace\<close>: every match from the left, without overlaps.\<close>

fun replace_skip :: "nat \<Rightarrow> string \<Rightarrow> string \<Rightarrow> string \<Rightarrow> string" where
  "replace_skip n pat new [] = []"
| "replace_skip (Suc n) pat new (c # cs) = replace_skip n pat new cs"
| "replace_skip 0 pat new (c # cs) =
     (if starts_with (c # cs) pat then new @ replace_skip (length pat - 1) pat new cs
      else c # replace_skip 0 pat new cs)"

definition str_replace :: "string \<Rightarrow> string \<Rightarrow> string \<Rightarrow> string" where
  "str_replace s pat new = replace_skip 0 pat new s"

text \<open>The names of the temporary files of a batch, one for each write in turn.\<close>

type_synonym names = "nat \<Rightarrow> string"

text \<open>Rolling back, in reverse order; a failure on the way is reported as such.\<close>

primrec restore_originals :: "limits \<Rightarrow> names \<Rightarrow> nat \<Rightarrow> (string \<times> string) list \<Rightarrow> tool_error \<Rightarrow> 'a ws" where
  "restore_originals lim nm i [] e = throw e"
| "restore_originals lim nm i (x # xs) e =
     catchw (write_file lim (nm i) (fst x) (snd x)) (\<lambda>r. case r of
        Inl _ \<Rightarrow> throw (Sdk ''rollback_failed'')
      | Inr _ \<Rightarrow> restore_originals lim nm (Suc i) xs e)"

primrec changed_paths :: "limits \<Rightarrow> string \<Rightarrow> string list \<Rightarrow> string list ws" where
  "changed_paths lim pat [] = pass []"
| "changed_paths lim pat (raw # raws) =
     bindw (lift_result (parse_virtual_path raw)) (\<lambda>v.
     bindw (read_file lim v) (\<lambda>content.
     bindw (changed_paths lim pat raws) (\<lambda>vs.
     pass (if str_contains content pat then v # vs else vs))))"

text \<open>The writing loop; \<open>olds\<close> are the originals so far, the last one first.\<close>

primrec replace_loop ::
    "limits \<Rightarrow> names \<Rightarrow> nat \<Rightarrow> string \<Rightarrow> string \<Rightarrow> string list \<Rightarrow> (string \<times> string) list \<Rightarrow> unit ws" where
  "replace_loop lim nm i pat new [] olds = pass ()"
| "replace_loop lim nm i pat new (v # vs) olds =
     bindw (read_file lim v) (\<lambda>content.
     if \<not> str_contains content pat then restore_originals lim nm i olds (Sdk ''edit_conflict'')
     else catchw (write_file lim (nm i) v (str_replace content pat new)) (\<lambda>r. case r of
        Inl e \<Rightarrow> restore_originals lim nm (Suc i) olds e
      | Inr _ \<Rightarrow> replace_loop lim nm (Suc i) pat new vs ((v, content) # olds)))"

definition replace_in_files ::
    "limits \<Rightarrow> regex \<Rightarrow> names \<Rightarrow> string \<Rightarrow> string \<Rightarrow> string \<Rightarrow> bool \<Rightarrow> string list ws" where
  "replace_in_files lim rx nm pattern search replace dry_run =
     (if search = [] then throw (InvalidParam ''search'')
      else bindw (glob lim rx pattern (max_entries lim)) (\<lambda>(matches, truncated).
        if truncated then throw (Sdk ''response_too_large'')
        else bindw (changed_paths lim search matches) (\<lambda>changed.
          if dry_run then pass changed
          else bindw (replace_loop lim nm 0 search replace changed []) (\<lambda>_. pass changed))))"

section \<open>Edit plans\<close>

record file_edit =
  fe_path :: string
  fe_search :: string
  fe_replace :: string

text \<open>How a plan is stored: its JSON text, and the identifier, the digest of that text in hexadecimal.\<close>

record plan_codec =
  pc_encode :: "file_edit list \<Rightarrow> string"
  pc_decode :: "string \<Rightarrow> file_edit list option"
  pc_plan_id :: "string \<Rightarrow> string"

definition normalize_edit :: "file_edit \<Rightarrow> tool_error + file_edit" where
  "normalize_edit edit =
     (if fe_search edit = [] then Inl (InvalidParam ''search'')
      else and_then (parse_virtual_path (fe_path edit)) (\<lambda>v. Inr (edit\<lparr>fe_path := v\<rparr>)))"

definition normalize_edits :: "file_edit list \<Rightarrow> tool_error + file_edit list" where
  "normalize_edits edits =
     (if edits = [] then Inl (InvalidParam ''edits'') else collect_results (map normalize_edit edits))"

definition plan_path :: "string \<Rightarrow> path" where
  "plan_path plan_id = [''.labby-state'', ''plans'', plan_id @ ''.json'']"

text \<open>The removal of a file that broke the quota; it always ends with an error.\<close>

definition cleanup_file_after_quota_error :: "path \<Rightarrow> tool_error \<Rightarrow> unit ws" where
  "cleanup_file_after_quota_error p original =
     (\<lambda>t. case remove_file p t of
        OsOk t' \<Rightarrow> Done (Inl original) t'
      | OsErr ENotFound \<Rightarrow> Done (Inl original) t
      | OsErr EOther \<Rightarrow> Done (Inl (Sdk ''quota_cleanup_failed'')) t
      | Outside \<Rightarrow> Escaped)"

definition enforce_or_cleanup :: "limits \<Rightarrow> path \<Rightarrow> unit ws" where
  "enforce_or_cleanup lim p =
     catchw (enforce_total_limits lim) (\<lambda>r. case r of
       Inl e \<Rightarrow> cleanup_file_after_quota_error p e | Inr _ \<Rightarrow> pass ())"

definition plan_edits :: "limits \<Rightarrow> plan_codec \<Rightarrow> file_edit list \<Rightarrow> (string \<times> file_edit list) ws" where
  "plan_edits lim pc edits0 =
     bindw (lift_result (normalize_edits edits0)) (\<lambda>edits.
     let canonical = pc_encode pc edits; plan_id = pc_plan_id pc canonical; p = plan_path plan_id in
     bindw (check_entry_quota_for_path lim (butlast p)) (\<lambda>_.
     bindw (change internal_io (create_dir_all (butlast p))) (\<lambda>_.
     bindw (check_entry_quota_for_path lim p) (\<lambda>_.
     bindw (change internal_io (write_bytes p canonical)) (\<lambda>_.
     bindw (enforce_or_cleanup lim p) (\<lambda>_.
     pass (plan_id, edits)))))))"

definition validate_plan_id :: "string \<Rightarrow> tool_error + unit" where
  "validate_plan_id plan_id =
     (if length plan_id = 64 \<and> list_all is_ascii_hexdigit plan_id then Inr ()
      else Inl (InvalidParam ''planId''))"

text \<open>First all edits are computed from what the files hold, then the results are written.\<close>

primrec plan_writes :: "limits \<Rightarrow> file_edit list \<Rightarrow> (string \<times> string \<times> string) list ws" where
  "plan_writes lim [] = pass []"
| "plan_writes lim (edit # edits) =
     bindw (lift_result (parse_virtual_path (fe_path edit))) (\<lambda>v.
     bindw (read_file lim v) (\<lambda>original.
     if \<not> str_contains original (fe_search edit) then throw (Sdk ''edit_conflict'')
     else bindw (plan_writes lim edits) (\<lambda>rest.
       pass ((v, original, str_replace original (fe_search edit) (fe_replace edit)) # rest))))"

primrec write_loop ::
    "limits \<Rightarrow> names \<Rightarrow> nat \<Rightarrow> (string \<times> string \<times> string) list \<Rightarrow> (string \<times> string) list \<Rightarrow> unit ws" where
  "write_loop lim nm i [] olds = pass ()"
| "write_loop lim nm i (w # ws) olds =
     catchw (write_file lim (nm i) (fst w) (snd (snd w))) (\<lambda>r. case r of
        Inl e \<Rightarrow> restore_originals lim nm (Suc i) olds e
      | Inr _ \<Rightarrow> write_loop lim nm (Suc i) ws ((fst w, fst (snd w)) # olds))"

definition apply_edit_plan :: "limits \<Rightarrow> plan_codec \<Rightarrow> names \<Rightarrow> string \<Rightarrow> string list ws" where
  "apply_edit_plan lim pc nm plan_id =
     bindw (lift_result (validate_plan_id plan_id)) (\<lambda>_.
     bindw (look not_found_or_internal (\<lambda>t. open_file t (plan_path plan_id))) (\<lambda>e.
     bindw (look internal_io (\<lambda>_. read_bytes e)) (\<lambda>plan.
     bindw (lift_result (ok_or (pc_decode pc plan) (Sdk ''internal_error''))) (\<lambda>edits.
     bindw (plan_writes lim edits) (\<lambda>ws.
     bindw (write_loop lim nm 0 ws []) (\<lambda>_.
     pass (map fst ws)))))))"

section \<open>Archives\<close>

text \<open>\<open>tar\<close> is the archive the \<open>tar\<close> crate makes of named files; a builder that is dropped finishes it.\<close>

definition validate_archive_member_path :: "string \<Rightarrow> tool_error + unit" where
  "validate_archive_member_path m =
     (if trim m = [] \<or> starts_with m ''/'' \<or> has_windows_drive_prefix m then Inl (Sdk ''path_traversal'')
      else if list_all (\<lambda>c. case c of Normal _ \<Rightarrow> True | CurDir \<Rightarrow> True | _ \<Rightarrow> False) (components m) then Inr ()
      else Inl (Sdk ''path_traversal''))"

definition archive_entry_name :: "string \<Rightarrow> string \<Rightarrow> tool_error + string" where
  "archive_entry_name source v =
     and_then (if v = source then ok_or (file_name v) (InvalidParam ''source'')
               else ok_or (Option.bind (strip_prefix source v) (strip_prefix ''/'')) (Sdk ''internal_error''))
       (\<lambda>relative. and_then (validate_archive_member_path relative) (\<lambda>_. Inr relative))"

primrec archive_entries ::
    "string \<Rightarrow> string \<Rightarrow> (string \<times> path) list \<Rightarrow> (string \<times> string) list \<Rightarrow> tree \<Rightarrow>
     (string \<times> string) list \<times> (tool_error + unit) os" where
  "archive_entries source destination [] acc t = (acc, OsOk (Inr ()))"
| "archive_entries source destination (f # vs) acc t =
     (if fst f = destination then archive_entries source destination vs acc t
      else case symlink_metadata t (snd f) of
        Outside \<Rightarrow> (acc, Outside)
      | OsErr e \<Rightarrow> (acc, OsOk (Inl (not_found_or_internal e)))
      | OsOk Link \<Rightarrow> (acc, OsOk (Inl (Sdk ''permission_denied'')))
      | OsOk e \<Rightarrow>
          (case archive_entry_name source (fst f) of
             Inl err \<Rightarrow> (acc, OsOk (Inl err))
           | Inr name \<Rightarrow>
               if name = [] then archive_entries source destination vs acc t
               else (case read_bytes e of
                  OsOk c \<Rightarrow> archive_entries source destination vs (acc @ [(name, c)]) t
                | _ \<Rightarrow> (acc, OsOk (Inl (Sdk ''internal_error''))))))"

definition create_tar_archive ::
    "((string \<times> string) list \<Rightarrow> string) \<Rightarrow> string \<Rightarrow> string \<Rightarrow> (string \<times> path) list \<Rightarrow> unit ws" where
  "create_tar_archive tar source destination files =
     bindw (change internal_io (write_bytes (path_below destination) [])) (\<lambda>_ t.
       case archive_entries source destination files [] t of
         (_, Outside) \<Rightarrow> Escaped
       | (_, OsErr e) \<Rightarrow> Done (Inl (internal_io e)) t
       | (acc, OsOk r) \<Rightarrow> Done r (put (path_below destination) (File (tar acc)) t))"

definition archive_create ::
    "limits \<Rightarrow> ((string \<times> string) list \<Rightarrow> string) \<Rightarrow> string \<Rightarrow> string \<Rightarrow> unit ws" where
  "archive_create lim tar source destination =
     (if \<not> ends_with destination ''.tar'' then throw (InvalidParam ''destination'')
      else let a = path_below source; b = path_below destination in
       bindw (reject_existing_symlink_ancestors a) (\<lambda>_.
       bindw (reject_existing_symlink_ancestors b) (\<lambda>_.
       bindw (reject_existing_symlink_path a) (\<lambda>_.
       bindw (reject_existing_symlink_path b) (\<lambda>_.
       bindw (check_entry_quota_for_path lim b) (\<lambda>_.
       bindw (change internal_io (create_dir_all (butlast b))) (\<lambda>_.
       bindw (look not_found_or_internal (\<lambda>t. metadata t a)) (\<lambda>e.
       bindw (case e of
           File _ \<Rightarrow> pass [(source, a)]
         | Dir \<Rightarrow> bindw (walk_tree source (max_entries lim)) (\<lambda>(entries, truncated).
             if truncated then throw (Sdk ''response_too_large'')
             else pass (map (\<lambda>w. (we_path w, we_host w)) (filter (\<lambda>w. we_kind w = ''file'') entries)))
         | Link \<Rightarrow> throw (Sdk ''permission_denied'')) (\<lambda>files.
       bindw (create_tar_archive tar source destination files) (\<lambda>_.
       enforce_or_cleanup lim b))))))))))"

end
