(* ===== verification/Workspace_Dispatch.thy ===== *)
theory Workspace_Dispatch
  imports Workspace_Edits Json
begin

text \<open>
  The remaining reads of the workspace (searching, JSON, digests, archives; \<open>state/workspace.rs\<close>)
  and the dispatch of a script's calls (\<open>state/provider.rs\<close>).
\<close>

section \<open>Libraries\<close>

text \<open>
  What the workspace uses of other crates: \<open>serde_json\<close> (\<open>js_parse\<close>, \<open>js_print\<close> with the choice of the
  pretty form, \<open>js_matches\<close> for the size of a search result), \<open>sha2\<close> with \<open>hex\<close>, and \<open>tar\<close>: the archive
  of named files, and the paths of an archive, where \<open>None\<close> is a read error.
\<close>

record search_match =
  sm_path :: string
  sm_line :: nat
  sm_text :: string

record library =
  lib_regex :: regex
  lib_codec :: plan_codec
  lib_tar :: "(string \<times> string) list \<Rightarrow> string"
  lib_untar :: "string \<Rightarrow> string option list option"
  js_parse :: "string \<Rightarrow> json option"
  js_print :: "bool \<Rightarrow> json \<Rightarrow> string"
  js_matches :: "search_match list \<Rightarrow> string"
  sha256_hex :: "string \<Rightarrow> string"

section \<open>JSON and digests\<close>

definition read_json :: "limits \<Rightarrow> library \<Rightarrow> string \<Rightarrow> json ws" where
  "read_json lim lib v =
     bindw (read_file lim v) (\<lambda>content. lift_result (ok_or (js_parse lib content) (InvalidParam ''path'')))"

definition write_json :: "limits \<Rightarrow> library \<Rightarrow> string \<Rightarrow> string \<Rightarrow> json \<Rightarrow> bool \<Rightarrow> unit ws" where
  "write_json lim lib name v val pretty = write_file lim name v (js_print lib pretty val @ [CHR 0x0A])"

definition hash_file :: "limits \<Rightarrow> library \<Rightarrow> string \<Rightarrow> string \<Rightarrow> (string \<times> nat) ws" where
  "hash_file lim lib v algorithm =
     (if algorithm \<noteq> ''sha256'' then throw (InvalidParam ''algorithm'')
      else bindw (read_file_bytes lim v) (\<lambda>bytes. pass (sha256_hex lib bytes, length bytes)))"

text \<open>\<open>Path::extension\<close>: what follows the last dot of the file name, if something precedes it.\<close>

definition path_extension :: "string \<Rightarrow> string option" where
  "path_extension v =
     Option.bind (file_name v) (\<lambda>n.
       let parts = split_char (CHR ''.'') n
       in if length parts < 2 \<or> (length parts = 2 \<and> hd parts = []) then None else Some (last parts))"

record detected =
  df_extension :: string
  df_text :: bool
  df_json :: bool
  df_bytes :: nat

definition detect_file :: "limits \<Rightarrow> library \<Rightarrow> string \<Rightarrow> detected ws" where
  "detect_file lim lib v =
     bindw (read_file_bytes lim v) (\<lambda>bytes.
     let ext = (case path_extension v of Some e \<Rightarrow> to_ascii_lowercase e | None \<Rightarrow> []) in
     pass \<lparr>df_extension = ext, df_text = (from_utf8 bytes \<noteq> None),
           df_json = (ext = ''json'' \<or> js_parse lib bytes \<noteq> None), df_bytes = length bytes\<rparr>)"

section \<open>Listing archives\<close>

definition rel_to_unix_string :: "string \<Rightarrow> string" where
  "rel_to_unix_string path = join ''/'' (map as_os_str (components path))"

fun list_tar_archive ::
    "nat \<Rightarrow> string option list \<Rightarrow> string list \<Rightarrow> tool_error + string list \<times> bool" where
  "list_tar_archive limit [] acc = Inr (sort acc, False)"
| "list_tar_archive limit (None # es) acc = Inl (Sdk ''internal_error'')"
| "list_tar_archive limit (Some path # es) acc =
     and_then (validate_archive_member_path (rel_to_unix_string path)) (\<lambda>_.
       let acc' = acc @ [rel_to_unix_string path]
       in if length acc' > limit then Inr (take limit (sort acc'), True)
          else list_tar_archive limit es acc')"

definition archive_list :: "library \<Rightarrow> string \<Rightarrow> nat \<Rightarrow> (string list \<times> bool) ws" where
  "archive_list lib v limit0 =
     (let p = path_below v in
       bindw (guard_path p) (\<lambda>_.
       bindw (look not_found_or_internal (\<lambda>t. open_file t p)) (\<lambda>e.
       bindw (look internal_io (\<lambda>_. read_bytes e)) (\<lambda>bytes.
       bindw (lift_result (ok_or (lib_untar lib bytes) (Sdk ''internal_error''))) (\<lambda>es.
       lift_result (list_tar_archive (normalize_limit limit0) es []))))))"

section \<open>Searching\<close>

text \<open>\<open>str::lines\<close>: a final line break adds no line, and a carriage return before a break is dropped.\<close>

definition str_lines :: "string \<Rightarrow> string list" where
  "str_lines s =
     (let parts = split_char (CHR 0x0A) s; ls = (if last parts = [] then butlast parts else parts)
      in map (\<lambda>i. let l = ls ! i in
               if i + 1 < length parts \<and> l \<noteq> [] \<and> last l = CHR 0x0D then butlast l else l) [0..<length ls])"

text \<open>The first \<open>n\<close> characters of a text in UTF-8: a character ends before the next byte that starts one.\<close>

fun take_chars :: "nat \<Rightarrow> string \<Rightarrow> string" where
  "take_chars n [] = []"
| "take_chars n (c # cs) =
     (if cont (byte c) then c # take_chars n cs
      else case n of 0 \<Rightarrow> [] | Suc m \<Rightarrow> c # take_chars m cs)"

definition cap_line_preview :: "string \<Rightarrow> string" where
  "cap_line_preview line = take_chars 512 line"

text \<open>The matches in one file; the loop ends early with the list cut to the limit.\<close>

fun search_lines ::
    "limits \<Rightarrow> library \<Rightarrow> nat \<Rightarrow> string \<Rightarrow> string \<Rightarrow> nat \<Rightarrow> string list \<Rightarrow> search_match list \<Rightarrow>
     tool_error + search_match list \<times> bool" where
  "search_lines lim lib limit path query i [] acc = Inr (acc, False)"
| "search_lines lim lib limit path query i (line # ls) acc =
     (if str_contains line query then
        let acc' = acc @ [\<lparr>sm_path = path, sm_line = i + 1, sm_text = cap_line_preview line\<rparr>]
        in if length acc' > limit then Inr (take limit acc', True)
           else if length (js_matches lib acc') > max_result_bytes lim then Inl (Sdk ''response_too_large'')
           else search_lines lim lib limit path query (i + 1) ls acc'
      else search_lines lim lib limit path query (i + 1) ls acc)"

primrec search_loop ::
    "limits \<Rightarrow> library \<Rightarrow> nat \<Rightarrow> string \<Rightarrow> string list \<Rightarrow> bool \<Rightarrow> search_match list \<Rightarrow> (search_match list \<times> bool) ws" where
  "search_loop lim lib limit query [] truncated acc = pass (acc, truncated)"
| "search_loop lim lib limit query (raw # raws) truncated acc =
     bindw (lift_result (parse_virtual_path raw)) (\<lambda>v.
     bindw (read_file lim v) (\<lambda>content.
     bindw (lift_result (search_lines lim lib limit raw query 0 (str_lines content) acc)) (\<lambda>(acc', stop).
     if stop then pass (acc', True) else search_loop lim lib limit query raws truncated acc')))"

definition search_files :: "limits \<Rightarrow> library \<Rightarrow> string \<Rightarrow> string \<Rightarrow> nat \<Rightarrow> (search_match list \<times> bool) ws" where
  "search_files lim lib pattern query limit0 =
     (if query = [] then throw (InvalidParam ''query'')
      else bindw (glob lim (lib_regex lib) pattern (max_entries lim)) (\<lambda>(matches, truncated).
        search_loop lim lib (normalize_limit limit0) query matches truncated []))"

section \<open>Calls of a script\<close>

text \<open>A call with its parameters; a limit and \<open>dryRun\<close> may be left out, and a missing \<open>recursive\<close> or \<open>pretty\<close> is false.\<close>

datatype state_call =
    ReadFile string
  | WriteFile string string
  | AppendFile string string
  | Exists string
  | Stat string
  | Mkdir string
  | Rm string bool
  | Cp string string
  | Mv string string
  | WalkTree string "nat option"
  | ReadJson string
  | WriteJson string json bool
  | HashFile string string
  | DetectFile string
  | ArchiveCreate string string
  | ArchiveList string "nat option"
  | ListDir string
  | Glob string "nat option"
  | SearchFiles string string "nat option"
  | ReplaceInFiles string string string "bool option"
  | PlanEdits "file_edit list"
  | ApplyEditPlan string
  | UnknownMethod string

datatype state_reply =
    RUnit | RText string | RBool bool | RStat "string \<times> nat option" | RNames "string list"
  | RWalk "walk_entry list \<times> bool" | RGlob "string list \<times> bool" | RPlan "string \<times> file_edit list"
  | RJson json | RHash "string \<times> nat" | RDetected detected | RMatches "search_match list \<times> bool"

definition default_search_limit :: nat where
  "default_search_limit = 200"

definition unwrap_or :: "'a option \<Rightarrow> 'a \<Rightarrow> 'a" where
  "unwrap_or x d = (case x of Some a \<Rightarrow> a | None \<Rightarrow> d)"

definition mapw :: "('a \<Rightarrow> 'b) \<Rightarrow> 'a ws \<Rightarrow> 'b ws" where
  "mapw f m = bindw m (\<lambda>a. pass (f a))"

definition with_path :: "string \<Rightarrow> (string \<Rightarrow> 'a ws) \<Rightarrow> 'a ws" where
  "with_path raw f = bindw (lift_result (parse_virtual_path raw)) f"

definition with_scope :: "string \<Rightarrow> (string \<Rightarrow> 'a ws) \<Rightarrow> 'a ws" where
  "with_scope raw f = bindw (lift_result (parse_read_scope raw)) f"

primrec dispatch_state_method :: "limits \<Rightarrow> library \<Rightarrow> names \<Rightarrow> state_call \<Rightarrow> state_reply ws" where
  "dispatch_state_method lim lib nm (ReadFile raw) = with_path raw (\<lambda>v. mapw RText (read_file lim v))"
| "dispatch_state_method lim lib nm (WriteFile raw content) =
     with_path raw (\<lambda>v. mapw (\<lambda>_. RUnit) (write_file lim (nm 0) v content))"
| "dispatch_state_method lim lib nm (AppendFile raw content) =
     with_path raw (\<lambda>v. mapw (\<lambda>_. RUnit) (append_file lim (nm 0) v content))"
| "dispatch_state_method lim lib nm (Exists raw) = with_path raw (\<lambda>v. mapw RBool (path_exists v))"
| "dispatch_state_method lim lib nm (Stat raw) = with_path raw (\<lambda>v. mapw RStat (stat_path v))"
| "dispatch_state_method lim lib nm (Mkdir raw) = with_path raw (\<lambda>v. mapw (\<lambda>_. RUnit) (mkdir lim v))"
| "dispatch_state_method lim lib nm (Rm raw recursive) = with_path raw (\<lambda>v. mapw (\<lambda>_. RUnit) (remove v recursive))"
| "dispatch_state_method lim lib nm (Cp from to) =
     with_path from (\<lambda>a. with_path to (\<lambda>b. mapw (\<lambda>_. RUnit) (copy_file lim (nm 0) a b)))"
| "dispatch_state_method lim lib nm (Mv from to) =
     with_path from (\<lambda>a. with_path to (\<lambda>b. mapw (\<lambda>_. RUnit) (move_path lim a b)))"
| "dispatch_state_method lim lib nm (WalkTree raw limit) =
     with_scope raw (\<lambda>v. mapw RWalk (walk_tree v (unwrap_or limit default_search_limit)))"
| "dispatch_state_method lim lib nm (ReadJson raw) = with_path raw (\<lambda>v. mapw RJson (read_json lim lib v))"
| "dispatch_state_method lim lib nm (WriteJson raw val pretty) =
     with_path raw (\<lambda>v. mapw (\<lambda>_. RUnit) (write_json lim lib (nm 0) v val pretty))"
| "dispatch_state_method lim lib nm (HashFile raw algorithm) =
     with_path raw (\<lambda>v. mapw RHash (hash_file lim lib v algorithm))"
| "dispatch_state_method lim lib nm (DetectFile raw) = with_path raw (\<lambda>v. mapw RDetected (detect_file lim lib v))"
| "dispatch_state_method lim lib nm (ArchiveCreate source destination) =
     with_path source (\<lambda>a. with_path destination (\<lambda>b.
       mapw (\<lambda>_. RUnit) (archive_create lim (lib_tar lib) a b)))"
| "dispatch_state_method lim lib nm (ArchiveList raw limit) =
     with_scope raw (\<lambda>v. mapw RGlob (archive_list lib v (unwrap_or limit default_search_limit)))"
| "dispatch_state_method lim lib nm (ListDir raw) = with_scope raw (\<lambda>v. mapw RNames (list_dir lim v))"
| "dispatch_state_method lim lib nm (Glob pattern limit) =
     mapw RGlob (glob lim (lib_regex lib) pattern (unwrap_or limit default_search_limit))"
| "dispatch_state_method lim lib nm (SearchFiles pattern query limit) =
     mapw RMatches (search_files lim lib pattern query (unwrap_or limit default_search_limit))"
| "dispatch_state_method lim lib nm (ReplaceInFiles pattern search replace dry_run) =
     mapw RNames (replace_in_files lim (lib_regex lib) nm pattern search replace (unwrap_or dry_run True))"
| "dispatch_state_method lim lib nm (PlanEdits edits) = mapw RPlan (plan_edits lim (lib_codec lib) edits)"
| "dispatch_state_method lim lib nm (ApplyEditPlan plan_id) =
     mapw RNames (apply_edit_plan lim (lib_codec lib) nm plan_id)"
| "dispatch_state_method lim lib nm (UnknownMethod other) = throw (Sdk ''unknown_tool'')"

end
