(* ===== verification/Workspace_Theorems.thy ===== *)
theory Workspace_Theorems
  imports Workspace_Logic Workspace_Dispatch
begin

text \<open>
  What the workspace guarantees for any sequence of calls: nothing outside the tree is touched,
  the quota holds, writes change one file, and failed batches are rolled back.
\<close>

section \<open>Operations that only read\<close>

definition reads :: "'a ws \<Rightarrow> bool" where
  "reads m = (\<forall>t. tree_ok t \<longrightarrow> wp m (\<lambda>_ t'. t' = t) t)"

lemma reads_simple:
  "reads (pass a)" "reads (throw e)" "reads (lift_result r)" "reads (look err (\<lambda>_. read_bytes x))"
  by (auto simp: reads_def read_bytes_def split: entry.split)

lemma reads_bindw: "reads m \<Longrightarrow> (\<And>a. reads (f a)) \<Longrightarrow> reads (bindw m f)"
  unfolding reads_def by (auto elim!: wp_mono split: sum.split)

lemma reads_mapw: "reads m \<Longrightarrow> reads (mapw f m)"
  unfolding mapw_def by (intro reads_bindw reads_simple)

lemma reads_at:
  assumes "\<And>t. tree_ok t \<Longrightarrow> clear t p \<Longrightarrow> g t \<noteq> Outside" and "\<And>a. reads (f a)"
  shows "reads (bindw (guard_path p) (\<lambda>_. bindw (look err g) f))"
  unfolding reads_def
proof (intro allI impI)
  fix t assume t: "tree_ok t"
  show "wp (bindw (guard_path p) (\<lambda>_. bindw (look err g) f)) (\<lambda>_ t'. t' = t) t"
  proof (subst wp_bindw, rule guard [OF t], unfold sum.case, goal_cases)
    case 2
    from assms(1) [OF t 2] assms(2) t show ?case by (auto simp: reads_def split: os.split)
  qed (rule refl)
qed

lemma metadata_inside: "tree_ok t \<Longrightarrow> clear t p \<Longrightarrow> metadata t p \<noteq> Outside"
  by (metis metadata_cases os.distinct(1,3))

lemma reads_file: "reads (read_file lim v)" "reads (read_file_bytes lim v)"
  unfolding read_file_def read_file_bytes_def Let_def open_file_def
  by (rule reads_at; auto intro!: reads_bindw reads_simple dest: metadata_inside split: option.split)+

lemma reads_queries: "reads (path_exists v)" "reads (stat_path v)" "reads (list_dir lim v)" "reads (walk_tree v n)"
proof -
  show "reads (path_exists v)"
    unfolding reads_def path_exists_def Let_def
  proof (intro allI impI)
    fix t assume t: "tree_ok t"
    show "wp (bindw (guard_path (path_below v)) (\<lambda>_ t. case metadata t (path_below v) of
        Outside \<Rightarrow> Escaped | OsErr ENotFound \<Rightarrow> Done (Inr False) t
      | OsErr EOther \<Rightarrow> Done (Inl (Sdk ''internal_error'')) t | OsOk _ \<Rightarrow> Done (Inr True) t)) (\<lambda>_ t'. t' = t) t"
    proof (subst wp_bindw, rule guard [OF t], unfold sum.case, goal_cases)
      case 2
      with metadata_inside [OF t] show ?case by (auto simp: wp_def split: os.split io_error.split)
    qed (rule refl)
  qed
  show "reads (stat_path v)" "reads (list_dir lim v)" "reads (walk_tree v n)"
    unfolding stat_path_def list_dir_def walk_tree_def Let_def
    by (rule reads_at; force intro!: reads_simple dest: metadata_inside split: os.splits entry.splits)+
qed

lemma reads_glob: "reads (glob lim rx pattern n)"
  unfolding glob_def by (rule reads_bindw [OF reads_simple(3)]) (simp add: reads_def wp_def)

lemma reads_changed: "reads (changed_paths lim pat raws)"
  by (induction raws) (auto intro!: reads_bindw reads_simple reads_file)

lemma reads_plan: "reads (plan_writes lim edits)"
  by (induction edits) (auto intro!: reads_bindw reads_simple reads_file)

lemma reads_content: "reads (read_json lim lib v)" "reads (hash_file lim lib v algorithm)" "reads (detect_file lim lib v)"
  unfolding read_json_def hash_file_def detect_file_def Let_def
  by (auto intro!: reads_bindw reads_simple reads_file)

lemma reads_archive_list: "reads (archive_list lib v n)"
  unfolding archive_list_def Let_def open_file_def
  by (rule reads_at; auto intro!: reads_bindw reads_simple dest: metadata_inside)

lemma reads_search: "reads (search_files lim lib pattern query n)"
proof -
  have "reads (search_loop lim lib limit query raws truncated acc)" for limit raws truncated acc
    by (induction raws arbitrary: acc) (auto intro!: reads_bindw reads_simple reads_file)
  then show ?thesis
    unfolding search_files_def by (auto intro!: reads_bindw reads_glob reads_simple)
qed

section \<open>Operations that keep the invariant\<close>

definition safe :: "bool \<Rightarrow> limits \<Rightarrow> 'a ws \<Rightarrow> bool" where
  "safe b lim m = (\<forall>t. ws_ok b lim t \<longrightarrow> wp m (\<lambda>_. ws_ok b lim) t)"

lemma safe_reads: "reads m \<Longrightarrow> safe b lim m"
  by (auto simp: reads_def safe_def ws_ok_def elim!: wp_mono)

lemma safe_bindw: "safe b lim m \<Longrightarrow> (\<And>a. safe b lim (f a)) \<Longrightarrow> safe b lim (bindw m f)"
  unfolding safe_def by (auto elim!: wp_mono split: sum.split)

lemma safe_catchw: "safe b lim m \<Longrightarrow> (\<And>r. safe b lim (f r)) \<Longrightarrow> safe b lim (catchw m f)"
  unfolding safe_def by (auto elim!: wp_mono)

lemma safe_mapw: "safe b lim m \<Longrightarrow> safe b lim (mapw f m)"
  unfolding mapw_def by (erule safe_bindw) (rule safe_reads [OF reads_simple(1)])

lemma safe_write: "limits_ok lim \<Longrightarrow> virtual_ok v \<Longrightarrow> safe b lim (write_file lim name v c)"
  unfolding safe_def using write_file [of lim b _ v name c] by (fastforce simp: wrote_def elim!: wp_mono)

lemma safe_append_copy:
  assumes "limits_ok lim" and "virtual_ok v"
  shows "safe b lim (append_file lim name v c)" "safe b lim (copy_file lim name u v)"
proof -
  have "safe b lim (catchw (read_file lim v) (\<lambda>r. case r of
      Inr existing \<Rightarrow> pass existing | Inl e \<Rightarrow> if tool_error_kind e = ''not_found'' then pass [] else throw e))"
    by (rule safe_catchw [OF safe_reads [OF reads_file(1)]])
      (auto intro!: safe_reads reads_simple split: sum.split)
  then show "safe b lim (append_file lim name v c)"
    unfolding append_file_def by (rule safe_bindw) (rule safe_write [OF assms])
  show "safe b lim (copy_file lim name u v)"
    unfolding copy_file_def by (rule safe_bindw [OF safe_reads [OF reads_file(1)]]) (rule safe_write [OF assms])
qed

lemma guarded:
  assumes "\<And>t. ws_ok b lim t \<Longrightarrow> clear t p \<Longrightarrow> wp m (\<lambda>_. ws_ok b lim) t"
  shows "safe b lim (bindw (guard_path p) (\<lambda>_. m))"
  unfolding safe_def
proof (intro allI impI)
  fix t assume t: "ws_ok b lim t"
  then have ok: "tree_ok t" by (simp add: ws_ok_def)
  show "wp (bindw (guard_path p) (\<lambda>_. m)) (\<lambda>_. ws_ok b lim) t"
    by (subst wp_bindw, rule guard [OF ok]; unfold sum.case) (rule t, rule assms [OF t])
qed

lemma safe_guard: "safe b lim (guard_path p)"
  unfolding safe_def by (auto intro!: guard simp: ws_ok_def)

text \<open>After \<open>create_dir_all\<close> for which there was room.\<close>

lemma room_dirs:
  assumes ok: "ws_ok b lim t" and room: "tree_entries t + missing_from t [] p \<le> max_entries lim + 3"
    and c: "clear t p" and rest: "\<And>t'. ws_ok b lim t' \<Longrightarrow> node t' p = Some Dir \<Longrightarrow>
      tree_bytes t' = tree_bytes t \<Longrightarrow> tree_entries t' = tree_entries t + missing_from t [] p \<Longrightarrow>
      (\<forall>q. node t' q = node t q \<or> (node t q = None \<and> node t' q = Some Dir \<and> prefix q p)) \<Longrightarrow> Q (Inr ()) t'"
    and err: "\<And>e. Q (Inl e) t"
  shows "wp (change internal_io (create_dir_all p)) Q t"
proof -
  have t: "tree_ok t" "meta_clear t" using ok by (auto simp: ws_ok_def)
  show ?thesis
  proof (rule create_dir_all_ok [where Q = Q and f = internal_io, OF t(1) c err])
    fix t' assume t': "tree_ok t'" "node t' p = Some Dir" "tree_bytes t' = tree_bytes t"
      "tree_entries t' = tree_entries t + missing_from t [] p"
      "\<forall>q. node t' q = node t q \<or> (node t q = None \<and> node t' q = Some Dir \<and> prefix q p)"
    have "ws_ok b lim t'" using t' ok room meta_clear_dirs [OF t(2) t'(5)] by (simp add: ws_ok_def)
    from rest [OF this t'(2-5)] show "Q (Inr ()) t'" .
  qed
qed

lemma room_below: "virtual_ok v \<Longrightarrow> entry_room lim (path_below v) t \<Longrightarrow>
    tree_entries t + missing_from t [] (path_below v) \<le> max_entries lim"
  using virtual_path_below(3) by (simp add: entry_room_def)

lemma missing_butlast: "missing_from t [] (butlast p) \<le> missing_from t [] p"
  by (cases p rule: rev_cases) (auto simp: missing_from_snoc)

lemma safe_mkdir:
  assumes lim: "limits_ok lim" and v: "virtual_ok v"
  shows "safe b lim (mkdir lim v)"
  unfolding mkdir_def Let_def
proof (rule guarded)
  let ?p = "path_below v"
  fix t assume t: "ws_ok b lim t" and c: "clear t ?p"
  have ok: "tree_ok t" using t by (simp add: ws_ok_def)
  have go: "wp (bindw (change internal_io (create_dir_all ?p)) (\<lambda>_. guard_path ?p)) (\<lambda>_. ws_ok b lim) t"
    if "entry_room lim ?p t"
  proof (subst wp_bindw, rule room_dirs [OF t _ c], goal_cases)
    case 1
    show ?case using room_below [OF v that] by simp
  next
    case (2 t')
    show ?case using safe_guard 2(1) by (simp add: safe_def)
  qed (simp add: t)
  show "wp (bindw (check_entry_quota_for_path lim ?p) (\<lambda>_.
      bindw (change internal_io (create_dir_all ?p)) (\<lambda>_. guard_path ?p))) (\<lambda>_. ws_ok b lim) t"
    by (subst wp_bindw, rule check_entry_quota [OF ok disjI1 [OF c] lim]; unfold sum.case) (rule t, erule go)
qed

text \<open>Removal.\<close>

lemma ws_ok_filter:
  assumes "ws_ok b lim t" and "tree_ok (filter (\<lambda>(q, _). P q) t)"
  shows "ws_ok b lim (filter (\<lambda>(q, _). P q) t)"
  using assms sizes_filter [of "\<lambda>(q, _). P q" t]
  by (auto simp: ws_ok_def meta_clear_def node_filter split: if_splits intro: order_trans)

lemma remove_calls:
  assumes t: "ws_ok b lim t" and c: "clear t p" and p: "p \<noteq> []"
  shows "node t p \<noteq> Some Dir \<Longrightarrow> wp (change err (remove_file p)) (\<lambda>_. ws_ok b lim) t"
    and "wp (change err (remove_dir p)) (\<lambda>_. ws_ok b lim) t"
    and "wp (change err (remove_dir_all p)) (\<lambda>_. ws_ok b lim) t"
proof -
  have ok: "tree_ok t" and c': "clear_to t p" using t c by (auto simp: ws_ok_def clear_iff)
  note inside = symlink_metadata_clear [OF c'] and found = symlink_metadata_node [of t p]
  have leaf: "node t q = None" if "node t p \<noteq> Some Dir" "q \<noteq> []" "butlast q = p" for q
    using tree_ok_below [OF ok that(1), of q] that by (metis append_butlast_last_id strict_prefix_snoc prefix_order.refl)
  show "wp (change err (remove_file p)) (\<lambda>_. ws_ok b lim) t" if "node t p \<noteq> Some Dir"
    using inside t ws_ok_filter [OF t tree_ok_remove_leaf [OF ok leaf [OF that]]]
    by (auto simp: remove_file_def split: os.split entry.split)
  show "wp (change err (remove_dir p)) (\<lambda>_. ws_ok b lim) t"
    using inside t ws_ok_filter [OF t tree_ok_remove_leaf [OF ok, of p]] children_none [of t p]
    by (auto simp: remove_dir_def split: os.split entry.split)
  show "wp (change err (remove_dir_all p)) (\<lambda>_. ws_ok b lim) t"
    using inside t ws_ok_filter [OF t tree_ok_remove_below [OF ok]]
    by (auto simp: remove_dir_all_def split: os.split entry.split)
qed

lemma safe_remove:
  assumes v: "virtual_ok v"
  shows "safe b lim (remove v recursive)"
proof -
  let ?p = "path_below v"
  have "safe b lim (bindw (guard_path ?p) (\<lambda>_. bindw (look not_found_or_internal (\<lambda>t. metadata t ?p)) (\<lambda>e.
      case e of
        File _ \<Rightarrow> change internal_io (remove_file ?p)
      | Dir \<Rightarrow> if recursive then change internal_io (remove_dir_all ?p) else change internal_io (remove_dir ?p)
      | Link \<Rightarrow> throw (Sdk ''permission_denied''))))"
  proof (rule guarded)
    fix t assume t: "ws_ok b lim t" and c: "clear t ?p"
    have ok: "tree_ok t" using t by (simp add: ws_ok_def)
    note calls = remove_calls [OF t c virtual_path_below(1) [OF v]]
    show "wp (bindw (look not_found_or_internal (\<lambda>t. metadata t ?p)) (\<lambda>e.
      case e of
        File _ \<Rightarrow> change internal_io (remove_file ?p)
      | Dir \<Rightarrow> if recursive then change internal_io (remove_dir_all ?p) else change internal_io (remove_dir ?p)
      | Link \<Rightarrow> throw (Sdk ''permission_denied''))) (\<lambda>_. ws_ok b lim) t"
    proof (cases rule: metadata_cases [OF ok c])
      case (1 e)
      with t calls show ?thesis by (cases e) (simp_all del: wp_change)
    qed (use t in simp)
  qed
  then show ?thesis
    unfolding remove_def Let_def by (auto intro!: safe_reads reads_simple)
qed

text \<open>Moving.\<close>

lemma meta_not_below: "p \<noteq> [] \<Longrightarrow> p \<notin> meta \<Longrightarrow> q \<in> meta \<Longrightarrow> \<not> prefix p q"
  by (auto simp: meta_def prefix_def Cons_eq_append_conv)

lemma ws_ok_relocate:
  assumes t: "ws_ok b lim t" and mv: "movable t a p" and p: "p \<notin> meta"
  shows "ws_ok b lim (relocate a p t)"
proof -
  have ne: "p \<noteq> []" and ok: "tree_ok t" using mv by (auto simp: movable_def)
  have "node (relocate a p t) q \<noteq> Some Link" if q: "q \<in> meta" for q
  proof -
    have "q \<noteq> []" using q by (auto simp: meta_def)
    from node_relocate [OF mv this] meta_not_below [OF ne p q] t q show ?thesis
      by (auto simp: ws_ok_def meta_clear_def)
  qed
  then have "meta_clear (relocate a p t)" by (simp add: meta_clear_def)
  with t tree_ok_relocate [OF mv] sizes_relocate [OF ok ne, of a] show ?thesis by (auto simp: ws_ok_def)
qed

lemma safe_rename:
  assumes t: "ws_ok b lim t" and c: "clear_to t a" "clear_to t p" and ne: "a \<noteq> []" "p \<noteq> []" "p \<notin> meta"
  shows "wp (change err (rename a p)) (\<lambda>_. ws_ok b lim) t"
proof -
  have ok: "tree_ok t" using t by (simp add: ws_ok_def)
  show ?thesis
    by (cases rule: rename_cases [OF ok c ne(1,2)]) (use t ws_ok_relocate [OF t _ ne(3)] in simp_all)
qed

lemma clear_dirs:
  assumes "clear t p" and "\<forall>q. node t' q = node t q \<or> (node t q = None \<and> node t' q = Some Dir \<and> P q)"
  shows "clear t' p" "clear_to t' p"
proof -
  show "clear t' p" unfolding clear_def using assms by (metis clear_def entry.distinct(5) option.inject)
  then show "clear_to t' p" by (simp add: clear_iff)
qed

text \<open>The checks before a call that takes a source and a destination.\<close>

lemma two_guards:
  assumes t: "ws_ok b lim t" and stop: "\<And>e. Q (Inl e) t" and go: "clear t a \<Longrightarrow> clear t p \<Longrightarrow> wp m Q t"
  shows "wp (bindw (reject_existing_symlink_ancestors a) (\<lambda>_. bindw (reject_existing_symlink_ancestors p) (\<lambda>_.
      bindw (reject_existing_symlink_path a) (\<lambda>_. bindw (reject_existing_symlink_path p) (\<lambda>_. m))))) Q t"
proof -
  have ok: "tree_ok t" using t by (simp add: ws_ok_def)
  show ?thesis
    unfolding wp_bindw
    by (rule reject_ancestors [OF ok]; simp add: stop; rule reject_ancestors [OF ok]; simp add: stop;
        rule reject_path [OF ok]; simp add: stop; rule reject_path [OF ok]; simp add: stop go)
qed

lemma room_parent:
  assumes t: "ws_ok b lim t" and lim: "limits_ok lim" and v: "virtual_ok v" and c: "clear t (path_below v)"
    and stop: "\<And>e. Q (Inl e) t"
    and go: "\<And>t'. ws_ok b lim t' \<Longrightarrow> node t' (butlast (path_below v)) = Some Dir \<Longrightarrow> tree_bytes t' = tree_bytes t \<Longrightarrow>
      tree_entries t' + (if node t' (path_below v) = None then 1 else 0) \<le> max_entries lim \<Longrightarrow>
      (\<forall>q. node t' q = node t q \<or> (node t q = None \<and> node t' q = Some Dir \<and> prefix q (butlast (path_below v)))) \<Longrightarrow>
      wp m Q t'"
  shows "wp (bindw (check_entry_quota_for_path lim (path_below v)) (\<lambda>_.
      bindw (change internal_io (create_dir_all (butlast (path_below v)))) (\<lambda>_. m))) Q t"
proof -
  let ?p = "path_below v"
  have ok: "tree_ok t" using t by (simp add: ws_ok_def)
  have ne: "?p \<noteq> []" using virtual_path_below [OF v] by simp
  have "wp (bindw (change internal_io (create_dir_all (butlast ?p))) (\<lambda>_. m)) Q t" if room: "entry_room lim ?p t"
  proof (subst wp_bindw, rule room_dirs [OF t], goal_cases)
    case 1
    show ?case using room_below [OF v room] missing_butlast [of t ?p] by simp
  next
    case 2
    show ?case using clear_prefix [OF c] by (simp add: prefixeq_butlast)
  next
    case (3 t')
    have "butlast ?p @ [last ?p] = ?p" using ne by simp
    then have "missing_from t [] ?p = missing_from t [] (butlast ?p) + (if node t ?p = None then 1 else 0)"
      by (metis append_Nil missing_from_snoc)
    moreover have "node t' ?p = node t ?p"
      using 3(5) ne by (metis append_butlast_last_id prefix_order.less_le_not_le strict_prefix_snoc)
    ultimately have "tree_entries t' + (if node t' ?p = None then 1 else 0) \<le> max_entries lim"
      using room_below [OF v room] 3(4) by simp
    from go [OF 3(1,2,3) this 3(5)] show ?case by simp
  qed (simp add: stop)
  then show ?thesis
    by (subst wp_bindw) (rule check_entry_quota [OF ok disjI1 [OF c] lim]; simp add: stop)
qed

lemma safe_move:
  assumes lim: "limits_ok lim" and u: "virtual_ok u" and v: "virtual_ok v"
  shows "safe b lim (move_path lim u v)"
  unfolding safe_def move_path_def Let_def
proof (intro allI impI, rule two_guards)
  fix t assume t: "ws_ok b lim t" and c: "clear t (path_below u)" "clear t (path_below v)"
  note p = virtual_path_below [OF v] and ne = virtual_path_below(1) [OF u]
  show "wp (bindw (check_entry_quota_for_path lim (path_below v)) (\<lambda>_.
      bindw (change internal_io (create_dir_all (butlast (path_below v)))) (\<lambda>_.
      change not_found_or_internal (rename (path_below u) (path_below v))))) (\<lambda>_. ws_ok b lim) t"
  proof (rule room_parent [OF t lim v c(2)])
    fix t' assume t': "ws_ok b lim t'"
      and same: "\<forall>q. node t' q = node t q \<or> (node t q = None \<and> node t' q = Some Dir \<and> prefix q (butlast (path_below v)))"
    show "wp (change not_found_or_internal (rename (path_below u) (path_below v))) (\<lambda>_. ws_ok b lim) t'"
      by (rule safe_rename [OF t' clear_dirs(2) [OF c(1) same] clear_dirs(2) [OF c(2) same] ne p(1,2)])
  qed (rule t)
qed

text \<open>A file that is written in place and removed again when it breaks the quota.\<close>

lemma ws_ok_put:
  assumes t: "ws_ok b lim t" and p: "p \<noteq> []" "node t (butlast p) = Some Dir" "node t p \<noteq> Some Dir"
    and room: "b \<longrightarrow> tree_bytes (put p (File c) t) \<le> max_total_bytes lim"
      "tree_entries (put p (File c) t) \<le> max_entries lim + 3"
  shows "ws_ok b lim (put p (File c) t)"
  using t room tree_ok_put [OF _ p] by (auto simp: ws_ok_def meta_clear_def node_put [OF p(1)])

lemma enforce_total_limits:
  assumes "limits_ok lim" and "\<And>e. Q (Inl e) t"
    and "tree_bytes t \<le> max_total_bytes lim \<Longrightarrow> tree_entries t \<le> max_entries lim \<Longrightarrow> Q (Inr ()) t"
  shows "wp (enforce_total_limits lim) Q t"
  using assms by (auto simp: wp_def enforce_total_limits_def usage_bytes_def usage_entries_def limits_ok_def min_def
      split: if_splits)

lemma put_removed: "filter (\<lambda>(q, _). q \<noteq> p) (put p e t) = filter (\<lambda>(q, _). q \<noteq> p) t"
  by (induction t) (auto simp: put_def)

lemma enforce_or_cleanup:
  assumes lim: "limits_ok lim" and t: "ws_ok b lim t"
    and p: "p \<noteq> []" "node t (butlast p) = Some Dir" "node t p \<noteq> Some Dir"
  shows "wp (enforce_or_cleanup lim p) (\<lambda>_. ws_ok b lim) (put p (File c) t)"
proof -
  let ?t = "put p (File c) t"
  have ok: "tree_ok t" using t by (simp add: ws_ok_def)
  have ok': "tree_ok ?t" by (rule tree_ok_put [OF ok p])
  have "symlink_metadata ?t p = OsOk (File c)"
    by (rule symlink_metadata_complete [OF ok']) (simp add: node_put [OF p(1)])
  then have rm: "remove_file p ?t = OsOk (filter (\<lambda>(q, _). q \<noteq> p) t)"
    by (simp add: remove_file_def put_removed)
  have leaf: "node t q = None" if "q \<noteq> []" "butlast q = p" for q
    using tree_ok_below [OF ok p(3), of q] that by (metis append_butlast_last_id strict_prefix_snoc prefix_order.refl)
  have gone: "ws_ok b lim (filter (\<lambda>(q, _). q \<noteq> p) t)"
    by (rule ws_ok_filter [OF t tree_ok_remove_leaf [OF ok leaf]])
  have "wp (cleanup_file_after_quota_error p e) (\<lambda>_. ws_ok b lim) ?t" for e
    using gone by (simp add: wp_def cleanup_file_after_quota_error_def rm)
  then show ?thesis
    unfolding enforce_or_cleanup_def wp_simps
    by (intro enforce_total_limits [OF lim]) (auto intro!: ws_ok_put [OF t p])
qed

lemma write_bytes_at:
  assumes "tree_ok t" and "p \<noteq> []" "node t (butlast p) = Some Dir" "node t p \<noteq> Some Link"
  shows "write_bytes p c t = (if node t p = Some Dir then OsErr EOther else OsOk (put p (File c) t))"
  using assms symlink_metadata_complete [OF assms(1,3)]
  by (auto simp: write_bytes_def parent_dir_def split: option.split entry.split)

lemma plan_path_meta: "plan_path i \<in> meta" "butlast (plan_path i) \<in> meta"
  by (simp_all add: plan_path_def meta_def meta_dir_def)

lemma meta_clear_clear: "meta_clear t \<Longrightarrow> q \<in> meta \<Longrightarrow> clear t q"
  unfolding clear_def meta_clear_def
proof (intro allI impI)
  fix r assume m: "\<forall>q \<in> meta. node t q \<noteq> Some Link" and q: "q \<in> meta" and r: "prefix r q"
  show "node t r \<noteq> Some Link"
    using m q r by (cases q; cases r) (auto simp: meta_def)
qed

lemma reserved_meta: "is_reserved_metadata_path (join ''/'' (''.labby-state'' # x # xs))"
  by (simp add: is_reserved_metadata_path_def split_char_append eq_ignore_ascii_case_def)

lemma plan_stored:
  assumes lim: "limits_ok lim" and t: "ws_ok b lim t" and p: "p = plan_path i" "node t (butlast p) = Some Dir"
  shows "wp (bindw (check_entry_quota_for_path lim p) (\<lambda>_.
      bindw (change internal_io (write_bytes p c)) (\<lambda>_. bindw (enforce_or_cleanup lim p) (\<lambda>_. pass x))))
    (\<lambda>_. ws_ok b lim) t"
proof -
  have ok: "tree_ok t" "meta_clear t" using t by (auto simp: ws_ok_def)
  have ne: "p \<noteq> []" and reserved: "is_reserved_metadata_path (join ''/'' p)"
    unfolding p(1) plan_path_def by (simp, rule reserved_meta)
  have "node t p \<noteq> Some Link" using ok(2) plan_path_meta(1) p(1) by (auto simp: meta_clear_def)
  note wb = write_bytes_at [OF ok(1) ne p(2) this]
  have "wp (bindw (change internal_io (write_bytes p c)) (\<lambda>_. bindw (enforce_or_cleanup lim p) (\<lambda>_. pass x)))
      (\<lambda>_. ws_ok b lim) t"
  proof (cases "node t p = Some Dir")
    case False
    have "wp (bindw (enforce_or_cleanup lim p) (\<lambda>_. pass x)) (\<lambda>_. ws_ok b lim) (put p (File c) t)"
      using enforce_or_cleanup [OF lim t ne p(2) False, of c] by (auto elim!: wp_mono split: sum.split)
    with False wb show ?thesis by (simp del: wp_bindw add: wp_bindw [of "change _ _"])
  qed (use wb t in simp)
  with t show ?thesis
    by (subst wp_bindw) (rule check_entry_quota [OF ok(1) disjI2 [OF reserved] lim]; simp)
qed

lemma safe_plan_edits:
  assumes lim: "limits_ok lim"
  shows "safe b lim (plan_edits lim pc edits0)"
proof -
  have "safe b lim (bindw (check_entry_quota_for_path lim (butlast p)) (\<lambda>_.
     bindw (change internal_io (create_dir_all (butlast p))) (\<lambda>_.
     bindw (check_entry_quota_for_path lim p) (\<lambda>_.
     bindw (change internal_io (write_bytes p c)) (\<lambda>_. bindw (enforce_or_cleanup lim p) (\<lambda>_. pass x))))))"
    (is "safe b lim (bindw _ (\<lambda>_. bindw _ (\<lambda>_. ?rest)))") if p: "p = plan_path i" for p i c and x :: "string \<times> file_edit list"
    unfolding safe_def
  proof (intro allI impI)
    fix t assume t: "ws_ok b lim t"
    then have ok: "tree_ok t" "meta_clear t" by (auto simp: ws_ok_def)
    have reserved: "is_reserved_metadata_path (join ''/'' (butlast p))"
      using p reserved_meta [of "''plans''" "[]"] by (simp add: plan_path_def)
    have dirs: "wp (bindw (change internal_io (create_dir_all (butlast p))) (\<lambda>_. ?rest)) (\<lambda>_. ws_ok b lim) t"
      if room: "entry_room lim (butlast p) t"
    proof (subst wp_bindw, rule room_dirs [OF t], goal_cases)
      case 1
      have "missing_from t [] (butlast p) \<le> 2" using p by (simp add: plan_path_def)
      with room reserved show ?case by (simp add: entry_room_def)
    next
      case 2
      show ?case using meta_clear_clear [OF ok(2) plan_path_meta(2)] p by simp
    next
      case (3 t')
      from plan_stored [OF lim 3(1) p 3(2)] show ?case by simp
    qed (simp add: t)
    then show "wp (bindw (check_entry_quota_for_path lim (butlast p)) (\<lambda>_.
        bindw (change internal_io (create_dir_all (butlast p))) (\<lambda>_. ?rest))) (\<lambda>_. ws_ok b lim) t"
      by (subst wp_bindw) (rule check_entry_quota [OF ok(1) disjI2 [OF reserved] lim]; simp add: t)
  qed
  then show ?thesis
    unfolding plan_edits_def Let_def by (intro safe_bindw [OF safe_reads [OF reads_simple(3)]]) simp
qed

section \<open>Batches\<close>

text \<open>What an operation returns when it succeeds.\<close>

definition yields :: "('a \<Rightarrow> bool) \<Rightarrow> 'a ws \<Rightarrow> bool" where
  "yields P m = (\<forall>t a t'. m t = Done (Inr a) t' \<longrightarrow> P a)"

lemma yields_simple:
  "P a \<Longrightarrow> yields P (pass a)" "yields P (throw e)" "(\<And>a. r = Inr a \<Longrightarrow> P a) \<Longrightarrow> yields P (lift_result r)"
  by (simp_all add: yields_def pass_def throw_def lift_result_def)

lemma yields_bindw:
  assumes "yields P m" and "\<And>a. P a \<Longrightarrow> yields R (f a)"
  shows "yields R (bindw m f)"
  using assms unfolding yields_def bindw_def by (fastforce split: outcome.splits sum.splits)

lemma yields_any: "yields (\<lambda>_. True) m"
  by (simp add: yields_def)

lemma safe_bindw_yields:
  assumes "safe b lim m" and "yields P m" and "\<And>a. P a \<Longrightarrow> safe b lim (f a)"
  shows "safe b lim (bindw m f)"
  unfolding safe_def
proof (intro allI impI)
  fix t assume t: "ws_ok b lim t"
  then have "wp m (\<lambda>_. ws_ok b lim) t" using assms(1) by (simp add: safe_def)
  moreover have "P a" if "m t = Done (Inr a) t'" for a t' using assms(2) that unfolding yields_def by blast
  ultimately show "wp (bindw m f) (\<lambda>_. ws_ok b lim) t"
    using assms(3) unfolding wp_bindw safe_def by (auto simp: wp_def split: outcome.splits sum.splits)
qed

lemma parsed: "yields virtual_ok (lift_result (parse_virtual_path raw))"
  by (rule yields_simple) (rule parse_virtual_ok)

lemma changed_paths_ok: "yields (list_all virtual_ok) (changed_paths lim pat raws)"
proof (induction raws)
  case (Cons raw raws)
  then show ?case
    unfolding changed_paths.simps
    by (intro yields_bindw [OF parsed] yields_bindw [OF yields_any] yields_bindw [OF Cons.IH] yields_simple) simp
qed (simp add: yields_simple)

lemma plan_writes_ok: "yields (list_all (\<lambda>w. virtual_ok (fst w))) (plan_writes lim edits)"
proof (induction edits)
  case (Cons edit edits)
  have "yields (list_all (\<lambda>w. virtual_ok (fst w))) (bindw (plan_writes lim edits) (\<lambda>ws. pass ((v, x) # ws)))"
    if "virtual_ok v" for v x
    by (rule yields_bindw [OF Cons.IH]) (rule yields_simple, simp add: that)
  then show ?case
    unfolding plan_writes.simps
    by (intro yields_bindw [OF parsed] yields_bindw [OF yields_any]) (simp add: yields_simple Let_def)
qed (simp add: yields_simple)

lemma safe_restore:
  "limits_ok lim \<Longrightarrow> list_all (\<lambda>x. virtual_ok (fst x)) olds \<Longrightarrow> safe b lim (restore_originals lim nm i olds e)"
  by (induction olds arbitrary: i)
    (auto intro!: safe_catchw safe_write safe_reads [OF reads_simple(2)] split: sum.split)

lemma safe_write_loop:
  "limits_ok lim \<Longrightarrow> list_all (\<lambda>w. virtual_ok (fst w)) ws \<Longrightarrow> list_all (\<lambda>x. virtual_ok (fst x)) olds \<Longrightarrow>
   safe b lim (write_loop lim nm i ws olds)"
  by (induction ws arbitrary: i olds)
    (auto intro!: safe_catchw safe_write safe_restore safe_reads [OF reads_simple(1)] split: sum.split)

lemma safe_replace_loop:
  "limits_ok lim \<Longrightarrow> list_all virtual_ok vs \<Longrightarrow> list_all (\<lambda>x. virtual_ok (fst x)) olds \<Longrightarrow>
   safe b lim (replace_loop lim nm i pat new vs olds)"
  by (induction vs arbitrary: i olds)
    (auto intro!: safe_bindw [OF safe_reads [OF reads_file(1)]] safe_catchw safe_write safe_restore
      safe_reads [OF reads_simple(1)] split: sum.split)

lemma safe_replace_in_files:
  assumes lim: "limits_ok lim"
  shows "safe b lim (replace_in_files lim rx nm pattern search new dry_run)"
proof -
  have "safe b lim (bindw (changed_paths lim search matches) (\<lambda>changed.
      if dry_run then pass changed
      else bindw (replace_loop lim nm 0 search new changed []) (\<lambda>_. pass changed)))" for matches
    by (rule safe_bindw_yields [OF safe_reads [OF reads_changed] changed_paths_ok])
      (auto intro!: safe_reads [OF reads_simple(1)] safe_bindw [OF safe_replace_loop [OF lim]])
  then show ?thesis
    unfolding replace_in_files_def
    by (auto intro!: safe_reads [OF reads_simple(2)] safe_bindw [OF safe_reads [OF reads_glob]] split: prod.split)
qed

lemma stored_plan_inside:
  assumes "ws_ok b lim t" shows "metadata t (plan_path i) \<noteq> Outside"
proof -
  have "tree_ok t" "meta_clear t" using assms by (auto simp: ws_ok_def)
  then show ?thesis using metadata_inside meta_clear_clear plan_path_meta(1) by blast
qed

lemma safe_apply_edit_plan:
  assumes lim: "limits_ok lim"
  shows "safe b lim (apply_edit_plan lim pc nm plan_id)"
proof -
  have look: "safe b lim (look not_found_or_internal (\<lambda>t. open_file t (plan_path plan_id)))"
    unfolding safe_def using stored_plan_inside [of b lim] by (auto simp: open_file_def split: os.split)
  have "safe b lim (bindw (plan_writes lim edits) (\<lambda>ws. bindw (write_loop lim nm 0 ws []) (\<lambda>_. pass (map fst ws))))"
    for edits
    by (rule safe_bindw_yields [OF safe_reads [OF reads_plan] plan_writes_ok])
      (auto intro!: safe_reads [OF reads_simple(1)] safe_bindw [OF safe_write_loop [OF lim]])
  then show ?thesis
    unfolding apply_edit_plan_def
    by (intro safe_bindw [OF safe_reads [OF reads_simple(3)]] safe_bindw [OF look]
        safe_bindw [OF safe_reads [OF reads_simple(4)]])
qed

section \<open>Archives\<close>

lemma visit_mem: "(q, e) \<in> set (visit t stack) \<Longrightarrow> node t q = Some e"
  by (induction t stack rule: visit.induct) (auto simp: Let_def dest: dir_entries_mem)

lemma walk_loop_mem:
  "walk_loop limit es acc = Inr (ws, trunc) \<Longrightarrow> w \<in> set ws \<Longrightarrow> \<exists>e. (we_host w, e) \<in> set (acc @ es)"
proof (induction limit es acc rule: walk_loop.induct)
  case (1 limit acc)
  then show ?case by (force simp: walk_entry_of_def)
next
  case (2 limit q e es acc)
  show ?case
  proof (cases "e = Link \<or> Suc (length acc) > limit")
    case True
    with 2(2,3) show ?thesis
      by (fastforce simp: Let_def walk_entry_of_def dest!: in_set_takeD split: if_splits)
  next
    case False
    with 2 show ?thesis by (auto simp: Let_def)
  qed
qed

lemma walk_tree_hosts:
  assumes t: "tree_ok t"
  shows "wp (walk_tree v n) (\<lambda>r t'. t' = t \<and> (\<forall>ws trunc. r = Inr (ws, trunc) \<longrightarrow> (\<forall>w \<in> set ws. node t (we_host w) \<noteq> None))) t"
  unfolding walk_tree_def Let_def
proof (subst wp_bindw, rule guard [OF t], unfold sum.case, goal_cases)
  case 2
  have "node t (we_host w) \<noteq> None" if "walk_loop l (visit t ds) [] = Inr (ws, trunc)" "w \<in> set ws" for l ds ws trunc w
    using walk_loop_mem [OF that] visit_mem by fastforce
  then have walked: "\<forall>ws trunc. walk_loop l (visit t ds) [] = Inr (ws, trunc) \<longrightarrow> (\<forall>w \<in> set ws. node t (we_host w) \<noteq> None)"
    for l ds by blast
  show ?case
  proof (cases rule: metadata_cases [OF t 2])
    case (1 e)
    with walked [of _ "[path_below v]"] show ?thesis by (cases e) (simp_all del: visit.simps)
  qed simp
qed simp

lemma archive_entries_inside:
  assumes "tree_ok t" and "\<forall>f \<in> set files. node t (snd f) \<noteq> None"
  shows "\<exists>acc' r. archive_entries source dest files acc t = (acc', OsOk r)"
  using assms(2)
proof (induction files arbitrary: acc)
  case (Cons f files)
  from Cons.prems obtain e where "node t (snd f) = Some e" by auto
  with assms(1) have "symlink_metadata t (snd f) = OsOk e" by (rule symlink_metadata_complete)
  with Cons show ?case by (auto split: entry.split sum.split os.split)
qed simp

lemma put_put: "put p e (put p e' t) = put p e t"
  unfolding put_def [of p e] by (simp add: put_removed)

text \<open>An archive that succeeds respects the quota; one that fails keeps only the limit of entries.\<close>

lemma archive_written:
  assumes lim: "limits_ok lim" and t: "ws_ok b lim t" and v: "virtual_ok v" and c: "clear t (path_below v)"
    and par: "node t (butlast (path_below v)) = Some Dir"
    and room: "tree_entries t + (if node t (path_below v) = None then 1 else 0) \<le> max_entries lim"
    and files: "\<forall>f \<in> set files. node t (snd f) \<noteq> None"
  shows "wp (bindw (create_tar_archive tar source v files) (\<lambda>_. enforce_or_cleanup lim (path_below v)))
    (\<lambda>r. ws_ok (b \<and> r = Inr ()) lim) t"
proof -
  let ?p = "path_below v"
  have ok: "tree_ok t" using t by (simp add: ws_ok_def)
  note ne = virtual_path_below(1) [OF v]
  have link: "node t ?p \<noteq> Some Link" using c by (simp add: clear_iff)
  have weak: "ws_ok b' lim t \<Longrightarrow> ws_ok (b' \<and> x) lim t" for b' x t by (simp add: ws_ok_def)
  note wb = write_bytes_at [OF ok ne par link, of "[]"]
  show ?thesis
  proof (cases "node t ?p = Some Dir")
    case True
    with wb t show ?thesis by (simp add: create_tar_archive_def ws_ok_def)
  next
    case False
    let ?t = "put ?p (File []) t"
    have ok': "tree_ok ?t" by (rule tree_ok_put [OF ok ne par False])
    have "\<forall>f \<in> set files. node ?t (snd f) \<noteq> None" using files by (auto simp: node_put [OF ne])
    from archive_entries_inside [OF ok' this, of source v "[]"] obtain acc r
      where entries: "archive_entries source v files [] ?t = (acc, OsOk r)" by blast
    let ?t' = "put ?p (File (tar acc)) t"
    have made: "create_tar_archive tar source v files t = Done r ?t'"
      using wb False entries by (simp add: create_tar_archive_def bindw_def change_def put_put)
    have "ws_ok False lim t" using t by (simp add: ws_ok_def)
    moreover have "tree_entries ?t' \<le> max_entries lim + 3"
      using sizes_put(2) [OF ok ne, of "File (tar acc)"] room by (auto simp: node_count_def split: option.splits if_splits)
    ultimately have failed: "ws_ok False lim ?t'" by (intro ws_ok_put [OF _ ne par False]) auto
    show ?thesis
    proof (cases r)
      case (Inl e)
      with made failed show ?thesis by (simp add: wp_def bindw_def)
    next
      case (Inr u)
      with made enforce_or_cleanup [OF lim t ne par False, of "tar acc"] weak show ?thesis
        by (auto simp: wp_def bindw_def split: outcome.splits)
    qed
  qed
qed

lemma archive_files:
  assumes t: "tree_ok t" and e: "node t a = Some e" "e \<noteq> Link"
  shows "wp (case e of
      File _ \<Rightarrow> pass [(source, a)]
    | Dir \<Rightarrow> bindw (walk_tree source n) (\<lambda>(entries, truncated).
        if truncated then throw (Sdk ''response_too_large'')
        else pass (map (\<lambda>w. (we_path w, we_host w)) (filter (\<lambda>w. we_kind w = ''file'') entries)))
    | Link \<Rightarrow> throw (Sdk ''permission_denied''))
    (\<lambda>r t'. t' = t \<and> (\<forall>files. r = Inr files \<longrightarrow> (\<forall>f \<in> set files. node t (snd f) \<noteq> None))) t"
proof (cases e)
  case Dir
  show ?thesis
    unfolding Dir entry.case wp_bindw
    by (rule wp_mono [OF walk_tree_hosts [OF t]]) (auto split: sum.split)
qed (use e in auto)

lemma archive_create_ok:
  assumes lim: "limits_ok lim" and u: "virtual_ok u" and v: "virtual_ok v" and t: "ws_ok b lim t"
  shows "wp (archive_create lim tar u v) (\<lambda>r. ws_ok (b \<and> r = Inr ()) lim) t"
proof (cases "ends_with v ''.tar''")
  case True
  let ?a = "path_below u" and ?p = "path_below v"
  let ?Q = "\<lambda>r. ws_ok (b \<and> r = Inr ()) lim"
  have stop: "?Q (Inl e) t'" if "ws_ok b lim t'" for e t' using that by (simp add: ws_ok_def)
  have rest: "wp (bindw (look not_found_or_internal (\<lambda>t. metadata t ?a)) (\<lambda>e. bindw (case e of
           File _ \<Rightarrow> pass [(u, ?a)]
         | Dir \<Rightarrow> bindw (walk_tree u (max_entries lim)) (\<lambda>(entries, truncated).
             if truncated then throw (Sdk ''response_too_large'')
             else pass (map (\<lambda>w. (we_path w, we_host w)) (filter (\<lambda>w. we_kind w = ''file'') entries)))
         | Link \<Rightarrow> throw (Sdk ''permission_denied'')) (\<lambda>files.
       bindw (create_tar_archive tar u v files) (\<lambda>_. enforce_or_cleanup lim ?p)))) ?Q t'"
    (is "wp ?rest _ _") if t': "ws_ok b lim t'" and c: "clear t' ?a" "clear t' ?p" and par: "node t' (butlast ?p) = Some Dir"
      and room: "tree_entries t' + (if node t' ?p = None then 1 else 0) \<le> max_entries lim" for t'
  proof -
    have ok: "tree_ok t'" using t' by (simp add: ws_ok_def)
    show ?thesis
    proof (cases rule: metadata_cases [OF ok c(1)])
      case (1 e)
      show ?thesis
        unfolding wp_bindw [of "look _ _"] wp_look 1 os.case sum.case wp_bindw [of "case_entry _ _ _ _"]
        by (rule wp_mono [OF archive_files [OF ok 1(1,3)]])
          (use archive_written [OF lim t' v c(2) par room] stop [OF t'] in \<open>auto simp del: wp_bindw split: sum.split\<close>)
    next
      case (2 err)
      with stop [OF t'] show ?thesis by simp
    qed
  qed
  have tail: "wp (bindw (check_entry_quota_for_path lim ?p) (\<lambda>_.
      bindw (change internal_io (create_dir_all (butlast ?p))) (\<lambda>_. ?rest))) ?Q t"
    if c: "clear t ?a" "clear t ?p"
  proof (rule room_parent [OF t lim v c(2)])
    fix t' assume "ws_ok b lim t'" "node t' (butlast ?p) = Some Dir"
      "tree_entries t' + (if node t' ?p = None then 1 else 0) \<le> max_entries lim"
      "\<forall>q. node t' q = node t q \<or> (node t q = None \<and> node t' q = Some Dir \<and> prefix q (butlast ?p))"
    with rest [OF this(1) _ _ this(2,3)] clear_dirs(1) [OF c(1) this(4)] clear_dirs(1) [OF c(2) this(4)]
    show "wp ?rest ?Q t'" by blast
  qed (rule stop [OF t])
  have "wp (bindw (reject_existing_symlink_ancestors ?a) (\<lambda>_. bindw (reject_existing_symlink_ancestors ?p) (\<lambda>_.
      bindw (reject_existing_symlink_path ?a) (\<lambda>_. bindw (reject_existing_symlink_path ?p) (\<lambda>_.
      bindw (check_entry_quota_for_path lim ?p) (\<lambda>_.
      bindw (change internal_io (create_dir_all (butlast ?p))) (\<lambda>_. ?rest))))))) ?Q t"
    by (rule two_guards [where Q = ?Q, OF t]) (rule stop [OF t], erule (1) tail)
  with True show ?thesis by (simp only: archive_create_def Let_def not_True_eq_False if_False)
qed (use t in \<open>simp add: archive_create_def ws_ok_def\<close>)

section \<open>Calls\<close>

text \<open>Every call but \<open>archiveCreate\<close> keeps the whole quota.\<close>

definition makes_archive :: "state_call \<Rightarrow> bool" where
  "makes_archive call = (case call of ArchiveCreate _ _ \<Rightarrow> True | _ \<Rightarrow> False)"

lemma safe_with_path: "(\<And>v. virtual_ok v \<Longrightarrow> safe b lim (f v)) \<Longrightarrow> safe b lim (with_path raw f)"
  unfolding with_path_def by (rule safe_bindw_yields [OF safe_reads [OF reads_simple(3)] parsed])

lemma safe_with_scope: "(\<And>v. safe b lim (f v)) \<Longrightarrow> safe b lim (with_scope raw f)"
  unfolding with_scope_def by (rule safe_bindw [OF safe_reads [OF reads_simple(3)]])

lemma dispatch_safe:
  assumes "limits_ok lim" and "b \<longrightarrow> \<not> makes_archive call"
  shows "safe b lim (dispatch_state_method lim lib nm call)"
proof (cases call)
  case (ArchiveCreate u v)
  have "safe False lim (archive_create lim (lib_tar lib) x y)" if "virtual_ok x" "virtual_ok y" for x y
    unfolding safe_def using archive_create_ok [OF assms(1) that, of False] by (auto elim!: wp_mono)
  with ArchiveCreate assms(2) show ?thesis by (auto simp: makes_archive_def intro!: safe_with_path safe_mapw)
qed (auto simp: write_json_def intro!: safe_with_path safe_with_scope safe_mapw safe_write [OF assms(1)] safe_append_copy [OF assms(1)]
    safe_mkdir [OF assms(1)] safe_remove safe_move [OF assms(1)] safe_plan_edits [OF assms(1)]
    safe_apply_edit_plan [OF assms(1)] safe_replace_in_files [OF assms(1)]
    safe_reads [OF reads_file(1)] safe_reads [OF reads_file(2)] safe_reads [OF reads_queries(1)]
    safe_reads [OF reads_queries(2)] safe_reads [OF reads_queries(3)] safe_reads [OF reads_queries(4)]
    safe_reads [OF reads_glob] safe_reads [OF reads_content(1)] safe_reads [OF reads_content(2)]
    safe_reads [OF reads_content(3)] safe_reads [OF reads_archive_list] safe_reads [OF reads_search]
    safe_reads [OF reads_simple(2)])

end
