(* ===== verification/Workspace_Batches.thy ===== *)
theory Workspace_Batches
  imports Workspace_Theorems
begin

text \<open>
  What one call and a sequence of calls of the workspace guarantee: confinement and quota, the
  round trip of a write, and the rollback of edit plans.
\<close>

section \<open>Sequences of calls\<close>

text \<open>The calls a script makes, one after the other, each with its temporary names; an error is an answer.\<close>

primrec run_calls ::
    "limits \<Rightarrow> library \<Rightarrow> (names \<times> state_call) list \<Rightarrow> (tool_error + state_reply) list ws" where
  "run_calls lim lib [] = pass []"
| "run_calls lim lib (x # xs) =
     catchw (dispatch_state_method lim lib (fst x) (snd x)) (\<lambda>r.
     bindw (run_calls lim lib xs) (\<lambda>rs. pass (r # rs)))"

definition archived :: "names \<times> state_call \<Rightarrow> tool_error + state_reply \<Rightarrow> bool" where
  "archived x r = (makes_archive (snd x) \<longrightarrow> \<not> isl r)"

lemma ws_ok_weaken: "ws_ok b lim t \<Longrightarrow> (b' \<Longrightarrow> b) \<Longrightarrow> ws_ok b' lim t"
  by (auto simp: ws_ok_def)

lemma wp_with_path:
  assumes "ws_ok b lim t" and "\<And>e. Q (Inl e) t" and "\<And>v. virtual_ok v \<Longrightarrow> wp (f v) Q t"
  shows "wp (with_path raw f) Q t"
  using assms parse_virtual_ok [of raw] by (auto simp: with_path_def split: sum.split)

lemma wp_mapw: "wp (mapw f m) Q t = wp m (\<lambda>r. case r of Inl e \<Rightarrow> Q (Inl e) | Inr a \<Rightarrow> Q (Inr (f a))) t"
  by (auto simp: mapw_def wp_def bindw_def pass_def split: outcome.split sum.split)

lemma dispatch_quota:
  assumes lim: "limits_ok lim" and t: "ws_ok b lim t"
  shows "wp (dispatch_state_method lim lib nm call) (\<lambda>r. ws_ok (b \<and> archived (nm, call) r) lim) t"
proof (cases "makes_archive call")
  case False
  then have "safe b lim (dispatch_state_method lim lib nm call)" by (intro dispatch_safe [OF lim]) simp
  with t show ?thesis by (auto simp: safe_def intro: wp_mono ws_ok_weaken)
next
  case True
  then obtain x y where call: "call = ArchiveCreate x y" by (cases call) (auto simp: makes_archive_def)
  have "wp (mapw (\<lambda>_. RUnit) (archive_create lim (lib_tar lib) u v)) (\<lambda>r. ws_ok (b \<and> archived (nm, call) r) lim) t"
    if "virtual_ok u" "virtual_ok v" for u v
    unfolding wp_mapw
    by (rule wp_mono [OF archive_create_ok [OF lim that t]]) (auto simp: archived_def ws_ok_def call makes_archive_def split: sum.split)
  with t show ?thesis
    by (auto simp: call intro!: wp_with_path [OF t] ws_ok_weaken [OF t])
qed

lemma run_calls_quota:
  assumes lim: "limits_ok lim" and t: "ws_ok b lim t"
  shows "wp (run_calls lim lib xs) (\<lambda>r t'. \<exists>rs. r = Inr rs \<and> ws_ok (b \<and> list_all2 archived xs rs) lim t') t"
  using t
proof (induction xs arbitrary: b t)
  case Nil
  then show ?case by (auto intro: ws_ok_weaken)
next
  case (Cons x xs)
  show ?case
    unfolding run_calls.simps wp_simps
    by (rule wp_mono [OF dispatch_quota [OF lim Cons.prems]])
      (auto intro!: wp_mono [OF Cons.IH] intro: ws_ok_weaken)
qed

text \<open>
  C13. Confinement and quota. Whatever a script calls, in any order and number, on a tree with
  links anywhere but in the metadata: no call follows a link, every call returns, the tree stays
  a tree, at most three entries over the limit exist, and the limit of bytes holds as long as no
  \<open>archiveCreate\<close> has failed.
\<close>

theorem workspace_confined:
  assumes "limits_ok lim" and "tree_ok t" and "meta_clear t" and "tree_entries t \<le> max_entries lim + 3"
    and "tree_bytes t \<le> max_total_bytes lim"
  shows "\<exists>rs t'. run_calls lim lib xs t = Done (Inr rs) t' \<and> length rs = length xs \<and> tree_ok t' \<and> meta_clear t'
    \<and> tree_entries t' \<le> max_entries lim + 3
    \<and> (list_all2 archived xs rs \<longrightarrow> tree_bytes t' \<le> max_total_bytes lim)"
proof -
  have len: "run_calls lim lib xs t = Done (Inr rs) t' \<Longrightarrow> length rs = length xs" for rs t t'
    by (induction xs arbitrary: rs t) (auto simp: catchw_def bindw_def pass_def split: outcome.splits sum.splits)
  from assms have "ws_ok True lim t" by (simp add: ws_ok_def)
  from run_calls_quota [OF assms(1) this, of lib xs] len show ?thesis
    by (auto simp: wp_def ws_ok_def split: outcome.splits)
qed

definition demo_library :: library where
  "demo_library = \<lparr>lib_regex = \<lparr>rx_new = (\<lambda>_. Some (\<lambda>_. True)), rx_escape = (\<lambda>c. [c])\<rparr>,
     lib_codec = \<lparr>pc_encode = (\<lambda>es. concat (map fe_path es)), pc_decode = (\<lambda>_. None), pc_plan_id = (\<lambda>_. replicate 64 (CHR ''a''))\<rparr>,
     lib_tar = (\<lambda>fs. concat (map (\<lambda>f. fst f @ snd f) fs)), lib_untar = (\<lambda>_. None),
     js_parse = (\<lambda>s. Some (JString s)), js_print = (\<lambda>_ _. ''null''), js_matches = (\<lambda>_. []), sha256_hex = (\<lambda>s. s)\<rparr>"

definition demo_tree :: tree where
  "demo_tree = [([''link''], Link), ([''src''], Dir), ([''src'', ''a''], File ''old'')]"

lemma default_limits_ok: "limits_ok default_limits"
  by (simp add: limits_ok_def default_limits_def u64_max_def)

lemma demo_tree_ok: "tree_ok demo_tree" "meta_clear demo_tree" "tree_entries demo_tree = 2" "tree_bytes demo_tree = 3"
  by (auto simp: tree_ok_def demo_tree_def node_def meta_clear_def meta_def meta_dir_def)

theorem workspace_confined_witness:
  "\<exists>rs t'. run_calls default_limits demo_library
      [(\<lambda>_. ''n'', WriteFile ''link/x'' ''y''), (\<lambda>_. ''m'', Rm ''src'' True), (\<lambda>_. ''k'', ArchiveCreate ''src'' ''a.tar'')]
      demo_tree = Done (Inr rs) t' \<and> length rs = 3 \<and> tree_ok t' \<and> tree_entries t' \<le> 10003"
  using workspace_confined [OF default_limits_ok demo_tree_ok(1,2), of demo_library
      "[(\<lambda>_. ''n'', WriteFile ''link/x'' ''y''), (\<lambda>_. ''m'', Rm ''src'' True), (\<lambda>_. ''k'', ArchiveCreate ''src'' ''a.tar'')]"]
    demo_tree_ok(3,4)
  by (fastforce simp: default_limits_def)

section \<open>Reading what was written\<close>

definition readable :: "limits \<Rightarrow> tree \<Rightarrow> path \<Rightarrow> string \<Rightarrow> bool" where
  "readable lim t p c =
     (node t p = Some (File c) \<and> length c \<le> max_result_bytes lim \<and> from_utf8 c = Some c)"

lemma read_file_result:
  assumes t: "tree_ok t"
  shows "wp (read_file lim v) (\<lambda>r t'. t' = t \<and> (\<forall>c. r = Inr c \<longrightarrow> readable lim t (path_below v) c)) t"
  unfolding read_file_def Let_def
proof (subst wp_bindw, rule guard [OF t], unfold sum.case, goal_cases)
  case 2
  have "take (n + 1) bs = bs" if "length (take (n + 1) bs) \<le> n" for n and bs :: string using that by auto
  then show ?case
    by (cases rule: metadata_cases [OF t 2])
      (auto simp: readable_def open_file_def read_bytes_def from_utf8_def not_less split: option.splits entry.split os.split)
qed simp

lemma read_file_exact:
  assumes t: "tree_ok t" and p: "path_below v \<noteq> []" and c: "readable lim t (path_below v) c"
  shows "read_file lim v t = Done (Inr c) t"
proof -
  have f: "node t (path_below v) = Some (File c)" using c by (simp add: readable_def)
  let ?p = "path_below v"
  have "clear t ?p"
    unfolding clear_def using f tree_ok_above [OF t f]
    by (metis entry.distinct(3,5) option.inject strict_prefix_def)
  from guard_passes [OF t this tree_ok_parent [OF t f]] have "guard_path ?p t = Done (Inr ()) t" .
  moreover have "metadata t ?p = OsOk (File c)"
    using symlink_metadata_complete [OF t f] by (simp add: metadata_def)
  ultimately show ?thesis
    using c by (simp add: readable_def read_file_def Let_def bindw_def look_def open_file_def read_bytes_def pass_def)
qed

text \<open>
  C39. A write and the read after it. When \<open>writeFile\<close> answers, \<open>readFile\<close> of the same name returns
  the text, if it fits an answer, and the tree has changed nowhere else but in the metadata and
  by directories for the new file. When it fails, no visible file has changed.
\<close>

theorem write_read_round_trip:
  assumes "limits_ok lim" and "tree_ok t" and "meta_clear t" and "tree_entries t \<le> max_entries lim + 3"
    and "parse_virtual_path raw = Inr v" and "from_utf8 content = Some content"
  shows "case dispatch_state_method lim lib nm (WriteFile raw content) t of
      Escaped \<Rightarrow> False
    | Done (Inl e) t' \<Rightarrow> frame meta t t'
    | Done (Inr reply) t' \<Rightarrow>
        frame ({path_below v} \<union> meta) t t'
        \<and> (length content \<le> max_result_bytes lim \<longrightarrow>
           dispatch_state_method lim lib nm' (ReadFile raw) t' = Done (Inr (RText content)) t')"
proof -
  note v = parse_virtual_ok [OF assms(5)]
  have "ws_ok False lim t" using assms(2-4) by (simp add: ws_ok_def)
  note w = write_file [OF assms(1) this v, of "nm 0" content]
  have "wp (dispatch_state_method lim lib nm (WriteFile raw content)) (\<lambda>r t'. case r of
      Inl e \<Rightarrow> frame meta t t'
    | Inr _ \<Rightarrow> ws_ok False lim t' \<and> frame ({path_below v} \<union> meta) t t' \<and> node t' (path_below v) = Some (File content)) t"
    using w by (auto simp: with_path_def assms(5) wp_mapw wrote_def elim!: wp_mono split: sum.split)
  moreover have "dispatch_state_method lim lib nm' (ReadFile raw) t' = Done (Inr (RText content)) t'"
    if "ws_ok False lim t'" "node t' (path_below v) = Some (File content)" "length content \<le> max_result_bytes lim" for t'
    using read_file_exact [of t' v lim content] that virtual_path_below(1) [OF v] assms(5,6)
    by (simp add: ws_ok_def readable_def with_path_def mapw_def bindw_def lift_result_def pass_def)
  ultimately show ?thesis by (auto simp: wp_def split: outcome.splits sum.splits)
qed

section \<open>Rolling back\<close>

type_synonym texts = "(string \<times> string) list"

definition paths_of :: "texts \<Rightarrow> path set" where
  "paths_of xs = path_below ` fst ` set xs"

text \<open>The text first recorded for a path.\<close>

definition first_text :: "texts \<Rightarrow> path \<Rightarrow> string option" where
  "first_text xs p = map_of (rev (map (\<lambda>x. (path_below (fst x), snd x)) xs)) p"

definition recorded :: "tree \<Rightarrow> texts \<Rightarrow> tree \<Rightarrow> bool" where
  "recorded t olds t1 =
     (list_all (\<lambda>x. virtual_ok (fst x)) olds \<and> frame (paths_of olds \<union> meta) t t1
      \<and> (\<forall>p c. first_text olds p = Some c \<longrightarrow> node t p = Some (File c)))"

lemma first_text_Cons: "first_text (x # xs) p = (case first_text xs p of None \<Rightarrow> if p = path_below (fst x) then Some (snd x) else None | Some c \<Rightarrow> Some c)"
  by (auto simp: first_text_def map_add_def split: option.split)

lemma first_text_None: "first_text xs p = None \<longleftrightarrow> p \<notin> paths_of xs"
  by (force simp: first_text_def paths_of_def map_of_eq_None_iff)

lemma paths_of_Cons [simp]: "paths_of (x # xs) = insert (path_below (fst x)) (paths_of xs)" "paths_of [] = {}"
  by (simp_all add: paths_of_def)

lemma path_below_inj: "virtual_ok u \<Longrightarrow> virtual_ok v \<Longrightarrow> path_below u = path_below v \<Longrightarrow> u = v"
  by (metis join_split_char path_below_def virtual_path_below(1))

lemma recorded_frame: "recorded t olds t1 \<Longrightarrow> frame S t1 t2 \<Longrightarrow> frame (paths_of olds \<union> meta \<union> S) t t2"
  unfolding recorded_def by (blast intro: frame_trans)

lemma recorded_undo:
  assumes r: "recorded t (x # xs) t1" and w: "frame ({path_below (fst x)} \<union> meta) t1 t2"
    "node t2 (path_below (fst x)) = Some (File (snd x))"
  shows "recorded t xs t2"
proof -
  have "frame (paths_of xs \<union> meta) t t2"
    unfolding frame_def
  proof (intro allI impI)
    fix q assume q: "q \<notin> paths_of xs \<union> meta"
    show "node t2 q = node t q \<or> (node t q = None \<and> node t2 q = Some Dir)"
    proof (cases "q = path_below (fst x)")
      case True
      with q have "first_text (x # xs) q = Some (snd x)" using first_text_None [of xs q] by (simp add: first_text_Cons)
      with r w(2) True show ?thesis by (simp add: recorded_def)
    next
      case False
      have "frame (paths_of (x # xs) \<union> meta \<union> ({path_below (fst x)} \<union> meta)) t t2"
        by (rule recorded_frame [OF r w(1)])
      with False q show ?thesis by (auto simp: frame_def)
    qed
  qed
  with r show ?thesis by (auto simp: recorded_def first_text_Cons split: option.splits)
qed

lemma restore_originals:
  assumes lim: "limits_ok lim" and t1: "ws_ok b lim t1" and r: "recorded t olds t1"
  shows "wp (restore_originals lim nm i olds e)
    (\<lambda>r t'. r = Inl (Sdk ''rollback_failed'') \<or> (r = Inl e \<and> frame meta t t')) t1"
  using t1 r
proof (induction olds arbitrary: i t1)
  case Nil
  then show ?case by (simp add: recorded_def)
next
  case (Cons x xs)
  have "virtual_ok (fst x)" using Cons.prems(2) by (simp add: recorded_def)
  note w = write_file [OF lim Cons.prems(1) this, of "nm i" "snd x"]
  show ?case
    unfolding restore_originals.simps wp_simps
  proof (rule wp_mono [OF w], goal_cases)
    case (1 r t2)
    show ?case
    proof (cases r)
      case (Inr u)
      with 1 have "ws_ok b lim t2" "frame ({path_below (fst x)} \<union> meta) t1 t2" "node t2 (path_below (fst x)) = Some (File (snd x))"
        by (auto simp: wrote_def)
      from Cons.IH [OF this(1) recorded_undo [OF Cons.prems(2) this(2,3)]] Inr show ?thesis by simp
    qed simp
  qed
qed

lemma recorded_add:
  assumes r: "recorded t olds t1" and v: "virtual_ok v" and w: "frame ({path_below v} \<union> meta) t1 t2"
    and c: "path_below v \<notin> paths_of olds \<Longrightarrow> node t (path_below v) = Some (File c)"
  shows "recorded t ((v, c) # olds) t2"
proof -
  have "frame (paths_of olds \<union> meta \<union> ({path_below v} \<union> meta)) t t2"
    by (rule recorded_frame [OF r w])
  then have "frame (paths_of ((v, c) # olds) \<union> meta) t t2" by (rule frame_mono) auto
  moreover have "first_text olds p = None \<longrightarrow> p = path_below v \<longrightarrow> node t p = Some (File c)" for p
    using c first_text_None [of olds p] by auto
  ultimately show ?thesis using r v by (auto simp: recorded_def first_text_Cons split: option.splits)
qed

text \<open>The paths a batch writes, and that the last text for each of them stays.\<close>

definition targets :: "(string \<times> string \<times> string) list \<Rightarrow> path list" where
  "targets ws = map (\<lambda>w. path_below (fst w)) ws"

definition last_written :: "(string \<times> string \<times> string) list \<Rightarrow> tree \<Rightarrow> bool" where
  "last_written ws t =
     (\<forall>i < length ws. targets ws ! i \<notin> set (drop (Suc i) (targets ws)) \<longrightarrow>
        node t (targets ws ! i) = Some (File (snd (snd (ws ! i)))))"

lemma last_written_Cons:
  "last_written (w # ws) t \<longleftrightarrow> last_written ws t
     \<and> (path_below (fst w) \<notin> set (targets ws) \<longrightarrow> node t (path_below (fst w)) = Some (File (snd (snd w))))"
  by (auto simp: last_written_def targets_def less_Suc_eq_0_disj)

lemma write_loop:
  assumes lim: "limits_ok lim" and t1: "ws_ok b lim t1" and r: "recorded t olds t1"
    and ws: "\<forall>w \<in> set ws. virtual_ok (fst w) \<and> node t (path_below (fst w)) = Some (File (fst (snd w)))"
  shows "wp (write_loop lim nm i ws olds) (\<lambda>r t'. case r of
      Inl e \<Rightarrow> e = Sdk ''rollback_failed'' \<or> frame meta t t'
    | Inr _ \<Rightarrow> frame (set (targets ws) \<union> meta) t1 t' \<and> last_written ws t') t1"
  using t1 r ws
proof (induction ws arbitrary: i olds t1)
  case Nil
  then show ?case by (simp add: last_written_def targets_def)
next
  case (Cons w ws)
  let ?p = "path_below (fst w)"
  have v: "virtual_ok (fst w)" and old: "node t ?p = Some (File (fst (snd w)))" using Cons.prems(3) by auto
  note meta = virtual_path_below(2) [OF v]
  show ?case
    unfolding write_loop.simps wp_simps
  proof (rule wp_mono [OF write_file [OF lim Cons.prems(1) v]], goal_cases)
    case (1 r t2)
    show ?case
    proof (cases r)
      case (Inl e)
      with 1 have t2: "ws_ok b lim t2" and f: "frame meta t1 t2" by (auto simp: wrote_def)
      have "frame (paths_of olds \<union> meta \<union> meta) t t2"
        by (rule recorded_frame [OF Cons.prems(2) f])
      then have "recorded t olds t2" using Cons.prems(2) by (simp add: recorded_def Un_assoc)
      from restore_originals [OF lim t2 this, of nm "Suc i" e] Inl show ?thesis
        by (auto elim!: wp_mono split: sum.split)
    next
      case (Inr u)
      with 1 have t2: "ws_ok b lim t2" "frame ({?p} \<union> meta) t1 t2" "node t2 ?p = Some (File (snd (snd w)))"
        by (auto simp: wrote_def)
      have ok: "\<forall>w \<in> set ws. virtual_ok (fst w) \<and> node t (path_below (fst w)) = Some (File (fst (snd w)))"
        using Cons.prems(3) by simp
      have "wp (write_loop lim nm (Suc i) ws ((fst w, fst (snd w)) # olds)) (\<lambda>r t'. case r of
          Inl e \<Rightarrow> e = Sdk ''rollback_failed'' \<or> frame meta t t'
        | Inr _ \<Rightarrow> frame (set (targets (w # ws)) \<union> meta) t1 t' \<and> last_written (w # ws) t') t2"
      proof (rule wp_mono [OF Cons.IH [OF t2(1) recorded_add [OF Cons.prems(2) v t2(2) old] ok]], goal_cases)
        case (1 r t')
        then show ?case
        proof (cases r)
          case (Inr u)
          with 1 have f: "frame (set (targets ws) \<union> meta) t2 t'" and fin: "last_written ws t'" by auto
          have "frame (({?p} \<union> meta) \<union> (set (targets ws) \<union> meta)) t1 t'" by (rule frame_trans [OF t2(2) f])
          then have "frame (set (targets (w # ws)) \<union> meta) t1 t'"
            by (rule frame_mono) (auto simp: targets_def)
          moreover have "node t' ?p = Some (File (snd (snd w)))" if "?p \<notin> set (targets ws)"
            using f t2(3) that meta by (auto simp: frame_def)
          ultimately show ?thesis using Inr fin by (simp add: last_written_Cons)
        qed auto
      qed
      with Inr show ?thesis by simp
    qed
  qed
qed

text \<open>How the texts of a batch come from the edits.\<close>

definition planned :: "tree \<Rightarrow> file_edit \<Rightarrow> string \<times> string \<times> string \<Rightarrow> bool" where
  "planned t edit w =
     (parse_virtual_path (fe_path edit) = Inr (fst w) \<and> node t (path_below (fst w)) = Some (File (fst (snd w)))
      \<and> str_contains (fst (snd w)) (fe_search edit)
      \<and> snd (snd w) = str_replace (fst (snd w)) (fe_search edit) (fe_replace edit))"

lemma plan_writes_result:
  assumes t: "tree_ok t"
  shows "wp (plan_writes lim edits) (\<lambda>r t'. t' = t \<and> (\<forall>ws. r = Inr ws \<longrightarrow> list_all2 (planned t) edits ws)) t"
proof (induction edits)
  case (Cons edit edits)
  have rest: "wp (plan_writes lim edits) (\<lambda>r t'. case r of
      Inl e \<Rightarrow> t' = t | Inr ws \<Rightarrow> t' = t \<and> list_all2 (planned t) edits ws) t"
    using Cons.IH by (rule wp_mono) (auto split: sum.split)
  show ?case
  proof (cases "parse_virtual_path (fe_path edit)")
    case (Inr v)
    show ?thesis
      unfolding plan_writes.simps Inr
      by (simp, rule wp_mono [OF read_file_result [OF t]])
        (use rest Inr in \<open>auto simp: planned_def readable_def elim!: wp_mono split: sum.splits\<close>)
  qed simp
qed simp

lemma planned_nth: "list_all2 (planned t) edits ws \<Longrightarrow> i < length ws \<Longrightarrow> planned t (edits ! i) (ws ! i)"
  by (auto simp: list_all2_conv_all_nth)

lemma planned_ok:
  assumes "list_all2 (planned t) edits ws"
  shows "\<forall>w \<in> set ws. virtual_ok (fst w) \<and> node t (path_below (fst w)) = Some (File (fst (snd w)))"
  using planned_nth [OF assms] parse_virtual_ok by (fastforce simp: planned_def in_set_conv_nth)

lemma planned_names:
  "list_all2 (planned t) edits ws \<Longrightarrow> map (Inr \<circ> fst) ws = map (\<lambda>edit. parse_virtual_path (fe_path edit)) edits"
  by (induction edits ws rule: list_all2_induct) (auto simp: planned_def)

lemma recorded_none: "recorded t [] t"
  by (simp add: recorded_def first_text_def)

lemma planned_last:
  assumes ws: "list_all2 (planned t) edits ws" and fin: "last_written ws t'" and i: "i < length edits"
    and last: "map fst ws ! i \<notin> set (drop (Suc i) (map fst ws))"
  shows "\<exists>c. node t (path_below (map fst ws ! i)) = Some (File c) \<and> str_contains c (fe_search (edits ! i))
    \<and> node t' (path_below (map fst ws ! i)) = Some (File (str_replace c (fe_search (edits ! i)) (fe_replace (edits ! i))))"
proof -
  have len: "length ws = length edits" using ws by (simp add: list_all2_lengthD)
  have ok: "\<forall>w \<in> set ws. virtual_ok (fst w)" using planned_ok [OF ws] by blast
  have "targets ws ! i \<notin> set (drop (Suc i) (targets ws))"
  proof
    assume "targets ws ! i \<in> set (drop (Suc i) (targets ws))"
    then obtain w where w: "w \<in> set (drop (Suc i) ws)" "path_below (fst w) = path_below (fst (ws ! i))"
      using i len by (auto simp: targets_def drop_map)
    then have "fst w = fst (ws ! i)"
      using ok i len by (auto intro!: path_below_inj dest: in_set_dropD)
    moreover have "fst w \<in> set (drop (Suc i) (map fst ws))" using w(1) by (simp add: drop_map)
    ultimately show False using last i len by simp
  qed
  with fin i len have "node t' (path_below (fst (ws ! i))) = Some (File (snd (snd (ws ! i))))"
    by (simp add: last_written_def targets_def)
  with planned_nth [OF ws, of i] i len show ?thesis by (auto simp: planned_def)
qed

text \<open>
  C16. Edit plans are atomic. A plan that is applied either changes exactly the files it names,
  each to what the last edit of the file makes of the text it held before the plan, or it fails
  and every visible file is as before; only the error \<open>rollback_failed\<close> tells of a batch left half
  done. An earlier edit of the same file is lost.
\<close>

theorem apply_edit_plan_atomic:
  assumes "limits_ok lim" and "tree_ok t" and "meta_clear t" and "tree_entries t \<le> max_entries lim + 3"
    and "node t (plan_path plan_id) = Some (File stored)" and "pc_decode pc stored = Some edits"
  shows "case apply_edit_plan lim pc nm plan_id t of
      Escaped \<Rightarrow> False
    | Done (Inl e) t' \<Rightarrow> e = Sdk ''rollback_failed'' \<or> frame meta t t'
    | Done (Inr vs) t' \<Rightarrow>
        map Inr vs = map (\<lambda>edit. parse_virtual_path (fe_path edit)) edits \<and> frame (path_below ` set vs \<union> meta) t t'
        \<and> (\<forall>i < length edits. vs ! i \<notin> set (drop (Suc i) vs) \<longrightarrow>
            (\<exists>c. node t (path_below (vs ! i)) = Some (File c) \<and> str_contains c (fe_search (edits ! i))
              \<and> node t' (path_below (vs ! i))
                = Some (File (str_replace c (fe_search (edits ! i)) (fe_replace (edits ! i))))))"
proof -
  have t: "ws_ok False lim t" using assms(2-4) by (simp add: ws_ok_def)
  have "metadata t (plan_path plan_id) = OsOk (File stored)"
    using symlink_metadata_complete [OF assms(2,5)] by (simp add: metadata_def)
  then have run: "apply_edit_plan lim pc nm plan_id t =
      (case validate_plan_id plan_id of Inl e \<Rightarrow> Done (Inl e) t | Inr _ \<Rightarrow>
        bindw (plan_writes lim edits) (\<lambda>ws. bindw (write_loop lim nm 0 ws []) (\<lambda>_. pass (map fst ws))) t)"
    using assms(6) by (simp add: apply_edit_plan_def bindw_def lift_result_def look_def open_file_def read_bytes_def
        ok_or_def split: sum.split)
  let ?Q = "\<lambda>r t'. case r of
      Inl e \<Rightarrow> e = Sdk ''rollback_failed'' \<or> frame meta t t'
    | Inr vs \<Rightarrow> map Inr vs = map (\<lambda>edit. parse_virtual_path (fe_path edit)) edits \<and> frame (path_below ` set vs \<union> meta) t t'
        \<and> (\<forall>i < length edits. vs ! i \<notin> set (drop (Suc i) vs) \<longrightarrow>
            (\<exists>c. node t (path_below (vs ! i)) = Some (File c) \<and> str_contains c (fe_search (edits ! i))
              \<and> node t' (path_below (vs ! i))
                = Some (File (str_replace c (fe_search (edits ! i)) (fe_replace (edits ! i))))))"
  have "wp (bindw (write_loop lim nm 0 ws []) (\<lambda>_. pass (map fst ws))) ?Q t" if ws: "list_all2 (planned t) edits ws" for ws
    unfolding wp_bindw
    by (rule wp_mono [OF write_loop [OF assms(1) t recorded_none planned_ok [OF ws]]])
      (use planned_names [OF ws] planned_last [OF ws] in \<open>auto split: sum.splits simp: targets_def image_image\<close>)
  then have "wp (bindw (plan_writes lim edits) (\<lambda>ws. bindw (write_loop lim nm 0 ws []) (\<lambda>_. pass (map fst ws)))) ?Q t"
    by (subst wp_bindw, intro wp_mono [OF plan_writes_result [OF assms(2)]]) (auto simp del: wp_bindw split: sum.split)
  with run show ?thesis by (auto simp: wp_def split: sum.split outcome.splits)
qed

section \<open>Replacing\<close>

definition replaceable :: "limits \<Rightarrow> string \<Rightarrow> tree \<Rightarrow> string \<Rightarrow> bool" where
  "replaceable lim pat t v =
     (virtual_ok v \<and> (\<exists>c. readable lim t (path_below v) c \<and> str_contains c pat))"

lemma changed_paths_result:
  assumes t: "tree_ok t"
  shows "wp (changed_paths lim pat raws) (\<lambda>r t'. t' = t \<and> (\<forall>vs. r = Inr vs \<longrightarrow> (\<forall>v \<in> set vs. replaceable lim pat t v))) t"
proof (induction raws)
  case (Cons raw raws)
  have rest: "wp (changed_paths lim pat raws) (\<lambda>r t'. case r of
      Inl e \<Rightarrow> t' = t | Inr vs \<Rightarrow> t' = t \<and> (\<forall>v \<in> set vs. replaceable lim pat t v)) t"
    using Cons.IH by (rule wp_mono) (auto split: sum.split)
  show ?case
  proof (cases "parse_virtual_path raw")
    case (Inr v)
    show ?thesis
      unfolding changed_paths.simps Inr
      by (simp, rule wp_mono [OF read_file_result [OF t]])
        (use rest parse_virtual_ok [OF Inr] in \<open>auto simp: replaceable_def elim!: wp_mono split: sum.splits\<close>)
  qed simp
qed simp

definition replaced :: "string \<Rightarrow> string \<Rightarrow> tree \<Rightarrow> tree \<Rightarrow> string \<Rightarrow> bool" where
  "replaced pat new t t' v =
     (\<exists>c. node t (path_below v) = Some (File c) \<and> str_contains c pat
        \<and> node t' (path_below v) = Some (File (str_replace c pat new)))"

lemma replace_loop:
  assumes lim: "limits_ok lim" and t1: "ws_ok b lim t1" and r: "recorded t olds t1"
    and vs: "\<forall>v \<in> set vs. replaceable lim pat t v \<and> path_below v \<notin> paths_of olds" and d: "distinct vs"
  shows "wp (replace_loop lim nm i pat new vs olds) (\<lambda>r t'. case r of
      Inl e \<Rightarrow> e = Sdk ''rollback_failed'' \<or> frame meta t t'
    | Inr _ \<Rightarrow> frame (path_below ` set vs \<union> meta) t1 t' \<and> (\<forall>v \<in> set vs. replaced pat new t t' v)) t1"
  using t1 r vs d
proof (induction vs arbitrary: i olds t1)
  case (Cons v vs)
  let ?p = "path_below v"
  from Cons.prems(3) obtain c where v: "virtual_ok v" and c: "readable lim t ?p c" "str_contains c pat"
    and new: "?p \<notin> paths_of olds" by (auto simp: replaceable_def)
  have old: "node t ?p = Some (File c)" using c(1) by (simp add: readable_def)
  note p = virtual_path_below(1,2) [OF v]
  have "node t1 ?p = node t ?p" using Cons.prems(2) new p(2) old by (auto simp: recorded_def frame_def)
  then have c1: "readable lim t1 ?p c" using c(1) by (simp add: readable_def)
  have ok: "tree_ok t1" using Cons.prems(1) by (simp add: ws_ok_def)
  note read = read_file_exact [OF ok p(1) c1]
  show ?case
    unfolding replace_loop.simps wp_bindw wp_Done [of "read_file lim v", OF read] sum.case
    using c(2)
  proof (simp, intro wp_mono [OF write_file [OF lim Cons.prems(1) v]], goal_cases)
    case (1 r t2)
    show ?case
    proof (cases r)
      case (Inl e)
      with 1 have t2: "ws_ok b lim t2" and f: "frame meta t1 t2" by (auto simp: wrote_def)
      have "frame (paths_of olds \<union> meta \<union> meta) t t2"
        by (rule recorded_frame [OF Cons.prems(2) f])
      then have "recorded t olds t2" using Cons.prems(2) by (simp add: recorded_def Un_assoc)
      from restore_originals [OF lim t2 this, of nm "Suc i" e] Inl show ?thesis
        by (auto elim!: wp_mono split: sum.split)
    next
      case (Inr u)
      with 1 have t2: "ws_ok b lim t2" "frame ({?p} \<union> meta) t1 t2" "node t2 ?p = Some (File (str_replace c pat new))"
        by (auto simp: wrote_def)
      have away: "?p \<notin> path_below ` set vs"
      proof
        assume "?p \<in> path_below ` set vs"
        then obtain u where "u \<in> set vs" "path_below u = ?p" by auto
        moreover from this Cons.prems(3) have "virtual_ok u" by (auto simp: replaceable_def)
        ultimately show False using path_below_inj [of u v] v Cons.prems(4) by auto
      qed
      then have ok: "\<forall>v' \<in> set vs. replaceable lim pat t v' \<and> path_below v' \<notin> paths_of ((v, c) # olds)"
        using Cons.prems(3) by (metis fst_conv image_eqI insert_iff list.set_intros(2) paths_of_Cons(1))
      have d: "distinct vs" using Cons.prems(4) by simp
      have "wp (replace_loop lim nm (Suc i) pat new vs ((v, c) # olds)) (\<lambda>r t'. case r of
          Inl e \<Rightarrow> e = Sdk ''rollback_failed'' \<or> frame meta t t'
        | Inr _ \<Rightarrow> frame (path_below ` set (v # vs) \<union> meta) t1 t' \<and> (\<forall>v \<in> set (v # vs). replaced pat new t t' v)) t2"
      proof (rule wp_mono [OF Cons.IH [OF t2(1) recorded_add [OF Cons.prems(2) v t2(2) old] ok d]], goal_cases)
        case (1 r t')
        then show ?case
        proof (cases r)
          case (Inr u)
          with 1 have f: "frame (path_below ` set vs \<union> meta) t2 t'" and fin: "\<forall>v \<in> set vs. replaced pat new t t' v" by auto
          have "frame (({?p} \<union> meta) \<union> (path_below ` set vs \<union> meta)) t1 t'" by (rule frame_trans [OF t2(2) f])
          then have "frame (path_below ` set (v # vs) \<union> meta) t1 t'" by (rule frame_mono) auto
          moreover have "node t' ?p = node t2 ?p" using f away p(2) t2(3) by (auto simp: frame_def)
          ultimately show ?thesis using Inr fin old c(2) t2(3) by (auto simp: replaced_def)
        qed auto
      qed
      with Inr show ?thesis by simp
    qed
  qed
qed simp


section \<open>Names\<close>

lemma metadata_names_lower: "to_ascii_lowercase ''.git'' = ''.git''" "to_ascii_lowercase ''.labby-state'' = ''.labby-state''"
  by code_simp+

text \<open>
  What a script can name. A name that is accepted is a relative path of plain components, none
  empty and none a dot segment, outside the metadata directories, and in any case without the
  names of credential files.
\<close>

theorem virtual_path_plain:
  assumes "parse_virtual_path raw = Inr v \<or> (parse_read_scope raw = Inr v \<and> v \<noteq> [])"
  shows "v = join ''/'' (path_below v) \<and> path_below v \<noteq> []
    \<and> (\<forall>x \<in> set (path_below v). x \<noteq> [] \<and> x \<noteq> ''.'' \<and> x \<noteq> ''..'' \<and> CHR ''/'' \<notin> set x
        \<and> to_ascii_lowercase x \<noteq> ''.git'' \<and> to_ascii_lowercase x \<noteq> ''.labby-state'')
    \<and> (\<forall>needle \<in> set denied_needles. \<not> str_contains (to_ascii_lowercase v) needle)"
proof -
  have v: "virtual_ok v"
    using assms parse_virtual_ok by (auto simp: parse_read_scope_def Let_def split: if_splits)
  then have "path_below v = split_char (CHR ''/'') v" "v = join ''/'' (path_below v)"
    by (auto simp: virtual_ok_def path_below_def join_split_char)
  with v show ?thesis
    by (auto simp: virtual_ok_def plain_name_def list_all_iff is_reserved_metadata_path_def list_ex_iff
        eq_ignore_ascii_case_def metadata_names_lower)
qed

theorem virtual_path_plain_witness:
  "parse_virtual_path ''/a/./b'' = Inr ''a/b'' \<and> ''..'' \<notin> set (path_below ''a/b'') \<and> path_below ''a/b'' \<noteq> []"
proof -
  have "parse_virtual_path ''/a/./b'' = Inr ''a/b''" by code_simp
  with virtual_path_plain [of "''/a/./b''" "''a/b''"] show ?thesis by blast
qed

text \<open>
  A normalised name need not be accepted as itself again: edit plans store the normalised name
  and parse it a second time, which trims it.
\<close>

lemma parse_virtual_path_not_stable:
  "parse_virtual_path ''./ a'' = Inr '' a''" "parse_virtual_path '' a'' = Inr ''a''"
  by code_simp+

section \<open>Examples\<close>

lemmas workspace_ops =
  bindw_def catchw_def pass_def throw_def lift_result_def look_def change_def mapw_def with_path_def
  guard_path_def reject_existing_symlink_ancestors_def reject_existing_symlink_def reject_existing_symlink_path_def
  symlink_metadata_def metadata_def open_file_def read_bytes_def create_dir_all_def parent_dir_def create_new_def
  write_bytes_def remove_file_def rename_def relocate_def put_def node_def children_def
  check_write_quota_def current_file_bytes_def check_entry_quota_for_path_def missing_entry_count_def
  saturating_add_def usage_bytes_def usage_entries_def u64_max_def default_limits_def
  create_temp_path_def tmp_dir_def replace_file_def write_file_def read_file_def Let_def
  internal_io_def not_found_or_internal_def

lemma demo_names: "path_below ''a'' = [''a'']" "path_below ''d'' = [''d'']" "path_below ''x.tar'' = [''x.tar'']"
  "is_reserved_metadata_path ''a'' = False" "is_reserved_metadata_path ''d'' = False"
  "is_reserved_metadata_path ''x.tar'' = False" "is_reserved_metadata_path ''d/b'' = False"
  "is_reserved_metadata_path ''d/c:x'' = False"
  "parse_virtual_path ''a'' = Inr ''a''" "from_utf8 ''hi'' = Some ''hi''" "from_utf8 ''xy'' = Some ''xy''"
  by code_simp+

lemma default_sizes: "max_result_bytes default_limits = 1048576" "max_entries default_limits = 10000"
  by (simp_all add: default_limits_def)

lemma demo_write:
  "write_file default_limits ''n'' ''a'' ''hi'' [] = Done (Inr ())
     [([''a''], File ''hi''), ([''.labby-state'', ''tmp''], Dir), ([''.labby-state''], Dir)]"
  by (simp add: workspace_ops demo_names)

lemma demo_write_on_dir:
  "write_file default_limits ''n'' ''d'' ''hi'' [([''d''], Dir)] = Done (Inl (Sdk ''internal_error''))
     [([''.labby-state'', ''tmp'', ''n.tmp''], File ''hi''), ([''.labby-state'', ''tmp''], Dir), ([''.labby-state''], Dir),
      ([''d''], Dir)]"
  by (simp add: workspace_ops demo_names)

theorem write_read_round_trip_witness:
  "\<exists>t'. dispatch_state_method default_limits demo_library (\<lambda>_. ''n'') (WriteFile ''a'' ''hi'') [] = Done (Inr RUnit) t'
     \<and> dispatch_state_method default_limits demo_library (\<lambda>_. ''m'') (ReadFile ''a'') t' = Done (Inr (RText ''hi'')) t'"
proof -
  have run: "dispatch_state_method default_limits demo_library (\<lambda>_. ''n'') (WriteFile ''a'' ''hi'') [] = Done (Inr RUnit)
      [([''a''], File ''hi''), ([''.labby-state'', ''tmp''], Dir), ([''.labby-state''], Dir)]"
    by (simp add: with_path_def mapw_def bindw_def lift_result_def pass_def demo_names demo_write)
  have "tree_ok []" "meta_clear []" by (auto simp: tree_ok_def meta_clear_def node_def)
  from write_read_round_trip [OF default_limits_ok this _ demo_names(9,10), where lib = demo_library
      and nm = "\<lambda>_. ''n''" and nm' = "\<lambda>_. ''m''"] run
  show ?thesis by (simp add: default_sizes del: dispatch_state_method.simps)
qed

definition demo_codec :: plan_codec where
  "demo_codec = \<lparr>pc_encode = (\<lambda>_. ''p''),
     pc_decode = (\<lambda>_. Some [\<lparr>fe_path = ''a'', fe_search = ''x'', fe_replace = ''1''\<rparr>,
                           \<lparr>fe_path = ''a'', fe_search = ''y'', fe_replace = ''2''\<rparr>]),
     pc_plan_id = (\<lambda>_. replicate 64 (CHR ''f''))\<rparr>"

definition demo_plan_tree :: tree where
  "demo_plan_tree =
     [(plan_path (replicate 64 (CHR ''f'')), File ''p''), ([''.labby-state'', ''plans''], Dir),
      ([''.labby-state''], Dir), ([''a''], File ''xy'')]"

lemma demo_plan_tree_ok: "tree_ok demo_plan_tree" "meta_clear demo_plan_tree" "tree_entries demo_plan_tree = 4"
  by (auto simp: tree_ok_def demo_plan_tree_def node_def meta_clear_def plan_path_def)

text \<open>Of the two edits of the file only the second is left.\<close>

lemma demo_apply:
  "\<exists>t'. apply_edit_plan default_limits demo_codec (\<lambda>i. if i = 0 then ''n'' else ''m'') (replicate 64 (CHR ''f'')) demo_plan_tree
      = Done (Inr [''a'', ''a'']) t' \<and> node t' [''a''] = Some (File ''x2'')"
proof -
  have id: "validate_plan_id (replicate 64 (CHR ''f'')) = Inr ()"
    by (simp add: validate_plan_id_def list_all_iff is_ascii_hexdigit_def)
  show ?thesis
    unfolding apply_edit_plan_def id
    by (simp add: workspace_ops demo_names demo_codec_def demo_plan_tree_def plan_path_def ok_or_def str_replace_def
        starts_with_def)
qed

theorem apply_edit_plan_atomic_witness:
  "\<exists>t'. apply_edit_plan default_limits demo_codec (\<lambda>i. if i = 0 then ''n'' else ''m'') (replicate 64 (CHR ''f'')) demo_plan_tree
      = Done (Inr [''a'', ''a'']) t' \<and> frame ({[''a'']} \<union> meta) demo_plan_tree t'"
proof -
  have "node demo_plan_tree (plan_path (replicate 64 (CHR ''f''))) = Some (File ''p'')"
    by (simp add: demo_plan_tree_def node_def plan_path_def)
  from apply_edit_plan_atomic [OF default_limits_ok demo_plan_tree_ok(1,2) _ this, of demo_codec _ "\<lambda>i. if i = 0 then ''n'' else ''m''"]
  show ?thesis using demo_apply demo_plan_tree_ok(3) by (auto simp: demo_codec_def default_sizes demo_names)
qed

lemma demo_visit: "visit [([''a''], File ''xy'')] [[]] = [([''a''], File ''xy'')]"
  by (simp add: dir_entries_def sub_dirs_def List.map_filter_def children_def node_def demo_names)

lemma demo_trim: "trim ''*'' = ''*''"
  by code_simp

lemma demo_glob:
  "glob default_limits (lib_regex demo_library) ''*'' 10000 [([''a''], File ''xy'')]
     = Done (Inr ([''a''], False)) [([''a''], File ''xy'')]"
proof -
  have "glob_pattern_regex (lib_regex demo_library) ''*'' = Inr (\<lambda>_. True)"
    by (simp add: glob_pattern_regex_def demo_library_def starts_with_def ok_or_def demo_trim)
  then show ?thesis
    by (simp add: glob_def glob_matches_def normalize_limit_def walk_files_def demo_visit default_sizes
        bindw_def lift_result_def Let_def del: visit.simps)
qed

lemma demo_dry_run:
  "replace_in_files default_limits (lib_regex demo_library) nm ''*'' ''x'' ''z'' True [([''a''], File ''xy'')]
     = Done (Inr [''a'']) [([''a''], File ''xy'')]"
proof -
  have "read_file default_limits ''a'' [([''a''], File ''xy'')] = Done (Inr ''xy'') [([''a''], File ''xy'')]"
    by (simp add: workspace_ops demo_names)
  then show ?thesis
    by (simp add: replace_in_files_def default_sizes demo_glob bindw_def lift_result_def pass_def demo_names starts_with_def)
qed


text \<open>
  An archive that fails half way: the second file of the directory has a name like a drive, which
  archives refuse. What was collected before is left on disk whatever its size, since the quota
  is only checked after a success.
\<close>

definition demo_archive_tree :: tree where
  "demo_archive_tree = [([''d''], Dir), ([''d'', ''b''], File ''12345''), ([''d'', ''c:x''], File [])]"

lemma demo_archive_walk:
  "visit demo_archive_tree [[''d'']] = [([''d'', ''b''], File ''12345''), ([''d'', ''c:x''], File [])]"
  by (simp add: demo_archive_tree_def dir_entries_def sub_dirs_def List.map_filter_def children_def node_def demo_names)

lemma demo_archive_names: "archive_entry_name ''d'' ''d/b'' = Inr ''b''"
  "archive_entry_name ''d'' ''d/c:x'' = Inl (Sdk ''path_traversal'')" "ends_with ''x.tar'' ''.tar''"
  "''d/b'' \<le> ''d/c:x''"
  by code_simp+

lemma demo_archive_list:
  "walk_tree ''d'' 10000 demo_archive_tree = Done (Inr (map walk_entry_of
      [([''d'', ''b''], File ''12345''), ([''d'', ''c:x''], File [])], False)) demo_archive_tree"
proof -
  have "metadata demo_archive_tree [''d''] = OsOk Dir"
    by (simp add: demo_archive_tree_def metadata_def symlink_metadata_def node_def)
  moreover have "guard_path [''d''] demo_archive_tree = Done (Inr ()) demo_archive_tree"
    by (simp add: demo_archive_tree_def workspace_ops)
  ultimately show ?thesis
    using demo_archive_names(4) by (simp add: walk_tree_def demo_archive_walk demo_names bindw_def look_def lift_result_def
        normalize_limit_def walk_entry_of_def Let_def del: visit.simps)
qed

lemma archive_failure_leaves_archive:
  "archive_create default_limits tar ''d'' ''x.tar'' demo_archive_tree
     = Done (Inl (Sdk ''path_traversal'')) (([''x.tar''], File (tar [(''b'', ''12345'')])) # demo_archive_tree)"
proof -
  let ?t = demo_archive_tree
  have guards: "reject_existing_symlink_ancestors [''d''] ?t = Done (Inr ()) ?t"
    "reject_existing_symlink_ancestors [''x.tar''] ?t = Done (Inr ()) ?t"
    "reject_existing_symlink_path [''d''] ?t = Done (Inr ()) ?t"
    "reject_existing_symlink_path [''x.tar''] ?t = Done (Inr ()) ?t"
    "check_entry_quota_for_path default_limits [''x.tar''] ?t = Done (Inr ()) ?t"
    "metadata ?t [''d''] = OsOk Dir"
    by (simp_all add: demo_archive_tree_def workspace_ops demo_names)
  have "create_tar_archive tar ''d'' ''x.tar'' [(''d/b'', [''d'', ''b'']), (''d/c:x'', [''d'', ''c:x''])] ?t
      = Done (Inl (Sdk ''path_traversal'')) (([''x.tar''], File (tar [(''b'', ''12345'')])) # ?t)"
    by (simp add: create_tar_archive_def demo_archive_tree_def workspace_ops demo_names demo_archive_names)
  then show ?thesis
    by (simp add: archive_create_def guards demo_names demo_archive_names demo_archive_list default_sizes
        bindw_def look_def change_def create_dir_all_def pass_def walk_entry_of_def Let_def)
qed

end
