(* ===== verification/Gateway_Config.thy ===== *)
theory Gateway_Config
  imports Ssrf Spawn_Guard Relay_Callback
begin

text \<open>
  The gateway's configuration: its data (\<open>crates/labby-runtime/src/gateway_config.rs\<close>),
  and the validation, normalisation and the mutations of it
  (\<open>crates/labby-gateway/src/gateway/config.rs\<close>).

  The \<open>url\<close> crate, the address parser of the standard library and the platform the
  binary is built for are parameters, collected in \<open>gw_env\<close>. A TOML document is
  modelled by the structured value it decodes to. A \<open>BTreeMap\<close> is the list of its
  entries in key order. A function that mutates the configuration in place and fails
  half way returns only the error: every caller works on a clone that it then drops.
\<close>

section \<open>Parameters\<close>

record gw_env =
  ge_url_parse :: "string \<Rightarrow> url option"
  ge_url_set_path :: "url \<Rightarrow> string \<Rightarrow> url"
  ge_url_to_string :: "url \<Rightarrow> string"
  ge_ip_parse :: "string \<Rightarrow> ip_addr option"
  ge_unix :: bool
  ge_linux :: bool

text \<open>A finite \<open>f32\<close> is a sign, a mantissa and a binary exponent.\<close>

datatype f32 = F32_NaN | F32_Inf bool | F32 bool nat int

text \<open>\<open>(0.0..=1.0).contains(&x)\<close> and \<open>==\<close>.\<close>

fun f32_in_unit :: "f32 \<Rightarrow> bool" where
  "f32_in_unit (F32 s m e) =
     (m = 0 \<or> (\<not> s \<and> (if e < 0 then m \<le> 2 ^ nat (- e) else m * 2 ^ nat e \<le> 1)))"
| "f32_in_unit _ = False"

fun f32_eq :: "f32 \<Rightarrow> f32 \<Rightarrow> bool" where
  "f32_eq (F32 s m e) (F32 s' m' e') =
     ((m = 0 \<and> m' = 0)
      \<or> (s = s' \<and> m * 2 ^ nat (e - min e e') = m' * 2 ^ nat (e' - min e e')))"
| "f32_eq (F32_Inf s) (F32_Inf s') = (s = s')"
| "f32_eq _ _ = False"

section \<open>Data\<close>

datatype shape_policy = ShapeOff | ShapeTruncate

record semantic_search_config =
  ss_tei_url :: "string option"
  ss_blend_weight :: f32

record code_mode_config =
  cm_enabled :: bool
  cm_mcp_ui_enabled :: bool
  cm_trace_params :: bool
  cm_result_shape_policy :: shape_policy
  cm_timeout_ms :: nat
  cm_max_response_bytes :: nat
  cm_max_response_tokens :: nat
  cm_token_estimate_divisor :: nat
  cm_max_log_entries :: nat
  cm_max_log_bytes :: nat
  cm_semantic_search :: semantic_search_config
  cm_widget_callbacks :: "bool option"
  cm_artifact_retention_runs :: "nat option"
  cm_artifact_max_mib :: "nat option"
  cm_artifact_max_store_mib :: "nat option"
  cm_max_calls_per_run :: "nat option"
  cm_calltool_result_max_mib :: "nat option"

record import_source =
  is_client :: string
  is_path :: string
  is_server_name :: "string option"
  is_transport_fingerprint :: "string option"
  is_imported_at :: string

record import_tombstone =
  ts_name :: string
  ts_imported_from :: import_source
  ts_removed_at :: string

datatype upstream_transport = Http | Websocket | Stdio | UnixSocket

datatype oauth_mode = AuthorizationCodePkce

datatype oauth_credential = Dedicated | GoogleProvider "string option"

datatype oauth_registration =
    ClientMetadataDocument string
  | Preregistered string "string option"
  | Dynamic

record upstream_oauth =
  uo_mode :: oauth_mode
  uo_registration :: oauth_registration
  uo_scopes :: "string list option"
  uo_credential :: oauth_credential
  uo_prefer_client_metadata_document :: "bool option"

record upstream_config =
  up_name :: string
  up_enabled :: bool
  up_priority :: f32
  up_url :: "string option"
  up_transport :: "upstream_transport option"
  up_socket_path :: "string option"
  up_headers :: "(string \<times> string) list"
  up_bearer_token_env :: "string option"
  up_command :: "string option"
  up_args :: "string list"
  up_env :: "(string \<times> string) list"
  up_proxy_resources :: bool
  up_proxy_prompts :: bool
  up_expose_tools :: "string list option"
  up_expose_resources :: "string list option"
  up_expose_prompts :: "string list option"
  up_code_mode_hint :: "string option"
  up_oauth :: "upstream_oauth option"
  up_imported_from :: "import_source option"

record gateway_subset =
  gs_upstreams :: "string list"
  gs_services :: "string list"
  gs_expose_code_mode :: bool

datatype route_target = GatewaySubset gateway_subset

record mcp_route =
  rt_name :: string
  rt_enabled :: bool
  rt_public_host :: string
  rt_public_path :: string
  rt_upstream :: "string option"
  rt_backend_url :: string
  rt_backend_mcp_path :: string
  rt_scopes :: "string list"
  rt_health_path :: "string option"
  rt_target :: "route_target option"

record vs_surfaces =
  sf_cli :: bool
  sf_api :: bool
  sf_mcp :: bool
  sf_webui :: bool

record virtual_server =
  vs_id :: string
  vs_service :: string
  vs_enabled :: bool
  vs_surfaces :: vs_surfaces
  vs_mcp_policy :: "string list option"

record gateway_preferences =
  gp_extra_stdio_commands :: "string list"
  gp_disable_spawn_guard :: bool
  gp_upstream_discovery_concurrency :: "nat option"
  gp_upstream_max_response_bytes :: "nat option"
  gp_mcp_list_warm_timeout_ms :: "nat option"
  gp_upstream_stderr_level :: "string option"

record gateway_config =
  gc_code_mode :: code_mode_config
  gc_upstream_request_timeout_ms :: "nat option"
  gc_upstream_relay_timeout_ms :: "nat option"
  gc_upstream :: "upstream_config list"
  gc_tombstones :: "import_tombstone list"
  gc_pending :: "upstream_config list"
  gc_routes :: "mcp_route list"
  gc_virtual_servers :: "virtual_server list"
  gc_quarantined :: "virtual_server list"
  gc_gateway :: gateway_preferences

text \<open>\<open>CodeModeConfig\<close> derives \<open>PartialEq\<close>; its only field without \<open>Eq\<close> is the weight.\<close>

definition code_mode_eq :: "code_mode_config \<Rightarrow> code_mode_config \<Rightarrow> bool" where
  "code_mode_eq a b =
     (f32_eq (ss_blend_weight (cm_semantic_search a)) (ss_blend_weight (cm_semantic_search b))
      \<and> a\<lparr>cm_semantic_search := (cm_semantic_search a)\<lparr>ss_blend_weight := F32_NaN\<rparr>\<rparr>
        = b\<lparr>cm_semantic_search := (cm_semantic_search b)\<lparr>ss_blend_weight := F32_NaN\<rparr>\<rparr>)"

definition default_code_mode :: code_mode_config where
  "default_code_mode =
     \<lparr>cm_enabled = False, cm_mcp_ui_enabled = True, cm_trace_params = True,
      cm_result_shape_policy = ShapeOff, cm_timeout_ms = 30000,
      cm_max_response_bytes = 24576, cm_max_response_tokens = 6000,
      cm_token_estimate_divisor = 4, cm_max_log_entries = 1000, cm_max_log_bytes = 65536,
      cm_semantic_search = \<lparr>ss_tei_url = None, ss_blend_weight = F32 False 1 (- 1)\<rparr>,
      cm_widget_callbacks = None, cm_artifact_retention_runs = None, cm_artifact_max_mib = None,
      cm_artifact_max_store_mib = None, cm_max_calls_per_run = None,
      cm_calltool_result_max_mib = None\<rparr>"

definition default_gateway_config :: gateway_config where
  "default_gateway_config =
     \<lparr>gc_code_mode = default_code_mode, gc_upstream_request_timeout_ms = None,
      gc_upstream_relay_timeout_ms = None, gc_upstream = [], gc_tombstones = [], gc_pending = [],
      gc_routes = [], gc_virtual_servers = [], gc_quarantined = [],
      gc_gateway = \<lparr>gp_extra_stdio_commands = [], gp_disable_spawn_guard = False,
        gp_upstream_discovery_concurrency = None, gp_upstream_max_response_bytes = None,
        gp_mcp_list_warm_timeout_ms = None, gp_upstream_stderr_level = None\<rparr>\<rparr>"

definition is_gateway_subset :: "mcp_route \<Rightarrow> bool" where
  "is_gateway_subset r = (rt_target r \<noteq> None)"

definition gateway_subset_target :: "mcp_route \<Rightarrow> gateway_subset option" where
  "gateway_subset_target r =
     (case rt_target r of Some (GatewaySubset t) \<Rightarrow> Some t | None \<Rightarrow> None)"

section \<open>Validation of the data (\<open>gateway_config.rs\<close>)\<close>

datatype config_error =
    InvalidName
  | ConflictingAuth
  | InvalidUpstreamUrl
  | MissingOauthUrl
  | InvalidOauth
  | InvalidTransport string
  | InvalidCodeModeTimeout
  | InvalidCodeModeMaxResponseBytes
  | InvalidCodeModeMaxResponseTokens
  | InvalidCodeModeTokenEstimateDivisor
  | InvalidCodeModeMaxLogEntries
  | InvalidCodeModeMaxLogBytes
  | InvalidSemanticSearchBlendWeight
  | InvalidSemanticSearchTeiUrl
  | InvalidUpstreamRequestTimeout
  | InvalidUpstreamRelayTimeout
  | InvalidCatalogNotificationTimeout
  | InvalidProxyConfig
  | InvalidProtectedRoute string

definition code_mode_validate :: "gw_env \<Rightarrow> code_mode_config \<Rightarrow> config_error + unit" where
  "code_mode_validate env c =
     (if \<not> (1 \<le> cm_timeout_ms c \<and> cm_timeout_ms c \<le> 60000)
      then Inl InvalidCodeModeTimeout
      else if \<not> (1024 \<le> cm_max_response_bytes c \<and> cm_max_response_bytes c \<le> 1024 * 1024)
      then Inl InvalidCodeModeMaxResponseBytes
      else if \<not> (256 \<le> cm_max_response_tokens c \<and> cm_max_response_tokens c \<le> 256000)
      then Inl InvalidCodeModeMaxResponseTokens
      else if \<not> (1 \<le> cm_token_estimate_divisor c \<and> cm_token_estimate_divisor c \<le> 64)
      then Inl InvalidCodeModeTokenEstimateDivisor
      else if \<not> (1 \<le> cm_max_log_entries c \<and> cm_max_log_entries c \<le> 100000)
      then Inl InvalidCodeModeMaxLogEntries
      else if \<not> (1 \<le> cm_max_log_bytes c \<and> cm_max_log_bytes c \<le> 100 * 1024 * 1024)
      then Inl InvalidCodeModeMaxLogBytes
      else if \<not> f32_in_unit (ss_blend_weight (cm_semantic_search c))
      then Inl InvalidSemanticSearchBlendWeight
      else (case ss_tei_url (cm_semantic_search c) of
              None \<Rightarrow> Inr ()
            | Some tei_url \<Rightarrow>
                if trim tei_url = [] then Inr ()
                else (case ge_url_parse env (trim tei_url) of
                        None \<Rightarrow> Inl InvalidSemanticSearchTeiUrl
                      | Some parsed \<Rightarrow>
                          ensure (url_scheme parsed = ''http'' \<or> url_scheme parsed = ''https'')
                            InvalidSemanticSearchTeiUrl)))"

definition is_http_token_byte :: "char \<Rightarrow> bool" where
  "is_http_token_byte c =
     (is_ascii_alphanumeric c \<or> c \<in> set ''!#$%&*+-.^_|~'' \<or> byte c = 39 \<or> byte c = 96)"

definition header_value_byte_bad :: "char \<Rightarrow> bool" where
  "header_value_byte_bad c =
     (byte c = 13 \<or> byte c = 10 \<or> byte c = 0 \<or> (byte c < 32 \<and> byte c \<noteq> 9) \<or> byte c = 127)"

fun validate_headers :: "(string \<times> string) list \<Rightarrow> config_error + unit" where
  "validate_headers [] = Inr ()"
| "validate_headers ((name, value) # hs) =
     (if name = [] \<or> \<not> list_all is_http_token_byte name
      then Inl (InvalidTransport ''custom header names must be valid HTTP token values'')
      else if eq_ignore_ascii_case name ''authorization''
      then Inl (InvalidTransport
             ''custom Authorization headers are forbidden; use bearer_token_env or OAuth'')
      else if list_ex header_value_byte_bad value
      then Inl (InvalidTransport ''custom header values contain invalid control bytes'')
      else validate_headers hs)"

definition url_is :: "upstream_config \<Rightarrow> string list \<Rightarrow> bool" where
  "url_is u schemes =
     (case up_url u of None \<Rightarrow> False | Some url \<Rightarrow> list_ex (starts_with url) schemes)"

definition effective_transport :: "upstream_config \<Rightarrow> upstream_transport option" where
  "effective_transport u =
     (case up_transport u of
        Some t \<Rightarrow> Some t
      | None \<Rightarrow>
          if url_is u [''ws://'', ''wss://''] then Some Websocket
          else if up_url u \<noteq> None then Some Http
          else if up_command u \<noteq> None then Some Stdio
          else None)"

text \<open>A quoted word of a message; the quote is given by its code.\<close>

definition quoted_with :: "nat \<Rightarrow> string \<Rightarrow> string" where
  "quoted_with q s = char_of q # s @ [char_of q]"

definition validate_unix_socket :: "gw_env \<Rightarrow> upstream_config \<Rightarrow> config_error + unit" where
  "validate_unix_socket env u =
     (if \<not> ge_unix env
      then Inl (InvalidTransport ''unix_socket is unsupported on this platform'')
      else (case map_option trim (up_socket_path u) of
              None \<Rightarrow> Inl (InvalidTransport ''unix_socket requires a non-empty socket_path'')
            | Some path \<Rightarrow>
                if path = []
                then Inl (InvalidTransport ''unix_socket requires a non-empty socket_path'')
                else if path = ''@''
                then Inl (InvalidTransport
                       (''abstract socket_path must include a name after '' @ quoted_with 39 ''@''))
                else if starts_with path ''@'' \<and> \<not> ge_linux env
                then Inl (InvalidTransport ''abstract @name sockets are supported only on Linux'')
                else if up_url u = None
                then Inl (InvalidTransport
                       ''unix_socket requires an HTTP(S) url for request URI and Host authority'')
                else if \<not> url_is u [''http://'', ''https://'']
                then Inl (InvalidTransport ''unix_socket url must use http:// or https://'')
                else ensure (up_command u = None)
                       (InvalidTransport ''unix_socket cannot also configure command'')))"

definition validate_http :: "upstream_config \<Rightarrow> config_error + unit" where
  "validate_http u =
     (if up_socket_path u \<noteq> None \<or> up_command u \<noteq> None
      then Inl (InvalidTransport ''http cannot configure socket_path or command'')
      else ensure (url_is u [''http://'', ''https://''])
             (InvalidTransport ''http requires an http:// or https:// url''))"

definition validate_websocket :: "upstream_config \<Rightarrow> config_error + unit" where
  "validate_websocket u =
     (if up_socket_path u \<noteq> None \<or> up_command u \<noteq> None
      then Inl (InvalidTransport ''websocket cannot configure socket_path or command'')
      else if up_headers u \<noteq> []
      then Inl (InvalidTransport ''websocket custom headers are not supported'')
      else if \<not> url_is u [''ws://'', ''wss://'']
      then Inl (InvalidTransport ''websocket requires a ws:// or wss:// url'')
      else ensure (up_oauth u = None)
             (InvalidTransport ''websocket does not support outbound OAuth''))"

definition blank :: "string option \<Rightarrow> bool" where
  "blank s = (case s of None \<Rightarrow> True | Some t \<Rightarrow> trim t = [])"

definition validate_stdio :: "upstream_config \<Rightarrow> config_error + unit" where
  "validate_stdio u =
     (if up_url u \<noteq> None \<or> up_socket_path u \<noteq> None
      then Inl (InvalidTransport ''stdio cannot configure url or socket_path'')
      else if blank (up_command u)
      then Inl (InvalidTransport ''stdio requires a non-empty command'')
      else ensure (up_oauth u = None \<and> up_headers u = [])
             (InvalidTransport ''stdio cannot configure OAuth or custom HTTP headers''))"

definition validate_transport :: "gw_env \<Rightarrow> upstream_config \<Rightarrow> config_error + unit" where
  "validate_transport env u =
     and_then (validate_headers (up_headers u)) (\<lambda>_.
       if up_transport u = None \<and> up_socket_path u \<noteq> None
       then Inl (InvalidTransport
              (''socket_path requires transport = '' @ quoted_with 34 ''unix_socket''))
       else (case effective_transport u of
               None \<Rightarrow> Inl (InvalidTransport ''upstream requires a url or command'')
             | Some UnixSocket \<Rightarrow> validate_unix_socket env u
             | Some Http \<Rightarrow> validate_http u
             | Some Websocket \<Rightarrow> validate_websocket u
             | Some Stdio \<Rightarrow> validate_stdio u))"

definition is_google_provider :: "oauth_credential \<Rightarrow> bool" where
  "is_google_provider c = (case c of GoogleProvider _ \<Rightarrow> True | Dedicated \<Rightarrow> False)"

definition validate_google_provider ::
  "upstream_config \<Rightarrow> upstream_oauth \<Rightarrow> config_error + unit" where
  "validate_google_provider u oauth =
     (if \<not> url_is u [''https://''] then Inl InvalidOauth
      else (case uo_registration oauth of
              Preregistered client_id client_secret_env \<Rightarrow>
                if trim client_id = [] \<or> blank client_secret_env then Inl InvalidOauth
                else (case uo_scopes oauth of
                        None \<Rightarrow> Inl InvalidOauth
                      | Some scopes \<Rightarrow>
                          ensure (\<not> list_all (\<lambda>s. trim s = []) scopes) InvalidOauth)
            | _ \<Rightarrow> Inl InvalidOauth))"

definition upstream_name_char :: "char \<Rightarrow> bool" where
  "upstream_name_char c = (is_ascii_alphanumeric c \<or> c \<in> set ''-_.'')"

definition canonicalize_upstream_url :: "gw_env \<Rightarrow> string \<Rightarrow> string option" where
  "canonicalize_upstream_url env raw =
     map_option (ge_url_to_string env) (ge_url_parse env (trim raw))"

text \<open>\<open>canonical.split("://").next()\<close>: the text before the first separator.\<close>

fun before_separator :: "string \<Rightarrow> string \<Rightarrow> string" where
  "before_separator sep [] = []"
| "before_separator sep (c # cs) =
     (if starts_with (c # cs) sep then [] else c # before_separator sep cs)"

definition validate_upstream_url :: "gw_env \<Rightarrow> upstream_config \<Rightarrow> config_error + unit" where
  "validate_upstream_url env u =
     (case up_url u of
        None \<Rightarrow> Inr ()
      | Some raw \<Rightarrow>
          (case canonicalize_upstream_url env raw of
             None \<Rightarrow> Inl InvalidUpstreamUrl
           | Some canonical \<Rightarrow>
               ensure (before_separator ''://'' canonical \<in> set [''http'', ''https'', ''ws'', ''wss''])
                 InvalidUpstreamUrl))"

definition upstream_config_validate :: "gw_env \<Rightarrow> upstream_config \<Rightarrow> config_error + unit" where
  "upstream_config_validate env u =
     (if trim (up_name u) = [] then Inl InvalidName
      else if length (up_name u) > 128 then Inl InvalidName
      else if \<not> list_all upstream_name_char (up_name u) then Inl InvalidName
      else if up_bearer_token_env u \<noteq> None \<and> up_oauth u \<noteq> None then Inl ConflictingAuth
      else and_then (validate_transport env u) (\<lambda>_.
        if up_oauth u \<noteq> None \<and> up_url u = None then Inl MissingOauthUrl
        else and_then
          (case up_oauth u of
             Some oauth \<Rightarrow>
               if is_google_provider (uo_credential oauth) then validate_google_provider u oauth
               else Inr ()
           | None \<Rightarrow> Inr ())
          (\<lambda>_. validate_upstream_url env u)))"

section \<open>Normalisation of protected routes on load (\<open>gateway_config.rs\<close>)\<close>

definition default_mcp_path :: string where
  "default_mcp_path = ''/mcp''"

definition normalize_mcp_route_path :: "string \<Rightarrow> string" where
  "normalize_mcp_route_path raw =
     (let trimmed = trim raw;
          with_slash = (if starts_with trimmed ''/'' then trimmed else CHR ''/'' # trimmed);
          normalized = join ''/'' (filter (\<lambda>s. s \<noteq> []) (split_char (CHR ''/'') with_slash))
      in if normalized = [] then ''/mcp'' else CHR ''/'' # normalized)"

definition normalize_protected_backend_url :: "gw_env \<Rightarrow> string \<Rightarrow> string \<Rightarrow> string option" where
  "normalize_protected_backend_url env raw legacy_path =
     (case ge_url_parse env (trim raw) of
        None \<Rightarrow> None
      | Some parsed \<Rightarrow>
          if url_query parsed \<noteq> None \<or> url_fragment parsed \<noteq> None then None
          else
            let parsed' =
              (if url_path parsed = [] \<or> url_path parsed = ''/''
               then ge_url_set_path env parsed (normalize_mcp_route_path legacy_path) else parsed)
            in Some (trim_end_char (CHR ''/'') (ge_url_to_string env parsed')))"

text \<open>Trim, refuse blanks, keep the first of equal names.\<close>

fun normalize_names :: "string list \<Rightarrow> string list \<Rightarrow> string list option" where
  "normalize_names acc [] = Some acc"
| "normalize_names acc (v # vs) =
     (if trim v = [] then None
      else normalize_names (if trim v \<in> set acc then acc else acc @ [trim v]) vs)"

definition normalize_string_list :: "string list \<Rightarrow> string list option" where
  "normalize_string_list values = normalize_names [] values"

definition trimmed_name :: "string option \<Rightarrow> string option" where
  "trimmed_name n =
     (case n of None \<Rightarrow> None | Some s \<Rightarrow> if trim s = [] then None else Some (trim s))"

definition normalize_loaded_target :: "mcp_route \<Rightarrow> config_error + mcp_route" where
  "normalize_loaded_target r =
     (case rt_target r of
        None \<Rightarrow> Inr r
      | Some (GatewaySubset t) \<Rightarrow>
          and_then (ok_or (normalize_string_list (gs_upstreams t))
                      (InvalidProtectedRoute ''target.upstreams'')) (\<lambda>ups.
          and_then (ok_or (normalize_string_list (gs_services t))
                      (InvalidProtectedRoute ''target.services'')) (\<lambda>svs.
          Inr (r\<lparr>rt_target := Some (GatewaySubset (t\<lparr>gs_upstreams := ups, gs_services := svs\<rparr>))\<rparr>))))"

definition normalize_loaded_route :: "gw_env \<Rightarrow> mcp_route \<Rightarrow> config_error + mcp_route" where
  "normalize_loaded_route env r0 =
     and_then (normalize_loaded_target (r0\<lparr>rt_upstream := trimmed_name (rt_upstream r0)\<rparr>)) (\<lambda>r.
       if rt_target r \<noteq> None \<and> (rt_upstream r \<noteq> None \<or> trim (rt_backend_url r) \<noteq> [])
       then Inl (InvalidProtectedRoute ''target'')
       else if rt_target r \<noteq> None
       then Inr (r\<lparr>rt_backend_url := [], rt_backend_mcp_path := default_mcp_path\<rparr>)
       else if rt_upstream r \<noteq> None \<and> trim (rt_backend_url r) = []
       then Inr (r\<lparr>rt_backend_url := [], rt_backend_mcp_path := default_mcp_path\<rparr>)
       else and_then
         (ok_or (normalize_protected_backend_url env (rt_backend_url r) (rt_backend_mcp_path r))
            (InvalidProtectedRoute ''backend_url'')) (\<lambda>url.
         Inr (r\<lparr>rt_backend_url := url, rt_backend_mcp_path := default_mcp_path\<rparr>)))"

fun try_map :: "('a \<Rightarrow> 'e + 'b) \<Rightarrow> 'a list \<Rightarrow> 'e + 'b list" where
  "try_map f [] = Inr []"
| "try_map f (x # xs) = and_then (f x) (\<lambda>y. and_then (try_map f xs) (\<lambda>ys. Inr (y # ys)))"

fun gateway_subset_paths_unique :: "string list \<Rightarrow> mcp_route list \<Rightarrow> bool" where
  "gateway_subset_paths_unique seen [] = True"
| "gateway_subset_paths_unique seen (r # rs) =
     (if rt_enabled r \<and> is_gateway_subset r
      then rt_public_path r \<notin> set seen \<and> gateway_subset_paths_unique (rt_public_path r # seen) rs
      else gateway_subset_paths_unique seen rs)"

definition validate_gateway_subset_paths_are_unique :: "mcp_route list \<Rightarrow> config_error + unit" where
  "validate_gateway_subset_paths_are_unique routes =
     ensure (gateway_subset_paths_unique [] routes) (InvalidProtectedRoute ''public_path'')"

definition normalize_protected_mcp_routes ::
  "gw_env \<Rightarrow> mcp_route list \<Rightarrow> config_error + mcp_route list" where
  "normalize_protected_mcp_routes env routes =
     and_then (try_map (normalize_loaded_route env) routes) (\<lambda>rs.
     and_then (validate_gateway_subset_paths_are_unique rs) (\<lambda>_. Inr rs))"

section \<open>Normalisation and validation of a route (\<open>config.rs\<close>)\<close>

definition normalize_name_list :: "string list \<Rightarrow> string \<Rightarrow> tool_error + string list" where
  "normalize_name_list values param = ok_or (normalize_names [] values) (InvalidParam param)"

definition normalize_public_host :: "string \<Rightarrow> tool_error + string" where
  "normalize_public_host raw =
     (let trimmed = trim_end_char (CHR ''.'') (trim raw)
      in if trimmed = [] \<or> list_ex (\<lambda>c. c \<in> set trimmed) [CHR ''/'', CHR 0x5C, CHR '':'', CHR ''@'']
         then Inl (InvalidParam ''public_host'')
         else Inr (to_ascii_lowercase trimmed))"

definition normalize_route_path :: "string \<Rightarrow> string \<Rightarrow> tool_error + string" where
  "normalize_route_path raw param =
     (let trimmed = trim raw
      in if \<not> starts_with trimmed ''/'' then Inl (InvalidParam param)
         else if length trimmed > 1 \<and> ends_with trimmed ''/''
         then Inr (trim_end_char (CHR ''/'') trimmed)
         else Inr trimmed)"

definition normalize_backend_url :: "gw_env \<Rightarrow> string \<Rightarrow> string \<Rightarrow> tool_error + string" where
  "normalize_backend_url env raw default_path =
     and_then (ok_or (ge_url_parse env (trim raw)) (InvalidParam ''backend_url'')) (\<lambda>parsed.
       if url_scheme parsed \<noteq> ''http'' \<and> url_scheme parsed \<noteq> ''https''
       then Inl (InvalidParam ''backend_url'')
       else if url_host_str parsed = None \<or> url_query parsed \<noteq> None \<or> url_fragment parsed \<noteq> None
       then Inl (InvalidParam ''backend_url'')
       else and_then
         (if url_path parsed = ''/'' then Inr default_path
          else normalize_route_path (url_path parsed) ''backend_url'') (\<lambda>path.
         Inr (url_scheme parsed @ ''://''
              @ to_ascii_lowercase (case url_host_str parsed of Some h \<Rightarrow> h | None \<Rightarrow> [])
              @ (case url_port parsed of Some p \<Rightarrow> CHR '':'' # show_nat p | None \<Rightarrow> [])
              @ path)))"

definition normalize_route_scopes :: "string list \<Rightarrow> tool_error + string list" where
  "normalize_route_scopes raw =
     (let scopes = (if raw = [] then [''mcp:read'', ''mcp:write''] else map trim raw)
      in if [] \<in> set scopes then Inl (InvalidParam ''scopes'') else Inr scopes)"

definition normalize_target :: "route_target option \<Rightarrow> tool_error + route_target option" where
  "normalize_target tgt =
     (case tgt of
        None \<Rightarrow> Inr None
      | Some (GatewaySubset t) \<Rightarrow>
          and_then (normalize_name_list (gs_upstreams t) ''target.upstreams'') (\<lambda>ups.
          and_then (normalize_name_list (gs_services t) ''target.services'') (\<lambda>svs.
          Inr (Some (GatewaySubset (t\<lparr>gs_upstreams := ups, gs_services := svs\<rparr>))))))"

definition normalize_health_path :: "string option \<Rightarrow> tool_error + string option" where
  "normalize_health_path hp =
     (case hp of
        None \<Rightarrow> Inr None
      | Some path \<Rightarrow>
          if trim path = [] then Inr None
          else and_then (normalize_route_path (trim path) ''health_path'') (\<lambda>p. Inr (Some p)))"

definition normalize_protected_mcp_route :: "gw_env \<Rightarrow> mcp_route \<Rightarrow> tool_error + mcp_route" where
  "normalize_protected_mcp_route env r =
     and_then (normalize_public_host (rt_public_host r)) (\<lambda>host.
     and_then (normalize_route_path (rt_public_path r) ''public_path'') (\<lambda>path.
     and_then (normalize_route_path (rt_backend_mcp_path r) ''backend_mcp_path'') (\<lambda>legacy.
     and_then (if trim (rt_backend_url r) = [] then Inr []
               else normalize_backend_url env (rt_backend_url r) legacy) (\<lambda>backend.
     and_then (normalize_route_scopes (rt_scopes r)) (\<lambda>scopes.
     and_then (normalize_target (rt_target r)) (\<lambda>target.
     and_then (normalize_health_path (rt_health_path r)) (\<lambda>health.
     Inr (r\<lparr>rt_name := trim (rt_name r), rt_public_host := host, rt_public_path := path,
            rt_upstream := trimmed_name (rt_upstream r), rt_backend_url := backend,
            rt_backend_mcp_path := default_mcp_path, rt_scopes := scopes,
            rt_target := target, rt_health_path := health\<rparr>))))))))"

definition path_is_ambiguous :: "string \<Rightarrow> bool" where
  "path_is_ambiguous path =
     (let lower = to_ascii_lowercase path
      in str_contains lower ''%2f'' \<or> str_contains lower ''%5c'' \<or> str_contains lower ''%2e''
         \<or> CHR 0x5C \<in> set path
         \<or> list_ex (\<lambda>s. s = ''.'' \<or> s = ''..'') (split_char (CHR ''/'') path)
         \<or> str_contains path ''//'')"

definition validate_safe_public_path :: "string \<Rightarrow> tool_error + unit" where
  "validate_safe_public_path path =
     (let lower = to_ascii_lowercase path
      in if path = ''/'' then Inl (InvalidParam ''public_path'')
         else if starts_with lower ''/.well-known'' \<or> starts_with lower ''/v1''
         then Inl (InvalidParam ''public_path'')
         else ensure (\<not> path_is_ambiguous path) (InvalidParam ''public_path''))"

text \<open>\<open>host.trim_start_matches('[').trim_end_matches(']')\<close>.\<close>

definition unbracket :: "string \<Rightarrow> string" where
  "unbracket host = trim_end_char (CHR '']'') (dropWhile (\<lambda>c. c = CHR ''['') host)"

definition backend_ip_blocked :: "ip_addr \<Rightarrow> bool" where
  "backend_ip_blocked ip =
     (case ip of
        V4 v4 \<Rightarrow> v4_is_loopback v4 \<or> v4_is_unspecified v4 \<or> v4_is_multicast v4
                 \<or> v4 = Ipv4 169 254 169 254 \<or> v4_is_link_local v4
      | V6 v6 \<Rightarrow> v6_is_loopback v6 \<or> v6_is_unspecified v6 \<or> v6_is_multicast v6
                 \<or> is_ipv6_link_local v6)"

definition validate_backend_target :: "gw_env \<Rightarrow> string \<Rightarrow> tool_error + unit" where
  "validate_backend_target env origin =
     and_then (ok_or (ge_url_parse env origin) (InvalidParam ''backend_url'')) (\<lambda>parsed.
       let host = (case url_host_str parsed of Some h \<Rightarrow> h | None \<Rightarrow> [])
       in if eq_ignore_ascii_case host ''localhost'' then Inl (InvalidParam ''backend_url'')
          else (case ge_ip_parse env (unbracket host) of
                  None \<Rightarrow> Inr ()
                | Some ip \<Rightarrow> ensure (\<not> backend_ip_blocked ip) (InvalidParam ''backend_url'')))"

definition subset_exposes_nothing :: "gateway_subset \<Rightarrow> bool" where
  "subset_exposes_nothing t =
     (gs_upstreams t = [] \<and> gs_services t = [] \<and> \<not> gs_expose_code_mode t)"

definition validate_protected_mcp_route :: "gw_env \<Rightarrow> mcp_route \<Rightarrow> tool_error + unit" where
  "validate_protected_mcp_route env r =
     (if rt_name r = [] then Inl (InvalidParam ''name'')
      else and_then (validate_safe_public_path (rt_public_path r)) (\<lambda>_.
        if rt_target r \<noteq> None \<and> (rt_upstream r \<noteq> None \<or> rt_backend_url r \<noteq> [])
        then Inl (InvalidParam ''target'')
        else (case rt_target r of
                Some (GatewaySubset t) \<Rightarrow>
                  ensure (\<not> subset_exposes_nothing t) (InvalidParam ''target'')
              | None \<Rightarrow>
                  (case rt_upstream r of
                     Some _ \<Rightarrow> ensure (rt_backend_url r = []) (InvalidParam ''upstream'')
                   | None \<Rightarrow>
                       if rt_backend_url r = [] then Inl (InvalidParam ''backend_url'')
                       else validate_backend_target env (rt_backend_url r)))))"

section \<open>Validation of an upstream (\<open>config.rs\<close>)\<close>

definition invalid_transport_param :: "string \<Rightarrow> string" where
  "invalid_transport_param reason =
     (if str_contains reason ''socket_path'' then ''socket_path''
      else if str_contains reason ''header'' \<or> str_contains reason ''Authorization'' then ''headers''
      else if str_contains reason ''bearer_token_env'' then ''bearer_token_env''
      else if str_contains reason ''OAuth'' \<or> str_contains reason ''oauth'' then ''oauth''
      else if str_contains reason ''command'' then ''command''
      else if str_contains reason ''url'' then ''url''
      else ''transport'')"

fun upstream_error :: "config_error \<Rightarrow> tool_error" where
  "upstream_error InvalidName = InvalidParam ''name''"
| "upstream_error ConflictingAuth = InvalidParam ''bearer_token_env''"
| "upstream_error MissingOauthUrl = InvalidParam ''url''"
| "upstream_error InvalidUpstreamUrl = InvalidParam ''url''"
| "upstream_error (InvalidTransport reason) = InvalidParam (invalid_transport_param reason)"
| "upstream_error _ = Sdk ''internal_error''"

definition looks_like_raw_bearer_token :: "string \<Rightarrow> bool" where
  "looks_like_raw_bearer_token v =
     list_ex (starts_with v)
       [''Bearer '', ''Token '', ''Basic '', ''ghp_'', ''github_pat_'', ''ghu_'', ''ghs_'', ''ghr_'',
        ''eyJ'', ''sk-'', ''xoxb-'', ''xoxp-'', ''glpat-'', ''AKIA'']"

definition is_valid_env_var_name :: "string \<Rightarrow> bool" where
  "is_valid_env_var_name v =
     (case v of
        [] \<Rightarrow> False
      | c # cs \<Rightarrow> (c = CHR ''_'' \<or> is_ascii_alphabetic c)
                   \<and> list_all (\<lambda>ch. ch = CHR ''_'' \<or> is_ascii_alphanumeric ch) cs)"

definition validate_bearer_token_env_name :: "string \<Rightarrow> tool_error + unit" where
  "validate_bearer_token_env_name value =
     (let trimmed = trim value
      in if trimmed = [] then Inl (InvalidParam ''bearer_token_env'')
         else if looks_like_raw_bearer_token trimmed then Inl (InvalidParam ''bearer_token_env'')
         else ensure (is_valid_env_var_name trimmed) (InvalidParam ''bearer_token_env''))"

definition ascii_upper :: "char \<Rightarrow> char" where
  "ascii_upper c = (if is_ascii_lowercase c then char_of (byte c - 32) else c)"

definition env_name_char :: "char \<Rightarrow> char" where
  "env_name_char c = (if is_ascii_alphanumeric c then ascii_upper c else CHR ''_'')"

definition default_gateway_bearer_env_name :: "string \<Rightarrow> string" where
  "default_gateway_bearer_env_name name =
     (let normalized = join ''_'' (filter (\<lambda>s. s \<noteq> [])
            (split_char (CHR ''_'') (map env_name_char (trim name))))
      in ''LABBY_GW_'' @ (if normalized = [] then ''GATEWAY'' else normalized) @ ''_AUTH_HEADER'')"

definition ip_is_unspecified :: "ip_addr \<Rightarrow> bool" where
  "ip_is_unspecified ip =
     (case ip of V4 v4 \<Rightarrow> v4_is_unspecified v4 | V6 v6 \<Rightarrow> v6_is_unspecified v6)"

definition validate_gateway_url :: "gw_env \<Rightarrow> string \<Rightarrow> tool_error + unit" where
  "validate_gateway_url env url =
     (if \<not> starts_with url ''http://'' \<and> \<not> starts_with url ''https://''
      then Inl (InvalidParam ''url'')
      else and_then (ok_or (ge_url_parse env url) (InvalidParam ''url'')) (\<lambda>parsed.
        (case url_host_str parsed of
           None \<Rightarrow> Inr ()
         | Some host \<Rightarrow>
             (case ge_ip_parse env (unbracket host) of
                None \<Rightarrow> Inr ()
              | Some ip \<Rightarrow> ensure (\<not> ip_is_unspecified ip) (InvalidParam ''url'')))))"

definition validate_stdio_upstream ::
  "string \<Rightarrow> string list \<Rightarrow> (string \<times> string) list \<Rightarrow> gateway_preferences \<Rightarrow> tool_error + unit" where
  "validate_stdio_upstream command args env prefs =
     (if trim command = [] then Inl (InvalidParam ''command'')
      else validate_stdio_spec command args env
             (gp_extra_stdio_commands prefs) (gp_disable_spawn_guard prefs))"

definition validate_upstream ::
  "gw_env \<Rightarrow> gateway_preferences \<Rightarrow> upstream_config \<Rightarrow> tool_error + unit" where
  "validate_upstream env prefs u =
     and_then (case up_bearer_token_env u of
                 Some env_name \<Rightarrow> validate_bearer_token_env_name env_name
               | None \<Rightarrow> Inr ()) (\<lambda>_.
     and_then (map_err upstream_error (upstream_config_validate env u)) (\<lambda>_.
       (case (up_url u, up_command u) of
          (Some _, Some _) \<Rightarrow> Inl (InvalidParam ''url'')
        | (None, None) \<Rightarrow> Inl (InvalidParam ''url'')
        | (Some url, None) \<Rightarrow> validate_gateway_url env url
        | (None, Some command) \<Rightarrow>
            validate_stdio_upstream command (up_args u) (up_env u) prefs)))"

section \<open>Validation and normalisation of the whole configuration (\<open>config.rs\<close>)\<close>

fun code_mode_error :: "config_error \<Rightarrow> tool_error" where
  "code_mode_error InvalidCodeModeTimeout = InvalidParam ''code_mode.timeout_ms''"
| "code_mode_error InvalidCodeModeMaxResponseBytes = InvalidParam ''code_mode.max_response_bytes''"
| "code_mode_error InvalidCodeModeMaxResponseTokens =
     InvalidParam ''code_mode.max_response_tokens''"
| "code_mode_error InvalidSemanticSearchBlendWeight =
     InvalidParam ''code_mode.semantic_search.blend_weight''"
| "code_mode_error InvalidSemanticSearchTeiUrl =
     InvalidParam ''code_mode.semantic_search.tei_url''"
| "code_mode_error _ = InvalidParam ''code_mode''"

definition validate_code_mode :: "gw_env \<Rightarrow> code_mode_config \<Rightarrow> tool_error + unit" where
  "validate_code_mode env c = map_err code_mode_error (code_mode_validate env c)"

text \<open>The loops keep the sets of what they have seen.\<close>

fun validate_upstreams_from ::
  "gw_env \<Rightarrow> gateway_preferences \<Rightarrow> string list \<Rightarrow> upstream_config list \<Rightarrow> tool_error + unit" where
  "validate_upstreams_from env prefs names [] = Inr ()"
| "validate_upstreams_from env prefs names (u # us) =
     and_then (validate_upstream env prefs u) (\<lambda>_.
       if up_name u \<in> set names then Inl (InvalidParam ''name'')
       else validate_upstreams_from env prefs (up_name u # names) us)"

definition validate_upstreams ::
  "gw_env \<Rightarrow> gateway_preferences \<Rightarrow> upstream_config list \<Rightarrow> tool_error + unit" where
  "validate_upstreams env prefs us = validate_upstreams_from env prefs [] us"

definition route_key :: "mcp_route \<Rightarrow> string \<times> string" where
  "route_key r = (to_ascii_lowercase (rt_public_host r), rt_public_path r)"

fun validate_routes_from ::
  "gw_env \<Rightarrow> string list \<Rightarrow> (string \<times> string) list \<Rightarrow> string list \<Rightarrow> mcp_route list
   \<Rightarrow> tool_error + unit" where
  "validate_routes_from env names keys paths [] = Inr ()"
| "validate_routes_from env names keys paths (r # rs) =
     and_then (validate_protected_mcp_route env r) (\<lambda>_.
       if rt_name r \<in> set names then Inl (InvalidParam ''name'')
       else if \<not> rt_enabled r then validate_routes_from env (rt_name r # names) keys paths rs
       else if route_key r \<in> set keys then Inl (InvalidParam ''public_path'')
       else if is_gateway_subset r \<and> rt_public_path r \<in> set paths
       then Inl (InvalidParam ''public_path'')
       else validate_routes_from env (rt_name r # names) (route_key r # keys)
              (if is_gateway_subset r then rt_public_path r # paths else paths) rs)"

definition validate_protected_mcp_routes :: "gw_env \<Rightarrow> mcp_route list \<Rightarrow> tool_error + unit" where
  "validate_protected_mcp_routes env routes = validate_routes_from env [] [] [] routes"

definition validate_config :: "gw_env \<Rightarrow> gateway_config \<Rightarrow> tool_error + unit" where
  "validate_config env cfg =
     and_then (validate_code_mode env (gc_code_mode cfg)) (\<lambda>_.
     and_then (validate_upstreams env (gc_gateway cfg) (gc_upstream cfg)) (\<lambda>_.
     validate_protected_mcp_routes env (gc_routes cfg)))"

definition normalize_config :: "gw_env \<Rightarrow> gateway_config \<Rightarrow> tool_error + gateway_config" where
  "normalize_config env cfg =
     and_then (try_map (normalize_protected_mcp_route env) (gc_routes cfg)) (\<lambda>rs.
     Inr (cfg\<lparr>gc_routes := rs\<rparr>))"

text \<open>
  \<open>load_gateway_config\<close>: the file is absent, unreadable or undecodable, or decodes to
  a configuration.
\<close>

datatype 'a toml_file = Missing | Unreadable | Decoded 'a

definition load_gateway_config :: "gw_env \<Rightarrow> gateway_config toml_file \<Rightarrow> tool_error + gateway_config" where
  "load_gateway_config env f =
     (case f of
        Missing \<Rightarrow> Inr default_gateway_config
      | Unreadable \<Rightarrow> Inl (Sdk ''internal_error'')
      | Decoded cfg \<Rightarrow>
          and_then (map_err (\<lambda>_. Sdk ''internal_error'')
                      (normalize_protected_mcp_routes env (gc_routes cfg))) (\<lambda>rs.
          and_then (normalize_config env (cfg\<lparr>gc_routes := rs\<rparr>)) (\<lambda>cfg'.
          and_then (validate_config env cfg') (\<lambda>_. Inr cfg'))))"

section \<open>Mutations of upstreams (\<open>config.rs\<close>)\<close>

definition tombstone_source_matches_upstream :: "import_tombstone \<Rightarrow> import_source \<Rightarrow> bool" where
  "tombstone_source_matches_upstream t source =
     (is_client (ts_imported_from t) = is_client source
      \<and> is_path (ts_imported_from t) = is_path source)"

definition tombstone_transport_matches_upstream ::
  "import_tombstone \<Rightarrow> upstream_config \<Rightarrow> bool" where
  "tombstone_transport_matches_upstream t u =
     (case is_transport_fingerprint (ts_imported_from t) of
        None \<Rightarrow> True
      | Some fp \<Rightarrow>
          (case Option.bind (up_imported_from u) is_transport_fingerprint of
             None \<Rightarrow> True
           | Some fp' \<Rightarrow> fp' = fp))"

definition tombstone_matches_upstream :: "import_tombstone \<Rightarrow> upstream_config \<Rightarrow> bool" where
  "tombstone_matches_upstream t u =
     (if ts_name t = up_name u
      then (case up_imported_from u of
              None \<Rightarrow> True
            | Some source \<Rightarrow>
                tombstone_source_matches_upstream t source
                \<and> (case is_server_name (ts_imported_from t) of
                     None \<Rightarrow> True
                   | Some server_name \<Rightarrow> is_server_name source = Some server_name)
                \<and> tombstone_transport_matches_upstream t u)
      else (case up_imported_from u of
              None \<Rightarrow> False
            | Some source \<Rightarrow>
                tombstone_source_matches_upstream t source
                \<and> is_server_name (ts_imported_from t) \<noteq> None
                \<and> is_server_name (ts_imported_from t) = is_server_name source
                \<and> tombstone_transport_matches_upstream t u))"

definition insert_upstream ::
  "gw_env \<Rightarrow> gateway_config \<Rightarrow> upstream_config \<Rightarrow> tool_error + gateway_config" where
  "insert_upstream env cfg u =
     and_then (validate_upstream env (gc_gateway cfg) u) (\<lambda>_.
       if list_ex (\<lambda>x. up_name x = up_name u) (gc_upstream cfg) then Inl (Conflict (up_name u))
       else Inr (cfg\<lparr>gc_tombstones :=
                       filter (\<lambda>t. \<not> tombstone_matches_upstream t u) (gc_tombstones cfg),
                     gc_upstream := gc_upstream cfg @ [u]\<rparr>))"

definition subset_depends_on :: "mcp_route \<Rightarrow> string \<Rightarrow> bool" where
  "subset_depends_on r name =
     (rt_enabled r \<and> is_gateway_subset r
      \<and> (case gateway_subset_target r of Some t \<Rightarrow> name \<in> set (gs_upstreams t) | None \<Rightarrow> False))"

definition ensure_no_startup_mounted_subset_depends_on ::
  "gateway_config \<Rightarrow> string \<Rightarrow> tool_error + unit" where
  "ensure_no_startup_mounted_subset_depends_on cfg name =
     ensure (\<not> list_ex (\<lambda>r. subset_depends_on r name) (gc_routes cfg)) (Sdk ''restart_required'')"

definition rename_in :: "string \<Rightarrow> string \<Rightarrow> string \<Rightarrow> string" where
  "rename_in old new s = (if s = old then new else s)"

definition rename_route :: "string \<Rightarrow> string \<Rightarrow> mcp_route \<Rightarrow> mcp_route" where
  "rename_route old new r =
     r\<lparr>rt_upstream := map_option (rename_in old new) (rt_upstream r),
       rt_target := map_option (\<lambda>tgt. case tgt of GatewaySubset t \<Rightarrow>
         GatewaySubset (t\<lparr>gs_upstreams := map (rename_in old new) (gs_upstreams t)\<rparr>)) (rt_target r)\<rparr>"

definition cascade_upstream_rename :: "gateway_config \<Rightarrow> string \<Rightarrow> string \<Rightarrow> gateway_config" where
  "cascade_upstream_rename cfg old new =
     cfg\<lparr>gc_routes := map (rename_route old new) (gc_routes cfg)\<rparr>"

definition prune_route :: "string \<Rightarrow> mcp_route \<Rightarrow> mcp_route option" where
  "prune_route name r =
     (if rt_upstream r = Some name then None
      else (case rt_target r of
              None \<Rightarrow> Some r
            | Some (GatewaySubset t) \<Rightarrow>
                let t' = t\<lparr>gs_upstreams := filter (\<lambda>u. u \<noteq> name) (gs_upstreams t)\<rparr>
                in if subset_exposes_nothing t' then None
                   else Some (r\<lparr>rt_target := Some (GatewaySubset t')\<rparr>)))"

definition cascade_upstream_removal :: "gateway_config \<Rightarrow> string \<Rightarrow> gateway_config" where
  "cascade_upstream_removal cfg name =
     cfg\<lparr>gc_routes := List.map_filter (prune_route name) (gc_routes cfg)\<rparr>"

record update_patch =
  pt_name :: "string option"
  pt_enabled :: "bool option"
  pt_url :: "string option option"
  pt_command :: "string option option"
  pt_args :: "string list option"
  pt_bearer_token_env :: "string option option"
  pt_proxy_resources :: "bool option"
  pt_proxy_prompts :: "bool option"
  pt_expose_tools :: "string list option option"
  pt_expose_resources :: "string list option option"
  pt_expose_prompts :: "string list option option"
  pt_oauth :: "upstream_oauth option option"
  pt_code_mode :: "code_mode_config option option"

text \<open>An empty allow list means \<open>remove the filter\<close>.\<close>

definition clear_empty :: "string list option \<Rightarrow> string list option" where
  "clear_empty v = (if v = Some [] then None else v)"

definition or_keep :: "'a option \<Rightarrow> 'a \<Rightarrow> 'a" where
  "or_keep new old = (case new of Some v \<Rightarrow> v | None \<Rightarrow> old)"

definition apply_patch :: "update_patch \<Rightarrow> upstream_config \<Rightarrow> upstream_config" where
  "apply_patch p u =
     u\<lparr>up_name := or_keep (pt_name p) (up_name u),
       up_enabled := or_keep (pt_enabled p) (up_enabled u),
       up_url := or_keep (pt_url p) (up_url u),
       up_command := or_keep (pt_command p) (up_command u),
       up_args := or_keep (pt_args p) (up_args u),
       up_bearer_token_env := or_keep (pt_bearer_token_env p) (up_bearer_token_env u),
       up_proxy_resources := or_keep (pt_proxy_resources p) (up_proxy_resources u),
       up_proxy_prompts := or_keep (pt_proxy_prompts p) (up_proxy_prompts u),
       up_expose_tools := or_keep (map_option clear_empty (pt_expose_tools p)) (up_expose_tools u),
       up_expose_resources :=
         or_keep (map_option clear_empty (pt_expose_resources p)) (up_expose_resources u),
       up_expose_prompts :=
         or_keep (map_option clear_empty (pt_expose_prompts p)) (up_expose_prompts u),
       up_oauth := or_keep (pt_oauth p) (up_oauth u)\<rparr>"

text \<open>\<open>iter().position\<close>.\<close>

fun position :: "('a \<Rightarrow> bool) \<Rightarrow> 'a list \<Rightarrow> nat option" where
  "position P [] = None"
| "position P (x # xs) = (if P x then Some 0 else map_option Suc (position P xs))"

definition renamed_to :: "update_patch \<Rightarrow> string \<Rightarrow> string option" where
  "renamed_to p name =
     (case pt_name p of Some n \<Rightarrow> if n \<noteq> name then Some n else None | None \<Rightarrow> None)"

definition update_upstream ::
  "gw_env \<Rightarrow> gateway_config \<Rightarrow> string \<Rightarrow> update_patch \<Rightarrow> tool_error + gateway_config" where
  "update_upstream env cfg name p =
     and_then (ok_or (position (\<lambda>u. up_name u = name) (gc_upstream cfg)) (Sdk ''not_found'')) (\<lambda>i.
     and_then (if renamed_to p name \<noteq> None
               then ensure_no_startup_mounted_subset_depends_on cfg name else Inr ()) (\<lambda>_.
     and_then (ensure (pt_code_mode p = None) (InvalidParam ''code_mode'')) (\<lambda>_.
     and_then (case renamed_to p name of
                 Some n \<Rightarrow> ensure (\<not> list_ex (\<lambda>u. up_name u = n) (gc_upstream cfg)) (InvalidParam ''name'')
               | None \<Rightarrow> Inr ()) (\<lambda>_.
       let u = apply_patch p (gc_upstream cfg ! i);
           cfg' = cfg\<lparr>gc_upstream := (gc_upstream cfg)[i := u]\<rparr>
       in and_then (validate_upstream env (gc_gateway cfg) u) (\<lambda>_.
          Inr (case renamed_to p name of
                 Some n \<Rightarrow> cascade_upstream_rename cfg' name n
               | None \<Rightarrow> cfg'))))))"

definition remove_at :: "nat \<Rightarrow> 'a list \<Rightarrow> 'a list" where
  "remove_at i xs = take i xs @ drop (Suc i) xs"

definition remove_upstream ::
  "gateway_config \<Rightarrow> string \<Rightarrow> tool_error + (upstream_config \<times> gateway_config)" where
  "remove_upstream cfg name =
     and_then (ensure_no_startup_mounted_subset_depends_on cfg name) (\<lambda>_.
     and_then (ok_or (position (\<lambda>u. up_name u = name) (gc_upstream cfg)) (Sdk ''not_found'')) (\<lambda>i.
     Inr (gc_upstream cfg ! i,
          cascade_upstream_removal (cfg\<lparr>gc_upstream := remove_at i (gc_upstream cfg)\<rparr>) name)))"

text \<open>The clock is a parameter: \<open>now\<close> is the printed time stamp.\<close>

definition tombstone_removed_import ::
  "string \<Rightarrow> gateway_config \<Rightarrow> upstream_config \<Rightarrow> gateway_config" where
  "tombstone_removed_import now cfg removed =
     (case up_imported_from removed of
        None \<Rightarrow> cfg
      | Some source \<Rightarrow>
          cfg\<lparr>gc_tombstones :=
                filter (\<lambda>t. \<not> tombstone_matches_upstream t removed) (gc_tombstones cfg)
                @ [\<lparr>ts_name = up_name removed, ts_imported_from = source, ts_removed_at = now\<rparr>]\<rparr>)"

section \<open>Mutations of protected routes (\<open>config.rs\<close>)\<close>

definition same_place :: "mcp_route \<Rightarrow> mcp_route \<Rightarrow> bool" where
  "same_place a b =
     (eq_ignore_ascii_case (rt_public_host a) (rt_public_host b)
      \<and> rt_public_path a = rt_public_path b)"

definition same_subset_path :: "mcp_route \<Rightarrow> mcp_route \<Rightarrow> bool" where
  "same_subset_path existing r =
     (rt_enabled existing \<and> is_gateway_subset existing
      \<and> rt_public_path existing = rt_public_path r)"

text \<open>The three conflicts against the routes other than the one being replaced.\<close>

definition route_conflicts :: "mcp_route list \<Rightarrow> mcp_route \<Rightarrow> bool" where
  "route_conflicts others r =
     (list_ex (\<lambda>x. rt_enabled x \<and> rt_enabled r \<and> same_place x r) others
      \<or> (rt_enabled r \<and> is_gateway_subset r \<and> list_ex (\<lambda>x. same_subset_path x r) others))"

definition insert_protected_mcp_route ::
  "gw_env \<Rightarrow> gateway_config \<Rightarrow> mcp_route \<Rightarrow> tool_error + (mcp_route \<times> gateway_config)" where
  "insert_protected_mcp_route env cfg route =
     and_then (normalize_protected_mcp_route env route) (\<lambda>r.
     and_then (validate_protected_mcp_route env r) (\<lambda>_.
       if list_ex (\<lambda>x. rt_name x = rt_name r) (gc_routes cfg) then Inl (Conflict (rt_name r))
       else if route_conflicts (gc_routes cfg) r then Inl (Conflict (rt_name r))
       else Inr (r, cfg\<lparr>gc_routes := gc_routes cfg @ [r]\<rparr>)))"

definition update_protected_mcp_route ::
  "gw_env \<Rightarrow> gateway_config \<Rightarrow> string \<Rightarrow> mcp_route \<Rightarrow> tool_error + (mcp_route \<times> gateway_config)" where
  "update_protected_mcp_route env cfg name route =
     and_then (ok_or (position (\<lambda>r. rt_name r = name) (gc_routes cfg)) (Sdk ''not_found'')) (\<lambda>i.
     and_then (normalize_protected_mcp_route env route) (\<lambda>r.
     and_then (validate_protected_mcp_route env r) (\<lambda>_.
       if rt_name r \<noteq> name \<and> list_ex (\<lambda>x. rt_name x = rt_name r) (gc_routes cfg)
       then Inl (Conflict (rt_name r))
       else if route_conflicts (remove_at i (gc_routes cfg)) r then Inl (Conflict (rt_name r))
       else Inr (r, cfg\<lparr>gc_routes := (gc_routes cfg)[i := r]\<rparr>))))"

definition remove_protected_mcp_route ::
  "gateway_config \<Rightarrow> string \<Rightarrow> tool_error + (mcp_route \<times> gateway_config)" where
  "remove_protected_mcp_route cfg name =
     and_then (ok_or (position (\<lambda>r. rt_name r = name) (gc_routes cfg)) (Sdk ''not_found'')) (\<lambda>i.
     Inr (gc_routes cfg ! i, cfg\<lparr>gc_routes := remove_at i (gc_routes cfg)\<rparr>))"

end
