(* ===== verification/Gateway_Logic.thy ===== *)
theory Gateway_Logic
  imports Gateway_Config
begin

text \<open>
  What the mutations of the gateway configuration keep: the declarative reading of the
  two validation loops, and that every accepted mutation of upstreams or routes leaves a
  configuration that \<open>validate_config\<close> accepts.
\<close>

named_theorems gw_ops \<open>definitions of the configuration mutations\<close>

section \<open>The validation loops, declaratively\<close>

lemma validate_upstreams_from_iff:
  "validate_upstreams_from env prefs seen us = Inr () \<longleftrightarrow>
     (\<forall>u \<in> set us. validate_upstream env prefs u = Inr ())
     \<and> distinct (map up_name us) \<and> set (map up_name us) \<inter> set seen = {}"
  by (induction us arbitrary: seen) (auto simp: and_then_Inr)

lemma validate_upstreams_iff:
  "validate_upstreams env prefs us = Inr () \<longleftrightarrow>
     (\<forall>u \<in> set us. validate_upstream env prefs u = Inr ()) \<and> distinct (map up_name us)"
  by (simp add: validate_upstreams_def validate_upstreams_from_iff)

text \<open>The enabled routes, and those of them that are mounted at start-up.\<close>

definition enabled_routes :: "mcp_route list \<Rightarrow> mcp_route list" where
  "enabled_routes rs = filter rt_enabled rs"

definition mounted_routes :: "mcp_route list \<Rightarrow> mcp_route list" where
  "mounted_routes rs = filter (\<lambda>r. rt_enabled r \<and> is_gateway_subset r) rs"

lemma validate_routes_from_iff:
  "validate_routes_from env names keys paths rs = Inr () \<longleftrightarrow>
     (\<forall>r \<in> set rs. validate_protected_mcp_route env r = Inr ())
     \<and> distinct (map rt_name rs) \<and> set (map rt_name rs) \<inter> set names = {}
     \<and> distinct (map route_key (enabled_routes rs))
     \<and> set (map route_key (enabled_routes rs)) \<inter> set keys = {}
     \<and> distinct (map rt_public_path (mounted_routes rs))
     \<and> set (map rt_public_path (mounted_routes rs)) \<inter> set paths = {}"
  by (induction rs arbitrary: names keys paths)
     (auto simp: and_then_Inr enabled_routes_def mounted_routes_def)

lemma validate_protected_mcp_routes_iff:
  "validate_protected_mcp_routes env rs = Inr () \<longleftrightarrow>
     (\<forall>r \<in> set rs. validate_protected_mcp_route env r = Inr ())
     \<and> distinct (map rt_name rs)
     \<and> distinct (map route_key (enabled_routes rs))
     \<and> distinct (map rt_public_path (mounted_routes rs))"
  by (simp add: validate_protected_mcp_routes_def validate_routes_from_iff)

lemma validate_config_iff:
  "validate_config env cfg = Inr () \<longleftrightarrow>
     validate_code_mode env (gc_code_mode cfg) = Inr ()
     \<and> validate_upstreams env (gc_gateway cfg) (gc_upstream cfg) = Inr ()
     \<and> validate_protected_mcp_routes env (gc_routes cfg) = Inr ()"
  by (simp add: validate_config_def and_then_Inr)

section \<open>Lists updated by index\<close>

lemma position_Some:
  "position P xs = Some i \<Longrightarrow> i < length xs \<and> P (xs ! i) \<and> (\<forall>j < i. \<not> P (xs ! j))"
proof (induction xs arbitrary: i)
  case Nil
  then show ?case by simp
next
  case (Cons x xs)
  show ?case
  proof (cases "P x")
    case True
    with Cons.prems show ?thesis by simp
  next
    case False
    with Cons.prems obtain k where "i = Suc k" "position P xs = Some k" by auto
    with Cons.IH [of k] False show ?thesis by (auto simp: nth_Cons split: nat.splits)
  qed
qed

lemma position_None: "position P xs = None \<longleftrightarrow> (\<forall>x \<in> set xs. \<not> P x)"
  by (induction xs) auto

lemma split_at: "i < length xs \<Longrightarrow> xs = take i xs @ xs ! i # drop (Suc i) xs"
  by (rule id_take_nth_drop)

lemma update_split: "i < length xs \<Longrightarrow> xs[i := y] = take i xs @ y # drop (Suc i) xs"
  by (rule upd_conv_take_nth_drop)

lemma set_remove_at: "set (remove_at i xs) \<subseteq> set xs"
  by (auto simp: remove_at_def dest: in_set_takeD in_set_dropD)

lemma distinct_remove_at: "distinct (map f xs) \<Longrightarrow> distinct (map f (remove_at i xs))"
proof (cases "i < length xs")
  case True
  assume "distinct (map f xs)"
  then have "distinct (map f (take i xs @ xs ! i # drop (Suc i) xs))"
    using True by (simp flip: id_take_nth_drop)
  then show ?thesis by (simp add: remove_at_def)
qed (simp add: remove_at_def)

lemma distinct_filter_remove_at:
  "distinct (map f (filter P xs)) \<Longrightarrow> distinct (map f (filter P (remove_at i xs)))"
proof (cases "i < length xs")
  case True
  assume "distinct (map f (filter P xs))"
  then have "distinct (map f (filter P (take i xs @ xs ! i # drop (Suc i) xs)))"
    using True by (simp flip: id_take_nth_drop)
  then show ?thesis by (auto simp: remove_at_def split: if_splits)
qed (simp add: remove_at_def)

lemma filter_update_distinct:
  assumes "i < length xs" and "distinct (map f (filter P (remove_at i xs)))"
    and "P y \<Longrightarrow> f y \<notin> f ` set (filter P (remove_at i xs))"
  shows "distinct (map f (filter P (xs[i := y])))"
  using assms by (auto simp: update_split remove_at_def)

lemma set_update_subset: "set (xs[i := y]) \<subseteq> insert y (set xs)"
  by (rule set_update_subset_insert)

lemma removed_key_gone:
  assumes "distinct (map f xs)" and "position (\<lambda>x. f x = n) xs = Some i"
  shows "n \<notin> f ` set (remove_at i xs)"
proof -
  have "i < length xs" and "f (xs ! i) = n" using position_Some [OF assms(2)] by auto
  moreover have "distinct (map f (take i xs @ xs ! i # drop (Suc i) xs))"
    using assms(1) calculation(1) by (simp flip: id_take_nth_drop)
  ultimately show ?thesis by (auto simp: remove_at_def)
qed

section \<open>Upstreams\<close>

lemma insert_upstream_valid:
  assumes "validate_config env cfg = Inr ()" and "insert_upstream env cfg u = Inr cfg'"
  shows "validate_config env cfg' = Inr ()"
  using assms
  by (force simp: insert_upstream_def and_then_Inr validate_config_iff validate_upstreams_iff
      list_ex_iff split: if_splits)

lemma apply_patch_name [simp]: "up_name (apply_patch p u) = or_keep (pt_name p) (up_name u)"
  by (simp add: apply_patch_def)

text \<open>What a route needs to be valid does not name the upstream it points to.\<close>

lemma rename_route_simps [simp]:
  "rt_name (rename_route a b r) = rt_name r"
  "rt_enabled (rename_route a b r) = rt_enabled r"
  "rt_public_host (rename_route a b r) = rt_public_host r"
  "rt_public_path (rename_route a b r) = rt_public_path r"
  "rt_backend_url (rename_route a b r) = rt_backend_url r"
  "route_key (rename_route a b r) = route_key r"
  "is_gateway_subset (rename_route a b r) = is_gateway_subset r"
  "(rt_upstream (rename_route a b r) = None) = (rt_upstream r = None)"
  by (simp_all add: rename_route_def route_key_def is_gateway_subset_def)

lemma rename_route_valid [simp]:
  "validate_protected_mcp_route env (rename_route a b r) = validate_protected_mcp_route env r"
  by (cases "rt_target r"; cases "rt_upstream r")
     (auto simp: validate_protected_mcp_route_def rename_route_def subset_exposes_nothing_def
      split: option.splits route_target.splits)

lemma filter_map_rename:
  "enabled_routes (map (rename_route a b) rs) = map (rename_route a b) (enabled_routes rs)"
  "mounted_routes (map (rename_route a b) rs) = map (rename_route a b) (mounted_routes rs)"
  by (simp_all add: enabled_routes_def mounted_routes_def filter_map comp_def)

lemma cascade_upstream_rename_routes:
  "validate_protected_mcp_routes env (gc_routes (cascade_upstream_rename cfg a b)) = Inr () \<longleftrightarrow>
   validate_protected_mcp_routes env (gc_routes cfg) = Inr ()"
  by (simp add: cascade_upstream_rename_def validate_protected_mcp_routes_iff filter_map_rename
      comp_def)

lemma update_upstreams_valid:
  assumes v: "validate_upstreams env prefs us = Inr ()" and i: "position (\<lambda>u. up_name u = n) us = Some i"
    and u: "validate_upstream env prefs u = Inr ()"
    and fresh: "up_name u \<noteq> n \<Longrightarrow> \<forall>x \<in> set us. up_name x \<noteq> up_name u"
  shows "validate_upstreams env prefs (us[i := u]) = Inr ()"
proof -
  from position_Some [OF i] have lt: "i < length us" by auto
  have d: "distinct (map up_name us)" using v by (simp add: validate_upstreams_iff)
  have "up_name u \<notin> up_name ` set (remove_at i us)"
  proof (cases "up_name u = n")
    case True
    with removed_key_gone [OF d i] show ?thesis by simp
  next
    case False
    with fresh set_remove_at [of i us] show ?thesis by fastforce
  qed
  then have "distinct (map up_name (filter (\<lambda>_. True) (us[i := u])))"
    using lt d by (intro filter_update_distinct) (simp_all add: distinct_remove_at)
  with v u set_update_subset [of us i u] show ?thesis
    by (auto simp: validate_upstreams_iff)
qed

lemma update_upstream_valid:
  assumes "validate_config env cfg = Inr ()" and "update_upstream env cfg name p = Inr cfg'"
  shows "validate_config env cfg' = Inr ()"
proof -
  obtain i where i: "position (\<lambda>u. up_name u = name) (gc_upstream cfg) = Some i"
    and u: "validate_upstream env (gc_gateway cfg) (apply_patch p (gc_upstream cfg ! i)) = Inr ()"
    and fresh: "\<And>n. renamed_to p name = Some n \<Longrightarrow> \<forall>x \<in> set (gc_upstream cfg). up_name x \<noteq> n"
    and cfg': "cfg' = (let c = cfg\<lparr>gc_upstream :=
        (gc_upstream cfg)[i := apply_patch p (gc_upstream cfg ! i)]\<rparr>
      in case renamed_to p name of Some n \<Rightarrow> cascade_upstream_rename c name n | None \<Rightarrow> c)"
    using assms(2)
    by (auto simp: update_upstream_def and_then_Inr Let_def list_ex_iff split: option.splits if_splits)
  have nm: "up_name (gc_upstream cfg ! i) = name" using position_Some [OF i] by simp
  have "validate_upstreams env (gc_gateway cfg)
          ((gc_upstream cfg)[i := apply_patch p (gc_upstream cfg ! i)]) = Inr ()"
    using assms(1) i u fresh nm
    by (intro update_upstreams_valid [where n = name])
       (auto simp: validate_config_iff renamed_to_def or_keep_def split: option.splits if_splits)
  with assms(1) cfg' show ?thesis
    using cascade_upstream_rename_routes [of env
        "cfg\<lparr>gc_upstream := (gc_upstream cfg)[i := apply_patch p (gc_upstream cfg ! i)]\<rparr>" name]
    by (auto simp: validate_config_iff Let_def cascade_upstream_rename_def split: option.splits)
qed

text \<open>A pruned route keeps its name, its place and its kind, and stays valid.\<close>

lemma prune_route_keeps:
  assumes "prune_route n r = Some r'"
  shows "rt_name r' = rt_name r" "rt_enabled r' = rt_enabled r" "route_key r' = route_key r"
    "rt_public_path r' = rt_public_path r" "is_gateway_subset r' = is_gateway_subset r"
  using assms
  by (auto simp: prune_route_def route_key_def is_gateway_subset_def Let_def
      split: if_splits option.splits route_target.splits)

lemma prune_route_valid:
  assumes "prune_route n r = Some r'" and "validate_protected_mcp_route env r = Inr ()"
  shows "validate_protected_mcp_route env r' = Inr ()"
  using assms
  by (cases "rt_target r"; cases "rt_upstream r")
     (auto simp: prune_route_def validate_protected_mcp_route_def and_then_Inr Let_def
      split: if_splits route_target.splits)

lemma distinct_map_filter:
  assumes "\<And>x y. f x = Some y \<Longrightarrow> g y = g x \<and> P y = P x"
    and "distinct (map g (filter P xs))"
  shows "distinct (map g (filter P (List.map_filter f xs)))"
  using assms(2)
proof (induction xs)
  case Nil
  then show ?case by (simp add: List.map_filter_def)
next
  case (Cons x xs)
  have sub: "g ` set (filter P (List.map_filter f xs)) \<subseteq> g ` set (filter P xs)"
    using assms(1) by (force simp: map_filter_def)
  show ?case
    using Cons sub assms(1) [of x]
    by (cases "f x") (auto simp: List.map_filter_simps split: if_splits)
qed

lemma cascade_removal_routes_valid:
  assumes "validate_protected_mcp_routes env rs = Inr ()"
  shows "validate_protected_mcp_routes env (List.map_filter (prune_route n) rs) = Inr ()"
proof -
  have "distinct (map rt_name (filter (\<lambda>_. True) (List.map_filter (prune_route n) rs)))"
    using assms by (intro distinct_map_filter)
      (auto simp: validate_protected_mcp_routes_iff dest: prune_route_keeps)
  moreover have "distinct (map route_key (filter rt_enabled (List.map_filter (prune_route n) rs)))"
    using assms by (intro distinct_map_filter)
      (auto simp: validate_protected_mcp_routes_iff enabled_routes_def dest: prune_route_keeps)
  moreover have "distinct (map rt_public_path
      (filter (\<lambda>r. rt_enabled r \<and> is_gateway_subset r) (List.map_filter (prune_route n) rs)))"
    using assms by (intro distinct_map_filter)
      (auto simp: validate_protected_mcp_routes_iff mounted_routes_def dest: prune_route_keeps)
  moreover have "\<forall>r \<in> set (List.map_filter (prune_route n) rs).
      validate_protected_mcp_route env r = Inr ()"
    using assms by (auto simp: map_filter_def validate_protected_mcp_routes_iff
        intro: prune_route_valid)
  ultimately show ?thesis
    by (simp add: validate_protected_mcp_routes_iff enabled_routes_def mounted_routes_def)
qed

lemma remove_at_in: "x \<in> set (remove_at i xs) \<Longrightarrow> x \<in> set xs"
  using set_remove_at [of i xs] by blast

lemma remove_upstream_valid:
  assumes "validate_config env cfg = Inr ()" and "remove_upstream cfg name = Inr (u, cfg')"
  shows "validate_config env cfg' = Inr ()"
proof -
  obtain i where "cfg' = cascade_upstream_removal
      (cfg\<lparr>gc_upstream := remove_at i (gc_upstream cfg)\<rparr>) name"
    using assms(2) by (auto simp: remove_upstream_def and_then_Inr)
  with assms(1) show ?thesis
    by (auto simp: validate_config_iff validate_upstreams_iff cascade_upstream_removal_def
        cascade_removal_routes_valid distinct_remove_at dest: remove_at_in)
qed

lemma tombstone_removed_import_valid [simp]:
  "validate_config env (tombstone_removed_import now cfg u) = validate_config env cfg"
  by (simp add: tombstone_removed_import_def validate_config_def split: option.splits)

section \<open>Routes\<close>

lemma same_place_key: "same_place a b \<longleftrightarrow> route_key b = route_key a"
  by (auto simp: same_place_def route_key_def eq_ignore_ascii_case_def)

lemma same_subset_path_sym:
  "same_subset_path x r \<longleftrightarrow>
     rt_enabled x \<and> is_gateway_subset x \<and> rt_public_path r = rt_public_path x"
  by (auto simp: same_subset_path_def)

lemma route_conflicts_iff:
  "\<not> route_conflicts rs r \<longleftrightarrow>
     (rt_enabled r \<longrightarrow> route_key r \<notin> route_key ` set (enabled_routes rs))
     \<and> (rt_enabled r \<and> is_gateway_subset r \<longrightarrow>
          rt_public_path r \<notin> rt_public_path ` set (mounted_routes rs))"
  by (auto simp: route_conflicts_def same_subset_path_sym same_place_key list_ex_iff
      enabled_routes_def mounted_routes_def image_iff)

lemma insert_protected_mcp_route_valid:
  assumes "validate_config env cfg = Inr ()"
    and "insert_protected_mcp_route env cfg r = Inr (r', cfg')"
  shows "validate_config env cfg' = Inr ()"
proof -
  have r': "validate_protected_mcp_route env r' = Inr ()"
    and nm: "rt_name r' \<notin> rt_name ` set (gc_routes cfg)"
    and nc: "\<not> route_conflicts (gc_routes cfg) r'"
    and cfg': "cfg' = cfg\<lparr>gc_routes := gc_routes cfg @ [r']\<rparr>"
    using assms(2)
    by (auto simp: insert_protected_mcp_route_def and_then_Inr list_ex_iff split: if_splits)
  show ?thesis
    using assms(1) r' nm nc cfg'
    by (auto simp: validate_config_iff validate_protected_mcp_routes_iff route_conflicts_iff
        enabled_routes_def mounted_routes_def)
qed

lemma update_protected_mcp_route_valid:
  assumes v: "validate_config env cfg = Inr ()"
    and "update_protected_mcp_route env cfg name r = Inr (r', cfg')"
  shows "validate_config env cfg' = Inr ()"
proof -
  let ?rs = "gc_routes cfg"
  obtain i where i: "position (\<lambda>r. rt_name r = name) ?rs = Some i"
    and r': "validate_protected_mcp_route env r' = Inr ()"
    and nm: "rt_name r' = name \<or> rt_name r' \<notin> rt_name ` set ?rs"
    and nc: "\<not> route_conflicts (remove_at i ?rs) r'"
    and cfg': "cfg' = cfg\<lparr>gc_routes := ?rs[i := r']\<rparr>"
    using assms(2)
    by (fastforce simp: update_protected_mcp_route_def and_then_Inr list_ex_iff split: if_splits)
  have lt: "i < length ?rs" using position_Some [OF i] by auto
  have d: "distinct (map rt_name ?rs)" "distinct (map route_key (filter rt_enabled ?rs))"
    "distinct (map rt_public_path (filter (\<lambda>r. rt_enabled r \<and> is_gateway_subset r) ?rs))"
    using v by (auto simp: validate_config_iff validate_protected_mcp_routes_iff
        enabled_routes_def mounted_routes_def)
  have "rt_name r' \<notin> rt_name ` set (remove_at i ?rs)"
  proof (cases "rt_name r' = name")
    case True
    with removed_key_gone [OF d(1) i] show ?thesis by simp
  next
    case False
    with nm set_remove_at [of i ?rs] show ?thesis by blast
  qed
  then have "distinct (map rt_name (filter (\<lambda>_. True) (?rs[i := r'])))"
    using lt d(1) by (intro filter_update_distinct) (simp_all add: distinct_remove_at)
  moreover have "distinct (map route_key (filter rt_enabled (?rs[i := r'])))"
    using lt d(2) nc
    by (intro filter_update_distinct distinct_filter_remove_at)
       (auto simp: route_conflicts_iff enabled_routes_def)
  moreover have "distinct (map rt_public_path
      (filter (\<lambda>r. rt_enabled r \<and> is_gateway_subset r) (?rs[i := r'])))"
    using lt d(3) nc
    by (intro filter_update_distinct distinct_filter_remove_at)
       (auto simp: route_conflicts_iff mounted_routes_def)
  ultimately show ?thesis
    using v r' cfg' set_update_subset [of ?rs i r']
    by (auto simp: validate_config_iff validate_protected_mcp_routes_iff enabled_routes_def
        mounted_routes_def)
qed

lemma remove_protected_mcp_route_valid:
  assumes "validate_config env cfg = Inr ()"
    and "remove_protected_mcp_route cfg name = Inr (r, cfg')"
  shows "validate_config env cfg' = Inr ()"
proof -
  obtain i where "cfg' = cfg\<lparr>gc_routes := remove_at i (gc_routes cfg)\<rparr>"
    using assms(2) by (auto simp: remove_protected_mcp_route_def and_then_Inr)
  with assms(1) show ?thesis
    by (auto simp: validate_config_iff validate_protected_mcp_routes_iff distinct_remove_at
        enabled_routes_def mounted_routes_def distinct_filter_remove_at dest: remove_at_in)
qed

lemma default_gateway_config_valid: "validate_config env default_gateway_config = Inr ()"
  by (simp add: validate_config_iff default_gateway_config_def default_code_mode_def
      validate_code_mode_def code_mode_validate_def validate_upstreams_def
      validate_protected_mcp_routes_def)

lemma load_gateway_config_valid:
  assumes "load_gateway_config env f = Inr cfg"
  shows "validate_config env cfg = Inr ()"
  using assms
proof (cases f)
  case Missing
  with assms show ?thesis
    by (auto simp: load_gateway_config_def default_gateway_config_valid)
qed (auto simp: load_gateway_config_def and_then_Inr)

text \<open>Loading touches nothing but the routes.\<close>

lemma load_gateway_config_keeps:
  assumes "load_gateway_config env (Decoded cfg) = Inr cfg'"
  shows "\<exists>rs. cfg' = cfg\<lparr>gc_routes := rs\<rparr>"
  using assms by (auto simp: load_gateway_config_def and_then_Inr normalize_config_def)

section \<open>References of routes to upstreams\<close>

definition route_refers :: "mcp_route \<Rightarrow> string \<Rightarrow> bool" where
  "route_refers r n =
     (rt_upstream r = Some n
      \<or> (case gateway_subset_target r of Some t \<Rightarrow> n \<in> set (gs_upstreams t) | None \<Rightarrow> False))"

lemma rename_route_refers:
  "a \<noteq> b \<Longrightarrow> \<not> route_refers (rename_route a b r) a"
  by (auto simp: route_refers_def rename_route_def gateway_subset_target_def rename_in_def
      split: option.splits route_target.splits)

lemma rename_route_refers_iff:
  "n \<noteq> a \<Longrightarrow> route_refers (rename_route a b r) n \<longleftrightarrow>
     route_refers r n \<or> (n = b \<and> route_refers r a)"
  by (auto simp: route_refers_def rename_route_def gateway_subset_target_def rename_in_def
      split: option.splits route_target.splits if_splits)

lemma prune_route_refers:
  "prune_route n r = Some r' \<Longrightarrow> \<not> route_refers r' n"
  by (auto simp: route_refers_def prune_route_def gateway_subset_target_def Let_def
      split: option.splits route_target.splits if_splits)

lemma prune_route_refers_iff:
  "prune_route n r = Some r' \<Longrightarrow> m \<noteq> n \<Longrightarrow> route_refers r' m \<longleftrightarrow> route_refers r m"
  by (auto simp: route_refers_def prune_route_def gateway_subset_target_def Let_def
      split: option.splits route_target.splits if_splits)

lemma prune_route_same:
  assumes "validate_protected_mcp_route env r = Inr ()" and "\<not> route_refers r n"
  shows "prune_route n r = Some r"
proof (cases "rt_target r")
  case None
  then show ?thesis using assms(2) by (simp add: route_refers_def prune_route_def)
next
  case (Some tgt)
  then obtain t where t: "rt_target r = Some (GatewaySubset t)" by (cases tgt) simp
  have "filter (\<lambda>u. u \<noteq> n) (gs_upstreams t) = gs_upstreams t"
    using assms(2) t by (auto simp: route_refers_def gateway_subset_target_def filter_id_conv)
  moreover have "\<not> subset_exposes_nothing t"
    using assms(1) t by (auto simp: validate_protected_mcp_route_def and_then_Inr split: if_splits)
  ultimately show ?thesis using assms(2) t by (simp add: route_refers_def prune_route_def)
qed

section \<open>What the validation of an upstream reads\<close>

definition checked_fields where
  "checked_fields u =
     (up_name u, up_url u, up_transport u, up_socket_path u, up_headers u, up_bearer_token_env u,
      up_command u, up_args u, up_env u, up_oauth u)"

lemma validate_transport_checked:
  assumes "checked_fields u = checked_fields v"
  shows "validate_transport env u = validate_transport env v"
proof -
  note eqs [simp] = assms [unfolded checked_fields_def prod.inject]
  have [simp]: "url_is u = url_is v" by (simp add: url_is_def fun_eq_iff)
  have [simp]: "effective_transport u = effective_transport v"
    by (simp add: effective_transport_def cong: option.case_cong if_cong)
  have [simp]: "validate_unix_socket env u = validate_unix_socket env v"
    by (simp add: validate_unix_socket_def cong: option.case_cong if_cong)
  have [simp]: "validate_http u = validate_http v" "validate_websocket u = validate_websocket v"
    "validate_stdio u = validate_stdio v"
    by (simp_all add: validate_http_def validate_websocket_def validate_stdio_def)
  show ?thesis
    by (simp add: validate_transport_def cong: option.case_cong upstream_transport.case_cong if_cong)
qed

lemma upstream_config_validate_checked:
  assumes "checked_fields u = checked_fields v"
  shows "upstream_config_validate env u = upstream_config_validate env v"
proof -
  note eqs [simp] = assms [unfolded checked_fields_def prod.inject]
  have [simp]: "url_is u = url_is v" by (simp add: url_is_def fun_eq_iff)
  have [simp]: "validate_google_provider u = validate_google_provider v"
    by (simp add: validate_google_provider_def fun_eq_iff)
  have [simp]: "validate_upstream_url env u = validate_upstream_url env v"
    by (simp add: validate_upstream_url_def)
  show ?thesis
    by (simp add: upstream_config_validate_def validate_transport_checked [OF assms]
        cong: option.case_cong if_cong)
qed

lemma validate_upstream_checked:
  assumes "checked_fields u = checked_fields v"
  shows "validate_upstream env prefs u = validate_upstream env prefs v"
  using assms upstream_config_validate_checked [OF assms]
  by (simp add: validate_upstream_def checked_fields_def cong: option.case_cong)

end
