(* ===== verification/Gateway_Routes.thy ===== *)
theory Gateway_Routes
  imports Gateway_Logic
begin

text \<open>
  The live index of protected routes (\<open>crates/labby-gateway/src/gateway/protected_routes.rs\<close>):
  routes grouped by host, each group sorted by the length of the public path, longest
  first. The reference definition at the end picks the longest match directly; the
  index is shown to compute it.
\<close>

section \<open>The index\<close>

definition normalize_host :: "string \<Rightarrow> string option" where
  "normalize_host raw =
     (let host = trim_end_char (CHR ''.'') (trim (hd (split_char (CHR '','') raw)))
      in if host = [] then None
         else Some (to_ascii_lowercase (hd (split_char (CHR '':'') host))))"

definition normalize_request_path :: "string \<Rightarrow> string" where
  "normalize_request_path path =
     (let p = trim (hd (split_char (CHR ''?'') path))
      in if starts_with p ''/'' then p else CHR ''/'' # p)"

definition path_matches_prefix :: "string \<Rightarrow> string \<Rightarrow> bool" where
  "path_matches_prefix path pfx =
     (path = pfx
      \<or> (case strip_prefix (trim_end_char (CHR ''/'') pfx) path of
           None \<Rightarrow> False
         | Some rest \<Rightarrow> starts_with rest ''/''))"

text \<open>A \<open>HashMap\<close> from hosts to routes; the order of its entries is not observed.\<close>

type_synonym route_index = "(string \<times> mcp_route list) list"

definition index_host :: "mcp_route \<Rightarrow> string" where
  "index_host r =
     (case normalize_host (rt_public_host r) of
        Some h \<Rightarrow> h
      | None \<Rightarrow> to_ascii_lowercase (rt_public_host r))"

fun push_route :: "string \<Rightarrow> mcp_route \<Rightarrow> route_index \<Rightarrow> route_index" where
  "push_route h r [] = [(h, [r])]"
| "push_route h r ((k, rs) # idx) =
     (if k = h then (k, rs @ [r]) # idx else (k, rs) # push_route h r idx)"

definition sort_by_path_length :: "mcp_route list \<Rightarrow> mcp_route list" where
  "sort_by_path_length rs = sort_key (\<lambda>r. - int (length (rt_public_path r))) rs"

definition from_routes :: "mcp_route list \<Rightarrow> route_index" where
  "from_routes routes =
     map (\<lambda>(h, rs). (h, sort_by_path_length rs))
       (fold (\<lambda>r idx. push_route (index_host r) r idx) (filter rt_enabled routes) [])"

definition resolve :: "route_index \<Rightarrow> string \<Rightarrow> string \<Rightarrow> mcp_route option" where
  "resolve idx host path =
     Option.bind (normalize_host host) (\<lambda>h.
     Option.bind (map_of idx h)
       (List.find (\<lambda>r. path_matches_prefix (normalize_request_path path) (rt_public_path r))))"

definition metadata_prefix :: string where
  "metadata_prefix = ''/.well-known/oauth-protected-resource''"

definition resolve_exact_metadata_path :: "route_index \<Rightarrow> string \<Rightarrow> string \<Rightarrow> mcp_route option" where
  "resolve_exact_metadata_path idx host metadata_path =
     Option.bind (strip_prefix metadata_prefix metadata_path) (\<lambda>sfx.
       let public_path = (if sfx = [] then ''/mcp'' else sfx)
       in Option.bind (normalize_host host) (\<lambda>h.
          Option.bind (map_of idx h) (List.find (\<lambda>r. rt_public_path r = public_path))))"

section \<open>Reference\<close>

text \<open>The earliest of the routes with the longest public path.\<close>

fun longest_path :: "mcp_route list \<Rightarrow> mcp_route option" where
  "longest_path [] = None"
| "longest_path (r # rs) =
     (case longest_path rs of
        None \<Rightarrow> Some r
      | Some q \<Rightarrow>
          if length (rt_public_path q) \<le> length (rt_public_path r) then Some r else Some q)"

definition serves :: "string \<Rightarrow> mcp_route \<Rightarrow> bool" where
  "serves h r = (rt_enabled r \<and> index_host r = h)"

definition route_for :: "mcp_route list \<Rightarrow> string \<Rightarrow> string \<Rightarrow> mcp_route option" where
  "route_for routes host path =
     Option.bind (normalize_host host) (\<lambda>h.
       longest_path (filter (\<lambda>r. serves h r
         \<and> path_matches_prefix (normalize_request_path path) (rt_public_path r)) routes))"

section \<open>The index computes the reference\<close>

lemma map_of_push_route:
  "map_of (push_route h r idx) k =
     (if k = h then Some ((case map_of idx h of Some rs \<Rightarrow> rs | None \<Rightarrow> []) @ [r]) else map_of idx k)"
  by (induction h r idx rule: push_route.induct) auto

lemma map_of_fold_push:
  "map_of (fold (\<lambda>r idx. push_route (index_host r) r idx) rs idx) h =
     (let here = filter (\<lambda>r. index_host r = h) rs
      in if here = [] then map_of idx h
         else Some ((case map_of idx h of Some qs \<Rightarrow> qs | None \<Rightarrow> []) @ here))"
  by (induction rs arbitrary: idx) (auto simp: map_of_push_route Let_def)

lemma map_of_from_routes:
  "map_of (from_routes routes) h =
     (let here = filter (serves h) routes
      in if here = [] then None else Some (sort_by_path_length here))"
proof -
  have "filter (\<lambda>r. index_host r = h) (filter rt_enabled routes) = filter (serves h) routes"
    by (auto simp: serves_def intro: filter_cong)
  moreover have "map_of (map (\<lambda>(k, rs). (k, sort_by_path_length rs)) idx) h =
      map_option sort_by_path_length (map_of idx h)" for idx :: route_index
    by (induction idx) auto
  ultimately show ?thesis
    by (simp add: from_routes_def map_of_fold_push Let_def)
qed

definition option_hd :: "'a list \<Rightarrow> 'a option" where
  "option_hd xs = (case xs of [] \<Rightarrow> None | x # _ \<Rightarrow> Some x)"

lemma find_option_hd: "List.find P xs = option_hd (filter P xs)"
  by (induction xs) (auto simp: option_hd_def)

lemma option_hd_insort:
  "option_hd (insort_key f x xs) =
     Some (case option_hd xs of None \<Rightarrow> x | Some y \<Rightarrow> if f x \<le> f y then x else y)"
  by (cases xs) (auto simp: option_hd_def)

lemma option_hd_sort_by_path_length: "option_hd (sort_by_path_length rs) = longest_path rs"
  by (induction rs)
     (auto simp: sort_by_path_length_def option_hd_insort option_hd_def [of "[]"] split: option.splits)

lemma find_sorted:
  "List.find P (sort_by_path_length rs) = longest_path (filter P rs)"
  by (simp add: find_option_hd filter_sort sort_by_path_length_def
      flip: option_hd_sort_by_path_length)

lemma longest_path_None: "longest_path rs = None \<longleftrightarrow> rs = []"
  by (cases rs) (auto split: option.splits)

lemma longest_path_Some:
  "longest_path rs = Some r \<Longrightarrow>
     r \<in> set rs \<and> (\<forall>q \<in> set rs. length (rt_public_path q) \<le> length (rt_public_path r))"
proof (induction rs arbitrary: r)
  case (Cons x xs)
  show ?case
  proof (cases "longest_path xs")
    case None
    with Cons.prems show ?thesis by (simp add: longest_path_None)
  next
    case (Some q)
    with Cons.prems Cons.IH [OF Some] show ?thesis by (fastforce split: if_splits)
  qed
qed simp

lemma find_in_index:
  "Option.bind (map_of (from_routes routes) h) (List.find P) =
     longest_path (filter (\<lambda>r. serves h r \<and> P r) routes)"
proof -
  have f: "filter P (filter (serves h) routes) = filter (\<lambda>r. serves h r \<and> P r) routes" by simp
  show ?thesis
  proof (cases "filter (serves h) routes = []")
    case True
    with f have "filter (\<lambda>r. serves h r \<and> P r) routes = []" by simp
    with True show ?thesis by (simp add: map_of_from_routes)
  next
    case False
    then show ?thesis by (simp add: map_of_from_routes Let_def find_sorted f)
  qed
qed

end
