(* ===== verification/Gateway_Hints.thy ===== *)
theory Gateway_Hints
  imports Gateway_Config
begin

text \<open>
  The sanitiser of Code Mode hints (\<open>normalize_code_mode_hint\<close> of
  \<open>crates/labby-runtime/src/gateway_config.rs\<close>). A hint is text about an upstream that is
  shown to models, so what passes is a short line of plain words. The lemmas say what an
  accepted hint is made of and that the sanitiser leaves it as it is: a stored hint is shown
  exactly as it was approved.
\<close>

section \<open>Definitions\<close>

definition CODE_MODE_HINT_MAX_CHARS :: nat where
  "CODE_MODE_HINT_MAX_CHARS = 240"

definition CODE_MODE_HINT_MAX_WORDS :: nat where
  "CODE_MODE_HINT_MAX_WORDS = 24"

text \<open>\<open>chars().count()\<close>: every byte but the continuation bytes of UTF-8 begins a character.\<close>

definition char_count :: "string \<Rightarrow> nat" where
  "char_count s = length (filter (\<lambda>c. \<not> (128 \<le> byte c \<and> byte c < 192)) s)"

text \<open>
  The control characters, in ASCII and the \<open>U+0080\<close> to \<open>U+009F\<close> block, and the listed
  punctuation. The directional marks of that list are neither ASCII nor white space and
  refused by the loop below like every such character.
\<close>

definition hint_refused :: "char \<Rightarrow> bool" where
  "hint_refused c =
     (byte c < 32 \<or> byte c = 127
      \<or> List.member [CHR ''`'', CHR ''<'', CHR ''>'', CHR ''['', CHR '']'', CHR ''{'', CHR ''}'',
           CHR 0x5C, CHR ''|'', CHR ''#'', CHR ''$'', CHR ''@'', CHR ''^'', CHR ''*'', CHR ''~'',
           CHR 0x22, CHR 0x27] c)"

definition hint_char :: "char \<Rightarrow> bool" where
  "hint_char c =
     (is_ascii_alphanumeric c
      \<or> List.member [CHR '' '', CHR '','', CHR ''.'', CHR '':'', CHR '';'', CHR ''&'', CHR ''/'',
           CHR ''-'', CHR ''_'', CHR ''('', CHR '')''] c)"

definition c1_control :: "char \<Rightarrow> string \<Rightarrow> bool" where
  "c1_control a s = (byte a = 194 \<and> s \<noteq> [] \<and> byte (hd s) < 160)"

text \<open>The loop over the characters: a run of white space becomes one blank.\<close>

definition push_blank :: "bool \<Rightarrow> string option \<Rightarrow> string option" where
  "push_blank previous_was_space r =
     (if previous_was_space then r else map_option (Cons (CHR '' '')) r)"

fun hint_chars :: "bool \<Rightarrow> string \<Rightarrow> string option" where
  "hint_chars sp [] = Some []"
| "hint_chars sp (a # s) =
     (if hint_refused a \<or> c1_control a s then None
      else if ws_len (a # s) > 0 then push_blank sp (hint_chars True (drop (ws_len (a # s) - 1) s))
      else if hint_char a then map_option (Cons a) (hint_chars False s)
      else None)"

definition word_char :: "char \<Rightarrow> bool" where
  "word_char c = (is_ascii_alphanumeric c \<or> c = CHR ''_'' \<or> c = CHR ''-'')"

text \<open>\<open>split\<close> at every character that is not part of a word, without the empty pieces.\<close>

fun words_from :: "string \<Rightarrow> string \<Rightarrow> string list" where
  "words_from acc [] = close_word acc"
| "words_from acc (c # s) =
     (if word_char c then words_from (c # acc) s else close_word acc @ words_from [] s)"

definition hint_words :: "string \<Rightarrow> string list" where
  "hint_words s = words_from [] s"

text \<open>\<open>trim_matches\<close> with the punctuation around a token.\<close>

definition token_punct :: "char \<Rightarrow> bool" where
  "token_punct c = List.member [CHR '','', CHR ''.'', CHR '':'', CHR '';'', CHR ''('', CHR '')''] c"

definition trim_punct :: "string \<Rightarrow> string" where
  "trim_punct s = rev (dropWhile token_punct (rev (dropWhile token_punct s)))"

text \<open>\<open>parse::<u8>\<close> succeeds: an optional sign and at least one digit, at most 255.\<close>

definition is_u8 :: "string \<Rightarrow> bool" where
  "is_u8 s =
     (let ds = (case s of c # r \<Rightarrow> if c = CHR ''+'' then r else s | [] \<Rightarrow> s)
      in ds \<noteq> [] \<and> list_all is_ascii_digit ds
         \<and> foldl (\<lambda>n c. 10 * n + (byte c - 48)) 0 ds \<le> 255)"

definition host_part :: "string \<Rightarrow> string" where
  "host_part lower =
     (case split_once (CHR '':'') lower of
        Some (host, port) \<Rightarrow> if host \<noteq> [] \<and> list_all is_ascii_digit port then host else lower
      | None \<Rightarrow> lower)"

definition label_ok :: "string \<Rightarrow> bool" where
  "label_ok p = (p \<noteq> [] \<and> list_all (\<lambda>c. is_ascii_alphanumeric c \<or> c = CHR ''-'') p)"

definition endpoint_token :: "string \<Rightarrow> bool" where
  "endpoint_token raw =
     (let lower = to_ascii_lowercase (trim_punct raw);
          parts = split_char (CHR ''.'') (host_part lower)
      in (2 \<le> length lower \<and> lower ! 1 = CHR '':'' \<and> is_ascii_alphabetic (lower ! 0))
         \<or> (length parts = 4 \<and> list_all is_u8 parts)
         \<or> (2 \<le> length parts \<and> list_all label_ok parts
            \<and> 2 \<le> length (last parts) \<and> length (last parts) \<le> 63))"

definition looks_like_path_or_endpoint :: "string \<Rightarrow> string \<Rightarrow> bool" where
  "looks_like_path_or_endpoint normalized lower =
     (str_contains lower ''://'' \<or> str_contains lower ''www.'' \<or> CHR ''/'' \<in> set normalized
      \<or> list_ex endpoint_token (split_whitespace normalized))"

definition blocked_substrings :: "string list" where
  "blocked_substrings =
     [''ignore'', ''must'', ''execute'', ''run '', ''system'', ''developer'', ''prompt'',
      ''instruction'', ''secret'', ''token'', ''password'', ''authorization'', ''http://'',
      ''https://'', ''localhost'', ''127.0.0.1'', ''0.0.0.0'', ''.env'', ''/home/'', ''/users/'',
      ''c:'' @ [CHR 0x5C], [CHR 0x5C, CHR 0x5C], ''../'', ''./'', ''read '', ''write '', ''delete '',
      ''install '', ''upload '', ''download '', ''call '', ''tool '']"

definition blocked_words :: "string list" where
  "blocked_words =
     [''you'', ''your'', ''yours'', ''should'', ''shall'', ''will'', ''never'', ''always'', ''please'',
      ''use'', ''return'', ''respond'', ''act'', ''obey'', ''override'', ''bypass'', ''admin'', ''root'']"

text \<open>The checks on the normalised text.\<close>

definition hint_plain :: "string \<Rightarrow> bool" where
  "hint_plain normalized =
     (let ws = hint_words normalized; lower = to_ascii_lowercase normalized
      in ws \<noteq> [] \<and> length ws \<le> CODE_MODE_HINT_MAX_WORDS
         \<and> \<not> looks_like_path_or_endpoint normalized lower
         \<and> \<not> list_ex (str_contains lower) blocked_substrings
         \<and> \<not> list_ex (\<lambda>w. List.member blocked_words (to_ascii_lowercase w)) ws)"

definition normalize_code_mode_hint :: "string \<Rightarrow> string option" where
  "normalize_code_mode_hint raw =
     (let trimmed = trim raw
      in if trimmed = [] \<or> char_count trimmed > CODE_MODE_HINT_MAX_CHARS then None
         else (case hint_chars False trimmed of
                 None \<Rightarrow> None
               | Some out \<Rightarrow>
                   let normalized = trim out
                   in if normalized \<noteq> [] \<and> hint_plain normalized then Some normalized else None))"

section \<open>What an accepted hint is made of\<close>

text \<open>The text between words: one blank at a time.\<close>

fun single_blanks :: "bool \<Rightarrow> string \<Rightarrow> bool" where
  "single_blanks sp [] = True"
| "single_blanks sp (c # s) =
     (if c = CHR '' '' then \<not> sp \<and> single_blanks True s else single_blanks False s)"

lemma hint_char_ascii: "hint_char c \<Longrightarrow> byte c < 128 \<and> (c \<noteq> CHR '' '' \<longrightarrow> \<not> ws1 (byte c))"
  by (auto simp: hint_char_def is_ascii_alphanumeric_def is_ascii_alphabetic_def ws1_def
      is_ascii_uppercase_def is_ascii_lowercase_def is_ascii_digit_def)

lemma hint_char_not_refused: "hint_char c \<Longrightarrow> \<not> hint_refused c"
  by (auto simp: hint_char_def hint_refused_def is_ascii_alphanumeric_def is_ascii_alphabetic_def
      is_ascii_uppercase_def is_ascii_lowercase_def is_ascii_digit_def)

lemma hint_char_blank [simp]: "hint_char (CHR '' '')"
  by (simp add: hint_char_def)

lemma ws_len_ascii: "byte a < 128 \<Longrightarrow> ws_len (a # s) = (if ws1 (byte a) then 1 else 0)"
  by (cases "a # s" rule: ws_len.cases) (auto simp: ws2_def ws3_def)

lemma ws_len_starts: "ws_len (a # s) > 0 \<Longrightarrow> \<not> (128 \<le> byte a \<and> byte a < 192)"
  by (cases "a # s" rule: ws_len.cases) (auto simp: ws1_def ws2_def ws3_def split: if_splits)

lemma char_count_drop: "char_count (drop n s) \<le> char_count s"
  by (metis append_take_drop_id char_count_def filter_append le_add2 length_append)

lemma push_blank_Some:
  "push_blank sp r = Some t \<longleftrightarrow>
     (\<exists>u. r = Some u \<and> t = (if sp then u else CHR '' '' # u))"
  by (cases r) (auto simp: push_blank_def)

lemma hint_chars_Some:
  "hint_chars sp s = Some t \<Longrightarrow>
     list_all hint_char t \<and> single_blanks sp t \<and> length t \<le> char_count s"
proof (induction sp s arbitrary: t rule: hint_chars.induct)
  case (1 sp)
  then show ?case by simp
next
  case (2 sp a s)
  note ok = "2.prems"
  show ?case
  proof (cases "ws_len (a # s) > 0")
    case True
    with ok obtain u where u: "hint_chars True (drop (ws_len (a # s) - 1) s) = Some u"
      and t: "t = (if sp then u else CHR '' '' # u)" and r: "\<not> (hint_refused a \<or> c1_control a s)"
      by (auto simp: push_blank_Some split: if_splits)
    have "length u \<le> char_count s"
      using "2.IH"(1) [OF r True u] char_count_drop le_trans by blast
    moreover have "char_count (a # s) = Suc (char_count s)"
      using ws_len_starts [OF True] by (simp add: char_count_def)
    ultimately show ?thesis
      using "2.IH"(1) [OF r True u] t by (cases u) (auto split: if_splits)
  next
    case False
    with ok obtain u where u: "hint_chars False s = Some u" and t: "t = a # u" and a: "hint_char a"
      and r: "\<not> (hint_refused a \<or> c1_control a s)"
      by (auto split: if_splits)
    have "a \<noteq> CHR '' ''" using False by (auto simp: ws_len_space)
    then show ?thesis
      using "2.IH"(2) [OF r False a u] t a hint_char_ascii [OF a] by (auto simp: char_count_def)
  qed
qed

lemma hint_chars_id:
  "list_all hint_char t \<Longrightarrow> single_blanks sp t \<Longrightarrow> hint_chars sp t = Some t"
proof (induction t arbitrary: sp)
  case (Cons c t)
  have c: "hint_char c" using Cons.prems by simp
  have "ws1 (byte c) \<longleftrightarrow> c = CHR '' ''" using hint_char_ascii [OF c] by (auto simp: ws1_def)
  then show ?case
    using Cons hint_char_ascii [OF c] hint_char_not_refused [OF c]
    by (auto simp: ws_len_ascii c1_control_def push_blank_def split: if_splits)
qed simp

lemma single_blanks_append:
  "single_blanks sp (a @ b) \<Longrightarrow> single_blanks sp a \<and> single_blanks False b"
proof (induction a arbitrary: sp)
  case Nil
  then show ?case by (cases b) (auto split: if_splits)
qed (auto split: if_splits)

lemma trim_start_ascii:
  "\<forall>c \<in> set s. byte c < 128 \<Longrightarrow> trim_start s = dropWhile (\<lambda>c. ws1 (byte c)) s"
  by (induction s rule: trim_start.induct) (auto simp: ws2_def ws3_def)

lemma trim_start_rev_ascii:
  "\<forall>c \<in> set s. byte c < 128 \<Longrightarrow> trim_start_rev s = dropWhile (\<lambda>c. ws1 (byte c)) s"
  by (induction s rule: trim_start_rev.induct) (auto simp: ws2_def ws3_def)

lemma trim_ascii:
  assumes "\<forall>c \<in> set s. byte c < 128"
  shows "trim s = rev (dropWhile (\<lambda>c. ws1 (byte c)) (rev (dropWhile (\<lambda>c. ws1 (byte c)) s)))"
proof -
  have "\<forall>c \<in> set (rev (dropWhile (\<lambda>c. ws1 (byte c)) s)). byte c < 128"
    using assms set_dropWhileD by fastforce
  then show ?thesis
    using assms by (simp add: trim_def trim_end_def trim_start_ascii trim_start_rev_ascii)
qed

lemma dropWhile_rev_dropWhile:
  "dropWhile P (rev (dropWhile P (rev (dropWhile P s)))) = rev (dropWhile P (rev (dropWhile P s)))"
proof (cases "dropWhile P s")
  case Nil
  show ?thesis unfolding Nil by simp
next
  case (Cons y ys)
  have "\<not> P y" using Cons by (metis hd_dropWhile list.distinct(1) list.sel(1))
  then have "dropWhile P (rev ys @ [y]) = dropWhile P (rev ys) @ [y]"
    by (cases "\<forall>x \<in> set ys. P x") (auto simp: dropWhile_append)
  then show ?thesis using Cons \<open>\<not> P y\<close> by simp
qed

lemma trim_trim_ascii:
  assumes "\<forall>c \<in> set s. byte c < 128"
  shows "trim (trim s) = trim s"
proof -
  have "\<forall>c \<in> set (trim s). byte c < 128" using assms set_trim_subset by blast
  then show ?thesis using assms by (simp add: trim_ascii dropWhile_rev_dropWhile)
qed

lemma char_count_ascii: "\<forall>c \<in> set s. byte c < 128 \<Longrightarrow> char_count s = length s"
  by (auto simp: char_count_def intro!: arg_cong [where f = length] filter_True)

theorem hint_accepted:
  assumes "normalize_code_mode_hint raw = Some h"
  shows "h \<noteq> [] \<and> length h \<le> CODE_MODE_HINT_MAX_CHARS
    \<and> list_all (\<lambda>c. hint_char c \<and> c \<noteq> CHR ''/'') h \<and> single_blanks False h
    \<and> hint_plain h \<and> normalize_code_mode_hint h = Some h"
proof -
  from assms obtain out where out: "hint_chars False (trim raw) = Some out"
    and count: "char_count (trim raw) \<le> CODE_MODE_HINT_MAX_CHARS"
    and h: "h = trim out" "h \<noteq> []" "hint_plain h"
    by (auto simp: normalize_code_mode_hint_def Let_def split: if_splits option.splits)
  note o = hint_chars_Some [OF out]
  have ascii: "\<forall>c \<in> set out. byte c < 128" using o by (auto simp: list_all_iff dest: hint_char_ascii)
  obtain a b where ab: "out = a @ h @ b" using sublist_trim [of out] h(1) by (auto simp: sublist_def)
  have chars: "list_all hint_char h" and blanks: "single_blanks False h"
    using o ab single_blanks_append by (auto dest: single_blanks_append)
  have len: "length h \<le> CODE_MODE_HINT_MAX_CHARS" using o ab count by auto
  have h_ascii: "\<forall>c \<in> set h. byte c < 128" using ascii ab by auto
  have "CHR ''/'' \<notin> set h"
    using h(3) by (auto simp: hint_plain_def Let_def looks_like_path_or_endpoint_def)
  moreover have "trim h = h" using trim_trim_ascii [OF ascii] h(1) by simp
  ultimately show ?thesis
    using h chars blanks len char_count_ascii [OF h_ascii] hint_chars_id [OF chars blanks]
    by (auto simp: normalize_code_mode_hint_def Let_def list_all_iff)
qed

end
