(* ===== verification/Gateway_Manager.thy ===== *)
theory Gateway_Manager
  imports Gateway_Routes Gateway_Hints "HOL-Library.Char_ord" "HOL-Library.List_Lexorder"
begin

text \<open>
  The gateway manager (\<open>crates/labby-gateway/src/gateway/manager.rs\<close> and
  \<open>manager/*.rs\<close>) over the host's configuration store
  (\<open>crates/labby/src/dispatch/gateway/config_store.rs\<close>, \<open>crates/labby/src/config.rs\<close>,
  \<open>crates/labby/src/proxy/config.rs\<close>).

  The state is the configuration file, the live configuration, the live route index and
  the credentials handed to the \<open>.env\<close> writer. Every mutation holds the manager's
  mutation lock, so an operation is one step; reads and writes of the file, the clock,
  discovery and the runtime state file answer as the record \<open>gw_io\<close> of that step says.
  The upstream pool is not part of this state.
\<close>

section \<open>The host's configuration\<close>

datatype proxy_exposure = Tailscale | Local
datatype proxy_auth = ProxyTailnet | ProxyBearer | ProxyOauth | ProxyNone
datatype proxy_port = FixedPort nat | RandomPort

record proxy_preferences =
  px_exposure :: proxy_exposure
  px_auth :: proxy_auth
  px_path :: string
  px_port :: proxy_port
  px_port_range_start :: nat
  px_port_range_end :: nat
  px_bearer_token_env :: string
  px_oauth_scopes :: "string list"
  px_inherit_env :: "string list"
  px_shutdown_grace_ms :: nat

definition default_proxy_preferences :: proxy_preferences where
  "default_proxy_preferences =
     \<lparr>px_exposure = Tailscale, px_auth = ProxyTailnet, px_path = ''/mcp'', px_port = RandomPort,
      px_port_range_start = 49152, px_port_range_end = 65535,
      px_bearer_token_env = ''LABBY_PROXY_BEARER_TOKEN'',
      px_oauth_scopes = [''mcp:read'', ''mcp:write''], px_inherit_env = [],
      px_shutdown_grace_ms = 3000\<rparr>"

definition validate_proxy_path :: "string \<Rightarrow> bool" where
  "validate_proxy_path raw =
     (let path = trim raw
      in \<not> (path = [] \<or> path = ''/'' \<or> \<not> starts_with path ''/'' \<or> CHR ''?'' \<in> set path
             \<or> CHR ''#'' \<in> set path
             \<or> list_ex (\<lambda>s. s = ''.'' \<or> s = ''..'') (split_char (CHR ''/'') path)))"

text \<open>\<open>char::is_whitespace\<close> somewhere in the string, on its UTF-8 bytes.\<close>

fun has_whitespace :: "string \<Rightarrow> bool" where
  "has_whitespace (a # b # c # s) =
     (ws1 (byte a) \<or> ws2 (byte a) (byte b) \<or> ws3 (byte a) (byte b) (byte c)
      \<or> has_whitespace (b # c # s))"
| "has_whitespace [a, b] = (ws1 (byte a) \<or> ws2 (byte a) (byte b) \<or> has_whitespace [b])"
| "has_whitespace [a] = ws1 (byte a)"
| "has_whitespace [] = False"

definition proxy_validate :: "proxy_preferences \<Rightarrow> config_error + unit" where
  "proxy_validate p =
     ensure (validate_proxy_path (px_path p)
             \<and> px_port_range_start p \<le> px_port_range_end p
             \<and> 1024 \<le> px_port_range_start p
             \<and> px_port p \<noteq> FixedPort 0
             \<and> \<not> (px_exposure p = Local \<and> px_auth p = ProxyTailnet)
             \<and> trim (px_bearer_token_env p) \<noteq> []
             \<and> is_valid_env_var_name (px_bearer_token_env p)
             \<and> list_all is_valid_env_var_name (px_inherit_env p)
             \<and> \<not> (px_auth p = ProxyOauth \<and> px_oauth_scopes p = [])
             \<and> list_all (\<lambda>s. trim s \<noteq> [] \<and> \<not> has_whitespace s) (px_oauth_scopes p)
             \<and> 1 \<le> px_shutdown_grace_ms p \<and> px_shutdown_grace_ms p \<le> 60000)
       InvalidProxyConfig"

text \<open>
  \<open>LabConfig\<close>: the gateway-owned sections, two sections its validation reads, and the
  rest, which the gateway only carries along.
\<close>

record 'o host_sections =
  hs_proxy :: proxy_preferences
  hs_catalog_notification_timeout_ms :: "nat option"
  hs_other :: 'o

record 'o lab_config =
  lc_gateway :: gateway_config
  lc_host :: "'o host_sections"

definition to_gateway_config :: "'o lab_config \<Rightarrow> gateway_config" where
  "to_gateway_config l = lc_gateway l"

definition apply_gateway_config :: "'o lab_config \<Rightarrow> gateway_config \<Rightarrow> 'o lab_config" where
  "apply_gateway_config l gw = l\<lparr>lc_gateway := gw\<rparr>"

record 'o mgr_env =
  me_gw :: gw_env
  me_service_names :: "string list"
  me_other_default :: 'o

definition validate_protected_public_path_for_startup :: "string \<Rightarrow> config_error + unit" where
  "validate_protected_public_path_for_startup path =
     (let lower = to_ascii_lowercase path
      in if path = ''/'' then Inl (InvalidProtectedRoute ''public_path'')
         else if starts_with lower ''/.well-known'' \<or> starts_with lower ''/v1''
                 \<or> is_reserved_public_relay_path path
         then Inl (InvalidProtectedRoute ''public_path'')
         else ensure (\<not> path_is_ambiguous path) (InvalidProtectedRoute ''public_path''))"

definition validate_subset_for_startup ::
  "mcp_route \<Rightarrow> string list \<Rightarrow> string list \<Rightarrow> gateway_subset \<Rightarrow> config_error + unit" where
  "validate_subset_for_startup r upstream_names service_names t =
     (if subset_exposes_nothing t then Inl (InvalidProtectedRoute ''target'')
      else if rt_enabled r \<and> \<not> list_all (\<lambda>u. u \<in> set upstream_names) (gs_upstreams t)
      then Inl (InvalidProtectedRoute ''target.upstreams'')
      else ensure (\<not> rt_enabled r \<or> list_all (\<lambda>s. s \<in> set service_names) (gs_services t))
             (InvalidProtectedRoute ''target.services''))"

definition validate_protected_mcp_route_for_startup ::
  "mcp_route \<Rightarrow> string list \<Rightarrow> string list \<Rightarrow> config_error + unit" where
  "validate_protected_mcp_route_for_startup r upstream_names service_names =
     (if trim (rt_name r) = [] then Inl (InvalidProtectedRoute ''name'')
      else and_then (validate_protected_public_path_for_startup (trim (rt_public_path r))) (\<lambda>_.
        if rt_target r \<noteq> None \<and> (rt_upstream r \<noteq> None \<or> trim (rt_backend_url r) \<noteq> [])
        then Inl (InvalidProtectedRoute ''target'')
        else (case rt_target r of
                Some (GatewaySubset t) \<Rightarrow>
                  validate_subset_for_startup r upstream_names service_names t
              | None \<Rightarrow>
                  (case rt_upstream r of
                     Some _ \<Rightarrow> ensure (trim (rt_backend_url r) = [])
                                 (InvalidProtectedRoute ''upstream'')
                   | None \<Rightarrow> ensure (trim (rt_backend_url r) \<noteq> [])
                               (InvalidProtectedRoute ''backend_url'')))))"

fun validate_routes_for_startup_from ::
  "string list \<Rightarrow> string list \<Rightarrow> string list \<Rightarrow> (string \<times> string) list \<Rightarrow> mcp_route list
   \<Rightarrow> config_error + unit" where
  "validate_routes_for_startup_from upstream_names service_names names keys [] = Inr ()"
| "validate_routes_for_startup_from upstream_names service_names names keys (r # rs) =
     and_then (validate_protected_mcp_route_for_startup r upstream_names service_names) (\<lambda>_.
       let key = (to_ascii_lowercase (trim (rt_public_host r)), trim (rt_public_path r))
       in if trim (rt_name r) \<in> set names then Inl (InvalidProtectedRoute ''name'')
          else if rt_enabled r \<and> key \<in> set keys then Inl (InvalidProtectedRoute ''public_path'')
          else validate_routes_for_startup_from upstream_names service_names
                 (trim (rt_name r) # names) (if rt_enabled r then key # keys else keys) rs)"

definition validate_protected_mcp_routes_for_startup ::
  "'o mgr_env \<Rightarrow> gateway_config \<Rightarrow> config_error + unit" where
  "validate_protected_mcp_routes_for_startup me cfg =
     and_then (validate_gateway_subset_paths_are_unique (gc_routes cfg)) (\<lambda>_.
     validate_routes_for_startup_from (map up_name (gc_upstream cfg)) (me_service_names me)
       [] [] (gc_routes cfg))"

definition in_range :: "nat option \<Rightarrow> nat \<Rightarrow> nat \<Rightarrow> bool" where
  "in_range v lo hi = (case v of None \<Rightarrow> True | Some x \<Rightarrow> lo \<le> x \<and> x \<le> hi)"

fun validate_each_upstream :: "gw_env \<Rightarrow> upstream_config list \<Rightarrow> config_error + unit" where
  "validate_each_upstream env [] = Inr ()"
| "validate_each_upstream env (u # us) =
     and_then (upstream_config_validate env u) (\<lambda>_. validate_each_upstream env us)"

definition lab_validate :: "'o mgr_env \<Rightarrow> 'o lab_config \<Rightarrow> config_error + unit" where
  "lab_validate me l =
     (let g = lc_gateway l
      in and_then (code_mode_validate (me_gw me) (gc_code_mode g)) (\<lambda>_.
         and_then (proxy_validate (hs_proxy (lc_host l))) (\<lambda>_.
         and_then (ensure (in_range (gc_upstream_request_timeout_ms g) 1 300000)
                     InvalidUpstreamRequestTimeout) (\<lambda>_.
         and_then (ensure (in_range (gc_upstream_relay_timeout_ms g) 1 1800000)
                     InvalidUpstreamRelayTimeout) (\<lambda>_.
         and_then (ensure (in_range (hs_catalog_notification_timeout_ms (lc_host l)) 1 60000)
                     InvalidCatalogNotificationTimeout) (\<lambda>_.
         and_then (validate_each_upstream (me_gw me) (gc_upstream g)) (\<lambda>_.
         validate_protected_mcp_routes_for_startup me g)))))))"

section \<open>The configuration file and the host's store\<close>

text \<open>
  The file holds the gateway-owned sections and the others; \<open>None\<close> stands for other
  sections that do not decode. \<open>Written\<close>, \<open>NotWritten\<close> and \<open>Unrestricted\<close> are the
  outcomes of the atomic replacement: done, failed before the rename, or renamed but the
  mode of the file could not be restricted.
\<close>

type_synonym 'o config_file = "(gateway_config \<times> 'o host_sections option) toml_file"

datatype write_io = Written | NotWritten | Unrestricted

definition default_lab_config :: "'o mgr_env \<Rightarrow> 'o lab_config" where
  "default_lab_config me =
     \<lparr>lc_gateway = default_gateway_config,
      lc_host = \<lparr>hs_proxy = default_proxy_preferences, hs_catalog_notification_timeout_ms = None,
                 hs_other = me_other_default me\<rparr>\<rparr>"

definition host_load_gateway_config ::
  "'o mgr_env \<Rightarrow> 'o config_file \<Rightarrow> tool_error + 'o lab_config" where
  "host_load_gateway_config me f =
     (case f of
        Missing \<Rightarrow> Inr (default_lab_config me)
      | Unreadable \<Rightarrow> Inl (Sdk ''internal_error'')
      | Decoded (g, None) \<Rightarrow> Inl (Sdk ''internal_error'')
      | Decoded (g, Some h) \<Rightarrow>
          and_then (map_err (\<lambda>_. Sdk ''internal_error'')
                      (normalize_protected_mcp_routes (me_gw me) (gc_routes g))) (\<lambda>rs.
          Inr \<lparr>lc_gateway = g\<lparr>gc_routes := rs\<rparr>, lc_host = h\<rparr>))"

definition host_write_gateway_config ::
  "'o mgr_env \<Rightarrow> write_io \<Rightarrow> 'o config_file \<Rightarrow> 'o lab_config
   \<Rightarrow> (tool_error + unit) \<times> 'o config_file" where
  "host_write_gateway_config me w f l =
     (case lab_validate me l of
        Inl e \<Rightarrow> (Inl (Sdk ''internal_error''), f)
      | Inr _ \<Rightarrow>
          let f' = Decoded (lc_gateway l, Some (lc_host l))
          in (case w of
                NotWritten \<Rightarrow> (Inl (Sdk ''internal_error''), f)
              | Unrestricted \<Rightarrow> (Inl (Sdk ''internal_error''), f')
              | Written \<Rightarrow> (Inr (), f')))"

definition store_persist ::
  "'o mgr_env \<Rightarrow> write_io \<Rightarrow> 'o config_file \<Rightarrow> gateway_config
   \<Rightarrow> (tool_error + unit) \<times> 'o config_file" where
  "store_persist me w f cfg =
     (case host_load_gateway_config me f of
        Inl e \<Rightarrow> (Inl e, f)
      | Inr snapshot \<Rightarrow>
          host_write_gateway_config me w f (apply_gateway_config snapshot cfg))"

section \<open>The manager's state and its two ways to install a configuration\<close>

record 'o gw_state =
  gm_file :: "'o config_file"
  gm_config :: gateway_config
  gm_index :: route_index
  gm_credentials :: "(string \<times> string) list"

record discovered_server =
  ds_name :: string
  ds_spec :: upstream_config
  ds_source_client :: string
  ds_source_path :: string
  ds_env_key_count :: nat

record plugin_meta =
  pm_name :: string
  pm_required_env :: "string list"
  pm_optional_env :: "string list"

text \<open>
  What the environment answers during one operation: the two possible writes of the
  configuration file, the write of the \<open>.env\<close> file and its contents, the runtime state
  file, the clock, the discovered servers (\<open>None\<close>: no home directory), the registry
  of built-in services, the hash of the metadata collected for the upstream of a hint
  (\<open>None\<close>: too large to be shown to a provider), the OAuth manager of each upstream with the
  OAuth configuration it was made from, and whether the exchange of a code for tokens
  succeeds.
\<close>

record gw_io =
  io_write :: write_io
  io_migrate :: write_io
  io_env_write :: bool
  io_env_values :: "(string \<times> string) list option"
  io_runtime_state :: bool
  io_now :: string
  io_discovered :: "discovered_server list option"
  io_contains_service :: "string \<Rightarrow> bool"
  io_service_meta :: "string \<Rightarrow> plugin_meta option"
  io_metadata_hash :: "string option"
  io_oauth_manager :: "string \<Rightarrow> upstream_oauth option option"
  io_oauth_exchange :: "tool_error option"

text \<open>An operation either returns or fails, and leaves a state in both cases.\<close>

type_synonym ('o, 'a) gw_op = "'o gw_state \<Rightarrow> (tool_error + 'a) \<times> 'o gw_state"

definition gbind :: "('o, 'a) gw_op \<Rightarrow> ('a \<Rightarrow> ('o, 'b) gw_op) \<Rightarrow> ('o, 'b) gw_op" where
  "gbind m f s = (case m s of (Inl e, s') \<Rightarrow> (Inl e, s') | (Inr x, s') \<Rightarrow> f x s')"

definition gret :: "'a \<Rightarrow> ('o, 'a) gw_op" where
  "gret x s = (Inr x, s)"

definition glift :: "tool_error + 'a \<Rightarrow> ('o, 'a) gw_op" where
  "glift r s = (r, s)"

definition gconfig :: "('o, gateway_config) gw_op" where
  "gconfig s = (Inr (gm_config s), s)"

definition write_config_file ::
  "'o mgr_env \<Rightarrow> write_io \<Rightarrow> gateway_config \<Rightarrow> ('o, unit) gw_op" where
  "write_config_file me w cfg s =
     (let (r, f) = store_persist me w (gm_file s) cfg in (r, s\<lparr>gm_file := f\<rparr>))"

definition install :: "gateway_config \<Rightarrow> ('o, unit) gw_op" where
  "install cfg s = (Inr (), s\<lparr>gm_index := from_routes (gc_routes cfg), gm_config := cfg\<rparr>)"

definition persist_config :: "'o mgr_env \<Rightarrow> write_io \<Rightarrow> gateway_config \<Rightarrow> ('o, unit) gw_op" where
  "persist_config me w cfg = gbind (write_config_file me w cfg) (\<lambda>_. install cfg)"

section \<open>Reload (\<open>pool_lifecycle.rs\<close>)\<close>

fun quarantine_from ::
  "(string \<Rightarrow> bool) \<Rightarrow> virtual_server list \<Rightarrow> virtual_server list
   \<Rightarrow> virtual_server list \<times> virtual_server list \<times> string list" where
  "quarantine_from contains_service quarantined [] = ([], quarantined, [])"
| "quarantine_from contains_service quarantined (v # vs) =
     (if contains_service (vs_service v)
      then (let (active, q, ids) = quarantine_from contains_service quarantined vs
            in (v # active, q, ids))
      else (let (active, q, ids) = quarantine_from contains_service
                  (if list_ex (\<lambda>x. vs_id x = vs_id v) quarantined then quarantined
                   else quarantined @ [v]) vs
            in (active, q, vs_id v # ids)))"

definition quarantine_unregistered_virtual_servers ::
  "(string \<Rightarrow> bool) \<Rightarrow> gateway_config \<Rightarrow> gateway_config \<times> string list" where
  "quarantine_unregistered_virtual_servers contains_service cfg =
     (let (active, q, ids) =
            quarantine_from contains_service (gc_quarantined cfg) (gc_virtual_servers cfg)
      in (cfg\<lparr>gc_virtual_servers := active, gc_quarantined := q\<rparr>, ids))"

definition gateway_part :: "'o config_file \<Rightarrow> gateway_config toml_file" where
  "gateway_part f =
     (case f of Missing \<Rightarrow> Missing | Unreadable \<Rightarrow> Unreadable | Decoded (g, h) \<Rightarrow> Decoded g)"

definition read_gateway_config :: "'o mgr_env \<Rightarrow> ('o, gateway_config) gw_op" where
  "read_gateway_config me s = (load_gateway_config (me_gw me) (gateway_part (gm_file s)), s)"

definition reload_with_origin_unlocked :: "'o mgr_env \<Rightarrow> gw_io \<Rightarrow> ('o, unit) gw_op" where
  "reload_with_origin_unlocked me io =
     gbind (read_gateway_config me) (\<lambda>loaded.
       let (cfg, quarantined) =
             quarantine_unregistered_virtual_servers (io_contains_service io) loaded
       in gbind (if quarantined \<noteq> [] then persist_config me (io_migrate io) cfg else gret ()) (\<lambda>_.
          gbind (install cfg) (\<lambda>_.
          glift (ensure (io_runtime_state io) (Sdk ''internal_error'')))))"

text \<open>
  \<open>try_seed_config\<close> (\<open>core.rs\<close>) installs the configuration a starting process has loaded;
  \<open>labby serve\<close> and the command line panic when it fails.
\<close>

definition try_seed_config :: "'o mgr_env \<Rightarrow> gateway_config \<Rightarrow> ('o, unit) gw_op" where
  "try_seed_config me config =
     gbind (glift (normalize_config (me_gw me) config)) (\<lambda>cfg.
     gbind (glift (validate_config (me_gw me) cfg)) (\<lambda>_. install cfg))"

definition new_manager :: "'o config_file \<Rightarrow> 'o gw_state" where
  "new_manager f =
     \<lparr>gm_file = f, gm_config = default_gateway_config, gm_index = [], gm_credentials = []\<rparr>"

definition get_upstream :: "string \<Rightarrow> ('o, upstream_config) gw_op" where
  "get_upstream name =
     gbind gconfig (\<lambda>cfg.
     glift (ok_or (List.find (\<lambda>u. up_name u = name) (gc_upstream cfg)) (Sdk ''not_found'')))"

section \<open>Credentials (\<open>persist.rs\<close>)\<close>

text \<open>\<open>trimmed.get(..7)\<close>: the first seven bytes, when they end at a character boundary.\<close>

definition get_first7 :: "string \<Rightarrow> string option" where
  "get_first7 s =
     (if length s < 7 then None
      else if length s > 7 \<and> 128 \<le> byte (s ! 7) \<and> byte (s ! 7) < 192 then None
      else Some (take 7 s))"

definition normalize_gateway_bearer_token :: "string \<Rightarrow> string" where
  "normalize_gateway_bearer_token token_value =
     (let trimmed = trim token_value
      in case get_first7 trimmed of
           Some s \<Rightarrow> if eq_ignore_ascii_case s ''bearer '' then ''Bearer '' @ drop 7 trimmed
                     else ''Bearer '' @ trimmed
         | None \<Rightarrow> ''Bearer '' @ trimmed)"

definition persist_gateway_bearer_token ::
  "gw_io \<Rightarrow> string \<Rightarrow> string \<Rightarrow> ('o, unit) gw_op" where
  "persist_gateway_bearer_token io env_name token_value s =
     (case validate_bearer_token_env_name env_name of
        Inl e \<Rightarrow> (Inl e, s)
      | Inr _ \<Rightarrow>
          if io_env_write io
          then (Inr (), s\<lparr>gm_credentials := gm_credentials s
                  @ [(env_name, normalize_gateway_bearer_token token_value)]\<rparr>)
          else (Inl (Sdk ''internal_error''), s))"

definition resolve_gateway_bearer_env_name :: "string \<Rightarrow> string option \<Rightarrow> tool_error + string" where
  "resolve_gateway_bearer_env_name gateway_name explicit =
     (case map_option trim explicit of
        Some name \<Rightarrow>
          if name \<noteq> [] then and_then (validate_bearer_token_env_name name) (\<lambda>_. Inr name)
          else Inr (default_gateway_bearer_env_name gateway_name)
      | None \<Rightarrow> Inr (default_gateway_bearer_env_name gateway_name))"

text \<open>\<open>bearer_token_value.as_deref().map(str::trim)\<close>, kept when it is not empty.\<close>

definition token_given :: "string option \<Rightarrow> string option" where
  "token_given v = trimmed_name v"

text \<open>Trim and check a configured environment variable name.\<close>

definition trim_bearer_env :: "upstream_config \<Rightarrow> tool_error + upstream_config" where
  "trim_bearer_env u =
     (case up_bearer_token_env u of
        None \<Rightarrow> Inr u
      | Some env_name \<Rightarrow>
          and_then (validate_bearer_token_env_name (trim env_name)) (\<lambda>_.
          Inr (u\<lparr>up_bearer_token_env := Some (trim env_name)\<rparr>)))"

section \<open>Upstreams (\<open>config_ops.rs\<close>)\<close>

definition write_and_reload :: "'o mgr_env \<Rightarrow> gw_io \<Rightarrow> gateway_config \<Rightarrow> ('o, unit) gw_op" where
  "write_and_reload me io cfg =
     gbind (write_config_file me (io_write io) cfg) (\<lambda>_. reload_with_origin_unlocked me io)"

definition add_upstream ::
  "'o mgr_env \<Rightarrow> gw_io \<Rightarrow> upstream_config \<Rightarrow> string option \<Rightarrow> ('o, upstream_config) gw_op" where
  "add_upstream me io spec0 bearer_token_value =
     gbind gconfig (\<lambda>cfg.
     gbind (glift (trim_bearer_env spec0)) (\<lambda>spec.
     gbind (case token_given bearer_token_value of
              Some token_value \<Rightarrow>
                gbind (glift (resolve_gateway_bearer_env_name (up_name spec)
                                (up_bearer_token_env spec))) (\<lambda>env_name.
                gbind (glift (insert_upstream (me_gw me) cfg
                                (spec\<lparr>up_bearer_token_env := Some env_name\<rparr>))) (\<lambda>cfg'.
                gbind (persist_gateway_bearer_token io env_name token_value) (\<lambda>_. gret cfg')))
            | None \<Rightarrow> glift (insert_upstream (me_gw me) cfg spec)) (\<lambda>cfg'.
     gbind (write_and_reload me io cfg') (\<lambda>_.
     get_upstream (up_name spec0)))))"

text \<open>
  Each spec is validated and inserted on its own; the failures are collected. A name that is
  not configured after the reload is reported as a failure too.
\<close>

fun insert_each ::
  "gw_env \<Rightarrow> gateway_config \<Rightarrow> upstream_config list
   \<Rightarrow> gateway_config \<times> string list \<times> (string \<times> tool_error) list" where
  "insert_each env cfg [] = (cfg, [], [])"
| "insert_each env cfg (spec # specs) =
     (case and_then (trim_bearer_env spec) (insert_upstream env cfg) of
        Inl e \<Rightarrow>
          (let (c, added, errors) = insert_each env cfg specs in (c, added, (up_name spec, e) # errors))
      | Inr cfg' \<Rightarrow>
          (let (c, added, errors) = insert_each env cfg' specs in (c, up_name spec # added, errors)))"

definition batch_add ::
  "'o mgr_env \<Rightarrow> gw_io \<Rightarrow> upstream_config list
   \<Rightarrow> ('o, string list \<times> (string \<times> tool_error) list) gw_op" where
  "batch_add me io specs =
     (if specs = [] then gret ([], [])
      else gbind gconfig (\<lambda>cfg.
        let (cfg', added, errors) = insert_each (me_gw me) cfg specs
        in if added = [] \<and> errors \<noteq> [] then glift (Inl (snd (hd errors)))
           else gbind (write_and_reload me io cfg') (\<lambda>_.
                gbind gconfig (\<lambda>live.
                let configured = (\<lambda>n. list_ex (\<lambda>u. up_name u = n) (gc_upstream live))
                in gret (filter configured added,
                         errors @ map (\<lambda>n. (n, Sdk ''not_found''))
                                    (filter (\<lambda>n. \<not> configured n) added))))))"

definition patch_env_name ::
  "gateway_config \<Rightarrow> string \<Rightarrow> update_patch \<Rightarrow> tool_error + string" where
  "patch_env_name cfg name p =
     (case pt_bearer_token_env p of
        Some (Some env_name) \<Rightarrow> Inr env_name
      | _ \<Rightarrow>
          (case Option.bind (List.find (\<lambda>u. up_name u = name) (gc_upstream cfg)) up_bearer_token_env of
             Some existing \<Rightarrow> Inr existing
           | None \<Rightarrow> Inl (InvalidParam ''bearer_token_env'')))"

definition trim_patch_env :: "update_patch \<Rightarrow> tool_error + update_patch" where
  "trim_patch_env p =
     (case pt_bearer_token_env p of
        Some (Some env_name) \<Rightarrow>
          and_then (validate_bearer_token_env_name (trim env_name)) (\<lambda>_.
          Inr (p\<lparr>pt_bearer_token_env := Some (Some (trim env_name))\<rparr>))
      | _ \<Rightarrow> Inr p)"

definition update ::
  "'o mgr_env \<Rightarrow> gw_io \<Rightarrow> string \<Rightarrow> update_patch \<Rightarrow> string option
   \<Rightarrow> ('o, upstream_config) gw_op" where
  "update me io name patch0 bearer_token_value =
     gbind gconfig (\<lambda>cfg.
     gbind (glift (trim_patch_env patch0)) (\<lambda>p.
     gbind (case token_given bearer_token_value of
              Some token_value \<Rightarrow>
                gbind (glift (patch_env_name cfg name p)) (\<lambda>env_name.
                gbind (glift (update_upstream (me_gw me) cfg name
                                (p\<lparr>pt_bearer_token_env := Some (Some env_name)\<rparr>))) (\<lambda>cfg'.
                gbind (persist_gateway_bearer_token io env_name token_value) (\<lambda>_. gret cfg')))
            | None \<Rightarrow> glift (update_upstream (me_gw me) cfg name p)) (\<lambda>cfg'.
     gbind (write_and_reload me io cfg') (\<lambda>_.
     get_upstream (case pt_name patch0 of Some n \<Rightarrow> n | None \<Rightarrow> name)))))"

definition remove_gateway :: "'o mgr_env \<Rightarrow> gw_io \<Rightarrow> string \<Rightarrow> ('o, upstream_config) gw_op" where
  "remove_gateway me io name =
     gbind gconfig (\<lambda>cfg.
     gbind (glift (remove_upstream cfg name)) (\<lambda>(removed, cfg').
     gbind (write_and_reload me io (tombstone_removed_import (io_now io) cfg' removed)) (\<lambda>_.
     gret removed)))"

definition set_code_mode_config ::
  "'o mgr_env \<Rightarrow> gw_io \<Rightarrow> code_mode_config \<Rightarrow> ('o, code_mode_config) gw_op" where
  "set_code_mode_config me io new =
     gbind (glift (validate_code_mode (me_gw me) new)) (\<lambda>_.
     gbind gconfig (\<lambda>cfg.
       let previous = gc_code_mode cfg;
           cfg' = cfg\<lparr>gc_code_mode := new\<rparr>
       in if code_mode_eq previous new then gret previous
          else gbind
            (if \<not> code_mode_eq (previous\<lparr>cm_mcp_ui_enabled := cm_mcp_ui_enabled new\<rparr>) new
             then write_and_reload me io cfg'
             else persist_config me (io_write io) cfg') (\<lambda>_.
          gbind gconfig (\<lambda>c. gret (gc_code_mode c)))))"

section \<open>Protected routes (\<open>manager/protected_routes.rs\<close>)\<close>

definition reject_hot_gateway_subset_mutation :: "mcp_route \<Rightarrow> tool_error + unit" where
  "reject_hot_gateway_subset_mutation r =
     ensure (\<not> is_gateway_subset r) (Sdk ''restart_required'')"

definition reject_hot_existing :: "gateway_config \<Rightarrow> string \<Rightarrow> tool_error + unit" where
  "reject_hot_existing cfg name =
     (case List.find (\<lambda>r. rt_name r = name) (gc_routes cfg) of
        Some existing \<Rightarrow> reject_hot_gateway_subset_mutation existing
      | None \<Rightarrow> Inr ())"

definition protected_route_add :: "'o mgr_env \<Rightarrow> gw_io \<Rightarrow> mcp_route \<Rightarrow> ('o, mcp_route) gw_op" where
  "protected_route_add me io route =
     gbind (glift (reject_hot_gateway_subset_mutation route)) (\<lambda>_.
     gbind gconfig (\<lambda>cfg.
     gbind (glift (insert_protected_mcp_route (me_gw me) cfg route)) (\<lambda>(r, cfg').
     gbind (persist_config me (io_write io) cfg') (\<lambda>_. gret r))))"

definition protected_route_update ::
  "'o mgr_env \<Rightarrow> gw_io \<Rightarrow> string \<Rightarrow> mcp_route \<Rightarrow> ('o, mcp_route) gw_op" where
  "protected_route_update me io name route =
     gbind gconfig (\<lambda>cfg.
     gbind (glift (reject_hot_existing cfg name)) (\<lambda>_.
     gbind (glift (reject_hot_gateway_subset_mutation route)) (\<lambda>_.
     gbind (glift (update_protected_mcp_route (me_gw me) cfg name route)) (\<lambda>(r, cfg').
     gbind (persist_config me (io_write io) cfg') (\<lambda>_. gret r)))))"

definition protected_route_remove :: "'o mgr_env \<Rightarrow> gw_io \<Rightarrow> string \<Rightarrow> ('o, mcp_route) gw_op" where
  "protected_route_remove me io name =
     gbind gconfig (\<lambda>cfg.
     gbind (glift (reject_hot_existing cfg name)) (\<lambda>_.
     gbind (glift (remove_protected_mcp_route cfg name)) (\<lambda>(r, cfg').
     gbind (persist_config me (io_write io) cfg') (\<lambda>_. gret r))))"

definition resolve_protected_route :: "'o gw_state \<Rightarrow> string \<Rightarrow> string \<Rightarrow> mcp_route option" where
  "resolve_protected_route s host path = resolve (gm_index s) host path"

definition resolve_protected_route_metadata ::
  "'o gw_state \<Rightarrow> string \<Rightarrow> string \<Rightarrow> mcp_route option" where
  "resolve_protected_route_metadata s host path = resolve_exact_metadata_path (gm_index s) host path"

definition protected_route_get :: "'o gw_state \<Rightarrow> string \<Rightarrow> tool_error + mcp_route" where
  "protected_route_get s name =
     ok_or (List.find (\<lambda>r. rt_name r = name) (gc_routes (gm_config s))) (Sdk ''not_found'')"

definition protected_route_test :: "'o mgr_env \<Rightarrow> mcp_route \<Rightarrow> tool_error + (mcp_route \<times> string \<times> string)" where
  "protected_route_test me route =
     and_then (insert_protected_mcp_route (me_gw me) default_gateway_config route) (\<lambda>(r, cfg).
     Inr (r, ''https://'' @ rt_public_host r @ rt_public_path r,
          ''https://'' @ rt_public_host r @ metadata_prefix @ rt_public_path r))"

section \<open>Imports (\<open>import_matchers.rs\<close>, \<open>imports.rs\<close>)\<close>

definition tombstone_transport_matches_discovered ::
  "import_tombstone \<Rightarrow> discovered_server \<Rightarrow> bool" where
  "tombstone_transport_matches_discovered t d =
     (case is_transport_fingerprint (ts_imported_from t) of
        None \<Rightarrow> True
      | Some fp \<Rightarrow>
          Option.bind (up_imported_from (ds_spec d)) is_transport_fingerprint = Some fp)"

definition tombstone_matches_discovered :: "import_tombstone \<Rightarrow> discovered_server \<Rightarrow> bool" where
  "tombstone_matches_discovered t d =
     (is_client (ts_imported_from t) = ds_source_client d
      \<and> is_path (ts_imported_from t) = ds_source_path d
      \<and> (ts_name t = ds_name d \<or> is_server_name (ts_imported_from t) = Some (ds_name d))
      \<and> tombstone_transport_matches_discovered t d)"

definition discovered_is_tombstoned :: "gateway_config \<Rightarrow> discovered_server \<Rightarrow> bool" where
  "discovered_is_tombstoned cfg d = list_ex (\<lambda>t. tombstone_matches_discovered t d) (gc_tombstones cfg)"

datatype import_skip = AlreadyConfigured | Tombstoned

fun partition_discovered_for_import ::
  "gateway_config \<Rightarrow> discovered_server list
   \<Rightarrow> (string \<times> import_skip) list \<times> upstream_config list" where
  "partition_discovered_for_import cfg [] = ([], [])"
| "partition_discovered_for_import cfg (d # ds) =
     (let (skipped, specs) = partition_discovered_for_import cfg ds
      in if list_ex (\<lambda>u. up_name u = ds_name d) (gc_upstream cfg)
         then ((ds_name d, AlreadyConfigured) # skipped, specs)
         else if discovered_is_tombstoned cfg d then ((ds_name d, Tombstoned) # skipped, specs)
         else (skipped, ds_spec d # specs))"

definition auto_import_discovered_configs :: "'o mgr_env \<Rightarrow> gw_io \<Rightarrow> ('o, string list) gw_op" where
  "auto_import_discovered_configs me io =
     (case io_discovered io of
        None \<Rightarrow> gret []
      | Some discovered \<Rightarrow>
          gbind gconfig (\<lambda>cfg.
            let specs = snd (partition_discovered_for_import cfg discovered)
            in if specs = [] then gret []
               else gbind (batch_add me io specs) (\<lambda>(added, errors). gret added)))"

definition MAX_IMPORT_TOMBSTONES :: nat where
  "MAX_IMPORT_TOMBSTONES = 200"

definition MAX_PENDING_IMPORTS :: nat where
  "MAX_PENDING_IMPORTS = 200"

definition cap_import_tombstones :: "gateway_config \<Rightarrow> gateway_config" where
  "cap_import_tombstones cfg =
     (let n = length (gc_tombstones cfg)
      in if n \<le> MAX_IMPORT_TOMBSTONES then cfg
         else cfg\<lparr>gc_tombstones :=
                drop (n - MAX_IMPORT_TOMBSTONES) (sort_key ts_removed_at (gc_tombstones cfg))\<rparr>)"

definition cap_pending_imports :: "gateway_config \<Rightarrow> gateway_config" where
  "cap_pending_imports cfg =
     (let n = length (gc_pending cfg)
      in if n \<le> MAX_PENDING_IMPORTS then cfg
         else cfg\<lparr>gc_pending := drop (n - MAX_PENDING_IMPORTS) (gc_pending cfg)\<rparr>)"

fun queue_discovered :: "gateway_config \<Rightarrow> discovered_server list \<Rightarrow> gateway_config \<times> nat" where
  "queue_discovered cfg [] = (cfg, 0)"
| "queue_discovered cfg (d # ds) =
     (if discovered_is_tombstoned cfg d
         \<or> list_ex (\<lambda>u. up_name u = ds_name d) (gc_upstream cfg)
         \<or> list_ex (\<lambda>u. up_name u = ds_name d) (gc_pending cfg)
      then queue_discovered cfg ds
      else (let (cfg', n) = queue_discovered (cfg\<lparr>gc_pending := gc_pending cfg @ [ds_spec d]\<rparr>) ds
            in (cfg', Suc n)))"

definition discover_into_pending :: "'o mgr_env \<Rightarrow> gw_io \<Rightarrow> ('o, nat) gw_op" where
  "discover_into_pending me io =
     (case io_discovered io of
        None \<Rightarrow> gret 0
      | Some discovered \<Rightarrow>
          gbind gconfig (\<lambda>cfg.
            let (cfg', queued) = queue_discovered cfg discovered
            in if queued > 0
               then gbind (persist_config me (io_write io) (cap_pending_imports cfg')) (\<lambda>_. gret queued)
               else gret 0))"

definition approve_pending_import :: "'o mgr_env \<Rightarrow> gw_io \<Rightarrow> string \<Rightarrow> ('o, upstream_config) gw_op" where
  "approve_pending_import me io name =
     gbind gconfig (\<lambda>cfg.
     gbind (glift (ok_or (position (\<lambda>u. up_name u = name) (gc_pending cfg)) (Sdk ''not_found''))) (\<lambda>i.
       let spec = gc_pending cfg ! i;
           cfg' = cfg\<lparr>gc_pending := remove_at i (gc_pending cfg),
                      gc_upstream := gc_upstream cfg @ [spec\<lparr>up_enabled := False\<rparr>]\<rparr>
       in gbind (persist_config me (io_write io) cfg') (\<lambda>_. gret spec)))"

definition reject_pending_import :: "'o mgr_env \<Rightarrow> gw_io \<Rightarrow> string \<Rightarrow> ('o, upstream_config) gw_op" where
  "reject_pending_import me io name =
     gbind gconfig (\<lambda>cfg.
     gbind (glift (ok_or (position (\<lambda>u. up_name u = name) (gc_pending cfg)) (Sdk ''not_found''))) (\<lambda>i.
       let spec = gc_pending cfg ! i;
           cfg1 = cfg\<lparr>gc_pending := remove_at i (gc_pending cfg)\<rparr>;
           cfg2 = (case up_imported_from spec of
                     None \<Rightarrow> cfg1
                   | Some source \<Rightarrow>
                       cap_import_tombstones (cfg1\<lparr>gc_tombstones := gc_tombstones cfg1
                         @ [\<lparr>ts_name = up_name spec, ts_imported_from = source,
                             ts_removed_at = io_now io\<rparr>]\<rparr>))
       in gbind (persist_config me (io_write io) cfg2) (\<lambda>_. gret spec)))"

record tombstone_selector =
  sel_name :: string
  sel_source_client :: "string option"
  sel_source_path :: "string option"
  sel_server_name :: "string option"
  sel_transport_fingerprint :: "string option"

definition given_is :: "'a option \<Rightarrow> 'a option \<Rightarrow> bool" where
  "given_is given actual = (given = None \<or> actual = given)"

definition matches_tombstone :: "tombstone_selector \<Rightarrow> import_tombstone \<Rightarrow> bool" where
  "matches_tombstone sel t =
     ((ts_name t = sel_name sel \<or> is_server_name (ts_imported_from t) = Some (sel_name sel))
      \<and> given_is (sel_source_client sel) (Some (is_client (ts_imported_from t)))
      \<and> given_is (sel_source_path sel) (Some (is_path (ts_imported_from t)))
      \<and> given_is (sel_server_name sel) (is_server_name (ts_imported_from t))
      \<and> given_is (sel_transport_fingerprint sel) (is_transport_fingerprint (ts_imported_from t)))"

definition matches_discovered :: "tombstone_selector \<Rightarrow> discovered_server \<Rightarrow> bool" where
  "matches_discovered sel d =
     (ds_name d = sel_name sel
      \<and> given_is (sel_source_client sel) (Some (ds_source_client d))
      \<and> given_is (sel_source_path sel) (Some (ds_source_path d))
      \<and> given_is (sel_server_name sel) (Option.bind (up_imported_from (ds_spec d)) is_server_name)
      \<and> given_is (sel_transport_fingerprint sel)
          (Option.bind (up_imported_from (ds_spec d)) is_transport_fingerprint))"

definition drop_tombstones :: "tombstone_selector \<Rightarrow> gateway_config \<Rightarrow> gateway_config" where
  "drop_tombstones sel cfg =
     cfg\<lparr>gc_tombstones := filter (\<lambda>t. \<not> matches_tombstone sel t) (gc_tombstones cfg)\<rparr>"

definition clear_import_tombstone ::
  "'o mgr_env \<Rightarrow> gw_io \<Rightarrow> tombstone_selector \<Rightarrow> ('o, import_tombstone list) gw_op" where
  "clear_import_tombstone me io sel =
     gbind gconfig (\<lambda>cfg.
       let cfg' = drop_tombstones sel cfg
       in if length (gc_tombstones cfg') = length (gc_tombstones cfg)
          then glift (Inl (Sdk ''not_found''))
          else gbind (persist_config me (io_write io) cfg') (\<lambda>_. gret (gc_tombstones cfg')))"

definition restore_import_tombstone ::
  "'o mgr_env \<Rightarrow> gw_io \<Rightarrow> tombstone_selector \<Rightarrow> ('o, upstream_config) gw_op" where
  "restore_import_tombstone me io sel =
     gbind (glift (ok_or (io_discovered io) (Sdk ''internal_error''))) (\<lambda>discovered.
     gbind gconfig (\<lambda>cfg.
     gbind (glift (ensure (list_ex (matches_tombstone sel) (gc_tombstones cfg)) (Sdk ''not_found''))) (\<lambda>_.
     gbind (glift (ok_or (List.find (\<lambda>d. matches_discovered sel d \<and> discovered_is_tombstoned cfg d)
                            discovered) (Sdk ''not_found''))) (\<lambda>server.
       if list_ex (\<lambda>u. up_name u = up_name (ds_spec server)) (gc_upstream cfg)
       then gbind (persist_config me (io_write io) (drop_tombstones sel cfg)) (\<lambda>_.
            get_upstream (up_name (ds_spec server)))
       else gbind (glift (insert_upstream (me_gw me) cfg (ds_spec server))) (\<lambda>cfg'.
            gbind (write_and_reload me io cfg') (\<lambda>_.
            get_upstream (up_name (ds_spec server))))))))"

section \<open>Virtual servers and service settings (\<open>virtual_servers.rs\<close>, \<open>config_ops.rs\<close>)\<close>

definition field_present :: "(string \<times> string) list \<Rightarrow> string \<Rightarrow> bool" where
  "field_present values name = (\<not> blank (map_of values name))"

definition service_configured :: "plugin_meta \<Rightarrow> (string \<times> string) list \<Rightarrow> bool" where
  "service_configured meta values =
     (let fields = pm_required_env meta @ pm_optional_env meta
      in if fields = [] then True else list_all (field_present values) (pm_required_env meta))"

definition find_virtual_server :: "gateway_config \<Rightarrow> string \<Rightarrow> tool_error + virtual_server" where
  "find_virtual_server cfg vid =
     ok_or (List.find (\<lambda>v. vs_id v = vid) (gc_virtual_servers cfg)) (Sdk ''not_found'')"

definition remove_virtual_server :: "'o mgr_env \<Rightarrow> gw_io \<Rightarrow> string \<Rightarrow> ('o, virtual_server) gw_op" where
  "remove_virtual_server me io vid =
     gbind gconfig (\<lambda>cfg.
     gbind (glift (ok_or (position (\<lambda>v. vs_id v = vid) (gc_virtual_servers cfg)) (Sdk ''not_found''))) (\<lambda>i.
     gbind (persist_config me (io_write io)
              (cfg\<lparr>gc_virtual_servers := remove_at i (gc_virtual_servers cfg)\<rparr>)) (\<lambda>_.
     gret (gc_virtual_servers cfg ! i))))"

definition restore_quarantined_virtual_server ::
  "'o mgr_env \<Rightarrow> gw_io \<Rightarrow> string \<Rightarrow> ('o, virtual_server) gw_op" where
  "restore_quarantined_virtual_server me io vid =
     gbind gconfig (\<lambda>cfg.
     gbind (glift (ok_or (position (\<lambda>v. vs_id v = vid) (gc_quarantined cfg)) (Sdk ''not_found''))) (\<lambda>i.
       let restored = gc_quarantined cfg ! i
       in gbind (glift (ensure (io_service_meta io (vs_service restored) \<noteq> None)
                          (Sdk ''unknown_service''))) (\<lambda>_.
          gbind (glift (ensure (\<not> list_ex (\<lambda>v. vs_id v = vs_id restored) (gc_virtual_servers cfg))
                          (InvalidParam ''id''))) (\<lambda>_.
          gbind (persist_config me (io_write io)
                   (cfg\<lparr>gc_quarantined := remove_at i (gc_quarantined cfg),
                        gc_virtual_servers := gc_virtual_servers cfg @ [restored]\<rparr>)) (\<lambda>_.
          gret restored)))))"

definition set_surface :: "string \<Rightarrow> bool \<Rightarrow> vs_surfaces \<Rightarrow> vs_surfaces option" where
  "set_surface surface enabled sf =
     (if surface = ''cli'' then Some (sf\<lparr>sf_cli := enabled\<rparr>)
      else if surface = ''api'' then Some (sf\<lparr>sf_api := enabled\<rparr>)
      else if surface = ''mcp'' then Some (sf\<lparr>sf_mcp := enabled\<rparr>)
      else if surface = ''webui'' then Some (sf\<lparr>sf_webui := enabled\<rparr>)
      else None)"

definition set_virtual_server_surface ::
  "'o mgr_env \<Rightarrow> gw_io \<Rightarrow> string \<Rightarrow> string \<Rightarrow> bool \<Rightarrow> ('o, virtual_server) gw_op" where
  "set_virtual_server_surface me io vid surface enabled =
     gbind gconfig (\<lambda>cfg.
     gbind (glift (ok_or (position (\<lambda>v. vs_id v = vid) (gc_virtual_servers cfg)) (Sdk ''not_found''))) (\<lambda>i.
       let v = gc_virtual_servers cfg ! i
       in gbind (glift (ok_or (set_surface surface enabled (vs_surfaces v)) (InvalidParam ''surface''))) (\<lambda>sf.
          gbind (persist_config me (io_write io)
                   (cfg\<lparr>gc_virtual_servers := (gc_virtual_servers cfg)[i := v\<lparr>vs_surfaces := sf\<rparr>]\<rparr>)) (\<lambda>_.
          gbind gconfig (\<lambda>c. glift (find_virtual_server c vid))))))"

definition set_virtual_server_mcp_policy ::
  "'o mgr_env \<Rightarrow> gw_io \<Rightarrow> string \<Rightarrow> string list \<Rightarrow> ('o, string list) gw_op" where
  "set_virtual_server_mcp_policy me io vid allowed_actions =
     gbind gconfig (\<lambda>cfg.
     gbind (glift (ok_or (position (\<lambda>v. vs_id v = vid) (gc_virtual_servers cfg)) (Sdk ''not_found''))) (\<lambda>i.
       let v = gc_virtual_servers cfg ! i;
           policy = (if allowed_actions = [] then None else Some allowed_actions)
       in gbind (persist_config me (io_write io)
                   (cfg\<lparr>gc_virtual_servers := (gc_virtual_servers cfg)[i := v\<lparr>vs_mcp_policy := policy\<rparr>]\<rparr>)) (\<lambda>_.
          gret allowed_actions)))"

text \<open>The position of the entry to switch, adding one for a configured service.\<close>

definition virtual_server_slot ::
  "gw_io \<Rightarrow> gateway_config \<Rightarrow> string \<Rightarrow> tool_error + (nat \<times> gateway_config)" where
  "virtual_server_slot io cfg vid =
     (case position (\<lambda>v. vs_id v = vid) (gc_virtual_servers cfg) of
        Some i \<Rightarrow> Inr (i, cfg)
      | None \<Rightarrow>
          and_then (ok_or (io_service_meta io vid) (Sdk ''not_found'')) (\<lambda>meta.
          and_then (ok_or (io_env_values io) (Sdk ''internal_error'')) (\<lambda>values.
            if \<not> service_configured meta values then Inl (Sdk ''not_found'')
            else Inr (length (gc_virtual_servers cfg),
                      cfg\<lparr>gc_virtual_servers := gc_virtual_servers cfg @
                        [\<lparr>vs_id = vid, vs_service = vid, vs_enabled = False,
                          vs_surfaces = \<lparr>sf_cli = False, sf_api = False, sf_mcp = False, sf_webui = False\<rparr>,
                          vs_mcp_policy = None\<rparr>]\<rparr>))))"

definition set_virtual_server_enabled ::
  "'o mgr_env \<Rightarrow> gw_io \<Rightarrow> string \<Rightarrow> bool \<Rightarrow> ('o, virtual_server) gw_op" where
  "set_virtual_server_enabled me io vid enabled =
     gbind gconfig (\<lambda>cfg0.
     gbind (glift (virtual_server_slot io cfg0 vid)) (\<lambda>(i, cfg).
       let v = gc_virtual_servers cfg ! i;
           v' = v\<lparr>vs_enabled := enabled,
                  vs_surfaces := (if enabled then (vs_surfaces v)\<lparr>sf_mcp := True\<rparr> else vs_surfaces v)\<rparr>
       in gbind (glift (ensure (\<not> (enabled \<and> io_service_meta io (vs_service v) = None))
                          (Sdk ''not_found''))) (\<lambda>_.
          gbind (persist_config me (io_write io)
                   (cfg\<lparr>gc_virtual_servers := (gc_virtual_servers cfg)[i := v']\<rparr>)) (\<lambda>_.
          gbind gconfig (\<lambda>c. glift (find_virtual_server c vid))))))"

definition set_service_config ::
  "gw_io \<Rightarrow> string \<Rightarrow> (string \<times> string) list \<Rightarrow> ('o, bool) gw_op" where
  "set_service_config io service values s =
     (case io_service_meta io service of
        None \<Rightarrow> (Inl (InvalidParam ''service''), s)
      | Some meta \<Rightarrow>
          if \<not> list_all (\<lambda>(field, _). field \<in> set (pm_required_env meta @ pm_optional_env meta)) values
          then (Inl (InvalidParam ''values''), s)
          else if values \<noteq> [] \<and> \<not> io_env_write io then (Inl (Sdk ''internal_error''), s)
          else
            let s' = s\<lparr>gm_credentials := gm_credentials s @ values\<rparr>
            in (case io_env_values io of
                  None \<Rightarrow> (Inl (Sdk ''internal_error''), s')
                | Some current \<Rightarrow> (Inr (service_configured meta current), s')))"

section \<open>Hints and OAuth of upstreams (\<open>enrichment.rs\<close>, \<open>oauth_lifecycle.rs\<close>)\<close>

definition validate_hint :: "string \<Rightarrow> tool_error + string" where
  "validate_hint hint = ok_or (normalize_code_mode_hint hint) (Sdk ''invalid_hint'')"

text \<open>The route scope of the caller: \<open>None\<close> sees every upstream.\<close>

definition ensure_visible :: "string list option \<Rightarrow> string \<Rightarrow> tool_error + unit" where
  "ensure_visible scope name =
     ensure (case scope of None \<Rightarrow> True | Some visible \<Rightarrow> List.member visible name)
       (Sdk ''unknown_upstream'')"

definition update_upstream_at :: "nat \<Rightarrow> (upstream_config \<Rightarrow> upstream_config) \<Rightarrow> gateway_config \<Rightarrow> gateway_config" where
  "update_upstream_at i f cfg =
     cfg\<lparr>gc_upstream := (gc_upstream cfg)[i := f (gc_upstream cfg ! i)]\<rparr>"

definition apply_enrichment ::
  "'o mgr_env \<Rightarrow> gw_io \<Rightarrow> string list option \<Rightarrow> string \<Rightarrow> string \<Rightarrow> string
   \<Rightarrow> ('o, string option) gw_op" where
  "apply_enrichment me io scope name raw_hint metadata_hash =
     gbind (glift (ensure_visible scope name)) (\<lambda>_.
     gbind (glift (validate_hint raw_hint)) (\<lambda>hint.
     gbind gconfig (\<lambda>cfg.
     gbind (glift (ok_or (position (\<lambda>u. up_name u = name) (gc_upstream cfg)) (Sdk ''unknown_upstream''))) (\<lambda>i.
     gbind (glift (ok_or (io_metadata_hash io) (Sdk ''unknown_upstream''))) (\<lambda>current_hash.
     gbind (glift (ensure (current_hash = metadata_hash) (Sdk ''stale_suggestion''))) (\<lambda>_.
     gbind (persist_config me (io_write io)
              (update_upstream_at i (\<lambda>u. u\<lparr>up_code_mode_hint := Some hint\<rparr>) cfg)) (\<lambda>_.
     gret (Option.bind (up_code_mode_hint (gc_upstream cfg ! i)) normalize_code_mode_hint))))))))"

text \<open>
  A completed authorization stores the OAuth configuration of its manager in an upstream
  that has none.
\<close>

definition complete_upstream_authorization_callback ::
  "'o mgr_env \<Rightarrow> gw_io \<Rightarrow> string \<Rightarrow> ('o, unit) gw_op" where
  "complete_upstream_authorization_callback me io name =
     gbind (glift (ok_or (io_oauth_manager io name) (Sdk ''not_found''))) (\<lambda>oauth_config.
     gbind (glift (case io_oauth_exchange io of None \<Rightarrow> Inr () | Some e \<Rightarrow> Inl e)) (\<lambda>_.
     gbind gconfig (\<lambda>cfg.
     case (oauth_config, position (\<lambda>u. up_name u = name) (gc_upstream cfg)) of
       (Some oauth, Some i) \<Rightarrow>
         if up_oauth (gc_upstream cfg ! i) = None
         then persist_config me (io_write io)
                (update_upstream_at i (\<lambda>u. u\<lparr>up_oauth := Some oauth\<rparr>) cfg)
         else gret ()
     | _ \<Rightarrow> gret ())))"

section \<open>The manager as a state machine\<close>

text \<open>
  One event is one operation with the answers of its environment, or a change of the
  configuration file from outside the manager.
\<close>

datatype 'o gw_event =
    Add upstream_config "string option"
  | BatchAdd "upstream_config list"
  | Update string update_patch "string option"
  | Remove string
  | SetCodeMode code_mode_config
  | RouteAdd mcp_route
  | RouteUpdate string mcp_route
  | RouteRemove string
  | AutoImport
  | DiscoverIntoPending
  | ApprovePending string
  | RejectPending string
  | ClearTombstone tombstone_selector
  | RestoreTombstone tombstone_selector
  | RemoveVirtualServer string
  | RestoreQuarantined string
  | SetSurface string string bool
  | SetMcpPolicy string "string list"
  | SetVirtualServer string bool
  | SetServiceConfig string "(string \<times> string) list"
  | ApplyHint "string list option" string string string
  | OauthCallback string
  | Seed gateway_config
  | Reload
  | EditFile "'o config_file"

text \<open>The state an event leaves, and whether it succeeded.\<close>

definition after :: "('o, 'a) gw_op \<Rightarrow> 'o gw_state \<Rightarrow> bool \<times> 'o gw_state" where
  "after m s = (let (r, s') = m s in (is_ok r, s'))"

fun gw_step :: "'o mgr_env \<Rightarrow> gw_io \<Rightarrow> 'o gw_event \<Rightarrow> 'o gw_state \<Rightarrow> bool \<times> 'o gw_state" where
  "gw_step me io (Add spec token) s = after (add_upstream me io spec token) s"
| "gw_step me io (BatchAdd specs) s = after (batch_add me io specs) s"
| "gw_step me io (Update name p token) s = after (update me io name p token) s"
| "gw_step me io (Remove name) s = after (remove_gateway me io name) s"
| "gw_step me io (SetCodeMode new) s = after (set_code_mode_config me io new) s"
| "gw_step me io (RouteAdd r) s = after (protected_route_add me io r) s"
| "gw_step me io (RouteUpdate name r) s = after (protected_route_update me io name r) s"
| "gw_step me io (RouteRemove name) s = after (protected_route_remove me io name) s"
| "gw_step me io AutoImport s = after (auto_import_discovered_configs me io) s"
| "gw_step me io DiscoverIntoPending s = after (discover_into_pending me io) s"
| "gw_step me io (ApprovePending name) s = after (approve_pending_import me io name) s"
| "gw_step me io (RejectPending name) s = after (reject_pending_import me io name) s"
| "gw_step me io (ClearTombstone sel) s = after (clear_import_tombstone me io sel) s"
| "gw_step me io (RestoreTombstone sel) s = after (restore_import_tombstone me io sel) s"
| "gw_step me io (RemoveVirtualServer vid) s = after (remove_virtual_server me io vid) s"
| "gw_step me io (RestoreQuarantined vid) s = after (restore_quarantined_virtual_server me io vid) s"
| "gw_step me io (SetSurface vid surface on) s = after (set_virtual_server_surface me io vid surface on) s"
| "gw_step me io (SetMcpPolicy vid actions) s = after (set_virtual_server_mcp_policy me io vid actions) s"
| "gw_step me io (SetVirtualServer vid on) s = after (set_virtual_server_enabled me io vid on) s"
| "gw_step me io (SetServiceConfig service values) s = after (set_service_config io service values) s"
| "gw_step me io (ApplyHint scope name hint hash) s = after (apply_enrichment me io scope name hint hash) s"
| "gw_step me io (OauthCallback name) s = after (complete_upstream_authorization_callback me io name) s"
| "gw_step me io (Seed cfg) s = after (try_seed_config me cfg) s"
| "gw_step me io Reload s = after (reload_with_origin_unlocked me io) s"
| "gw_step me io (EditFile f) s = (True, s\<lparr>gm_file := f\<rparr>)"

fun gw_run :: "'o mgr_env \<Rightarrow> (gw_io \<times> 'o gw_event) list \<Rightarrow> 'o gw_state \<Rightarrow> 'o gw_state" where
  "gw_run me [] s = s"
| "gw_run me ((io, ev) # evs) s = gw_run me evs (snd (gw_step me io ev s))"

end
