(* ===== verification/Gateway_Invariant.thy ===== *)
theory Gateway_Invariant
  imports Gateway_Manager
begin

text \<open>
  Invariants of the gateway manager. A locale states what a property of configurations
  needs from the mutations of \<open>config.rs\<close>; inside it, the operations of the manager are
  shown to keep the property of the live configuration, and the route index in step with
  it, through every run. Approving a pending import is the one operation that installs an
  unchecked configuration; the extended locale adds the law it would need.
\<close>

named_theorems gw_rules \<open>rules for the sequencing of manager operations\<close>

section \<open>Sequencing\<close>

text \<open>
  \<open>gtriple I m Q\<close>: from a state satisfying \<open>I\<close> the operation ends in one, and a result
  satisfies \<open>Q\<close>.
\<close>

definition gtriple :: "('o gw_state \<Rightarrow> bool) \<Rightarrow> ('o, 'a) gw_op \<Rightarrow> ('a \<Rightarrow> bool) \<Rightarrow> bool" where
  "gtriple I m Q =
     (\<forall>s. I s \<longrightarrow> I (snd (m s)) \<and> (\<forall>x. fst (m s) = Inr x \<longrightarrow> Q x))"

lemma gtriple_bind [gw_rules]:
  assumes "gtriple I m Q" and "\<And>x. Q x \<Longrightarrow> gtriple I (f x) R"
  shows "gtriple I (gbind m f) R"
  using assms by (fastforce simp: gtriple_def gbind_def split: prod.splits sum.splits)

lemma gtriple_ret [gw_rules]: "Q x \<Longrightarrow> gtriple I (gret x) Q"
  by (simp add: gtriple_def gret_def)

lemma gtriple_lift [gw_rules]: "(\<And>x. r = Inr x \<Longrightarrow> Q x) \<Longrightarrow> gtriple I (glift r) Q"
  by (simp add: gtriple_def glift_def)

lemma gtriple_weaken: "gtriple I m Q \<Longrightarrow> (\<And>x. Q x \<Longrightarrow> R x) \<Longrightarrow> gtriple I m R"
  by (auto simp: gtriple_def)

lemma gtriple_after: "gtriple I m Q \<Longrightarrow> I s \<Longrightarrow> I (snd (after m s))"
  by (auto simp: gtriple_def after_def split: prod.splits)

section \<open>The contract\<close>

text \<open>The live configuration has the property, and the index is the one of its routes.\<close>

definition gw_live :: "(gateway_config \<Rightarrow> bool) \<Rightarrow> 'o gw_state \<Rightarrow> bool" where
  "gw_live P s = (P (gm_config s) \<and> gm_index s = from_routes (gc_routes (gm_config s)))"

definition is_approval :: "'o gw_event \<Rightarrow> bool" where
  "is_approval ev = (case ev of ApprovePending _ \<Rightarrow> True | _ \<Rightarrow> False)"

lemma gw_live_file [simp]: "gw_live P (s\<lparr>gm_file := f\<rparr>) = gw_live P s"
  by (simp add: gw_live_def)

text \<open>What the host store has checked when it has written a configuration.\<close>

lemma validate_each_upstream_iff:
  "validate_each_upstream env us = Inr () \<longleftrightarrow> (\<forall>u \<in> set us. upstream_config_validate env u = Inr ())"
  by (induction us) (auto simp: and_then_Inr)

lemma write_config_file_checked:
  assumes "fst (write_config_file me w cfg s) = Inr ()" and "u \<in> set (gc_upstream cfg)"
  shows "upstream_config_validate (me_gw me) u = Inr ()"
  using assms
  by (auto simp: write_config_file_def store_persist_def host_write_gateway_config_def
      apply_gateway_config_def lab_validate_def and_then_Inr validate_each_upstream_iff Let_def
      split: sum.splits write_io.splits prod.splits)

locale config_contract =
  fixes env :: gw_env and P :: "gateway_config \<Rightarrow> bool"
  assumes loads: "load_gateway_config env f = Inr cfg \<Longrightarrow> P cfg"
    and seeds: "validate_config env cfg = Inr () \<Longrightarrow> P cfg"
    and route_added: "P cfg \<Longrightarrow> insert_protected_mcp_route env cfg r = Inr (r', cfg') \<Longrightarrow> P cfg'"
    and route_updated:
      "P cfg \<Longrightarrow> update_protected_mcp_route env cfg n r = Inr (r', cfg') \<Longrightarrow> P cfg'"
    and route_removed: "P cfg \<Longrightarrow> remove_protected_mcp_route cfg n = Inr (r', cfg') \<Longrightarrow> P cfg'"
    and code_mode_set:
      "P cfg \<Longrightarrow> validate_code_mode env c = Inr () \<Longrightarrow> P (cfg\<lparr>gc_code_mode := c\<rparr>)"
    and tombstones_set: "P cfg \<Longrightarrow> P (cfg\<lparr>gc_tombstones := ts\<rparr>)"
    and pending_set: "P cfg \<Longrightarrow> P (cfg\<lparr>gc_pending := us\<rparr>)"
    and virtual_servers_set: "P cfg \<Longrightarrow> P (cfg\<lparr>gc_virtual_servers := vs\<rparr>)"
    and quarantined_set: "P cfg \<Longrightarrow> P (cfg\<lparr>gc_quarantined := qs\<rparr>)"
    and hint_set: "P cfg \<Longrightarrow> i < length (gc_upstream cfg) \<Longrightarrow>
      P (update_upstream_at i (\<lambda>u. u\<lparr>up_code_mode_hint := hint\<rparr>) cfg)"
    and oauth_set: "P cfg \<Longrightarrow> i < length (gc_upstream cfg) \<Longrightarrow>
      upstream_config_validate env ((gc_upstream cfg ! i)\<lparr>up_oauth := oauth\<rparr>) = Inr () \<Longrightarrow>
      P (update_upstream_at i (\<lambda>u. u\<lparr>up_oauth := oauth\<rparr>) cfg)"
begin

lemma config_ok: "gtriple (gw_live P) gconfig P"
  by (simp add: gtriple_def gconfig_def gw_live_def)

lemma installed_ok: "P cfg \<Longrightarrow> gtriple (gw_live P) (install cfg) (\<lambda>_. True)"
  by (simp add: gtriple_def install_def gw_live_def)

lemma write_ok: "gtriple (gw_live P) (write_config_file me w cfg) (\<lambda>_. True)"
  by (simp add: gtriple_def write_config_file_def gw_live_def split: prod.splits)

lemma persist_ok: "P cfg \<Longrightarrow> gtriple (gw_live P) (persist_config me w cfg) (\<lambda>_. True)"
  unfolding persist_config_def by (intro gtriple_bind [OF write_ok]) (simp add: installed_ok)

lemma persist_checked_ok:
  assumes "\<forall>u \<in> set (gc_upstream cfg). upstream_config_validate (me_gw me) u = Inr () \<Longrightarrow> P cfg"
  shows "gtriple (gw_live P) (persist_config me w cfg) (\<lambda>_. True)"
proof -
  have "gtriple (gw_live P) (write_config_file me w cfg) (\<lambda>_. P cfg)"
    using write_ok [of me w cfg] write_config_file_checked [of me w cfg] assms
    by (fastforce simp: gtriple_def)
  then show ?thesis
    unfolding persist_config_def by (rule gtriple_bind) (rule installed_ok)
qed

lemma quarantine_ok:
  "quarantine_unregistered_virtual_servers contains cfg = (c, ids) \<Longrightarrow> P cfg \<Longrightarrow> P c"
  by (auto simp: quarantine_unregistered_virtual_servers_def split: prod.splits
      intro!: quarantined_set virtual_servers_set)

lemma read_ok: "me_gw me = env \<Longrightarrow> gtriple (gw_live P) (read_gateway_config me) P"
  by (auto simp: gtriple_def read_gateway_config_def intro: loads)

lemma reload_ok:
  assumes "me_gw me = env"
  shows "gtriple (gw_live P) (reload_with_origin_unlocked me io) (\<lambda>_. True)"
  unfolding reload_with_origin_unlocked_def
  by (intro gtriple_bind [OF read_ok [OF assms]])
     (auto split: prod.splits simp: Let_def
       intro!: gtriple_bind [where Q = "\<lambda>_. True"] gtriple_ret gtriple_lift persist_ok installed_ok
       intro: quarantine_ok)

lemma write_and_reload_ok:
  "me_gw me = env \<Longrightarrow> gtriple (gw_live P) (write_and_reload me io cfg) (\<lambda>_. True)"
  unfolding write_and_reload_def by (intro gtriple_bind [OF write_ok] reload_ok)

lemma token_ok: "gtriple (gw_live P) (persist_gateway_bearer_token io n v) (\<lambda>_. True)"
  by (auto simp: gtriple_def persist_gateway_bearer_token_def gw_live_def split: sum.splits)

lemma get_ok: "gtriple (gw_live P) (get_upstream n) (\<lambda>_. True)"
  unfolding get_upstream_def by (intro gtriple_bind [OF config_ok] gtriple_lift) simp

text \<open>Writing, reloading and looking up keep the invariant whatever is written.\<close>

lemma any_lift: "gtriple (gw_live P) (glift r) (\<lambda>_. True)"
  by (intro gtriple_lift) simp

lemma any_ret: "gtriple (gw_live P) (gret x) (\<lambda>_. True)"
  by (intro gtriple_ret) simp

lemma any_bind:
  "gtriple (gw_live P) m (\<lambda>_. True) \<Longrightarrow> (\<And>x. gtriple (gw_live P) (f x) (\<lambda>_. True))
   \<Longrightarrow> gtriple (gw_live P) (gbind m f) (\<lambda>_. True)"
  by (rule gtriple_bind) auto

lemma any_config: "gtriple (gw_live P) gconfig (\<lambda>_. True)"
  by (rule gtriple_weaken [OF config_ok]) simp

lemmas any_rules = any_bind any_lift any_ret any_config write_and_reload_ok reload_ok token_ok get_ok

lemma add_ok: "me_gw me = env \<Longrightarrow> gtriple (gw_live P) (add_upstream me io u t) (\<lambda>_. True)"
  unfolding add_upstream_def by (auto intro!: any_rules split: option.splits)

lemma batch_ok: "me_gw me = env \<Longrightarrow> gtriple (gw_live P) (batch_add me io us) (\<lambda>_. True)"
  unfolding batch_add_def by (auto intro!: any_rules simp: Let_def split: prod.splits)

lemma update_ok: "me_gw me = env \<Longrightarrow> gtriple (gw_live P) (update me io n p t) (\<lambda>_. True)"
  unfolding update_def by (auto intro!: any_rules split: option.splits)

lemma remove_ok: "me_gw me = env \<Longrightarrow> gtriple (gw_live P) (remove_gateway me io n) (\<lambda>_. True)"
  unfolding remove_gateway_def by (auto intro!: any_rules split: prod.splits)

lemma code_mode_ok:
  assumes "me_gw me = env"
  shows "gtriple (gw_live P) (set_code_mode_config me io c) (\<lambda>_. True)"
  unfolding set_code_mode_config_def
proof (rule gtriple_bind)
  show "gtriple (gw_live P) (glift (validate_code_mode (me_gw me) c))
          (\<lambda>_. validate_code_mode env c = Inr ())"
    using assms by (intro gtriple_lift) simp
qed (use assms in \<open>auto simp: Let_def intro!: gtriple_bind [OF config_ok] any_rules persist_ok
      code_mode_set\<close>)

lemma route_ops_ok:
  assumes "me_gw me = env"
  shows "gtriple (gw_live P) (protected_route_add me io r) (\<lambda>_. True)"
    "gtriple (gw_live P) (protected_route_update me io n r) (\<lambda>_. True)"
    "gtriple (gw_live P) (protected_route_remove me io n) (\<lambda>_. True)"
proof -
  have put: "gtriple (gw_live P)
      (gbind (glift res) (\<lambda>(r, cfg). gbind (persist_config me w cfg) (\<lambda>_. gret r))) (\<lambda>_. True)"
    if "\<And>r cfg. res = Inr (r, cfg) \<Longrightarrow> P cfg" for res :: "tool_error + mcp_route \<times> gateway_config" and w
    using that by (intro gtriple_bind [where Q = "\<lambda>(r, cfg). P cfg"])
      (auto intro!: gtriple_lift any_rules persist_ok)
  show "gtriple (gw_live P) (protected_route_add me io r) (\<lambda>_. True)"
    unfolding protected_route_add_def using assms
    by (auto intro!: any_bind [OF any_lift] gtriple_bind [OF config_ok] put intro: route_added)
  show "gtriple (gw_live P) (protected_route_update me io n r) (\<lambda>_. True)"
    unfolding protected_route_update_def using assms
    by (auto intro!: gtriple_bind [OF config_ok] any_bind [OF any_lift] put intro: route_updated)
  show "gtriple (gw_live P) (protected_route_remove me io n) (\<lambda>_. True)"
    unfolding protected_route_remove_def using assms
    by (auto intro!: gtriple_bind [OF config_ok] any_bind [OF any_lift] put intro: route_removed)
qed

lemma auto_import_ok:
  "me_gw me = env \<Longrightarrow> gtriple (gw_live P) (auto_import_discovered_configs me io) (\<lambda>_. True)"
  unfolding auto_import_discovered_configs_def
  by (auto intro!: any_rules batch_ok simp: Let_def split: option.splits)

lemma queue_keeps: "P cfg \<Longrightarrow> queue_discovered cfg ds = (cfg', n) \<Longrightarrow> P cfg'"
  by (induction cfg ds arbitrary: cfg' n rule: queue_discovered.induct)
     (auto split: if_splits prod.splits intro: pending_set)

lemma cap_pending_keeps: "P cfg \<Longrightarrow> P (cap_pending_imports cfg)"
  by (simp add: cap_pending_imports_def Let_def pending_set)

lemma cap_tombstones_keeps: "P cfg \<Longrightarrow> P (cap_import_tombstones cfg)"
  by (simp add: cap_import_tombstones_def Let_def tombstones_set)

lemma discover_ok: "gtriple (gw_live P) (discover_into_pending me io) (\<lambda>_. True)"
  unfolding discover_into_pending_def
  by (auto intro!: any_ret gtriple_bind [OF config_ok] any_bind persist_ok cap_pending_keeps
      simp: Let_def split: option.splits prod.splits intro: queue_keeps)

lemma reject_ok: "gtriple (gw_live P) (reject_pending_import me io n) (\<lambda>_. True)"
  unfolding reject_pending_import_def
  by (auto intro!: any_ret any_lift gtriple_bind [OF config_ok] any_bind persist_ok
      cap_tombstones_keeps tombstones_set pending_set simp: Let_def split: option.splits)

lemma clear_ok: "gtriple (gw_live P) (clear_import_tombstone me io sel) (\<lambda>_. True)"
  unfolding clear_import_tombstone_def
  by (auto intro!: any_ret any_lift gtriple_bind [OF config_ok] any_bind persist_ok
      tombstones_set simp: Let_def drop_tombstones_def)

lemma restore_ok:
  "me_gw me = env \<Longrightarrow> gtriple (gw_live P) (restore_import_tombstone me io sel) (\<lambda>_. True)"
  unfolding restore_import_tombstone_def
  by (auto intro!: gtriple_bind [OF config_ok] any_bind [OF any_lift] any_rules persist_ok
      tombstones_set simp: drop_tombstones_def)

lemma virtual_server_ops_ok:
  "gtriple (gw_live P) (remove_virtual_server me io v) (\<lambda>_. True)"
  "gtriple (gw_live P) (restore_quarantined_virtual_server me io v) (\<lambda>_. True)"
  "gtriple (gw_live P) (set_virtual_server_surface me io v sf on) (\<lambda>_. True)"
  "gtriple (gw_live P) (set_virtual_server_mcp_policy me io v actions) (\<lambda>_. True)"
  unfolding remove_virtual_server_def restore_quarantined_virtual_server_def
    set_virtual_server_surface_def set_virtual_server_mcp_policy_def
  by (auto intro!: gtriple_bind [OF config_ok] any_bind any_lift any_ret any_config persist_ok
      virtual_servers_set quarantined_set simp: Let_def)

lemma slot_keeps: "P cfg \<Longrightarrow> virtual_server_slot io cfg v = Inr (i, cfg') \<Longrightarrow> P cfg'"
  by (auto simp: virtual_server_slot_def and_then_Inr split: option.splits if_splits
      intro: virtual_servers_set)

lemma set_virtual_server_ok: "gtriple (gw_live P) (set_virtual_server_enabled me io v on) (\<lambda>_. True)"
  unfolding set_virtual_server_enabled_def
proof (rule gtriple_bind [OF config_ok], rule gtriple_bind)
  show "gtriple (gw_live P) (glift (virtual_server_slot io cfg v)) (\<lambda>(i, c). P c)" if "P cfg" for cfg
    using that by (intro gtriple_lift) (auto intro: slot_keeps)
qed (auto intro!: any_bind any_lift any_config persist_ok virtual_servers_set simp: Let_def)

lemma service_config_ok: "gtriple (gw_live P) (set_service_config io sv values) (\<lambda>_. True)"
  by (auto simp: gtriple_def set_service_config_def gw_live_def Let_def split: option.splits)

lemma hint_ok: "gtriple (gw_live P) (apply_enrichment me io scope n h m) (\<lambda>_. True)"
  unfolding apply_enrichment_def
proof (rule any_bind [OF any_lift], rule any_bind [OF any_lift], rule gtriple_bind [OF config_ok],
    rule gtriple_bind)
  show "gtriple (gw_live P) (glift (ok_or (position (\<lambda>u. up_name u = n) (gc_upstream cfg)) e))
          (\<lambda>i. P cfg \<and> i < length (gc_upstream cfg))" if "P cfg" for cfg and e :: tool_error
    using that position_Some by (intro gtriple_lift) fastforce
qed (auto intro!: any_bind any_lift any_ret persist_ok hint_set)

lemma oauth_ok:
  assumes "me_gw me = env"
  shows "gtriple (gw_live P) (complete_upstream_authorization_callback me io n) (\<lambda>_. True)"
  unfolding complete_upstream_authorization_callback_def
proof (rule any_bind [OF any_lift], rule any_bind [OF any_lift], rule gtriple_bind [OF config_ok])
  fix oauth_config cfg assume "P cfg"
  then have "gtriple (gw_live P)
      (persist_config me (io_write io) (update_upstream_at i (\<lambda>u. u\<lparr>up_oauth := o'\<rparr>) cfg)) (\<lambda>_. True)"
    if "position (\<lambda>u. up_name u = n) (gc_upstream cfg) = Some i" for i o'
    using position_Some [OF that] assms
    by (intro persist_checked_ok oauth_set)
       (auto simp: update_upstream_at_def set_update_memI)
  then show "gtriple (gw_live P)
      (case (oauth_config, position (\<lambda>u. up_name u = n) (gc_upstream cfg)) of
         (Some oauth, Some i) \<Rightarrow>
           if up_oauth (gc_upstream cfg ! i) = None
           then persist_config me (io_write io)
                  (update_upstream_at i (\<lambda>u. u\<lparr>up_oauth := Some oauth\<rparr>) cfg)
           else gret ()
       | _ \<Rightarrow> gret ()) (\<lambda>_. True)"
    by (auto intro: any_ret split: option.splits)
qed

lemma seed_ok:
  assumes "me_gw me = env"
  shows "gtriple (gw_live P) (try_seed_config me cfg) (\<lambda>_. True)"
  unfolding try_seed_config_def
proof (rule any_bind [OF any_lift], rule gtriple_bind)
  show "gtriple (gw_live P) (glift (validate_config (me_gw me) c))
          (\<lambda>_. validate_config env c = Inr ())" for c
    using assms by (intro gtriple_lift) simp
qed (auto intro!: installed_ok seeds)

lemmas ops_ok = add_ok batch_ok update_ok remove_ok code_mode_ok route_ops_ok auto_import_ok
  discover_ok reject_ok clear_ok restore_ok virtual_server_ops_ok set_virtual_server_ok
  service_config_ok hint_ok oauth_ok seed_ok reload_ok

lemma after_ok: "gtriple (gw_live P) m (\<lambda>_. True) \<Longrightarrow> gw_live P s \<Longrightarrow> gw_live P (snd (after m s))"
  by (rule gtriple_after)

lemma step_ok:
  assumes "me_gw me = env" and "gw_live P s" and "\<not> is_approval ev"
  shows "gw_live P (snd (gw_step me io ev s))"
  using assms by (cases ev) (simp_all add: after_ok ops_ok is_approval_def)

lemma run_ok:
  assumes "me_gw me = env" and "gw_live P s" and "\<forall>(io, ev) \<in> set evs. \<not> is_approval ev"
  shows "gw_live P (gw_run me evs s)"
  using assms(2,3)
proof (induction evs arbitrary: s)
  case (Cons e evs)
  then show ?case using step_ok [OF assms(1)] by (cases e) auto
qed simp

end

text \<open>Approving an import needs the property to survive an arbitrary new upstream.\<close>

locale approving_contract = config_contract +
  assumes upstream_pushed: "P cfg \<Longrightarrow> P (cfg\<lparr>gc_upstream := us\<rparr>)"
begin

lemma approve_ok: "gtriple (gw_live P) (approve_pending_import me io n) (\<lambda>_. True)"
  unfolding approve_pending_import_def
  by (auto intro!: any_ret any_lift gtriple_bind [OF config_ok] any_bind persist_ok
      pending_set upstream_pushed simp: Let_def)

lemma every_step_ok:
  assumes "me_gw me = env" and "gw_live P s"
  shows "gw_live P (snd (gw_step me io ev s))"
proof (cases "is_approval ev")
  case True
  with assms show ?thesis
    by (auto simp: after_ok approve_ok is_approval_def split: gw_event.splits)
next
  case False
  with assms show ?thesis by (intro step_ok) auto
qed

lemma every_run_ok: "me_gw me = env \<Longrightarrow> gw_live P s \<Longrightarrow> gw_live P (gw_run me evs s)"
  by (induction evs arbitrary: s) (auto simp: every_step_ok)

end

section \<open>The contract holds for validity and for the index alone\<close>

lemma validate_config_frame [simp]:
  "validate_config env (cfg\<lparr>gc_tombstones := ts\<rparr>) = validate_config env cfg"
  "validate_config env (cfg\<lparr>gc_pending := us\<rparr>) = validate_config env cfg"
  "validate_config env (cfg\<lparr>gc_virtual_servers := vs\<rparr>) = validate_config env cfg"
  "validate_config env (cfg\<lparr>gc_quarantined := vs\<rparr>) = validate_config env cfg"
  by (simp_all add: validate_config_def)

lemma code_mode_set_valid:
  "validate_config env cfg = Inr () \<Longrightarrow> validate_code_mode env c = Inr ()
   \<Longrightarrow> validate_config env (cfg\<lparr>gc_code_mode := c\<rparr>) = Inr ()"
  by (simp add: validate_config_iff)

lemma update_upstream_at_valid:
  assumes "validate_config env cfg = Inr ()" and "i < length (gc_upstream cfg)"
    and "up_name (f (gc_upstream cfg ! i)) = up_name (gc_upstream cfg ! i)"
    and "validate_upstream env (gc_gateway cfg) (f (gc_upstream cfg ! i)) = Inr ()"
  shows "validate_config env (update_upstream_at i f cfg) = Inr ()"
proof -
  have "map up_name ((gc_upstream cfg)[i := f (gc_upstream cfg ! i)]) = map up_name (gc_upstream cfg)"
    using assms(2,3) by (simp add: map_update) (metis list_update_id nth_map)
  then show ?thesis
    using assms by (auto simp: update_upstream_at_def validate_config_iff validate_upstreams_iff
        dest: set_update_subset_insert [THEN subsetD])
qed

lemma validate_upstream_at:
  "validate_config env cfg = Inr () \<Longrightarrow> i < length (gc_upstream cfg)
   \<Longrightarrow> validate_upstream env (gc_gateway cfg) (gc_upstream cfg ! i) = Inr ()"
  by (simp add: validate_config_iff validate_upstreams_iff)

lemma hint_set_valid:
  assumes "validate_config env cfg = Inr ()" and "i < length (gc_upstream cfg)"
  shows "validate_config env (update_upstream_at i (\<lambda>u. u\<lparr>up_code_mode_hint := h\<rparr>) cfg) = Inr ()"
proof (rule update_upstream_at_valid [OF assms])
  have "checked_fields (u\<lparr>up_code_mode_hint := h\<rparr>) = checked_fields u" for u
    by (simp add: checked_fields_def)
  then show "validate_upstream env (gc_gateway cfg) ((gc_upstream cfg ! i)\<lparr>up_code_mode_hint := h\<rparr>) = Inr ()"
    using validate_upstream_at [OF assms] validate_upstream_checked by metis
qed simp

lemma oauth_set_valid:
  "validate_config env cfg = Inr () \<Longrightarrow> i < length (gc_upstream cfg) \<Longrightarrow>
   upstream_config_validate env ((gc_upstream cfg ! i)\<lparr>up_oauth := oauth\<rparr>) = Inr () \<Longrightarrow>
   validate_config env (update_upstream_at i (\<lambda>u. u\<lparr>up_oauth := oauth\<rparr>) cfg) = Inr ()"
  using validate_upstream_at [of env cfg i]
  by (intro update_upstream_at_valid) (auto simp: validate_upstream_def and_then_Inr cong: option.case_cong)

interpretation valid: config_contract env "\<lambda>cfg. validate_config env cfg = Inr ()" for env
  by unfold_locales
     (auto intro: load_gateway_config_valid insert_protected_mcp_route_valid
       update_protected_mcp_route_valid remove_protected_mcp_route_valid code_mode_set_valid
       hint_set_valid oauth_set_valid)

interpretation indexed: approving_contract env "\<lambda>_. True" for env
  by unfold_locales simp_all

end
