(* ===== verification/Gateway_Theorems.thy ===== *)
theory Gateway_Theorems
  imports Gateway_Invariant
begin

text \<open>
  The properties of the gateway configuration and its manager: what a run keeps, what
  resolution computes, what the mutations do to references and imports, and three ways in
  which an accepted mutation leaves a configuration that the next load refuses.
\<close>

section \<open>What a successful operation leaves\<close>

lemma gbind_Inr:
  "gbind m f s = (Inr y, s') \<longleftrightarrow> (\<exists>x s1. m s = (Inr x, s1) \<and> f x s1 = (Inr y, s'))"
  by (auto simp: gbind_def split: prod.splits sum.splits)

lemma glift_Inr [simp]: "glift r s = (Inr x, s') \<longleftrightarrow> r = Inr x \<and> s' = s"
  by (auto simp: glift_def)

lemma gret_Inr [simp]: "gret y s = (Inr x, s') \<longleftrightarrow> y = x \<and> s' = s"
  by (auto simp: gret_def)

lemma gconfig_Inr [simp]: "gconfig s = (Inr x, s') \<longleftrightarrow> x = gm_config s \<and> s' = s"
  by (auto simp: gconfig_def)

lemma after_fst: "fst (after m s) = is_ok (fst (m s))"
  by (simp add: after_def split: prod.splits)

text \<open>A successful write leaves exactly the configuration in the file.\<close>

lemma store_persist_Inr:
  "store_persist me w f cfg = (Inr (), f') \<Longrightarrow> \<exists>h. f' = Decoded (cfg, Some h)"
  by (auto simp: store_persist_def host_write_gateway_config_def apply_gateway_config_def Let_def
      split: sum.splits write_io.splits)

lemma write_config_file_Inr:
  assumes "write_config_file me w cfg s = (Inr (), s')"
  shows "\<exists>h. s' = s\<lparr>gm_file := Decoded (cfg, Some h)\<rparr>"
  using assms by (auto simp: write_config_file_def split: prod.splits dest!: store_persist_Inr)

lemma persist_config_Inr:
  assumes "persist_config me w cfg s = (Inr (), s')"
  shows "(\<exists>h. gm_file s' = Decoded (cfg, Some h)) \<and> gm_config s' = cfg
    \<and> gm_index s' = from_routes (gc_routes cfg)"
  using assms
  by (auto simp: persist_config_def gbind_Inr install_def dest!: write_config_file_Inr)

lemma quarantine_keeps:
  "quarantine_unregistered_virtual_servers contains cfg = (c, ids) \<Longrightarrow>
   \<exists>act q. c = cfg\<lparr>gc_virtual_servers := act, gc_quarantined := q\<rparr>"
  by (auto simp: quarantine_unregistered_virtual_servers_def split: prod.splits)

lemma reload_Inr:
  assumes "reload_with_origin_unlocked me io s = (Inr (), s')" and "gm_file s = Decoded (cfg, h)"
  shows "\<exists>rs act q. gm_config s' = cfg\<lparr>gc_routes := rs, gc_virtual_servers := act, gc_quarantined := q\<rparr>"
proof -
  obtain c where c: "load_gateway_config (me_gw me) (Decoded cfg) = Inr c"
    and rest: "gm_config s' = fst (quarantine_unregistered_virtual_servers (io_contains_service io) c)"
    using assms
    by (auto simp: reload_with_origin_unlocked_def gbind_Inr read_gateway_config_def gateway_part_def
        install_def case_prod_unfold Let_def)
  obtain act q where "gm_config s' = c\<lparr>gc_virtual_servers := act, gc_quarantined := q\<rparr>"
    using quarantine_keeps [of "io_contains_service io" c] rest by (metis prod.collapse)
  with load_gateway_config_keeps [OF c] show ?thesis by auto
qed

lemma write_and_reload_Inr:
  assumes "write_and_reload me io cfg s = (Inr (), s')"
  shows "\<exists>rs act q. gm_config s' = cfg\<lparr>gc_routes := rs, gc_virtual_servers := act, gc_quarantined := q\<rparr>"
proof -
  obtain s1 h where "s1 = s\<lparr>gm_file := Decoded (cfg, Some h)\<rparr>"
    and r: "reload_with_origin_unlocked me io s1 = (Inr (), s')"
    using assms by (auto simp: write_and_reload_def gbind_Inr dest!: write_config_file_Inr)
  then show ?thesis by (intro reload_Inr [OF r]) simp
qed

section \<open>What makes a load fail\<close>

lemma reload_fails:
  assumes "gm_file s = Decoded (cfg, h)"
    and "\<And>c. load_gateway_config (me_gw me) (Decoded cfg) \<noteq> Inr c"
  shows "\<not> fst (gw_step me io Reload s)"
  using assms
  by (cases "load_gateway_config (me_gw me) (Decoded cfg)")
     (auto simp: after_fst reload_with_origin_unlocked_def gbind_def read_gateway_config_def
       gateway_part_def split: prod.splits)

lemma seed_fails:
  assumes "\<And>c. normalize_config (me_gw me) cfg = Inr c \<Longrightarrow> validate_config (me_gw me) c \<noteq> Inr ()"
  shows "\<not> fst (gw_step me io (Seed cfg) s)"
  using assms
  by (cases "normalize_config (me_gw me) cfg"; cases "validate_config (me_gw me) (projr (normalize_config (me_gw me) cfg))")
     (auto simp: after_fst try_seed_config_def gbind_def glift_def)

lemma bad_upstreams_fail:
  assumes "validate_upstreams env (gc_gateway cfg) (gc_upstream cfg) \<noteq> Inr ()"
  shows "load_gateway_config env (Decoded cfg) \<noteq> Inr c"
    and "normalize_config env cfg = Inr c' \<Longrightarrow> validate_config env c' \<noteq> Inr ()"
  using assms
  by (auto simp: load_gateway_config_def and_then_Inr normalize_config_def validate_config_iff)

lemma host_load_keeps:
  "host_load_gateway_config me (Decoded (cfg, h)) = Inr lab \<Longrightarrow>
   \<exists>rs. to_gateway_config lab = cfg\<lparr>gc_routes := rs\<rparr>"
  by (auto simp: host_load_gateway_config_def and_then_Inr to_gateway_config_def split: option.splits)

section \<open>Validity of the live configuration\<close>

lemma new_manager_live: "gw_live (\<lambda>cfg. validate_config env cfg = Inr ()) (new_manager f)"
  by (simp add: gw_live_def new_manager_def default_gateway_config_valid)
     (simp add: default_gateway_config_def from_routes_def)

lemma valid_upstream_guarded:
  assumes "validate_upstream env prefs u = Inr ()" and "up_command u = Some c"
  shows "validate_stdio_spec c (up_args u) (up_env u) (gp_extra_stdio_commands prefs)
           (gp_disable_spawn_guard prefs) = Inr ()"
  using assms
  by (auto simp: validate_upstream_def and_then_Inr validate_stdio_upstream_def
      split: option.splits if_splits)

text \<open>
  C3. Through every sequence of manager operations other than approving a pending import,
  whatever the file system, the clock, discovery and edits of the configuration file do,
  the live configuration satisfies \<open>validate_config\<close>: in particular names are unique and
  every stdio upstream has passed the spawn guard.
\<close>

theorem live_config_valid:
  assumes "\<forall>(io, ev) \<in> set evs. \<not> is_approval ev"
  shows "validate_config (me_gw me) (gm_config (gw_run me evs (new_manager f))) = Inr ()
    \<and> (\<forall>u \<in> set (gc_upstream (gm_config (gw_run me evs (new_manager f)))). \<forall>c.
         up_command u = Some c \<longrightarrow>
         validate_stdio_spec c (up_args u) (up_env u)
           (gp_extra_stdio_commands (gc_gateway (gm_config (gw_run me evs (new_manager f)))))
           (gp_disable_spawn_guard (gc_gateway (gm_config (gw_run me evs (new_manager f))))) = Inr ())"
proof -
  let ?cfg = "gm_config (gw_run me evs (new_manager f))"
  have v: "validate_config (me_gw me) ?cfg = Inr ()"
    using valid.run_ok [OF refl new_manager_live assms] by (simp add: gw_live_def)
  then show ?thesis
    by (auto simp: validate_config_iff validate_upstreams_iff intro: valid_upstream_guarded)
qed

text \<open>
  C8. In every reachable state, approvals included, the route found for a host and a path
  through the index is the earliest of the live configuration's enabled routes of that host
  with the longest public path that matches.
\<close>

theorem live_route_longest_match:
  "resolve_protected_route (gw_run me evs (new_manager f)) host path =
   route_for (gc_routes (gm_config (gw_run me evs (new_manager f)))) host path"
proof -
  have "gw_live (\<lambda>_. True) (gw_run me evs (new_manager f))"
    using new_manager_live [of "me_gw me" f]
    by (intro indexed.every_run_ok [OF refl]) (simp add: gw_live_def)
  then show ?thesis
    by (simp add: gw_live_def resolve_protected_route_def resolve_def route_for_def find_in_index)
qed

section \<open>References and imports\<close>

lemma remove_upstream_references:
  assumes valid: "validate_config env cfg = Inr ()" and rm: "remove_upstream cfg n = Inr (u, cfg1)"
  shows "n \<notin> up_name ` set (gc_upstream cfg1)"
    and "r \<in> set (gc_routes cfg) \<Longrightarrow> \<not> subset_depends_on r n"
    and "r \<in> set (gc_routes cfg) \<Longrightarrow> \<not> route_refers r n \<Longrightarrow> r \<in> set (gc_routes cfg1)"
    and "r1 \<in> set (gc_routes cfg1) \<Longrightarrow> \<exists>r \<in> set (gc_routes cfg). prune_route n r = Some r1"
proof -
  obtain i where i: "position (\<lambda>u. up_name u = n) (gc_upstream cfg) = Some i"
    and c: "gc_upstream cfg1 = remove_at i (gc_upstream cfg)"
      "gc_routes cfg1 = List.map_filter (prune_route n) (gc_routes cfg)"
    using rm by (auto simp: remove_upstream_def and_then_Inr cascade_upstream_removal_def)
  have "distinct (map up_name (gc_upstream cfg))"
    using valid by (simp add: validate_config_iff validate_upstreams_iff)
  then show "n \<notin> up_name ` set (gc_upstream cfg1)" using removed_key_gone i c by simp
  show "\<not> subset_depends_on r n" if "r \<in> set (gc_routes cfg)"
    using rm that by (auto simp: remove_upstream_def and_then_Inr list_ex_iff
        ensure_no_startup_mounted_subset_depends_on_def)
  show "r \<in> set (gc_routes cfg1)" if "r \<in> set (gc_routes cfg)" "\<not> route_refers r n"
  proof -
    have "prune_route n r = Some r"
      using valid that by (auto simp: validate_config_iff validate_protected_mcp_routes_iff
          intro: prune_route_same)
    then show ?thesis using that c by (force simp: map_filter_def)
  qed
  show "\<exists>r \<in> set (gc_routes cfg). prune_route n r = Some r1" if "r1 \<in> set (gc_routes cfg1)"
    using that c by (auto simp: map_filter_def)
qed

lemma rename_upstream_references:
  assumes valid: "validate_config env cfg = Inr ()"
    and up: "update_upstream env cfg n p = Inr cfg2" "pt_name p = Some b" "b \<noteq> n"
  shows "b \<in> up_name ` set (gc_upstream cfg2)" and "n \<notin> up_name ` set (gc_upstream cfg2)"
    and "gc_routes cfg2 = map (rename_route n b) (gc_routes cfg)"
    and "r \<in> set (gc_routes cfg) \<Longrightarrow> \<not> subset_depends_on r n"
proof -
  obtain i where i: "position (\<lambda>u. up_name u = n) (gc_upstream cfg) = Some i"
    and c: "gc_upstream cfg2 = (gc_upstream cfg)[i := apply_patch p (gc_upstream cfg ! i)]"
      "gc_routes cfg2 = map (rename_route n b) (gc_routes cfg)"
    using up by (auto simp: update_upstream_def and_then_Inr Let_def renamed_to_def
        cascade_upstream_rename_def split: option.splits if_splits)
  have d: "distinct (map up_name (gc_upstream cfg))"
    using valid by (simp add: validate_config_iff validate_upstreams_iff)
  have ups: "set (gc_upstream cfg2) =
      insert (apply_patch p (gc_upstream cfg ! i)) (set (remove_at i (gc_upstream cfg)))"
    using position_Some [OF i] c by (auto simp: update_split remove_at_def)
  show "b \<in> up_name ` set (gc_upstream cfg2)" using ups up by (simp add: or_keep_def)
  show "n \<notin> up_name ` set (gc_upstream cfg2)"
    using ups up removed_key_gone [OF d i] by (auto simp: or_keep_def)
  show "gc_routes cfg2 = map (rename_route n b) (gc_routes cfg)" by (rule c)
  show "\<not> subset_depends_on r n" if "r \<in> set (gc_routes cfg)"
    using up that by (auto simp: update_upstream_def and_then_Inr Let_def renamed_to_def list_ex_iff
        ensure_no_startup_mounted_subset_depends_on_def split: option.splits if_splits)
qed


text \<open>The import a tombstone was made from, and a discovered server that comes from it.\<close>

definition same_import :: "upstream_config \<Rightarrow> discovered_server \<Rightarrow> bool" where
  "same_import u d =
     (case up_imported_from u of
        None \<Rightarrow> False
      | Some src \<Rightarrow>
          ds_source_client d = is_client src \<and> ds_source_path d = is_path src
          \<and> (ds_name d = up_name u \<or> is_server_name src = Some (ds_name d))
          \<and> (is_transport_fingerprint src = None
             \<or> Option.bind (up_imported_from (ds_spec d)) is_transport_fingerprint
               = is_transport_fingerprint src))"

lemma removed_import_tombstoned:
  assumes "same_import u d"
  shows "\<exists>t \<in> set (gc_tombstones (tombstone_removed_import now cfg u)). tombstone_matches_discovered t d"
  using assms
  by (auto simp: same_import_def tombstone_removed_import_def tombstone_matches_discovered_def
      tombstone_transport_matches_discovered_def split: option.splits)

text \<open>A tombstoned server does not change what an import takes from the others.\<close>

lemma partition_skips:
  assumes "discovered_is_tombstoned cfg d"
  shows "snd (partition_discovered_for_import cfg (ds1 @ d # ds2)) =
    snd (partition_discovered_for_import cfg (ds1 @ ds2))"
  using assms by (induction ds1) (auto simp: Let_def split: prod.splits)

lemma tombstoned_pending [simp]:
  "discovered_is_tombstoned (cfg\<lparr>gc_pending := us\<rparr>) d = discovered_is_tombstoned cfg d"
  by (simp add: discovered_is_tombstoned_def)

lemma queue_skips:
  assumes "discovered_is_tombstoned cfg d"
  shows "queue_discovered cfg (ds1 @ d # ds2) = queue_discovered cfg (ds1 @ ds2)"
  using assms by (induction ds1 arbitrary: cfg) auto

lemma reload_discovered [simp]:
  "reload_with_origin_unlocked me (io\<lparr>io_discovered := x\<rparr>) = reload_with_origin_unlocked me io"
  by (simp add: reload_with_origin_unlocked_def case_prod_unfold cong: if_cong)

lemma batch_add_discovered [simp]:
  "batch_add me (io\<lparr>io_discovered := x\<rparr>) specs = batch_add me io specs"
  by (simp add: batch_add_def write_and_reload_def case_prod_unfold cong: if_cong)

text \<open>
  C17. After an operator has removed an imported upstream, a server found again at the same
  place (same client, same file, the upstream's name or the name it had when it was
  imported, and the same transport) has no effect on automatic import or on the queue of
  pending imports: both behave as if it had not been found.
\<close>

theorem removed_import_stays_removed:
  assumes "remove_gateway me io name s = (Inr u, s')" and "same_import u d"
  shows "auto_import_discovered_configs me (io'\<lparr>io_discovered := Some (ds1 @ d # ds2)\<rparr>) s' =
         auto_import_discovered_configs me (io'\<lparr>io_discovered := Some (ds1 @ ds2)\<rparr>) s'
    \<and> discover_into_pending me (io'\<lparr>io_discovered := Some (ds1 @ d # ds2)\<rparr>) s' =
      discover_into_pending me (io'\<lparr>io_discovered := Some (ds1 @ ds2)\<rparr>) s'"
proof -
  obtain cfg where "gc_tombstones (gm_config s') =
      gc_tombstones (tombstone_removed_import (io_now io) cfg u)"
    using assms(1) by (fastforce simp: remove_gateway_def gbind_Inr case_prod_unfold
        dest!: write_and_reload_Inr)
  then have "discovered_is_tombstoned (gm_config s') d"
    using removed_import_tombstoned [OF assms(2), of "io_now io" cfg]
    by (simp add: discovered_is_tombstoned_def list_ex_iff)
  then show ?thesis
    by (simp add: auto_import_discovered_configs_def discover_into_pending_def gbind_def
        gconfig_def partition_skips queue_skips Let_def case_prod_unfold cong: if_cong)
qed

section \<open>Hints\<close>

text \<open>
  When a hint is applied, the caller's route sees the upstream, the metadata the hint was
  written for is the current one, and nothing of the live configuration changes but the hint
  of that upstream. The stored hint is a line of at most 240 plain ASCII characters with
  single blanks and without a slash, contains none of the blocked words and fragments in any
  case, and is shown as it is stored.
\<close>

theorem applied_hint_plain:
  assumes "apply_enrichment me io scope name raw hash s = (Inr previous, s')"
  shows "\<exists>i h. position (\<lambda>u. up_name u = name) (gc_upstream (gm_config s)) = Some i
    \<and> gm_config s' = update_upstream_at i (\<lambda>u. u\<lparr>up_code_mode_hint := Some h\<rparr>) (gm_config s)
    \<and> (scope = None \<or> name \<in> set (the scope)) \<and> io_metadata_hash io = Some hash
    \<and> 0 < length h \<and> length h \<le> 240 \<and> single_blanks False h
    \<and> list_all (\<lambda>c. hint_char c \<and> c \<noteq> CHR ''/'') h
    \<and> list_all (\<lambda>b. \<not> sublist b (to_ascii_lowercase h)) blocked_substrings
    \<and> list_all (\<lambda>w. to_ascii_lowercase w \<notin> set blocked_words) (hint_words h)
    \<and> normalize_code_mode_hint h = Some h"
proof -
  obtain i h where i: "position (\<lambda>u. up_name u = name) (gc_upstream (gm_config s)) = Some i"
    and h: "normalize_code_mode_hint raw = Some h"
    and s': "gm_config s' = update_upstream_at i (\<lambda>u. u\<lparr>up_code_mode_hint := Some h\<rparr>) (gm_config s)"
    and guard: "scope = None \<or> name \<in> set (the scope)" "io_metadata_hash io = Some hash"
    using assms
    by (auto simp: apply_enrichment_def gbind_Inr validate_hint_def ensure_visible_def
        split: option.splits dest!: persist_config_Inr)
  show ?thesis
    using i s' guard hint_accepted [OF h]
    by (intro exI [of _ i] exI [of _ h])
       (auto simp: hint_plain_def Let_def list_all_iff list_ex_iff str_contains_iff
         CODE_MODE_HINT_MAX_CHARS_def)
qed

section \<open>Accepted configurations that the next load refuses\<close>

lemma upstream_config_validate_enabled [simp]:
  "upstream_config_validate env (u\<lparr>up_enabled := b\<rparr>) = upstream_config_validate env u"
  by (rule upstream_config_validate_checked) (simp add: checked_fields_def)

lemma validate_upstream_enabled [simp]:
  "validate_upstream env prefs (u\<lparr>up_enabled := b\<rparr>) = validate_upstream env prefs u"
  by (rule validate_upstream_checked) (simp add: checked_fields_def)

lemma validate_upstreams_enabled:
  "validate_upstreams env prefs (us @ [u\<lparr>up_enabled := b\<rparr>]) = Inr () \<longleftrightarrow>
   validate_upstreams env prefs (us @ [u]) = Inr ()"
  by (auto simp: validate_upstreams_iff)

text \<open>
  C40. Approving a pending import does not apply the gateway's own validation. When the
  queued upstream would be refused there (its command is not an allowed runtime, or its
  name is taken), an approval that succeeds leaves an invalid live configuration and a
  file from which every reload fails and no process can start.
\<close>

theorem approval_skips_validation:
  assumes "approve_pending_import me io name s = (Inr spec, s')"
    and "validate_upstreams (me_gw me) (gc_gateway (gm_config s)) (gc_upstream (gm_config s) @ [spec]) \<noteq> Inr ()"
  shows "validate_config (me_gw me) (gm_config s') \<noteq> Inr ()
    \<and> (\<forall>io'. \<not> fst (gw_step me io' Reload s'))
    \<and> (\<forall>io' lab s0. host_load_gateway_config me (gm_file s') = Inr lab \<longrightarrow>
          \<not> fst (gw_step me io' (Seed (to_gateway_config lab)) s0))"
proof -
  obtain i h where i: "position (\<lambda>u. up_name u = name) (gc_pending (gm_config s)) = Some i"
    and spec: "spec = gc_pending (gm_config s) ! i"
    and on_disk: "gm_file s' = Decoded (gm_config s', Some h)"
    and cfg: "gm_config s' = (gm_config s)\<lparr>gc_pending := remove_at i (gc_pending (gm_config s)),
                gc_upstream := gc_upstream (gm_config s) @ [spec\<lparr>up_enabled := False\<rparr>]\<rparr>"
    using assms(1)
    by (auto simp: approve_pending_import_def gbind_Inr Let_def dest!: persist_config_Inr)
  have bad: "validate_upstreams (me_gw me) (gc_gateway (gm_config s')) (gc_upstream (gm_config s')) \<noteq> Inr ()"
    using assms(2) cfg by (simp add: validate_upstreams_enabled)
  have "\<not> fst (gw_step me io' (Seed (to_gateway_config lab)) s0)"
    if loaded: "host_load_gateway_config me (gm_file s') = Inr lab" for io' lab and s0 :: "'a gw_state"
  proof (rule seed_fails)
    obtain rs where "to_gateway_config lab = (gm_config s')\<lparr>gc_routes := rs\<rparr>"
      using host_load_keeps loaded on_disk by metis
    with bad show "validate_config (me_gw me) c \<noteq> Inr ()"
      if "normalize_config (me_gw me) (to_gateway_config lab) = Inr c" for c
      using that by (intro bad_upstreams_fail(2)) simp_all
  qed
  moreover have "\<not> fst (gw_step me io' Reload s')" for io'
    by (rule reload_fails [OF on_disk]) (rule bad_upstreams_fail(1) [OF bad])
  ultimately show ?thesis using bad by (simp add: validate_config_iff)
qed

text \<open>A path of slashes only normalises to the empty path, which every check accepts.\<close>

lemma normalize_slashes: "trim raw = ''//'' \<Longrightarrow> normalize_route_path raw p = Inr []"
  by (simp add: normalize_route_path_def starts_with_def ends_with_def trim_end_char_def)

lemma empty_path_refused: "normalize_route_path [] p = Inl (InvalidParam p)"
  by (simp add: normalize_route_path_def trim_def trim_end_def starts_with_def)

lemma try_map_fails:
  "x \<in> set xs \<Longrightarrow> f x = Inl e \<Longrightarrow> try_map f xs \<noteq> Inr ys"
  by (induction xs arbitrary: ys) (auto simp: and_then_Inr)

lemma normalize_loaded_route_path:
  "normalize_loaded_route env r = Inr r' \<Longrightarrow> rt_public_path r' = rt_public_path r
     \<and> rt_public_host r' = rt_public_host r"
  by (auto simp: normalize_loaded_route_def normalize_loaded_target_def and_then_Inr
      split: if_splits option.splits route_target.splits)

lemma try_map_member:
  "try_map f xs = Inr ys \<Longrightarrow> x \<in> set xs \<Longrightarrow> \<exists>y \<in> set ys. f x = Inr y"
  by (induction xs arbitrary: ys) (auto simp: and_then_Inr)

lemma empty_path_not_normal:
  "rt_public_path r = [] \<Longrightarrow> normalize_protected_mcp_route env r \<noteq> Inr r'"
  by (auto simp: normalize_protected_mcp_route_def and_then_Inr empty_path_refused)

lemma empty_path_not_normalized:
  assumes "r \<in> set (gc_routes cfg)" and "rt_public_path r = []"
  shows "normalize_config env cfg \<noteq> Inr c"
  using assms try_map_member [of "normalize_protected_mcp_route env" "gc_routes cfg"]
    empty_path_not_normal
  by (fastforce simp: normalize_config_def and_then_Inr)

lemma loaded_keeps_place:
  assumes "normalize_protected_mcp_routes env rs = Inr rs'" and "r \<in> set rs"
  shows "\<exists>r' \<in> set rs'. rt_public_path r' = rt_public_path r"
  using assms try_map_member [of "normalize_loaded_route env" rs rs' r] normalize_loaded_route_path
  by (fastforce simp: normalize_protected_mcp_routes_def and_then_Inr)

lemma empty_path_not_loaded:
  assumes "r \<in> set (gc_routes cfg)" and "rt_public_path r = []"
  shows "load_gateway_config env (Decoded cfg) \<noteq> Inr c"
proof
  assume "load_gateway_config env (Decoded cfg) = Inr c"
  then obtain rs where rs: "normalize_protected_mcp_routes env (gc_routes cfg) = Inr rs"
    and n: "normalize_config env (cfg\<lparr>gc_routes := rs\<rparr>) = Inr c"
    by (auto simp: load_gateway_config_def and_then_Inr)
  from loaded_keeps_place [OF rs assms(1)] assms(2)
  obtain r' where "r' \<in> set rs" "rt_public_path r' = []" by auto
  with empty_path_not_normalized [of r' "cfg\<lparr>gc_routes := rs\<rparr>"] n show False by simp
qed

lemma empty_path_matches: "path_matches_prefix (normalize_request_path path) []"
  by (auto simp: path_matches_prefix_def normalize_request_path_def trim_end_char_def
      starts_with_def Let_def)

lemma insert_route_slashes:
  assumes "insert_protected_mcp_route env cfg route = Inr (r, cfg')" and "trim (rt_public_path route) = ''//''"
  shows "rt_public_path r = [] \<and> rt_enabled r = rt_enabled route \<and> r \<in> set (gc_routes cfg')"
  using assms
  by (auto simp: insert_protected_mcp_route_def and_then_Inr normalize_protected_mcp_route_def
      normalize_slashes split: if_splits)

text \<open>
  A protected route added with the public path \<open>//\<close> is stored with the empty path. If
  it is enabled, every request for its host then resolves to a protected route, whatever
  the path, the reserved ones included; and no reload and no start from the written file
  succeeds.
\<close>

theorem slash_route_captures_host:
  assumes "protected_route_add me io route s = (Inr r, s')" and "trim (rt_public_path route) = ''//''"
    and "rt_enabled route" and "normalize_host host = Some (index_host r)"
  shows "rt_public_path r = []
    \<and> (\<forall>path. resolve_protected_route s' host path \<noteq> None)
    \<and> (\<forall>io'. \<not> fst (gw_step me io' Reload s'))
    \<and> (\<forall>io' lab s0. host_load_gateway_config me (gm_file s') = Inr lab \<longrightarrow>
          \<not> fst (gw_step me io' (Seed (to_gateway_config lab)) s0))"
proof -
  obtain cfg' h where ins: "insert_protected_mcp_route (me_gw me) (gm_config s) route = Inr (r, cfg')"
    and on_disk: "gm_file s' = Decoded (cfg', Some h)"
    and idx: "gm_index s' = from_routes (gc_routes cfg')"
    using assms(1)
    by (auto simp: protected_route_add_def gbind_Inr case_prod_unfold dest!: persist_config_Inr)
  note r = insert_route_slashes [OF ins assms(2)]
  have "resolve_protected_route s' host path \<noteq> None" for path
    using r assms(3,4) empty_path_matches [of path]
    by (auto simp: resolve_protected_route_def resolve_def idx find_in_index longest_path_None
        filter_empty_conv serves_def)
  moreover have "\<not> fst (gw_step me io' Reload s')" for io'
    using r by (intro reload_fails [OF on_disk] empty_path_not_loaded) auto
  moreover have "\<not> fst (gw_step me io' (Seed (to_gateway_config lab)) s0)"
    if loaded: "host_load_gateway_config me (gm_file s') = Inr lab" for io' lab and s0 :: "'a gw_state"
  proof -
    obtain rs where rs: "normalize_protected_mcp_routes (me_gw me) (gc_routes cfg') = Inr rs"
      and lab: "gc_routes (to_gateway_config lab) = rs"
      using loaded on_disk by (auto simp: host_load_gateway_config_def and_then_Inr to_gateway_config_def)
    have "r \<in> set (gc_routes cfg')" using r by simp
    from loaded_keeps_place [OF rs this] r lab
    obtain r' where "r' \<in> set (gc_routes (to_gateway_config lab))" "rt_public_path r' = []" by auto
    from empty_path_not_normalized [OF this] show ?thesis by (intro seed_fails) auto
  qed
  ultimately show ?thesis using r by blast
qed

lemma websocket_not_http:
  "url_is u [''ws://'', ''wss://''] \<Longrightarrow> up_url u = Some url \<Longrightarrow>
     \<not> starts_with url ''http://'' \<and> \<not> starts_with url ''https://''"
  by (cases url) (auto simp: url_is_def starts_with_def)

lemma websocket_refused:
  assumes "effective_transport u = Some Websocket"
  shows "validate_upstream env prefs u \<noteq> Inr ()"
proof
  assume ok: "validate_upstream env prefs u = Inr ()"
  then have "validate_websocket u = Inr ()"
    using assms by (auto simp: validate_upstream_def and_then_Inr upstream_config_validate_def
        validate_transport_def split: if_splits)
  then have ws: "url_is u [''ws://'', ''wss://'']" and "up_command u = None"
    by (auto simp: validate_websocket_def split: if_splits)
  then obtain url where url: "up_url u = Some url" by (auto simp: url_is_def split: option.splits)
  with ok \<open>up_command u = None\<close> have "validate_gateway_url env url = Inr ()"
    by (auto simp: validate_upstream_def and_then_Inr)
  with websocket_not_http [OF ws url] show False by (simp add: validate_gateway_url_def)
qed

text \<open>
  The gateway refuses every configuration with a WebSocket upstream, on load, on reload
  and on start, although the configuration model defines that transport and its own
  validation accepts such an upstream (as in the example of the witness below).
\<close>

theorem websocket_upstreams_refused:
  assumes "effective_transport u = Some Websocket" and "u \<in> set (gc_upstream cfg)"
  shows "(\<forall>c. load_gateway_config (me_gw me) (Decoded cfg) \<noteq> Inr c)
    \<and> (\<forall>io s. \<not> fst (gw_step me io (Seed cfg) s))
    \<and> (\<forall>io s h. gm_file s = Decoded (cfg, h) \<longrightarrow> \<not> fst (gw_step me io Reload s))"
proof -
  have bad: "validate_upstreams (me_gw me) (gc_gateway cfg) (gc_upstream cfg) \<noteq> Inr ()"
    using assms websocket_refused by (auto simp: validate_upstreams_iff)
  have "\<not> fst (gw_step me io Reload s)" if "gm_file s = Decoded (cfg, h)" for io h and s :: "'a gw_state"
    by (rule reload_fails [OF that]) (rule bad_upstreams_fail(1) [OF bad])
  moreover have "\<not> fst (gw_step me io (Seed cfg) s)" for io and s :: "'a gw_state"
    by (rule seed_fails) (rule bad_upstreams_fail(2) [OF bad])
  ultimately show ?thesis using bad_upstreams_fail(1) [OF bad] by blast
qed

section \<open>Bounds of the import lists, and services without metadata\<close>

text \<open>
  Rejecting prunes the tombstones to the limit; removing an imported upstream adds one
  without pruning.
\<close>

lemma cap_import_tombstones_bound: "length (gc_tombstones (cap_import_tombstones cfg)) \<le> MAX_IMPORT_TOMBSTONES"
  by (simp add: cap_import_tombstones_def Let_def)

lemma cap_pending_imports_bound: "length (gc_pending (cap_pending_imports cfg)) \<le> MAX_PENDING_IMPORTS"
  by (simp add: cap_pending_imports_def Let_def)

lemma remove_grows_tombstones:
  assumes "up_imported_from u \<noteq> None" and "\<forall>t \<in> set (gc_tombstones cfg). \<not> tombstone_matches_upstream t u"
  shows "length (gc_tombstones (tombstone_removed_import now cfg u)) = Suc (length (gc_tombstones cfg))"
  using assms by (auto simp: tombstone_removed_import_def filter_id_conv)

text \<open>With a registry that has no metadata, no virtual server can be enabled or restored.\<close>

lemma virtual_servers_need_metadata:
  assumes "\<And>service. io_service_meta io service = None"
  shows "fst (set_virtual_server_enabled me io v True s) \<noteq> Inr x"
    and "fst (restore_quarantined_virtual_server me io v s) \<noteq> Inr y"
  using assms
  by (auto simp: set_virtual_server_enabled_def restore_quarantined_virtual_server_def gbind_def
      gconfig_def glift_def ensure_def virtual_server_slot_def ok_or_def Let_def split: option.splits)

section \<open>A small deployment\<close>

lemma default_code_mode_ok: "code_mode_validate env default_code_mode = Inr ()"
  by (simp add: code_mode_validate_def default_code_mode_def)

lemma default_proxy_ok: "proxy_validate default_proxy_preferences = Inr ()"
proof -
  have "validate_proxy_path ''/mcp''" "is_valid_env_var_name ''LABBY_PROXY_BEARER_TOKEN''"
    "trim ''LABBY_PROXY_BEARER_TOKEN'' \<noteq> []"
    "list_all (\<lambda>s. trim s \<noteq> [] \<and> \<not> has_whitespace s) [''mcp:read'', ''mcp:write'']"
    by code_simp+
  then show ?thesis by (simp add: proxy_validate_def default_proxy_preferences_def)
qed

text \<open>A configuration with upstreams only, over the default settings.\<close>

definition upstreams_only :: "gateway_config \<Rightarrow> bool" where
  "upstreams_only cfg =
     (gc_code_mode cfg = default_code_mode \<and> gc_upstream_request_timeout_ms cfg = None
      \<and> gc_upstream_relay_timeout_ms cfg = None \<and> gc_routes cfg = []
      \<and> gc_virtual_servers cfg = [])"

definition default_host :: "'o mgr_env \<Rightarrow> 'o host_sections" where
  "default_host me = lc_host (default_lab_config me)"

lemma normalize_no_routes: "normalize_protected_mcp_routes env [] = Inr []"
  by (simp add: normalize_protected_mcp_routes_def validate_gateway_subset_paths_are_unique_def
      ensure_def)

lemma upstreams_only_persists:
  assumes "upstreams_only cfg" and "validate_each_upstream (me_gw me) (gc_upstream cfg) = Inr ()"
    and "f = Missing \<or> (f = Decoded (g, Some (default_host me)) \<and> gc_routes g = [])"
  shows "store_persist me Written f cfg = (Inr (), Decoded (cfg, Some (default_host me)))"
  using assms normalize_no_routes [of "me_gw me"]
  by (auto simp: store_persist_def host_load_gateway_config_def host_write_gateway_config_def
      apply_gateway_config_def lab_validate_def upstreams_only_def default_code_mode_ok
      default_proxy_ok default_lab_config_def default_host_def in_range_def
      validate_protected_mcp_routes_for_startup_def validate_gateway_subset_paths_are_unique_def
      ensure_def map_err_def)

lemma upstreams_only_loads:
  assumes "upstreams_only cfg" and "validate_upstreams env (gc_gateway cfg) (gc_upstream cfg) = Inr ()"
  shows "load_gateway_config env (Decoded cfg) = Inr cfg"
proof -
  have "cfg\<lparr>gc_routes := []\<rparr> = cfg" using assms(1) by (simp add: upstreams_only_def)
  with assms show ?thesis
    by (simp add: load_gateway_config_def normalize_protected_mcp_routes_def normalize_config_def
        validate_gateway_subset_paths_are_unique_def validate_config_def upstreams_only_def
        validate_code_mode_def default_code_mode_ok map_err_def validate_protected_mcp_routes_def
        ensure_def)
qed

lemma upstreams_only_reloads:
  assumes "upstreams_only cfg" and "gm_file s = Decoded (cfg, h)" and "io_runtime_state io"
    and "validate_upstreams (me_gw me) (gc_gateway cfg) (gc_upstream cfg) = Inr ()"
  shows "reload_with_origin_unlocked me io s = (Inr (), s\<lparr>gm_index := [], gm_config := cfg\<rparr>)"
proof -
  have "cfg\<lparr>gc_virtual_servers := [], gc_quarantined := gc_quarantined cfg\<rparr> = cfg"
    using assms(1) by (simp add: upstreams_only_def)
  with assms show ?thesis
    by (simp add: reload_with_origin_unlocked_def gbind_def read_gateway_config_def gateway_part_def
        upstreams_only_loads quarantine_unregistered_virtual_servers_def upstreams_only_def
        install_def gret_def glift_def ensure_def from_routes_def)
qed

definition demo_gw_env :: gw_env where
  "demo_gw_env =
     \<lparr>ge_url_parse = (\<lambda>_. None), ge_url_set_path = (\<lambda>u p. u\<lparr>url_path := p\<rparr>),
      ge_url_to_string = url_scheme, ge_ip_parse = (\<lambda>_. None), ge_unix = True, ge_linux = True\<rparr>"

definition demo_mgr :: "unit mgr_env" where
  "demo_mgr = \<lparr>me_gw = demo_gw_env, me_service_names = [], me_other_default = ()\<rparr>"

definition demo_io :: gw_io where
  "demo_io =
     \<lparr>io_write = Written, io_migrate = Written, io_env_write = True, io_env_values = Some [],
      io_runtime_state = True, io_now = ''2026-01-01T00:00:00Z'', io_discovered = Some [],
      io_contains_service = (\<lambda>_. False), io_service_meta = (\<lambda>_. None),
      io_metadata_hash = Some ''h0'', io_oauth_manager = (\<lambda>_. None), io_oauth_exchange = None\<rparr>"

definition demo_source :: import_source where
  "demo_source =
     \<lparr>is_client = ''cursor'', is_path = ''mcp.json'', is_server_name = Some ''fetch'',
      is_transport_fingerprint = Some ''f0'', is_imported_at = ''t0''\<rparr>"

definition demo_stdio :: "string \<Rightarrow> string \<Rightarrow> upstream_config" where
  "demo_stdio name command =
     \<lparr>up_name = name, up_enabled = True, up_priority = F32 False 1 0, up_url = None,
      up_transport = None, up_socket_path = None, up_headers = [], up_bearer_token_env = None,
      up_command = Some command, up_args = [], up_env = [], up_proxy_resources = True,
      up_proxy_prompts = True, up_expose_tools = None, up_expose_resources = None,
      up_expose_prompts = None, up_code_mode_hint = None, up_oauth = None,
      up_imported_from = Some demo_source\<rparr>"


lemma demo_stdio_fields [simp]:
  "up_name (demo_stdio n c) = n" "up_bearer_token_env (demo_stdio n c) = None"
  "up_url (demo_stdio n c) = None" "up_command (demo_stdio n c) = Some c"
  "up_args (demo_stdio n c) = []" "up_env (demo_stdio n c) = []"
  "up_imported_from (demo_stdio n c) = Some demo_source" "up_code_mode_hint (demo_stdio n c) = None"
  by (simp_all add: demo_stdio_def)

lemma demo_upstream_ok:
  "upstream_config_validate demo_gw_env (demo_stdio ''fetch'' c) = Inr ()" if "trim c \<noteq> []"
  using that by (simp add: upstream_config_validate_def demo_stdio_def validate_transport_def
      effective_transport_def url_is_def validate_stdio_def blank_def validate_upstream_url_def
      ensure_def upstream_name_char_def is_ascii_alphanumeric_def is_ascii_alphabetic_def
      is_ascii_lowercase_def trim_def trim_end_def ws1_def ws2_def ws3_def)

lemma demo_fetch_ok: "validate_upstream demo_gw_env prefs (demo_stdio ''fetch'' ''npx'') = Inr ()"
proof -
  have t: "trim ''npx'' = ''npx''" and b: "binary_name ''npx'' = ''npx''" by code_simp+
  from demo_upstream_ok [of "''npx''"] t b show ?thesis
    by (simp add: validate_upstream_def validate_stdio_upstream_def map_err_def
        validate_stdio_spec_def validate_stdio_command_def ALLOWED_RUNTIME_HINTS_def)
qed

definition demo_gw_config :: "upstream_config list \<Rightarrow> gateway_config" where
  "demo_gw_config us = default_gateway_config\<lparr>gc_upstream := us\<rparr>"

lemma demo_upstreams_only [simp]: "upstreams_only (demo_gw_config us)"
  by (simp add: upstreams_only_def demo_gw_config_def default_gateway_config_def)

lemma demo_gw_config_fields [simp]:
  "gc_upstream (demo_gw_config us) = us" "gc_tombstones (demo_gw_config us) = []"
  "gc_pending (demo_gw_config us) = []" "gc_routes (demo_gw_config us) = []"
  by (simp_all add: demo_gw_config_def default_gateway_config_def)

definition demo_events :: "(gw_io \<times> unit gw_event) list" where
  "demo_events =
     [(demo_io, Add (demo_stdio ''fetch'' ''npx'') None), (demo_io, EditFile Unreadable),
      (demo_io, Reload)]"

lemma demo_add:
  "add_upstream demo_mgr demo_io (demo_stdio ''fetch'' ''npx'') None (new_manager Missing) =
     (Inr (demo_stdio ''fetch'' ''npx''),
      \<lparr>gm_file = Decoded (demo_gw_config [demo_stdio ''fetch'' ''npx''], Some (default_host demo_mgr)),
       gm_config = demo_gw_config [demo_stdio ''fetch'' ''npx''], gm_index = [], gm_credentials = []\<rparr>)"
proof -
  let ?u = "demo_stdio ''fetch'' ''npx''"
  have t: "trim ''npx'' \<noteq> []" by code_simp
  have ins: "insert_upstream demo_gw_env default_gateway_config ?u = Inr (demo_gw_config [?u])"
    by (simp add: insert_upstream_def demo_fetch_ok demo_gw_config_def default_gateway_config_def)
  have per: "store_persist demo_mgr Written Missing (demo_gw_config [?u]) =
      (Inr (), Decoded (demo_gw_config [?u], Some (default_host demo_mgr)))"
    using demo_upstream_ok [OF t]
    by (intro upstreams_only_persists demo_upstreams_only) (simp_all add: demo_mgr_def)
  have val: "validate_upstreams (me_gw demo_mgr) (gc_gateway (demo_gw_config [?u])) (gc_upstream (demo_gw_config [?u])) = Inr ()"
    by (simp add: validate_upstreams_iff demo_mgr_def demo_fetch_ok)
  show ?thesis
    by (simp add: add_upstream_def gbind_def gconfig_def glift_def trim_bearer_env_def
        token_given_def trimmed_name_def new_manager_def demo_mgr_def [THEN arg_cong, of me_gw]
        ins write_and_reload_def write_config_file_def demo_io_def per
        upstreams_only_reloads [OF demo_upstreams_only _ _ val] get_upstream_def ok_or_def)
qed

lemma demo_gw_run:
  "gm_config (gw_run demo_mgr demo_events (new_manager Missing)) = demo_gw_config [demo_stdio ''fetch'' ''npx'']"
  by (simp add: demo_events_def after_def demo_add reload_with_origin_unlocked_def gbind_def
      read_gateway_config_def gateway_part_def load_gateway_config_def)

theorem live_config_valid_witness:
  "validate_config demo_gw_env (gm_config (gw_run demo_mgr demo_events (new_manager Missing))) = Inr ()
   \<and> map up_name (gc_upstream (gm_config (gw_run demo_mgr demo_events (new_manager Missing)))) = [''fetch'']"
proof -
  have "\<forall>(io, ev) \<in> set demo_events. \<not> is_approval ev"
    by (simp add: demo_events_def is_approval_def)
  from live_config_valid [OF this, of demo_mgr Missing] show ?thesis
    by (simp add: demo_gw_run) (simp add: demo_mgr_def)
qed

definition demo_route :: "string \<Rightarrow> mcp_route" where
  "demo_route path =
     \<lparr>rt_name = ''r'', rt_enabled = True, rt_public_host = ''h'', rt_public_path = path,
      rt_upstream = Some ''fetch'', rt_backend_url = [], rt_backend_mcp_path = ''/mcp'',
      rt_scopes = [''mcp:read''], rt_health_path = None, rt_target = None\<rparr>"


definition demo_live :: "unit gw_state" where
  "demo_live =
     \<lparr>gm_file = Decoded (demo_gw_config [demo_stdio ''fetch'' ''npx''], Some (default_host demo_mgr)),
      gm_config = demo_gw_config [demo_stdio ''fetch'' ''npx''], gm_index = [], gm_credentials = []\<rparr>"

definition demo_found :: discovered_server where
  "demo_found =
     \<lparr>ds_name = ''fetch'', ds_spec = demo_stdio ''fetch'' ''npx'', ds_source_client = ''cursor'',
      ds_source_path = ''mcp.json'', ds_env_key_count = 0\<rparr>"

lemma demo_removed:
  "fst (remove_gateway demo_mgr demo_io ''fetch'' demo_live) = Inr (demo_stdio ''fetch'' ''npx'')"
proof -
  let ?u = "demo_stdio ''fetch'' ''npx''"
  let ?cfg = "tombstone_removed_import ''2026-01-01T00:00:00Z'' (demo_gw_config []) ?u"
  have rm: "remove_upstream (demo_gw_config [?u]) ''fetch'' = Inr (?u, demo_gw_config [])"
    by (simp add: remove_upstream_def ensure_no_startup_mounted_subset_depends_on_def ensure_def
        ok_or_def remove_at_def cascade_upstream_removal_def)
       (simp add: demo_gw_config_def default_gateway_config_def List.map_filter_simps)
  have only: "upstreams_only ?cfg"
    using demo_upstreams_only [of "[]"] by (simp add: tombstone_removed_import_def upstreams_only_def)
  have ups: "gc_upstream ?cfg = []" by (simp add: tombstone_removed_import_def)
  have per: "store_persist demo_mgr Written (gm_file demo_live) ?cfg =
      (Inr (), Decoded (?cfg, Some (default_host demo_mgr)))"
    using only by (intro upstreams_only_persists [where g = "demo_gw_config [?u]"])
      (simp_all add: ups demo_live_def)
  show ?thesis
    by (simp add: remove_gateway_def gbind_def gconfig_def glift_def rm demo_live_def [THEN arg_cong, of gm_config]
        write_and_reload_def write_config_file_def demo_io_def per gret_def
        upstreams_only_reloads [OF only] ups validate_upstreams_iff)
qed

theorem removed_import_stays_removed_witness:
  "auto_import_discovered_configs demo_mgr (demo_io\<lparr>io_discovered := Some ([] @ demo_found # [])\<rparr>)
     (snd (remove_gateway demo_mgr demo_io ''fetch'' demo_live)) =
   auto_import_discovered_configs demo_mgr (demo_io\<lparr>io_discovered := Some ([] @ [])\<rparr>)
     (snd (remove_gateway demo_mgr demo_io ''fetch'' demo_live))"
proof -
  have r: "remove_gateway demo_mgr demo_io ''fetch'' demo_live =
      (Inr (demo_stdio ''fetch'' ''npx''), snd (remove_gateway demo_mgr demo_io ''fetch'' demo_live))"
    using demo_removed by (metis prod.collapse)
  have "same_import (demo_stdio ''fetch'' ''npx'') demo_found"
    by (simp add: same_import_def demo_source_def demo_found_def)
  from removed_import_stays_removed [OF r this] show ?thesis by blast
qed

lemma demo_hint_applied:
  "fst (apply_enrichment demo_mgr demo_io None ''fetch'' ''Web  pages'' ''h0'' demo_live) = Inr None"
proof -
  let ?u = "(demo_stdio ''fetch'' ''npx'')\<lparr>up_code_mode_hint := Some ''Web pages''\<rparr>"
  have n: "normalize_code_mode_hint ''Web  pages'' = Some ''Web pages''" by code_simp
  have t: "trim ''npx'' \<noteq> []" by code_simp
  have ok: "upstream_config_validate demo_gw_env ?u = Inr ()"
    using demo_upstream_ok [OF t] upstream_config_validate_checked [of ?u "demo_stdio ''fetch'' ''npx''"]
    by (simp add: checked_fields_def)
  have cfg: "update_upstream_at 0 (\<lambda>u. u\<lparr>up_code_mode_hint := Some ''Web pages''\<rparr>)
      (demo_gw_config [demo_stdio ''fetch'' ''npx'']) = demo_gw_config [?u]"
    by (simp add: update_upstream_at_def demo_gw_config_def)
  have per: "store_persist demo_mgr Written (gm_file demo_live) (demo_gw_config [?u]) =
      (Inr (), Decoded (demo_gw_config [?u], Some (default_host demo_mgr)))"
    using ok by (intro upstreams_only_persists [where g = "demo_gw_config [demo_stdio ''fetch'' ''npx'']"])
      (simp_all add: demo_live_def demo_mgr_def)
  show ?thesis
    by (simp add: apply_enrichment_def gbind_def glift_def gconfig_def gret_def ensure_visible_def
        ensure_def validate_hint_def n ok_or_def demo_io_def demo_live_def [THEN arg_cong, of gm_config]
        cfg persist_config_def write_config_file_def per install_def)
qed

theorem applied_hint_plain_witness:
  "\<exists>h. map up_code_mode_hint (gc_upstream (gm_config (snd
       (apply_enrichment demo_mgr demo_io None ''fetch'' ''Web  pages'' ''h0'' demo_live)))) = [Some h]
     \<and> normalize_code_mode_hint h = Some h"
proof -
  let ?r = "apply_enrichment demo_mgr demo_io None ''fetch'' ''Web  pages'' ''h0'' demo_live"
  have "?r = (Inr None, snd ?r)" using demo_hint_applied by (metis prod.collapse)
  from applied_hint_plain [OF this] show ?thesis
    by (auto simp: demo_live_def update_upstream_at_def)
qed

definition demo_queued :: "unit gw_state" where
  "demo_queued = (new_manager Missing)\<lparr>gm_config := (demo_gw_config [])\<lparr>gc_pending := [demo_stdio ''fetch'' ''/bin/sh'']\<rparr>\<rparr>"

lemma demo_approved:
  "fst (approve_pending_import demo_mgr demo_io ''fetch'' demo_queued) = Inr (demo_stdio ''fetch'' ''/bin/sh'')"
proof -
  let ?u = "demo_stdio ''fetch'' ''/bin/sh''"
  have t: "trim ''/bin/sh'' \<noteq> []" by code_simp
  let ?cfg = "(demo_gw_config [])\<lparr>gc_pending := [], gc_upstream := [?u\<lparr>up_enabled := False\<rparr>]\<rparr>"
  have only: "upstreams_only ?cfg"
    using demo_upstreams_only [of "[]"] by (simp add: upstreams_only_def)
  have per: "store_persist demo_mgr Written Missing ?cfg =
      (Inr (), Decoded (?cfg, Some (default_host demo_mgr)))"
    using only demo_upstream_ok [OF t] by (intro upstreams_only_persists) (simp_all add: demo_mgr_def)
  show ?thesis
    by (simp add: approve_pending_import_def gbind_def gconfig_def glift_def demo_queued_def
        new_manager_def ok_or_def remove_at_def Let_def persist_config_def write_config_file_def
        demo_io_def per install_def gret_def)
qed

theorem approval_skips_validation_witness:
  "validate_config demo_gw_env (gm_config (snd (approve_pending_import demo_mgr demo_io ''fetch'' demo_queued))) \<noteq> Inr ()
   \<and> \<not> fst (gw_step demo_mgr demo_io Reload (snd (approve_pending_import demo_mgr demo_io ''fetch'' demo_queued)))"
proof -
  have r: "approve_pending_import demo_mgr demo_io ''fetch'' demo_queued =
      (Inr (demo_stdio ''fetch'' ''/bin/sh''), snd (approve_pending_import demo_mgr demo_io ''fetch'' demo_queued))"
    using demo_approved by (metis prod.collapse)
  have b: "binary_name ''/bin/sh'' = ''sh''" by code_simp
  have "validate_upstreams (me_gw demo_mgr) (gc_gateway (gm_config demo_queued))
      (gc_upstream (gm_config demo_queued) @ [demo_stdio ''fetch'' ''/bin/sh'']) \<noteq> Inr ()"
    by (simp add: demo_queued_def validate_upstreams_iff validate_upstream_def and_then_Inr
        validate_stdio_upstream_def validate_stdio_spec_def validate_stdio_command_def b
        ALLOWED_RUNTIME_HINTS_def)
       (simp add: demo_gw_config_def default_gateway_config_def)
  from approval_skips_validation [OF r this] show ?thesis
    by (auto simp: demo_mgr_def)
qed

lemma demo_slash_insert:
  "insert_protected_mcp_route demo_gw_env default_gateway_config (demo_route ''//'') =
     Inr (demo_route [], default_gateway_config\<lparr>gc_routes := [demo_route []]\<rparr>)"
proof -
  have "normalize_protected_mcp_route demo_gw_env (demo_route ''//'') = Inr (demo_route [])"
    "validate_protected_mcp_route demo_gw_env (demo_route []) = Inr ()"
    by code_simp+
  then show ?thesis
    by (simp add: insert_protected_mcp_route_def default_gateway_config_def route_conflicts_def)
qed

lemma demo_slash_added:
  "fst (protected_route_add demo_mgr demo_io (demo_route ''//'') (new_manager Missing)) = Inr (demo_route [])"
proof -
  let ?cfg = "default_gateway_config\<lparr>gc_routes := [demo_route []]\<rparr>"
  have "validate_routes_for_startup_from [] [] [] [] [demo_route []] = Inr ()"
    "gateway_subset_paths_unique [] [demo_route []]" "\<not> is_gateway_subset (demo_route ''//'')"
    by code_simp+
  moreover have "gc_upstream default_gateway_config = []" "gc_code_mode default_gateway_config = default_code_mode"
    "gc_upstream_request_timeout_ms default_gateway_config = None"
    "gc_upstream_relay_timeout_ms default_gateway_config = None"
    by (simp_all add: default_gateway_config_def)
  ultimately have per: "fst (store_persist demo_mgr Written Missing ?cfg) = Inr ()"
    by (simp add: store_persist_def host_load_gateway_config_def host_write_gateway_config_def
        apply_gateway_config_def lab_validate_def default_code_mode_ok default_proxy_ok
        default_lab_config_def in_range_def validate_protected_mcp_routes_for_startup_def
        validate_gateway_subset_paths_are_unique_def ensure_def demo_mgr_def)
  then show ?thesis
    using \<open>\<not> is_gateway_subset (demo_route ''//'')\<close>
    by (simp add: protected_route_add_def reject_hot_gateway_subset_mutation_def ensure_def gbind_def
        glift_def gconfig_def new_manager_def demo_mgr_def [THEN arg_cong, of me_gw] demo_slash_insert
        persist_config_def write_config_file_def demo_io_def install_def gret_def case_prod_unfold)
qed

theorem slash_route_captures_host_witness:
  "resolve_protected_route
     (snd (protected_route_add demo_mgr demo_io (demo_route ''//'') (new_manager Missing))) ''h'' ''/v1/admin'' \<noteq> None
   \<and> \<not> fst (gw_step demo_mgr demo_io Reload
       (snd (protected_route_add demo_mgr demo_io (demo_route ''//'') (new_manager Missing))))"
proof -
  have r: "protected_route_add demo_mgr demo_io (demo_route ''//'') (new_manager Missing) =
      (Inr (demo_route []), snd (protected_route_add demo_mgr demo_io (demo_route ''//'') (new_manager Missing)))"
    using demo_slash_added by (metis prod.collapse)
  have p: "trim (rt_public_path (demo_route ''//'')) = ''//''" "rt_enabled (demo_route ''//'')"
    "normalize_host ''h'' = Some (index_host (demo_route []))"
    by code_simp+
  from slash_route_captures_host [OF r p] show ?thesis by blast
qed

definition demo_ws_env :: gw_env where
  "demo_ws_env = demo_gw_env\<lparr>
     ge_url_parse := (\<lambda>_. Some \<lparr>url_scheme = ''ws'', url_username = [], url_password = None,
       url_host = None, url_host_str = Some ''h'', url_port = None, url_path = ''/mcp'',
       url_query = None, url_fragment = None\<rparr>),
     ge_url_to_string := (\<lambda>_. ''ws://h/mcp'')\<rparr>"

definition demo_ws :: upstream_config where
  "demo_ws = (demo_stdio ''fetch'' [])\<lparr>up_command := None, up_url := Some ''ws://h/mcp''\<rparr>"

theorem websocket_upstreams_refused_witness:
  "upstream_config_validate demo_ws_env demo_ws = Inr ()
   \<and> \<not> fst (gw_step (demo_mgr\<lparr>me_gw := demo_ws_env\<rparr>) demo_io (Seed (demo_gw_config [demo_ws])) (new_manager Missing))"
proof -
  have "effective_transport demo_ws = Some Websocket" by code_simp
  moreover have "demo_ws \<in> set (gc_upstream (demo_gw_config [demo_ws]))" by simp
  moreover have "upstream_config_validate demo_ws_env demo_ws = Inr ()"
    by (simp add: upstream_config_validate_def demo_ws_def demo_stdio_def validate_transport_def
        effective_transport_def url_is_def starts_with_def validate_websocket_def ensure_def
        validate_upstream_url_def canonicalize_upstream_url_def demo_ws_env_def
        upstream_name_char_def is_ascii_alphanumeric_def is_ascii_alphabetic_def
        is_ascii_lowercase_def trim_def trim_end_def ws1_def ws2_def ws3_def)
  ultimately show ?thesis
    using websocket_upstreams_refused [of demo_ws "demo_gw_config [demo_ws]" "demo_mgr\<lparr>me_gw := demo_ws_env\<rparr>"]
    by blast
qed

end
