(* ===== verification/Gateway_Discovery.thy ===== *)
theory Gateway_Discovery
  imports Gateway_Theorems Json
begin

text \<open>
  Discovery of MCP servers in the configuration files of other programs
  (\<open>crates/labby-gateway/src/gateway/discovery.rs\<close> and \<open>discovery/*.rs\<close>), and what its results
  mean for the import into the gateway's configuration.

  The file system, the environment variables, the platform, the clock, the JSON and TOML
  parsers, Unicode lower case and SHA-256 are the parameter \<open>disc_env\<close>.
\<close>

section \<open>Definitions\<close>

datatype platform = MacOs | WindowsOs | OtherOs

text \<open>
  \<open>de_codex\<close>: the entries of the table \<open>mcp_servers\<close> in a TOML text, each converted to JSON,
  or \<open>None\<close> when the text does not parse or has no such table.
\<close>

record disc_env =
  de_read :: "string \<Rightarrow> string option"
  de_json :: "string \<Rightarrow> json option"
  de_codex :: "string \<Rightarrow> (string \<times> json option) list option"
  de_var :: "string \<Rightarrow> string option"
  de_platform :: platform
  de_lowercase :: "string \<Rightarrow> string"
  de_sha256_hex :: "string \<Rightarrow> string"
  de_now :: string

text \<open>\<open>Path::join\<close> with a relative path.\<close>

definition path_join :: "disc_env \<Rightarrow> string \<Rightarrow> string \<Rightarrow> string" where
  "path_join de p q =
     (let sep = (if de_platform de = WindowsOs then CHR 0x5C else CHR ''/'')
      in if p = [] \<or> last p = CHR ''/'' \<or> last p = sep then p @ q else p @ [sep] @ q)"

definition non_empty_var :: "disc_env \<Rightarrow> string \<Rightarrow> string option" where
  "non_empty_var de name =
     (case de_var de name of None \<Rightarrow> None | Some v \<Rightarrow> if v = [] then None else Some v)"

subsection \<open>Names\<close>

text \<open>
  Every character outside the alphabet of names becomes a dash, and dashes in a row one. A
  character of several bytes gives one dash, as its bytes do one after the other. The loop
  ends at 128 characters.
\<close>

fun dash_runs :: "bool \<Rightarrow> string \<Rightarrow> string" where
  "dash_runs previous_was_dash [] = []"
| "dash_runs previous_was_dash (c # s) =
     (let nxt = (if upstream_name_char c then c else CHR ''-'')
      in if nxt = CHR ''-'' \<and> previous_was_dash then dash_runs previous_was_dash s
         else nxt # dash_runs (nxt = CHR ''-'') s)"

definition name_punct :: "char \<Rightarrow> bool" where
  "name_punct c = (c = CHR ''-'' \<or> c = CHR ''_'' \<or> c = CHR ''.'')"

definition normalize_discovered_name :: "string \<Rightarrow> string" where
  "normalize_discovered_name raw =
     (let out = take 128 (dash_runs False (trim raw));
          normalized = rev (dropWhile name_punct (rev (dropWhile name_punct out)))
      in if normalized = [] then ''mcp-server'' else normalized)"

subsection \<open>Comments in JSON\<close>

fun skip_line :: "string \<Rightarrow> string" where
  "skip_line [] = []"
| "skip_line (c # s) = (if c = CHR 0x0A then c # s else skip_line s)"

fun skip_block :: "char \<Rightarrow> string \<Rightarrow> string" where
  "skip_block prev [] = []"
| "skip_block prev (c # s) = (if prev = CHR ''*'' \<and> c = CHR ''/'' then s else skip_block c s)"

lemma length_skip_line: "length (skip_line s) \<le> length s"
  by (induction s) auto

lemma length_skip_block: "length (skip_block prev s) \<le> length s"
  by (induction s arbitrary: prev) (auto simp: le_SucI)

function strip_jsonc :: "bool \<Rightarrow> string \<Rightarrow> string" where
  "strip_jsonc in_string [] = []"
| "strip_jsonc in_string (c # s) =
     (if c = CHR 0x22 then c # strip_jsonc (\<not> in_string) s
      else if in_string \<and> c = CHR 0x5C then
        (case s of [] \<Rightarrow> [c] | d # s' \<Rightarrow> c # d # strip_jsonc in_string s')
      else if \<not> in_string \<and> c = CHR ''/'' then
        (case s of
           [] \<Rightarrow> [c]
         | d # s' \<Rightarrow>
             if d = CHR ''/'' then strip_jsonc in_string (skip_line s')
             else if d = CHR ''*'' then strip_jsonc in_string (skip_block (CHR '' '') s')
             else c # strip_jsonc in_string s)
      else c # strip_jsonc in_string s)"
  by pat_completeness auto

termination
  by (relation "measure (\<lambda>(_, s). length s)")
     (auto simp: less_Suc_eq_le length_skip_line length_skip_block le_SucI)

definition strip_jsonc_comments :: "string \<Rightarrow> string" where
  "strip_jsonc_comments src = strip_jsonc False src"

definition read_json_config :: "disc_env \<Rightarrow> string \<Rightarrow> json option" where
  "read_json_config de path =
     Option.bind (de_read de path) (\<lambda>raw. de_json de (strip_jsonc_comments raw))"

subsection \<open>Entries\<close>

fun json_as_object :: "json \<Rightarrow> (string \<times> json) list option" where
  "json_as_object (JObject kvs) = Some kvs"
| "json_as_object _ = None"

definition object_at :: "json \<Rightarrow> string \<Rightarrow> (string \<times> json) list option" where
  "object_at v key = Option.bind (json_get v key) json_as_object"

definition looks_like_server :: "json \<Rightarrow> bool" where
  "looks_like_server v =
     (case json_as_object v of
        None \<Rightarrow> False
      | Some kvs \<Rightarrow> map_of kvs ''command'' \<noteq> None \<or> map_of kvs ''url'' \<noteq> None)"

definition extract_mcp_entries :: "json \<Rightarrow> bool \<Rightarrow> (string \<times> json) list" where
  "extract_mcp_entries v allow_root_fallback =
     (case object_at v ''mcpServers'' of Some kvs \<Rightarrow> kvs | None \<Rightarrow>
      (case object_at v ''servers'' of Some kvs \<Rightarrow> kvs | None \<Rightarrow>
       (case object_at v ''mcp'' of Some kvs \<Rightarrow> kvs | None \<Rightarrow>
        (case json_as_object v of
           None \<Rightarrow> []
         | Some kvs \<Rightarrow>
             if allow_root_fallback \<and> list_ex (looks_like_server \<circ> snd) kvs then kvs else []))))"

definition or_else :: "'a option \<Rightarrow> 'a option \<Rightarrow> 'a option" where
  "or_else x y = (case x of None \<Rightarrow> y | Some _ \<Rightarrow> x)"

definition entry_command :: "json \<Rightarrow> string option" where
  "entry_command entry =
     or_else
       (case json_get entry ''command'' of
          Some (JString s) \<Rightarrow> Some s
        | Some (JArray (v # _)) \<Rightarrow> json_as_str v
        | _ \<Rightarrow> None)
       (Option.bind (json_get entry ''executable'') json_as_str)"

definition entry_url :: "json \<Rightarrow> string option" where
  "entry_url entry =
     Option.bind
       (or_else (json_get entry ''url'') (or_else (json_get entry ''baseUrl'')
         (or_else (json_get entry ''base_url'') (or_else (json_get entry ''serverUrl'')
           (json_get entry ''server_url'')))))
       json_as_str"

definition strings_of :: "json list \<Rightarrow> string list" where
  "strings_of vs = List.map_filter json_as_str vs"

definition entry_args :: "json \<Rightarrow> string list" where
  "entry_args entry =
     (case json_get entry ''command'' of
        Some (JArray (_ # v # vs)) \<Rightarrow> strings_of (v # vs)
      | _ \<Rightarrow>
          (case Option.bind (json_get entry ''args'') json_as_array of
             Some vs \<Rightarrow> strings_of vs
           | None \<Rightarrow> []))"

definition canonical_url :: "disc_env \<Rightarrow> string \<Rightarrow> string" where
  "canonical_url de url = de_lowercase de (trim_end_char (CHR ''/'') (trim url))"

definition transport_fingerprint ::
  "disc_env \<Rightarrow> string option \<Rightarrow> string option \<Rightarrow> string list \<Rightarrow> string" where
  "transport_fingerprint de url command args =
     de_sha256_hex de
       (case url of
          Some u \<Rightarrow> ''http'' @ [CHR 0x00] @ canonical_url de u
        | None \<Rightarrow>
            (case command of
               Some c \<Rightarrow> ''stdio'' @ [CHR 0x00] @ trim c @ concat (map (\<lambda>a. CHR 0x00 # a) args)
             | None \<Rightarrow> ''unknown''))"

definition entry_to_upstream ::
  "disc_env \<Rightarrow> string \<Rightarrow> json \<Rightarrow> string \<Rightarrow> string \<Rightarrow> upstream_config option" where
  "entry_to_upstream de name entry client path =
     (let command = entry_command entry;
          url = entry_url entry;
          args = (if command = None then [] else entry_args entry);
          nm = normalize_discovered_name name
      in if command = None \<and> url = None then None
         else Some
           \<lparr>up_name = nm, up_enabled = False, up_priority = F32 False 1 0, up_url = url,
            up_transport = None, up_socket_path = None, up_headers = [], up_bearer_token_env = None,
            up_command = command, up_args = args, up_env = [], up_proxy_resources = True,
            up_proxy_prompts = True, up_expose_tools = None, up_expose_resources = None,
            up_expose_prompts = None, up_code_mode_hint = None, up_oauth = None,
            up_imported_from = Some
              \<lparr>is_client = client, is_path = path, is_server_name = Some nm,
               is_transport_fingerprint = Some (transport_fingerprint de url command args),
               is_imported_at = de_now de\<rparr>\<rparr>)"

definition env_key_count :: "json \<Rightarrow> nat" where
  "env_key_count entry = (case object_at entry ''env'' of None \<Rightarrow> 0 | Some kvs \<Rightarrow> length kvs)"

definition discovered_entry ::
  "disc_env \<Rightarrow> string \<Rightarrow> string \<Rightarrow> string \<times> json \<Rightarrow> discovered_server option" where
  "discovered_entry de client path e =
     map_option
       (\<lambda>spec. \<lparr>ds_name = up_name spec, ds_spec = spec, ds_source_client = client,
                ds_source_path = path, ds_env_key_count = env_key_count (snd e)\<rparr>)
       (entry_to_upstream de (fst e) (snd e) client path)"

definition harvest :: "disc_env \<Rightarrow> string \<Rightarrow> string \<Rightarrow> (string \<times> json) list \<Rightarrow> discovered_server list" where
  "harvest de client path entries = List.map_filter (discovered_entry de client path) entries"

definition scan_path :: "disc_env \<Rightarrow> string \<Rightarrow> bool \<Rightarrow> string \<Rightarrow> discovered_server list" where
  "scan_path de client allow_root_fallback path =
     (case read_json_config de path of
        None \<Rightarrow> []
      | Some v \<Rightarrow> harvest de client path (extract_mcp_entries v allow_root_fallback))"

definition scan_paths :: "disc_env \<Rightarrow> string list \<Rightarrow> string \<Rightarrow> bool \<Rightarrow> discovered_server list" where
  "scan_paths de paths client allow_root_fallback =
     concat (map (scan_path de client allow_root_fallback) paths)"

subsection \<open>The programs whose files are scanned\<close>

definition xdg_config_home :: "disc_env \<Rightarrow> string \<Rightarrow> string" where
  "xdg_config_home de home =
     (case non_empty_var de ''XDG_CONFIG_HOME'' of
        Some p \<Rightarrow> p
      | None \<Rightarrow> path_join de home ''.config'')"

definition app_data :: "disc_env \<Rightarrow> string \<Rightarrow> string" where
  "app_data de home =
     (case de_var de ''APPDATA'' of Some p \<Rightarrow> p | None \<Rightarrow> path_join de home ''AppData/Roaming'')"

definition cursor_discover :: "disc_env \<Rightarrow> string \<Rightarrow> discovered_server list" where
  "cursor_discover de home =
     scan_paths de
       [path_join de (path_join de home ''.cursor'') ''mcp.json'',
        (case de_platform de of
           MacOs \<Rightarrow> path_join de home ''Library/Application Support/Cursor/User/mcp.json''
         | WindowsOs \<Rightarrow> path_join de home ''AppData/Roaming/Cursor/User/mcp.json''
         | OtherOs \<Rightarrow> path_join de (xdg_config_home de home) ''Cursor/User/mcp.json'')]
       ''cursor'' True"

definition claude_code_discover :: "disc_env \<Rightarrow> string \<Rightarrow> discovered_server list" where
  "claude_code_discover de home =
     (let claude = path_join de home ''.claude''
      in scan_paths de [path_join de claude ''settings.local.json'', path_join de claude ''settings.json'']
           ''claude-code'' False
         @ scan_paths de [path_join de claude ''mcp.json'', path_join de home ''.claude.json'']
             ''claude-code'' True)"

definition claude_desktop_discover :: "disc_env \<Rightarrow> string \<Rightarrow> discovered_server list" where
  "claude_desktop_discover de home =
     scan_paths de
       [path_join de home
          (case de_platform de of
             MacOs \<Rightarrow> ''Library/Application Support/Claude/claude_desktop_config.json''
           | WindowsOs \<Rightarrow> ''AppData/Roaming/Claude/claude_desktop_config.json''
           | OtherOs \<Rightarrow> ''.config/Claude/claude_desktop_config.json'')]
       ''claude-desktop'' True"

definition codex_discover :: "disc_env \<Rightarrow> string \<Rightarrow> discovered_server list" where
  "codex_discover de home =
     (let path = path_join de (path_join de home ''.codex'') ''config.toml''
      in case Option.bind (de_read de path) (de_codex de) of
           None \<Rightarrow> []
         | Some servers \<Rightarrow>
             harvest de ''codex'' path
               (List.map_filter (\<lambda>(name, e). map_option (\<lambda>v. (name, v)) e) servers))"

definition windsurf_discover :: "disc_env \<Rightarrow> string \<Rightarrow> discovered_server list" where
  "windsurf_discover de home =
     scan_paths de
       ([path_join de home ''.codeium/windsurf/mcp_config.json'',
         path_join de home ''.codeium/windsurf-next/mcp_config.json'',
         path_join de home ''.windsurf/mcp_config.json'']
        @ (if de_platform de = WindowsOs
           then [path_join de (app_data de home) ''Codeium/windsurf/mcp_config.json'']
           else let xdg = xdg_config_home de home
                in [path_join de xdg ''.codeium/windsurf/mcp_config.json'',
                    path_join de (path_join de (path_join de xdg ''Windsurf - Next'') ''User'') ''mcp.json'',
                    path_join de (path_join de (path_join de xdg ''Windsurf'') ''User'') ''mcp.json'']))
       ''windsurf'' True"

definition candidate_paths :: "disc_env \<Rightarrow> string \<Rightarrow> string option \<Rightarrow> string list" where
  "candidate_paths de home xdg =
     (case non_empty_var de ''OPENCODE_CONFIG'' of
        Some p \<Rightarrow> [p]
      | None \<Rightarrow>
          (case non_empty_var de ''OPENCODE_CONFIG_DIR'' of
             Some dir \<Rightarrow> [path_join de dir ''opencode.jsonc'', path_join de dir ''opencode.json'']
           | None \<Rightarrow> [])
          @ (let dir = (if de_platform de = WindowsOs then path_join de (app_data de home) ''opencode''
                        else (case xdg of
                                Some x \<Rightarrow> path_join de x ''opencode''
                              | None \<Rightarrow> path_join de home ''.config/opencode''))
             in [path_join de dir ''opencode.jsonc'', path_join de dir ''opencode.json'']))"

definition opencode_discover :: "disc_env \<Rightarrow> string \<Rightarrow> discovered_server list" where
  "opencode_discover de home =
     concat (map
       (\<lambda>path. case Option.bind (read_json_config de path) (\<lambda>v. object_at v ''mcp'') of
                 None \<Rightarrow> []
               | Some entries \<Rightarrow> harvest de ''opencode'' path entries)
       (candidate_paths de home (non_empty_var de ''XDG_CONFIG_HOME'')))"

definition vscode_discover :: "disc_env \<Rightarrow> string \<Rightarrow> discovered_server list" where
  "vscode_discover de home =
     scan_paths de
       (case de_platform de of
          MacOs \<Rightarrow>
            [path_join de home ''Library/Application Support/Code/User/mcp.json'',
             path_join de home ''Library/Application Support/Code - Insiders/User/mcp.json'',
             path_join de home ''Library/Application Support/Antigravity/User/mcp.json'']
        | WindowsOs \<Rightarrow>
            [path_join de (app_data de home) ''Code/User/mcp.json'',
             path_join de (app_data de home) ''Code - Insiders/User/mcp.json'']
        | OtherOs \<Rightarrow>
            [path_join de (xdg_config_home de home) ''Code/User/mcp.json'',
             path_join de (xdg_config_home de home) ''Code - Insiders/User/mcp.json'',
             path_join de (xdg_config_home de home) ''Antigravity/User/mcp.json''])
       ''vscode'' True"

definition gemini_discover :: "disc_env \<Rightarrow> string \<Rightarrow> discovered_server list" where
  "gemini_discover de home =
     scan_paths de
       [path_join de (path_join de home ''.gemini'') ''mcp.json'',
        path_join de (path_join de home ''.gemini'') ''settings.json'']
       ''gemini'' False"

text \<open>Of the servers with one name, the first in the order of the programs.\<close>

fun first_by_name :: "string list \<Rightarrow> discovered_server list \<Rightarrow> discovered_server list" where
  "first_by_name seen [] = []"
| "first_by_name seen (d # ds) =
     (if List.member seen (ds_name d) then first_by_name seen ds
      else d # first_by_name (ds_name d # seen) ds)"

definition discover_all :: "disc_env \<Rightarrow> string \<Rightarrow> discovered_server list" where
  "discover_all de home =
     first_by_name []
       (cursor_discover de home @ claude_code_discover de home @ claude_desktop_discover de home
        @ codex_discover de home @ windsurf_discover de home @ opencode_discover de home
        @ vscode_discover de home @ gemini_discover de home)"

section \<open>What is discovered\<close>

lemma normalize_discovered_name_ok:
  "normalize_discovered_name raw \<noteq> [] \<and> length (normalize_discovered_name raw) \<le> 128
   \<and> list_all upstream_name_char (normalize_discovered_name raw)"
proof -
  have runs: "list_all upstream_name_char (dash_runs b s)" for b s
    by (induction b s rule: dash_runs.induct) (auto simp: Let_def upstream_name_char_def)
  let ?out = "take 128 (dash_runs False (trim raw))"
  have "sublist (rev (dropWhile name_punct (rev (dropWhile name_punct ?out)))) ?out"
    by (metis rev_rev_ident sublist_dropWhile sublist_order.dual_order.trans sublist_rev)
  moreover have "list_all upstream_name_char ?out"
    using runs by (auto simp: list_all_iff dest: in_set_takeD)
  moreover have "list_all upstream_name_char ''mcp-server''" by code_simp
  ultimately show ?thesis
    by (auto simp: normalize_discovered_name_def Let_def list_all_iff
        dest: sublist_length_le dest!: set_dropWhileD)
qed

text \<open>
  A discovered server is a configuration that does nothing until someone enables it: no
  environment variable, header or credential of the other program comes along, and its origin
  is recorded.
\<close>

definition inert :: "upstream_config \<Rightarrow> bool" where
  "inert u =
     (\<not> up_enabled u \<and> up_env u = [] \<and> up_headers u = [] \<and> up_bearer_token_env u = None
      \<and> up_oauth u = None \<and> up_code_mode_hint u = None
      \<and> up_name u \<noteq> [] \<and> length (up_name u) \<le> 128 \<and> list_all upstream_name_char (up_name u))"

definition from_source :: "discovered_server \<Rightarrow> bool" where
  "from_source d =
     (ds_name d = up_name (ds_spec d)
      \<and> (case up_imported_from (ds_spec d) of
           None \<Rightarrow> False
         | Some src \<Rightarrow> is_client src = ds_source_client d \<and> is_path src = ds_source_path d
             \<and> is_server_name src = Some (ds_name d) \<and> is_transport_fingerprint src \<noteq> None))"

lemma harvest_inert: "d \<in> set (harvest de client path es) \<Longrightarrow> inert (ds_spec d) \<and> from_source d"
  using normalize_discovered_name_ok
  by (auto simp: harvest_def map_filter_def discovered_entry_def entry_to_upstream_def Let_def
      inert_def from_source_def split: if_splits)

lemma scan_paths_inert:
  "d \<in> set (scan_paths de paths client b) \<Longrightarrow> inert (ds_spec d) \<and> from_source d"
  by (auto simp: scan_paths_def scan_path_def dest: harvest_inert split: option.splits)

lemma codex_inert: "d \<in> set (codex_discover de home) \<Longrightarrow> inert (ds_spec d) \<and> from_source d"
  by (auto simp: codex_discover_def Let_def dest: harvest_inert split: option.splits)

lemma opencode_inert: "d \<in> set (opencode_discover de home) \<Longrightarrow> inert (ds_spec d) \<and> from_source d"
  by (auto simp: opencode_discover_def dest: harvest_inert split: option.splits)

lemma first_by_name_distinct:
  "distinct (map ds_name (first_by_name seen ds))
   \<and> ds_name ` set (first_by_name seen ds) \<inter> set seen = {}
   \<and> set (first_by_name seen ds) \<subseteq> set ds"
  by (induction seen ds rule: first_by_name.induct) auto

lemma first_by_name_complete:
  "d \<in> set ds \<Longrightarrow> ds_name d \<in> set seen \<union> ds_name ` set (first_by_name seen ds)"
  by (induction seen ds rule: first_by_name.induct) auto

lemma discover_all_inert:
  "d \<in> set (discover_all de home) \<Longrightarrow> inert (ds_spec d) \<and> from_source d"
  using first_by_name_distinct [of "[]"]
  by (fastforce simp: discover_all_def cursor_discover_def claude_code_discover_def
      claude_desktop_discover_def windsurf_discover_def vscode_discover_def gemini_discover_def Let_def
      dest: scan_paths_inert codex_inert opencode_inert)

lemma discover_all_distinct: "distinct (map ds_name (discover_all de home))"
  using first_by_name_distinct by (simp add: discover_all_def)

section \<open>Comments\<close>

text \<open>
  A text in segments: plain characters, string literals, line comments up to the newline and
  block comments. Stripping keeps the plain characters, the literals and the newlines, and
  drops the rest.
\<close>

datatype segment = Plain char | Literal string | LineComment string | BlockComment string

text \<open>The body of a literal: no bare quote, and every backslash with the character after it.\<close>

fun literal_body :: "string \<Rightarrow> bool" where
  "literal_body [] = True"
| "literal_body (c # s) =
     (c \<noteq> CHR 0x22
      \<and> (if c = CHR 0x5C then (case s of [] \<Rightarrow> False | d # s' \<Rightarrow> literal_body s') else literal_body s))"

fun segment_ok :: "segment \<Rightarrow> bool" where
  "segment_ok (Plain c) = (c \<noteq> CHR 0x22 \<and> c \<noteq> CHR ''/'')"
| "segment_ok (Literal body) = literal_body body"
| "segment_ok (LineComment body) = (CHR 0x0A \<notin> set body)"
| "segment_ok (BlockComment body) = (\<not> str_contains (body @ ''*'') ''*/'')"

fun source_text :: "segment \<Rightarrow> string" where
  "source_text (Plain c) = [c]"
| "source_text (Literal body) = CHR 0x22 # body @ [CHR 0x22]"
| "source_text (LineComment body) = ''//'' @ body @ [CHR 0x0A]"
| "source_text (BlockComment body) = ''/*'' @ body @ ''*/''"

fun stripped_text :: "segment \<Rightarrow> string" where
  "stripped_text (Plain c) = [c]"
| "stripped_text (Literal body) = CHR 0x22 # body @ [CHR 0x22]"
| "stripped_text (LineComment body) = [CHR 0x0A]"
| "stripped_text (BlockComment body) = []"

lemma strip_literal:
  "literal_body body \<Longrightarrow>
   strip_jsonc True (body @ CHR 0x22 # rest) = body @ CHR 0x22 # strip_jsonc False rest"
  by (induction body rule: literal_body.induct) (auto split: list.splits if_splits)

lemma skip_line_append: "CHR 0x0A \<notin> set body \<Longrightarrow> skip_line (body @ CHR 0x0A # rest) = CHR 0x0A # rest"
  by (induction body) auto

lemma skip_block_append:
  "\<not> str_contains (prev # body @ ''*'') ''*/'' \<Longrightarrow> skip_block prev (body @ ''*/'' @ rest) = rest"
  by (induction body arbitrary: prev) (auto simp: starts_with_def)

lemma strip_segment:
  "segment_ok g \<Longrightarrow> strip_jsonc False (source_text g @ rest) = stripped_text g @ strip_jsonc False rest"
proof (cases g)
  case (BlockComment body)
  assume "segment_ok g"
  with BlockComment show ?thesis
    using skip_block_append [of "CHR '' ''" body rest] by (simp add: starts_with_def)
qed (auto simp: strip_literal skip_line_append)

theorem strip_segments:
  "list_all segment_ok gs \<Longrightarrow>
   strip_jsonc_comments (concat (map source_text gs)) = concat (map stripped_text gs)"
  unfolding strip_jsonc_comments_def by (induction gs) (simp_all add: strip_segment)

section \<open>Importing what is discovered\<close>

lemma insert_each_upstreams:
  "insert_each env cfg specs = (cfg', added, errors) \<Longrightarrow>
   \<exists>us. gc_upstream cfg' = gc_upstream cfg @ us
     \<and> (\<forall>u \<in> set us. \<exists>spec \<in> set specs. trim_bearer_env spec = Inr u)"
proof (induction env cfg specs arbitrary: cfg' added errors rule: insert_each.induct)
  case (2 env cfg spec specs)
  show ?case
  proof (cases "and_then (trim_bearer_env spec) (insert_upstream env cfg)")
    case (Inl e)
    with 2(1) "2.prems" show ?thesis by (fastforce split: prod.splits)
  next
    case (Inr c)
    then obtain u where u: "trim_bearer_env spec = Inr u" "gc_upstream c = gc_upstream cfg @ [u]"
      by (auto simp: and_then_Inr insert_upstream_def split: if_splits)
    obtain added' where "insert_each env c specs = (cfg', added', errors)"
      using Inr "2.prems" by (auto split: prod.splits)
    with 2(2) [OF Inr] obtain us where "gc_upstream cfg' = gc_upstream c @ us"
      "\<forall>u \<in> set us. \<exists>spec \<in> set specs. trim_bearer_env spec = Inr u" by blast
    with u show ?thesis by (intro exI [of _ "u # us"]) auto
  qed
qed simp

lemma batch_add_upstreams:
  assumes "batch_add me io specs s = (Inr r, s')"
  shows "\<exists>us. gc_upstream (gm_config s') = gc_upstream (gm_config s) @ us
    \<and> (\<forall>u \<in> set us. \<exists>spec \<in> set specs. trim_bearer_env spec = Inr u)"
proof (cases "specs = []")
  case True
  with assms show ?thesis by (auto simp: batch_add_def)
next
  case False
  obtain cfg added errors where ins: "insert_each (me_gw me) (gm_config s) specs = (cfg, added, errors)"
    by (metis prod_cases3)
  with assms False obtain s1 where "write_and_reload me io cfg s = (Inr (), s1)" "s' = s1"
    by (auto simp: batch_add_def gbind_Inr gconfig_def Let_def split: if_splits)
  then have "gc_upstream (gm_config s') = gc_upstream cfg" by (auto dest!: write_and_reload_Inr)
  with insert_each_upstreams [OF ins] show ?thesis by simp
qed

lemma partition_specs:
  "spec \<in> set (snd (partition_discovered_for_import cfg ds)) \<Longrightarrow> \<exists>d \<in> set ds. spec = ds_spec d"
  by (induction cfg ds rule: partition_discovered_for_import.induct)
     (auto simp: Let_def split: prod.splits if_splits)

text \<open>
  C19. An automatic import of what was discovered in the files of other programs keeps every
  configured upstream as it is, in order, and appends only discovered servers: disabled,
  without environment variables, headers, credentials or OAuth configuration, under a
  well-formed name, and with the program and the file they were found in recorded.
\<close>

theorem auto_import_inert:
  assumes "auto_import_discovered_configs me (io\<lparr>io_discovered := Some (discover_all de home)\<rparr>) s
    = (Inr added, s')"
  shows "\<exists>us. gc_upstream (gm_config s') = gc_upstream (gm_config s) @ us
    \<and> list_all (\<lambda>u. inert u \<and> (\<exists>d \<in> set (discover_all de home). u = ds_spec d \<and> from_source d)) us"
proof -
  let ?io = "io\<lparr>io_discovered := Some (discover_all de home)\<rparr>"
  let ?specs = "snd (partition_discovered_for_import (gm_config s) (discover_all de home))"
  from assms consider "s' = s" | r where "batch_add me ?io ?specs s = (Inr r, s')"
    by (auto simp: auto_import_discovered_configs_def gbind_Inr gconfig_def Let_def
        split: if_splits prod.splits)
  then show ?thesis
  proof cases
    case 1
    then show ?thesis by simp
  next
    case 2
    then obtain us where us: "gc_upstream (gm_config s') = gc_upstream (gm_config s) @ us"
      "\<forall>u \<in> set us. \<exists>spec \<in> set ?specs. trim_bearer_env spec = Inr u"
      using batch_add_upstreams by blast
    have "inert u \<and> (\<exists>d \<in> set (discover_all de home). u = ds_spec d \<and> from_source d)"
      if u: "u \<in> set us" for u
    proof -
      obtain d where d: "d \<in> set (discover_all de home)" "trim_bearer_env (ds_spec d) = Inr u"
        using us(2) u partition_specs by metis
      have "inert (ds_spec d)" "from_source d" using discover_all_inert [OF d(1)] by auto
      moreover from this d have "u = ds_spec d" by (simp add: trim_bearer_env_def inert_def)
      ultimately show ?thesis using d(1) by blast
    qed
    with us(1) show ?thesis by (auto simp: list_all_iff)
  qed
qed

text \<open>One server in one file, imported into an empty configuration.\<close>

definition demo_disc :: disc_env where
  "demo_disc =
     \<lparr>de_read = (\<lambda>p. if p = ''h/.cursor/mcp.json'' then Some ''{}'' else None),
      de_json = (\<lambda>_. Some (JObject [(''mcpServers'',
        JObject [(''fetch'', JObject [(''command'', JString ''npx''), (''env'', JObject [(''K'', JString ''s'')])])])])),
      de_codex = (\<lambda>_. None), de_var = (\<lambda>_. None), de_platform = OtherOs,
      de_lowercase = (\<lambda>s. s), de_sha256_hex = (\<lambda>_. ''f0''), de_now = ''t0''\<rparr>"

definition demo_import :: upstream_config where
  "demo_import = (demo_stdio ''fetch'' ''npx'')\<lparr>up_enabled := False, up_imported_from := Some
     (demo_source\<lparr>is_path := ''h/.cursor/mcp.json''\<rparr>)\<rparr>"

lemma demo_discovered:
  "discover_all demo_disc ''h'' =
     [\<lparr>ds_name = ''fetch'', ds_spec = demo_import, ds_source_client = ''cursor'',
       ds_source_path = ''h/.cursor/mcp.json'', ds_env_key_count = 1\<rparr>]"
  by code_simp

lemma demo_imported:
  "\<exists>s'. auto_import_discovered_configs demo_mgr
       (demo_io\<lparr>io_discovered := Some (discover_all demo_disc ''h'')\<rparr>) (new_manager Missing)
     = (Inr [''fetch''], s') \<and> gc_upstream (gm_config s') = [demo_import]"
proof -
  let ?cfg = "demo_gw_config [demo_import]"
  have same: "checked_fields demo_import = checked_fields (demo_stdio ''fetch'' ''npx'')"
    by (simp add: demo_import_def checked_fields_def)
  have t: "trim ''npx'' \<noteq> []" by code_simp
  have ok: "upstream_config_validate demo_gw_env demo_import = Inr ()"
    "validate_upstream demo_gw_env prefs demo_import = Inr ()" for prefs
    using demo_upstream_ok [OF t] demo_fetch_ok upstream_config_validate_checked [OF same]
      validate_upstream_checked [OF same] by simp_all
  have n: "up_name demo_import = ''fetch''" "up_bearer_token_env demo_import = None"
    by (simp_all add: demo_import_def)
  have ins: "insert_upstream demo_gw_env default_gateway_config demo_import = Inr ?cfg"
    by (simp add: insert_upstream_def ok demo_gw_config_def) (simp add: default_gateway_config_def)
  have per: "store_persist demo_mgr Written Missing ?cfg =
      (Inr (), Decoded (?cfg, Some (default_host demo_mgr)))"
    by (intro upstreams_only_persists) (simp_all add: demo_mgr_def ok)
  show ?thesis
    by (simp add: auto_import_discovered_configs_def demo_discovered gbind_def gconfig_def Let_def
        new_manager_def discovered_is_tombstoned_def default_gateway_config_def [THEN arg_cong, of gc_upstream]
        default_gateway_config_def [THEN arg_cong, of gc_tombstones] batch_add_def trim_bearer_env_def n
        ins demo_mgr_def write_and_reload_def write_config_file_def demo_io_def
        per [unfolded demo_mgr_def] gret_def validate_upstreams_iff ok
        upstreams_only_reloads [OF demo_upstreams_only [of "[demo_import]"]])
qed

theorem auto_import_inert_witness:
  "\<exists>s' u. snd (auto_import_discovered_configs demo_mgr
       (demo_io\<lparr>io_discovered := Some (discover_all demo_disc ''h'')\<rparr>) (new_manager Missing)) = s'
     \<and> gc_upstream (gm_config s') = [u] \<and> inert u"
proof -
  obtain s' where s': "auto_import_discovered_configs demo_mgr
       (demo_io\<lparr>io_discovered := Some (discover_all demo_disc ''h'')\<rparr>) (new_manager Missing)
     = (Inr [''fetch''], s')" "gc_upstream (gm_config s') = [demo_import]"
    using demo_imported by blast
  moreover have "gc_upstream (gm_config (new_manager Missing :: unit gw_state)) = []"
    by (simp add: new_manager_def default_gateway_config_def)
  ultimately show ?thesis using auto_import_inert [OF s'(1)] by auto
qed

end
