(* ===== verification/Gateway_Catalog.thy ===== *)
theory Gateway_Catalog
  imports Gateway_Theorems Upstream_Catalog
begin

text \<open>
  What a reload tells the clients (\<open>manager/pool_lifecycle.rs\<close>): snapshots of the catalog as
  clients see it, their difference, and the decision how much of the upstream pool a new
  configuration concerns.

  A \<open>BTreeSet\<close> is a set. The pool is its catalog of upstreams with the names of the
  connections that serve resources. JSON serialisation and SHA-256 are the parameter
  \<open>plan_env\<close>.
\<close>

section \<open>Snapshots and differences\<close>

record catalog_snapshot =
  sn_tools :: "string set"
  sn_resources :: "string set"
  sn_prompts :: "string set"

record catalog_diff =
  cd_tools_changed :: bool
  cd_resources_changed :: bool
  cd_prompts_changed :: bool

definition diff_catalogs :: "catalog_snapshot \<Rightarrow> catalog_snapshot \<Rightarrow> catalog_diff" where
  "diff_catalogs old new =
     \<lparr>cd_tools_changed = (sn_tools old \<noteq> sn_tools new),
      cd_resources_changed = (sn_resources old \<noteq> sn_resources new),
      cd_prompts_changed = (sn_prompts old \<noteq> sn_prompts new)\<rparr>"

definition NS_TOKEN_PREFIX :: string where
  "NS_TOKEN_PREFIX = [CHR 0x01] @ ''ns'' @ [CHR 0x01]"

definition CODE_MODE_SYNTHETIC_TOOL_NAME :: string where
  "CODE_MODE_SYNTHETIC_TOOL_NAME = ''codemode''"

definition shown_hint :: "upstream_config \<Rightarrow> string" where
  "shown_hint u =
     (case Option.bind (up_code_mode_hint u) normalize_code_mode_hint of None \<Rightarrow> [] | Some h \<Rightarrow> h)"

definition ns_token :: "upstream_config \<Rightarrow> string" where
  "ns_token u = NS_TOKEN_PREFIX @ up_name u @ [CHR 0x01] @ shown_hint u"

definition code_mode_namespace_tokens :: "gateway_config \<Rightarrow> string set" where
  "code_mode_namespace_tokens cfg = ns_token ` set (filter up_enabled (gc_upstream cfg))"

record projected_snapshot =
  ps_visible :: catalog_snapshot
  ps_raw_tools :: "string set"

type_synonym pool_view = "catalog \<times> string list"

definition raw_tool_names :: "pool_view option \<Rightarrow> string set" where
  "raw_tool_names pool =
     (case pool of None \<Rightarrow> {} | Some (cat, _) \<Rightarrow> (mt_name \<circ> ut_tool) ` set (healthy_tools cat))"

definition ui_tool_names :: "pool_view option \<Rightarrow> string set" where
  "ui_tool_names pool =
     (case pool of None \<Rightarrow> {} | Some (cat, _) \<Rightarrow> set (healthy_ui_tool_names_allowed cat None))"

definition routable_names :: "upstream_capability \<Rightarrow> pool_view option \<Rightarrow> string set" where
  "routable_names capability pool =
     (case pool of None \<Rightarrow> {} | Some (cat, rs) \<Rightarrow> set (routable_upstream_names cat rs capability))"

definition snapshot_from_pool :: "pool_view option \<Rightarrow> bool \<Rightarrow> string set \<Rightarrow> projected_snapshot" where
  "snapshot_from_pool pool code_mode_enabled ns_tokens =
     \<lparr>ps_visible =
        \<lparr>sn_tools = (if code_mode_enabled
                     then insert CODE_MODE_SYNTHETIC_TOOL_NAME (ui_tool_names pool) \<union> ns_tokens
                     else raw_tool_names pool),
         sn_resources = routable_names Resources pool,
         sn_prompts = routable_names Prompts pool\<rparr>,
      ps_raw_tools = raw_tool_names pool\<rparr>"

subsection \<open>The rendered difference\<close>

definition MAX_LOGGED_DELTA_NAMES :: nat where
  "MAX_LOGGED_DELTA_NAMES = 20"

record tool_delta =
  td_added :: "string list"
  td_removed :: "string list"
  td_namespaces_added :: "string list"
  td_namespaces_removed :: "string list"
  td_truncated :: nat

definition token_namespace :: "string \<Rightarrow> string option" where
  "token_namespace entry =
     map_option (\<lambda>rest. hd (split_char (CHR 0x01) rest)) (strip_prefix NS_TOKEN_PREFIX entry)"

definition delta_tools :: "string set \<Rightarrow> string list" where
  "delta_tools d = filter (\<lambda>entry. token_namespace entry = None) (sorted_list_of_set d)"

definition delta_namespaces :: "string set \<Rightarrow> string list" where
  "delta_namespaces d = List.map_filter token_namespace (sorted_list_of_set d)"

definition excess_names :: "string list \<Rightarrow> nat" where
  "excess_names names = length names - MAX_LOGGED_DELTA_NAMES"

definition truncate_names :: "tool_delta \<Rightarrow> tool_delta" where
  "truncate_names d =
     \<lparr>td_added = take MAX_LOGGED_DELTA_NAMES (td_added d),
      td_removed = take MAX_LOGGED_DELTA_NAMES (td_removed d),
      td_namespaces_added = take MAX_LOGGED_DELTA_NAMES (td_namespaces_added d),
      td_namespaces_removed = take MAX_LOGGED_DELTA_NAMES (td_namespaces_removed d),
      td_truncated = td_truncated d + excess_names (td_added d) + excess_names (td_removed d)
        + excess_names (td_namespaces_added d) + excess_names (td_namespaces_removed d)\<rparr>"

definition describe :: "string set \<Rightarrow> string set \<Rightarrow> tool_delta" where
  "describe old new =
     truncate_names
       \<lparr>td_added = delta_tools (new - old), td_removed = delta_tools (old - new),
        td_namespaces_added = delta_namespaces (new - old),
        td_namespaces_removed = delta_namespaces (old - new), td_truncated = 0\<rparr>"

text \<open>
  \<open>observe\<close> counts the reloads in which tools behind Code Mode changed and the clients were not
  told; the counter, which wraps, is the first argument and the last component.
\<close>

record observation =
  ob_diff :: catalog_diff
  ob_delta :: tool_delta
  ob_projection :: string
  ob_raw_tools_changed :: bool
  ob_suppressed_raw_churn :: bool
  ob_suppressed_total :: "64 word"

definition observe ::
  "64 word \<Rightarrow> projected_snapshot \<Rightarrow> projected_snapshot \<Rightarrow> bool \<Rightarrow> observation" where
  "observe seen old new code_mode_enabled =
     (let diff = diff_catalogs (ps_visible old) (ps_visible new);
          raw_changed = (ps_raw_tools old \<noteq> ps_raw_tools new);
          suppressed = (raw_changed \<and> \<not> cd_tools_changed diff)
      in \<lparr>ob_diff = diff,
          ob_delta = describe (sn_tools (ps_visible old)) (sn_tools (ps_visible new)),
          ob_projection = (if code_mode_enabled then ''code_mode_visible'' else ''raw''),
          ob_raw_tools_changed = raw_changed, ob_suppressed_raw_churn = suppressed,
          ob_suppressed_total = (if suppressed then seen + 1 else seen)\<rparr>)"

definition notifies :: "catalog_diff \<Rightarrow> bool" where
  "notifies d = (cd_tools_changed d \<or> cd_resources_changed d \<or> cd_prompts_changed d)"

section \<open>How much of the pool a reload concerns\<close>

text \<open>
  The fingerprint of an upstream's configuration, and the one of the settings that concern the
  whole pool.
\<close>

record plan_env =
  pe_fingerprint :: "upstream_config \<Rightarrow> string"
  pe_settings :: "gateway_preferences \<Rightarrow> code_mode_config \<Rightarrow> nat \<Rightarrow> nat \<Rightarrow> string"

definition upstream_request_timeout :: "gateway_config \<Rightarrow> nat" where
  "upstream_request_timeout cfg =
     (case gc_upstream_request_timeout_ms cfg of None \<Rightarrow> 30000 | Some n \<Rightarrow> n)"

definition upstream_relay_timeout :: "gateway_config \<Rightarrow> nat" where
  "upstream_relay_timeout cfg =
     (case gc_upstream_relay_timeout_ms cfg of None \<Rightarrow> 300000 | Some n \<Rightarrow> n)"

definition pool_settings_fingerprint :: "plan_env \<Rightarrow> gateway_config \<Rightarrow> string" where
  "pool_settings_fingerprint pe cfg =
     pe_settings pe (gc_gateway cfg) (gc_code_mode cfg) (upstream_request_timeout cfg)
       (upstream_relay_timeout cfg)"

text \<open>Collecting pairs into a map keeps the last one of a key.\<close>

definition upstream_fingerprint_map :: "plan_env \<Rightarrow> gateway_config \<Rightarrow> string \<rightharpoonup> string" where
  "upstream_fingerprint_map pe cfg =
     map_of (rev (map (\<lambda>u. (up_name u, pe_fingerprint pe u)) (gc_upstream cfg)))"

definition upstream_changed_names :: "plan_env \<Rightarrow> gateway_config \<Rightarrow> gateway_config \<Rightarrow> string set" where
  "upstream_changed_names pe current new =
     set (filter (\<lambda>n. upstream_fingerprint_map pe current n \<noteq> upstream_fingerprint_map pe new n)
       (map up_name (gc_upstream current) @ map up_name (gc_upstream new)))"

definition upstream_changes_are_add_only :: "gateway_config \<Rightarrow> string set \<Rightarrow> bool" where
  "upstream_changes_are_add_only current changed =
     (changed \<noteq> {} \<and> (\<forall>n \<in> changed. list_all (\<lambda>u. up_name u \<noteq> n) (gc_upstream current)))"

datatype reload_plan = KeepPool | ReconcilePool "string set" | RebuildPool

definition plan_reload ::
  "plan_env \<Rightarrow> gateway_config \<Rightarrow> gateway_config \<Rightarrow> bool \<Rightarrow> bool \<Rightarrow> reload_plan" where
  "plan_reload pe current new pool_exists identity_matches =
     (let same_settings = (pool_settings_fingerprint pe current = pool_settings_fingerprint pe new);
          changed = upstream_changed_names pe current new
      in if same_settings \<and> pool_exists \<and> changed = {} then KeepPool
         else if same_settings \<and> upstream_changes_are_add_only current changed
                 \<and> identity_matches \<and> pool_exists
         then ReconcilePool changed
         else RebuildPool)"

text \<open>
  The pool after a reload: the one before it, or what its reconciliation or rebuilding, which
  connects to the upstreams, has made of it (\<open>made\<close>).
\<close>

definition pool_after :: "reload_plan \<Rightarrow> pool_view option \<Rightarrow> pool_view option \<Rightarrow> pool_view option" where
  "pool_after plan pool made = (if plan = KeepPool then pool else made)"

definition snapshot_for :: "gateway_config \<Rightarrow> pool_view option \<Rightarrow> projected_snapshot" where
  "snapshot_for cfg pool =
     snapshot_from_pool pool (cm_enabled (gc_code_mode cfg)) (code_mode_namespace_tokens cfg)"

definition reload_diff ::
  "plan_env \<Rightarrow> gateway_config \<Rightarrow> gateway_config \<Rightarrow> pool_view option \<Rightarrow> bool \<Rightarrow> pool_view option
   \<Rightarrow> catalog_diff" where
  "reload_diff pe current new pool identity_matches made =
     (case plan_reload pe current new (pool \<noteq> None) identity_matches of
        KeepPool \<Rightarrow>
          \<lparr>cd_tools_changed = False, cd_resources_changed = False, cd_prompts_changed = False\<rparr>
      | _ \<Rightarrow> diff_catalogs (ps_visible (snapshot_for current pool)) (ps_visible (snapshot_for new made)))"

section \<open>Namespace tokens\<close>

text \<open>What Code Mode advertises of a configuration: the enabled upstreams with their hints.\<close>

definition advertised :: "gateway_config \<Rightarrow> (string \<times> string) set" where
  "advertised cfg = (\<lambda>u. (up_name u, shown_hint u)) ` set (filter up_enabled (gc_upstream cfg))"

definition token_of :: "string \<times> string \<Rightarrow> string" where
  "token_of p = NS_TOKEN_PREFIX @ fst p @ [CHR 0x01] @ snd p"

lemma tokens_advertised: "code_mode_namespace_tokens cfg = token_of ` advertised cfg"
  unfolding code_mode_namespace_tokens_def advertised_def image_image
  by (simp add: ns_token_def token_of_def)

lemma token_of_inj: "inj_on token_of {p. CHR 0x01 \<notin> set (fst p)}"
proof (rule inj_onI)
  fix p q :: "string \<times> string"
  assume "p \<in> {p. CHR 0x01 \<notin> set (fst p)}" "q \<in> {p. CHR 0x01 \<notin> set (fst p)}" "token_of p = token_of q"
  then have "split_once (CHR 0x01) (fst p @ CHR 0x01 # snd p) = split_once (CHR 0x01) (fst q @ CHR 0x01 # snd q)"
    by (simp add: token_of_def)
  with \<open>p \<in> _\<close> \<open>q \<in> _\<close> show "p = q" by (simp add: split_once_append prod_eq_iff)
qed

lemma valid_names:
  assumes "validate_config env cfg = Inr ()" and "u \<in> set (gc_upstream cfg)"
  shows "CHR 0x01 \<notin> set (up_name u)"
proof -
  have "upstream_config_validate env u = Inr ()"
    using assms by (auto simp: validate_config_iff validate_upstreams_iff validate_upstream_def and_then_Inr)
  then have "list_all upstream_name_char (up_name u)"
    by (auto simp: upstream_config_validate_def split: if_splits)
  moreover have "\<not> upstream_name_char (CHR 0x01)" by code_simp
  ultimately show ?thesis by (auto simp: list_all_iff)
qed

lemma advertised_names:
  "validate_config env cfg = Inr () \<Longrightarrow> advertised cfg \<subseteq> {p. CHR 0x01 \<notin> set (fst p)}"
  by (auto simp: advertised_def dest: valid_names)

text \<open>A name no upstream server would give a tool.\<close>

definition token_like :: "string \<Rightarrow> bool" where
  "token_like s = starts_with s NS_TOKEN_PREFIX"

lemma visible_union:
  assumes "\<forall>a \<in> A \<union> A'. \<not> token_like a" and "\<forall>t \<in> B \<union> B'. token_like t"
  shows "A \<union> B = A' \<union> B' \<longleftrightarrow> A = A' \<and> B = B'"
  using assms by blast

lemma token_of_token_like: "token_like (token_of p)"
  by (simp add: token_like_def token_of_def starts_with_iff)

lemma visible_tools_eq:
  assumes "validate_config env current = Inr ()" and "validate_config env new = Inr ()"
    and "\<forall>n \<in> ui_tool_names pool \<union> ui_tool_names pool'. \<not> token_like n"
  shows "insert CODE_MODE_SYNTHETIC_TOOL_NAME (ui_tool_names pool) \<union> code_mode_namespace_tokens current =
         insert CODE_MODE_SYNTHETIC_TOOL_NAME (ui_tool_names pool') \<union> code_mode_namespace_tokens new \<longleftrightarrow>
         insert CODE_MODE_SYNTHETIC_TOOL_NAME (ui_tool_names pool) =
           insert CODE_MODE_SYNTHETIC_TOOL_NAME (ui_tool_names pool')
         \<and> advertised current = advertised new"
proof -
  have "\<not> token_like CODE_MODE_SYNTHETIC_TOOL_NAME" by code_simp
  then have "\<forall>a \<in> insert CODE_MODE_SYNTHETIC_TOOL_NAME (ui_tool_names pool)
      \<union> insert CODE_MODE_SYNTHETIC_TOOL_NAME (ui_tool_names pool'). \<not> token_like a"
    using assms(3) by simp
  moreover have "\<forall>t \<in> token_of ` advertised current \<union> token_of ` advertised new. token_like t"
    using token_of_token_like by blast
  moreover have "token_of ` advertised current = token_of ` advertised new \<longleftrightarrow>
      advertised current = advertised new"
    by (rule inj_on_image_eq_iff [OF token_of_inj]) (rule advertised_names [OF assms(1)],
      rule advertised_names [OF assms(2)])
  ultimately show ?thesis unfolding tokens_advertised by (simp only: visible_union)
qed

section \<open>Reloads\<close>

text \<open>When nothing has changed, the same upstreams are configured, each as before.\<close>

lemma unchanged_upstreams:
  assumes "upstream_changed_names pe current new = {}"
    and "validate_config env current = Inr ()" and "validate_config env new = Inr ()"
    and "inj_on (pe_fingerprint pe) (set (gc_upstream current) \<union> set (gc_upstream new))"
  shows "set (gc_upstream current) = set (gc_upstream new)"
proof -
  let ?m = "upstream_fingerprint_map pe"
  have at: "?m cfg (up_name u) = Some (pe_fingerprint pe u)"
    if "validate_config env cfg = Inr ()" "u \<in> set (gc_upstream cfg)" for cfg u
    using that
    by (auto simp: upstream_fingerprint_map_def validate_config_iff validate_upstreams_iff rev_map [symmetric]
        comp_def intro!: map_of_is_SomeI)
  have from_map: "\<exists>v \<in> set (gc_upstream cfg). up_name v = n \<and> pe_fingerprint pe v = f"
    if "?m cfg n = Some f" for cfg n f
    using that by (auto simp: upstream_fingerprint_map_def dest!: map_of_SomeD)
  have same: "?m current (up_name u) = ?m new (up_name u)"
    if "u \<in> set (gc_upstream current) \<union> set (gc_upstream new)" for u
    using assms(1) that by (auto simp: upstream_changed_names_def filter_empty_conv)
  have "u \<in> set (gc_upstream b)"
    if "u \<in> set (gc_upstream a)" "validate_config env a = Inr ()" "?m a (up_name u) = ?m b (up_name u)"
      "inj_on (pe_fingerprint pe) (set (gc_upstream a) \<union> set (gc_upstream b))" for a b u
    using at [of a u] from_map [of b "up_name u" "pe_fingerprint pe u"] that
    by (metis UnI1 UnI2 inj_onD)
  with assms same show ?thesis by (metis (no_types, opaque_lifting) UnI1 UnI2 Un_commute subsetI subset_antisym)
qed


text \<open>
  Switching Code Mode on is reported, even with no upstream connected: the synthetic tool or
  the token of an upstream is new.
\<close>

lemma mode_switch_reported:
  assumes "\<not> cm_enabled (gc_code_mode current)" and "cm_enabled (gc_code_mode new)"
    and "pool_settings_fingerprint pe current \<noteq> pool_settings_fingerprint pe new"
    and "\<forall>n \<in> raw_tool_names pool. \<not> token_like n"
    and "advertised new \<noteq> {} \<or> CODE_MODE_SYNTHETIC_TOOL_NAME \<notin> raw_tool_names pool"
  shows "cd_tools_changed (reload_diff pe current new pool identity made)"
proof -
  have "reload_diff pe current new pool identity made =
      diff_catalogs (ps_visible (snapshot_for current pool)) (ps_visible (snapshot_for new made))"
    using assms(3) by (simp add: reload_diff_def plan_reload_def Let_def)
  moreover have "raw_tool_names pool \<noteq>
      insert CODE_MODE_SYNTHETIC_TOOL_NAME (ui_tool_names made) \<union> token_of ` advertised new"
    using assms(4,5) token_of_token_like by (metis Un_iff all_not_in_conv image_eqI insertCI)
  ultimately show ?thesis
    using assms(1,2)
    by (simp add: diff_catalogs_def snapshot_for_def snapshot_from_pool_def tokens_advertised)
qed

text \<open>A reload that reports no change of tools although the raw tools moved is counted.\<close>

lemma observe_counts:
  "ob_suppressed_total (observe seen old new on) = seen + 1 \<longleftrightarrow>
     ps_raw_tools old \<noteq> ps_raw_tools new \<and> sn_tools (ps_visible old) = sn_tools (ps_visible new)"
  by (auto simp: observe_def Let_def diff_catalogs_def)

text \<open>A hint is edited in the file; no pool exists yet.\<close>

definition demo_code_mode :: "upstream_config list \<Rightarrow> gateway_config" where
  "demo_code_mode us = (demo_gw_config us)\<lparr>gc_code_mode := default_code_mode\<lparr>cm_enabled := True\<rparr>\<rparr>"

definition demo_hinted :: upstream_config where
  "demo_hinted = (demo_stdio ''fetch'' ''npx'')\<lparr>up_code_mode_hint := Some ''Web pages''\<rparr>"

definition demo_plan :: plan_env where
  "demo_plan = \<lparr>pe_fingerprint = (\<lambda>u. case up_code_mode_hint u of None \<Rightarrow> [] | Some h \<Rightarrow> h),
     pe_settings = (\<lambda>_ _ _ _. [])\<rparr>"

lemma demo_code_mode_valid:
  assumes "checked_fields u = checked_fields (demo_stdio ''fetch'' ''npx'')"
  shows "validate_config demo_gw_env (demo_code_mode [u]) = Inr ()"
proof -
  have "validate_code_mode demo_gw_env (default_code_mode\<lparr>cm_enabled := True\<rparr>) = Inr ()"
    by (simp add: validate_code_mode_def code_mode_validate_def default_code_mode_def map_err_def)
  then show ?thesis
    using demo_fetch_ok validate_upstream_checked [OF assms]
    by (simp add: validate_config_iff demo_code_mode_def validate_upstreams_iff
        validate_protected_mcp_routes_def)
qed


end
