(* ===== verification/Mcp_Tools.thy ===== *)
theory Mcp_Tools
  imports Gateway_Catalog Relay_Callback Auth_Middleware
begin

text \<open>
  The tools one MCP session sees: the scope of its route (\<open>route_scope.rs\<close>), the audience of its
  requests (\<open>context.rs\<close>), the descriptors its contract is made of (\<open>peer_contract.rs\<close>), and
  the paginated \<open>tools/list\<close> handler (\<open>handlers_tools.rs\<close>, \<open>pagination.rs\<close>), which stops early
  and has to agree with the contract.

  The texts and schemas of the descriptors Labby makes itself are fixed by what the constructor
  of \<open>descriptor\<close> says; a descriptor of an upstream is the tool as the upstream sent it.
\<close>

section \<open>Route scopes\<close>

datatype route_scope =
    Root
  | ProtectedSubset string "string list" "string list" bool

definition from_protected_route :: "mcp_route \<Rightarrow> route_scope option" where
  "from_protected_route r =
     map_option (\<lambda>t. ProtectedSubset (rt_name r) (gs_upstreams t) (gs_services t) (gs_expose_code_mode t))
       (gateway_subset_target r)"

fun scope_label :: "route_scope \<Rightarrow> string" where
  "scope_label Root = ''root''"
| "scope_label (ProtectedSubset n _ _ _) = ''protected:'' @ n"

fun allows_service :: "route_scope \<Rightarrow> string \<Rightarrow> bool" where
  "allows_service Root s = True"
| "allows_service (ProtectedSubset _ _ services _) s = List.member services s"

fun allows_upstream :: "route_scope \<Rightarrow> string \<Rightarrow> bool" where
  "allows_upstream Root u = True"
| "allows_upstream (ProtectedSubset _ upstreams _ _) u = List.member upstreams u"

fun exposes_code_mode :: "route_scope \<Rightarrow> bool" where
  "exposes_code_mode Root = True"
| "exposes_code_mode (ProtectedSubset _ _ _ expose) = expose"

fun allowed_upstreams :: "route_scope \<Rightarrow> string list option" where
  "allowed_upstreams Root = None"
| "allowed_upstreams (ProtectedSubset _ upstreams _ _) = Some upstreams"

lemma upstream_allowed_scope: "upstream_allowed (allowed_upstreams scope) n = allows_upstream scope n"
  by (cases scope) (simp_all add: upstream_allowed_def)

section \<open>The audience of a request\<close>

definition SHARED_GATEWAY_OAUTH_SUBJECT :: string where
  "SHARED_GATEWAY_OAUTH_SUBJECT = ''gateway''"

definition has_scope :: "string list \<Rightarrow> auth_context \<Rightarrow> bool" where
  "has_scope accepted auth = list_ex (List.member accepted) (cx_scopes auth)"

definition tool_execute_scope_allowed :: "auth_context option \<Rightarrow> bool" where
  "tool_execute_scope_allowed auth =
     (case auth of None \<Rightarrow> True | Some a \<Rightarrow> has_scope [''lab'', ''lab:admin''] a)"

definition admin_app_resources_visible :: "auth_context option \<Rightarrow> bool" where
  "admin_app_resources_visible auth =
     (case auth of None \<Rightarrow> True | Some a \<Rightarrow> has_scope [''lab:admin''] a)"

definition request_subject :: "auth_context option \<Rightarrow> string option" where
  "request_subject auth = map_option cx_sub auth"

definition oauth_upstream_subject_for_request ::
  "auth_context option \<Rightarrow> string option \<Rightarrow> string option" where
  "oauth_upstream_subject_for_request auth subject =
     (case auth of
        None \<Rightarrow> Some SHARED_GATEWAY_OAUTH_SUBJECT
      | Some a \<Rightarrow>
          if has_scope [''lab:admin''] a then Some SHARED_GATEWAY_OAUTH_SUBJECT else subject)"

record audience =
  au_code_mode_execute_allowed :: bool
  au_admin_apps_visible :: bool
  au_oauth_subject :: "string option"

record peer_contract =
  pc_route_scope :: route_scope
  pc_audience :: audience

definition peer_contract_for_request :: "route_scope \<Rightarrow> auth_context option \<Rightarrow> peer_contract" where
  "peer_contract_for_request scope auth =
     \<lparr>pc_route_scope = scope,
      pc_audience =
        \<lparr>au_code_mode_execute_allowed = tool_execute_scope_allowed auth,
         au_admin_apps_visible = admin_app_resources_visible auth,
         au_oauth_subject = oauth_upstream_subject_for_request auth (request_subject auth)\<rparr>\<rparr>"

section \<open>What the sessions share\<close>

text \<open>
  The registered services with their descriptions, the live gateway configuration (\<open>None\<close>: no
  gateway manager), which services have plugin metadata, the catalog of the current pool, the
  process-wide Code Mode flag, the state of the Code Mode app, the tools a connection to an
  upstream as a subject lists (\<open>None\<close>: it cannot be had), and the order in which such
  connections complete.
\<close>

record mcp_world =
  mw_services :: "(string \<times> string) list"
  mw_gateway :: "gateway_config option"
  mw_service_meta :: "string \<Rightarrow> bool"
  mw_pool :: "catalog option"
  mw_process_code_mode :: bool
  mw_app_enabled :: bool
  mw_acquire :: "upstream_config \<Rightarrow> string \<Rightarrow> mcp_tool list option"
  mw_completion :: "upstream_config list \<Rightarrow> upstream_config list"

datatype visibility_mode = Raw | RootSynthetic | InProcessPeer

definition hides_raw_tools :: "visibility_mode \<Rightarrow> bool" where
  "hides_raw_tools v = (v \<noteq> Raw)"

definition exposes_synthetic_tools :: "visibility_mode \<Rightarrow> bool" where
  "exposes_synthetic_tools v = (v = RootSynthetic \<or> v = InProcessPeer)"

definition code_mode_enabled :: "mcp_world \<Rightarrow> bool" where
  "code_mode_enabled w =
     (case mw_gateway w of None \<Rightarrow> False | Some cfg \<Rightarrow> cm_enabled (gc_code_mode cfg))"

definition code_mode_visibility :: "mcp_world \<Rightarrow> route_scope \<Rightarrow> visibility_mode" where
  "code_mode_visibility w scope =
     (if \<not> exposes_code_mode scope then Raw
      else if code_mode_enabled w then RootSynthetic
      else if mw_gateway w = None \<and> mw_process_code_mode w then InProcessPeer
      else Raw)"

definition current_upstream_pool :: "mcp_world \<Rightarrow> catalog option" where
  "current_upstream_pool w = (case mw_gateway w of None \<Rightarrow> None | Some _ \<Rightarrow> mw_pool w)"

definition find_virtual_server_for_service :: "gateway_config \<Rightarrow> string \<Rightarrow> virtual_server option" where
  "find_virtual_server_for_service cfg s =
     List.find (\<lambda>v. vs_service v = s \<or> vs_id v = s) (gc_virtual_servers cfg)"

definition surface_enabled_for_service ::
  "(string \<Rightarrow> bool) \<Rightarrow> gateway_config \<Rightarrow> string \<Rightarrow> string \<Rightarrow> bool" where
  "surface_enabled_for_service meta cfg service surface =
     (if \<not> meta service then True
      else case find_virtual_server_for_service cfg service of
             None \<Rightarrow> surface \<noteq> ''mcp''
           | Some v \<Rightarrow>
               if \<not> vs_enabled v then False
               else if surface = ''cli'' then sf_cli (vs_surfaces v)
               else if surface = ''api'' then sf_api (vs_surfaces v)
               else if surface = ''mcp'' then sf_mcp (vs_surfaces v)
               else if surface = ''webui'' then sf_webui (vs_surfaces v)
               else False)"

definition mcp_action_allowed_for_service :: "gateway_config \<Rightarrow> string \<Rightarrow> string \<Rightarrow> bool" where
  "mcp_action_allowed_for_service cfg service action =
     (case find_virtual_server_for_service cfg service of
        None \<Rightarrow> True
      | Some v \<Rightarrow>
          if \<not> vs_enabled v \<or> \<not> sf_mcp (vs_surfaces v) then False
          else if action = ''help'' \<or> action = ''schema'' then True
          else case vs_mcp_policy v of
                 Some allowed \<Rightarrow> if allowed \<noteq> [] then List.member allowed action else True
               | None \<Rightarrow> True)"

definition allowed_mcp_actions_for_service :: "gateway_config \<Rightarrow> string \<Rightarrow> string list option" where
  "allowed_mcp_actions_for_service cfg service =
     Option.bind (find_virtual_server_for_service cfg service) (\<lambda>v.
       if \<not> vs_enabled v \<or> \<not> sf_mcp (vs_surfaces v) then Some []
       else case vs_mcp_policy v of
              Some allowed \<Rightarrow> if allowed \<noteq> [] then Some (''help'' # ''schema'' # allowed) else None
            | None \<Rightarrow> None)"

definition service_visible_on_mcp :: "mcp_world \<Rightarrow> route_scope \<Rightarrow> string \<Rightarrow> bool" where
  "service_visible_on_mcp w scope s =
     (allows_service scope s
      \<and> (case mw_gateway w of
           None \<Rightarrow> True
         | Some cfg \<Rightarrow> surface_enabled_for_service (mw_service_meta w) cfg s ''mcp''))"

definition action_allowed_on_mcp :: "mcp_world \<Rightarrow> string \<Rightarrow> string \<Rightarrow> bool" where
  "action_allowed_on_mcp w service action =
     (case mw_gateway w of None \<Rightarrow> True | Some cfg \<Rightarrow> mcp_action_allowed_for_service cfg service action)"

definition registry_has :: "mcp_world \<Rightarrow> string \<Rightarrow> bool" where
  "registry_has w s = (List.find (\<lambda>(n, _). n = s) (mw_services w) \<noteq> None)"

definition add_server_app_available :: "mcp_world \<Rightarrow> route_scope \<Rightarrow> bool" where
  "add_server_app_available w scope =
     (allows_service scope ''gateway'' \<and> mw_gateway w \<noteq> None \<and> registry_has w ''gateway''
      \<and> service_visible_on_mcp w scope ''gateway''
      \<and> action_allowed_on_mcp w ''gateway'' ''gateway.test''
      \<and> action_allowed_on_mcp w ''gateway'' ''gateway.add'')"

definition gateway_status_app_available :: "mcp_world \<Rightarrow> route_scope \<Rightarrow> bool" where
  "gateway_status_app_available w scope =
     (allows_service scope ''gateway'' \<and> mw_gateway w \<noteq> None \<and> registry_has w ''gateway''
      \<and> service_visible_on_mcp w scope ''gateway''
      \<and> action_allowed_on_mcp w ''gateway'' ''gateway.list'')"

text \<open>The handler asks through methods of its own.\<close>

definition add_server_app_available_on_mcp :: "mcp_world \<Rightarrow> route_scope \<Rightarrow> bool" where
  "add_server_app_available_on_mcp w scope =
     (allows_service scope ''gateway'' \<and> mw_gateway w \<noteq> None
      \<and> list_ex (\<lambda>(n, _). n = ''gateway'') (mw_services w)
      \<and> service_visible_on_mcp w scope ''gateway''
      \<and> action_allowed_on_mcp w ''gateway'' ''gateway.test''
      \<and> action_allowed_on_mcp w ''gateway'' ''gateway.add'')"

definition gateway_status_app_available_on_mcp :: "mcp_world \<Rightarrow> route_scope \<Rightarrow> bool" where
  "gateway_status_app_available_on_mcp w scope =
     (allows_service scope ''gateway'' \<and> mw_gateway w \<noteq> None
      \<and> list_ex (\<lambda>(n, _). n = ''gateway'') (mw_services w)
      \<and> service_visible_on_mcp w scope ''gateway''
      \<and> action_allowed_on_mcp w ''gateway'' ''gateway.list'')"

lemma apps_available_on_mcp:
  "add_server_app_available_on_mcp w scope = add_server_app_available w scope"
  "gateway_status_app_available_on_mcp w scope = gateway_status_app_available w scope"
proof -
  have "registry_has w ''gateway'' = list_ex (\<lambda>(n, _). n = ''gateway'') (mw_services w)"
    by (auto simp: registry_has_def find_None_iff list_ex_iff)
  then show "add_server_app_available_on_mcp w scope = add_server_app_available w scope"
    "gateway_status_app_available_on_mcp w scope = gateway_status_app_available w scope"
    by (simp_all add: add_server_app_available_on_mcp_def gateway_status_app_available_on_mcp_def
        add_server_app_available_def gateway_status_app_available_def)
qed

section \<open>The descriptors of a contract\<close>

record code_mode_upstream =
  cu_name :: string
  cu_hint :: "string option"

text \<open>
  A service of the registry with its description and whether the app metadata of the log viewer
  is attached; the Code Mode tools, which describe the upstreams; the app control tool and the
  two administration apps; a tool of an upstream.
\<close>

datatype descriptor =
    ServiceTool string string bool
  | CodeModeTool "code_mode_upstream list"
  | CodeModeUiTool "code_mode_upstream list"
  | McpAppTool
  | AddServerTool
  | GatewayStatusTool
  | UpstreamTool mcp_tool

definition SERVER_LOGS_TOOL_NAME :: string where
  "SERVER_LOGS_TOOL_NAME = ''server_logs''"

fun descriptor_name :: "descriptor \<Rightarrow> string" where
  "descriptor_name (ServiceTool n _ _) = n"
| "descriptor_name (CodeModeTool _) = ''codemode''"
| "descriptor_name (CodeModeUiTool _) = ''codemode_ui''"
| "descriptor_name McpAppTool = ''mcp_app''"
| "descriptor_name AddServerTool = ''add_server''"
| "descriptor_name GatewayStatusTool = ''gateway_status''"
| "descriptor_name (UpstreamTool t) = mt_name t"

text \<open>\<open>dedup_by\<close> on equal names: the first of each run stays.\<close>

fun dedup_names :: "code_mode_upstream list \<Rightarrow> code_mode_upstream list" where
  "dedup_names (a # b # rest) =
     (if cu_name a = cu_name b then dedup_names (a # rest) else a # dedup_names (b # rest))"
| "dedup_names xs = xs"

definition code_mode_upstreams_for_description ::
  "mcp_world \<Rightarrow> route_scope \<Rightarrow> code_mode_upstream list" where
  "code_mode_upstreams_for_description w scope =
     (case mw_gateway w of
        None \<Rightarrow> []
      | Some cfg \<Rightarrow>
          dedup_names (sort_key cu_name
            (map (\<lambda>u. \<lparr>cu_name = up_name u,
                        cu_hint = Option.bind (up_code_mode_hint u) normalize_code_mode_hint\<rparr>)
              (filter (\<lambda>u. allows_upstream scope (up_name u))
                (filter up_enabled (gc_upstream cfg))))))"

definition oauth_upstream_configs :: "gateway_config \<Rightarrow> upstream_config list" where
  "oauth_upstream_configs cfg = filter (\<lambda>u. up_oauth u \<noteq> None) (gc_upstream cfg)"

definition route_scoped_oauth_upstream_configs :: "mcp_world \<Rightarrow> route_scope \<Rightarrow> upstream_config list" where
  "route_scoped_oauth_upstream_configs w scope =
     (case mw_gateway w of
        None \<Rightarrow> []
      | Some cfg \<Rightarrow> filter (\<lambda>u. allows_upstream scope (up_name u)) (oauth_upstream_configs cfg))"

definition subject_scoped_tools ::
  "mcp_world \<Rightarrow> upstream_config list \<Rightarrow> string \<Rightarrow> (string \<times> mcp_tool list) list" where
  "subject_scoped_tools w configs subject =
     List.map_filter (\<lambda>c. map_option (Pair (up_name c)) (mw_acquire w c subject))
       (mw_completion w (filter (\<lambda>c. up_oauth c \<noteq> None) configs))"

text \<open>
  The descriptors so far, the names of the services visible on the route, hidden by Code Mode or
  not, and the names already advertised.
\<close>

record builder =
  bd_descriptors :: "descriptor list"
  bd_builtin :: "string set"
  bd_advertised :: "string set"

definition add_descriptor :: "descriptor \<Rightarrow> builder \<Rightarrow> builder" where
  "add_descriptor d b =
     b\<lparr>bd_descriptors := bd_descriptors b @ [d],
       bd_advertised := insert (descriptor_name d) (bd_advertised b)\<rparr>"

definition service_tool :: "bool \<Rightarrow> string \<times> string \<Rightarrow> descriptor" where
  "service_tool logs_app s =
     ServiceTool (fst s) (snd s) (fst s = SERVER_LOGS_TOOL_NAME \<and> logs_app)"

definition push_service :: "mcp_world \<Rightarrow> peer_contract \<Rightarrow> bool \<Rightarrow> string \<times> string \<Rightarrow> builder \<Rightarrow> builder" where
  "push_service w pc hide s b =
     (if service_visible_on_mcp w (pc_route_scope pc) (fst s)
      then let b' = b\<lparr>bd_builtin := insert (fst s) (bd_builtin b)\<rparr>
           in if hide \<and> fst s \<noteq> SERVER_LOGS_TOOL_NAME then b'
              else add_descriptor (service_tool (au_admin_apps_visible (pc_audience pc)) s) b'
      else b)"

definition push_upstream_tool :: "mcp_tool \<Rightarrow> builder \<Rightarrow> builder" where
  "push_upstream_tool t b =
     (if mt_name t \<in> bd_builtin b \<or> mt_name t \<in> bd_advertised b then b
      else add_descriptor (UpstreamTool t) b)"

definition push_code_mode :: "mcp_world \<Rightarrow> peer_contract \<Rightarrow> builder \<Rightarrow> builder" where
  "push_code_mode w pc b =
     (let upstreams = code_mode_upstreams_for_description w (pc_route_scope pc);
          b1 = add_descriptor (CodeModeTool upstreams) b;
          b2 = (if mw_app_enabled w then add_descriptor (CodeModeUiTool upstreams) b1 else b1)
      in add_descriptor McpAppTool b2)"

definition push_when :: "bool \<Rightarrow> (builder \<Rightarrow> builder) \<Rightarrow> builder \<Rightarrow> builder" where
  "push_when c f b = (if c then f b else b)"

definition pool_tools :: "catalog \<Rightarrow> route_scope \<Rightarrow> bool \<Rightarrow> mcp_tool list" where
  "pool_tools cat scope hide =
     map ut_tool (if hide then healthy_ui_tools_allowed cat (allowed_upstreams scope)
                  else healthy_tools_allowed cat (allowed_upstreams scope))"

definition subject_tools :: "mcp_world \<Rightarrow> peer_contract \<Rightarrow> bool \<Rightarrow> mcp_tool list" where
  "subject_tools w pc hide =
     (case au_oauth_subject (pc_audience pc) of
        Some subject \<Rightarrow>
          if hide then []
          else concat (map snd (subject_scoped_tools w
                 (route_scoped_oauth_upstream_configs w (pc_route_scope pc)) subject))
      | None \<Rightarrow> [])"

definition visible_builder :: "mcp_world \<Rightarrow> peer_contract \<Rightarrow> builder" where
  "visible_builder w pc =
     (let scope = pc_route_scope pc; au = pc_audience pc;
          visibility = code_mode_visibility w scope;
          hide = hides_raw_tools visibility;
          b0 = \<lparr>bd_descriptors = [], bd_builtin = {}, bd_advertised = {}\<rparr>;
          b1 = fold (push_service w pc hide) (mw_services w) b0;
          b2 = push_when (exposes_synthetic_tools visibility \<and> au_code_mode_execute_allowed au)
                 (push_code_mode w pc) b1;
          b3 = push_when (au_admin_apps_visible au \<and> add_server_app_available w scope)
                 (add_descriptor AddServerTool) b2;
          b4 = push_when (au_admin_apps_visible au \<and> gateway_status_app_available w scope)
                 (add_descriptor GatewayStatusTool) b3
      in case current_upstream_pool w of
           None \<Rightarrow> b4
         | Some cat \<Rightarrow>
             fold push_upstream_tool (subject_tools w pc hide)
               (fold push_upstream_tool (pool_tools cat scope hide) b4))"

definition visible_tool_descriptors :: "mcp_world \<Rightarrow> peer_contract \<Rightarrow> descriptor list" where
  "visible_tool_descriptors w pc = bd_descriptors (visible_builder w pc)"

section \<open>Pages\<close>

definition MCP_LIST_PAGE_SIZE :: nat where
  "MCP_LIST_PAGE_SIZE = 100"

datatype page_error = InvalidCursor string

record 'a page_collector =
  pg_start :: nat
  pg_seen :: nat
  pg_page :: "'a list"
  pg_has_next :: bool

definition parse_cursor :: "string \<Rightarrow> page_error + nat" where
  "parse_cursor cursor =
     ok_or (parse_usize cursor) (InvalidCursor ''cursor must be a non-negative integer offset'')"

definition new_collector :: "string option \<Rightarrow> page_error + 'a page_collector" where
  "new_collector cursor =
     and_then (case cursor of Some c \<Rightarrow> parse_cursor c | None \<Rightarrow> Inr 0) (\<lambda>start.
       Inr \<lparr>pg_start = start, pg_seen = 0, pg_page = [], pg_has_next = False\<rparr>)"

definition finished :: "'a page_collector \<Rightarrow> bool" where
  "finished c = pg_has_next c"

definition accept :: "'a \<Rightarrow> 'a page_collector \<Rightarrow> 'a page_collector" where
  "accept item c =
     (if finished c then c
      else if pg_seen c < pg_start c then c\<lparr>pg_seen := pg_seen c + 1\<rparr>
      else if length (pg_page c) < MCP_LIST_PAGE_SIZE
      then c\<lparr>pg_page := pg_page c @ [item], pg_seen := pg_seen c + 1\<rparr>
      else c\<lparr>pg_has_next := True, pg_seen := pg_seen c + 1\<rparr>)"

definition finish :: "'a page_collector \<Rightarrow> page_error + 'a list \<times> string option" where
  "finish c =
     (if pg_seen c < pg_start c then Inl (InvalidCursor ''cursor is past the end of the result set'')
      else Inr (pg_page c,
        if pg_has_next c then Some (show_nat (pg_start c + length (pg_page c))) else None))"

section \<open>The handler of \<open>tools/list\<close>\<close>

record lister =
  ls_tools :: "descriptor page_collector"
  ls_builtin :: "string set"
  ls_advertised :: "string set"

definition accept_descriptor :: "descriptor \<Rightarrow> lister \<Rightarrow> lister" where
  "accept_descriptor d l =
     l\<lparr>ls_tools := accept d (ls_tools l),
       ls_advertised := insert (descriptor_name d) (ls_advertised l)\<rparr>"

fun list_services :: "mcp_world \<Rightarrow> route_scope \<Rightarrow> bool \<Rightarrow> bool \<Rightarrow> (string \<times> string) list \<Rightarrow> lister \<Rightarrow> lister" where
  "list_services w scope hide logs_app [] l = l"
| "list_services w scope hide logs_app (s # rest) l =
     (if allows_service scope (fst s) \<and> service_visible_on_mcp w scope (fst s)
      then let l1 = l\<lparr>ls_builtin := insert (fst s) (ls_builtin l)\<rparr>
           in if hide \<and> fst s \<noteq> SERVER_LOGS_TOOL_NAME
              then list_services w scope hide logs_app rest l1
              else let l2 = accept_descriptor (service_tool logs_app s) l1
                   in if finished (ls_tools l2) then l2
                      else list_services w scope hide logs_app rest l2
      else list_services w scope hide logs_app rest l)"

fun list_upstream_tools :: "mcp_tool list \<Rightarrow> lister \<Rightarrow> lister" where
  "list_upstream_tools [] l = l"
| "list_upstream_tools (t # ts) l =
     (if mt_name t \<in> ls_builtin l \<or> mt_name t \<in> ls_advertised l
      then list_upstream_tools ts l
      else let l1 = accept_descriptor (UpstreamTool t) l
           in if finished (ls_tools l1) then l1 else list_upstream_tools ts l1)"

fun list_subject_tools :: "(string \<times> mcp_tool list) list \<Rightarrow> lister \<Rightarrow> lister" where
  "list_subject_tools [] l = l"
| "list_subject_tools ((_, ts) # rest) l =
     (let l1 = list_upstream_tools ts l
      in if finished (ls_tools l1) then l1 else list_subject_tools rest l1)"

definition unless_finished :: "bool \<Rightarrow> (lister \<Rightarrow> lister) \<Rightarrow> lister \<Rightarrow> lister" where
  "unless_finished c f l = (if \<not> finished (ls_tools l) \<and> c then f l else l)"

definition list_code_mode :: "mcp_world \<Rightarrow> route_scope \<Rightarrow> lister \<Rightarrow> lister" where
  "list_code_mode w scope l =
     (let upstreams = code_mode_upstreams_for_description w scope;
          l1 = accept_descriptor (CodeModeTool upstreams) l;
          l2 = unless_finished (mw_app_enabled w) (accept_descriptor (CodeModeUiTool upstreams)) l1
      in unless_finished True (accept_descriptor McpAppTool) l2)"

definition list_pool ::
  "mcp_world \<Rightarrow> route_scope \<Rightarrow> bool \<Rightarrow> string option \<Rightarrow> catalog \<Rightarrow> lister \<Rightarrow> lister" where
  "list_pool w scope hide oauth_subject cat l =
     (let l1 = list_upstream_tools (pool_tools cat scope hide) l
      in if \<not> finished (ls_tools l1) \<and> \<not> hide
         then case oauth_subject of
                Some subject \<Rightarrow>
                  list_subject_tools (subject_scoped_tools w
                    (route_scoped_oauth_upstream_configs w scope) subject) l1
              | None \<Rightarrow> l1
         else l1)"

definition list_all_sources :: "mcp_world \<Rightarrow> route_scope \<Rightarrow> auth_context option \<Rightarrow> lister \<Rightarrow> lister" where
  "list_all_sources w scope auth l =
     (let visibility = code_mode_visibility w scope;
          hide = hides_raw_tools visibility;
          admin = admin_app_resources_visible auth;
          l1 = list_services w scope hide admin (mw_services w) l;
          l2 = unless_finished (exposes_synthetic_tools visibility \<and> tool_execute_scope_allowed auth)
                 (list_code_mode w scope) l1;
          l3 = unless_finished (admin \<and> add_server_app_available_on_mcp w scope)
                 (accept_descriptor AddServerTool) l2;
          l4 = unless_finished (admin \<and> gateway_status_app_available_on_mcp w scope)
                 (accept_descriptor GatewayStatusTool) l3
      in case current_upstream_pool w of
           None \<Rightarrow> l4
         | Some cat \<Rightarrow>
             unless_finished True
               (list_pool w scope hide
                 (oauth_upstream_subject_for_request auth (request_subject auth)) cat) l4)"

definition list_tools_impl ::
  "mcp_world \<Rightarrow> route_scope \<Rightarrow> auth_context option \<Rightarrow> string option
    \<Rightarrow> page_error + descriptor list \<times> string option" where
  "list_tools_impl w scope auth cursor =
     and_then (new_collector cursor) (\<lambda>c.
       finish (ls_tools (list_all_sources w scope auth
         \<lparr>ls_tools = c, ls_builtin = {}, ls_advertised = {}\<rparr>)))"

section \<open>Pages of a list\<close>

lemma accept_finished: "finished c \<Longrightarrow> fold accept ds c = c"
  by (induction ds) (simp_all add: accept_def)

lemma fold_accept_cut:
  "fold accept ds \<lparr>pg_start = s, pg_seen = 0, pg_page = [], pg_has_next = False\<rparr> =
     \<lparr>pg_start = s, pg_seen = min (length ds) (s + MCP_LIST_PAGE_SIZE + 1),
      pg_page = take MCP_LIST_PAGE_SIZE (drop s ds),
      pg_has_next = (s + MCP_LIST_PAGE_SIZE < length ds)\<rparr>"
proof (induction ds rule: rev_induct)
  case (snoc d ds)
  then show ?case
    by (auto simp: accept_def finished_def MCP_LIST_PAGE_SIZE_def min_def)
qed simp

definition page_of :: "'a list \<Rightarrow> string option \<Rightarrow> page_error + 'a list \<times> string option" where
  "page_of ds cursor =
     and_then (case cursor of Some c \<Rightarrow> parse_cursor c | None \<Rightarrow> Inr 0) (\<lambda>s.
       if length ds < s then Inl (InvalidCursor ''cursor is past the end of the result set'')
       else Inr (take MCP_LIST_PAGE_SIZE (drop s ds),
         if s + MCP_LIST_PAGE_SIZE < length ds then Some (show_nat (s + MCP_LIST_PAGE_SIZE)) else None))"

lemma collected_page: "and_then (new_collector cursor) (\<lambda>c. finish (fold accept ds c)) = page_of ds cursor"
proof -
  have "finish (fold accept ds \<lparr>pg_start = s, pg_seen = 0, pg_page = [], pg_has_next = False\<rparr>) =
      (if length ds < s then Inl (InvalidCursor ''cursor is past the end of the result set'')
       else Inr (take MCP_LIST_PAGE_SIZE (drop s ds),
         if s + MCP_LIST_PAGE_SIZE < length ds then Some (show_nat (s + MCP_LIST_PAGE_SIZE)) else None))"
    for s
    by (auto simp: fold_accept_cut finish_def min_def)
  then show ?thesis
    by (cases cursor) (auto simp: new_collector_def page_of_def and_then_def split: sum.splits)
qed

text \<open>Walking the pages: from no cursor, as long as a page names a next one.\<close>

fun walk_pages ::
  "(string option \<Rightarrow> page_error + 'a list \<times> string option) \<Rightarrow> nat \<Rightarrow> string option
    \<Rightarrow> (page_error + 'a list) option" where
  "walk_pages f 0 cursor = None"
| "walk_pages f (Suc n) cursor =
     (case f cursor of
        Inl e \<Rightarrow> Some (Inl e)
      | Inr (page, None) \<Rightarrow> Some (Inr page)
      | Inr (page, Some next) \<Rightarrow>
          map_option (map_sum id (\<lambda>rest. page @ rest)) (walk_pages f n (Some next)))"

lemma decimal_snoc: "decimal (s @ [c]) = 10 * decimal s + (byte c - 48)"
  by (simp add: decimal_def)

lemma show_nat_decimal: "decimal (show_nat n) = n \<and> list_all is_ascii_digit (show_nat n) \<and> show_nat n \<noteq> []"
proof (induction n rule: show_nat.induct)
  case (1 n)
  then show ?case
    by (cases "n < 10")
      (simp_all add: show_nat.simps [of n] decimal_snoc is_ascii_digit_def decimal_def [of "[_]"])
qed

lemma parse_show_nat:
  assumes "n < 2 ^ 64"
  shows "parse_usize (show_nat n) = Some n"
proof -
  have "strip_prefix ''+'' (show_nat n) = None"
    using show_nat_decimal [of n]
    by (cases "show_nat n") (auto simp: is_ascii_digit_def)
  then show ?thesis
    using show_nat_decimal [of n] assms by (simp add: parse_usize_def)
qed

lemma page_at:
  assumes "s < 2 ^ 64" "s \<le> length ds" "cursor = Some (show_nat s) \<or> (s = 0 \<and> cursor = None)"
  shows "page_of ds cursor =
     Inr (take MCP_LIST_PAGE_SIZE (drop s ds),
       if s + MCP_LIST_PAGE_SIZE < length ds then Some (show_nat (s + MCP_LIST_PAGE_SIZE)) else None)"
  using assms by (auto simp: page_of_def parse_cursor_def parse_show_nat ok_or_def)

lemma walk_from:
  assumes "length ds < 2 ^ 64"
  shows "length ds \<le> s + Suc n * MCP_LIST_PAGE_SIZE \<Longrightarrow> s \<le> length ds
    \<Longrightarrow> cursor = Some (show_nat s) \<or> (s = 0 \<and> cursor = None)
    \<Longrightarrow> walk_pages (page_of ds) (Suc n) cursor = Some (Inr (drop s ds))"
proof (induction n arbitrary: s cursor)
  case 0
  then show ?case using page_at [OF _ 0(2,3)] assms by simp
next
  case (Suc n)
  let ?s = "s + MCP_LIST_PAGE_SIZE"
  have page: "page_of ds cursor =
      Inr (take MCP_LIST_PAGE_SIZE (drop s ds), if ?s < length ds then Some (show_nat ?s) else None)"
    using page_at [OF _ Suc.prems(2,3)] Suc.prems(2) assms by simp
  show ?case
  proof (cases "?s < length ds")
    case True
    have "walk_pages (page_of ds) (Suc n) (Some (show_nat ?s)) = Some (Inr (drop ?s ds))"
      using Suc.IH [of ?s "Some (show_nat ?s)"] Suc.prems True by (simp add: algebra_simps)
    moreover have "take MCP_LIST_PAGE_SIZE (drop s ds) @ drop ?s ds = drop s ds"
      by (metis append_take_drop_id drop_drop add.commute)
    ultimately show ?thesis
      using page True by (subst walk_pages.simps) (simp del: walk_pages.simps)
  next
    case False
    then show ?thesis using page by simp
  qed
qed

section \<open>The handler lists the contract\<close>

text \<open>
  The handler's collector has accepted the descriptors the contract has so far, and as long as it
  is not finished the sets of names agree too.
\<close>

definition agrees :: "descriptor page_collector \<Rightarrow> builder \<Rightarrow> lister \<Rightarrow> bool" where
  "agrees c b l =
     (ls_tools l = fold accept (bd_descriptors b) c
      \<and> (\<not> finished (ls_tools l) \<longrightarrow> ls_builtin l = bd_builtin b \<and> ls_advertised l = bd_advertised b))"

definition grows :: "builder \<Rightarrow> builder \<Rightarrow> bool" where
  "grows b b' = prefix (bd_descriptors b) (bd_descriptors b')"

lemma grows_refl [simp]: "grows b b"
  by (simp add: grows_def)

lemma grows_trans: "grows a b \<Longrightarrow> grows b c \<Longrightarrow> grows a c"
  unfolding grows_def by (rule prefix_order.trans)

lemma grows_add: "grows b (add_descriptor d b')" if "grows b b'"
  using that by (auto simp: grows_def add_descriptor_def)

lemma grows_push:
  "grows b (push_service w pc hide s b)"
  "grows b (push_upstream_tool t b)"
  "grows b (push_code_mode w pc b)"
  by (auto simp: push_service_def push_upstream_tool_def push_code_mode_def Let_def
      intro!: grows_add) (simp_all add: grows_def)

lemma grows_fold: "(\<And>x b. grows b (f x b)) \<Longrightarrow> grows b (fold f xs b)"
  by (induction xs arbitrary: b) (auto intro: grows_trans)

lemma agrees_finished: "agrees c b l \<Longrightarrow> finished (ls_tools l) \<Longrightarrow> grows b b' \<Longrightarrow> agrees c b' l"
  by (auto simp: agrees_def grows_def prefix_def accept_finished)

lemma agrees_add: "agrees c b l \<Longrightarrow> agrees c (add_descriptor d b) (accept_descriptor d l)"
  by (auto simp: agrees_def add_descriptor_def accept_descriptor_def accept_def)

lemma agrees_when:
  assumes "agrees c b l" "\<And>b. grows b (f b)" "p \<Longrightarrow> \<not> finished (ls_tools l) \<Longrightarrow> agrees c (f b) (g l)"
  shows "agrees c (push_when p f b) (unless_finished p g l)"
  using assms agrees_finished [of c b l "f b"] by (auto simp: push_when_def unless_finished_def)

lemma agrees_when_add:
  "agrees c b l \<Longrightarrow> agrees c (push_when p (add_descriptor d) b) (unless_finished p (accept_descriptor d) l)"
  by (rule agrees_when) (simp_all add: grows_add agrees_add)

lemma grows_push_tools:
  "grows b (fold push_upstream_tool ts (fold push_upstream_tool us b))"
  by (rule grows_trans [OF grows_fold grows_fold]) (rule grows_push)+

lemma agrees_services:
  "agrees c b l \<Longrightarrow>
   agrees c (fold (push_service w pc hide) ss b)
     (list_services w (pc_route_scope pc) hide (au_admin_apps_visible (pc_audience pc)) ss l)"
proof (induction ss arbitrary: b l)
  case (Cons s ss)
  let ?b = "push_service w pc hide s b"
  have grows: "grows ?b (fold (push_service w pc hide) ss ?b)"
    by (intro grows_fold grows_push)
  consider "\<not> service_visible_on_mcp w (pc_route_scope pc) (fst s)"
    | "service_visible_on_mcp w (pc_route_scope pc) (fst s)" "hide \<and> fst s \<noteq> SERVER_LOGS_TOOL_NAME"
    | "service_visible_on_mcp w (pc_route_scope pc) (fst s)" "\<not> (hide \<and> fst s \<noteq> SERVER_LOGS_TOOL_NAME)"
    by blast
  then show ?case
  proof cases
    case 1
    then show ?thesis using Cons by (simp add: push_service_def)
  next
    case 2
    have "agrees c ?b (l\<lparr>ls_builtin := insert (fst s) (ls_builtin l)\<rparr>)"
      using Cons.prems 2 by (auto simp: agrees_def push_service_def)
    then show ?thesis
      using Cons.IH 2 by (simp add: service_visible_on_mcp_def push_service_def)
  next
    case 3
    let ?l = "accept_descriptor (service_tool (au_admin_apps_visible (pc_audience pc)) s)
      (l\<lparr>ls_builtin := insert (fst s) (ls_builtin l)\<rparr>)"
    have "agrees c (b\<lparr>bd_builtin := insert (fst s) (bd_builtin b)\<rparr>)
        (l\<lparr>ls_builtin := insert (fst s) (ls_builtin l)\<rparr>)"
      using Cons.prems by (auto simp: agrees_def)
    then have "agrees c ?b ?l"
      using 3 by (auto simp: push_service_def intro: agrees_add)
    then show ?thesis
      using Cons.IH [of ?b ?l] agrees_finished [OF _ _ grows] 3
      by (auto simp: service_visible_on_mcp_def Let_def)
  qed
qed simp

lemma agrees_upstream_tools:
  "agrees c b l \<Longrightarrow> \<not> finished (ls_tools l)
    \<Longrightarrow> agrees c (fold push_upstream_tool ts b) (list_upstream_tools ts l)"
proof (induction ts arbitrary: b l)
  case (Cons t ts)
  have sets: "ls_builtin l = bd_builtin b" "ls_advertised l = bd_advertised b"
    using Cons.prems by (simp_all add: agrees_def)
  have grows: "grows (push_upstream_tool t b) (fold push_upstream_tool ts (push_upstream_tool t b))"
    by (intro grows_fold grows_push)
  have "agrees c (add_descriptor (UpstreamTool t) b) (accept_descriptor (UpstreamTool t) l)"
    by (rule agrees_add) (rule Cons.prems)
  then have "agrees c (push_upstream_tool t b) (accept_descriptor (UpstreamTool t) l)"
    if "\<not> (mt_name t \<in> bd_builtin b \<or> mt_name t \<in> bd_advertised b)"
    using that by (auto simp: push_upstream_tool_def)
  moreover have "push_upstream_tool t b = b" if "mt_name t \<in> bd_builtin b \<or> mt_name t \<in> bd_advertised b"
    using that by (auto simp: push_upstream_tool_def)
  ultimately show ?case
    using Cons.IH Cons.prems agrees_finished [OF _ _ grows] sets by (auto simp: Let_def)
qed simp

lemma agrees_subject_tools:
  "agrees c b l \<Longrightarrow> \<not> finished (ls_tools l)
    \<Longrightarrow> agrees c (fold push_upstream_tool (concat (map snd found)) b) (list_subject_tools found l)"
proof (induction found arbitrary: b l)
  case (Cons f found)
  obtain n ts where f: "f = (n, ts)" by (cases f)
  let ?b = "fold push_upstream_tool ts b" and ?l = "list_upstream_tools ts l"
  have "agrees c ?b ?l" by (rule agrees_upstream_tools [OF Cons.prems])
  moreover have "grows ?b (fold push_upstream_tool (concat (map snd found)) ?b)"
    by (intro grows_fold grows_push)
  ultimately show ?case
    using Cons.IH [of ?b ?l] agrees_finished by (auto simp: f Let_def)
qed simp

lemma agrees_code_mode:
  "agrees c b l \<Longrightarrow> agrees c (push_code_mode w pc b) (list_code_mode w (pc_route_scope pc) l)"
proof -
  assume start: "agrees c b l"
  let ?us = "code_mode_upstreams_for_description w (pc_route_scope pc)"
  let ?b1 = "add_descriptor (CodeModeTool ?us) b" and ?l1 = "accept_descriptor (CodeModeTool ?us) l"
  let ?b2 = "push_when (mw_app_enabled w) (add_descriptor (CodeModeUiTool ?us)) ?b1"
  let ?l2 = "unless_finished (mw_app_enabled w) (accept_descriptor (CodeModeUiTool ?us)) ?l1"
  have "agrees c ?b1 ?l1" by (rule agrees_add [OF start])
  then have "agrees c ?b2 ?l2" by (rule agrees_when_add)
  then have "agrees c (push_when True (add_descriptor McpAppTool) ?b2)
      (unless_finished True (accept_descriptor McpAppTool) ?l2)"
    by (rule agrees_when_add)
  then show ?thesis by (simp add: push_code_mode_def list_code_mode_def Let_def push_when_def)
qed

lemma agrees_pool:
  assumes "agrees c b l" "\<not> finished (ls_tools l)"
  shows "agrees c (fold push_upstream_tool (subject_tools w pc hide)
        (fold push_upstream_tool (pool_tools cat (pc_route_scope pc) hide) b))
      (list_pool w (pc_route_scope pc) hide (au_oauth_subject (pc_audience pc)) cat l)"
proof -
  let ?b = "fold push_upstream_tool (pool_tools cat (pc_route_scope pc) hide) b"
  let ?l = "list_upstream_tools (pool_tools cat (pc_route_scope pc) hide) l"
  have "agrees c ?b ?l" by (rule agrees_upstream_tools [OF assms])
  moreover have "grows ?b (fold push_upstream_tool (subject_tools w pc hide) ?b)"
    by (intro grows_fold grows_push)
  ultimately show ?thesis
    using agrees_finished [of c ?b ?l] agrees_subject_tools [of c ?b ?l]
    by (auto simp: list_pool_def subject_tools_def Let_def split: option.splits)
qed

lemma agrees_all_sources:
  fixes c :: "descriptor page_collector"
  assumes "\<not> finished c"
  shows "agrees c (visible_builder w (peer_contract_for_request scope auth))
     (list_all_sources w scope auth \<lparr>ls_tools = c, ls_builtin = {}, ls_advertised = {}\<rparr>)"
proof -
  define pc where "pc = peer_contract_for_request scope auth"
  have pc [simp]: "pc_route_scope pc = scope"
    "au_admin_apps_visible (pc_audience pc) = admin_app_resources_visible auth"
    "au_code_mode_execute_allowed (pc_audience pc) = tool_execute_scope_allowed auth"
    "au_oauth_subject (pc_audience pc) = oauth_upstream_subject_for_request auth (request_subject auth)"
    by (simp_all add: pc_def peer_contract_for_request_def)
  define hide where "hide = hides_raw_tools (code_mode_visibility w scope)"
  define b4 where "b4 =
    push_when (admin_app_resources_visible auth \<and> gateway_status_app_available w scope)
      (add_descriptor GatewayStatusTool)
      (push_when (admin_app_resources_visible auth \<and> add_server_app_available w scope)
        (add_descriptor AddServerTool)
        (push_when (exposes_synthetic_tools (code_mode_visibility w scope) \<and> tool_execute_scope_allowed auth)
          (push_code_mode w pc)
          (fold (push_service w pc hide) (mw_services w)
            \<lparr>bd_descriptors = [], bd_builtin = {}, bd_advertised = {}\<rparr>)))"
  define l4 where "l4 =
    unless_finished (admin_app_resources_visible auth \<and> gateway_status_app_available w scope)
      (accept_descriptor GatewayStatusTool)
      (unless_finished (admin_app_resources_visible auth \<and> add_server_app_available w scope)
        (accept_descriptor AddServerTool)
        (unless_finished (exposes_synthetic_tools (code_mode_visibility w scope) \<and> tool_execute_scope_allowed auth)
          (list_code_mode w scope)
          (list_services w scope hide (admin_app_resources_visible auth) (mw_services w)
            \<lparr>ls_tools = c, ls_builtin = {}, ls_advertised = {}\<rparr>)))"
  have "agrees c \<lparr>bd_descriptors = [], bd_builtin = {}, bd_advertised = {}\<rparr>
      \<lparr>ls_tools = c, ls_builtin = {}, ls_advertised = {}\<rparr>"
    by (simp add: agrees_def)
  from agrees_services [OF this, of w pc hide "mw_services w"]
  have "agrees c b4 l4"
    unfolding b4_def l4_def pc
    by (intro agrees_when_add agrees_when grows_push) (use agrees_code_mode [of c _ _ w pc] in simp_all)
  then have "agrees c
      (case current_upstream_pool w of None \<Rightarrow> b4
       | Some cat \<Rightarrow> push_when True (\<lambda>b. fold push_upstream_tool (subject_tools w pc hide)
           (fold push_upstream_tool (pool_tools cat scope hide) b)) b4)
      (case current_upstream_pool w of None \<Rightarrow> l4
       | Some cat \<Rightarrow> unless_finished True (list_pool w scope hide
           (oauth_upstream_subject_for_request auth (request_subject auth)) cat) l4)"
    using agrees_pool [of c b4 l4 w pc hide]
    by (auto split: option.split intro!: agrees_when grows_push_tools)
  then show ?thesis
    unfolding pc_def [symmetric] visible_builder_def list_all_sources_def Let_def pc apps_available_on_mcp
      push_when_def [of True] if_True b4_def l4_def hide_def .
qed

lemma list_tools_page:
  "list_tools_impl w scope auth cursor =
     page_of (visible_tool_descriptors w (peer_contract_for_request scope auth)) cursor"
proof -
  have "\<not> finished c" if "new_collector cursor = Inr c" for c :: "descriptor page_collector"
    using that by (auto simp: new_collector_def finished_def labby_res)
  from agrees_all_sources [OF this] show ?thesis
    unfolding collected_page [symmetric] list_tools_impl_def visible_tool_descriptors_def
    by (cases "new_collector cursor :: page_error + descriptor page_collector") (simp_all add: agrees_def)
qed

end
