(* ===== verification/Mcp_Theorems.thy ===== *)
theory Mcp_Theorems
  imports Mcp_Tools
begin

text \<open>
  What a session is shown: every descriptor has a reason in the route's scope and the caller's
  audience, tools of upstreams never take the name of something else, and the pages of
  \<open>tools/list\<close> together are the contract the notifications are computed from.
\<close>

section \<open>Why a descriptor is shown\<close>

definition described_upstreams_ok :: "mcp_world \<Rightarrow> route_scope \<Rightarrow> code_mode_upstream list \<Rightarrow> bool" where
  "described_upstreams_ok w scope us =
     (\<forall>c \<in> set us. allows_upstream scope (cu_name c)
        \<and> (\<exists>cfg. mw_gateway w = Some cfg
             \<and> (\<exists>u \<in> set (gc_upstream cfg). up_enabled u \<and> up_name u = cu_name c)))"

text \<open>A tool of the pool: exposed by a routable upstream of the route.\<close>

definition pooled :: "mcp_world \<Rightarrow> route_scope \<Rightarrow> mcp_tool \<Rightarrow> bool" where
  "pooled w scope t =
     (\<exists>cat n e ut. current_upstream_pool w = Some cat \<and> (n, e) \<in> set cat \<and> allows_upstream scope n
        \<and> is_routable (ue_tool_health e) \<and> ut \<in> set (exposed_tools e) \<and> ut_tool ut = t
        \<and> (hides_raw_tools (code_mode_visibility w scope) \<longrightarrow>
             ue_proxy_resources e \<and> tool_is_mcp_app_host_visible ut))"

text \<open>A tool listed by a connection that acts for the caller's subject.\<close>

definition subject_listed :: "mcp_world \<Rightarrow> peer_contract \<Rightarrow> mcp_tool \<Rightarrow> bool" where
  "subject_listed w pc t =
     (\<exists>cfg u subject ts. mw_gateway w = Some cfg \<and> u \<in> set (gc_upstream cfg) \<and> up_oauth u \<noteq> None
        \<and> allows_upstream (pc_route_scope pc) (up_name u)
        \<and> \<not> hides_raw_tools (code_mode_visibility w (pc_route_scope pc))
        \<and> au_oauth_subject (pc_audience pc) = Some subject
        \<and> mw_acquire w u subject = Some ts \<and> t \<in> set ts)"

fun shown_for_a_reason :: "mcp_world \<Rightarrow> peer_contract \<Rightarrow> descriptor \<Rightarrow> bool" where
  "shown_for_a_reason w pc (ServiceTool n desc app) =
     ((n, desc) \<in> set (mw_services w) \<and> service_visible_on_mcp w (pc_route_scope pc) n
      \<and> (hides_raw_tools (code_mode_visibility w (pc_route_scope pc)) \<longrightarrow> n = SERVER_LOGS_TOOL_NAME)
      \<and> (app \<longrightarrow> au_admin_apps_visible (pc_audience pc)))"
| "shown_for_a_reason w pc (CodeModeTool us) =
     (exposes_code_mode (pc_route_scope pc) \<and> au_code_mode_execute_allowed (pc_audience pc)
      \<and> described_upstreams_ok w (pc_route_scope pc) us)"
| "shown_for_a_reason w pc (CodeModeUiTool us) =
     (exposes_code_mode (pc_route_scope pc) \<and> au_code_mode_execute_allowed (pc_audience pc)
      \<and> mw_app_enabled w \<and> described_upstreams_ok w (pc_route_scope pc) us)"
| "shown_for_a_reason w pc McpAppTool =
     (exposes_code_mode (pc_route_scope pc) \<and> au_code_mode_execute_allowed (pc_audience pc))"
| "shown_for_a_reason w pc AddServerTool =
     (au_admin_apps_visible (pc_audience pc) \<and> service_visible_on_mcp w (pc_route_scope pc) ''gateway'')"
| "shown_for_a_reason w pc GatewayStatusTool =
     (au_admin_apps_visible (pc_audience pc) \<and> service_visible_on_mcp w (pc_route_scope pc) ''gateway'')"
| "shown_for_a_reason w pc (UpstreamTool t) = (pooled w (pc_route_scope pc) t \<or> subject_listed w pc t)"

abbreviation reasonable :: "mcp_world \<Rightarrow> peer_contract \<Rightarrow> builder \<Rightarrow> bool" where
  "reasonable w pc b \<equiv> list_all (shown_for_a_reason w pc) (bd_descriptors b)"

lemma reasonable_add:
  "reasonable w pc (add_descriptor d b) \<longleftrightarrow> reasonable w pc b \<and> shown_for_a_reason w pc d"
  by (simp add: add_descriptor_def)

lemma reasonable_fold:
  assumes "\<And>x b. x \<in> set xs \<Longrightarrow> reasonable w pc b \<Longrightarrow> reasonable w pc (f x b)" "reasonable w pc b"
  shows "reasonable w pc (fold f xs b)"
  using assms by (induction xs arbitrary: b) simp_all

lemma reasonable_services:
  assumes "reasonable w pc b" "s \<in> set (mw_services w)"
  shows "reasonable w pc (push_service w pc (hides_raw_tools (code_mode_visibility w (pc_route_scope pc))) s b)"
  using assms by (cases s) (auto simp: push_service_def Let_def reasonable_add service_tool_def)

lemma dedup_names_subset: "set (dedup_names xs) \<subseteq> set xs"
  by (induction xs rule: dedup_names.induct) auto

lemma described_ok: "described_upstreams_ok w scope (code_mode_upstreams_for_description w scope)"
proof (cases "mw_gateway w")
  case (Some cfg)
  have "c \<in> set xs" if "c \<in> set (dedup_names (sort_key cu_name xs))" for c xs
    using that dedup_names_subset [of "sort_key cu_name xs"] by auto
  then show ?thesis
    using Some by (fastforce simp: described_upstreams_ok_def code_mode_upstreams_for_description_def)
qed (simp add: described_upstreams_ok_def code_mode_upstreams_for_description_def)

lemma synthetic_exposed:
  "exposes_synthetic_tools (code_mode_visibility w scope) \<Longrightarrow> exposes_code_mode scope"
  by (auto simp: code_mode_visibility_def exposes_synthetic_tools_def split: if_splits)

lemma reasonable_code_mode:
  assumes "reasonable w pc b" "exposes_synthetic_tools (code_mode_visibility w (pc_route_scope pc))"
    "au_code_mode_execute_allowed (pc_audience pc)"
  shows "reasonable w pc (push_code_mode w pc b)"
  using assms described_ok synthetic_exposed
  by (simp add: push_code_mode_def Let_def reasonable_add)

lemma cap_tools_subset: "set (cap_tools xs) \<subseteq> set xs"
  by (auto simp: cap_tools_def Let_def dest: in_set_takeD split: if_splits)

lemma pool_tools_pooled:
  assumes "current_upstream_pool w = Some cat"
    "t \<in> set (pool_tools cat scope (hides_raw_tools (code_mode_visibility w scope)))"
  shows "pooled w scope t"
  using assms subsetD [OF cap_tools_subset]
  by (fastforce simp: pool_tools_def pooled_def healthy_tools_allowed_def healthy_ui_tools_allowed_def
      upstream_allowed_scope split: if_splits)

lemma subject_scoped_tools_mem:
  assumes "\<And>cs. set (mw_completion w cs) = set cs"
  shows "(n, ts) \<in> set (subject_scoped_tools w configs subject) \<longleftrightarrow>
    (\<exists>u \<in> set configs. up_oauth u \<noteq> None \<and> up_name u = n \<and> mw_acquire w u subject = Some ts)"
  unfolding subject_scoped_tools_def by (force simp: assms map_filter_mem)

lemma route_scoped_mem:
  "u \<in> set (route_scoped_oauth_upstream_configs w scope) \<longleftrightarrow>
     (\<exists>cfg. mw_gateway w = Some cfg \<and> u \<in> set (gc_upstream cfg) \<and> up_oauth u \<noteq> None
        \<and> allows_upstream scope (up_name u))"
  by (cases "mw_gateway w") (auto simp: route_scoped_oauth_upstream_configs_def oauth_upstream_configs_def)

lemma subject_tools_listed:
  assumes "\<And>cs. set (mw_completion w cs) = set cs"
  shows "t \<in> set (subject_tools w pc (hides_raw_tools (code_mode_visibility w (pc_route_scope pc))))
    \<longleftrightarrow> subject_listed w pc t"
proof (cases "au_oauth_subject (pc_audience pc)")
  case (Some subject)
  have "t \<in> set (concat (map snd (subject_scoped_tools w configs subject))) \<longleftrightarrow>
      (\<exists>u \<in> set configs. up_oauth u \<noteq> None \<and> (\<exists>ts. mw_acquire w u subject = Some ts \<and> t \<in> set ts))"
    for configs
  proof -
    have "t \<in> set (concat (map snd (subject_scoped_tools w configs subject))) \<longleftrightarrow>
        (\<exists>n ts. (n, ts) \<in> set (subject_scoped_tools w configs subject) \<and> t \<in> set ts)"
      by force
    then show ?thesis unfolding subject_scoped_tools_mem [OF assms] by blast
  qed
  then show ?thesis
    using Some unfolding subject_tools_def subject_listed_def
    by (auto simp del: set_concat set_map simp: route_scoped_mem) blast+
qed (simp add: subject_tools_def subject_listed_def)

lemma reasonable_upstream_tools:
  assumes "reasonable w pc b" "\<And>t. t \<in> set ts \<Longrightarrow> shown_for_a_reason w pc (UpstreamTool t)"
  shows "reasonable w pc (fold push_upstream_tool ts b)"
  using assms by (intro reasonable_fold) (auto simp: push_upstream_tool_def reasonable_add)

definition own_builder :: "mcp_world \<Rightarrow> peer_contract \<Rightarrow> builder" where
  "own_builder w pc =
     (let scope = pc_route_scope pc; au = pc_audience pc;
          visibility = code_mode_visibility w scope;
          b1 = fold (push_service w pc (hides_raw_tools visibility)) (mw_services w)
                 \<lparr>bd_descriptors = [], bd_builtin = {}, bd_advertised = {}\<rparr>;
          b2 = push_when (exposes_synthetic_tools visibility \<and> au_code_mode_execute_allowed au)
                 (push_code_mode w pc) b1;
          b3 = push_when (au_admin_apps_visible au \<and> add_server_app_available w scope)
                 (add_descriptor AddServerTool) b2
      in push_when (au_admin_apps_visible au \<and> gateway_status_app_available w scope)
           (add_descriptor GatewayStatusTool) b3)"

definition offered_tools :: "mcp_world \<Rightarrow> peer_contract \<Rightarrow> mcp_tool list" where
  "offered_tools w pc =
     (let hide = hides_raw_tools (code_mode_visibility w (pc_route_scope pc))
      in case current_upstream_pool w of
           None \<Rightarrow> []
         | Some cat \<Rightarrow> pool_tools cat (pc_route_scope pc) hide @ subject_tools w pc hide)"

lemma visible_builder_split:
  "visible_builder w pc = fold push_upstream_tool (offered_tools w pc) (own_builder w pc)"
  by (simp add: visible_builder_def offered_tools_def own_builder_def Let_def split: option.split)

lemma own_reasonable: "reasonable w pc (own_builder w pc)"
proof -
  let ?vis = "code_mode_visibility w (pc_route_scope pc)" and ?au = "pc_audience pc"
  define b1 where "b1 = fold (push_service w pc (hides_raw_tools ?vis)) (mw_services w)
    \<lparr>bd_descriptors = [], bd_builtin = {}, bd_advertised = {}\<rparr>"
  have "reasonable w pc b1"
    unfolding b1_def by (rule reasonable_fold) (auto intro: reasonable_services)
  then have "reasonable w pc (push_when (exposes_synthetic_tools ?vis \<and> au_code_mode_execute_allowed ?au)
      (push_code_mode w pc) b1)"
    by (auto simp: push_when_def intro: reasonable_code_mode)
  then show ?thesis
    by (auto simp: own_builder_def Let_def push_when_def reasonable_add add_server_app_available_def
        gateway_status_app_available_def simp flip: b1_def)
qed

lemma offered_reason:
  assumes "\<And>cs. set (mw_completion w cs) = set cs" "t \<in> set (offered_tools w pc)"
  shows "shown_for_a_reason w pc (UpstreamTool t)"
proof -
  obtain cat where cat: "current_upstream_pool w = Some cat"
    using assms(2) by (cases "current_upstream_pool w") (auto simp: offered_tools_def)
  then show ?thesis
    using assms(2) pool_tools_pooled [OF cat] subject_tools_listed [OF assms(1)]
    by (auto simp: offered_tools_def Let_def)
qed

section \<open>Names of upstream tools\<close>

definition from_upstream :: "descriptor \<Rightarrow> bool" where
  "from_upstream d = (\<exists>t. d = UpstreamTool t)"

definition same_name :: "builder \<Rightarrow> string \<Rightarrow> descriptor list" where
  "same_name b n = filter (\<lambda>d. descriptor_name d = n) (bd_descriptors b)"

definition names_ok :: "builder \<Rightarrow> bool" where
  "names_ok b =
     (bd_advertised b = descriptor_name ` set (bd_descriptors b)
      \<and> (\<forall>t. UpstreamTool t \<in> set (bd_descriptors b) \<longrightarrow>
           mt_name t \<notin> bd_builtin b \<and> same_name b (mt_name t) = [UpstreamTool t]))"

lemma same_name_empty: "names_ok b \<Longrightarrow> n \<notin> bd_advertised b \<Longrightarrow> same_name b n = []"
  by (auto simp: names_ok_def same_name_def filter_empty_conv)

lemma names_ok_push: "names_ok b \<Longrightarrow> names_ok (push_upstream_tool t b)"
  using same_name_empty [of b "mt_name t"]
  by (auto simp: push_upstream_tool_def names_ok_def add_descriptor_def same_name_def)

lemma names_ok_fold: "names_ok b \<Longrightarrow> names_ok (fold push_upstream_tool ts b)"
  by (induction ts arbitrary: b) (simp_all add: names_ok_push)

text \<open>The part before the upstreams has none of their tools.\<close>

definition own_part :: "builder \<Rightarrow> bool" where
  "own_part b =
     (bd_advertised b = descriptor_name ` set (bd_descriptors b)
      \<and> (\<forall>t. UpstreamTool t \<notin> set (bd_descriptors b)))"

lemma own_part_add: "own_part b \<Longrightarrow> \<not> from_upstream d \<Longrightarrow> own_part (add_descriptor d b)"
  by (auto simp: own_part_def add_descriptor_def from_upstream_def)

lemma own_part_services:
  "own_part b \<Longrightarrow> own_part (fold (push_service w pc hide) ss b)
     \<and> bd_builtin (fold (push_service w pc hide) ss b) =
         bd_builtin b \<union> {n \<in> fst ` set ss. service_visible_on_mcp w (pc_route_scope pc) n}"
proof (induction ss arbitrary: b)
  case (Cons s ss)
  have "own_part (push_service w pc hide s b)"
    using Cons.prems own_part_add [of "b\<lparr>bd_builtin := insert (fst s) (bd_builtin b)\<rparr>"]
    by (auto simp: push_service_def Let_def service_tool_def from_upstream_def own_part_def)
  moreover have "bd_builtin (push_service w pc hide s b) =
      bd_builtin b \<union> {n. n = fst s \<and> service_visible_on_mcp w (pc_route_scope pc) n}"
    by (auto simp: push_service_def Let_def add_descriptor_def)
  ultimately show ?case
    using Cons.IH [of "push_service w pc hide s b"] by auto
qed simp

lemma own_builder_names:
  "own_part (own_builder w pc)"
  "bd_builtin (own_builder w pc) =
     {n \<in> fst ` set (mw_services w). service_visible_on_mcp w (pc_route_scope pc) n}"
proof -
  define b1 where "b1 = fold (push_service w pc
      (hides_raw_tools (code_mode_visibility w (pc_route_scope pc)))) (mw_services w)
    \<lparr>bd_descriptors = [], bd_builtin = {}, bd_advertised = {}\<rparr>"
  have b1: "own_part b1" "bd_builtin b1 =
      {n \<in> fst ` set (mw_services w). service_visible_on_mcp w (pc_route_scope pc) n}"
    using own_part_services [of "\<lparr>bd_descriptors = [], bd_builtin = {}, bd_advertised = {}\<rparr>" w pc
        "hides_raw_tools (code_mode_visibility w (pc_route_scope pc))" "mw_services w"]
    by (simp_all add: own_part_def b1_def)
  show "own_part (own_builder w pc)"
    using b1 by (auto simp: own_builder_def Let_def push_when_def push_code_mode_def from_upstream_def
        intro!: own_part_add simp flip: b1_def)
  show "bd_builtin (own_builder w pc) =
     {n \<in> fst ` set (mw_services w). service_visible_on_mcp w (pc_route_scope pc) n}"
    using b1(2) by (simp add: own_builder_def Let_def push_when_def push_code_mode_def add_descriptor_def
        flip: b1_def)
qed

lemma builtin_kept [simp]:
  "bd_builtin (fold push_upstream_tool ts b) = bd_builtin b"
  by (induction ts arbitrary: b) (simp_all add: push_upstream_tool_def add_descriptor_def)

lemma visible_names_ok: "names_ok (visible_builder w pc)"
  unfolding visible_builder_split using own_builder_names(1) [of w pc]
  by (intro names_ok_fold) (auto simp: own_part_def names_ok_def)

section \<open>The properties\<close>

lemma visible_reasonable:
  assumes "\<And>cs. set (mw_completion w cs) = set cs"
  shows "reasonable w pc (visible_builder w pc)"
  unfolding visible_builder_split
  by (rule reasonable_upstream_tools [OF own_reasonable offered_reason [OF assms]])

lemma page_subset: "page_of ds cursor = Inr (page, next) \<Longrightarrow> set page \<subseteq> set ds"
  by (auto simp: page_of_def labby_res split: if_splits dest!: in_set_takeD in_set_dropD)


text \<open>
  C22. Whatever page of \<open>tools/list\<close> a caller asks for, every tool on it is there for a reason: a
  service the route allows and the gateway publishes, a Code Mode tool on a route that exposes it
  to a caller that may execute and describing only upstreams of the route, an administration app
  for an administrator, or a tool of an upstream of the route, exposed by a routable pool entry or
  listed by a connection acting for the caller. A tool of an upstream never has the name of a
  service visible on the route or of any other listed tool.
\<close>

theorem listed_tools_in_scope:
  assumes listed: "list_tools_impl w scope auth cursor = Inr (page, next)" "d \<in> set page"
    and completes: "\<And>cs. set (mw_completion w cs) = set cs"
  shows "shown_for_a_reason w (peer_contract_for_request scope auth) d
    \<and> (from_upstream d \<longrightarrow>
        (\<forall>s \<in> set (mw_services w). service_visible_on_mcp w scope (fst s) \<longrightarrow> fst s \<noteq> descriptor_name d)
        \<and> filter (\<lambda>e. descriptor_name e = descriptor_name d)
            (visible_tool_descriptors w (peer_contract_for_request scope auth)) = [d])"
proof -
  let ?pc = "peer_contract_for_request scope auth"
  have pc: "pc_route_scope ?pc = scope" by (simp add: peer_contract_for_request_def)
  have d: "d \<in> set (bd_descriptors (visible_builder w ?pc))"
    using listed page_subset unfolding list_tools_page visible_tool_descriptors_def by (blast dest: subsetD)
  then have "shown_for_a_reason w ?pc d"
    using visible_reasonable [OF completes] by (auto simp: list_all_iff)
  moreover have "fst s \<in> bd_builtin (visible_builder w ?pc)"
    if "s \<in> set (mw_services w)" "service_visible_on_mcp w scope (fst s)" for s
    using that by (simp add: visible_builder_split own_builder_names(2) pc)
  moreover have "descriptor_name d \<notin> bd_builtin (visible_builder w ?pc)
      \<and> filter (\<lambda>e. descriptor_name e = descriptor_name d)
            (visible_tool_descriptors w ?pc) = [d]" if "from_upstream d"
    using visible_names_ok [of w ?pc] d that
    by (auto simp: names_ok_def same_name_def from_upstream_def visible_tool_descriptors_def)
  ultimately show ?thesis by metis
qed

lemma pushed_name:
  "names_ok b \<Longrightarrow> t \<in> set ts \<Longrightarrow> mt_name t \<in> bd_builtin b \<or>
     mt_name t \<in> bd_advertised (fold push_upstream_tool ts b)"
proof (induction ts arbitrary: b)
  case (Cons x ts)
  have keep: "n \<in> bd_advertised (fold push_upstream_tool ts b)" if "n \<in> bd_advertised b" for n b
    using that by (induction ts arbitrary: b) (simp_all add: push_upstream_tool_def add_descriptor_def)
  show ?case
  proof (cases "t = x")
    case True
    have "mt_name x \<in> bd_builtin b \<or> mt_name x \<in> bd_advertised (push_upstream_tool x b)"
      by (simp add: push_upstream_tool_def add_descriptor_def)
    then show ?thesis
      using True keep [of "mt_name x" "push_upstream_tool x b"] by auto
  next
    case False
    moreover have "bd_builtin (push_upstream_tool x b) = bd_builtin b"
      by (simp add: push_upstream_tool_def add_descriptor_def)
    ultimately show ?thesis
      using Cons.IH [of "push_upstream_tool x b"] Cons.prems names_ok_push by auto
  qed
qed simp

text \<open>
  C23. On a route without Code Mode, every tool a connection to an OAuth upstream lists for the
  caller's subject is shown under its name, whatever the exposure list of the upstream says and
  whether or not the upstream is enabled: the listing does not look at either.
\<close>

theorem subject_tools_unfiltered:
  assumes "mw_gateway w = Some cfg" "mw_pool w = Some cat" "u \<in> set (gc_upstream cfg)"
    "up_oauth u \<noteq> None" "allows_upstream scope (up_name u)" "code_mode_visibility w scope = Raw"
    "oauth_upstream_subject_for_request auth (request_subject auth) = Some subject"
    "mw_acquire w u subject = Some ts" "t \<in> set ts" "mt_name t \<notin> fst ` set (mw_services w)"
    and completes: "\<And>cs. set (mw_completion w cs) = set cs"
  shows "mt_name t \<in> descriptor_name `
    set (visible_tool_descriptors w (peer_contract_for_request scope auth))"
proof -
  let ?pc = "peer_contract_for_request scope auth"
  have pc: "pc_route_scope ?pc = scope" "au_oauth_subject (pc_audience ?pc) = Some subject"
    using assms(7) by (simp_all add: peer_contract_for_request_def)
  have "subject_listed w ?pc t"
    unfolding subject_listed_def pc hides_raw_tools_def assms(6) using assms(1,3-5,8,9) by blast
  then have "t \<in> set (offered_tools w ?pc)"
    using assms(1,2) subject_tools_listed [OF completes, of t ?pc]
    by (simp add: offered_tools_def current_upstream_pool_def Let_def)
  moreover have "names_ok (own_builder w ?pc)"
    using own_builder_names(1) [of w ?pc] by (auto simp: own_part_def names_ok_def)
  ultimately have "mt_name t \<in> bd_advertised (visible_builder w ?pc)"
    using pushed_name [of "own_builder w ?pc" t] assms(10)
    by (auto simp: visible_builder_split own_builder_names(2))
  then show ?thesis
    using visible_names_ok [of w ?pc] by (simp add: names_ok_def visible_tool_descriptors_def)
qed

section \<open>Instances\<close>

text \<open>A disabled OAuth upstream that is to expose only its search tool.\<close>

definition demo_oauth :: upstream_config where
  "demo_oauth = (demo_stdio ''docs'' ''npx'')\<lparr>up_enabled := False, up_command := None,
     up_url := Some ''https://docs.example/mcp'', up_expose_tools := Some [''search''],
     up_oauth := Some \<lparr>uo_mode = AuthorizationCodePkce, uo_registration = Dynamic, uo_scopes = None,
       uo_credential = Dedicated, uo_prefer_client_metadata_document = None\<rparr>\<rparr>"

definition demo_delete :: mcp_tool where
  "demo_delete = \<lparr>mt_name = ''delete'', mt_description = None, mt_meta = None\<rparr>"

definition demo_world :: mcp_world where
  "demo_world =
     \<lparr>mw_services = [(''gateway'', ''Gateway''), (''server_logs'', ''Logs'')],
      mw_gateway = Some (demo_gw_config [demo_oauth]), mw_service_meta = (\<lambda>_. False),
      mw_pool = Some [], mw_process_code_mode = False, mw_app_enabled = True,
      mw_acquire = (\<lambda>_ _. Some [demo_delete]), mw_completion = id\<rparr>"

lemma demo_world_fields [simp]:
  "mw_services demo_world = [(''gateway'', ''Gateway''), (''server_logs'', ''Logs'')]"
  "mw_gateway demo_world = Some (demo_gw_config [demo_oauth])" "mw_pool demo_world = Some []"
  "mw_acquire demo_world u s = Some [demo_delete]" "mw_completion demo_world cs = cs"
  by (simp_all add: demo_world_def)

lemma demo_raw: "code_mode_visibility demo_world Root = Raw"
  by (simp add: code_mode_visibility_def code_mode_enabled_def demo_gw_config_def
      default_gateway_config_def default_code_mode_def)

lemma demo_audience:
  "peer_contract_for_request Root None =
     \<lparr>pc_route_scope = Root,
      pc_audience = \<lparr>au_code_mode_execute_allowed = True, au_admin_apps_visible = True,
        au_oauth_subject = Some SHARED_GATEWAY_OAUTH_SUBJECT\<rparr>\<rparr>"
  by (simp add: peer_contract_for_request_def tool_execute_scope_allowed_def
      admin_app_resources_visible_def oauth_upstream_subject_for_request_def)

lemma demo_services: "service_visible_on_mcp demo_world Root s" "action_allowed_on_mcp demo_world s a"
  by (simp_all add: service_visible_on_mcp_def surface_enabled_for_service_def demo_world_def
      action_allowed_on_mcp_def mcp_action_allowed_for_service_def find_virtual_server_for_service_def
      demo_gw_config_def default_gateway_config_def)

lemma demo_offered: "offered_tools demo_world (peer_contract_for_request Root None) = [demo_delete]"
  by (simp add: offered_tools_def current_upstream_pool_def demo_audience demo_raw hides_raw_tools_def
      pool_tools_def healthy_tools_allowed_def cap_tools_def subject_tools_def subject_scoped_tools_def
      route_scoped_oauth_upstream_configs_def oauth_upstream_configs_def List.map_filter_def
      demo_gw_config_def demo_oauth_def)

lemma demo_visible:
  "visible_tool_descriptors demo_world (peer_contract_for_request Root None) =
     [ServiceTool ''gateway'' ''Gateway'' False, ServiceTool ''server_logs'' ''Logs'' True,
      AddServerTool, GatewayStatusTool, UpstreamTool demo_delete]"
  by (simp add: visible_tool_descriptors_def visible_builder_split demo_offered)
    (simp add: own_builder_def demo_audience demo_raw demo_services hides_raw_tools_def push_service_def
      add_descriptor_def service_tool_def SERVER_LOGS_TOOL_NAME_def push_when_def
      exposes_synthetic_tools_def add_server_app_available_def gateway_status_app_available_def
      registry_has_def push_upstream_tool_def demo_delete_def)

lemma demo_page:
  "list_tools_impl demo_world Root None None =
     Inr ([ServiceTool ''gateway'' ''Gateway'' False, ServiceTool ''server_logs'' ''Logs'' True,
       AddServerTool, GatewayStatusTool, UpstreamTool demo_delete], None)"
  by (simp add: list_tools_page demo_visible page_of_def MCP_LIST_PAGE_SIZE_def)


theorem listed_tools_in_scope_witness:
  "subject_listed demo_world (peer_contract_for_request Root None) demo_delete"
proof -
  have "\<not> pooled demo_world Root demo_delete"
    by (simp add: pooled_def current_upstream_pool_def demo_world_def)
  then show ?thesis
    using listed_tools_in_scope [OF demo_page, of "UpstreamTool demo_delete"]
    by (simp add: peer_contract_for_request_def)
qed

theorem subject_tools_unfiltered_witness:
  "\<not> up_enabled demo_oauth
   \<and> \<not> policy_matches (resolve_exposure_policy (up_expose_tools demo_oauth)) ''delete''
   \<and> ''delete'' \<in> descriptor_name `
       set (visible_tool_descriptors demo_world (peer_contract_for_request Root None))"
proof (intro conjI)
  have u: "demo_oauth \<in> set (gc_upstream (demo_gw_config [demo_oauth]))" "up_oauth demo_oauth \<noteq> None"
    by (simp_all add: demo_gw_config_def demo_oauth_def)
  have subject: "oauth_upstream_subject_for_request None (request_subject None) =
      Some SHARED_GATEWAY_OAUTH_SUBJECT"
    by (simp add: oauth_upstream_subject_for_request_def)
  have new: "mt_name demo_delete \<notin> fst ` set (mw_services demo_world)"
    by (simp add: demo_delete_def)
  have "mt_name demo_delete \<in> descriptor_name `
      set (visible_tool_descriptors demo_world (peer_contract_for_request Root None))"
    by (rule subject_tools_unfiltered [OF demo_world_fields(2,3) u _ demo_raw subject
          demo_world_fields(4) _ new]) simp_all
  then show "''delete'' \<in> descriptor_name `
      set (visible_tool_descriptors demo_world (peer_contract_for_request Root None))"
    by (simp only: demo_delete_def mcp_tool.simps)
qed code_simp+

end
