(* ===== verification/Catalog_Coalesce.thy ===== *)
theory Catalog_Coalesce
  imports Gateway_Catalog Relay_Callback
begin

text \<open>
  The coalescer of catalog notifications (\<open>labby/src/mcp/catalog_coalesce.rs\<close>) with the gauge of
  open tool calls and the churn window (\<open>catalog_churn.rs\<close>): triggers are merged, one flusher
  waits until they settle and open calls have drained, and hands the batch to the fan-out.

  The flusher runs between its waits in the steps at which it takes the lock or reads the clock or
  the gauge; triggers and calls come in between. Time is in milliseconds and passes only while
  every flusher sleeps: what a task computes takes no time.
\<close>

section \<open>Changes\<close>

record notification_changes =
  nc_tools :: bool
  nc_resources :: bool
  nc_prompts :: bool

definition any_change :: "notification_changes \<Rightarrow> bool" where
  "any_change c = (nc_tools c \<or> nc_resources c \<or> nc_prompts c)"

definition merged_with :: "notification_changes \<Rightarrow> notification_changes \<Rightarrow> notification_changes" where
  "merged_with a b =
     \<lparr>nc_tools = (nc_tools a \<or> nc_tools b), nc_resources = (nc_resources a \<or> nc_resources b),
      nc_prompts = (nc_prompts a \<or> nc_prompts b)\<rparr>"

definition changes_of_diff :: "catalog_diff \<Rightarrow> notification_changes" where
  "changes_of_diff d =
     \<lparr>nc_tools = cd_tools_changed d, nc_resources = cd_resources_changed d,
      nc_prompts = cd_prompts_changed d\<rparr>"

section \<open>Windows\<close>

definition env_parsed :: "string option \<Rightarrow> nat option" where
  "env_parsed v = Option.bind v (\<lambda>s. parse_usize (trim s))"

definition clamp :: "nat \<Rightarrow> nat \<Rightarrow> nat \<Rightarrow> nat" where
  "clamp lo hi x = (if x < lo then lo else if hi < x then hi else x)"

definition coalesce_window :: "string option \<Rightarrow> nat" where
  "coalesce_window v = (case env_parsed v of Some ms \<Rightarrow> clamp 1 10000 ms | None \<Rightarrow> 250)"

definition max_hold :: "string option \<Rightarrow> nat" where
  "max_hold v = (case env_parsed v of Some ms \<Rightarrow> clamp 100 120000 ms | None \<Rightarrow> 5000)"

definition DRAIN_POLL_MS :: nat where
  "DRAIN_POLL_MS = 50"

record timing =
  tm_coalesce :: nat
  tm_max_hold :: nat

definition timing_of :: "string option \<Rightarrow> string option \<Rightarrow> timing" where
  "timing_of c h = \<lparr>tm_coalesce = coalesce_window c, tm_max_hold = max_hold h\<rparr>"

section \<open>The coalescer\<close>

record pending =
  pd_changes :: "notification_changes option"
  pd_sources :: "string set"
  pd_epoch :: "64 word"
  pd_flush_running :: bool

text \<open>
  Where a flusher stands: started; about to read the epoch before its deadline; asleep with the
  epoch it read, the time it wakes and the deadline; about to look for open calls; asleep until
  the next look; about to take the batch.
\<close>

datatype flusher =
    Spawned
  | Reading nat
  | Settling "64 word" nat nat
  | Draining nat
  | DrainSleeping nat nat
  | Taking

record coalescer =
  co_now :: nat
  co_pending :: pending
  co_in_flight :: "64 word"
  co_flushers :: "flusher list"

definition idle :: coalescer where
  "idle = \<lparr>co_now = 0,
     co_pending = \<lparr>pd_changes = None, pd_sources = {}, pd_epoch = 0, pd_flush_running = False\<rparr>,
     co_in_flight = 0, co_flushers = []\<rparr>"

datatype flush_event = Flushed notification_changes "string set"

definition schedule_catalog_notification ::
  "notification_changes \<Rightarrow> string \<Rightarrow> coalescer \<Rightarrow> coalescer" where
  "schedule_catalog_notification changes source st =
     (if \<not> any_change changes then st
      else let p = co_pending st;
               p' = p\<lparr>pd_changes := Some (case pd_changes p of
                          Some existing \<Rightarrow> merged_with existing changes | None \<Rightarrow> changes),
                      pd_sources := insert source (pd_sources p),
                      pd_epoch := pd_epoch p + 1, pd_flush_running := True\<rparr>
           in st\<lparr>co_pending := p',
                 co_flushers := (if pd_flush_running p then co_flushers st
                                 else co_flushers st @ [Spawned])\<rparr>)"

definition enter_call :: "coalescer \<Rightarrow> coalescer" where
  "enter_call st = st\<lparr>co_in_flight := co_in_flight st + 1\<rparr>"

definition drop_call :: "coalescer \<Rightarrow> coalescer" where
  "drop_call st = st\<lparr>co_in_flight := (if co_in_flight st = 0 then 0 else co_in_flight st - 1)\<rparr>"

text \<open>Taking the batch: under the lock, the next trigger starts a flusher of its own.\<close>

definition take_batch :: "coalescer \<Rightarrow> coalescer \<times> flush_event list" where
  "take_batch st =
     (let p = co_pending st
      in (st\<lparr>co_pending := p\<lparr>pd_flush_running := False, pd_changes := None, pd_sources := {}\<rparr>\<rparr>,
          case pd_changes p of None \<Rightarrow> [] | Some c \<Rightarrow> [Flushed c (pd_sources p)]))"

definition flush_when_settled :: "timing \<Rightarrow> coalescer \<Rightarrow> flusher \<Rightarrow> flusher" where
  "flush_when_settled tm st f =
     (case f of
        Spawned \<Rightarrow> Reading (co_now st + tm_max_hold tm)
      | Reading deadline \<Rightarrow> Settling (pd_epoch (co_pending st)) (co_now st + tm_coalesce tm) deadline
      | Settling epoch_before wake deadline \<Rightarrow>
          if co_now st < wake then f
          else if pd_epoch (co_pending st) = epoch_before \<or> deadline \<le> co_now st then Draining deadline
          else Reading deadline
      | Draining deadline \<Rightarrow>
          if co_in_flight st > 0 \<and> co_now st < deadline
          then DrainSleeping (co_now st + DRAIN_POLL_MS) deadline else Taking
      | DrainSleeping wake deadline \<Rightarrow> if co_now st < wake then f else Draining deadline
      | Taking \<Rightarrow> Taking)"

definition run_flusher :: "timing \<Rightarrow> nat \<Rightarrow> coalescer \<Rightarrow> coalescer \<times> flush_event list" where
  "run_flusher tm i st =
     (if i < length (co_flushers st)
      then case co_flushers st ! i of
             Taking \<Rightarrow>
               take_batch (st\<lparr>co_flushers := take i (co_flushers st) @ drop (Suc i) (co_flushers st)\<rparr>)
           | f \<Rightarrow> (st\<lparr>co_flushers := (co_flushers st)[i := flush_when_settled tm st f]\<rparr>, [])
      else (st, []))"

fun asleep :: "nat \<Rightarrow> flusher \<Rightarrow> bool" where
  "asleep now (Settling _ wake _) = (now < wake)"
| "asleep now (DrainSleeping wake _) = (now < wake)"
| "asleep now _ = False"

definition tick :: "coalescer \<Rightarrow> coalescer" where
  "tick st = (if list_all (asleep (co_now st)) (co_flushers st) then st\<lparr>co_now := co_now st + 1\<rparr> else st)"

datatype co_action = Schedule notification_changes string | EnterCall | DropCall | RunFlusher nat | Tick

fun co_step :: "timing \<Rightarrow> co_action \<Rightarrow> coalescer \<Rightarrow> coalescer \<times> flush_event list" where
  "co_step tm (Schedule c s) st = (schedule_catalog_notification c s st, [])"
| "co_step tm EnterCall st = (enter_call st, [])"
| "co_step tm DropCall st = (drop_call st, [])"
| "co_step tm (RunFlusher i) st = run_flusher tm i st"
| "co_step tm Tick st = (tick st, [])"

fun co_run :: "timing \<Rightarrow> co_action list \<Rightarrow> coalescer \<Rightarrow> coalescer \<times> flush_event list" where
  "co_run tm [] st = (st, [])"
| "co_run tm (a # as) st =
     (let (st1, ev1) = co_step tm a st; (st2, ev2) = co_run tm as st1 in (st2, ev1 @ ev2))"

section \<open>Churn\<close>

record churn =
  ch_total :: "64 word"
  ch_window :: "nat list"

record churn_sample =
  cs_total :: "64 word"
  cs_window_count :: nat
  cs_since_last_ms :: "nat option"
  cs_in_flight_tool_calls :: "64 word"
  cs_window_secs :: nat
  cs_threshold :: nat

definition MAX_WINDOW_SAMPLES :: nat where
  "MAX_WINDOW_SAMPLES = 4096"

definition churn_window :: "string option \<Rightarrow> nat" where
  "churn_window v = (case env_parsed v of Some secs \<Rightarrow> clamp 5 3600 secs | None \<Rightarrow> 60)"

definition churn_threshold :: "string option \<Rightarrow> nat" where
  "churn_threshold v = (case env_parsed v of Some t \<Rightarrow> max t 2 | None \<Rightarrow> 4)"

definition record_notification ::
  "nat \<Rightarrow> nat \<Rightarrow> 64 word \<Rightarrow> nat \<Rightarrow> churn \<Rightarrow> churn \<times> churn_sample" where
  "record_notification window_secs threshold in_flight now ch =
     (let total = ch_total ch + 1; samples = ch_window ch;
          since = (if samples = [] then None else Some (now - last samples));
          cutoff = now - 1000 * window_secs;
          kept = dropWhile (\<lambda>stamp. stamp < cutoff) samples @ [now];
          samples' = (if MAX_WINDOW_SAMPLES < length kept then tl kept else kept)
      in (\<lparr>ch_total = total, ch_window = samples'\<rparr>,
          \<lparr>cs_total = total, cs_window_count = length samples', cs_since_last_ms = since,
           cs_in_flight_tool_calls = in_flight, cs_window_secs = window_secs, cs_threshold = threshold\<rparr>))"

definition is_churning :: "churn_sample \<Rightarrow> bool" where
  "is_churning sample = (cs_threshold sample \<le> cs_window_count sample)"

lemma dropWhile_sorted: "sorted xs \<Longrightarrow> dropWhile (\<lambda>x. x < c) xs = filter (\<lambda>x. c \<le> x) xs" for c :: nat
  by (induction xs) (auto simp: filter_id_conv intro!: filter_True [symmetric])

text \<open>
  The clock never runs backwards, so the stamps are sorted: the count is that of the notifications
  of the last window, this one included, unless the window is full. It never holds more than its
  size.
\<close>

lemma record_counts:
  assumes "sorted (ch_window ch)" "length (ch_window ch) < MAX_WINDOW_SAMPLES"
  shows "cs_window_count (snd (record_notification w th n now ch)) =
     Suc (length (filter (\<lambda>stamp. now - 1000 * w \<le> stamp) (ch_window ch)))"
proof -
  have "\<not> MAX_WINDOW_SAMPLES < Suc (length (filter (\<lambda>stamp. now - 1000 * w \<le> stamp) (ch_window ch)))"
    using assms(2) length_filter_le [of "\<lambda>stamp. now - 1000 * w \<le> stamp" "ch_window ch"] by linarith
  then show ?thesis
    using assms(1) by (simp add: record_notification_def Let_def dropWhile_sorted)
qed

lemma window_bounded:
  assumes "length (ch_window ch) \<le> MAX_WINDOW_SAMPLES"
  shows "length (ch_window (fst (record_notification w th n now ch))) \<le> MAX_WINDOW_SAMPLES"
  using assms length_dropWhile_le [of "\<lambda>stamp. stamp < now - 1000 * w" "ch_window ch"]
  by (auto simp: record_notification_def Let_def MAX_WINDOW_SAMPLES_def)

lemma window_sorted:
  assumes "sorted (ch_window ch)" "\<forall>stamp \<in> set (ch_window ch). stamp \<le> now"
  shows "sorted (ch_window (fst (record_notification w th n now ch)))"
  using assms by (auto simp: record_notification_def Let_def dropWhile_sorted sorted_append sorted_filter [of id, simplified]
      intro!: sorted_tl)

section \<open>Invariants of a run\<close>

text \<open>What the batch must hold after a trigger.\<close>

definition covers :: "notification_changes \<Rightarrow> notification_changes \<Rightarrow> bool" where
  "covers big small =
     ((nc_tools small \<longrightarrow> nc_tools big) \<and> (nc_resources small \<longrightarrow> nc_resources big)
      \<and> (nc_prompts small \<longrightarrow> nc_prompts big))"

definition grace :: "timing \<Rightarrow> nat" where
  "grace tm = max (tm_coalesce tm) DRAIN_POLL_MS"

text \<open>How long a flusher still takes, for a trigger at time \<open>t\<close>.\<close>

fun on_time :: "timing \<Rightarrow> nat \<Rightarrow> nat \<Rightarrow> flusher \<Rightarrow> bool" where
  "on_time tm t now Spawned = (now \<le> t)"
| "on_time tm t now (Reading d) = (d \<le> t + tm_max_hold tm \<and> now \<le> t + tm_max_hold tm)"
| "on_time tm t now (Settling _ w d) =
     (d \<le> t + tm_max_hold tm \<and> w \<le> t + tm_max_hold tm + tm_coalesce tm \<and> now \<le> w)"
| "on_time tm t now (Draining d) = (d \<le> t + tm_max_hold tm \<and> now \<le> t + tm_max_hold tm + grace tm)"
| "on_time tm t now (DrainSleeping w d) =
     (d \<le> t + tm_max_hold tm \<and> w \<le> t + tm_max_hold tm + DRAIN_POLL_MS \<and> now \<le> w)"
| "on_time tm t now Taking = (now \<le> t + tm_max_hold tm + grace tm)"

lemma on_time_bound: "on_time tm t now f \<Longrightarrow> now \<le> t + tm_max_hold tm + grace tm"
  by (cases f) (auto simp: grace_def)

lemma on_time_mono: "on_time tm t now f \<Longrightarrow> t \<le> t' \<Longrightarrow> on_time tm t' now f"
  by (cases f) auto

lemma on_time_flush:
  "on_time tm t (co_now st) f \<Longrightarrow> on_time tm t (co_now st) (flush_when_settled tm st f)"
  by (cases f) (auto simp: flush_when_settled_def grace_def)

lemma on_time_tick: "on_time tm t now f \<Longrightarrow> asleep now f \<Longrightarrow> on_time tm t (Suc now) f"
  by (cases f) auto

text \<open>There is a flusher, exactly one, while a flush is announced; otherwise nothing is pending.\<close>

definition co_inv :: "timing \<Rightarrow> coalescer \<Rightarrow> bool" where
  "co_inv tm st =
     (if pd_flush_running (co_pending st)
      then \<exists>f. co_flushers st = [f] \<and> on_time tm (co_now st) (co_now st) f
      else co_flushers st = [] \<and> pd_changes (co_pending st) = None)"

lemma co_inv_idle: "co_inv tm idle"
  by (simp add: co_inv_def idle_def)

lemma co_inv_step:
  assumes "co_inv tm st"
  shows "co_inv tm (fst (co_step tm a st))"
proof (cases a)
  case (RunFlusher i)
  then show ?thesis
    using assms on_time_flush [of tm "co_now st" st]
    by (auto simp: co_inv_def run_flusher_def take_batch_def Let_def nth_Cons' split: flusher.split if_splits)
next
  case Tick
  then show ?thesis
    using assms on_time_tick on_time_mono [of tm "co_now st" "Suc (co_now st)" _ "Suc (co_now st)"]
    by (auto simp: co_inv_def tick_def)
qed (use assms in \<open>auto simp: co_inv_def schedule_catalog_notification_def enter_call_def drop_call_def Let_def\<close>)

lemma co_run_Cons:
  "fst (co_run tm (a # as) st) = fst (co_run tm as (fst (co_step tm a st)))"
  "snd (co_run tm (a # as) st) = snd (co_step tm a st) @ snd (co_run tm as (fst (co_step tm a st)))"
  by (simp_all add: Let_def split: prod.split)

lemma co_inv_run: "co_inv tm st \<Longrightarrow> co_inv tm (fst (co_run tm as st))"
  by (induction as arbitrary: st) (simp_all add: co_run_Cons co_inv_step del: co_run.simps(2))

text \<open>A trigger at time \<open>t\<close> that no flush has taken yet.\<close>

definition owed :: "timing \<Rightarrow> nat \<Rightarrow> notification_changes \<Rightarrow> string \<Rightarrow> coalescer \<Rightarrow> bool" where
  "owed tm t c s st =
     (pd_flush_running (co_pending st) \<and> (\<exists>f. co_flushers st = [f] \<and> on_time tm t (co_now st) f)
      \<and> (\<exists>b. pd_changes (co_pending st) = Some b \<and> covers b c) \<and> s \<in> pd_sources (co_pending st))"

lemma covers_merged [simp]: "covers (merged_with a b) b" "covers a c \<Longrightarrow> covers (merged_with a b) c"
  by (auto simp: covers_def merged_with_def)

lemma covers_refl [simp]: "covers c c"
  by (simp add: covers_def)

lemma owed_scheduled:
  assumes "co_inv tm st" "any_change c"
  shows "owed tm (co_now st) c s (schedule_catalog_notification c s st)"
  using assms
  by (auto simp: owed_def co_inv_def schedule_catalog_notification_def Let_def split: if_splits option.split)

lemma owed_flusher:
  assumes "owed tm t c s st"
  shows "owed tm t c s (fst (run_flusher tm i st)) \<and> snd (run_flusher tm i st) = []
    \<or> (\<exists>b ss. snd (run_flusher tm i st) = [Flushed b ss] \<and> covers b c \<and> s \<in> ss)"
proof -
  obtain f where f: "co_flushers st = [f]" "on_time tm t (co_now st) f"
    using assms by (auto simp: owed_def)
  consider "i \<noteq> 0" | "i = 0" "f = Taking" | "i = 0" "f \<noteq> Taking" by blast
  then show ?thesis
  proof cases
    case 3
    then have "run_flusher tm i st = (st\<lparr>co_flushers := [flush_when_settled tm st f]\<rparr>, [])"
      using f by (cases f) (simp_all add: run_flusher_def)
    then show ?thesis
      using assms f on_time_flush [OF f(2)] by (simp add: owed_def)
  qed (use assms f in \<open>auto simp: run_flusher_def take_batch_def owed_def Let_def\<close>)
qed

lemma owed_step:
  assumes "owed tm t c s st"
  shows "owed tm t c s (fst (co_step tm a st)) \<and> snd (co_step tm a st) = []
    \<or> (\<exists>b ss. snd (co_step tm a st) = [Flushed b ss] \<and> covers b c \<and> s \<in> ss)"
proof (cases a)
  case (Schedule c' s')
  then show ?thesis
    using assms by (auto simp: owed_def schedule_catalog_notification_def Let_def)
next
  case Tick
  then show ?thesis
    using assms on_time_tick by (auto simp: owed_def tick_def)
qed (use assms owed_flusher in \<open>auto simp: owed_def enter_call_def drop_call_def\<close>)

lemma owed_run:
  "owed tm t c s st \<Longrightarrow>
     (\<exists>b ss rest. snd (co_run tm as st) = Flushed b ss # rest \<and> covers b c \<and> s \<in> ss)
     \<or> (snd (co_run tm as st) = [] \<and> owed tm t c s (fst (co_run tm as st)))"
proof (induction as arbitrary: st)
  case (Cons a as)
  let ?st = "fst (co_step tm a st)"
  show ?case
    using owed_step [OF Cons.prems, of a]
  proof
    assume "owed tm t c s ?st \<and> snd (co_step tm a st) = []"
    then show ?thesis using Cons.IH [of ?st] by (simp add: co_run_Cons del: co_run.simps(2))
  qed (auto simp: co_run_Cons simp del: co_run.simps(2))
qed simp

section \<open>Progress\<close>

text \<open>How far a flusher is from its next sleep or its end, when nothing else happens.\<close>

fun phase :: "nat \<Rightarrow> flusher \<Rightarrow> nat" where
  "phase now Spawned = 6"
| "phase now (Settling _ w _) = (if now < w then 0 else 5)"
| "phase now (Reading _) = 4"
| "phase now (DrainSleeping w _) = (if now < w then 0 else 3)"
| "phase now (Draining _) = 2"
| "phase now Taking = 1"

definition rank :: "timing \<Rightarrow> nat \<Rightarrow> nat \<Rightarrow> flusher \<Rightarrow> nat" where
  "rank tm t now f = 7 * (t + tm_max_hold tm + grace tm - now) + phase now f"

lemma phase_flush:
  "tm_coalesce tm > 0 \<Longrightarrow> \<not> asleep (co_now st) f \<Longrightarrow> f \<noteq> Taking
    \<Longrightarrow> phase (co_now st) (flush_when_settled tm st f) < phase (co_now st) f"
  by (cases f) (auto simp: flush_when_settled_def DRAIN_POLL_MS_def)

lemma phase_small: "phase now f < 7"
  by (cases f) auto

lemma rank_tick:
  assumes "on_time tm t now f" "asleep now f"
  shows "rank tm t (Suc now) f < rank tm t now f"
proof -
  have "Suc now \<le> t + tm_max_hold tm + grace tm"
    using on_time_bound [OF on_time_tick [OF assms]] .
  then show ?thesis
    using phase_small [of "Suc now" f] by (simp add: rank_def)
qed

lemma flush_reached:
  assumes "tm_coalesce tm > 0"
  shows "owed tm t c s st \<Longrightarrow> \<exists>as. set as \<subseteq> {RunFlusher 0, Tick} \<and> snd (co_run tm as st) \<noteq> []"
proof (induction "rank tm t (co_now st) (hd (co_flushers st))" arbitrary: st rule: less_induct)
  case less
  obtain f b where f: "co_flushers st = [f]" "on_time tm t (co_now st) f"
    and b: "pd_changes (co_pending st) = Some b"
    using less.prems by (auto simp: owed_def)
  have continue: "\<exists>as. set as \<subseteq> {RunFlusher 0, Tick} \<and> snd (co_run tm as st) \<noteq> []"
    if step: "co_step tm a st = (st', [])" "a \<in> {RunFlusher 0, Tick}"
      and closer: "rank tm t (co_now st') (hd (co_flushers st')) < rank tm t (co_now st) f" for a st'
  proof -
    have "owed tm t c s st'" using owed_step [OF less.prems, of a] step(1) by simp
    then obtain as where "set as \<subseteq> {RunFlusher 0, Tick}" "snd (co_run tm as st') \<noteq> []"
      using less.hyps [of st'] closer f by auto
    then show ?thesis
      using step by (intro exI [of _ "a # as"]) (auto simp: co_run_Cons simp del: co_run.simps(2))
  qed
  consider "f = Taking" | "asleep (co_now st) f" | "f \<noteq> Taking" "\<not> asleep (co_now st) f" by blast
  then show ?case
  proof cases
    case 1
    then have "snd (co_run tm [RunFlusher 0] st) \<noteq> []"
      using f b by (simp add: run_flusher_def take_batch_def Let_def)
    then show ?thesis by (intro exI [of _ "[RunFlusher 0]"]) simp
  next
    case 2
    then show ?thesis
      using f rank_tick [OF f(2)] by (intro continue [of Tick]) (auto simp: tick_def)
  next
    case 3
    then have "run_flusher tm 0 st = (st\<lparr>co_flushers := [flush_when_settled tm st f]\<rparr>, [])"
      using f by (cases f) (simp_all add: run_flusher_def)
    then show ?thesis
      using f phase_flush [OF assms 3(2,1)] by (intro continue [of "RunFlusher 0"]) (auto simp: rank_def)
  qed
qed

lemma timing_positive: "tm_coalesce (timing_of cv hv) > 0"
  by (auto simp: timing_of_def coalesce_window_def clamp_def split: option.split)


text \<open>The hold limit and the settle window are set independently, and the window is not cut.\<close>

lemma settling_ticks:
  assumes "any_change c" "n \<le> tm_coalesce tm"
  shows "co_run tm ([Schedule c s, RunFlusher 0, RunFlusher 0] @ replicate n Tick) idle =
     (\<lparr>co_now = n,
       co_pending = \<lparr>pd_changes = Some c, pd_sources = {s}, pd_epoch = 1, pd_flush_running = True\<rparr>,
       co_in_flight = 0, co_flushers = [Settling 1 (tm_coalesce tm) (tm_max_hold tm)]\<rparr>, [])"
proof -
  let ?st = "\<lambda>k. \<lparr>co_now = k,
       co_pending = \<lparr>pd_changes = Some c, pd_sources = {s}, pd_epoch = 1, pd_flush_running = True\<rparr>,
       co_in_flight = 0, co_flushers = [Settling 1 (tm_coalesce tm) (tm_max_hold tm)]\<rparr>"
  have "co_run tm (replicate m Tick) (?st k) = (?st (k + m), [])" if "k + m \<le> tm_coalesce tm" for k m
    using that by (induction m arbitrary: k) (simp_all add: tick_def)
  from this [of 0 n] show ?thesis
    using assms by (simp add: schedule_catalog_notification_def idle_def run_flusher_def
        flush_when_settled_def)
qed

lemma window_outlasts_hold:
  assumes "any_change c"
  shows "co_run (timing_of (Some ''10000'') (Some ''100''))
      ([Schedule c s, RunFlusher 0, RunFlusher 0] @ replicate 10000 Tick) idle =
     (\<lparr>co_now = 10000,
       co_pending = \<lparr>pd_changes = Some c, pd_sources = {s}, pd_epoch = 1, pd_flush_running = True\<rparr>,
       co_in_flight = 0, co_flushers = [Settling 1 10000 100]\<rparr>, [])"
proof -
  have "parse_usize (trim ''10000'') = Some 10000" "parse_usize (trim ''100'') = Some 100"
    by (simp_all add: trim_id ws1_def parse_usize_def decimal_def is_ascii_digit_def)
  then have "coalesce_window (Some ''10000'') = 10000" "max_hold (Some ''100'') = 100"
    by (simp_all add: coalesce_window_def max_hold_def env_parsed_def clamp_def)
  then have "tm_coalesce (timing_of (Some ''10000'') (Some ''100'')) = 10000"
    "tm_max_hold (timing_of (Some ''10000'') (Some ''100'')) = 100"
    by (simp_all add: timing_of_def)
  then show ?thesis
    using settling_ticks [OF assms, of 10000 "timing_of (Some ''10000'') (Some ''100'')" s] by simp
qed


end
