(* ===== verification/Peer_Notify.thy ===== *)
theory Peer_Notify
  imports Mcp_Tools Catalog_Coalesce "HOL-Library.Product_Lexorder"
begin

text \<open>
  The fan-out of catalog changes to the subscribed sessions (\<open>labby/src/mcp/catalog_notifications.rs\<close>,
  \<open>peers.rs\<close>, the subscription part of \<open>server.rs\<close>) and the snapshot of a session's contract it
  compares (\<open>catalog.rs\<close>).

  Serialisation of descriptors and SHA-256 are the parameter \<open>contract_env\<close>; a byte string is a
  string. Whether a notification reaches its session is an answer of the environment.
\<close>

section \<open>Snapshots of a contract\<close>

record contract_env =
  ce_json :: "descriptor \<Rightarrow> json"
  ce_bytes :: "json \<Rightarrow> string"
  ce_sha256 :: "string \<Rightarrow> string"

fun canonicalize_json :: "json \<Rightarrow> json" where
  "canonicalize_json (JObject kvs) = JObject (sort_key fst (map (\<lambda>(k, v). (k, canonicalize_json v)) kvs))"
| "canonicalize_json (JArray vs) = JArray (map canonicalize_json vs)"
| "canonicalize_json v = v"

fun be_bytes :: "nat \<Rightarrow> nat \<Rightarrow> string" where
  "be_bytes 0 n = []"
| "be_bytes (Suc k) n = be_bytes k (n div 256) @ [char_of (n mod 256)]"

definition hash_len_prefixed :: "string \<Rightarrow> string" where
  "hash_len_prefixed bytes = be_bytes 8 (length bytes mod 2 ^ 64) @ bytes"

definition canonical_entry :: "contract_env \<Rightarrow> descriptor \<Rightarrow> string \<times> string" where
  "canonical_entry env d = (descriptor_name d, ce_bytes env (canonicalize_json (ce_json env d)))"

definition hash_input :: "contract_env \<Rightarrow> descriptor list \<Rightarrow> string" where
  "hash_input env ds =
     concat (map (\<lambda>(name, bytes). hash_len_prefixed name @ hash_len_prefixed bytes)
       (sort (map (canonical_entry env) ds)))"

definition descriptor_contract_hash :: "contract_env \<Rightarrow> descriptor list \<Rightarrow> string" where
  "descriptor_contract_hash env ds = ce_sha256 env (hash_input env ds)"

record tool_catalog_snapshot =
  tc_tools :: "string set"
  tc_contract_hash :: string

definition from_descriptors :: "contract_env \<Rightarrow> descriptor list \<Rightarrow> tool_catalog_snapshot" where
  "from_descriptors env ds =
     \<lparr>tc_tools = descriptor_name ` set ds, tc_contract_hash = descriptor_contract_hash env ds\<rparr>"

definition changes_since :: "tool_catalog_snapshot \<Rightarrow> tool_catalog_snapshot \<Rightarrow> notification_changes" where
  "changes_since new old =
     \<lparr>nc_tools = (tc_contract_hash old \<noteq> tc_contract_hash new), nc_resources = False,
      nc_prompts = False\<rparr>"

definition visible_contract :: "contract_env \<Rightarrow> mcp_world \<Rightarrow> peer_contract \<Rightarrow> tool_catalog_snapshot" where
  "visible_contract env w pc = from_descriptors env (visible_tool_descriptors w pc)"

section \<open>Subscriptions\<close>

record subscription_filter =
  sf_tools :: "bool option"
  sf_resources :: "bool option"
  sf_prompts :: "bool option"
  sf_resource_subscriptions :: "string list option"

definition wants_tool_list_changed :: "subscription_filter \<Rightarrow> bool" where
  "wants_tool_list_changed f = (sf_tools f = Some True)"

definition wants_resource_list_changed :: "subscription_filter \<Rightarrow> bool" where
  "wants_resource_list_changed f = (sf_resources f = Some True)"

definition wants_prompt_list_changed :: "subscription_filter \<Rightarrow> bool" where
  "wants_prompt_list_changed f = (sf_prompts f = Some True)"

definition wants_resource_update :: "subscription_filter \<Rightarrow> string \<Rightarrow> bool" where
  "wants_resource_update f uri =
     (case sf_resource_subscriptions f of Some uris \<Rightarrow> List.member uris uri | None \<Rightarrow> False)"

text \<open>
  The upstream a URI of the gateway belongs to: \<open>rest.split('/').next()\<close> after the prefix.
\<close>

definition uri_upstream :: "string \<Rightarrow> string option" where
  "uri_upstream uri =
     map_option (\<lambda>rest. hd (split_char (CHR ''/'') rest)) (strip_prefix ''lab://upstream/'' uri)"

definition accepted_subscription_filter ::
  "string list \<Rightarrow> route_scope \<Rightarrow> subscription_filter \<Rightarrow> subscription_filter" where
  "accepted_subscription_filter deliverable scope requested =
     (let accepted = map_option (filter (\<lambda>uri. List.member deliverable uri
            \<and> (case uri_upstream uri of None \<Rightarrow> True | Some u \<Rightarrow> allows_upstream scope u)))
          (sf_resource_subscriptions requested)
      in requested\<lparr>sf_resource_subscriptions := (if accepted = Some [] then None else accepted)\<rparr>)"

record registered_peer =
  rp_id :: nat
  rp_target :: subscription_filter
  rp_contract :: peer_contract
  rp_last_contract :: tool_catalog_snapshot

section \<open>One fan-out\<close>

record evaluated_peer =
  ev_registered :: registered_peer
  ev_changes :: notification_changes
  ev_next_contract :: "tool_catalog_snapshot option"

definition into_published :: "evaluated_peer \<Rightarrow> registered_peer" where
  "into_published e =
     (case ev_next_contract e of
        Some next \<Rightarrow> (ev_registered e)\<lparr>rp_last_contract := next\<rparr> | None \<Rightarrow> ev_registered e)"

definition evaluate_peer ::
  "contract_env \<Rightarrow> mcp_world \<Rightarrow> notification_changes \<Rightarrow> registered_peer \<Rightarrow> evaluated_peer" where
  "evaluate_peer env w changes p =
     (let next = (if nc_tools changes then Some (visible_contract env w (rp_contract p)) else None)
      in \<lparr>ev_registered = p,
          ev_changes =
            \<lparr>nc_tools = ((case next of Some n \<Rightarrow> n \<noteq> rp_last_contract p | None \<Rightarrow> False)
                \<and> wants_tool_list_changed (rp_target p)),
             nc_resources = (nc_resources changes \<and> wants_resource_list_changed (rp_target p)),
             nc_prompts = (nc_prompts changes \<and> wants_prompt_list_changed (rp_target p))\<rparr>,
          ev_next_contract = next\<rparr>)"

text \<open>
  What the environment answers for a session: whether the sends end in time, and which of them
  succeed.
\<close>

record answers =
  an_in_time :: bool
  an_tools :: bool
  an_resources :: bool
  an_prompts :: bool

definition send_peer :: "answers \<Rightarrow> evaluated_peer \<Rightarrow> bool" where
  "send_peer an e =
     (let c = ev_changes e
      in if any_change c \<and> \<not> an_in_time an then False
         else if nc_tools c \<and> \<not> an_tools an then False
         else if nc_resources c \<and> \<not> an_resources an then False
         else if nc_prompts c \<and> \<not> an_prompts an then False
         else True)"

text \<open>The index of a registration, and the two loops over the outcomes under the write lock.\<close>

fun registration_index :: "nat \<Rightarrow> registered_peer list \<Rightarrow> nat option" where
  "registration_index i [] = None"
| "registration_index i (p # ps) = (if rp_id p = i then Some 0 else map_option Suc (registration_index i ps))"

fun publish :: "(evaluated_peer \<times> bool) list \<Rightarrow> registered_peer list \<Rightarrow> registered_peer list" where
  "publish [] peers = peers"
| "publish ((e, ok) # rest) peers =
     publish rest
       (if ok then case registration_index (rp_id (into_published e)) peers of
                     Some n \<Rightarrow> peers[n := into_published e] | None \<Rightarrow> peers
        else peers)"

fun prune :: "(evaluated_peer \<times> bool) list \<Rightarrow> registered_peer list \<Rightarrow> registered_peer list" where
  "prune [] peers = peers"
| "prune ((e, ok) # rest) peers =
     prune rest
       (if ok then peers
        else case registration_index (rp_id (ev_registered e)) peers of
               Some n \<Rightarrow> take n peers @ drop (Suc n) peers | None \<Rightarrow> peers)"

definition notify_catalog_peers ::
  "contract_env \<Rightarrow> mcp_world \<Rightarrow> notification_changes \<Rightarrow> (nat \<Rightarrow> answers) \<Rightarrow> registered_peer list
    \<Rightarrow> registered_peer list" where
  "notify_catalog_peers env w changes an peers =
     (if \<not> any_change changes then peers
      else let evaluated = map (evaluate_peer env w changes) peers
           in if list_all (\<lambda>e. \<not> any_change (ev_changes e)) evaluated then peers
              else let outcomes = map (\<lambda>e. (e, send_peer (an (rp_id (ev_registered e))) e)) evaluated
                   in prune outcomes (publish outcomes peers))"

definition told_tools ::
  "contract_env \<Rightarrow> mcp_world \<Rightarrow> notification_changes \<Rightarrow> registered_peer \<Rightarrow> bool" where
  "told_tools env w changes p = nc_tools (ev_changes (evaluate_peer env w changes p))"

section \<open>Updates of one resource\<close>

definition notify_resource_update_peers ::
  "string \<Rightarrow> string \<Rightarrow> (nat \<Rightarrow> bool) \<Rightarrow> registered_peer list \<Rightarrow> nat list \<times> registered_peer list" where
  "notify_resource_update_peers upstream uri ok peers =
     (let deliveries = filter (\<lambda>p. allows_upstream (pc_route_scope (rp_contract p)) upstream
              \<and> wants_resource_update (rp_target p) uri) peers;
          failed = filter (\<lambda>i. \<not> ok i) (map rp_id deliveries)
      in (map rp_id deliveries,
          if failed = [] then peers else filter (\<lambda>p. \<not> List.member failed (rp_id p)) peers))"

section \<open>Concurrent fan-outs\<close>

text \<open>
  A fan-out has started; evaluates the sessions of its snapshot one by one, outside the lock; or
  waits for its sends, which end in any order, before it takes the lock. Sessions register in two
  steps: the seed of their contract is computed before the lock is taken.
\<close>

datatype fanout =
    FanStart notification_changes
  | FanEval notification_changes "registered_peer list" "evaluated_peer list"
  | FanSend "(evaluated_peer \<times> bool option) list"

record fan_state =
  fs_world :: mcp_world
  fs_peers :: "registered_peer list"
  fs_joining :: "(peer_contract \<times> subscription_filter \<times> tool_catalog_snapshot) list"
  fs_fanouts :: "fanout list"
  fs_next_id :: nat

datatype fan_action =
    ChangeWorld mcp_world
  | Seed peer_contract subscription_filter
  | Join nat
  | Unlisten nat
  | StartFan notification_changes
  | RunFan nat nat answers

definition listen_seed :: "contract_env \<Rightarrow> peer_contract \<Rightarrow> subscription_filter \<Rightarrow> fan_state \<Rightarrow> fan_state" where
  "listen_seed env pc f st =
     st\<lparr>fs_joining := fs_joining st @ [(pc, f, visible_contract env (fs_world st) pc)]\<rparr>"

definition listen_join :: "nat \<Rightarrow> fan_state \<Rightarrow> fan_state" where
  "listen_join k st =
     (if k < length (fs_joining st)
      then case fs_joining st ! k of (pc, f, seed) \<Rightarrow>
             st\<lparr>fs_peers := fs_peers st @ [\<lparr>rp_id = fs_next_id st, rp_target = f, rp_contract = pc,
                                             rp_last_contract = seed\<rparr>],
                fs_joining := take k (fs_joining st) @ drop (Suc k) (fs_joining st),
                fs_next_id := fs_next_id st + 1\<rparr>
      else st)"

definition listen_cancelled :: "nat \<Rightarrow> fan_state \<Rightarrow> fan_state" where
  "listen_cancelled i st = st\<lparr>fs_peers := filter (\<lambda>p. rp_id p \<noteq> i) (fs_peers st)\<rparr>"

text \<open>The next state of a fan-out, the registry and the sessions told that their tools changed.\<close>

definition run_fan ::
  "contract_env \<Rightarrow> mcp_world \<Rightarrow> registered_peer list \<Rightarrow> nat \<Rightarrow> answers \<Rightarrow> fanout
    \<Rightarrow> fanout option \<times> registered_peer list \<times> nat list" where
  "run_fan env w peers j an f =
     (case f of
        FanStart c \<Rightarrow> (if any_change c then Some (FanEval c peers []) else None, peers, [])
      | FanEval c (p # ps) es \<Rightarrow> (Some (FanEval c ps (es @ [evaluate_peer env w c p])), peers, [])
      | FanEval c [] es \<Rightarrow>
          (if list_all (\<lambda>e. \<not> any_change (ev_changes e)) es then None
           else Some (FanSend (map (\<lambda>e. (e, None)) es)), peers, [])
      | FanSend rs \<Rightarrow>
          if j < length rs \<and> snd (rs ! j) = None
          then let e = fst (rs ! j); ok = send_peer an e
               in (Some (FanSend (rs[j := (e, Some ok)])), peers,
                   if ok \<and> nc_tools (ev_changes e) then [rp_id (ev_registered e)] else [])
          else if list_all (\<lambda>r. snd r \<noteq> None) rs
          then let outcomes = map (\<lambda>r. (fst r, the (snd r))) rs
               in (None, prune outcomes (publish outcomes peers), [])
          else (Some f, peers, []))"

fun fan_step :: "contract_env \<Rightarrow> fan_action \<Rightarrow> fan_state \<Rightarrow> fan_state \<times> nat list" where
  "fan_step env (ChangeWorld w) st = (st\<lparr>fs_world := w\<rparr>, [])"
| "fan_step env (Seed pc f) st = (listen_seed env pc f st, [])"
| "fan_step env (Join k) st = (listen_join k st, [])"
| "fan_step env (Unlisten i) st = (listen_cancelled i st, [])"
| "fan_step env (StartFan c) st = (st\<lparr>fs_fanouts := fs_fanouts st @ [FanStart c]\<rparr>, [])"
| "fan_step env (RunFan i j an) st =
     (if i < length (fs_fanouts st)
      then case run_fan env (fs_world st) (fs_peers st) j an (fs_fanouts st ! i) of
             (f, peers, told) \<Rightarrow>
               (st\<lparr>fs_peers := peers,
                   fs_fanouts := take i (fs_fanouts st) @ (case f of Some f' \<Rightarrow> [f'] | None \<Rightarrow> [])
                     @ drop (Suc i) (fs_fanouts st)\<rparr>, told)
      else (st, []))"

fun fan_run :: "contract_env \<Rightarrow> fan_action list \<Rightarrow> fan_state \<Rightarrow> fan_state \<times> nat list" where
  "fan_run env [] st = (st, [])"
| "fan_run env (a # as) st =
     (let (st1, t1) = fan_step env a st; (st2, t2) = fan_run env as st1 in (st2, t1 @ t2))"

section \<open>The registry under the lock\<close>

lemma registration_index_None: "registration_index i peers = None \<longleftrightarrow> (\<forall>p \<in> set peers. rp_id p \<noteq> i)"
  by (induction peers) auto

lemma update_by_id:
  assumes "distinct (map rp_id peers)" "registration_index i peers = Some n"
  shows "peers[n := q] = map (\<lambda>p. if rp_id p = i then q else p) peers"
    "take n peers @ drop (Suc n) peers = filter (\<lambda>p. rp_id p \<noteq> i) peers"
proof -
  have "peers[n := q] = map (\<lambda>p. if rp_id p = i then q else p) peers
      \<and> take n peers @ drop (Suc n) peers = filter (\<lambda>p. rp_id p \<noteq> i) peers"
    using assms
  proof (induction peers arbitrary: n)
    case (Cons p ps)
    show ?case
    proof (cases "rp_id p = i")
      case True
      then have "\<forall>x \<in> set ps. rp_id x \<noteq> i" using Cons.prems(1) by (simp add: image_iff) metis
      then show ?thesis
        using Cons.prems(2) True by (auto simp: filter_id_conv intro!: map_idI [symmetric])
    qed (use Cons in auto)
  qed simp
  then show "peers[n := q] = map (\<lambda>p. if rp_id p = i then q else p) peers"
    "take n peers @ drop (Suc n) peers = filter (\<lambda>p. rp_id p \<noteq> i) peers"
    by simp_all
qed

lemma rp_id_published [simp]: "rp_id (into_published e) = rp_id (ev_registered e)"
  by (simp add: into_published_def split: option.split)

lemma publish_Cons:
  assumes "distinct (map rp_id peers)"
  shows "publish ((e, ok) # rest) peers =
    publish rest (map (\<lambda>p. if ok \<and> rp_id p = rp_id (ev_registered e) then into_published e else p) peers)"
proof (cases "ok \<and> registration_index (rp_id (ev_registered e)) peers \<noteq> None")
  case True
  then show ?thesis using update_by_id(1) [OF assms] by auto
next
  case False
  then have "map (\<lambda>p. if ok \<and> rp_id p = rp_id (ev_registered e) then into_published e else p) peers = peers"
    by (auto simp: registration_index_None intro!: map_idI)
  then show ?thesis using False by (auto split: option.split)
qed

lemma prune_Cons:
  assumes "distinct (map rp_id peers)"
  shows "prune ((e, ok) # rest) peers =
    prune rest (filter (\<lambda>p. ok \<or> rp_id p \<noteq> rp_id (ev_registered e)) peers)"
proof (cases "\<not> ok \<and> registration_index (rp_id (ev_registered e)) peers \<noteq> None")
  case True
  then show ?thesis using update_by_id(2) [OF assms] by auto
next
  case False
  then have "filter (\<lambda>p. ok \<or> rp_id p \<noteq> rp_id (ev_registered e)) peers = peers"
    by (auto simp: registration_index_None filter_id_conv)
  then show ?thesis using False by (auto split: option.split)
qed

lemma distinct_map_same_id:
  assumes "\<And>p. rp_id (f p) = rp_id p"
  shows "distinct (map rp_id (map f peers)) = distinct (map rp_id peers)"
  by (simp add: comp_def assms)

text \<open>Publishing replaces each session whose notification succeeded, pruning drops the others.\<close>

definition published :: "(evaluated_peer \<times> bool) list \<Rightarrow> registered_peer \<Rightarrow> registered_peer" where
  "published outs p =
     (case List.find (\<lambda>(e, ok). ok \<and> rp_id (ev_registered e) = rp_id p) outs of
        Some (e, _) \<Rightarrow> into_published e | None \<Rightarrow> p)"

lemma rp_id_published_by [simp]: "rp_id (published outs p) = rp_id p"
  by (auto simp: published_def find_Some_iff split: option.split)

lemma publish_map:
  assumes "distinct (map rp_id peers)" "distinct (map (rp_id \<circ> ev_registered \<circ> fst) outs)"
  shows "publish outs peers = map (published outs) peers"
  using assms
proof (induction outs arbitrary: peers)
  case (Cons o1 outs)
  obtain e ok where o1: "o1 = (e, ok)" by (cases o1)
  let ?f = "\<lambda>p. if ok \<and> rp_id p = rp_id (ev_registered e) then into_published e else p"
  have none: "List.find (\<lambda>(e', ok'). ok' \<and> rp_id (ev_registered e') = rp_id (ev_registered e)) outs = None"
    using Cons.prems(2) by (force simp: o1 find_None_iff)
  have "published (o1 # outs) p = published outs (?f p)" for p
    using none by (auto simp: published_def o1 split: option.split)
  moreover have "distinct (map rp_id (map ?f peers))"
    using Cons.prems(1) by (subst distinct_map_same_id) auto
  ultimately show ?case
    using Cons.IH [of "map ?f peers"] Cons.prems by (simp add: o1 publish_Cons comp_def del: publish.simps)
qed (simp add: published_def map_idI)

lemma prune_filter:
  assumes "distinct (map rp_id peers)"
  shows "prune outs peers =
    filter (\<lambda>p. \<forall>(e, ok) \<in> set outs. ok \<or> rp_id p \<noteq> rp_id (ev_registered e)) peers"
  using assms
proof (induction outs arbitrary: peers)
  case (Cons o1 outs)
  obtain e ok where o1: "o1 = (e, ok)" by (cases o1)
  have "distinct (map rp_id (filter (\<lambda>p. ok \<or> rp_id p \<noteq> rp_id (ev_registered e)) peers))"
    using Cons.prems by (rule List.distinct_map_filter)
  then show ?case
    using Cons.IH Cons.prems by (simp add: o1 prune_Cons conj_commute del: prune.simps)
qed simp

lemma find_SomeD: "List.find P xs = Some x \<Longrightarrow> x \<in> set xs \<and> P x"
  by (induction xs) (auto split: if_splits)

lemma registered_evaluated [simp]: "ev_registered (evaluate_peer env w c p) = p"
  by (simp add: evaluate_peer_def Let_def)

lemma fanout_closed_form:
  fixes ok :: "registered_peer \<Rightarrow> bool"
  assumes "distinct (map rp_id peers)"
  shows "prune (map (\<lambda>p. (evaluate_peer env w c p, ok p)) peers)
      (publish (map (\<lambda>p. (evaluate_peer env w c p, ok p)) peers) peers) =
    map (\<lambda>p. into_published (evaluate_peer env w c p)) (filter ok peers)"
proof -
  let ?outs = "map (\<lambda>p. (evaluate_peer env w c p, ok p)) peers"
  have same: "q = p" if "p \<in> set peers" "q \<in> set peers" "rp_id q = rp_id p" for p q
    using that assms by (auto simp: distinct_map inj_on_def)
  have pub: "published ?outs p = (if ok p then into_published (evaluate_peer env w c p) else p)"
    if p: "p \<in> set peers" for p
  proof (cases "List.find (\<lambda>(e, k). k \<and> rp_id (ev_registered e) = rp_id p) ?outs")
    case None
    then have "\<not> ok p" using p by (auto simp: find_None_iff)
    then show ?thesis using None by (simp add: published_def)
  next
    case (Some r)
    from find_SomeD [OF this]
    obtain q where "q \<in> set peers" "r = (evaluate_peer env w c q, ok q)" "ok q" "rp_id q = rp_id p"
      by auto
    with Some show ?thesis using same [OF p] by (auto simp: published_def)
  qed
  have keep: "(\<forall>(e, k) \<in> set ?outs. k \<or> rp_id (published ?outs p) \<noteq> rp_id (ev_registered e)) \<longleftrightarrow> ok p"
    if p: "p \<in> set peers" for p
  proof -
    have "(\<forall>q \<in> set peers. ok q \<or> rp_id p \<noteq> rp_id q) \<longleftrightarrow> ok p" using p same by metis
    then show ?thesis by simp
  qed
  have "publish ?outs peers = map (published ?outs) peers"
    using assms by (intro publish_map) (simp_all add: comp_def)
  moreover have "distinct (map rp_id (map (published ?outs) peers))"
    using assms by (simp add: comp_def)
  ultimately have "prune ?outs (publish ?outs peers) = map (published ?outs)
      (filter (\<lambda>p. \<forall>(e, k) \<in> set ?outs. k \<or> rp_id (published ?outs p) \<noteq> rp_id (ev_registered e)) peers)"
    by (simp add: prune_filter filter_map comp_def)
  also have "\<dots> = map (published ?outs) (filter ok peers)"
    using keep by (intro arg_cong [where f = "map _"] filter_cong) auto
  also have "\<dots> = map (\<lambda>p. into_published (evaluate_peer env w c p)) (filter ok peers)"
    by (auto simp: pub)
  finally show ?thesis .
qed

lemma notify_catalog_peers_closed:
  assumes "distinct (map rp_id peers)"
  shows "notify_catalog_peers env w c an peers =
    (if list_all (\<lambda>p. \<not> any_change (ev_changes (evaluate_peer env w c p))) peers then peers
     else map (\<lambda>p. into_published (evaluate_peer env w c p))
       (filter (\<lambda>p. send_peer (an (rp_id p)) (evaluate_peer env w c p)) peers))"
proof -
  have none: "list_all (\<lambda>p. \<not> any_change (ev_changes (evaluate_peer env w c p))) peers" if "\<not> any_change c"
    using that by (auto simp: list_all_iff any_change_def evaluate_peer_def Let_def)
  have "notify_catalog_peers env w c an peers =
      (if list_all (\<lambda>p. \<not> any_change (ev_changes (evaluate_peer env w c p))) peers then peers
       else prune (map (\<lambda>p. (evaluate_peer env w c p, send_peer (an (rp_id p)) (evaluate_peer env w c p))) peers)
         (publish (map (\<lambda>p. (evaluate_peer env w c p, send_peer (an (rp_id p)) (evaluate_peer env w c p))) peers) peers))"
    using none by (auto simp: notify_catalog_peers_def Let_def list.pred_map comp_def)
  then show ?thesis using fanout_closed_form [OF assms] by simp
qed


section \<open>Runs with several fan-outs\<close>

text \<open>
  Registration identifiers are unique in every run, and no fan-out brings back a session that has
  disconnected: only registration adds one.
\<close>

definition ids_ok :: "fan_state \<Rightarrow> bool" where
  "ids_ok st = (distinct (map rp_id (fs_peers st)) \<and> (\<forall>p \<in> set (fs_peers st). rp_id p < fs_next_id st))"

lemma publish_ids: "map rp_id (publish outs peers) = map rp_id peers"
proof (induction outs arbitrary: peers)
  case (Cons o1 outs)
  have "map rp_id (peers[n := q]) = map rp_id peers" if "registration_index (rp_id q) peers = Some n" for n q
    using that by (induction peers arbitrary: n) (auto split: if_splits)
  then show ?case using Cons by (cases o1) (auto split: option.split)
qed simp

definition ids_within :: "registered_peer list \<Rightarrow> registered_peer list \<Rightarrow> bool" where
  "ids_within peers' peers = (distinct (map rp_id peers') \<and> rp_id ` set peers' \<subseteq> rp_id ` set peers)"

lemma ids_within_published:
  assumes "distinct (map rp_id peers)"
  shows "ids_within (prune outs (publish outs peers)) peers"
proof -
  have d: "distinct (map rp_id (publish outs peers))" using assms by (simp add: publish_ids)
  have "rp_id ` set (publish outs peers) = rp_id ` set peers"
    using arg_cong [OF publish_ids, of set outs peers] by simp
  then show ?thesis
    unfolding ids_within_def prune_filter [OF d] using d List.distinct_map_filter by auto
qed

lemma run_fan_ids:
  assumes "distinct (map rp_id peers)"
  shows "ids_within (fst (snd (run_fan env w peers j an f))) peers"
proof -
  have refl: "ids_within peers peers" using assms by (simp add: ids_within_def)
  show ?thesis
  proof (cases f)
    case (FanSend rs)
    then show ?thesis
      using refl ids_within_published [OF assms] by (simp add: run_fan_def Let_def)
  next
    case (FanEval c ps es)
    then show ?thesis using refl by (cases ps) (simp_all add: run_fan_def)
  qed (use refl in \<open>simp add: run_fan_def\<close>)
qed

lemma ids_ok_step: "ids_ok st \<Longrightarrow> ids_ok (fst (fan_step env a st))"
proof (cases a)
  case (RunFan i j an)
  assume ok: "ids_ok st"
  then have "ids_within (fst (snd (run_fan env (fs_world st) (fs_peers st) j an f))) (fs_peers st)" for f
    by (intro run_fan_ids) (simp add: ids_ok_def)
  then have "ids_within (fs_peers (fst (fan_step env a st))) (fs_peers st)"
    using ok by (auto simp: RunFan split_beta ids_ok_def ids_within_def)
  moreover have "fs_next_id (fst (fan_step env a st)) = fs_next_id st"
    by (auto simp: RunFan split: prod.split)
  ultimately show ?thesis using ok by (fastforce simp: ids_ok_def ids_within_def)
next
  case (Unlisten i)
  assume "ids_ok st"
  then show ?thesis
    by (auto simp: Unlisten ids_ok_def listen_cancelled_def intro: List.distinct_map_filter)
qed (auto simp: ids_ok_def listen_seed_def listen_join_def split: prod.split)

lemma ids_ok_run: "ids_ok st \<Longrightarrow> ids_ok (fst (fan_run env as st))"
proof (induction as arbitrary: st)
  case (Cons a as)
  have "fst (fan_run env (a # as) st) = fst (fan_run env as (fst (fan_step env a st)))"
    by (simp add: Let_def split: prod.split)
  then show ?case using Cons ids_ok_step by metis
qed simp

section \<open>What the contract hash depends on\<close>

lemma length_be_bytes [simp]: "length (be_bytes k n) = k"
  by (induction k arbitrary: n) simp_all

lemma be_bytes_inj: "n < 256 ^ k \<Longrightarrow> m < 256 ^ k \<Longrightarrow> be_bytes k n = be_bytes k m \<Longrightarrow> n = m"
proof (induction k arbitrary: n m)
  case (Suc k)
  have same: "be_bytes k (n div 256) = be_bytes k (m div 256)"
    "byte (char_of (n mod 256)) = byte (char_of (m mod 256))"
    using Suc.prems(3) by simp_all
  have "n div 256 = m div 256"
    using Suc.IH [OF _ _ same(1)] Suc.prems(1,2) by (simp add: less_mult_imp_div_less mult.commute)
  moreover have "n mod 256 = m mod 256" using same(2) by (simp only: of_char_of mod_mod_trivial)
  ultimately show ?case by (metis div_mult_mod_eq)
qed simp

lemma prefixed_inj:
  assumes "length a < 2 ^ 64" "length b < 2 ^ 64" "hash_len_prefixed a @ r = hash_len_prefixed b @ r'"
  shows "a = b \<and> r = r'"
proof -
  have "be_bytes 8 (length a) = be_bytes 8 (length b)" "a @ r = b @ r'"
    using assms by (simp_all add: hash_len_prefixed_def)
  then show ?thesis using be_bytes_inj [of "length a" 8 "length b"] assms(1,2) by simp
qed

abbreviation frame :: "string \<times> string \<Rightarrow> string" where
  "frame \<equiv> \<lambda>(name, bytes). hash_len_prefixed name @ hash_len_prefixed bytes"

abbreviation short_entry :: "string \<times> string \<Rightarrow> bool" where
  "short_entry e \<equiv> length (fst e) < 2 ^ 64 \<and> length (snd e) < 2 ^ 64"

lemma prefixed_nonempty [simp]: "hash_len_prefixed x \<noteq> []"
  unfolding hash_len_prefixed_def by (metis append_is_Nil_conv length_be_bytes list.size(3) zero_neq_numeral)

lemma frames_inj:
  "\<forall>e \<in> set xs \<union> set ys. short_entry e \<Longrightarrow> concat (map frame xs) = concat (map frame ys) \<Longrightarrow> xs = ys"
proof (induction xs arbitrary: ys)
  case Nil
  then show ?case by (cases ys) (auto simp: split_beta)
next
  case (Cons x xs)
  then obtain y ys' where ys: "ys = y # ys'"
    by (cases ys) (auto simp: split_beta)
  have "hash_len_prefixed (fst x) @ hash_len_prefixed (snd x) @ concat (map frame xs) =
      hash_len_prefixed (fst y) @ hash_len_prefixed (snd y) @ concat (map frame ys')"
    using Cons.prems(2) by (cases x; cases y) (simp add: ys)
  moreover have "length (fst x) < 2 ^ 64" "length (snd x) < 2 ^ 64" "length (fst y) < 2 ^ 64" "length (snd y) < 2 ^ 64"
    using Cons.prems(1) by (simp_all add: ys)
  ultimately have "fst x = fst y" "snd x = snd y" "concat (map frame xs) = concat (map frame ys')"
    using prefixed_inj by blast+
  then show ?case using Cons.IH [of ys'] Cons.prems(1) by (simp add: ys prod_eq_iff)
qed

text \<open>
  The input of the hash determines the descriptors up to their order, and their order does not
  matter: neither the order of the catalog nor that in which connections complete.
\<close>

theorem hash_input_exact:
  assumes "\<forall>d \<in> set ds \<union> set ds'. short_entry (canonical_entry env d)"
  shows "hash_input env ds = hash_input env ds' \<longleftrightarrow>
    mset (map (canonical_entry env) ds) = mset (map (canonical_entry env) ds')"
proof
  assume "hash_input env ds = hash_input env ds'"
  then have "sort (map (canonical_entry env) ds) = sort (map (canonical_entry env) ds')"
    using assms unfolding hash_input_def by (intro frames_inj) auto
  then show "mset (map (canonical_entry env) ds) = mset (map (canonical_entry env) ds')"
    by (metis mset_sort)
next
  assume "mset (map (canonical_entry env) ds) = mset (map (canonical_entry env) ds')"
  then show "hash_input env ds = hash_input env ds'"
    by (metis hash_input_def sorted_list_of_multiset_mset)
qed

section \<open>A change that is lost\<close>

text \<open>
  Two sessions of a process without a gateway; the Code Mode app is switched on and off again. The
  second session is slow: its send times out.
\<close>

definition app_world :: "bool \<Rightarrow> mcp_world" where
  "app_world on =
     \<lparr>mw_services = [], mw_gateway = None, mw_service_meta = (\<lambda>_. False), mw_pool = None,
      mw_process_code_mode = True, mw_app_enabled = on, mw_acquire = (\<lambda>_ _. None), mw_completion = id\<rparr>"

definition fan_init :: "mcp_world \<Rightarrow> fan_state" where
  "fan_init w = \<lparr>fs_world = w, fs_peers = [], fs_joining = [], fs_fanouts = [], fs_next_id = 1\<rparr>"

definition tools_only :: notification_changes where
  "tools_only = \<lparr>nc_tools = True, nc_resources = False, nc_prompts = False\<rparr>"

definition wants_tools :: subscription_filter where
  "wants_tools = \<lparr>sf_tools = Some True, sf_resources = None, sf_prompts = None,
     sf_resource_subscriptions = None\<rparr>"

definition reached :: answers where
  "reached = \<lparr>an_in_time = True, an_tools = True, an_resources = True, an_prompts = True\<rparr>"

definition stdio_session :: peer_contract where
  "stdio_session = peer_contract_for_request Root None"

definition lost_change :: "fan_action list" where
  "lost_change =
     [Seed stdio_session wants_tools, Join 0, Seed stdio_session wants_tools, Join 0,
      ChangeWorld (app_world True), StartFan tools_only,
      RunFan 0 0 reached, RunFan 0 0 reached, RunFan 0 0 reached, RunFan 0 0 reached, RunFan 0 0 reached,
      ChangeWorld (app_world False), StartFan tools_only,
      RunFan 1 0 reached, RunFan 1 0 reached, RunFan 1 0 reached, RunFan 1 0 reached,
      RunFan 0 1 (reached\<lparr>an_in_time := False\<rparr>), RunFan 0 0 reached]"

lemma app_world_tools:
  "tc_tools (visible_contract env (app_world on) stdio_session) =
     {''codemode'', ''mcp_app''} \<union> (if on then {''codemode_ui''} else {})"
proof -
  have vis: "code_mode_visibility (app_world on) Root = InProcessPeer"
    "add_server_app_available (app_world on) Root = False"
    "gateway_status_app_available (app_world on) Root = False"
    "code_mode_upstreams_for_description (app_world on) Root = []"
    "current_upstream_pool (app_world on) = None" "mw_services (app_world on) = []"
    "mw_app_enabled (app_world on) = on"
    by (simp_all add: code_mode_visibility_def code_mode_enabled_def add_server_app_available_def
        gateway_status_app_available_def code_mode_upstreams_for_description_def
        current_upstream_pool_def app_world_def)
  have pc: "pc_route_scope stdio_session = Root"
    "au_code_mode_execute_allowed (pc_audience stdio_session)"
    by (simp_all add: stdio_session_def peer_contract_for_request_def tool_execute_scope_allowed_def)
  have "visible_tool_descriptors (app_world on) stdio_session =
      [CodeModeTool []] @ (if on then [CodeModeUiTool []] else []) @ [McpAppTool]"
    unfolding visible_tool_descriptors_def visible_builder_def Let_def pc vis push_code_mode_def
    by (simp add: pc exposes_synthetic_tools_def push_when_def add_descriptor_def)
  then show ?thesis by (auto simp: visible_contract_def from_descriptors_def)
qed

lemma app_world_differs:
  "visible_contract env (app_world True) stdio_session \<noteq> visible_contract env (app_world False) stdio_session"
proof -
  have "''codemode_ui'' \<in> tc_tools (visible_contract env (app_world True) stdio_session)"
    "''codemode_ui'' \<notin> tc_tools (visible_contract env (app_world False) stdio_session)"
    by (simp_all add: app_world_tools)
  then show ?thesis by metis
qed

text \<open>
  C26. Fan-outs can overlap, and then a session is left with a contract that is no longer true: the
  Code Mode app is switched on, the first fan-out tells the fast session and waits for a slow one;
  the app is switched off, and the second fan-out compares with the contract from before the first,
  finds no difference and ends; then the first records the contract it saw. When every fan-out has
  ended the session has been told once, of the tools that are gone, and its last contract is not
  what it would list.
\<close>

theorem overlapping_fanouts_lose_change:
  "\<exists>st. fan_run env lost_change (fan_init (app_world False)) = (st, [1])
    \<and> fs_fanouts st = [] \<and> fs_world st = app_world False
    \<and> (\<exists>p. fs_peers st = [p] \<and> rp_id p = 1 \<and> wants_tool_list_changed (rp_target p)
         \<and> rp_last_contract p = visible_contract env (app_world True) (rp_contract p)
         \<and> rp_last_contract p \<noteq> visible_contract env (fs_world st) (rp_contract p))"
proof -
  note differs = app_world_differs [of env] app_world_differs [of env, symmetric]
  show ?thesis
    using differs
    by (simp add: lost_change_def fan_init_def listen_seed_def listen_join_def run_fan_def
        evaluate_peer_def Let_def tools_only_def wants_tools_def any_change_def reached_def send_peer_def
        wants_tool_list_changed_def into_published_def) blast
qed

definition demo_contract_env :: contract_env where
  "demo_contract_env = \<lparr>ce_json = (\<lambda>_. JNull), ce_bytes = (\<lambda>_. ''null''), ce_sha256 = id\<rparr>"

definition demo_peer :: registered_peer where
  "demo_peer = \<lparr>rp_id = 1, rp_target = wants_tools, rp_contract = stdio_session,
     rp_last_contract = visible_contract demo_contract_env (app_world False) stdio_session\<rparr>"


end
